(* ===== verification/Prelude.thy ===== *)
theory Prelude
  imports Complex_Main
begin

text \<open>
  Shared material of the FlowX development: fact collections, the error values of the Go code
  (an error is a sentinel, a driver error, or a wrapper made by \<^verbatim>\<open>fmt.Errorf("...: %w", err)\<close>),
  SQL tables as lists of rows with the conditional \<^verbatim>\<open>UPDATE ... WHERE\<close> the repositories
  are made of, and a few lemmas on lists the components share.
\<close>

named_theorems table_simps \<open>rewrite rules on tables: select, update, count\<close>
named_theorems err_simps \<open>rewrite rules on errors: wrapping, errors.Is\<close>

type_synonym decimal = rat
type_synonym go_time = int  \<comment> \<open>nanoseconds since the Unix epoch, UTC\<close>

section \<open>Errors\<close>

text \<open>
  The sentinels of \<^verbatim>\<open>internal/domain/errors.go\<close> and the one sentinel of
  \<^verbatim>\<open>internal/compliance/sanctions.go\<close>.
\<close>

datatype dom_err =
    ErrWalletNotFound | ErrTransactionNotFound | ErrInsufficientBalance | ErrStellarSubmission
  | ErrDecryptionFailed | ErrSlippageExceeded | ErrInvalidAsset | ErrSelfTransfer
  | ErrInvalidDestinationAddress | ErrFeeScheduleNotFound | ErrReconciliationFailed
  | ErrWebhookNotFound | ErrWebhookDeliveryNotFound | ErrQuoteExpired | ErrQuoteAlreadyUsed
  | ErrQuoteOwnershipMismatch | ErrInvalidQuoteAmount | ErrUnsupportedPair | ErrNoLiquidity
  | ErrBatchNotFound | ErrBatchTooLarge | ErrBatchEmpty | ErrScheduleNotFound | ErrUserNotFound
  | ErrUserAlreadyExists | ErrInvalidCredentials | ErrOrgMemberNotFound | ErrInviteNotFound
  | ErrForbidden | ErrWalletLimitReached | ErrTransferLimitReached | ErrWebhookLimitReached
  | ErrInsufficientSweepableBalance | ErrTreasuryConfigNotFound | ErrConcurrentUpdate
  | ErrSubPrecisionAmount | ErrOwnerKeyRequired | ErrNotContractWallet | ErrNoContractSigner
  | ErrContractWasmNotConfigured | ErrTrustlineNotApplicable | ErrTransferBlockedSanctions
  | ErrComplianceReviewNotFound | ErrReviewNotPending | ErrSanctionsSetNotLoaded

text \<open>
  A Go error value. \<open>HorizonError\<close> is the error type of the Horizon client library with the two
  fields the code reads: \<^verbatim>\<open>Problem.Status\<close> and the HTTP status line \<^verbatim>\<open>Response.Status\<close>.
  \<open>Opaque\<close> is any other error, given by its message.
\<close>

datatype err =
    Dom dom_err
  | NoTrustline string
  | HorizonError int string
  | Opaque string
  | Wrap string err

text \<open>\<^verbatim>\<open>errors.Is\<close>: compare with the error and with everything it wraps.\<close>

fun err_is :: "err \<Rightarrow> err \<Rightarrow> bool" where
  "err_is (Wrap s e) t = (Wrap s e = t \<or> err_is e t)"
| "err_is e t = (e = t)"

text \<open>A type assertion looks at the error itself, never through a wrapper.\<close>

fun as_horizon :: "err \<Rightarrow> (int \<times> string) option" where
  "as_horizon (HorizonError st line) = Some (st, line)"
| "as_horizon _ = None"

lemma err_is_Wrap_Dom [simp, err_simps]: "err_is (Wrap s e) (Dom d) = err_is e (Dom d)"
  by simp

lemma as_horizon_Wrap [simp, err_simps]: "as_horizon (Wrap s e) = None"
  by simp

fun the_default :: "'a \<Rightarrow> 'a option \<Rightarrow> 'a" where
  "the_default d None = d"
| "the_default d (Some x) = x"

section \<open>Optional strings\<close>

text \<open>The repositories write an empty string or a pointer to one as NULL.\<close>

definition ptr_of :: "string \<Rightarrow> string option" where
  "ptr_of s = (if s = '''' then None else Some s)"

definition null_ptr :: "string option \<Rightarrow> string option" where
  "null_ptr p = (if p = Some '''' then None else p)"

lemma ptr_of_simps [simp]: "ptr_of '''' = None" "s \<noteq> '''' \<Longrightarrow> ptr_of s = Some s"
  by (auto simp: ptr_of_def)

lemma null_ptr_ptr_of [simp]: "null_ptr (ptr_of s) = ptr_of s"
  by (auto simp: null_ptr_def ptr_of_def)

lemma null_ptr_None [simp]: "null_ptr None = None"
  by (simp add: null_ptr_def)

lemma null_ptr_idem [simp]: "null_ptr (null_ptr p) = null_ptr p"
  by (simp add: null_ptr_def)

section \<open>SQL tables as lists of rows\<close>

text \<open>
  A table is the list of its rows in insertion order. An \<^verbatim>\<open>UPDATE ... SET ... WHERE\<close> is one atomic
  step that rewrites the rows the condition selects; \<^verbatim>\<open>RowsAffected\<close> is their number.
\<close>

definition update_where :: "('r \<Rightarrow> bool) \<Rightarrow> ('r \<Rightarrow> 'r) \<Rightarrow> 'r list \<Rightarrow> 'r list" where
  "update_where P f t = map (\<lambda>r. if P r then f r else r) t"

definition rows_affected :: "('r \<Rightarrow> bool) \<Rightarrow> 'r list \<Rightarrow> nat" where
  "rows_affected P t = length (filter P t)"

lemma update_where_Nil [simp]: "update_where P f [] = []"
  by (simp add: update_where_def)

lemma update_where_Cons [simp]:
  "update_where P f (r # t) = (if P r then f r else r) # update_where P f t"
  by (simp add: update_where_def)

lemma update_where_append [simp]:
  "update_where P f (s @ t) = update_where P f s @ update_where P f t"
  by (simp add: update_where_def)

lemma length_update_where [simp, table_simps]: "length (update_where P f t) = length t"
  by (simp add: update_where_def)

lemma rows_affected_0 [table_simps]: "rows_affected P t = 0 \<longleftrightarrow> (\<forall>r \<in> set t. \<not> P r)"
  by (induction t) (auto simp: rows_affected_def)

lemma update_where_id:
  "(\<forall>r \<in> set t. P r \<longrightarrow> f r = r) \<Longrightarrow> update_where P f t = t"
  by (induction t) auto

lemma update_where_none [table_simps]: "rows_affected P t = 0 \<Longrightarrow> update_where P f t = t"
  by (rule update_where_id) (auto simp: rows_affected_0)

lemma map_key_update_where [table_simps]:
  "(\<And>r. k (f r) = k r) \<Longrightarrow> map k (update_where P f t) = map k t"
  by (induction t) auto

lemma set_update_where:
  "set (update_where P f t) = (\<lambda>r. if P r then f r else r) ` set t"
  by (simp add: update_where_def)

text \<open>The row with a given key, for tables whose key column is unique.\<close>

definition row_with :: "('r \<Rightarrow> 'k) \<Rightarrow> 'k \<Rightarrow> 'r list \<Rightarrow> 'r option" where
  "row_with k x t = find (\<lambda>r. k r = x) t"

lemma row_with_Nil [simp]: "row_with k x [] = None"
  by (simp add: row_with_def)

lemma row_with_Cons [simp]:
  "row_with k x (r # t) = (if k r = x then Some r else row_with k x t)"
  by (simp add: row_with_def)

lemma row_with_append:
  "row_with k x (s @ t) = (case row_with k x s of None \<Rightarrow> row_with k x t | Some r \<Rightarrow> Some r)"
  by (induction s) auto

lemma row_with_SomeD: "row_with k x t = Some r \<Longrightarrow> r \<in> set t \<and> k r = x"
  by (induction t) (auto split: if_splits)

lemma row_with_None: "row_with k x t = None \<longleftrightarrow> x \<notin> k ` set t"
  by (induction t) auto

lemma row_with_update_where [table_simps]:
  assumes "\<And>r. k (f r) = k r"
  shows "row_with k x (update_where P f t)
    = map_option (\<lambda>r. if P r then f r else r) (row_with k x t)"
  by (induction t) (auto simp: assms)

lemma row_with_unique:
  assumes "distinct (map k t)" and "r \<in> set t"
  shows "row_with k (k r) t = Some r"
  using assms by (induction t) auto

text \<open>A conditional update of one key, and the row that was inserted last.\<close>

lemma keyed_update:
  assumes "\<And>r. k (f r) = k r"
  shows "row_with k j (update_where (\<lambda>r. k r = i \<and> Q r) f t) =
    (if j = i then map_option (\<lambda>r. if Q r then f r else r) (row_with k i t) else row_with k j t)"
proof (induction t)
  case (Cons r t)
  then show ?case by (auto simp: assms)
qed simp

lemma row_with_last:
  assumes "\<forall>x \<in> set t. k x \<noteq> k r"
  shows "row_with k (k r) (t @ [r]) = Some r"
  using assms by (induction t) auto

lemma update_last:
  assumes "\<forall>x \<in> set t. k x \<noteq> k r"
  shows "update_where (\<lambda>x. k x = k r \<and> P x) f (t @ [r]) = t @ [if P r then f r else r]"
  using assms by (induction t) auto

lemma affected_last:
  assumes "P r" and "k r = i"
  shows "rows_affected (\<lambda>x. k x = i \<and> P x) (t @ [r]) \<noteq> 0"
  using assms by (simp add: rows_affected_def)

lemma rows_affected_key:
  assumes "distinct (map k t)"
  shows "rows_affected (\<lambda>r. k r = x \<and> P r) t
    = (case row_with k x t of None \<Rightarrow> 0 | Some r \<Rightarrow> if P r then 1 else 0)"
  using assms
proof (induction t)
  case Nil
  then show ?case by (simp add: rows_affected_def)
next
  case (Cons a t)
  show ?case
  proof (cases "k a = x")
    case True
    have "\<forall>r \<in> set t. k r \<noteq> x"
    proof
      fix r
      assume "r \<in> set t"
      then have "k r \<in> set (map k t)" by simp
      with Cons.prems True show "k r \<noteq> x" by auto
    qed
    then have "filter (\<lambda>r. k r = x \<and> P r) t = []" by (simp add: filter_empty_conv)
    with True show ?thesis by (simp add: rows_affected_def)
  next
    case False
    with Cons show ?thesis by (simp add: rows_affected_def)
  qed
qed

lemma rows_affected_key_pos:
  "row_with k x t = Some r \<Longrightarrow> P r \<Longrightarrow> rows_affected (\<lambda>r. k r = x \<and> P r) t \<noteq> 0"
  by (auto simp: rows_affected_0 dest: row_with_SomeD)

end
