(* ===== verification/Levenshtein.thy ===== *)
theory Levenshtein
  imports Prelude
begin

text \<open>
  \<^verbatim>\<open>internal/compliance/levenshtein.go\<close>: the bounded edit distance, on the runes of two strings, as the
  code computes it (two rolling rows, the early exit, the length gap), and the proof that it is
  the edit distance cut off at the bound. The decoding of a Go string into runes is here as well:
  a Go string is a sequence of bytes, which is what Isabelle's strings are.
\<close>

section \<open>Runes\<close>

type_synonym rune = nat

definition rune_error :: rune where "rune_error = 65533"

definition is_cont :: "nat \<Rightarrow> bool" where "is_cont b \<longleftrightarrow> 128 \<le> b \<and> b \<le> 191"

text \<open>
  One step of decoding: the rune that starts with byte \<open>b\<close> and how many of the following bytes it
  takes. An ill-formed sequence is one byte of \<^verbatim>\<open>RuneError\<close>. The ranges are those of
  \<^verbatim>\<open>unicode/utf8\<close>: no overlong forms, no surrogates, nothing above U+10FFFF.
\<close>

definition decode_rune :: "nat \<Rightarrow> nat list \<Rightarrow> rune \<times> nat" where
  "decode_rune b bs =
     (if b < 128 then (b, 0)
      else if 194 \<le> b \<and> b \<le> 223 then
        (case bs of c1 # _ \<Rightarrow>
           if is_cont c1 then ((b - 192) * 64 + (c1 - 128), 1) else (rune_error, 0)
         | [] \<Rightarrow> (rune_error, 0))
      else if 224 \<le> b \<and> b \<le> 239 then
        (case bs of c1 # c2 # _ \<Rightarrow>
           if is_cont c1 \<and> is_cont c2 \<and> (b = 224 \<longrightarrow> 160 \<le> c1) \<and> (b = 237 \<longrightarrow> c1 \<le> 159)
           then ((b - 224) * 4096 + (c1 - 128) * 64 + (c2 - 128), 2) else (rune_error, 0)
         | _ \<Rightarrow> (rune_error, 0))
      else if 240 \<le> b \<and> b \<le> 244 then
        (case bs of c1 # c2 # c3 # _ \<Rightarrow>
           if is_cont c1 \<and> is_cont c2 \<and> is_cont c3 \<and> (b = 240 \<longrightarrow> 144 \<le> c1) \<and> (b = 244 \<longrightarrow> c1 \<le> 143)
           then ((b - 240) * 262144 + (c1 - 128) * 4096 + (c2 - 128) * 64 + (c3 - 128), 3)
           else (rune_error, 0)
         | _ \<Rightarrow> (rune_error, 0))
      else (rune_error, 0))"

fun decode_bytes :: "nat list \<Rightarrow> rune list" where
  "decode_bytes [] = []"
| "decode_bytes (b # bs) = fst (decode_rune b bs) # decode_bytes (drop (snd (decode_rune b bs)) bs)"

definition runes :: "string \<Rightarrow> rune list" where
  "runes s = decode_bytes (map of_char s)"

definition rune_len :: "string \<Rightarrow> nat" where
  "rune_len s = length (runes s)"

lemma decode_ascii: "\<forall>b \<in> set bs. b < 128 \<Longrightarrow> decode_bytes bs = bs"
  by (induction bs) (auto simp: decode_rune_def)

section \<open>The code\<close>

definition min3 :: "int \<Rightarrow> int \<Rightarrow> int \<Rightarrow> int" where
  "min3 a b c = (let a1 = (if b < a then b else a) in if c < a1 then c else a1)"

text \<open>
  The inner loop: \<open>p # q # ps\<close> is \<^verbatim>\<open>prev[j-1], prev[j], ...\<close> and \<open>left\<close> is \<^verbatim>\<open>curr[j-1]\<close>. The result
  is the rest of the row and its minimum so far.
\<close>

fun row_cells :: "rune \<Rightarrow> rune list \<Rightarrow> int list \<Rightarrow> int \<Rightarrow> int \<Rightarrow> int list \<times> int" where
  "row_cells x (y # ys) (p # q # ps) left row_min =
     (let c = min3 (left + 1) (q + 1) (p + (if x = y then 0 else 1));
          (cs, m) = row_cells x ys (q # ps) c (if c < row_min then c else row_min)
      in (c # cs, m))"
| "row_cells x _ _ left row_min = ([], row_min)"

text \<open>
  The outer loop over \<^verbatim>\<open>ar\<close>; \<open>i\<close> is the row number. \<open>None\<close> is the early return of \<^verbatim>\<open>max + 1\<close>.
\<close>

fun lev_rows :: "int \<Rightarrow> rune list \<Rightarrow> int list \<Rightarrow> int \<Rightarrow> rune list \<Rightarrow> int list option" where
  "lev_rows mx ys prev i [] = Some prev"
| "lev_rows mx ys prev i (x # xs) =
     (let (cells, row_min) = row_cells x ys prev i i in
      if row_min > mx then None else lev_rows mx ys (i # cells) (i + 1) xs)"

definition levenshtein_at_most :: "string \<Rightarrow> string \<Rightarrow> int \<Rightarrow> int" where
  "levenshtein_at_most a b mx =
     (if a = b then 0
      else if mx < 0 then 1
      else
        let ar = runes a; br = runes b; diff = int (length ar) - int (length br) in
        if diff > mx \<or> - diff > mx then mx + 1
        else
          let (xs, ys) = (if length ar < length br then (br, ar) else (ar, br)) in
          (case lev_rows mx ys (map int [0..<Suc (length ys)]) 1 xs of
             None \<Rightarrow> mx + 1
           | Some prev \<Rightarrow> if prev ! length ys > mx then mx + 1 else prev ! length ys))"

section \<open>Edit distance\<close>

text \<open>
  The reference: \<open>edits n xs ys\<close> when \<open>xs\<close> can be turned into \<open>ys\<close> position by position with \<open>n\<close>
  substitutions, deletions and insertions; the distance is the least such \<open>n\<close>.
\<close>

inductive edits :: "nat \<Rightarrow> 'a list \<Rightarrow> 'a list \<Rightarrow> bool" where
  edits_nil: "edits 0 [] []"
| edits_keep: "edits n xs ys \<Longrightarrow> edits n (x # xs) (x # ys)"
| edits_subst: "edits n xs ys \<Longrightarrow> edits (Suc n) (x # xs) (y # ys)"
| edits_del: "edits n xs ys \<Longrightarrow> edits (Suc n) (x # xs) ys"
| edits_ins: "edits n xs ys \<Longrightarrow> edits (Suc n) xs (y # ys)"

declare edits.intros [intro]

inductive_cases edits_Nil_leftE: "edits n [] ys"
inductive_cases edits_Cons_leftE: "edits n (x # xs) ys"
inductive_cases edits_Cons_NilE: "edits n (x # xs) []"
inductive_cases edits_Cons_ConsE: "edits n (x # xs) (y # ys)"

fun edit_distance :: "'a list \<Rightarrow> 'a list \<Rightarrow> nat" where
  "edit_distance [] ys = length ys"
| "edit_distance (x # xs) [] = Suc (length xs)"
| "edit_distance (x # xs) (y # ys) =
     min (Suc (edit_distance (x # xs) ys))
       (min (Suc (edit_distance xs (y # ys))) (edit_distance xs ys + (if x = y then 0 else 1)))"

lemma edit_distance_Nil2 [simp]: "edit_distance xs [] = length xs"
  by (cases xs) simp_all

lemma edits_Nil_left: "edits (length ys) [] ys"
  by (induction ys) auto

lemma edits_Nil_right: "edits (length xs) xs []"
  by (induction xs) auto

lemma edits_distance: "edits (edit_distance xs ys) xs ys"
proof (induction xs ys rule: edit_distance.induct)
  case (1 ys)
  show ?case by (simp add: edits_Nil_left)
next
  case (2 x xs)
  show ?case using edits_Nil_right [of "x # xs"] by simp
next
  case (3 x xs y ys)
  let ?i = "Suc (edit_distance (x # xs) ys)" and ?d = "Suc (edit_distance xs (y # ys))"
    and ?s = "edit_distance xs ys + (if x = y then 0 else 1)"
  have i: "edits ?i (x # xs) (y # ys)" using 3(1) by (rule edits_ins)
  have d: "edits ?d (x # xs) (y # ys)" using 3(2) by (rule edits_del)
  have s: "edits ?s (x # xs) (y # ys)"
    using 3(3) edits_keep edits_subst by (cases "x = y") fastforce+
  have "edit_distance (x # xs) (y # ys) \<in> {?i, ?d, ?s}" by (simp add: min_def)
  with i d s show ?case by auto
qed

lemma edits_length: "edits n xs ys \<Longrightarrow> length xs \<le> length ys + n \<and> length ys \<le> length xs + n"
  by (induction rule: edits.induct) auto

lemma distance_le_edits: "edits n xs ys \<Longrightarrow> edit_distance xs ys \<le> n"
proof (induction rule: edits.induct)
  case edits_nil
  show ?case by simp
next
  case (edits_keep n xs ys x)
  then show ?case by (simp add: min_def)
next
  case (edits_subst n xs ys x y)
  then show ?case by (simp add: min_def)
next
  case (edits_del n xs ys x)
  then show ?case by (cases ys) auto
next
  case (edits_ins n xs ys y)
  then show ?case by (cases xs) auto
qed

lemma edit_distance_least: "edit_distance xs ys = (LEAST n. edits n xs ys)"
  by (rule sym, rule Least_equality) (auto intro: edits_distance distance_le_edits)

lemma edits_append: "edits n xs ys \<Longrightarrow> edits m us vs \<Longrightarrow> edits (n + m) (xs @ us) (ys @ vs)"
  by (induction rule: edits.induct) auto

lemma edits_rev: "edits n xs ys \<Longrightarrow> edits n (rev xs) (rev ys)"
proof (induction rule: edits.induct)
  case (edits_keep n xs ys x)
  have "edits 0 [x] [x]" by auto
  with edits_append [OF edits_keep.IH] show ?case by fastforce
next
  case (edits_subst n xs ys x y)
  have "edits (Suc 0) [x] [y]" by auto
  with edits_append [OF edits_subst.IH] show ?case by fastforce
next
  case (edits_del n xs ys x)
  have "edits (Suc 0) [x] []" by auto
  with edits_append [OF edits_del.IH] show ?case by fastforce
next
  case (edits_ins n xs ys y)
  have "edits (Suc 0) [] [y]" by auto
  with edits_append [OF edits_ins.IH] show ?case by fastforce
qed auto

lemma edits_sym: "edits n xs ys \<Longrightarrow> edits n ys xs"
  by (induction rule: edits.induct) auto

lemma edit_distance_rev: "edit_distance (rev xs) (rev ys) = edit_distance xs ys"
proof (rule antisym)
  show "edit_distance (rev xs) (rev ys) \<le> edit_distance xs ys"
    by (intro distance_le_edits edits_rev edits_distance)
  have "edits (edit_distance (rev xs) (rev ys)) (rev (rev xs)) (rev (rev ys))"
    by (intro edits_rev edits_distance)
  then show "edit_distance xs ys \<le> edit_distance (rev xs) (rev ys)"
    by (simp add: distance_le_edits)
qed

lemma edit_distance_sym: "edit_distance xs ys = edit_distance ys xs"
  by (rule antisym) (rule distance_le_edits [OF edits_sym [OF edits_distance]])+

lemma edit_distance_0: "edit_distance xs ys = 0 \<longleftrightarrow> xs = ys"
proof
  have "edits n xs ys \<Longrightarrow> n = 0 \<Longrightarrow> xs = ys" for n
    by (induction rule: edits.induct) auto
  then show "edit_distance xs ys = 0 \<Longrightarrow> xs = ys" using edits_distance by metis
  have "edits 0 xs xs" by (induction xs) auto
  then show "xs = ys \<Longrightarrow> edit_distance xs ys = 0" using distance_le_edits by fastforce
qed

lemma edit_distance_refl [simp]: "edit_distance xs xs = 0"
  by (simp add: edit_distance_0)

lemma edit_distance_length: "\<bar>int (length xs) - int (length ys)\<bar> \<le> int (edit_distance xs ys)"
  using edits_length [OF edits_distance, of xs ys] by linarith

text \<open>The left part of an alignment: some suffix of the target is reached from a suffix of the source.\<close>

lemma edits_suffix:
  "edits n ws zs \<Longrightarrow> ws = vs @ us \<Longrightarrow> \<exists>z1 z2 m. zs = z1 @ z2 \<and> m \<le> n \<and> edits m us z2"
proof (induction arbitrary: vs rule: edits.induct)
  case edits_nil
  then show ?case by auto
next
  case (edits_keep n xs ys x)
  show ?case
  proof (cases vs)
    case Nil
    with edits_keep show ?thesis by (metis append_Nil edits.edits_keep order_refl)
  next
    case (Cons v vs')
    with edits_keep show ?thesis by (metis append_Cons list.inject)
  qed
next
  case (edits_subst n xs ys x y)
  show ?case
  proof (cases vs)
    case Nil
    with edits_subst show ?thesis by (metis append_Nil edits.edits_subst order_refl)
  next
    case (Cons v vs')
    with edits_subst show ?thesis by (metis append_Cons list.inject le_SucI)
  qed
next
  case (edits_del n xs ys x)
  show ?case
  proof (cases vs)
    case Nil
    with edits_del show ?thesis by (metis append_Nil edits.edits_del order_refl)
  next
    case (Cons v vs')
    with edits_del show ?thesis by (metis append_Cons list.inject le_SucI)
  qed
next
  case (edits_ins n xs ys y)
  then show ?case by (metis append_Cons le_SucI)
qed

section \<open>The rows hold the distances of the prefixes\<close>

text \<open>
  \<open>dist_row us acc ys\<close> lists the distances between \<open>us\<close> and the reversed prefixes of \<open>ys\<close>, each
  after \<open>acc\<close>. With \<open>us\<close> the reversed prefix of \<^verbatim>\<open>ar\<close>, it is the row of the table.
\<close>

fun dist_row :: "'a list \<Rightarrow> 'a list \<Rightarrow> 'a list \<Rightarrow> int list" where
  "dist_row us acc [] = [int (edit_distance us acc)]"
| "dist_row us acc (y # ys) = int (edit_distance us acc) # dist_row us (y # acc) ys"

lemma dist_row_hd: "dist_row us acc ys = int (edit_distance us acc) # tl (dist_row us acc ys)"
  by (cases ys) simp_all

lemma length_dist_row [simp]: "length (dist_row us acc ys) = Suc (length ys)"
  by (induction ys arbitrary: acc) simp_all

lemma set_dist_row:
  "set (dist_row us acc ys) = {int (edit_distance us z) | z v. rev ys @ acc = v @ z \<and> length acc \<le> length z}"
proof (induction ys arbitrary: acc)
  case Nil
  have "acc = v @ z \<and> length acc \<le> length z \<longleftrightarrow> v = [] \<and> z = acc" for v z by auto
  then show ?case by auto
next
  case (Cons y ys)
  have "rev ys @ y # acc = v @ z \<and> length acc \<le> length z \<longleftrightarrow>
      (v = rev ys @ [y] \<and> z = acc) \<or> (rev ys @ y # acc = v @ z \<and> length (y # acc) \<le> length z)" for v z
  proof (cases "length z = length acc")
    case True
    then have "rev ys @ y # acc = v @ z \<longleftrightarrow> v = rev ys @ [y] \<and> z = acc"
      by (auto simp: append_eq_append_conv [of "rev ys @ [y]" v acc z, simplified])
    with True show ?thesis by auto
  next
    case False
    then show ?thesis by auto
  qed
  then show ?case by (auto simp: Cons.IH)
qed

lemma last_dist_row: "dist_row us acc ys ! length ys = int (edit_distance us (rev ys @ acc))"
  by (induction ys arbitrary: acc) simp_all

lemma dist_row_Nil: "dist_row [] acc ys = map int [length acc..<Suc (length acc + length ys)]"
proof (induction ys arbitrary: acc)
  case Nil
  show ?case by simp
next
  case (Cons y ys)
  have "[length acc..<Suc (length acc + length (y # ys))]
      = length acc # [Suc (length acc)..<Suc (Suc (length acc) + length ys)]"
    by (subst upt_rec) simp
  with Cons [of "y # acc"] show ?case by simp
qed

lemma min3_min: "min3 a b c = min a (min b c)"
  by (auto simp: min3_def min_def Let_def)

lemma row_cells_dist_row:
  "row_cells x ys (dist_row us acc ys) (int (edit_distance (x # us) acc)) m
     = (tl (dist_row (x # us) acc ys), fold min (tl (dist_row (x # us) acc ys)) m)"
proof (induction ys arbitrary: acc m)
  case Nil
  then show ?case by simp
next
  case (Cons y ys)
  let ?c = "int (edit_distance (x # us) (y # acc))"
  have row: "dist_row us acc (y # ys)
      = int (edit_distance us acc) # int (edit_distance us (y # acc)) # tl (dist_row us (y # acc) ys)"
    using dist_row_hd [of us "y # acc" ys] by simp
  have c: "min3 (int (edit_distance (x # us) acc) + 1) (int (edit_distance us (y # acc)) + 1)
      (int (edit_distance us acc) + (if x = y then 0 else 1)) = ?c"
    by (simp add: min3_min min_def)
  have m: "(if ?c < m then ?c else m) = min ?c m" by (simp add: min_def)
  have A: "row_cells x (y # ys) (dist_row us acc (y # ys)) (int (edit_distance (x # us) acc)) m
      = (case row_cells x ys (int (edit_distance us (y # acc)) # tl (dist_row us (y # acc) ys)) ?c
           (min ?c m) of (cs, mm) \<Rightarrow> (?c # cs, mm))"
    unfolding row by (simp only: row_cells.simps c Let_def m)
  have B: "int (edit_distance us (y # acc)) # tl (dist_row us (y # acc) ys) = dist_row us (y # acc) ys"
    by (rule dist_row_hd [symmetric])
  have D: "tl (dist_row (x # us) acc (y # ys)) = ?c # tl (dist_row (x # us) (y # acc) ys)"
    using dist_row_hd [of "x # us" "y # acc" ys] by simp
  show ?case unfolding A B D Cons.IH by simp
qed

lemma fold_min_gt: "(k::int) < fold min xs m \<longleftrightarrow> k < m \<and> (\<forall>x \<in> set xs. k < x)"
  by (induction xs arbitrary: m) auto

lemma row_min_exceeds:
  assumes "\<forall>d \<in> set (dist_row us [] ys). k < d"
  shows "k < int (edit_distance (vs @ us) (rev ys))"
proof -
  obtain z1 z2 m where z: "rev ys = z1 @ z2" and m: "m \<le> edit_distance (vs @ us) (rev ys)"
    and e: "edits m us z2"
    using edits_suffix [OF edits_distance [of "vs @ us" "rev ys"] refl] by blast
  from z have "int (edit_distance us z2) \<in> set (dist_row us [] ys)" by (auto simp: set_dist_row)
  with assms have "k < int (edit_distance us z2)" by blast
  with distance_le_edits [OF e] m show ?thesis by linarith
qed

lemma lev_row_step:
  "lev_rows k ys (dist_row us [] ys) (int (Suc (length us))) (x # xs) =
     (if \<forall>d \<in> set (dist_row (x # us) [] ys). k < d then None
      else lev_rows k ys (dist_row (x # us) [] ys) (int (Suc (length (x # us)))) xs)"
proof -
  let ?row = "dist_row (x # us) [] ys"
  have left: "int (Suc (length us)) = int (edit_distance (x # us) [])" by simp
  have cells: "row_cells x ys (dist_row us [] ys) (int (Suc (length us))) (int (Suc (length us)))
      = (tl ?row, fold min (tl ?row) (int (Suc (length us))))"
    unfolding left by (rule row_cells_dist_row)
  have hd: "int (Suc (length us)) # tl ?row = ?row"
    using dist_row_hd [of "x # us" "[]" ys] by simp
  then have "set ?row = insert (int (Suc (length us))) (set (tl ?row))" by (metis list.simps(15))
  then have exceeds: "k < fold min (tl ?row) (int (Suc (length us))) \<longleftrightarrow> (\<forall>d \<in> set ?row. k < d)"
    by (simp add: fold_min_gt)
  show ?thesis
    by (simp only: lev_rows.simps cells Let_def prod.case exceeds hd) (simp add: add.commute)
qed

lemma lev_rows_Some:
  "lev_rows k ys (dist_row us [] ys) (int (Suc (length us))) xs = Some prev
    \<Longrightarrow> prev = dist_row (rev xs @ us) [] ys"
proof (induction xs arbitrary: us)
  case Nil
  then show ?case by simp
next
  case (Cons x xs)
  from Cons.prems Cons.IH [of "x # us"] show ?case
    unfolding lev_row_step by (simp split: if_splits)
qed

lemma lev_rows_None:
  "lev_rows k ys (dist_row us [] ys) (int (Suc (length us))) xs = None
    \<Longrightarrow> k < int (edit_distance (rev xs @ us) (rev ys))"
proof (induction xs arbitrary: us)
  case Nil
  then show ?case by simp
next
  case (Cons x xs)
  show ?case
  proof (cases "\<forall>d \<in> set (dist_row (x # us) [] ys). k < d")
    case True
    from row_min_exceeds [OF this, of "rev xs"] show ?thesis by simp
  next
    case False
    with Cons.prems Cons.IH [of "x # us"] show ?thesis unfolding lev_row_step by simp
  qed
qed

text \<open>The loop from the first row: the distance, or proof that it exceeds the bound.\<close>

lemma lev_rows_result:
  "(case lev_rows k ys (map int [0..<Suc (length ys)]) 1 xs of
      None \<Rightarrow> k < int (edit_distance xs ys)
    | Some prev \<Rightarrow> prev ! length ys = int (edit_distance xs ys))"
proof -
  have first: "map int [0..<Suc (length ys)] = dist_row [] [] ys" "1 = int (Suc (length ([] :: rune list)))"
    by (simp_all add: dist_row_Nil)
  show ?thesis
    using lev_rows_Some [of k ys "[]" xs] lev_rows_None [of k ys "[]" xs]
    unfolding first by (auto simp: last_dist_row edit_distance_rev split: option.splits)
qed

text \<open>
  For every bound that is not negative the function returns the edit distance of the two rune
  sequences, or the bound plus one when the distance is larger.
\<close>

lemma levenshtein_at_most_eq:
  assumes "0 \<le> k"
  shows "levenshtein_at_most a b k =
    (let d = int (edit_distance (runes a) (runes b)) in if d \<le> k then d else k + 1)"
proof (cases "a = b")
  case True
  with assms show ?thesis by (simp add: levenshtein_at_most_def)
next
  case False
  let ?ar = "runes a" and ?br = "runes b"
  let ?d = "int (edit_distance ?ar ?br)"
  have gap: "\<bar>int (length ?ar) - int (length ?br)\<bar> \<le> ?d" by (rule edit_distance_length)
  show ?thesis
  proof (cases "length ?ar < length ?br")
    case True
    with False assms gap lev_rows_result [of k ?br ?ar] show ?thesis
      by (auto simp: levenshtein_at_most_def Let_def edit_distance_sym [of ?br] simp del: upt_Suc
          split: option.splits)
  next
    case False
    with \<open>a \<noteq> b\<close> assms gap lev_rows_result [of k ?ar ?br] show ?thesis
      by (auto simp: levenshtein_at_most_def Let_def simp del: upt_Suc split: option.splits)
  qed
qed

lemma levenshtein_negative: "k < 0 \<Longrightarrow> levenshtein_at_most a b k = (if a = b then 0 else 1)"
  by (simp add: levenshtein_at_most_def)

section \<open>Properties\<close>

text \<open>
  C9: for a bound that is not negative, \<^verbatim>\<open>levenshteinAtMost\<close> returns the least number of
  substitutions, deletions and insertions of runes that turns one string into the other, or the bound
  plus one when that number is larger.
\<close>

theorem levenshtein_is_bounded_distance:
  assumes "0 \<le> k"
  shows "levenshtein_at_most a b k = min (int (LEAST n. edits n (runes a) (runes b))) (k + 1)"
  using levenshtein_at_most_eq [OF assms, of a b] by (simp add: edit_distance_least [symmetric] Let_def)

lemma levenshtein_is_bounded_distance_witness:
  "levenshtein_at_most ''kitten'' ''sitting'' 5
     = min (int (LEAST n. edits n (runes ''kitten'') (runes ''sitting''))) (5 + 1)
   \<and> levenshtein_at_most ''kitten'' ''sitting'' 5 = 3"
proof
  show "levenshtein_at_most ''kitten'' ''sitting'' 5
     = min (int (LEAST n. edits n (runes ''kitten'') (runes ''sitting''))) (5 + 1)"
    by (rule levenshtein_is_bounded_distance) simp
  show "levenshtein_at_most ''kitten'' ''sitting'' 5 = 3" by code_simp
qed

end
