(* ===== verification/Go_Time.thy ===== *)
theory Go_Time
  imports Prelude
begin

text \<open>
  What the code uses of Go's \<^verbatim>\<open>time\<close> package: durations, and the proleptic Gregorian calendar behind
  \<^verbatim>\<open>Year\<close>, \<^verbatim>\<open>Month\<close>, \<^verbatim>\<open>time.Date\<close> and \<^verbatim>\<open>AddDate\<close>, all in UTC. A date is
  counted in days from 1970-01-01; years run from March to February inside the computation,
  so that a leap day is the last day of its year.
\<close>

definition nanosecond :: int where "nanosecond = 1"
definition second :: int where "second = 1000000000"
definition minute :: int where "minute = 60 * second"
definition hour :: int where "hour = 60 * minute"
definition day_ns :: int where "day_ns = 24 * hour"

lemmas duration_defs = second_def minute_def hour_def day_ns_def

lemma day_ns_pos [simp]: "0 < day_ns"
  by (simp add: duration_defs)

text \<open>Days from 0000-03-01 to the first of March of year \<open>y\<close> (March-based).\<close>

definition march_days :: "int \<Rightarrow> int" where
  "march_days y = 365 * y + y div 4 - y div 100 + y div 400"

text \<open>Days from the first of March to the first day of the March-based month \<open>m\<close> (0 is March).\<close>

definition month_days :: "int \<Rightarrow> int" where
  "month_days m = (153 * m + 2) div 5"

text \<open>
  \<^verbatim>\<open>time.Date(y, m, 1, ...)\<close> as a day count: months outside 1..12 carry into the year, as Go
  normalises them.
\<close>

definition first_of_month :: "int \<Rightarrow> int \<Rightarrow> int" where
  "first_of_month y m =
     (let k = 12 * y + (m - 1) - 2; y' = k div 12; mp = k mod 12
      in march_days y' + month_days mp - 719468)"

definition date_days :: "int \<Rightarrow> int \<Rightarrow> int \<Rightarrow> int" where
  "date_days y m d = first_of_month y m + (d - 1)"

text \<open>
  The inverse. The year is at most the estimate that counts 365 days a year; the search steps down
  from it. \<open>fuel\<close> bounds the search; the estimate is never more than two years off inside a
  400-year cycle, and ten steps are allowed.
\<close>

fun year_down :: "nat \<Rightarrow> int \<Rightarrow> int \<Rightarrow> int" where
  "year_down 0 y n = y"
| "year_down (Suc fuel) y n = (if march_days y \<le> n then y else year_down fuel (y - 1) n)"

fun month_down :: "nat \<Rightarrow> int \<Rightarrow> int" where
  "month_down 0 n = 0"
| "month_down (Suc m) n = (if month_days (int (Suc m)) \<le> n then int (Suc m) else month_down m n)"

definition civil :: "int \<Rightarrow> int \<times> int \<times> int" where
  "civil days =
     (let z = days + 719468; era = z div 146097; doe = z mod 146097;
          yoe = year_down 10 (min 399 (doe div 365)) doe;
          doy = doe - march_days yoe;
          mp = month_down 11 doy;
          d = doy - month_days mp + 1
      in (400 * era + yoe + (if mp \<ge> 10 then 1 else 0),
          (if mp < 10 then mp + 3 else mp - 9), d))"

definition year_of :: "go_time \<Rightarrow> int" where
  "year_of t = fst (civil (t div day_ns))"

definition month_of :: "go_time \<Rightarrow> int" where
  "month_of t = fst (snd (civil (t div day_ns)))"

definition month_start :: "int \<Rightarrow> int \<Rightarrow> go_time" where
  "month_start y m = first_of_month y m * day_ns"

text \<open>\<^verbatim>\<open>t.AddDate(y, m, d)\<close>: the calendar date moves, the time of day stays.\<close>

definition add_date :: "go_time \<Rightarrow> int \<Rightarrow> int \<Rightarrow> int \<Rightarrow> go_time" where
  "add_date t y m d =
     (case civil (t div day_ns) of (cy, cm, cd) \<Rightarrow>
        date_days (cy + y) (cm + m) (cd + d) * day_ns + t mod day_ns)"

section \<open>The calendar is consistent\<close>

lemma month_down_spec:
  assumes "0 \<le> n"
  shows "0 \<le> month_down k n \<and> month_down k n \<le> int k \<and> month_days (month_down k n) \<le> n
    \<and> (month_down k n = int k \<or> n < month_days (month_down k n + 1))"
  using assms by (induction k) (auto simp: month_days_def)

lemma div25_step:
  fixes a b :: int
  assumes "a \<le> b"
  shows "a - a div 25 \<le> b - b div 25"
proof -
  have "b div 25 \<le> (a + (b - a) * 25) div 25"
    using assms by (intro zdiv_mono1) auto
  also have "\<dots> = a div 25 + (b - a)" by simp
  finally show ?thesis by simp
qed

lemma march_days_mono:
  assumes "y \<le> y'"
  shows "march_days y \<le> march_days y'"
proof -
  have q: "y div 4 \<le> y' div 4" using assms by (simp add: zdiv_mono1)
  have "y div 100 = y div 4 div 25" and "y' div 100 = y' div 4 div 25"
    by (simp_all add: zdiv_zmult2_eq [symmetric])
  with div25_step [OF q] have "y div 4 - y div 100 \<le> y' div 4 - y' div 100" by simp
  moreover have "y div 400 \<le> y' div 400" using assms by (simp add: zdiv_mono1)
  ultimately show ?thesis using assms by (simp add: march_days_def)
qed

lemma year_down_spec:
  assumes "march_days (y - int k) \<le> n" and "n < march_days (y + 1)"
  shows "march_days (year_down k y n) \<le> n \<and> n < march_days (year_down k y n + 1)
    \<and> y - int k \<le> year_down k y n \<and> year_down k y n \<le> y"
  using assms
proof (induction k arbitrary: y)
  case 0
  then show ?case by simp
next
  case (Suc k)
  show ?case
  proof (cases "march_days y \<le> n")
    case True
    with Suc.prems show ?thesis by simp
  next
    case False
    have "y - 1 - int k = y - int (Suc k)" by simp
    with False Suc.prems Suc.IH [of "y - 1"] show ?thesis by simp
  qed
qed

lemma march_days_era: "march_days (400 * e + y) = 146097 * e + march_days y"
proof -
  have "(y + (100 * e) * 4) div 4 = 100 * e + y div 4" by (rule div_mult_self1) simp
  moreover have "(y + (4 * e) * 100) div 100 = 4 * e + y div 100" by (rule div_mult_self1) simp
  moreover have "(y + e * 400) div 400 = e + y div 400" by (rule div_mult_self1) simp
  ultimately show ?thesis by (simp add: march_days_def algebra_simps)
qed

lemma first_of_month_index:
  assumes "0 \<le> mp" and "mp \<le> 11"
  shows "first_of_month (y + (if mp \<ge> 10 then 1 else 0)) (if mp < 10 then mp + 3 else mp - 9)
      = march_days y + month_days mp - 719468"
    and "first_of_month (y + (if mp \<ge> 10 then 1 else 0)) ((if mp < 10 then mp + 3 else mp - 9) + 1)
      = (if mp = 11 then march_days (y + 1) else march_days y + month_days (mp + 1)) - 719468"
proof -
  let ?y = "y + (if mp \<ge> 10 then 1 else 0)" and ?m = "if mp < 10 then mp + 3 else mp - 9"
  have k: "12 * ?y + (?m - 1) - 2 = mp + y * 12" "12 * ?y + (?m + 1 - 1) - 2 = mp + 1 + y * 12"
    using assms by auto
  have a: "(mp + y * 12) div 12 = y" "(mp + y * 12) mod 12 = mp" using assms by auto
  have b: "(mp + 1 + y * 12) div 12 = (if mp = 11 then y + 1 else y)"
    "(mp + 1 + y * 12) mod 12 = (if mp = 11 then 0 else mp + 1)" using assms by auto
  show "first_of_month ?y ?m = march_days y + month_days mp - 719468"
    unfolding first_of_month_def Let_def k a by simp
  show "first_of_month ?y (?m + 1)
      = (if mp = 11 then march_days (y + 1) else march_days y + month_days (mp + 1)) - 719468"
    unfolding first_of_month_def Let_def k b by (simp add: month_days_def)
qed

lemma year_in_cycle:
  assumes "0 \<le> n" and "n < 146097"
  defines "e \<equiv> year_down 10 (min 399 (n div 365)) n"
  shows "march_days e \<le> n" and "n < march_days (e + 1)"
proof -
  let ?y = "min 399 (n div 365)"
  have "march_days (?y - int 10) \<le> n"
  proof -
    have "(?y - 10) div 4 \<le> 97" and "-1 \<le> (?y - 10) div 100" and "(?y - 10) div 400 \<le> 0"
      using assms by auto
    moreover have "365 * ?y \<le> n" using assms by auto
    ultimately show ?thesis by (simp add: march_days_def)
  qed
  moreover have "n < march_days (?y + 1)"
  proof (cases "n div 365 \<le> 399")
    case True
    have "(n div 365 + 1) div 100 \<le> (n div 365 + 1) div 4" "0 \<le> (n div 365 + 1) div 400"
      using assms by auto
    moreover have "n < 365 * (n div 365 + 1)" by presburger
    ultimately show ?thesis using True by (simp add: march_days_def min_def)
  next
    case False
    then show ?thesis using assms by (simp add: march_days_def)
  qed
  ultimately show "march_days e \<le> n" "n < march_days (e + 1)"
    using year_down_spec [of ?y 10 n] unfolding e_def by auto
qed

text \<open>
  The calendar date of a day lies in its month: the first of the month is not after it, the first of
  the next month is after it, and \<^verbatim>\<open>time.Date\<close> of the date gives the day back.
\<close>

lemma civil_spec:
  assumes "civil n = (y, m, d)"
  shows "1 \<le> m \<and> m \<le> 12 \<and> 1 \<le> d \<and> first_of_month y m \<le> n \<and> n < first_of_month y (m + 1)
    \<and> date_days y m d = n"
proof -
  define era doe where "era = (n + 719468) div 146097" and "doe = (n + 719468) mod 146097"
  define yoe where "yoe = year_down 10 (min 399 (doe div 365)) doe"
  define mp where "mp = month_down 11 (doe - march_days yoe)"
  have doe: "0 \<le> doe" "doe < 146097" by (simp_all add: doe_def)
  have n: "n = 146097 * era + doe - 719468"
    unfolding era_def doe_def by (simp add: algebra_simps)
  note yr = year_in_cycle [OF doe, folded yoe_def]
  from yr(1) have mp: "0 \<le> mp \<and> mp \<le> 11 \<and> month_days mp \<le> doe - march_days yoe
      \<and> (mp = 11 \<or> doe - march_days yoe < month_days (mp + 1))"
    using month_down_spec [of "doe - march_days yoe" 11] by (simp add: mp_def)
  have ymd: "y = 400 * era + yoe + (if mp \<ge> 10 then 1 else 0)"
    "m = (if mp < 10 then mp + 3 else mp - 9)" "d = doe - march_days yoe - month_days mp + 1"
    using assms unfolding civil_def Let_def era_def [symmetric] doe_def [symmetric]
      yoe_def [symmetric] mp_def [symmetric] by simp_all
  have f: "first_of_month y m = march_days (400 * era + yoe) + month_days mp - 719468"
    "first_of_month y (m + 1) = (if mp = 11 then march_days (400 * era + (yoe + 1))
       else march_days (400 * era + yoe) + month_days (mp + 1)) - 719468"
    unfolding ymd(1,2) using mp first_of_month_index [of mp "400 * era + yoe"]
    by (simp_all only: add.assoc)
  have "1 \<le> m \<and> m \<le> 12 \<and> 1 \<le> d" using mp unfolding ymd(2,3) by auto
  moreover have "first_of_month y m \<le> n" "date_days y m d = n"
    unfolding date_days_def f(1) march_days_era n ymd(3) using mp by simp_all
  moreover have "n < first_of_month y (m + 1)"
    unfolding f(2) march_days_era n using mp yr(2) by auto
  ultimately show ?thesis by blast
qed

lemma month_window:
  "month_start (year_of t) (month_of t) \<le> t \<and> t < month_start (year_of t) (month_of t + 1)"
proof -
  obtain y m d where c: "civil (t div day_ns) = (y, m, d)" by (cases "civil (t div day_ns)") auto
  note s = civil_spec [OF c]
  have "t div day_ns * day_ns \<le> t" and "t < (t div day_ns + 1) * day_ns"
    using pos_mod_bound [OF day_ns_pos, of t] pos_mod_sign [OF day_ns_pos, of t]
      div_mult_mod_eq [of t day_ns] unfolding distrib_right by linarith+
  moreover have "first_of_month y m * day_ns \<le> t div day_ns * day_ns"
    using s by (simp add: mult_right_mono)
  moreover have "(t div day_ns + 1) * day_ns \<le> first_of_month y (m + 1) * day_ns"
    using s less_imp_le [OF day_ns_pos] by (intro mult_right_mono) auto
  ultimately show ?thesis
    unfolding month_start_def year_of_def month_of_def c fst_conv snd_conv by linarith
qed

end
