(* ===== verification/Domain.thy ===== *)
theory Domain
  imports Go_Time
begin

text \<open>
  The data of \<^verbatim>\<open>internal/domain\<close>: statuses and roles as datatypes with the constants of the Go code,
  structs as records, and the small methods on them (\<^verbatim>\<open>Severity\<close>, \<^verbatim>\<open>NetAmount\<close>, the
  tenant limits). Also the interfaces of two packages that are not part of the repository: the
  decimal library (its rounding operations and its text conversions are the fields of
  \<open>decimal_pkg\<close>; a decimal is the rational number it denotes, and its exact operations are those
  of the rationals) and the NUMERIC columns of PostgreSQL (\<open>numeric_col\<close>).
\<close>

section \<open>Decimals and numeric columns\<close>

record decimal_pkg =
  d_div :: "decimal \<Rightarrow> decimal \<Rightarrow> decimal"    \<comment> \<open>\<^verbatim>\<open>Div\<close>: quotient rounded to 16 places\<close>
  d_round :: "decimal \<Rightarrow> nat \<Rightarrow> decimal"      \<comment> \<open>\<^verbatim>\<open>Round(places)\<close>\<close>
  d_fixed :: "decimal \<Rightarrow> nat \<Rightarrow> string"       \<comment> \<open>\<^verbatim>\<open>StringFixed(places)\<close>\<close>
  d_parse :: "string \<Rightarrow> decimal option"        \<comment> \<open>\<^verbatim>\<open>NewFromString\<close>\<close>

definition on_grid :: "nat \<Rightarrow> decimal \<Rightarrow> bool" where
  "on_grid p x \<longleftrightarrow> x * 10 ^ p \<in> \<int>"

text \<open>
  The documented behaviour of the two rounding operations: the result is within half a unit of the
  last place kept, and a number that already has so few places is returned unchanged; rounding
  keeps the order.
\<close>

definition decimal_doc :: "decimal_pkg \<Rightarrow> bool" where
  "decimal_doc D \<longleftrightarrow>
     (\<forall>a b. b \<noteq> 0 \<longrightarrow> \<bar>d_div D a b - a / b\<bar> \<le> 1 / (2 * 10 ^ 16)) \<and>
     (\<forall>a b. b \<noteq> 0 \<longrightarrow> on_grid 16 (a / b) \<longrightarrow> d_div D a b = a / b) \<and>
     (\<forall>x p. \<bar>d_round D x p - x\<bar> \<le> 1 / (2 * 10 ^ p)) \<and>
     (\<forall>x p. on_grid p (d_round D x p)) \<and>
     (\<forall>x p. on_grid p x \<longrightarrow> d_round D x p = x) \<and>
     (\<forall>x y p. x \<le> y \<longrightarrow> d_round D x p \<le> d_round D y p)"

text \<open>
  A concrete package with this behaviour, half away from zero, on which the hypotheses of the
  properties are evaluated.
\<close>

definition round_half_away :: "decimal \<Rightarrow> nat \<Rightarrow> decimal" where
  "round_half_away x p =
     (let k = x * 10 ^ p in
      (if 0 \<le> k then of_int \<lfloor>k + 1 / 2\<rfloor> else - of_int \<lfloor>- k + 1 / 2\<rfloor>) / 10 ^ p)"

definition reference_pkg :: decimal_pkg where
  "reference_pkg =
     \<lparr> d_div = (\<lambda>a b. round_half_away (a / b) 16), d_round = round_half_away,
       d_fixed = (\<lambda>x p. ''''), d_parse = (\<lambda>s. None) \<rparr>"

text \<open>
  Writing a decimal to a column \<^verbatim>\<open>NUMERIC(p, s)\<close>: the value that is stored, or \<open>None\<close> when the
  server reports a numeric field overflow.
\<close>

type_synonym numeric_col = "nat \<Rightarrow> nat \<Rightarrow> decimal \<Rightarrow> decimal option"

definition numeric_doc :: "numeric_col \<Rightarrow> bool" where
  "numeric_doc N \<longleftrightarrow>
     (\<forall>p s x. on_grid s x \<longrightarrow> \<bar>x\<bar> < 10 ^ (p - s) \<longrightarrow> N p s x = Some x)"

lemma decimal_docD:
  assumes "decimal_doc D"
  shows "b \<noteq> 0 \<Longrightarrow> \<bar>d_div D a b - a / b\<bar> \<le> 1 / (2 * 10 ^ 16)"
    and "b \<noteq> 0 \<Longrightarrow> on_grid 16 (a / b) \<Longrightarrow> d_div D a b = a / b"
    and "\<bar>d_round D x p - x\<bar> \<le> 1 / (2 * 10 ^ p)"
    and "on_grid p (d_round D x p)"
    and "on_grid p x \<Longrightarrow> d_round D x p = x"
    and "x \<le> y \<Longrightarrow> d_round D x p \<le> d_round D y p"
  using assms unfolding decimal_doc_def by blast+

section \<open>Transactions\<close>

datatype tx_status =
    StatusPending | StatusSubmitted | StatusConfirmed | StatusFailed
  | StatusReconciliationFailed | StatusComplianceHold

datatype tx_type = TypeTransfer | TypeConversion | TypeFunding

fun status_text :: "tx_status \<Rightarrow> string" where
  "status_text StatusPending = ''pending''"
| "status_text StatusSubmitted = ''submitted''"
| "status_text StatusConfirmed = ''confirmed''"
| "status_text StatusFailed = ''failed''"
| "status_text StatusReconciliationFailed = ''reconciliation_failed''"
| "status_text StatusComplianceHold = ''compliance_hold''"

record transaction =
  tx_id :: string
  tx_hash :: string
  tx_kind :: tx_type
  tx_status :: tx_status
  tx_from :: string
  tx_to :: string
  tx_to_address :: string
  tx_asset :: string
  tx_amount :: decimal
  tx_fee :: decimal
  tx_fee_bps :: int
  tx_tenant :: "string option"
  tx_batch :: "string option"
  tx_reference :: string
  tx_created :: go_time
  tx_reconciled :: "go_time option"
  tx_requeues :: int
  tx_idem_key :: string
  tx_fiat_rail :: "string option"
  tx_fiat_ref :: "string option"
  tx_fiat_status :: "string option"
  tx_local_currency :: "string option"
  tx_local_amount :: "decimal option"

definition net_amount :: "transaction \<Rightarrow> decimal" where
  "net_amount t = tx_amount t - tx_fee t"

section \<open>Wallets, tenants, batches\<close>

datatype custody = CustodyCustodial | CustodyContract

record wallet =
  wa_id :: string
  wa_public_key :: string
  wa_secret :: string  \<comment> \<open>\<^verbatim>\<open>EncryptedSecret\<close>, hex text\<close>
  wa_tenant :: "string option"
  wa_created :: go_time
  wa_cursor :: string
  wa_custody :: custody
  wa_contract :: string

record balance_record =
  ba_wallet :: string
  ba_asset :: string
  ba_issuer :: string
  ba_balance :: decimal

datatype account_type = AccountIndividual | AccountOrganization | AccountOther string

record tenant =
  te_id :: string
  te_account :: account_type
  te_max_wallets :: "int option"
  te_max_transfers :: "int option"
  te_max_webhooks :: "int option"

definition get_wallet_limit :: "tenant \<Rightarrow> int" where
  "get_wallet_limit t = (case te_max_wallets t of Some n \<Rightarrow> n
     | None \<Rightarrow> if te_account t = AccountOrganization then 50 else 5)"

definition get_transfer_limit :: "tenant \<Rightarrow> int" where
  "get_transfer_limit t = (case te_max_transfers t of Some n \<Rightarrow> n
     | None \<Rightarrow> if te_account t = AccountOrganization then -1 else 1000)"

definition get_webhook_limit :: "tenant \<Rightarrow> int" where
  "get_webhook_limit t = (case te_max_webhooks t of Some n \<Rightarrow> n
     | None \<Rightarrow> if te_account t = AccountOrganization then 10 else 2)"

datatype batch_status =
  BatchPending | BatchProcessing | BatchPartial | BatchCompleted | BatchFailed | BatchComplianceHold

record batch =
  bt_id :: string
  bt_tenant :: "string option"
  bt_status :: batch_status
  bt_total :: int
  bt_created :: go_time
  bt_updated :: go_time

section \<open>Compliance\<close>

text \<open>
  \<open>ScreeningUnset\<close> is the zero value of the string type; it is not a pass in the code's intent, but
  \<^verbatim>\<open>Severity\<close> sends it to the default branch.
\<close>

datatype screening_status = ScreeningClear | ScreeningHold | ScreeningBlocked | ScreeningUnset

fun severity :: "screening_status \<Rightarrow> int" where
  "severity ScreeningBlocked = 2"
| "severity ScreeningHold = 1"
| "severity _ = 0"

record screening_request =
  rq_org :: string
  rq_from_wallet :: string
  rq_to_wallet :: string
  rq_from_key :: string
  rq_to_key :: string
  rq_to_federation :: string
  rq_asset :: string
  rq_amount :: decimal

record decision =
  dc_status :: screening_status
  dc_rules :: "string list"
  dc_reason :: string
  dc_score :: int
  dc_matched :: string
  dc_block :: string

definition zero_decision :: decision where
  "zero_decision = \<lparr>dc_status = ScreeningUnset, dc_rules = [], dc_reason = '''', dc_score = 0,
     dc_matched = '''', dc_block = ''''\<rparr>"

definition clear_decision :: decision where
  "clear_decision = zero_decision\<lparr>dc_status := ScreeningClear\<rparr>"

datatype review_status = ReviewPending | ReviewApproved | ReviewRejected

record review =
  rv_id :: string
  rv_tx :: string
  rv_org :: "string option"
  rv_status :: review_status
  rv_score :: int
  rv_rules :: "string list"
  rv_reason :: string
  rv_by :: "string option"
  rv_notes :: string
  rv_at :: "go_time option"
  rv_created :: go_time

record block =
  bk_id :: string
  bk_org :: "string option"
  bk_from :: "string option"
  bk_to :: "string option"
  bk_address :: string
  bk_asset :: string
  bk_amount :: "decimal option"
  bk_rules :: "string list"
  bk_reason :: string
  bk_matched :: string
  bk_created :: go_time

record sanctions_entity =
  se_uid :: string
  se_name :: string
  se_kind :: string
  se_address :: string
  se_address_kind :: string
  se_programs :: "string list"
  se_source :: string
  se_refreshed :: go_time

section \<open>Fees\<close>

record fee_schedule =
  fs_tenant :: "string option"
  fs_transfer_bps :: int
  fs_conversion_bps :: int
  fs_min :: decimal
  fs_max :: "decimal option"
  fs_asset :: string

record fee_collection =
  fc_id :: string
  fc_tx :: string
  fc_tenant :: "string option"
  fc_amount :: decimal
  fc_asset :: string
  fc_bps :: int
  fc_at :: go_time

section \<open>Events\<close>

datatype event =
    EventTransferInitiated | EventTransferSettled | EventTransferFailed | EventWalletFunded
  | EventConversionCompleted | EventTreasurySweepCompleted | EventTransferComplianceHold
  | EventTransferComplianceApproved | EventTransferComplianceRejected
  | EventSanctionsRefreshFailed

section \<open>First facts\<close>

lemma severity_order:
  "severity s \<le> severity ScreeningBlocked"
  "severity s > severity ScreeningClear \<longleftrightarrow> s = ScreeningHold \<or> s = ScreeningBlocked"
  by (cases s; simp)+

lemma reference_pkg_simps [simp]:
  "d_div reference_pkg a b = round_half_away (a / b) 16"
  "d_round reference_pkg = round_half_away"
  by (simp_all add: reference_pkg_def)

lemma round_half_away_error: "\<bar>round_half_away x p - x\<bar> \<le> 1 / (2 * 10 ^ p)"
proof -
  have pos: "(0::rat) < 10 ^ p" by simp
  define k where "k = x * 10 ^ p"
  have x: "x = k / 10 ^ p" by (simp add: k_def)
  have fl: "\<bar>of_int \<lfloor>j + 1 / 2\<rfloor> - j\<bar> \<le> 1 / 2" for j :: rat
    using floor_correct [of "j + 1 / 2"] by linarith
  define r where "r = (if 0 \<le> k then of_int \<lfloor>k + 1 / 2\<rfloor> else - of_int \<lfloor>- k + 1 / 2\<rfloor> :: rat)"
  have "\<bar>r - k\<bar> \<le> 1 / 2"
  proof (cases "0 \<le> k")
    case True
    with fl [of k] show ?thesis by (simp add: r_def)
  next
    case False
    with fl [of "- k"] show ?thesis unfolding r_def by (simp only: if_False)
  qed
  then have "\<bar>r - k\<bar> / 10 ^ p \<le> 1 / 2 / 10 ^ p"
    using pos by (simp add: field_simps)
  moreover have "round_half_away x p - x = (r - k) / 10 ^ p"
    by (simp add: round_half_away_def Let_def k_def [symmetric] r_def x diff_divide_distrib)
  ultimately show ?thesis by (simp add: abs_divide)
qed

lemma round_half_away_grid: "on_grid p (round_half_away x p)"
  by (simp add: on_grid_def round_half_away_def Let_def)

lemma round_half_away_id: "on_grid p x \<Longrightarrow> round_half_away x p = x"
proof -
  assume "on_grid p x"
  then obtain i :: int where i: "x * 10 ^ p = of_int i"
    unfolding on_grid_def by (auto elim: Ints_cases)
  have fl: "\<lfloor>of_int j + 1 / 2 :: rat\<rfloor> = j" for j :: int
    by (rule floor_unique) auto
  have x: "x = of_int i / 10 ^ p" using i by (simp add: field_simps)
  have m: "- of_int i = (of_int (- i) :: rat)" by simp
  show ?thesis
    unfolding round_half_away_def Let_def i m fl by (simp add: x)
qed

lemma round_half_away_mono:
  assumes "x \<le> y"
  shows "round_half_away x p \<le> round_half_away y p"
proof -
  define k l where "k = x * 10 ^ p" and "l = y * 10 ^ p"
  have kl: "k \<le> l" using assms by (simp add: k_def l_def)
  have "0 \<le> j \<Longrightarrow> (0::rat) \<le> of_int \<lfloor>j + 1 / 2\<rfloor>" for j :: rat by simp
  then have "(if 0 \<le> k then of_int \<lfloor>k + 1 / 2\<rfloor> else - of_int \<lfloor>- k + 1 / 2\<rfloor> :: rat)
      \<le> (if 0 \<le> l then of_int \<lfloor>l + 1 / 2\<rfloor> else - of_int \<lfloor>- l + 1 / 2\<rfloor>)"
    using kl by (auto intro: floor_mono order_trans [where y = 0])
  then show ?thesis
    by (simp add: round_half_away_def Let_def k_def [symmetric] l_def [symmetric]
      divide_right_mono)
qed

lemma decimal_doc_reference: "decimal_doc reference_pkg"
  unfolding decimal_doc_def reference_pkg_simps
  by (intro conjI allI impI round_half_away_error round_half_away_grid round_half_away_id
    round_half_away_mono)

end
