(* ===== verification/Sanctions.thy ===== *)
theory Sanctions
  imports Levenshtein Domain
begin

text \<open>
  \<^verbatim>\<open>internal/compliance/sanctions.go\<close>: the normal forms of addresses and names, the in-memory index
  (\<^verbatim>\<open>SanctionsSet\<close>), its matching, and the sanctions screener. Letters and blanks up to U+007F are
  written out; the Unicode tables above that are the fields of \<open>unicode_tables\<close>.
\<close>

section \<open>Text\<close>

record unicode_tables =
  u_lower :: "rune \<Rightarrow> rune"   \<comment> \<open>\<^verbatim>\<open>unicode.ToLower\<close> above U+007F\<close>
  u_upper :: "rune \<Rightarrow> rune"
  u_space :: "rune \<Rightarrow> bool"

definition lower_rune :: "unicode_tables \<Rightarrow> rune \<Rightarrow> rune" where
  "lower_rune U r = (if r < 128 then (if 65 \<le> r \<and> r \<le> 90 then r + 32 else r) else u_lower U r)"

definition upper_rune :: "unicode_tables \<Rightarrow> rune \<Rightarrow> rune" where
  "upper_rune U r = (if r < 128 then (if 97 \<le> r \<and> r \<le> 122 then r - 32 else r) else u_upper U r)"

definition space_rune :: "unicode_tables \<Rightarrow> rune \<Rightarrow> bool" where
  "space_rune U r = (if r < 128 then r \<in> {9, 10, 11, 12, 13, 32} else u_space U r)"

definition encode_rune :: "rune \<Rightarrow> nat list" where
  "encode_rune r =
     (if r < 128 then [r]
      else if r < 2048 then [192 + r div 64, 128 + r mod 64]
      else if 1114111 < r \<or> (55296 \<le> r \<and> r \<le> 57343) then [239, 191, 189]
      else if r < 65536 then [224 + r div 4096, 128 + r div 64 mod 64, 128 + r mod 64]
      else [240 + r div 262144, 128 + r div 4096 mod 64, 128 + r div 64 mod 64, 128 + r mod 64])"

definition string_of_runes :: "rune list \<Rightarrow> string" where
  "string_of_runes rs = map char_of (concat (map encode_rune rs))"

definition trim_runes :: "unicode_tables \<Rightarrow> rune list \<Rightarrow> rune list" where
  "trim_runes U rs = rev (dropWhile (space_rune U) (rev (dropWhile (space_rune U) rs)))"

text \<open>\<^verbatim>\<open>normalizeAddress\<close>: \<^verbatim>\<open>strings.ToUpper(strings.TrimSpace(a))\<close>.\<close>

definition normalize_address :: "unicode_tables \<Rightarrow> string \<Rightarrow> string" where
  "normalize_address U a = string_of_runes (map (upper_rune U) (trim_runes U (runes a)))"

text \<open>The loop of \<^verbatim>\<open>normalizeName\<close>; the flag is \<^verbatim>\<open>lastSpace\<close>.\<close>

fun name_loop :: "bool \<Rightarrow> rune list \<Rightarrow> rune list" where
  "name_loop last_space [] = []"
| "name_loop last_space (r # rs) =
     (if (97 \<le> r \<and> r \<le> 122) \<or> (48 \<le> r \<and> r \<le> 57) then r # name_loop False rs
      else if r > 127 then r # name_loop False rs
      else if \<not> last_space then 32 # name_loop True rs
      else name_loop last_space rs)"

definition normalize_name :: "unicode_tables \<Rightarrow> string \<Rightarrow> string" where
  "normalize_name U n =
     (let folded = runes (string_of_runes (map (lower_rune U) (trim_runes U (runes n))));
          built = string_of_runes (name_loop True folded)
      in string_of_runes (trim_runes U (runes built)))"

section \<open>The index\<close>

record name_entry =
  ne_normalized :: string
  ne_display :: string

record sanctions_set =
  ss_addresses :: "string \<rightharpoonup> string"
  ss_names :: "name_entry list"
  ss_count :: int
  ss_updated :: go_time
  ss_loaded :: bool

definition new_sanctions_set :: sanctions_set where
  "new_sanctions_set = \<lparr>ss_addresses = Map.empty, ss_names = [], ss_count = 0, ss_updated = 0,
     ss_loaded = False\<rparr>"

text \<open>
  The loop of \<^verbatim>\<open>Replace\<close> over the entities (a nil pointer is \<open>None\<close>): the address map, where a later
  entity overwrites an earlier one, and the names, where the first display form of a normal form
  is kept.
\<close>

definition index_address ::
  "unicode_tables \<Rightarrow> (string \<rightharpoonup> string) \<Rightarrow> sanctions_entity option \<Rightarrow> (string \<rightharpoonup> string)" where
  "index_address U m o_e =
     (case o_e of None \<Rightarrow> m
      | Some e \<Rightarrow>
         if trim_runes U (runes (se_address e)) = [] then m
         else m(normalize_address U (se_address e) \<mapsto> se_name e))"

fun index_names ::
  "unicode_tables \<Rightarrow> string list \<Rightarrow> sanctions_entity option list \<Rightarrow> name_entry list" where
  "index_names U seen [] = []"
| "index_names U seen (None # es) = index_names U seen es"
| "index_names U seen (Some e # es) =
     (let n = normalize_name U (se_name e) in
      if n \<noteq> '''' \<and> n \<notin> set seen
      then \<lparr>ne_normalized = n, ne_display = se_name e\<rparr> # index_names U (n # seen) es
      else index_names U seen es)"

definition replace_set ::
  "unicode_tables \<Rightarrow> sanctions_entity option list \<Rightarrow> go_time \<Rightarrow> sanctions_set \<Rightarrow> sanctions_set" where
  "replace_set U es at_time s =
     (if es = [] then s
      else \<lparr>ss_addresses = fold (\<lambda>e m. index_address U m e) es Map.empty,
            ss_names = index_names U [] es, ss_count = int (length es),
            ss_updated = at_time, ss_loaded = True\<rparr>)"

text \<open>\<^verbatim>\<open>LoadFromRepository\<close>: \<open>listed\<close> is what the repository returns, \<open>now\<close> the clock.\<close>

definition load_from_repository ::
  "unicode_tables \<Rightarrow> go_time \<Rightarrow> err + sanctions_entity list \<Rightarrow> sanctions_set
    \<Rightarrow> err option \<times> sanctions_set" where
  "load_from_repository U now listed s =
     (case listed of Inl e \<Rightarrow> (Some e, s)
      | Inr es \<Rightarrow>
         (let updated = (case es of e # _ \<Rightarrow> if se_refreshed e \<noteq> 0 then se_refreshed e else now
                         | [] \<Rightarrow> now)
          in (None, replace_set U (map Some es) updated s)))"

definition match_address :: "unicode_tables \<Rightarrow> sanctions_set \<Rightarrow> string \<Rightarrow> string option" where
  "match_address U s a = (if a = '''' then None else ss_addresses s (normalize_address U a))"

text \<open>The loop of \<^verbatim>\<open>MatchName\<close>: the closest name so far and its distance; distance 0 stops it.\<close>

fun best_match :: "string \<Rightarrow> int \<Rightarrow> int \<times> string \<Rightarrow> name_entry list \<Rightarrow> int \<times> string" where
  "best_match n threshold acc [] = acc"
| "best_match n threshold (best, best_name) (e # es) =
     (let d = levenshtein_at_most n (ne_normalized e) threshold in
      if d < best
      then (if d = 0 then (d, ne_display e) else best_match n threshold (d, ne_display e) es)
      else best_match n threshold (best, best_name) es)"

definition match_name ::
  "unicode_tables \<Rightarrow> sanctions_set \<Rightarrow> string \<Rightarrow> int \<Rightarrow> (string \<times> int) option" where
  "match_name U s name threshold =
     (let n = normalize_name U name in
      if n = '''' then None
      else case best_match n threshold (threshold + 1, '''') (ss_names s) of
             (best, best_name) \<Rightarrow> if best_name = '''' then None else Some (best_name, best))"

section \<open>The screener\<close>

definition default_fuzzy_threshold :: int where "default_fuzzy_threshold = 2"

definition new_threshold :: "int \<Rightarrow> int" where
  "new_threshold t = (if t \<le> 0 then default_fuzzy_threshold else t)"

text \<open>\<open>None\<close> is a screener built without a set.\<close>

definition sanctions_screen ::
  "unicode_tables \<Rightarrow> sanctions_set option \<Rightarrow> int \<Rightarrow> screening_request \<Rightarrow> err + decision" where
  "sanctions_screen U o_s threshold rq =
     (case o_s of None \<Rightarrow> Inl (Dom ErrSanctionsSetNotLoaded)
      | Some s \<Rightarrow>
        if \<not> ss_loaded s then Inl (Dom ErrSanctionsSetNotLoaded)
        else case match_address U s (rq_to_key rq) of
          Some entity \<Rightarrow> Inr (zero_decision\<lparr>dc_status := ScreeningBlocked,
            dc_rules := [''sanctions_address_match''],
            dc_reason := ''destination address appears on the OFAC SDN list'',
            dc_matched := entity, dc_score := 100\<rparr>)
        | None \<Rightarrow> (case match_name U s (rq_to_federation rq) threshold of
          Some (entity, d) \<Rightarrow> Inr (zero_decision\<lparr>dc_status := ScreeningHold,
            dc_rules := [if d > 0 then ''sanctions_name_fuzzy_match'' else ''sanctions_name_match''],
            dc_reason := ''destination name closely matches an OFAC SDN entry'',
            dc_matched := entity, dc_score := 80 - d * 10\<rparr>)
        | None \<Rightarrow> Inr clear_decision))"

section \<open>Facts about the index\<close>

lemma index_address_fold_mono:
  "m k \<noteq> None \<Longrightarrow> fold (\<lambda>e m. index_address U m e) es m k \<noteq> None"
proof (induction es arbitrary: m)
  case Nil
  then show ?case by simp
next
  case (Cons e es)
  then have "index_address U m e k \<noteq> None" by (auto simp: index_address_def split: option.splits)
  with Cons.IH show ?case by simp
qed

lemma index_address_complete:
  assumes "Some e \<in> set es" and "trim_runes U (runes (se_address e)) \<noteq> []"
  shows "fold (\<lambda>e m. index_address U m e) es m (normalize_address U (se_address e)) \<noteq> None"
  using assms
proof (induction es arbitrary: m)
  case Nil
  then show ?case by simp
next
  case (Cons x es)
  show ?case
  proof (cases "x = Some e")
    case True
    with Cons.prems(2) have "index_address U m x (normalize_address U (se_address e)) \<noteq> None"
      by (simp add: index_address_def)
    then show ?thesis by (simp add: index_address_fold_mono)
  next
    case False
    with Cons show ?thesis by simp
  qed
qed

lemma index_address_sound:
  "fold (\<lambda>e m. index_address U m e) es m k = Some v \<Longrightarrow>
     m k = Some v \<or> (\<exists>e. Some e \<in> set es \<and> se_name e = v \<and> normalize_address U (se_address e) = k)"
proof (induction es arbitrary: m)
  case Nil
  then show ?case by simp
next
  case (Cons x es)
  from Cons.IH [of "index_address U m x"] Cons.prems show ?case
    by (auto simp: index_address_def split: option.splits if_splits)
qed

text \<open>Every name of the list has an entry with its normal form, and the normal forms are distinct.\<close>

lemma index_names_complete:
  assumes "Some e \<in> set es" and "normalize_name U (se_name e) \<noteq> ''''"
    and "normalize_name U (se_name e) \<notin> set seen"
  shows "\<exists>n \<in> set (index_names U seen es). ne_normalized n = normalize_name U (se_name e)"
  using assms
proof (induction U seen es rule: index_names.induct)
  case (3 U seen f es)
  show ?case
  proof (cases "normalize_name U (se_name f) = normalize_name U (se_name e)")
    case True
    with 3(4,5) show ?thesis by (simp add: Let_def)
  next
    case False
    with 3(3) have "Some e \<in> set es" by auto
    with False 3 show ?thesis by (auto simp: Let_def)
  qed
qed auto

lemma index_names_distinct:
  "distinct (map ne_normalized (index_names U seen es)) \<and>
   set (map ne_normalized (index_names U seen es)) \<inter> set seen = {}"
  by (induction U seen es rule: index_names.induct) (auto simp: Let_def)

section \<open>Facts about name matching\<close>

lemma best_match_le: "fst (best_match n t acc es) \<le> fst acc"
proof (induction n t acc es rule: best_match.induct)
  case (2 n t best best_name e es)
  then show ?case by (fastforce simp: Let_def)
qed simp

lemma levenshtein_nonneg: "0 \<le> t \<Longrightarrow> 0 \<le> levenshtein_at_most a b t"
  by (simp add: levenshtein_at_most_eq Let_def)

text \<open>The distance found is the least of those of the entries and the starting value.\<close>

lemma best_match_least:
  assumes "0 \<le> t" and "0 \<le> fst acc" and "e \<in> set es"
  shows "fst (best_match n t acc es) \<le> levenshtein_at_most n (ne_normalized e) t"
  using assms
proof (induction n t acc es rule: best_match.induct)
  case (2 n t best best_name x xs)
  let ?d = "levenshtein_at_most n (ne_normalized x) t"
  have d: "0 \<le> ?d" using 2(3) by (rule levenshtein_nonneg)
  have e: "0 \<le> levenshtein_at_most n (ne_normalized e) t" using 2(3) by (rule levenshtein_nonneg)
  show ?case
  proof (cases "e = x")
    case True
    then show ?thesis
      using best_match_le [of n t "(?d, ne_display x)" xs] best_match_le [of n t "(best, best_name)" xs]
      by (auto simp: Let_def)
  next
    case False
    with 2 d e show ?thesis by (auto simp: Let_def)
  qed
qed simp

lemma best_match_found:
  assumes "best_match n t acc es = (b, nm)"
  shows "(b, nm) = acc \<or> (\<exists>e \<in> set es. ne_display e = nm \<and>
           levenshtein_at_most n (ne_normalized e) t = b \<and> b < fst acc)"
  using assms
proof (induction n t acc es arbitrary: b nm rule: best_match.induct)
  case (2 n t best best_name x xs)
  then show ?case by (fastforce simp: Let_def split: if_splits)
qed simp

lemma index_names_display:
  "e \<in> set (index_names U seen es) \<Longrightarrow> ne_display e \<noteq> ''''"
proof (induction U seen es rule: index_names.induct)
  case (3 U seen f es)
  have "normalize_name U '''' = ''''"
    by (simp add: normalize_name_def runes_def trim_runes_def string_of_runes_def Let_def)
  with 3 show ?case by (auto simp: Let_def split: if_splits)
qed simp_all

section \<open>Properties\<close>

text \<open>
  On a loaded list \<^verbatim>\<open>MatchName\<close> returns a name exactly if some listed name is within the threshold
  of the normalised name, and then one at the least distance of all, with that distance.
\<close>

theorem match_name_nearest:
  assumes "s = replace_set U es t s0" and "es \<noteq> []" and "0 \<le> threshold"
    and "normalize_name U name \<noteq> ''''"
  shows "case match_name U s name threshold of
      None \<Rightarrow> list_all (\<lambda>e. threshold <
        int (edit_distance (runes (normalize_name U name)) (runes (ne_normalized e)))) (ss_names s)
    | Some (nm, d) \<Rightarrow> d \<le> threshold \<and>
        list_ex (\<lambda>e. ne_display e = nm \<and>
          int (edit_distance (runes (normalize_name U name)) (runes (ne_normalized e))) = d) (ss_names s) \<and>
        list_all (\<lambda>e. d \<le>
          int (edit_distance (runes (normalize_name U name)) (runes (ne_normalized e)))) (ss_names s)"
proof -
  let ?n = "normalize_name U name"
  let ?dst = "\<lambda>e. int (edit_distance (runes ?n) (runes (ne_normalized e)))"
  have lev: "levenshtein_at_most ?n (ne_normalized e) threshold
      = (if ?dst e \<le> threshold then ?dst e else threshold + 1)" for e
    using levenshtein_at_most_eq [OF assms(3)] by (simp add: Let_def)
  obtain b nm where b: "best_match ?n threshold (threshold + 1, '''') (ss_names s) = (b, nm)"
    by (cases "best_match ?n threshold (threshold + 1, '''') (ss_names s)")
  have least: "b \<le> (if ?dst e \<le> threshold then ?dst e else threshold + 1)" if "e \<in> set (ss_names s)" for e
    using best_match_least [OF assms(3) _ that, of "(threshold + 1, '''')" ?n] assms(3) b
    unfolding lev by simp
  have names: "e \<in> set (ss_names s) \<Longrightarrow> ne_display e \<noteq> ''''" for e
    using assms(1,2) index_names_display by (simp add: replace_set_def)
  show ?thesis
  proof (cases "nm = ''''")
    case True
    with best_match_found [OF b] names have "b = threshold + 1" by auto
    have "\<forall>e \<in> set (ss_names s). threshold < ?dst e"
    proof
      fix e
      assume "e \<in> set (ss_names s)"
      with least [of e] \<open>b = threshold + 1\<close> show "threshold < ?dst e" by (auto split: if_splits)
    qed
    with True b assms(4) show ?thesis by (simp add: match_name_def Let_def list_all_iff)
  next
    case False
    with best_match_found [OF b] obtain e where e: "e \<in> set (ss_names s)" "ne_display e = nm"
      "levenshtein_at_most ?n (ne_normalized e) threshold = b" "b < threshold + 1" by auto
    have d: "?dst e = b" using e(3,4) lev [of e] by (auto split: if_splits)
    have "\<forall>e \<in> set (ss_names s). b \<le> ?dst e"
    proof
      fix x
      assume "x \<in> set (ss_names s)"
      with least [of x] e(4) show "b \<le> ?dst x" by (auto split: if_splits)
    qed
    with False b assms(4) e d show ?thesis
      by (auto simp: match_name_def Let_def list_all_iff list_ex_iff)
  qed
qed

definition ascii_tables :: unicode_tables where
  "ascii_tables = \<lparr>u_lower = (\<lambda>r. r), u_upper = (\<lambda>r. r), u_space = (\<lambda>r. False)\<rparr>"

definition sample_entity :: sanctions_entity where
  "sample_entity = \<lparr>se_uid = ''1'', se_name = ''Ivan Petrov'', se_kind = ''Individual'',
     se_address = ''gabc'', se_address_kind = '''', se_programs = [], se_source = ''ofac_sdn'',
     se_refreshed = 1\<rparr>"

lemma match_name_nearest_witness:
  "match_name ascii_tables (replace_set ascii_tables [Some sample_entity] 1 new_sanctions_set) ''ivan  PETROW'' 2
     = Some (''Ivan Petrov'', 1) \<and>
   edit_distance (runes (normalize_name ascii_tables ''ivan  PETROW'')) (runes ''ivan petrov'') \<le> 1"
proof -
  let ?s = "replace_set ascii_tables [Some sample_entity] 1 new_sanctions_set"
  have m: "match_name ascii_tables ?s ''ivan  PETROW'' 2 = Some (''Ivan Petrov'', 1)" by code_simp
  have n: "normalize_name ascii_tables ''ivan  PETROW'' \<noteq> ''''" by code_simp
  have s: "ss_names ?s = [\<lparr>ne_normalized = ''ivan petrov'', ne_display = ''Ivan Petrov''\<rparr>]" by code_simp
  from match_name_nearest [OF refl _ _ n, of "[Some sample_entity]" 2 1 new_sanctions_set] m s
  show ?thesis by simp
qed

end
