(* ===== verification/One_Shot.thy ===== *)
theory One_Shot
  imports Prelude
begin

text \<open>
  The contract behind the code's concurrency guards: a conditional update that can be won once.
  \<^verbatim>\<open>ClaimForSubmission\<close> and \<^verbatim>\<open>DecideReview\<close> are of this kind. The locale states what the
  repositories promise; its lemmas are what the services rely on.
\<close>

text \<open>How many of \<open>n\<close> attempts in a row succeed.\<close>

fun wins :: "('w \<Rightarrow> err option \<times> 'w) \<Rightarrow> nat \<Rightarrow> 'w \<Rightarrow> nat" where
  "wins act 0 w = 0"
| "wins act (Suc n) w =
     (case act w of (None, w') \<Rightarrow> Suc (wins act n w') | (Some e, w') \<Rightarrow> wins act n w')"

locale one_shot =
  fixes inv :: "'w \<Rightarrow> bool"
    and avail :: "'w \<Rightarrow> 'k \<Rightarrow> bool"
    and act :: "'k \<Rightarrow> 'w \<Rightarrow> err option \<times> 'w"
  assumes act_inv: "inv w \<Longrightarrow> inv (snd (act k w))"
    and act_succeeds: "inv w \<Longrightarrow> avail w k \<Longrightarrow> fst (act k w) = None"
    and act_fails: "inv w \<Longrightarrow> \<not> avail w k \<Longrightarrow> fst (act k w) \<noteq> None"
    and act_uses_up: "inv w \<Longrightarrow> act k w = (None, w') \<Longrightarrow> \<not> avail w' k"
    and act_failure_id: "act k w = (Some e, w') \<Longrightarrow> w' = w"
    and act_frame: "inv w \<Longrightarrow> act k w = (None, w') \<Longrightarrow> j \<noteq> k \<Longrightarrow> avail w' j = avail w j"
begin

lemma succeeds_iff: "inv w \<Longrightarrow> fst (act k w) = None \<longleftrightarrow> avail w k"
  using act_succeeds act_fails by blast

lemma second_attempt_fails:
  assumes "inv w" and "act k w = (None, w')"
  shows "fst (act k w') \<noteq> None"
proof -
  from assms(1) have "inv (snd (act k w))" by (rule act_inv)
  with assms(2) have "inv w'" by simp
  with act_uses_up [OF assms] show ?thesis by (simp add: act_fails)
qed

lemma wins_unavailable: "inv w \<Longrightarrow> \<not> avail w k \<Longrightarrow> wins (act k) n w = 0"
proof (induction n)
  case 0
  then show ?case by simp
next
  case (Suc n)
  from act_fails [OF Suc.prems] obtain e where "act k w = (Some e, w)"
    using act_failure_id by (cases "act k w") auto
  with Suc show ?case by simp
qed

text \<open>Among any number of attempts exactly one succeeds, or none if the key was not available.\<close>

lemma wins_eq:
  assumes "inv w"
  shows "wins (act k) (Suc n) w = (if avail w k then 1 else 0)"
proof (cases "avail w k")
  case True
  then obtain w' where w': "act k w = (None, w')"
    using act_succeeds [OF assms True] by (cases "act k w") auto
  have "inv w'" using act_inv [OF assms, of k] w' by simp
  with act_uses_up [OF assms w'] have "wins (act k) n w' = 0" by (simp add: wins_unavailable)
  with w' True show ?thesis by simp
next
  case False
  with assms show ?thesis using wins_unavailable [of w k "Suc n"] by simp
qed

end

text \<open>
  Two different actions that compete for the same key, such as approving and rejecting one review:
  whichever runs first, the other one loses.
\<close>

locale contested = first: one_shot inv avail act + other: one_shot inv avail act'
  for inv :: "'w \<Rightarrow> bool" and avail :: "'w \<Rightarrow> 'k \<Rightarrow> bool"
    and act :: "'k \<Rightarrow> 'w \<Rightarrow> err option \<times> 'w" and act' :: "'k \<Rightarrow> 'w \<Rightarrow> err option \<times> 'w"
begin

lemma loser_fails:
  assumes "inv w" and "act k w = (None, w')"
  shows "fst (act' k w') \<noteq> None" and "snd (act' k w') = w'"
proof -
  have "inv w'" using first.act_inv [OF assms(1), of k] assms(2) by simp
  with first.act_uses_up [OF assms] show f: "fst (act' k w') \<noteq> None" by (simp add: other.act_fails)
  then obtain e where "act' k w' = (Some e, snd (act' k w'))" by (cases "act' k w'") auto
  then show "snd (act' k w') = w'" by (rule other.act_failure_id)
qed

end

end
