(* ===== verification/Store.thy ===== *)
theory Store
  imports Domain One_Shot
begin

text \<open>
  The database of \<^verbatim>\<open>db/migrations\<close> and \<^verbatim>\<open>internal/postgres/transaction_repo.go\<close>: the tables, and one
  definition per repository method. Each method is one SQL statement (or one database transaction),
  so it is one atomic step on the world. The argument \<open>q\<close> is what the driver reports for the call:
  \<open>Some e\<close> when the statement fails, and then no row has changed. A NULL text column is the empty
  string, as the queries read it with \<^verbatim>\<open>COALESCE\<close>.
\<close>

section \<open>The world\<close>

record ctx =
  cx_tenant :: string  \<comment> \<open>\<^verbatim>\<open>tenant.IDFromContext\<close>, empty if unset\<close>
  cx_user :: string    \<comment> \<open>\<^verbatim>\<open>tenant.UserIDFromContext\<close>\<close>

record payment =
  pay_dest :: string
  pay_asset :: string
  pay_issuer :: string
  pay_amount :: string

text \<open>What has been sent to a network: signed Stellar envelopes and EVM transfers.\<close>

datatype net_effect =
    StellarSubmit string "payment list"   \<comment> \<open>envelope hash and its operations\<close>
  | EvmTransfer string string int         \<comment> \<open>source secret, destination, amount in wei\<close>

record world =
  w_txs :: "transaction list"
  w_wallets :: "wallet list"
  w_balances :: "balance_record list"
  w_tenants :: "tenant list"
  w_batches :: "batch list"
  w_reviews :: "review list"
  w_blocks :: "block list"
  w_fees :: "fee_schedule list"
  w_collections :: "fee_collection list"
  w_queue :: "string list"              \<comment> \<open>transfer ids enqueued for settlement\<close>
  w_events :: "(event \<times> string) list"  \<comment> \<open>webhook events dispatched, with the transaction id\<close>
  w_net :: "net_effect list"

definition empty_world :: world where
  "empty_world = \<lparr>w_txs = [], w_wallets = [], w_balances = [], w_tenants = [], w_batches = [],
     w_reviews = [], w_blocks = [], w_fees = [], w_collections = [], w_queue = [], w_events = [],
     w_net = []\<rparr>"

abbreviation tx_of :: "world \<Rightarrow> string \<Rightarrow> transaction option" where
  "tx_of w i \<equiv> row_with tx_id i (w_txs w)"

definition set_txs :: "(transaction \<Rightarrow> bool) \<Rightarrow> (transaction \<Rightarrow> transaction) \<Rightarrow> world \<Rightarrow> world" where
  "set_txs P f w = w\<lparr>w_txs := update_where P f (w_txs w)\<rparr>"

text \<open>A tenant-scoped query adds \<^verbatim>\<open>AND tenant_id = ...\<close> when the context has a tenant.\<close>

definition in_scope :: "ctx \<Rightarrow> string option \<Rightarrow> bool" where
  "in_scope c t \<longleftrightarrow> cx_tenant c = '''' \<or> t = Some (cx_tenant c)"

section \<open>Inserting\<close>

definition unique_violation :: err where "unique_violation = Opaque ''unique_violation''"
definition foreign_key_violation :: err where
  "foreign_key_violation = Opaque ''foreign_key_violation''"
definition numeric_overflow :: err where "numeric_overflow = Opaque ''numeric field overflow''"

text \<open>The columns \<^verbatim>\<open>id\<close> (primary key) and \<^verbatim>\<open>tx_hash\<close> (unique, NULLs aside).\<close>

definition tx_conflict :: "transaction \<Rightarrow> world \<Rightarrow> bool" where
  "tx_conflict t w \<longleftrightarrow> (\<exists>r \<in> set (w_txs w).
     tx_id r = tx_id t \<or> tx_hash t \<noteq> '''' \<and> tx_hash r = tx_hash t)"

text \<open>The foreign keys of \<^verbatim>\<open>transactions\<close>: wallets, tenants, batches.\<close>

definition ref_ok :: "string \<Rightarrow> string list \<Rightarrow> bool" where
  "ref_ok s ks \<longleftrightarrow> s = '''' \<or> s \<in> set ks"

definition tx_refs_ok :: "transaction \<Rightarrow> world \<Rightarrow> bool" where
  "tx_refs_ok t w \<longleftrightarrow>
     ref_ok (tx_from t) (map wa_id (w_wallets w)) \<and> ref_ok (tx_to t) (map wa_id (w_wallets w)) \<and>
     (case tx_tenant t of None \<Rightarrow> True | Some s \<Rightarrow> ref_ok s (map te_id (w_tenants w))) \<and>
     (case tx_batch t of None \<Rightarrow> True | Some s \<Rightarrow> ref_ok s (map bt_id (w_batches w)))"

text \<open>The row the INSERT writes: nullable columns normalised, amounts converted by the column type.\<close>

definition tx_row :: "numeric_col \<Rightarrow> transaction \<Rightarrow> transaction option" where
  "tx_row N t =
     (case (N 20 7 (tx_amount t), N 20 7 (tx_fee t),
            case tx_local_amount t of None \<Rightarrow> Some None | Some l \<Rightarrow> map_option Some (N 20 4 l)) of
        (Some a, Some f, Some l) \<Rightarrow>
          Some (t\<lparr>tx_amount := a, tx_fee := f, tx_tenant := null_ptr (tx_tenant t),
            tx_batch := null_ptr (tx_batch t), tx_fiat_rail := null_ptr (tx_fiat_rail t),
            tx_fiat_ref := null_ptr (tx_fiat_ref t), tx_fiat_status := null_ptr (tx_fiat_status t),
            tx_local_currency := null_ptr (tx_local_currency t), tx_local_amount := l\<rparr>)
      | _ \<Rightarrow> None)"

definition insert_tx :: "numeric_col \<Rightarrow> transaction \<Rightarrow> world \<Rightarrow> err + world" where
  "insert_tx N t w =
     (case tx_row N t of
        None \<Rightarrow> Inl numeric_overflow
      | Some r \<Rightarrow>
          if tx_conflict t w then Inl unique_violation
          else if \<not> tx_refs_ok r w then Inl foreign_key_violation
          else Inr (w\<lparr>w_txs := w_txs w @ [r]\<rparr>))"

text \<open>
  \<^verbatim>\<open>Create\<close> also sets \<^verbatim>\<open>tx.TenantID\<close> on the caller's struct, which is returned here.
\<close>

definition with_ctx_tenant :: "ctx \<Rightarrow> transaction \<Rightarrow> transaction" where
  "with_ctx_tenant c t =
     (if cx_tenant c \<noteq> '''' then t\<lparr>tx_tenant := Some (cx_tenant c)\<rparr> else t)"

definition create_tx ::
  "numeric_col \<Rightarrow> ctx \<Rightarrow> err option \<Rightarrow> transaction \<Rightarrow> world \<Rightarrow> (err + transaction) \<times> world" where
  "create_tx N c q t w =
     (let t' = with_ctx_tenant c t in
      case q of Some e \<Rightarrow> (Inl (Wrap ''insert transaction'' e), w)
      | None \<Rightarrow> (case insert_tx N t' w of
                  Inl e \<Rightarrow> (Inl (Wrap ''insert transaction'' e), w)
                | Inr w' \<Rightarrow> (Inr t', w')))"

definition count_month :: "string \<Rightarrow> int \<Rightarrow> int \<Rightarrow> world \<Rightarrow> int" where
  "count_month tenant y m w =
     int (length (filter (\<lambda>r. tx_tenant r = Some tenant \<and>
        month_start y m \<le> tx_created r \<and> tx_created r < month_start y (m + 1)) (w_txs w)))"

text \<open>
  \<^verbatim>\<open>CreateWithMonthlyLimit\<close>: one database transaction with the tenant row locked, so the count and
  the insert are one step. Its INSERT leaves out the fiat columns.
\<close>

datatype limit_stage = LimitBegin | LimitLock | LimitCount | LimitInsert | LimitCommit

fun limit_stage_text :: "limit_stage \<Rightarrow> string" where
  "limit_stage_text LimitBegin = ''begin limit-check tx''"
| "limit_stage_text LimitLock = ''lock tenant for limit check''"
| "limit_stage_text LimitCount = ''count monthly transfers''"
| "limit_stage_text LimitInsert = ''insert transaction''"
| "limit_stage_text LimitCommit = ''commit limit-check tx''"

definition without_fiat :: "transaction \<Rightarrow> transaction" where
  "without_fiat t = t\<lparr>tx_fiat_rail := None, tx_fiat_ref := None, tx_fiat_status := None,
     tx_local_currency := None, tx_local_amount := None\<rparr>"

definition create_with_monthly_limit ::
  "numeric_col \<Rightarrow> (limit_stage \<Rightarrow> err option) \<Rightarrow> transaction \<Rightarrow> string \<Rightarrow> int \<Rightarrow> int \<Rightarrow> int
    \<Rightarrow> world \<Rightarrow> err option \<times> world" where
  "create_with_monthly_limit N q t tenant y m limit w =
     (let fail = (\<lambda>s e. (Some (Wrap (limit_stage_text s) e), w)) in
      case q LimitBegin of Some e \<Rightarrow> fail LimitBegin e | None \<Rightarrow>
      (case q LimitLock of Some e \<Rightarrow> fail LimitLock e | None \<Rightarrow>
      (case q LimitCount of Some e \<Rightarrow> fail LimitCount e | None \<Rightarrow>
       if count_month tenant y m w \<ge> limit then (Some (Dom ErrTransferLimitReached), w)
       else
      (case q LimitInsert of Some e \<Rightarrow> fail LimitInsert e | None \<Rightarrow>
      (case insert_tx N (without_fiat t) w of Inl e \<Rightarrow> fail LimitInsert e
       | Inr w' \<Rightarrow>
      (case q LimitCommit of Some e \<Rightarrow> fail LimitCommit e | None \<Rightarrow> (None, w')))))))"

text \<open>
  \<^verbatim>\<open>UpsertByTxHash\<close>: \<^verbatim>\<open>ON CONFLICT (tx_hash) DO NOTHING\<close>, so a row with the same hash makes the insert a
  no-op; a clash on the primary key is still an error.
\<close>

definition upsert_by_tx_hash ::
  "numeric_col \<Rightarrow> ctx \<Rightarrow> err option \<Rightarrow> transaction \<Rightarrow> world \<Rightarrow> (err + transaction) \<times> world" where
  "upsert_by_tx_hash N c q t w =
     (let t' = with_ctx_tenant c t in
      case q of Some e \<Rightarrow> (Inl (Wrap ''upsert transaction by tx_hash'' e), w)
      | None \<Rightarrow>
        if tx_hash t' \<noteq> '''' \<and> tx_row N t' \<noteq> None \<and> (\<exists>r \<in> set (w_txs w). tx_hash r = tx_hash t')
          \<and> (\<forall>r \<in> set (w_txs w). tx_id r \<noteq> tx_id t')
        then (Inr t', w)
        else (case insert_tx N t' w of
                Inl e \<Rightarrow> (Inl (Wrap ''upsert transaction by tx_hash'' e), w)
              | Inr w' \<Rightarrow> (Inr t', w')))"

section \<open>Reading\<close>

text \<open>\<^verbatim>\<open>GetByID\<close> does not select the idempotency key.\<close>

definition read_tx :: "transaction \<Rightarrow> transaction" where
  "read_tx r = r\<lparr>tx_idem_key := ''''\<rparr>"

text \<open>The reconciliation queries and the lookup by key also leave out the fiat columns.\<close>

definition read_tx_short :: "transaction \<Rightarrow> transaction" where
  "read_tx_short r = (without_fiat (read_tx r))\<lparr>tx_batch := None, tx_reference := ''''\<rparr>"

definition get_tx :: "ctx \<Rightarrow> err option \<Rightarrow> string \<Rightarrow> world \<Rightarrow> err + transaction" where
  "get_tx c q i w =
     (case q of Some e \<Rightarrow> Inl (Wrap ''get transaction by id'' e)
      | None \<Rightarrow> (case find (\<lambda>r. tx_id r = i \<and> in_scope c (tx_tenant r)) (w_txs w) of
                  None \<Rightarrow> Inl (Dom ErrTransactionNotFound)
                | Some r \<Rightarrow> Inr (read_tx r)))"

definition get_by_idempotency_key ::
  "err option \<Rightarrow> string \<Rightarrow> string \<Rightarrow> world \<Rightarrow> err + transaction" where
  "get_by_idempotency_key q org key w =
     (case q of Some e \<Rightarrow> Inl (Wrap ''get transaction by idempotency key'' e)
      | None \<Rightarrow> (case find (\<lambda>r. key \<noteq> '''' \<and> tx_idem_key r = key \<and>
                    (org = '''' \<or> tx_tenant r = Some org)) (w_txs w) of
                  None \<Rightarrow> Inl (Dom ErrTransactionNotFound)
                | Some r \<Rightarrow> Inr ((without_fiat r)\<lparr>tx_idem_key := key\<rparr>)))"

definition exists_by_tx_hash :: "string \<Rightarrow> world \<Rightarrow> bool" where
  "exists_by_tx_hash h w \<longleftrightarrow> (\<exists>r \<in> set (w_txs w). tx_hash r = h \<and> h \<noteq> '''')"

definition list_by_wallet :: "ctx \<Rightarrow> string \<Rightarrow> nat \<Rightarrow> nat \<Rightarrow> world \<Rightarrow> transaction list" where
  "list_by_wallet c wid limit offset w =
     take limit (drop offset (map read_tx (sort_key (\<lambda>r. - tx_created r)
       (filter (\<lambda>r. (tx_from r = wid \<or> tx_to r = wid) \<and> wid \<noteq> '''' \<and> in_scope c (tx_tenant r))
         (w_txs w)))))"

definition list_by_batch :: "ctx \<Rightarrow> string \<Rightarrow> world \<Rightarrow> transaction list" where
  "list_by_batch c b w =
     map read_tx (sort_key tx_created
       (filter (\<lambda>r. tx_batch r = Some b \<and> in_scope c (tx_tenant r)) (w_txs w)))"

text \<open>\<^verbatim>\<open>UsageSummary\<close>: the number of rows and the sum of their amounts, of one tenant or of all.\<close>

definition usage_summary :: "string \<Rightarrow> world \<Rightarrow> int \<times> decimal" where
  "usage_summary tenant w =
     (let rs = filter (\<lambda>r. tenant = '''' \<or> tx_tenant r = Some tenant) (w_txs w)
      in (int (length rs), sum_list (map tx_amount rs)))"

section \<open>Status changes\<close>

text \<open>
  A conditional update of one row: the error \<^verbatim>\<open>ErrConcurrentUpdate\<close> when the condition selects none.
\<close>

definition guarded_update ::
  "string \<Rightarrow> err option \<Rightarrow> (transaction \<Rightarrow> bool) \<Rightarrow> (transaction \<Rightarrow> transaction) \<Rightarrow> world
    \<Rightarrow> err option \<times> world" where
  "guarded_update what q P f w =
     (case q of Some e \<Rightarrow> (Some (Wrap what e), w)
      | None \<Rightarrow> if rows_affected P (w_txs w) = 0
                then (Some (Wrap what (Dom ErrConcurrentUpdate)), w)
                else (None, set_txs P f w))"

definition claim_for_submission :: "err option \<Rightarrow> string \<Rightarrow> world \<Rightarrow> err option \<times> world" where
  "claim_for_submission q i w =
     guarded_update ''claim transaction for submission'' q
       (\<lambda>r. tx_id r = i \<and> tx_status r = StatusPending)
       (\<lambda>r. r\<lparr>tx_status := StatusSubmitted\<rparr>) w"

definition reset_stuck_submitted ::
  "err option \<Rightarrow> go_time \<Rightarrow> string \<Rightarrow> int \<Rightarrow> world \<Rightarrow> err option \<times> world" where
  "reset_stuck_submitted q now i older w =
     guarded_update ''reset stuck submitted transaction to pending'' q
       (\<lambda>r. tx_id r = i \<and> tx_status r = StatusSubmitted \<and> tx_hash r = '''' \<and>
            tx_created r < now - older)
       (\<lambda>r. r\<lparr>tx_status := StatusPending\<rparr>) w"

definition hash_taken :: "string \<Rightarrow> string \<Rightarrow> world \<Rightarrow> bool" where
  "hash_taken i h w \<longleftrightarrow> h \<noteq> '''' \<and> (\<exists>r \<in> set (w_txs w). tx_id r \<noteq> i \<and> tx_hash r = h)"

definition update_tx_confirmed ::
  "err option \<Rightarrow> string \<Rightarrow> string \<Rightarrow> world \<Rightarrow> err option \<times> world" where
  "update_tx_confirmed q i h w =
     (let P = (\<lambda>r. tx_id r = i \<and> tx_status r \<in> {StatusPending, StatusSubmitted}) in
      guarded_update ''update tx confirmed''
        (if q = None \<and> rows_affected P (w_txs w) \<noteq> 0 \<and> hash_taken i h w
         then Some unique_violation else q)
        P (\<lambda>r. r\<lparr>tx_status := StatusConfirmed, tx_hash := h\<rparr>) w)"

definition update_tx_failed :: "err option \<Rightarrow> string \<Rightarrow> world \<Rightarrow> err option \<times> world" where
  "update_tx_failed q i w =
     guarded_update ''update tx failed'' q
       (\<lambda>r. tx_id r = i \<and> tx_status r \<in> {StatusPending, StatusSubmitted})
       (\<lambda>r. r\<lparr>tx_status := StatusFailed\<rparr>) w"

text \<open>
  \<^verbatim>\<open>UpdateStatus\<close> writes any status but never leaves \<^verbatim>\<open>confirmed\<close>, replaces the hash, and reports no
  error when it matches no row. The unique index refuses a hash another row has.
\<close>

definition update_status ::
  "ctx \<Rightarrow> err option \<Rightarrow> string \<Rightarrow> tx_status \<Rightarrow> string \<Rightarrow> world \<Rightarrow> err option \<times> world" where
  "update_status c q i st h w =
     (let P = (\<lambda>r. tx_id r = i \<and> tx_status r \<noteq> StatusConfirmed \<and> in_scope c (tx_tenant r)) in
      case q of Some e \<Rightarrow> (Some (Wrap ''update transaction status'' e), w)
      | None \<Rightarrow>
        if rows_affected P (w_txs w) \<noteq> 0 \<and> hash_taken i h w
        then (Some (Wrap ''update transaction status'' unique_violation), w)
        else (None, set_txs P (\<lambda>r. r\<lparr>tx_status := st, tx_hash := h\<rparr>) w))"

text \<open>\<^verbatim>\<open>UpdateReconciliationStatus\<close> has no guard at all.\<close>

definition update_reconciliation_status ::
  "err option \<Rightarrow> string \<Rightarrow> tx_status \<Rightarrow> world \<Rightarrow> err option \<times> world" where
  "update_reconciliation_status q i st w =
     (case q of Some e \<Rightarrow> (Some (Wrap ''update reconciliation status'' e), w)
      | None \<Rightarrow> (None, set_txs (\<lambda>r. tx_id r = i) (\<lambda>r. r\<lparr>tx_status := st\<rparr>) w))"

definition increment_requeue ::
  "err option \<Rightarrow> string \<Rightarrow> world \<Rightarrow> (err + int) \<times> world" where
  "increment_requeue q i w =
     (case q of Some e \<Rightarrow> (Inl (Wrap ''increment requeue count'' e), w)
      | None \<Rightarrow> (case tx_of w i of
           None \<Rightarrow> (Inl (Wrap ''increment requeue count'' (Opaque ''no rows'')), w)
         | Some r \<Rightarrow> (Inr (tx_requeues r + 1),
             set_txs (\<lambda>r. tx_id r = i) (\<lambda>r. r\<lparr>tx_requeues := tx_requeues r + 1\<rparr>) w)))"

definition update_reconciled_at ::
  "err option \<Rightarrow> go_time \<Rightarrow> string \<Rightarrow> world \<Rightarrow> err option \<times> world" where
  "update_reconciled_at q now i w =
     (case q of Some e \<Rightarrow> (Some (Wrap ''update reconciled_at'' e), w)
      | None \<Rightarrow> (None, set_txs (\<lambda>r. tx_id r = i) (\<lambda>r. r\<lparr>tx_reconciled := Some now\<rparr>) w))"

section \<open>The queries of the reconciler\<close>

definition confirmed_for_reconciliation :: "go_time \<Rightarrow> int \<Rightarrow> world \<Rightarrow> transaction list" where
  "confirmed_for_reconciliation now since w =
     map read_tx_short (sort_key tx_created (filter (\<lambda>r. tx_status r = StatusConfirmed \<and>
       tx_hash r \<noteq> '''' \<and>
       (case tx_reconciled r of None \<Rightarrow> True | Some seen \<Rightarrow> seen < now - since)) (w_txs w)))"

definition pending_for_reconciliation :: "go_time \<Rightarrow> int \<Rightarrow> world \<Rightarrow> transaction list" where
  "pending_for_reconciliation now older w =
     map read_tx_short (sort_key tx_created (filter (\<lambda>r.
       tx_status r \<in> {StatusPending, StatusSubmitted} \<and> tx_hash r \<noteq> '''' \<and>
       tx_created r < now - older) (w_txs w)))"

definition stuck_row :: "go_time \<Rightarrow> int \<Rightarrow> transaction \<Rightarrow> bool" where
  "stuck_row now older r \<longleftrightarrow>
     (tx_status r = StatusPending \<or> tx_status r = StatusSubmitted \<and> tx_hash r = '''') \<and>
     tx_created r < now - older"

text \<open>
  \<^verbatim>\<open>GetStuckPendingTxes\<close> scans the bare column \<^verbatim>\<open>tx_hash\<close> into a Go string. What the driver does with
  a NULL there is its own behaviour: \<open>scan_null\<close> is \<open>None\<close> when it reports an error and \<open>Some s\<close>
  when it stores \<open>s\<close>. The first row that fails ends the query.
\<close>

fun scan_stuck :: "string option \<Rightarrow> transaction list \<Rightarrow> err + transaction list" where
  "scan_stuck sn [] = Inr []"
| "scan_stuck sn (r # rs) =
     (if tx_hash r = '''' \<and> sn = None then Inl (Opaque ''cannot scan NULL into *string'')
      else case scan_stuck sn rs of
             Inl e \<Rightarrow> Inl e
           | Inr ts \<Rightarrow> Inr ((read_tx_short r)\<lparr>tx_hash :=
               (if tx_hash r = '''' then the sn else tx_hash r)\<rparr> # ts))"

definition get_stuck_pending ::
  "err option \<Rightarrow> string option \<Rightarrow> go_time \<Rightarrow> int \<Rightarrow> world \<Rightarrow> err + transaction list" where
  "get_stuck_pending q sn now older w =
     (case q of Some e \<Rightarrow> Inl (Wrap ''get stuck pending txes'' e)
      | None \<Rightarrow> scan_stuck sn (sort_key tx_created (filter (stuck_row now older) (w_txs w))))"

definition pending_stuck_count :: "go_time \<Rightarrow> int \<Rightarrow> world \<Rightarrow> int" where
  "pending_stuck_count now older w =
     int (length (filter (\<lambda>r. tx_status r = StatusPending \<and> tx_created r < now - older) (w_txs w)))"

section \<open>Wallets and balances\<close>

text \<open>\<^verbatim>\<open>internal/postgres/wallet_repo.go\<close>: \<^verbatim>\<open>GetByID\<close>, \<^verbatim>\<open>UpsertBalance\<close>, \<^verbatim>\<open>GetBalances\<close>.\<close>

definition get_wallet :: "ctx \<Rightarrow> err option \<Rightarrow> string \<Rightarrow> world \<Rightarrow> err + wallet" where
  "get_wallet c q i w =
     (case q of Some e \<Rightarrow> Inl (Wrap ''get wallet by id'' e)
      | None \<Rightarrow> (case find (\<lambda>r. wa_id r = i \<and> in_scope c (wa_tenant r)) (w_wallets w) of
                  None \<Rightarrow> Inl (Dom ErrWalletNotFound)
                | Some r \<Rightarrow> Inr r))"


definition upsert_balance ::
  "numeric_col \<Rightarrow> err option \<Rightarrow> string \<Rightarrow> string \<Rightarrow> string \<Rightarrow> decimal \<Rightarrow> world \<Rightarrow> err option \<times> world" where
  "upsert_balance N q wid code issuer amt w =
     (let P = (\<lambda>b. ba_wallet b = wid \<and> ba_asset b = code \<and> ba_issuer b = issuer) in
      case q of Some e \<Rightarrow> (Some (Wrap ''upsert balance'' e), w)
      | None \<Rightarrow> (case N 20 7 amt of
          None \<Rightarrow> (Some (Wrap ''upsert balance'' numeric_overflow), w)
        | Some a \<Rightarrow>
          if \<not> (\<exists>x \<in> set (w_wallets w). wa_id x = wid)
          then (Some (Wrap ''upsert balance'' foreign_key_violation), w)
          else if rows_affected P (w_balances w) = 0
          then (None, w\<lparr>w_balances := w_balances w @
                 [\<lparr>ba_wallet = wid, ba_asset = code, ba_issuer = issuer, ba_balance = a\<rparr>]\<rparr>)
          else (None, w\<lparr>w_balances := update_where P (\<lambda>b. b\<lparr>ba_balance := a\<rparr>) (w_balances w)\<rparr>)))"

definition get_balances :: "string \<Rightarrow> world \<Rightarrow> balance_record list" where
  "get_balances wid w = filter (\<lambda>b. ba_wallet b = wid) (w_balances w)"

end
