(* ===== verification/Store_Laws.thy ===== *)
theory Store_Laws
  imports Store
begin

text \<open>
  What the repository methods promise: the keys stay unique, each method's effect on the row it is
  about and on the others, and the status transitions each allows. \<open>ClaimForSubmission\<close> is shown to be
  an instance of the one-shot contract.
\<close>

section \<open>Well-formed tables\<close>

text \<open>Ids are unique, and so are the hashes that are set.\<close>

definition wf_txs :: "world \<Rightarrow> bool" where
  "wf_txs w \<longleftrightarrow> distinct (map tx_id (w_txs w)) \<and>
     distinct (filter (\<lambda>h. h \<noteq> '''') (map tx_hash (w_txs w)))"

lemma wf_txs_ids: "wf_txs w \<Longrightarrow> distinct (map tx_id (w_txs w))"
  by (simp add: wf_txs_def)

lemma wf_txs_empty [simp]: "wf_txs empty_world"
  by (simp add: wf_txs_def empty_world_def)

lemma map_congruent_update:
  "\<forall>r. g (f r) = g r \<Longrightarrow> map g (update_where P f t) = map g t"
  by (simp add: map_key_update_where)

lemma wf_set_txs:
  assumes "wf_txs w" and "\<And>r. tx_id (f r) = tx_id r" and "\<And>r. tx_hash (f r) = tx_hash r"
  shows "wf_txs (set_txs P f w)"
  using assms by (simp add: wf_txs_def set_txs_def map_key_update_where)

text \<open>Writing a fresh hash to one row keeps the hashes unique.\<close>

lemma distinct_hashes_write:
  assumes "distinct (map tx_id t)" and "distinct (filter (\<lambda>h. h \<noteq> '''') (map tx_hash t))"
    and "h = '''' \<or> (\<forall>r \<in> set t. tx_id r \<noteq> i \<longrightarrow> tx_hash r \<noteq> h)"
    and "\<And>r. P r \<Longrightarrow> tx_id r = i" and "\<And>r. tx_hash (f r) = h"
  shows "distinct (filter (\<lambda>h. h \<noteq> '''') (map tx_hash (update_where P f t)))"
  using assms(1-3)
proof (induction t)
  case Nil
  then show ?case by simp
next
  case (Cons a t)
  from Cons.prems(2) have td: "distinct (filter (\<lambda>h. h \<noteq> '''') (map tx_hash t))"
    by (auto split: if_splits)
  with Cons have IH: "distinct (filter (\<lambda>h. h \<noteq> '''') (map tx_hash (update_where P f t)))"
    by auto
  show ?case
  proof (cases "P a")
    case True
    then have "tx_id a = i" by (rule assms(4))
    with Cons.prems(1) have "i \<notin> tx_id ` set t" by simp
    then have other: "\<forall>r \<in> set t. tx_id r \<noteq> i" by (auto simp: image_iff)
    with assms(4) have "update_where P f t = t" by (intro update_where_id) auto
    moreover have "h \<noteq> '''' \<Longrightarrow> h \<notin> tx_hash ` set t" using Cons.prems(3) other by auto
    ultimately show ?thesis using True td assms(5) by auto
  next
    case False
    have "tx_hash a \<noteq> '''' \<Longrightarrow> tx_hash a \<notin> tx_hash ` set (update_where P f t)"
    proof
      assume a: "tx_hash a \<noteq> ''''" and "tx_hash a \<in> tx_hash ` set (update_where P f t)"
      then obtain r where r: "r \<in> set t" "tx_hash a = (if P r then h else tx_hash r)"
        by (auto simp: set_update_where assms(5))
      show False
      proof (cases "P r")
        case True
        then have "tx_id r = i" by (rule assms(4))
        with Cons.prems(1) r(1) have "tx_id a \<noteq> i" by force
        with Cons.prems(3) r(2) True a show False by auto
      next
        case False
        with r a Cons.prems(2) show False by auto
      qed
    qed
    with IH False show ?thesis by simp
  qed
qed

section \<open>Effect of the methods on a row\<close>

lemma tx_of_set_txs:
  assumes "\<And>r. tx_id (f r) = tx_id r"
  shows "tx_of (set_txs P f w) i = map_option (\<lambda>r. if P r then f r else r) (tx_of w i)"
  using assms by (simp add: set_txs_def row_with_update_where)

lemma set_txs_other_fields [simp]:
  "w_queue (set_txs P f w) = w_queue w" "w_events (set_txs P f w) = w_events w"
  "w_net (set_txs P f w) = w_net w" "w_collections (set_txs P f w) = w_collections w"
  "w_wallets (set_txs P f w) = w_wallets w" "w_reviews (set_txs P f w) = w_reviews w"
  "w_tenants (set_txs P f w) = w_tenants w" "w_batches (set_txs P f w) = w_batches w"
  "w_balances (set_txs P f w) = w_balances w" "w_fees (set_txs P f w) = w_fees w"
  "w_blocks (set_txs P f w) = w_blocks w"
  by (simp_all add: set_txs_def)

lemma guarded_update_cases:
  assumes "guarded_update what q P f w = (r, w')"
  obtains (failed) e where "r = Some e" "w' = w"
  | (hit) "q = None" "r = None" "w' = set_txs P f w" "rows_affected P (w_txs w) \<noteq> 0"
  using assms by (auto simp: guarded_update_def split: option.splits if_splits)

lemma guarded_update_None [simp]:
  "guarded_update what None P f w =
     (if rows_affected P (w_txs w) = 0 then (Some (Wrap what (Dom ErrConcurrentUpdate)), w)
      else (None, set_txs P f w))"
  by (simp add: guarded_update_def)

definition tx_available :: "world \<Rightarrow> string \<Rightarrow> bool" where
  "tx_available w i \<longleftrightarrow> (\<exists>r. tx_of w i = Some r \<and> tx_status r = StatusPending)"

lemma rows_affected_status:
  assumes "wf_txs w"
  shows "rows_affected (\<lambda>r. tx_id r = i \<and> Q r) (w_txs w) \<noteq> 0 \<longleftrightarrow>
    (\<exists>r. tx_of w i = Some r \<and> Q r)"
  using wf_txs_ids [OF assms] by (simp add: rows_affected_key split: option.splits)

lemma claim_succeeds_iff:
  assumes "wf_txs w"
  shows "fst (claim_for_submission None i w) = None \<longleftrightarrow> tx_available w i"
  using rows_affected_status [OF assms, of i "\<lambda>r. tx_status r = StatusPending"]
  by (auto simp: claim_for_submission_def tx_available_def)

lemma claim_effect:
  assumes "claim_for_submission q i w = (None, w')"
  shows "tx_of w' j = map_option (\<lambda>r. if j = i \<and> tx_status r = StatusPending
           then r\<lparr>tx_status := StatusSubmitted\<rparr> else r) (tx_of w j)"
  using assms unfolding claim_for_submission_def
  by (cases rule: guarded_update_cases)
     (auto simp: tx_of_set_txs dest!: row_with_SomeD intro!: option.map_cong)

lemma claim_failed: "claim_for_submission q i w = (Some e, w') \<Longrightarrow> w' = w"
  unfolding claim_for_submission_def by (erule guarded_update_cases) auto

lemma wf_claim: "wf_txs w \<Longrightarrow> wf_txs (snd (claim_for_submission q i w))"
  unfolding claim_for_submission_def
  by (auto simp: guarded_update_def wf_set_txs split: option.splits)

interpretation claims: one_shot wf_txs tx_available "claim_for_submission None"
proof unfold_locales
  fix w i j w' e
  show "wf_txs w \<Longrightarrow> wf_txs (snd (claim_for_submission None i w))" by (rule wf_claim)
  show "wf_txs w \<Longrightarrow> tx_available w i \<Longrightarrow> fst (claim_for_submission None i w) = None"
    by (simp add: claim_succeeds_iff)
  show "wf_txs w \<Longrightarrow> \<not> tx_available w i \<Longrightarrow> fst (claim_for_submission None i w) \<noteq> None"
    by (simp add: claim_succeeds_iff)
  show "claim_for_submission None i w = (None, w') \<Longrightarrow> \<not> tx_available w' i"
    by (auto simp: claim_effect tx_available_def)
  show "claim_for_submission None i w = (Some e, w') \<Longrightarrow> w' = w" by (rule claim_failed)
  show "claim_for_submission None i w = (None, w') \<Longrightarrow> j \<noteq> i
      \<Longrightarrow> tx_available w' j = tx_available w j"
    by (auto simp: claim_effect tx_available_def)
qed

section \<open>UpdateStatus never leaves confirmed\<close>

lemma update_status_cases:
  assumes "update_status c q i st h w = (r, w')"
  obtains (failed) e where "r = Some e" "w' = w"
  | (hit) "q = None" "r = None"
      "w' = set_txs (\<lambda>r. tx_id r = i \<and> tx_status r \<noteq> StatusConfirmed \<and> in_scope c (tx_tenant r))
             (\<lambda>r. r\<lparr>tx_status := st, tx_hash := h\<rparr>) w"
      "rows_affected (\<lambda>r. tx_id r = i \<and> tx_status r \<noteq> StatusConfirmed \<and> in_scope c (tx_tenant r))
         (w_txs w) = 0 \<or> \<not> hash_taken i h w"
  using assms by (auto simp: update_status_def Let_def split: option.splits if_splits)

lemma update_status_effect:
  assumes "update_status c q i st h w = (None, w')"
  shows "tx_of w' j = map_option (\<lambda>r. if j = i \<and> tx_status r \<noteq> StatusConfirmed
            \<and> in_scope c (tx_tenant r) then r\<lparr>tx_status := st, tx_hash := h\<rparr> else r) (tx_of w j)"
  using assms
  by (cases rule: update_status_cases)
     (auto simp: tx_of_set_txs dest!: row_with_SomeD intro!: option.map_cong)

lemma update_status_failed: "update_status c q i st h w = (Some e, w') \<Longrightarrow> w' = w"
  by (erule update_status_cases) auto

text \<open>Writing a hash that no other row has keeps the keys.\<close>

lemma wf_write_hash:
  assumes "wf_txs w" and "\<not> hash_taken i h w" and "\<And>r. P r \<Longrightarrow> tx_id r = i"
  shows "wf_txs (set_txs P (\<lambda>r. r\<lparr>tx_status := st, tx_hash := h\<rparr>) w)"
proof -
  let ?f = "\<lambda>r. r\<lparr>tx_status := st, tx_hash := h\<rparr>"
  from assms(2) have "h = '''' \<or> (\<forall>r \<in> set (w_txs w). tx_id r \<noteq> i \<longrightarrow> tx_hash r \<noteq> h)"
    by (auto simp: hash_taken_def)
  with assms(1,3) distinct_hashes_write [of "w_txs w" h i P ?f]
  have "distinct (filter (\<lambda>h. h \<noteq> '''') (map tx_hash (update_where P ?f (w_txs w))))"
    by (simp add: wf_txs_def)
  with assms(1) show ?thesis by (simp add: wf_txs_def set_txs_def map_key_update_where)
qed

lemma wf_update_status: "wf_txs w \<Longrightarrow> wf_txs (snd (update_status c q i st h w))"
proof -
  assume wf: "wf_txs w"
  obtain r w' where u: "update_status c q i st h w = (r, w')" by (cases "update_status c q i st h w")
  from u show ?thesis
  proof (cases rule: update_status_cases)
    case failed
    with wf u show ?thesis by simp
  next
    case hit
    let ?P = "\<lambda>r. tx_id r = i \<and> tx_status r \<noteq> StatusConfirmed \<and> in_scope c (tx_tenant r)"
    show ?thesis
    proof (cases "rows_affected ?P (w_txs w) = 0")
      case True
      with hit(3) have "w' = w" by (simp add: set_txs_def update_where_none)
      with wf u show ?thesis by simp
    next
      case False
      with hit(3,4) wf u wf_write_hash [of w i h ?P st] show ?thesis by simp
    qed
  qed
qed

section \<open>The other status methods\<close>

lemma guarded_status_effect:
  assumes "guarded_update what q (\<lambda>r. tx_id r = i \<and> Q r) f w = (None, w')"
    and "\<And>r. tx_id (f r) = tx_id r"
  shows "tx_of w' j = map_option (\<lambda>r. if j = i \<and> Q r then f r else r) (tx_of w j)"
    and "\<exists>r \<in> set (w_txs w). tx_id r = i \<and> Q r"
proof -
  have w': "w' = set_txs (\<lambda>r. tx_id r = i \<and> Q r) f w"
    and n: "rows_affected (\<lambda>r. tx_id r = i \<and> Q r) (w_txs w) \<noteq> 0"
    using assms(1) by (auto elim: guarded_update_cases)
  show "tx_of w' j = map_option (\<lambda>r. if j = i \<and> Q r then f r else r) (tx_of w j)"
    unfolding w' using assms(2)
    by (auto simp: tx_of_set_txs dest!: row_with_SomeD intro!: option.map_cong)
  show "\<exists>r \<in> set (w_txs w). tx_id r = i \<and> Q r"
    using n by (auto simp: rows_affected_0)
qed

lemma update_tx_confirmed_cases:
  assumes "update_tx_confirmed q i h w = (r, w')"
  obtains (failed) e where "r = Some e" "w' = w"
  | (hit) "q = None" "r = None" "\<not> hash_taken i h w"
      "w' = set_txs (\<lambda>r. tx_id r = i \<and> tx_status r \<in> {StatusPending, StatusSubmitted})
         (\<lambda>r. r\<lparr>tx_status := StatusConfirmed, tx_hash := h\<rparr>) w"
  using assms unfolding update_tx_confirmed_def Let_def
  by (elim guarded_update_cases) (auto split: if_splits)

lemma update_tx_confirmed_effect:
  assumes "update_tx_confirmed q i h w = (None, w')"
  shows "tx_of w' j = map_option (\<lambda>r. if j = i \<and> tx_status r \<in> {StatusPending, StatusSubmitted}
      then r\<lparr>tx_status := StatusConfirmed, tx_hash := h\<rparr> else r) (tx_of w j)"
  using assms unfolding update_tx_confirmed_def Let_def
  by (rule guarded_status_effect(1)) simp

lemma update_tx_failed_effect:
  assumes "update_tx_failed q i w = (None, w')"
  shows "tx_of w' j = map_option (\<lambda>r. if j = i \<and> tx_status r \<in> {StatusPending, StatusSubmitted}
      then r\<lparr>tx_status := StatusFailed\<rparr> else r) (tx_of w j)"
  using assms unfolding update_tx_failed_def by (rule guarded_status_effect(1)) simp

lemma wf_update_tx_confirmed: "wf_txs w \<Longrightarrow> wf_txs (snd (update_tx_confirmed q i h w))"
  by (cases "update_tx_confirmed q i h w")
     (auto elim!: update_tx_confirmed_cases intro!: wf_write_hash)

lemma wf_update_tx_failed: "wf_txs w \<Longrightarrow> wf_txs (snd (update_tx_failed q i w))"
  unfolding update_tx_failed_def by (auto simp: guarded_update_def wf_set_txs split: option.splits)

lemma wf_reset_stuck: "wf_txs w \<Longrightarrow> wf_txs (snd (reset_stuck_submitted q now i older w))"
  unfolding reset_stuck_submitted_def
  by (auto simp: guarded_update_def wf_set_txs split: option.splits)

lemma wf_insert:
  assumes "insert_tx N t w = Inr w'" and "wf_txs w"
  shows "wf_txs w'"
proof -
  from assms(1) obtain r where r: "tx_row N t = Some r" "w' = w\<lparr>w_txs := w_txs w @ [r]\<rparr>"
    and nc: "\<not> tx_conflict t w"
    by (auto simp: insert_tx_def split: option.splits if_splits)
  from r(1) have "tx_id r = tx_id t" "tx_hash r = tx_hash t"
    by (auto simp: tx_row_def split: option.splits)
  with nc assms(2) r(2) show ?thesis by (auto simp: wf_txs_def tx_conflict_def)
qed

text \<open>
  What the column conversion keeps: everything but the amounts, which it may round, and empty
  optional strings, which become NULL.
\<close>

lemma tx_row_fields:
  assumes "tx_row N t = Some r"
  shows "tx_id r = tx_id t" "tx_hash r = tx_hash t" "tx_status r = tx_status t"
    "tx_kind r = tx_kind t" "tx_from r = tx_from t" "tx_to r = tx_to t"
    "tx_to_address r = tx_to_address t" "tx_asset r = tx_asset t" "tx_created r = tx_created t"
    "tx_tenant r = null_ptr (tx_tenant t)" "tx_batch r = null_ptr (tx_batch t)"
    "tx_idem_key r = tx_idem_key t" "tx_requeues r = tx_requeues t"
  using assms by (auto simp: tx_row_def split: option.splits)

end
