(* ===== verification/Samples.thy ===== *)
theory Samples
  imports Store_Laws
begin

text \<open>
  Small concrete values, on which the hypotheses of the properties are evaluated: two wallets, a
  transfer between them in any status, and a world that holds them.
\<close>

definition no_tenant :: ctx where
  "no_tenant = \<lparr>cx_tenant = '''', cx_user = ''''\<rparr>"

definition exact_numeric :: numeric_col where
  "exact_numeric = (\<lambda>p s x. Some x)"

definition sample_tx :: "string \<Rightarrow> tx_status \<Rightarrow> transaction" where
  "sample_tx i st =
     \<lparr>tx_id = i, tx_hash = '''', tx_kind = TypeTransfer, tx_status = st, tx_from = ''a'', tx_to = ''b'',
      tx_to_address = '''', tx_asset = ''XLM'', tx_amount = 10, tx_fee = 1, tx_fee_bps = 100,
      tx_tenant = None, tx_batch = None, tx_reference = '''', tx_created = 0, tx_reconciled = None,
      tx_requeues = 0, tx_idem_key = '''', tx_fiat_rail = None, tx_fiat_ref = None,
      tx_fiat_status = None, tx_local_currency = None, tx_local_amount = None\<rparr>"

definition sample_wallet :: "string \<Rightarrow> string \<Rightarrow> wallet" where
  "sample_wallet i key =
     \<lparr>wa_id = i, wa_public_key = key, wa_secret = ''00'', wa_tenant = None, wa_created = 0,
      wa_cursor = '''', wa_custody = CustodyCustodial, wa_contract = ''''\<rparr>"

definition sample_world :: "tx_status \<Rightarrow> world" where
  "sample_world st = empty_world\<lparr>w_txs := [sample_tx ''t'' st],
     w_wallets := [sample_wallet ''a'' ''GA'', sample_wallet ''b'' ''GB'']\<rparr>"

lemmas sample_defs = no_tenant_def exact_numeric_def sample_tx_def sample_wallet_def sample_world_def
  empty_world_def

lemma sample_world_wf: "wf_txs (sample_world st)"
  by (simp add: wf_txs_def sample_defs)

lemma sample_world_tx: "tx_of (sample_world st) ''t'' = Some (sample_tx ''t'' st)"
  by (simp add: sample_defs)

end
