(* ===== verification/Screening.thy ===== *)
theory Screening
  imports Sanctions Samples
begin

text \<open>
  \<^verbatim>\<open>internal/compliance/screener.go\<close> and \<^verbatim>\<open>velocity.go\<close>: the contract of a screener, the behavioural
  rules, and the composite that runs every screener, turns an error into a hold and keeps the most
  severe outcome. The queries behind the rules are those of
  \<^verbatim>\<open>internal/postgres/compliance_repo.go\<close>.
\<close>

section \<open>Queries of the behavioural rules\<close>

definition count_transfers_by_org_since ::
  "err option \<Rightarrow> string \<Rightarrow> go_time \<Rightarrow> world \<Rightarrow> err + int" where
  "count_transfers_by_org_since q org since w =
     (case q of Some e \<Rightarrow> Inl (Wrap ''count transfers by org'' e)
      | None \<Rightarrow> Inr (int (length (filter (\<lambda>r. tx_tenant r = Some org \<and> tx_kind r = TypeTransfer \<and>
          since \<le> tx_created r) (w_txs w)))))"

definition aggregate_to_destination_since ::
  "err option \<Rightarrow> string \<Rightarrow> string \<Rightarrow> go_time \<Rightarrow> world \<Rightarrow> err + (int \<times> decimal)" where
  "aggregate_to_destination_since q org dest since w =
     (case q of Some e \<Rightarrow> Inl (Wrap ''aggregate transfers to destination'' e)
      | None \<Rightarrow>
        (let rs = filter (\<lambda>r. tx_to r = dest \<and> dest \<noteq> '''' \<and> tx_kind r = TypeTransfer \<and>
               since \<le> tx_created r \<and> (org = '''' \<or> tx_tenant r = Some org)) (w_txs w)
         in Inr (int (length rs), sum_list (map tx_amount rs))))"

definition has_inbound_since ::
  "err option \<Rightarrow> string \<Rightarrow> string \<Rightarrow> go_time \<Rightarrow> world \<Rightarrow> err + bool" where
  "has_inbound_since q wid counterparty since w =
     (case q of Some e \<Rightarrow> Inl (Wrap ''check inbound transfer'' e)
      | None \<Rightarrow> Inr (\<exists>r \<in> set (w_txs w). tx_to r = wid \<and> tx_from r = counterparty \<and>
          wid \<noteq> '''' \<and> counterparty \<noteq> '''' \<and> since \<le> tx_created r \<and>
          tx_status r \<in> {StatusPending, StatusSubmitted, StatusConfirmed}))"

section \<open>Velocity\<close>

record velocity_config =
  vc_window :: int
  vc_max :: int
  vc_structuring_window :: int
  vc_structuring_min :: int
  vc_unit :: decimal
  vc_tolerance :: decimal
  vc_round_trip :: int
  vc_platform :: string

definition new_velocity_config :: "velocity_config \<Rightarrow> velocity_config" where
  "new_velocity_config c =
     \<lparr>vc_window = (if vc_window c \<le> 0 then 10 * minute else vc_window c),
      vc_max = (if vc_max c \<le> 0 then 10 else vc_max c),
      vc_structuring_window =
        (if vc_structuring_window c \<le> 0 then 24 * hour else vc_structuring_window c),
      vc_structuring_min = (if vc_structuring_min c \<le> 0 then 3 else vc_structuring_min c),
      vc_unit = (if vc_unit c \<le> 0 then 1000 else vc_unit c),
      vc_tolerance = (if vc_tolerance c \<le> 0 then 5 / 100 else vc_tolerance c),
      vc_round_trip = (if vc_round_trip c \<le> 0 then 60 * minute else vc_round_trip c),
      vc_platform = vc_platform c\<rparr>"

definition is_structuring :: "decimal_pkg \<Rightarrow> velocity_config \<Rightarrow> decimal \<Rightarrow> bool" where
  "is_structuring D c amt =
     (if amt \<le> 0 then False
      else
        let nxt = (of_int \<lfloor>d_div D amt (vc_unit c)\<rfloor> + 1) * vc_unit c in
        if nxt \<le> 0 then False else d_div D (nxt - amt) nxt \<le> vc_tolerance c)"

text \<open>The texts made by \<^verbatim>\<open>fmt.Sprintf\<close>, as functions of what is printed.\<close>

record velocity_texts =
  vt_burst :: "int \<Rightarrow> int \<Rightarrow> int \<Rightarrow> string"
  vt_structuring :: "int \<Rightarrow> decimal \<Rightarrow> string"
  vt_round_trip :: "int \<Rightarrow> string"

fun join_reasons :: "string list \<Rightarrow> string" where
  "join_reasons [] = ''''"
| "join_reasons [r] = r"
| "join_reasons (r # rs) = r @ ''; '' @ join_reasons rs"

text \<open>
  What the three rules find, in order; each is skipped when its guard fails, and the first query
  that fails ends the screening with an error. \<open>q k\<close> is the driver's report for the \<open>k\<close>-th query.
\<close>

type_synonym finding = "string \<times> string \<times> int"  \<comment> \<open>rule, reason, score\<close>

definition burst_rule ::
  "velocity_texts \<Rightarrow> velocity_config \<Rightarrow> err option \<Rightarrow> go_time \<Rightarrow> screening_request \<Rightarrow> world
    \<Rightarrow> err + finding list" where
  "burst_rule V c q now rq w =
     (if rq_org rq = '''' then Inr []
      else case count_transfers_by_org_since q (rq_org rq) (now - vc_window c) w of
        Inl e \<Rightarrow> Inl (Wrap ''velocity count'' e)
      | Inr n \<Rightarrow> Inr (if n + 1 > vc_max c
                       then [(''velocity_burst'', vt_burst V (n + 1) (vc_window c) (vc_max c), 60)]
                       else []))"

definition structuring_rule ::
  "decimal_pkg \<Rightarrow> velocity_texts \<Rightarrow> velocity_config \<Rightarrow> err option \<Rightarrow> go_time \<Rightarrow> screening_request
    \<Rightarrow> world \<Rightarrow> err + finding list" where
  "structuring_rule D V c q now rq w =
     (if rq_to_wallet rq = '''' then Inr []
      else case aggregate_to_destination_since q (rq_org rq) (rq_to_wallet rq)
                  (now - vc_structuring_window c) w of
        Inl e \<Rightarrow> Inl (Wrap ''structuring aggregate'' e)
      | Inr (n, s) \<Rightarrow>
          (let amt = s + rq_amount rq in
           Inr (if n + 1 \<ge> vc_structuring_min c \<and> is_structuring D c amt
                then [(''structuring'', vt_structuring V (n + 1) amt, 70)] else [])))"

definition round_trip_rule ::
  "velocity_texts \<Rightarrow> velocity_config \<Rightarrow> err option \<Rightarrow> go_time \<Rightarrow> screening_request \<Rightarrow> world
    \<Rightarrow> err + finding list" where
  "round_trip_rule V c q now rq w =
     (if rq_from_wallet rq = '''' \<or> rq_to_wallet rq = '''' then Inr []
      else case has_inbound_since q (rq_from_wallet rq) (rq_to_wallet rq)
                  (now - vc_round_trip c) w of
        Inl e \<Rightarrow> Inl (Wrap ''round-trip lookup'' e)
      | Inr inbound \<Rightarrow>
          Inr (if inbound then [(''round_trip'', vt_round_trip V (vc_round_trip c), 55)] else []))"

definition velocity_screen ::
  "decimal_pkg \<Rightarrow> velocity_texts \<Rightarrow> velocity_config \<Rightarrow> (nat \<Rightarrow> err option) \<Rightarrow> go_time \<Rightarrow> world
    \<Rightarrow> screening_request \<Rightarrow> err + decision" where
  "velocity_screen D V c q now w rq =
     (if vc_platform c \<noteq> '''' \<and>
         (rq_from_wallet rq = vc_platform c \<or> rq_to_wallet rq = vc_platform c)
      then Inr clear_decision
      else case burst_rule V c (q 0) now rq w of Inl e \<Rightarrow> Inl e | Inr f1 \<Rightarrow>
       (case structuring_rule D V c (q 1) now rq w of Inl e \<Rightarrow> Inl e | Inr f2 \<Rightarrow>
       (case round_trip_rule V c (q 2) now rq w of Inl e \<Rightarrow> Inl e | Inr f3 \<Rightarrow>
         (let fs = f1 @ f2 @ f3 in
          if fs = [] then Inr clear_decision
          else Inr (zero_decision\<lparr>dc_status := ScreeningHold,
                 dc_rules := map fst fs, dc_reason := join_reasons (map (fst \<circ> snd) fs),
                 dc_score := fold max (map (snd \<circ> snd) fs) 0\<rparr>)))))"

section \<open>The contract of a screener\<close>

text \<open>
  What the composite expects of a screener that returns without an error: the outcome is one of the
  three, an outcome that stops the payment names the rule that fired, and a clear outcome is silent.
\<close>

locale screener =
  fixes screen :: "'rq \<Rightarrow> err + decision"
  assumes status_set: "screen rq = Inr d \<Longrightarrow> dc_status d \<noteq> ScreeningUnset"
    and stop_named: "screen rq = Inr d \<Longrightarrow> dc_status d \<noteq> ScreeningClear \<Longrightarrow> dc_rules d \<noteq> []"
    and clear_silent: "screen rq = Inr d \<Longrightarrow> dc_status d = ScreeningClear \<Longrightarrow> dc_rules d = []"
begin

lemma clear_iff_no_rule: "screen rq = Inr d \<Longrightarrow> dc_status d = ScreeningClear \<longleftrightarrow> dc_rules d = []"
  using stop_named clear_silent by blast

end

section \<open>The composite\<close>

text \<open>The outcome that counts for one screener: an error is a hold.\<close>

definition fail_closed :: "string \<Rightarrow> err + decision \<Rightarrow> decision" where
  "fail_closed name r =
     (case r of Inr d \<Rightarrow> d
      | Inl e \<Rightarrow> zero_decision\<lparr>dc_status := ScreeningHold,
           dc_rules := [''screener_error:'' @ name],
           dc_reason := ''screening could not be completed for '' @ name, dc_score := 50\<rparr>)"

definition merge_decision :: "decision \<Rightarrow> decision \<Rightarrow> decision" where
  "merge_decision out res =
     (let out1 = out\<lparr>dc_rules := dc_rules out @ dc_rules res\<rparr>;
          out2 = (if dc_score res > dc_score out1 then out1\<lparr>dc_score := dc_score res\<rparr> else out1)
      in if severity (dc_status res) > severity (dc_status out2)
         then out2\<lparr>dc_status := dc_status res, dc_reason := dc_reason res,
                   dc_matched := dc_matched res\<rparr>
         else out2)"

definition composite_screen ::
  "(string \<times> ('rq \<Rightarrow> err + decision)) list \<Rightarrow> 'rq \<Rightarrow> err + decision" where
  "composite_screen ss rq =
     Inr (fold (\<lambda>(name, screen) out. merge_decision out (fail_closed name (screen rq))) ss
       clear_decision)"

section \<open>Facts about the composite\<close>

lemma merge_decision_severity:
  "severity (dc_status (merge_decision a b)) = max (severity (dc_status a)) (severity (dc_status b))"
  by (simp add: merge_decision_def Let_def)

lemma merge_decision_rules: "dc_rules (merge_decision a b) = dc_rules a @ dc_rules b"
  by (simp add: merge_decision_def Let_def)

lemma merge_decision_score: "dc_score (merge_decision a b) = max (dc_score a) (dc_score b)"
  by (simp add: merge_decision_def Let_def)

lemma merge_decision_status:
  "dc_status (merge_decision a b) \<in> {dc_status a, dc_status b}"
  by (simp add: merge_decision_def Let_def)

lemma clear_decision_simps [simp]:
  "dc_status clear_decision = ScreeningClear" "dc_rules clear_decision = []"
  "dc_score clear_decision = 0"
  by (simp_all add: clear_decision_def zero_decision_def)

definition outcomes :: "(string \<times> ('rq \<Rightarrow> err + decision)) list \<Rightarrow> 'rq \<Rightarrow> decision list" where
  "outcomes ss rq = map (\<lambda>(name, screen). fail_closed name (screen rq)) ss"

lemma composite_fold: "composite_screen ss rq = Inr (fold (\<lambda>d out. merge_decision out d) (outcomes ss rq) clear_decision)"
  by (simp add: composite_screen_def outcomes_def fold_map comp_def split_def)

lemma fold_merge_severity:
  "severity (dc_status (fold (\<lambda>d out. merge_decision out d) ds out))
    = fold max (map (severity \<circ> dc_status) ds) (severity (dc_status out))"
  by (induction ds arbitrary: out) (simp_all add: merge_decision_severity max.commute)

lemma fold_merge_rules:
  "dc_rules (fold (\<lambda>d out. merge_decision out d) ds out) = dc_rules out @ concat (map dc_rules ds)"
  by (induction ds arbitrary: out) (simp_all add: merge_decision_rules)

lemma fold_merge_score:
  "dc_score (fold (\<lambda>d out. merge_decision out d) ds out) = fold max (map dc_score ds) (dc_score out)"
  by (induction ds arbitrary: out) (simp_all add: merge_decision_score max.commute)

lemma fold_max_ge: "x \<in> insert a (set xs) \<Longrightarrow> (x::int) \<le> fold max xs a"
  by (simp add: Max_ge flip: Max.set_eq_fold)

lemma fold_max_in: "fold max xs (a::int) \<in> insert a (set xs)"
proof -
  have "Max (set (a # xs)) \<in> set (a # xs)" by (rule Max_in) simp_all
  then show ?thesis unfolding Max.set_eq_fold by simp
qed

lemma fold_max_0: "\<forall>x \<in> set xs. 0 \<le> x \<Longrightarrow> fold max xs (0::int) = 0 \<longleftrightarrow> (\<forall>x \<in> set xs. x = 0)"
  using fold_max_in [of xs 0] fold_max_ge [of _ 0 xs] by fastforce

lemma severity_eq_2: "severity s = 2 \<longleftrightarrow> s = ScreeningBlocked"
  by (cases s) simp_all

lemma severity_eq_0: "severity s = 0 \<longleftrightarrow> s = ScreeningClear \<or> s = ScreeningUnset"
  by (cases s) simp_all

lemma severity_bounds: "0 \<le> severity s \<and> severity s \<le> 2"
  by (cases s) simp_all

lemma fold_merge_clear:
  assumes "dc_status out = ScreeningClear"
    and "severity (dc_status (fold (\<lambda>d out. merge_decision out d) ds out)) = 0"
  shows "dc_status (fold (\<lambda>d out. merge_decision out d) ds out) = ScreeningClear"
  using assms
proof (induction ds arbitrary: out)
  case (Cons e ds)
  let ?o = "merge_decision out e"
  have "severity (dc_status ?o) \<le> 0"
    using Cons.prems(2) fold_max_ge [of "severity (dc_status ?o)" "severity (dc_status ?o)"
        "map (severity \<circ> dc_status) ds"]
    by (simp add: fold_merge_severity)
  with Cons.prems(1) have "dc_status ?o = ScreeningClear"
    using severity_bounds [of "dc_status e"] by (simp add: merge_decision_def Let_def split: if_splits)
  with Cons show ?case by simp
qed simp

lemma composite_blocked_iff:
  assumes "composite_screen ss rq = Inr d"
  shows "dc_status d = ScreeningBlocked \<longleftrightarrow>
    (\<exists>name screen r. (name, screen) \<in> set ss \<and> screen rq = Inr r \<and> dc_status r = ScreeningBlocked)"
proof -
  let ?sev = "map (severity \<circ> dc_status) (outcomes ss rq)"
  from assms have d: "severity (dc_status d) = fold max ?sev 0"
    by (auto simp: composite_fold fold_merge_severity)
  have "dc_status d = ScreeningBlocked \<longleftrightarrow> 2 \<in> set ?sev"
    using fold_max_in [of ?sev 0] fold_max_ge [of 2 0 ?sev] severity_bounds [of "dc_status d"] d
    by (auto simp flip: severity_eq_2)
  also have "\<dots> \<longleftrightarrow> (\<exists>name screen r. (name, screen) \<in> set ss \<and> screen rq = Inr r
      \<and> dc_status r = ScreeningBlocked)"
    by (force simp: outcomes_def fail_closed_def image_iff severity_eq_2 eq_commute [of 2] split: sum.splits)
  finally show ?thesis .
qed

lemma composite_clear_severity:
  assumes "composite_screen ss rq = Inr d"
  shows "dc_status d = ScreeningClear \<longleftrightarrow> severity (dc_status d) = 0"
proof -
  have "d = fold (\<lambda>d out. merge_decision out d) (outcomes ss rq) clear_decision"
    using assms by (simp add: composite_fold)
  then show ?thesis using fold_merge_clear [of clear_decision "outcomes ss rq"] by auto
qed

text \<open>The composite clears a payment only if every screener returned, and none found anything.\<close>

lemma composite_not_stopped_iff:
  assumes "composite_screen ss rq = Inr d"
  shows "dc_status d = ScreeningClear \<longleftrightarrow>
    (\<forall>(name, screen) \<in> set ss. \<exists>r. screen rq = Inr r \<and> severity (dc_status r) = 0)"
proof -
  let ?sev = "map (severity \<circ> dc_status) (outcomes ss rq)"
  have d: "d = fold (\<lambda>d out. merge_decision out d) (outcomes ss rq) clear_decision"
    using assms by (simp add: composite_fold)
  have "dc_status d = ScreeningClear \<longleftrightarrow> severity (dc_status d) = 0"
    by (rule composite_clear_severity [OF assms])
  also have "\<dots> \<longleftrightarrow> fold max ?sev 0 = 0" by (simp add: d fold_merge_severity)
  also have "\<dots> \<longleftrightarrow> (\<forall>s \<in> set ?sev. s = 0)" using severity_bounds by (intro fold_max_0) auto
  also have "\<dots> \<longleftrightarrow> (\<forall>(name, screen) \<in> set ss. \<exists>r. screen rq = Inr r \<and> severity (dc_status r) = 0)"
    by (fastforce simp: outcomes_def fail_closed_def split: sum.splits)
  finally show ?thesis .
qed

section \<open>The two screeners and the composite keep the contract\<close>

interpretation sanctions: screener "sanctions_screen U set_opt threshold" for U set_opt threshold
  by unfold_locales
     (auto simp: sanctions_screen_def zero_decision_def split: option.splits if_splits)

lemma velocity_screen_cases:
  assumes "velocity_screen D V c q now w rq = Inr d"
  shows "d = clear_decision \<or> dc_status d = ScreeningHold \<and> dc_rules d \<noteq> []"
  using assms
  by (auto simp: velocity_screen_def zero_decision_def Let_def split: if_splits sum.splits)

interpretation velocity: screener "velocity_screen D V c q now w" for D V c q now w
  by unfold_locales (use velocity_screen_cases in fastforce)+

section \<open>Properties\<close>

text \<open>
  The composite screener never fails, and it blocks a payment exactly if one of its screeners
  returned and blocked it; an error of a screener never blocks and never lifts a block.
\<close>

theorem composite_blocks_iff:
  "\<exists>d. composite_screen ss rq = Inr d \<and> (dc_status d = ScreeningBlocked \<longleftrightarrow>
     list_ex (\<lambda>(name, screen). \<exists>r. screen rq = Inr r \<and> dc_status r = ScreeningBlocked) ss)"
proof -
  obtain d where d: "composite_screen ss rq = Inr d" by (simp add: composite_screen_def)
  from composite_blocked_iff [OF d] d show ?thesis by (auto simp: list_ex_iff split: prod.splits)
qed

text \<open>
  The composite clears a payment exactly if every screener returned without an error and none of
  them asked for a hold or a block: screening fails closed.
\<close>

theorem composite_clears_iff:
  "\<exists>d. composite_screen ss rq = Inr d \<and> (dc_status d = ScreeningClear \<longleftrightarrow>
     list_all (\<lambda>(name, screen). \<exists>r. screen rq = Inr r \<and> severity (dc_status r) = 0) ss)"
proof -
  obtain d where d: "composite_screen ss rq = Inr d" by (simp add: composite_screen_def)
  from composite_not_stopped_iff [OF d] d show ?thesis by (simp add: list_all_iff)
qed

text \<open>
  Without a failing query the velocity screener holds a payment that does not involve the
  platform's wallet exactly if one of its three rules fires: too many transfers of the organisation
  in the window, enough transfers to one destination whose sum stays just below a reporting unit, or
  a recent transfer in the opposite direction.
\<close>

theorem velocity_holds_iff:
  assumes "vc_platform c = '''' \<or> rq_from_wallet rq \<noteq> vc_platform c \<and> rq_to_wallet rq \<noteq> vc_platform c"
  shows "\<exists>d. velocity_screen D V c (\<lambda>_. None) now w rq = Inr d \<and>
    (dc_status d = ScreeningHold \<longleftrightarrow>
      (rq_org rq \<noteq> '''' \<and>
        (\<exists>n. count_transfers_by_org_since None (rq_org rq) (now - vc_window c) w = Inr n \<and> vc_max c < n + 1)) \<or>
      (rq_to_wallet rq \<noteq> '''' \<and>
        (\<exists>n s. aggregate_to_destination_since None (rq_org rq) (rq_to_wallet rq)
            (now - vc_structuring_window c) w = Inr (n, s) \<and>
          vc_structuring_min c \<le> n + 1 \<and> is_structuring D c (s + rq_amount rq))) \<or>
      (rq_from_wallet rq \<noteq> '''' \<and> rq_to_wallet rq \<noteq> '''' \<and>
        has_inbound_since None (rq_from_wallet rq) (rq_to_wallet rq) (now - vc_round_trip c) w = Inr True))"
proof -
  obtain f1 where f1: "burst_rule V c None now rq w = Inr f1" "f1 \<noteq> [] \<longleftrightarrow> rq_org rq \<noteq> '''' \<and>
      (\<exists>n. count_transfers_by_org_since None (rq_org rq) (now - vc_window c) w = Inr n \<and> vc_max c < n + 1)"
    by (cases "burst_rule V c None now rq w")
       (auto simp: burst_rule_def count_transfers_by_org_since_def split: if_splits)
  obtain f2 where f2: "structuring_rule D V c None now rq w = Inr f2" "f2 \<noteq> [] \<longleftrightarrow> rq_to_wallet rq \<noteq> '''' \<and>
      (\<exists>n s. aggregate_to_destination_since None (rq_org rq) (rq_to_wallet rq)
          (now - vc_structuring_window c) w = Inr (n, s) \<and>
        vc_structuring_min c \<le> n + 1 \<and> is_structuring D c (s + rq_amount rq))"
    by (cases "structuring_rule D V c None now rq w")
       (auto simp: structuring_rule_def aggregate_to_destination_since_def Let_def split: if_splits)
  obtain f3 where f3: "round_trip_rule V c None now rq w = Inr f3" "f3 \<noteq> [] \<longleftrightarrow>
      rq_from_wallet rq \<noteq> '''' \<and> rq_to_wallet rq \<noteq> '''' \<and>
      has_inbound_since None (rq_from_wallet rq) (rq_to_wallet rq) (now - vc_round_trip c) w = Inr True"
    by (cases "round_trip_rule V c None now rq w")
       (auto simp: round_trip_rule_def has_inbound_since_def split: if_splits)
  obtain d where d: "velocity_screen D V c (\<lambda>_. None) now w rq = Inr d"
    and h: "dc_status d = ScreeningHold \<longleftrightarrow> f1 @ f2 @ f3 \<noteq> []"
    using assms f1(1) f2(1) f3(1)
    by (cases "f1 @ f2 @ f3 = []") (auto simp: velocity_screen_def Let_def)
  with f1(2) f2(2) f3(2) show ?thesis by auto
qed

definition sample_velocity :: velocity_config where
  "sample_velocity = new_velocity_config \<lparr>vc_window = 0, vc_max = 0, vc_structuring_window = 0,
     vc_structuring_min = 0, vc_unit = 0, vc_tolerance = 0, vc_round_trip = 0, vc_platform = ''p''\<rparr>"

definition sample_request :: screening_request where
  "sample_request = \<lparr>rq_org = '''', rq_from_wallet = ''a'', rq_to_wallet = ''b'', rq_from_key = ''GA'',
     rq_to_key = ''GB'', rq_to_federation = '''', rq_asset = ''XLM'', rq_amount = 10\<rparr>"

definition silent_texts :: velocity_texts where
  "silent_texts = \<lparr>vt_burst = (\<lambda>a b c. ''burst''), vt_structuring = (\<lambda>a b. ''structuring''),
     vt_round_trip = (\<lambda>a. ''round trip'')\<rparr>"

lemma velocity_holds_iff_witness:
  "\<exists>d. velocity_screen reference_pkg silent_texts sample_velocity (\<lambda>_. None) 0 (sample_world StatusPending)
     (sample_request\<lparr>rq_from_wallet := ''b'', rq_to_wallet := ''a''\<rparr>) = Inr d \<and> dc_status d = ScreeningHold"
proof -
  let ?rq = "sample_request\<lparr>rq_from_wallet := ''b'', rq_to_wallet := ''a''\<rparr>"
  have "vc_platform sample_velocity = ''p''" "rq_from_wallet ?rq = ''b''" "rq_to_wallet ?rq = ''a''"
    by (simp_all add: sample_velocity_def new_velocity_config_def sample_request_def)
  moreover have "has_inbound_since None ''b'' ''a'' (0 - vc_round_trip sample_velocity)
      (sample_world StatusPending) = Inr True"
    by (simp add: has_inbound_since_def sample_defs sample_velocity_def new_velocity_config_def
        minute_def second_def)
  ultimately show ?thesis
    using velocity_holds_iff [of sample_velocity ?rq reference_pkg silent_texts 0 "sample_world StatusPending"]
    by simp
qed

end
