(* ===== verification/Compliance.thy ===== *)
theory Compliance
  imports Screening
begin

text \<open>
  \<^verbatim>\<open>internal/compliance/service.go\<close> on the methods of \<^verbatim>\<open>internal/postgres/compliance_repo.go\<close>: the block
  record of a refused payment, the review of a held one, and the decision of a review, which
  releases the transfer to settlement or fails it. Also the two side effects several services share:
  enqueueing a transfer (\<^verbatim>\<open>internal/queue/client.go\<close>) and dispatching a webhook event.
\<close>

section \<open>Queue and events\<close>

text \<open>\<^verbatim>\<open>EnqueueTransfer\<close>; the payload is the transaction id.\<close>

definition enqueue_transfer :: "err option \<Rightarrow> string \<Rightarrow> world \<Rightarrow> err option \<times> world" where
  "enqueue_transfer q i w =
     (case q of Some e \<Rightarrow> (Some e, w) | None \<Rightarrow> (None, w\<lparr>w_queue := w_queue w @ [i]\<rparr>))"

text \<open>\<^verbatim>\<open>dispatch\<close>: a no-op without a dispatcher, and a failure is only logged.\<close>

definition dispatch :: "bool \<Rightarrow> err option \<Rightarrow> event \<Rightarrow> string \<Rightarrow> world \<Rightarrow> world" where
  "dispatch wired q ev i w =
     (if wired \<and> q = None then w\<lparr>w_events := w_events w @ [(ev, i)]\<rparr> else w)"

section \<open>The review repository\<close>

abbreviation review_of :: "world \<Rightarrow> string \<Rightarrow> review option" where
  "review_of w i \<equiv> row_with rv_id i (w_reviews w)"

definition create_review :: "ctx \<Rightarrow> err option \<Rightarrow> review \<Rightarrow> world \<Rightarrow> err option \<times> world" where
  "create_review c q r w =
     (let org = (if cx_tenant c \<noteq> '''' \<and> rv_org r = None then Some (cx_tenant c) else rv_org r);
          row = r\<lparr>rv_org := null_ptr org, rv_by := None, rv_at := None\<rparr>;
          failed = (\<lambda>e. (Some (Wrap ''insert compliance review'' e), w)) in
      case q of Some e \<Rightarrow> failed e
      | None \<Rightarrow>
        if \<exists>x \<in> set (w_reviews w). rv_id x = rv_id r \<or> rv_tx x = rv_tx r
        then failed unique_violation
        else if tx_of w (rv_tx r) = None then failed foreign_key_violation
        else (None, w\<lparr>w_reviews := w_reviews w @ [row]\<rparr>))"

definition get_review :: "ctx \<Rightarrow> err option \<Rightarrow> string \<Rightarrow> world \<Rightarrow> err + review" where
  "get_review c q i w =
     (case q of Some e \<Rightarrow> Inl (Wrap ''get compliance review'' e)
      | None \<Rightarrow> (case find (\<lambda>r. rv_id r = i \<and> in_scope c (rv_org r)) (w_reviews w) of
                  None \<Rightarrow> Inl (Dom ErrComplianceReviewNotFound)
                | Some r \<Rightarrow> Inr r))"

fun review_text :: "review_status \<Rightarrow> string" where
  "review_text ReviewPending = ''pending''"
| "review_text ReviewApproved = ''approved''"
| "review_text ReviewRejected = ''rejected''"

definition list_reviews ::
  "ctx \<Rightarrow> err option \<Rightarrow> string \<Rightarrow> nat \<Rightarrow> nat \<Rightarrow> world \<Rightarrow> err + review list" where
  "list_reviews c q status limit offset w =
     (case q of Some e \<Rightarrow> Inl (Wrap ''list compliance reviews'' e)
      | None \<Rightarrow> Inr (take limit (drop offset (sort_key (\<lambda>r. - rv_created r)
          (filter (\<lambda>r. in_scope c (rv_org r) \<and> (status = '''' \<or> review_text (rv_status r) = status))
            (w_reviews w))))))"

definition decide_review ::
  "ctx \<Rightarrow> err option \<Rightarrow> review_status \<Rightarrow> string option \<Rightarrow> string \<Rightarrow> go_time \<Rightarrow> string \<Rightarrow> world
    \<Rightarrow> err option \<times> world" where
  "decide_review c q outcome by_user notes decided i w =
     (let P = (\<lambda>r. rv_id r = i \<and> rv_status r = ReviewPending \<and> in_scope c (rv_org r)) in
      case q of Some e \<Rightarrow> (Some (Wrap ''decide compliance review'' e), w)
      | None \<Rightarrow>
        if rows_affected P (w_reviews w) = 0 then (Some (Dom ErrReviewNotPending), w)
        else (None, w\<lparr>w_reviews := update_where P (\<lambda>r. r\<lparr>rv_status := outcome,
                rv_by := null_ptr by_user, rv_notes := notes, rv_at := Some decided\<rparr>)
                (w_reviews w)\<rparr>))"

definition create_block ::
  "numeric_col \<Rightarrow> ctx \<Rightarrow> err option \<Rightarrow> block \<Rightarrow> world \<Rightarrow> err option \<times> world" where
  "create_block N c q b w =
     (let org = (if cx_tenant c \<noteq> '''' \<and> bk_org b = None then Some (cx_tenant c) else bk_org b);
          failed = (\<lambda>e. (Some (Wrap ''insert compliance block'' e), w)) in
      case q of Some e \<Rightarrow> failed e
      | None \<Rightarrow>
        if \<exists>x \<in> set (w_blocks w). bk_id x = bk_id b then failed unique_violation
        else (case (case bk_amount b of None \<Rightarrow> Some None
                    | Some a \<Rightarrow> map_option Some (N 30 7 a)) of
            None \<Rightarrow> failed numeric_overflow
          | Some a \<Rightarrow> (None, w\<lparr>w_blocks := w_blocks w @
              [b\<lparr>bk_org := null_ptr org, bk_from := null_ptr (bk_from b), bk_to := null_ptr (bk_to b),
                 bk_amount := a\<rparr>]\<rparr>)))"

section \<open>The service\<close>

text \<open>
  What the environment answers to one call of the service: the clock, the fresh id, and what the
  driver, the queue and the dispatcher report. \<open>ce_queue\<close> and \<open>ce_hooks\<close> say whether the service was
  built with a queue and a dispatcher.
\<close>

record compliance_env =
  ce_now :: go_time
  ce_uuid :: string
  ce_get :: "err option"
  ce_decide :: "err option"
  ce_status :: "err option"
  ce_enqueue :: "err option"
  ce_dispatch :: "err option"
  ce_review :: "err option"
  ce_block :: "err option"
  ce_queue :: bool
  ce_hooks :: bool

definition screener_error :: decision where
  "screener_error = zero_decision\<lparr>dc_status := ScreeningHold, dc_rules := [''screener_error''],
     dc_reason := ''screening could not be completed'', dc_score := 50\<rparr>"

definition amount_ptr :: "decimal \<Rightarrow> decimal option" where
  "amount_ptr a = (if a = 0 then None else Some a)"

definition block_record :: "compliance_env \<Rightarrow> screening_request \<Rightarrow> decision \<Rightarrow> block" where
  "block_record E rq d =
     \<lparr>bk_id = ce_uuid E, bk_org = ptr_of (rq_org rq), bk_from = ptr_of (rq_from_wallet rq),
      bk_to = ptr_of (rq_to_wallet rq), bk_address = rq_to_key rq, bk_asset = rq_asset rq,
      bk_amount = amount_ptr (rq_amount rq), bk_rules = dc_rules d, bk_reason = dc_reason d,
      bk_matched = dc_matched d, bk_created = ce_now E\<rparr>"

definition screen_transfer ::
  "numeric_col \<Rightarrow> ctx \<Rightarrow> compliance_env \<Rightarrow> (screening_request \<Rightarrow> err + decision)
    \<Rightarrow> screening_request \<Rightarrow> world \<Rightarrow> decision \<times> world" where
  "screen_transfer N c E screen rq w =
     (let d = (case screen rq of Inl e \<Rightarrow> screener_error | Inr d \<Rightarrow> d) in
      if dc_status d = ScreeningBlocked
      then (case create_block N c (ce_block E) (block_record E rq d) w of
              (Some e, w') \<Rightarrow> (d, w')
            | (None, w') \<Rightarrow> (d\<lparr>dc_block := ce_uuid E\<rparr>, w'))
      else (d, w))"

definition record_hold ::
  "ctx \<Rightarrow> compliance_env \<Rightarrow> transaction \<Rightarrow> decision \<Rightarrow> world \<Rightarrow> err option \<times> world" where
  "record_hold c E t d w =
     (let r = \<lparr>rv_id = ce_uuid E, rv_tx = tx_id t, rv_org = tx_tenant t, rv_status = ReviewPending,
               rv_score = dc_score d, rv_rules = dc_rules d, rv_reason = dc_reason d,
               rv_by = None, rv_notes = '''', rv_at = None, rv_created = ce_now E\<rparr> in
      case create_review c (ce_review E) r w of
        (Some e, w') \<Rightarrow> (Some (Wrap ''create compliance review'' e), w')
      | (None, w') \<Rightarrow>
          (None, dispatch (ce_hooks E) (ce_dispatch E) EventTransferComplianceHold (tx_id t) w'))"

definition service_list_reviews ::
  "ctx \<Rightarrow> err option \<Rightarrow> string \<Rightarrow> int \<Rightarrow> int \<Rightarrow> world \<Rightarrow> err + review list" where
  "service_list_reviews c q status limit offset w =
     (let l = (if limit \<le> 0 \<or> limit > 100 then 20 else limit);
          s = (if offset < 0 then 0 else offset)
      in list_reviews c q status (nat l) (nat s) w)"

text \<open>\<^verbatim>\<open>releaseTransfer\<close>: back to pending first, then on the queue; a failed enqueue is only logged.\<close>

definition release_transfer ::
  "ctx \<Rightarrow> compliance_env \<Rightarrow> review \<Rightarrow> world \<Rightarrow> err option \<times> world" where
  "release_transfer c E r w =
     (case update_status c (ce_status E) (rv_tx r) StatusPending '''' w of
        (Some e, w') \<Rightarrow> (Some (Wrap ''release held transfer'' e), w')
      | (None, w') \<Rightarrow>
          if \<not> ce_queue E then (None, w')
          else (None, snd (enqueue_transfer (ce_enqueue E) (rv_tx r) w')))"

definition decide ::
  "ctx \<Rightarrow> compliance_env \<Rightarrow> review_status \<Rightarrow> string \<Rightarrow> string \<Rightarrow> world \<Rightarrow> (err + review) \<times> world" where
  "decide c E outcome notes i w =
     (case get_review c (ce_get E) i w of
        Inl e \<Rightarrow> (Inl e, w)
      | Inr r \<Rightarrow>
        if rv_status r \<noteq> ReviewPending then (Inl (Dom ErrReviewNotPending), w)
        else
          (case decide_review c (ce_decide E) outcome (ptr_of (cx_user c)) notes (ce_now E) i w of
             (Some e, w1) \<Rightarrow> (Inl e, w1)
           | (None, w1) \<Rightarrow>
             (let r' = r\<lparr>rv_status := outcome, rv_by := ptr_of (cx_user c), rv_notes := notes,
                         rv_at := Some (ce_now E)\<rparr> in
              if outcome = ReviewApproved
              then (case release_transfer c E r' w1 of
                      (Some e, w2) \<Rightarrow> (Inl e, w2)
                    | (None, w2) \<Rightarrow> (Inr r', dispatch (ce_hooks E) (ce_dispatch E)
                        EventTransferComplianceApproved (rv_tx r) w2))
              else (case update_status c (ce_status E) (rv_tx r) StatusFailed '''' w1 of
                      (Some e, w2) \<Rightarrow> (Inl (Wrap ''mark rejected transfer failed'' e), w2)
                    | (None, w2) \<Rightarrow> (Inr r', dispatch (ce_hooks E) (ce_dispatch E)
                        EventTransferComplianceRejected (rv_tx r) w2)))))"

definition approve_review ::
  "ctx \<Rightarrow> compliance_env \<Rightarrow> string \<Rightarrow> string \<Rightarrow> world \<Rightarrow> (err + review) \<times> world" where
  "approve_review c E i notes w = decide c E ReviewApproved notes i w"

definition reject_review ::
  "ctx \<Rightarrow> compliance_env \<Rightarrow> string \<Rightarrow> string \<Rightarrow> world \<Rightarrow> (err + review) \<times> world" where
  "reject_review c E i notes w = decide c E ReviewRejected notes i w"

section \<open>Deciding a review is a one-shot action\<close>

definition wf_reviews :: "world \<Rightarrow> bool" where
  "wf_reviews w \<longleftrightarrow> distinct (map rv_id (w_reviews w)) \<and> distinct (map rv_tx (w_reviews w))"

definition review_available :: "ctx \<Rightarrow> world \<Rightarrow> string \<Rightarrow> bool" where
  "review_available c w i \<longleftrightarrow>
     (\<exists>r. review_of w i = Some r \<and> rv_status r = ReviewPending \<and> in_scope c (rv_org r))"

lemma wf_create_review: "wf_reviews w \<Longrightarrow> wf_reviews (snd (create_review c q r w))"
  by (auto simp: create_review_def wf_reviews_def Let_def split: option.splits)

lemma decide_review_cases:
  assumes "decide_review c q st u n t i w = (r, w')"
  obtains (failed) e where "r = Some e" "w' = w"
  | (hit) "q = None" "r = None"
      "w_reviews w' = update_where
         (\<lambda>r. rv_id r = i \<and> rv_status r = ReviewPending \<and> in_scope c (rv_org r))
         (\<lambda>r. r\<lparr>rv_status := st, rv_by := null_ptr u, rv_notes := n, rv_at := Some t\<rparr>)
         (w_reviews w)"
      "w_txs w' = w_txs w" "w_queue w' = w_queue w"
  using assms by (auto simp: decide_review_def Let_def split: option.splits if_splits)

lemma decide_review_row:
  assumes "decide_review c q st u n t i w = (None, w')"
  shows "review_of w' j = map_option (\<lambda>r. if j = i \<and> rv_status r = ReviewPending
      \<and> in_scope c (rv_org r)
    then r\<lparr>rv_status := st, rv_by := null_ptr u, rv_notes := n, rv_at := Some t\<rparr> else r) (review_of w j)"
  using assms
  by (cases rule: decide_review_cases)
     (auto simp: row_with_update_where dest!: row_with_SomeD intro!: option.map_cong)

lemma wf_decide_review: "wf_reviews w \<Longrightarrow> wf_reviews (snd (decide_review c q st u n t i w))"
proof -
  assume wf: "wf_reviews w"
  obtain r w' where d: "decide_review c q st u n t i w = (r, w')"
    by (cases "decide_review c q st u n t i w")
  then have "wf_reviews w'"
    using wf by (cases rule: decide_review_cases) (simp_all add: wf_reviews_def map_key_update_where)
  with d show ?thesis by simp
qed

lemma decide_review_iff:
  assumes "wf_reviews w"
  shows "fst (decide_review c None st u n t i w) = None \<longleftrightarrow> review_available c w i"
proof -
  have "rows_affected (\<lambda>r. rv_id r = i \<and> rv_status r = ReviewPending \<and> in_scope c (rv_org r))
      (w_reviews w) \<noteq> 0 \<longleftrightarrow> review_available c w i"
    using assms rows_affected_key [of rv_id "w_reviews w" i
        "\<lambda>r. rv_status r = ReviewPending \<and> in_scope c (rv_org r)"]
    by (auto simp: wf_reviews_def review_available_def split: option.splits)
  then show ?thesis by (auto simp: decide_review_def Let_def)
qed

lemma decide_review_one_shot:
  assumes "st \<noteq> ReviewPending"
  shows "one_shot wf_reviews (review_available c) (decide_review c None st u n t)"
proof unfold_locales
  fix w i j w' e
  show "wf_reviews w \<Longrightarrow> wf_reviews (snd (decide_review c None st u n t i w))"
    by (rule wf_decide_review)
  show "wf_reviews w \<Longrightarrow> review_available c w i \<Longrightarrow> fst (decide_review c None st u n t i w) = None"
    by (simp add: decide_review_iff)
  show "wf_reviews w \<Longrightarrow> \<not> review_available c w i \<Longrightarrow> fst (decide_review c None st u n t i w) \<noteq> None"
    by (simp add: decide_review_iff)
  show "decide_review c None st u n t i w = (None, w') \<Longrightarrow> \<not> review_available c w' i"
    using assms by (auto simp: decide_review_row review_available_def)
  show "decide_review c None st u n t i w = (Some e, w') \<Longrightarrow> w' = w"
    by (erule decide_review_cases) auto
  show "decide_review c None st u n t i w = (None, w') \<Longrightarrow> j \<noteq> i
      \<Longrightarrow> review_available c w' j = review_available c w j"
    by (auto simp: decide_review_row review_available_def)
qed

interpretation decisions: contested wf_reviews "review_available c"
    "decide_review c None ReviewApproved u n t" "decide_review c None ReviewRejected u' n' t'"
  for c u n t u' n' t'
  by (intro contested.intro decide_review_one_shot) simp_all

section \<open>What a decision does\<close>

lemma get_review_Inr:
  assumes "get_review c q i w = Inr r" and "wf_reviews w"
  shows "review_of w i = Some r" and "in_scope c (rv_org r)" and "rv_id r = i"
proof -
  from assms(1) have f: "find (\<lambda>r. rv_id r = i \<and> in_scope c (rv_org r)) (w_reviews w) = Some r"
    by (auto simp: get_review_def split: option.splits)
  then have m: "r \<in> set (w_reviews w)" and r: "rv_id r = i" "in_scope c (rv_org r)"
    by (auto simp: find_Some_iff)
  with assms(2) row_with_unique [of rv_id "w_reviews w" r] show "review_of w i = Some r"
    by (simp add: wf_reviews_def)
  from r show "in_scope c (rv_org r)" and "rv_id r = i" by simp_all
qed

lemma dispatch_same [simp]:
  "w_txs (dispatch b q ev i w) = w_txs w" "w_reviews (dispatch b q ev i w) = w_reviews w"
  "w_queue (dispatch b q ev i w) = w_queue w" "w_net (dispatch b q ev i w) = w_net w"
  "w_wallets (dispatch b q ev i w) = w_wallets w" "w_collections (dispatch b q ev i w) = w_collections w"
  by (simp_all add: dispatch_def)

lemma enqueue_same [simp]:
  "w_txs (snd (enqueue_transfer q i w)) = w_txs w"
  "w_reviews (snd (enqueue_transfer q i w)) = w_reviews w"
  "w_net (snd (enqueue_transfer q i w)) = w_net w"
  "w_queue (snd (enqueue_transfer q i w)) = (if q = None then w_queue w @ [i] else w_queue w)"
  by (simp_all add: enqueue_transfer_def split: option.splits)

lemma update_status_same:
  assumes "update_status c q i st h w = (r, w')"
  shows "w_reviews w' = w_reviews w" "w_queue w' = w_queue w" "w_net w' = w_net w"
  using assms by (auto elim!: update_status_cases)

lemma create_review_same:
  assumes "create_review c q r w = (e, w')"
  shows "w_txs w' = w_txs w" "w_queue w' = w_queue w" "w_net w' = w_net w" "w_collections w' = w_collections w"
  using assms by (auto simp: create_review_def Let_def split: option.splits if_splits)

text \<open>The status and the transfer a decided review leaves behind.\<close>

definition decided_status :: "review_status \<Rightarrow> tx_status" where
  "decided_status outcome = (if outcome = ReviewApproved then StatusPending else StatusFailed)"

lemma release_transfer_None:
  assumes "release_transfer c E r w = (None, w')"
  obtains w2 where "update_status c (ce_status E) (rv_tx r) StatusPending '''' w = (None, w2)"
    "w_txs w' = w_txs w2" "w_reviews w' = w_reviews w" "w_net w' = w_net w"
    "w_queue w' = (if ce_queue E \<and> ce_enqueue E = None then w_queue w @ [rv_tx r] else w_queue w)"
  using assms update_status_same [of c "ce_status E" "rv_tx r" StatusPending "''''" w]
  by (auto simp: release_transfer_def split: prod.splits option.splits if_splits)

lemma decide_Inr:
  assumes "decide c E outcome notes i w = (Inr r', w')" and "wf_reviews w"
  obtains r where "review_of w i = Some r" "rv_status r = ReviewPending" "in_scope c (rv_org r)"
    "rv_tx r' = rv_tx r" "rv_status r' = outcome" "rv_id r' = i"
    "\<And>j. tx_of w' j = map_option (\<lambda>t. if j = rv_tx r \<and> tx_status t \<noteq> StatusConfirmed
         \<and> in_scope c (tx_tenant t) then t\<lparr>tx_status := decided_status outcome, tx_hash := ''''\<rparr>
         else t) (tx_of w j)"
    "w_queue w' = (if outcome = ReviewApproved \<and> ce_queue E \<and> ce_enqueue E = None
                   then w_queue w @ [rv_tx r] else w_queue w)"
    "w_net w' = w_net w" "\<exists>x. review_of w' i = Some x \<and> rv_status x = outcome"
proof -
  let ?d = "decide_review c (ce_decide E) outcome (ptr_of (cx_user c)) notes (ce_now E) i w"
  from assms(1) obtain r w1 where g: "get_review c (ce_get E) i w = Inr r"
    and p: "rv_status r = ReviewPending" and d: "?d = (None, w1)"
    and rest: "(if outcome = ReviewApproved
              then (case release_transfer c E r' w1 of (Some e, w2) \<Rightarrow> (Inl e, w2)
                    | (None, w2) \<Rightarrow> (Inr r', dispatch (ce_hooks E) (ce_dispatch E)
                        EventTransferComplianceApproved (rv_tx r) w2))
              else (case update_status c (ce_status E) (rv_tx r) StatusFailed '''' w1 of
                      (Some e, w2) \<Rightarrow> (Inl (Wrap ''mark rejected transfer failed'' e), w2)
                    | (None, w2) \<Rightarrow> (Inr r', dispatch (ce_hooks E) (ce_dispatch E)
                        EventTransferComplianceRejected (rv_tx r) w2))) = (Inr r', w')"
    and r': "r' = r\<lparr>rv_status := outcome, rv_by := ptr_of (cx_user c), rv_notes := notes,
                   rv_at := Some (ce_now E)\<rparr>"
    by (auto simp: decide_def Let_def split: sum.splits if_splits prod.splits option.splits)
  note gr = get_review_Inr [OF g assms(2)]
  have w1: "w_txs w1 = w_txs w" "w_queue w1 = w_queue w" "w_net w1 = w_net w"
    using d by (auto simp: decide_review_def Let_def split: option.splits if_splits)
  obtain w2 where u: "update_status c (ce_status E) (rv_tx r) (decided_status outcome) '''' w1 = (None, w2)"
    and w2: "w_txs w' = w_txs w2" "w_reviews w' = w_reviews w1" "w_net w' = w_net w1"
      "w_queue w' = (if outcome = ReviewApproved \<and> ce_queue E \<and> ce_enqueue E = None
                   then w_queue w1 @ [rv_tx r] else w_queue w1)"
  proof (cases "outcome = ReviewApproved")
    case True
    with rest obtain w3 where "release_transfer c E r' w1 = (None, w3)"
      and "w' = dispatch (ce_hooks E) (ce_dispatch E) EventTransferComplianceApproved (rv_tx r) w3"
      by (auto split: prod.splits option.splits)
    with True r' that show ?thesis
      by (auto simp: decided_status_def elim!: release_transfer_None)
  next
    case False
    with rest obtain w3 where
      "update_status c (ce_status E) (rv_tx r) StatusFailed '''' w1 = (None, w3)"
      and "w' = dispatch (ce_hooks E) (ce_dispatch E) EventTransferComplianceRejected (rv_tx r) w3"
      by (auto split: prod.splits option.splits)
    with False that update_status_same show ?thesis by (simp add: decided_status_def)
  qed
  have "\<exists>x. review_of w' i = Some x \<and> rv_status x = outcome"
    using decide_review_row [OF d, of i] gr p w2 by simp
  then show ?thesis
    using that gr p r' w1 w2 update_status_effect [OF u] by simp
qed

text \<open>Whatever happens to the other calls, a review that left pending is never decided again.\<close>

lemma decide_after_decision:
  assumes "review_of w i = Some r" and "rv_status r \<noteq> ReviewPending" and "wf_reviews w"
    and "ce_get E = None" and "in_scope c (rv_org r)"
  shows "decide c E outcome notes i w = (Inl (Dom ErrReviewNotPending), w)"
proof -
  have r: "r \<in> set (w_reviews w)" "rv_id r = i" using assms(1) row_with_SomeD by fastforce+
  obtain x where x: "find (\<lambda>r. rv_id r = i \<and> in_scope c (rv_org r)) (w_reviews w) = Some x"
    using r assms(5) by (cases "find (\<lambda>r. rv_id r = i \<and> in_scope c (rv_org r)) (w_reviews w)")
      (auto simp: find_None_iff)
  then have "get_review c None i w = Inr x" by (simp add: get_review_def)
  with assms(4) get_review_Inr [OF this assms(3)] assms(1,2) show ?thesis by (simp add: decide_def)
qed

section \<open>Screening a transfer\<close>

lemma screen_transfer_status:
  "dc_status (fst (screen_transfer N c E screen rq w)) =
     (case screen rq of Inl e \<Rightarrow> ScreeningHold | Inr d \<Rightarrow> dc_status d)"
  by (auto simp: screen_transfer_def screener_error_def Let_def split: sum.splits prod.splits option.splits)

lemma create_block_same:
  assumes "create_block N c q b w = (e, w')"
  shows "w_txs w' = w_txs w" "w_queue w' = w_queue w" "w_net w' = w_net w" "w_reviews w' = w_reviews w"
    "w_wallets w' = w_wallets w" "w_tenants w' = w_tenants w" "w_batches w' = w_batches w"
    "w_collections w' = w_collections w" "w_balances w' = w_balances w" "w_fees w' = w_fees w"
  using assms by (auto simp: create_block_def Let_def split: option.splits if_splits)

lemma screen_transfer_same:
  assumes "screen_transfer N c E screen rq w = (d, w')"
  shows "w_txs w' = w_txs w" "w_queue w' = w_queue w" "w_net w' = w_net w" "w_reviews w' = w_reviews w"
    "w_wallets w' = w_wallets w" "w_tenants w' = w_tenants w" "w_batches w' = w_batches w"
    "w_collections w' = w_collections w" "w_balances w' = w_balances w" "w_fees w' = w_fees w"
  using assms create_block_same
  by (auto simp: screen_transfer_def Let_def split: prod.splits option.splits if_splits)

text \<open>A blocked payment leaves a block row whenever the insert goes through.\<close>

lemma screen_transfer_block:
  assumes "screen rq = Inr d" and "dc_status d = ScreeningBlocked"
    and "screen_transfer N c E screen rq w = (d', w')" and "dc_block d' \<noteq> dc_block d"
  shows "dc_block d' = ce_uuid E" and "\<exists>b \<in> set (w_blocks w'). bk_id b = ce_uuid E \<and>
    bk_rules b = dc_rules d \<and> bk_matched b = dc_matched d \<and> bk_address b = rq_to_key rq"
  using assms
  by (auto simp: screen_transfer_def create_block_def block_record_def Let_def
      split: prod.splits option.splits if_splits)

section \<open>Properties\<close>

text \<open>Attempts to decide one review that reach the database one after the other; \<open>True\<close> approves.\<close>

fun decisions_won ::
  "ctx \<Rightarrow> (bool \<times> string option \<times> string \<times> go_time) list \<Rightarrow> string \<Rightarrow> world \<Rightarrow> nat" where
  "decisions_won c [] i w = 0"
| "decisions_won c ((ok, u, n, t) # as) i w =
     (case decide_review c None (if ok then ReviewApproved else ReviewRejected) u n t i w of
        (None, w') \<Rightarrow> Suc (decisions_won c as i w') | (Some e, w') \<Rightarrow> decisions_won c as i w')"

lemma decisions_won_used_up:
  "wf_reviews w \<Longrightarrow> \<not> review_available c w i \<Longrightarrow> decisions_won c as i w = 0"
proof (induction as arbitrary: w)
  case (Cons a as)
  obtain ok u n t where a: "a = (ok, u, n, t)" by (cases a)
  let ?d = "decide_review c None (if ok then ReviewApproved else ReviewRejected) u n t i w"
  have "fst ?d \<noteq> None"
    using decisions.first.act_fails [OF Cons.prems] decisions.other.act_fails [OF Cons.prems] by simp
  then obtain e where "?d = (Some e, snd ?d)" by (cases ?d) auto
  then have "?d = (Some e, w)"
    using decisions.first.act_failure_id decisions.other.act_failure_id by (metis (full_types))
  with Cons a show ?case by simp
qed simp

definition sample_review :: review where
  "sample_review = \<lparr>rv_id = ''r'', rv_tx = ''t'', rv_org = None, rv_status = ReviewPending, rv_score = 60,
     rv_rules = [''velocity_burst''], rv_reason = '''', rv_by = None, rv_notes = '''', rv_at = None,
     rv_created = 0\<rparr>"

definition sample_held :: world where
  "sample_held = (sample_world StatusComplianceHold)\<lparr>w_reviews := [sample_review]\<rparr>"

definition sample_compliance_env :: compliance_env where
  "sample_compliance_env = \<lparr>ce_now = 9, ce_uuid = ''u'', ce_get = None, ce_decide = None, ce_status = None,
     ce_enqueue = None, ce_dispatch = None, ce_review = None, ce_block = None, ce_queue = True,
     ce_hooks = True\<rparr>"

lemma sample_held_wf: "wf_reviews sample_held" "wf_txs sample_held"
  using sample_world_wf [of StatusComplianceHold]
  by (simp_all add: sample_held_def wf_reviews_def wf_txs_def)

lemma sample_held_review:
  "review_of sample_held ''r'' = Some sample_review" "rv_status sample_review = ReviewPending"
  "rv_tx sample_review = ''t''" "rv_org sample_review = None"
  by (simp_all add: sample_held_def sample_review_def)

lemma sample_held_tx: "tx_of sample_held ''t'' = Some (sample_tx ''t'' StatusComplianceHold)"
  using sample_world_tx [of StatusComplianceHold] by (simp add: sample_held_def)

lemma in_scope_no_tenant [simp]: "in_scope no_tenant x"
  by (simp add: in_scope_def no_tenant_def)

lemma sample_held_available: "review_available no_tenant sample_held ''r''"
  by (simp add: review_available_def sample_held_review)

text \<open>
  A decision that is reported as made had a pending review, decides exactly that review, and
  moves exactly its transfer: to pending and onto the settlement queue if it was approved, to failed
  and not onto the queue if it was rejected.
\<close>

theorem decision_effect:
  assumes "decide c E outcome notes i w = (Inr r', w')" and "wf_reviews w"
  shows "\<exists>r x. review_of w i = Some r \<and> rv_status r = ReviewPending \<and> review_of w' i = Some x \<and>
    rv_status x = outcome \<and>
    tx_of w' j = map_option (\<lambda>t. if j = rv_tx r \<and> tx_status t \<noteq> StatusConfirmed \<and> in_scope c (tx_tenant t)
      then t\<lparr>tx_status := decided_status outcome, tx_hash := ''''\<rparr> else t) (tx_of w j) \<and>
    w_queue w' = w_queue w @ (if outcome = ReviewApproved \<and> ce_queue E \<and> ce_enqueue E = None
      then [rv_tx r] else [])"
proof (rule decide_Inr [OF assms], goal_cases)
  case (1 r)
  from 1(10) obtain x where "review_of w' i = Some x" "rv_status x = outcome" by blast
  with 1(1,2,8) show ?case
    by (intro exI [of _ r] exI [of _ x]) (simp add: 1(7) del: row_with_Cons)
qed

lemma decision_effect_witness:
  "map_option tx_status (tx_of (snd (approve_review no_tenant sample_compliance_env ''r'' '''' sample_held)) ''t'')
     = Some StatusPending"
proof -
  let ?d = "decide no_tenant sample_compliance_env ReviewApproved '''' ''r'' sample_held"
  obtain r' where "?d = (Inr r', snd ?d)"
    by (simp add: decide_def get_review_def decide_review_def release_transfer_def update_status_def
        sample_held_def sample_review_def sample_compliance_env_def in_scope_def rows_affected_def
        hash_taken_def sample_defs Let_def)
  from decision_effect [OF this sample_held_wf(1), of "''t''"] show ?thesis
    by (auto simp: sample_held_review sample_held_tx approve_review_def decided_status_def sample_tx_def)
qed

text \<open>
  C8: however many approvals and rejections of one review race to the database, exactly one of them
  takes effect if the review was open to the caller, and none otherwise.
\<close>

theorem decisions_race:
  assumes "wf_reviews w"
  shows "decisions_won c (a # as) i w = (if review_available c w i then 1 else 0)"
proof (cases "review_available c w i")
  case True
  obtain ok u n t where a: "a = (ok, u, n, t)" by (cases a)
  let ?d = "decide_review c None (if ok then ReviewApproved else ReviewRejected) u n t i w"
  have "fst ?d = None"
    using decisions.first.act_succeeds [OF assms True] decisions.other.act_succeeds [OF assms True] by simp
  then obtain w' where d: "?d = (None, w')" by (cases ?d) auto
  have "\<not> review_available c w' i"
    using decisions.first.act_uses_up [OF assms] decisions.other.act_uses_up [OF assms] d
    by (cases ok) fastforce+
  moreover have "wf_reviews w'" using wf_decide_review [OF assms] d by (metis snd_conv)
  ultimately show ?thesis using True d a decisions_won_used_up by simp
next
  case False
  with assms show ?thesis by (simp add: decisions_won_used_up)
qed

lemma decisions_race_witness:
  "decisions_won no_tenant [(True, None, '''', 1), (False, None, '''', 2), (True, None, '''', 3)] ''r''
     sample_held = 1"
  using decisions_race [OF sample_held_wf(1), of no_tenant _ _ "''r''"] sample_held_available
  by (simp del: decisions_won.simps)

text \<open>
  The decision and the change of the transfer are two writes. If the second one fails, the
  caller gets an error, the review is decided all the same, the transfer stays as it was, and no
  later decision of the review is possible: the transfer is stranded.
\<close>

theorem failed_release_strands_transfer:
  assumes "review_available c w i" and "wf_reviews w" and "outcome \<noteq> ReviewPending"
    and "ce_get E = None" and "ce_decide E = None" and "ce_status E = Some e" and "ce_get E' = None"
  shows "\<exists>f w'. decide c E outcome notes i w = (Inl f, w') \<and> w_txs w' = w_txs w \<and> w_queue w' = w_queue w \<and>
    decide c E' outcome' notes' i w' = (Inl (Dom ErrReviewNotPending), w')"
proof -
  from assms(1) obtain r where r: "review_of w i = Some r" "rv_status r = ReviewPending"
    "in_scope c (rv_org r)" by (auto simp: review_available_def)
  have rm: "r \<in> set (w_reviews w)" "rv_id r = i" using r(1) row_with_SomeD by fastforce+
  then have "find (\<lambda>r. rv_id r = i \<and> in_scope c (rv_org r)) (w_reviews w) \<noteq> None"
    using r(3) by (auto simp: find_None_iff)
  then obtain x where "get_review c None i w = Inr x" by (auto simp: get_review_def)
  with get_review_Inr [OF this assms(2)] r(1) have g: "get_review c None i w = Inr r" by simp
  let ?d = "decide_review c None outcome (ptr_of (cx_user c)) notes (ce_now E) i w"
  have "fst ?d = None" using assms(1) by (simp add: decide_review_iff [OF assms(2)])
  then obtain w1 where d: "?d = (None, w1)" by (cases ?d) auto
  then have same: "w_txs w1 = w_txs w" "w_queue w1 = w_queue w"
    by (auto simp: decide_review_def Let_def split: if_splits)
  have "update_status c (Some e) (rv_tx r) st '''' w1 = (Some (Wrap ''update status'' e), w1)
      \<or> (\<exists>f. update_status c (Some e) (rv_tx r) st '''' w1 = (Some f, w1))" for st
    by (simp add: update_status_def)
  then have "\<exists>f. decide c E outcome notes i w = (Inl f, w1)"
    using assms(4-6) g d r(2)
    by (auto simp: decide_def release_transfer_def update_status_def Let_def)
  moreover have "decide c E' outcome' notes' i w1 = (Inl (Dom ErrReviewNotPending), w1)"
  proof -
    have "review_of w1 i = Some (r\<lparr>rv_status := outcome, rv_by := null_ptr (ptr_of (cx_user c)),
        rv_notes := notes, rv_at := Some (ce_now E)\<rparr>)"
      using decide_review_row [OF d, of i] r by simp
    moreover have "wf_reviews w1" using wf_decide_review [OF assms(2)] d by (metis snd_conv)
    ultimately show ?thesis using assms(3,7) r(3) by (simp add: decide_after_decision)
  qed
  ultimately show ?thesis using same by blast
qed

lemma failed_release_strands_transfer_witness:
  "\<exists>f w'. reject_review no_tenant (sample_compliance_env\<lparr>ce_status := Some (Opaque ''down'')\<rparr>) ''r'' ''no'' sample_held
     = (Inl f, w') \<and> w_txs w' = w_txs sample_held \<and>
     approve_review no_tenant sample_compliance_env ''r'' ''yes'' w' = (Inl (Dom ErrReviewNotPending), w')"
  using failed_release_strands_transfer [OF sample_held_available sample_held_wf(1),
      of ReviewRejected "sample_compliance_env\<lparr>ce_status := Some (Opaque ''down'')\<rparr>" "Opaque ''down''"
         sample_compliance_env "''no''" ReviewApproved "''yes''"]
  by (auto simp: approve_review_def reject_review_def sample_compliance_env_def)

end
