(* ===== verification/Fees.thy ===== *)
theory Fees
  imports Samples
begin

text \<open>
  \<^verbatim>\<open>internal/fees\<close> and its repository: the fee of a gross amount (\<open>calculate\<close>), the clamping to the
  schedule's limits (\<open>apply_bounds\<close>), the choice of the schedule (tenant first, then platform, then
  the platform's default asset), and the summary of collected fees. A calculation conserves the
  amount, and after clamping the fee never exceeds it.
\<close>

definition calculate :: "decimal_pkg \<Rightarrow> decimal \<Rightarrow> int \<Rightarrow> decimal \<times> decimal" where
  "calculate D amount bps =
     (if bps \<le> 0 \<or> amount \<le> 0 then (0, amount)
      else let fee = d_round D (d_div D (amount * of_int bps) 10000) 7 in (fee, amount - fee))"

definition apply_bounds ::
  "decimal \<Rightarrow> decimal \<Rightarrow> decimal \<Rightarrow> decimal option \<Rightarrow> decimal \<times> decimal" where
  "apply_bounds amount fee min_fee max_fee =
     (let b1 = (if fee < min_fee then min_fee else fee);
          b2 = (case max_fee of Some m \<Rightarrow> if b1 > m then m else b1 | None \<Rightarrow> b1);
          b3 = (if b2 > amount then amount else b2)
      in (b3, amount - b3))"

record transfer_fee =
  tf_amount :: decimal
  tf_net :: decimal
  tf_bps :: int

section \<open>The schedule\<close>

definition schedule_for_tenant ::
  "err option \<Rightarrow> string option \<Rightarrow> string \<Rightarrow> world \<Rightarrow> err + fee_schedule" where
  "schedule_for_tenant q tenant asset w =
     (case q of Some e \<Rightarrow> Inl (Wrap ''get fee schedule'' e)
      | None \<Rightarrow> (case find (\<lambda>s. fs_asset s = asset \<and> fs_tenant s = tenant) (w_fees w) of
                  None \<Rightarrow> Inl (Dom ErrFeeScheduleNotFound)
                | Some s \<Rightarrow> Inr s))"

text \<open>\<open>q k\<close> is the driver's report for the \<open>k\<close>-th query the lookup makes.\<close>

definition get_schedule ::
  "(nat \<Rightarrow> err option) \<Rightarrow> string option \<Rightarrow> string \<Rightarrow> world \<Rightarrow> err + fee_schedule" where
  "get_schedule q tenant asset w =
     (let platform =
        (case schedule_for_tenant (q 1) None asset w of
           Inr s \<Rightarrow> Inr s
         | Inl e \<Rightarrow> if \<not> err_is e (Dom ErrFeeScheduleNotFound) \<or> asset = ''*'' then Inl e
                    else schedule_for_tenant (q 2) None ''*'' w) in
      case tenant of None \<Rightarrow> platform
      | Some t \<Rightarrow> (case schedule_for_tenant (q 0) (Some t) asset w of
          Inr s \<Rightarrow> Inr s
        | Inl e \<Rightarrow> if \<not> err_is e (Dom ErrFeeScheduleNotFound) then Inl e else platform))"

definition calculate_fee ::
  "decimal_pkg \<Rightarrow> (nat \<Rightarrow> err option) \<Rightarrow> string \<Rightarrow> string \<Rightarrow> decimal \<Rightarrow> bool \<Rightarrow> world
    \<Rightarrow> err + transfer_fee" where
  "calculate_fee D q tenant asset amount is_transfer w =
     (case get_schedule q (ptr_of tenant) asset w of
        Inl e \<Rightarrow> Inl e
      | Inr s \<Rightarrow>
         (let bps = (if is_transfer then fs_transfer_bps s else fs_conversion_bps s);
              fee0 = fst (calculate D amount bps);
              (fee, net) = apply_bounds amount fee0 (fs_min s) (fs_max s)
          in Inr \<lparr>tf_amount = fee, tf_net = net, tf_bps = bps\<rparr>))"

definition calculate_transfer_fee where
  "calculate_transfer_fee D q tenant asset amount w = calculate_fee D q tenant asset amount True w"

definition calculate_conversion_fee where
  "calculate_conversion_fee D q tenant asset amount w =
     calculate_fee D q tenant asset amount False w"

section \<open>Collected fees\<close>

definition record_collection ::
  "numeric_col \<Rightarrow> err option \<Rightarrow> fee_collection \<Rightarrow> world \<Rightarrow> err option \<times> world" where
  "record_collection N q c w =
     (case q of Some e \<Rightarrow> (Some (Wrap ''insert fee collection'' e), w)
      | None \<Rightarrow> (case N 20 7 (fc_amount c) of
          None \<Rightarrow> (Some (Wrap ''insert fee collection'' numeric_overflow), w)
        | Some a \<Rightarrow>
          if (\<exists>r \<in> set (w_collections w). fc_id r = fc_id c)
          then (Some (Wrap ''insert fee collection'' unique_violation), w)
          else if \<not> (\<exists>r \<in> set (w_txs w). tx_id r = fc_tx c)
          then (Some (Wrap ''insert fee collection'' foreign_key_violation), w)
          else (None, w\<lparr>w_collections := w_collections w @
                 [c\<lparr>fc_amount := a, fc_tenant := null_ptr (fc_tenant c)\<rparr>]\<rparr>)))"

definition list_collected ::
  "go_time option \<Rightarrow> go_time option \<Rightarrow> world \<Rightarrow> fee_collection list" where
  "list_collected from_t to_t w =
     filter (\<lambda>c. (case from_t of None \<Rightarrow> True | Some a \<Rightarrow> a \<le> fc_at c) \<and>
                 (case to_t of None \<Rightarrow> True | Some b \<Rightarrow> fc_at c \<le> b)) (w_collections w)"

text \<open>
  \<^verbatim>\<open>ListCollectedSummary\<close> keeps a map from assets to totals and, per asset, a map from tenant keys
  (the empty string for the platform) to totals. The maps are association lists here, in order of
  first insertion; Go's iteration order is unspecified, so nothing below depends on it.
\<close>

fun bump_total :: "'k \<Rightarrow> decimal \<Rightarrow> ('k \<times> decimal) list \<Rightarrow> ('k \<times> decimal) list" where
  "bump_total k x [] = [(k, x)]"
| "bump_total k x ((j, y) # m) = (if j = k then (j, y + x) # m else (j, y) # bump_total k x m)"

record asset_summary =
  as_total :: decimal
  as_tenants :: "(string \<times> decimal) list"

definition tenant_key :: "fee_collection \<Rightarrow> string" where
  "tenant_key c = (case fc_tenant c of None \<Rightarrow> '''' | Some t \<Rightarrow> t)"

fun add_collection ::
  "fee_collection \<Rightarrow> (string \<times> asset_summary) list \<Rightarrow> (string \<times> asset_summary) list" where
  "add_collection c [] =
     [(fc_asset c, \<lparr>as_total = fc_amount c, as_tenants = [(tenant_key c, fc_amount c)]\<rparr>)]"
| "add_collection c ((a, s) # m) =
     (if a = fc_asset c
      then (a, \<lparr>as_total = as_total s + fc_amount c,
                as_tenants = bump_total (tenant_key c) (fc_amount c) (as_tenants s)\<rparr>) # m
      else (a, s) # add_collection c m)"

definition collected_summary :: "fee_collection list \<Rightarrow> (string \<times> asset_summary) list" where
  "collected_summary cs = fold add_collection cs []"

section \<open>Facts about the calculation\<close>

lemma calculate_sum: "fst (calculate D a b) + snd (calculate D a b) = a"
  by (simp add: calculate_def Let_def)

lemma apply_bounds_sum: "fst (apply_bounds a f mn mx) + snd (apply_bounds a f mn mx) = a"
  by (simp add: apply_bounds_def Let_def)

lemma apply_bounds_le_amount: "fst (apply_bounds a f mn mx) \<le> a"
  by (simp add: apply_bounds_def Let_def)

lemma apply_bounds_net_nonneg: "0 \<le> snd (apply_bounds a f mn mx)"
  by (simp add: apply_bounds_def Let_def)

lemma apply_bounds_min:
  assumes "mn \<le> a" and "\<And>m. mx = Some m \<Longrightarrow> mn \<le> m"
  shows "mn \<le> fst (apply_bounds a f mn mx)"
  using assms by (auto simp: apply_bounds_def Let_def split: option.splits)

lemma apply_bounds_max: "mx = Some m \<Longrightarrow> fst (apply_bounds a f mn mx) \<le> m"
  by (auto simp: apply_bounds_def Let_def)

lemma apply_bounds_inside:
  assumes "mn \<le> f" and "f \<le> a" and "\<And>m. mx = Some m \<Longrightarrow> f \<le> m"
  shows "apply_bounds a f mn mx = (f, a - f)"
  using assms by (auto simp: apply_bounds_def Let_def split: option.splits)

lemma apply_bounds_idem:
  "apply_bounds a (fst (apply_bounds a f mn mx)) mn mx = apply_bounds a f mn mx"
  by (auto simp: apply_bounds_def Let_def split: option.splits)

lemma calculate_fee_Inr:
  assumes "calculate_fee D q t s a k w = Inr r"
  shows "tf_amount r + tf_net r = a \<and> tf_amount r \<le> a \<and> 0 \<le> tf_net r"
proof -
  from assms obtain f mn mx where "apply_bounds a f mn mx = (tf_amount r, tf_net r)"
    by (auto simp: calculate_fee_def Let_def split: sum.splits prod.splits)
  then show ?thesis
    using apply_bounds_sum [of a f mn mx] apply_bounds_le_amount [of a f mn mx]
      apply_bounds_net_nonneg [of a f mn mx]
    by (metis fst_conv snd_conv)
qed

lemma calculate_fee_nonneg:
  assumes "calculate_fee D q t s a k w = Inr r" and "decimal_doc D" and "0 \<le> a"
    and "\<forall>f \<in> set (w_fees w). 0 \<le> fs_min f \<and> (\<forall>m. fs_max f = Some m \<longrightarrow> 0 \<le> m)"
  shows "0 \<le> tf_amount r"
proof -
  from assms(1) obtain sch where sch: "get_schedule q (ptr_of t) s w = Inr sch"
    and r: "tf_amount r = fst (apply_bounds a (fst (calculate D a
      (if k then fs_transfer_bps sch else fs_conversion_bps sch))) (fs_min sch) (fs_max sch))"
    by (auto simp: calculate_fee_def Let_def split: sum.splits prod.splits)
  from sch have "sch \<in> set (w_fees w)"
    by (auto simp: get_schedule_def schedule_for_tenant_def Let_def find_Some_iff
        split: sum.splits option.splits if_splits)
  with assms(4) have "0 \<le> fs_min sch" and "\<And>m. fs_max sch = Some m \<Longrightarrow> 0 \<le> m" by auto
  with assms(3) show ?thesis
    unfolding r by (auto simp: apply_bounds_def Let_def split: option.splits)
qed

text \<open>Before clamping, the fee is the exact share up to one unit of the seventh place.\<close>

lemma calculate_accuracy:
  assumes "decimal_doc D" and "0 < b" and "0 < a"
  shows "\<bar>fst (calculate D a b) - a * of_int b / 10000\<bar> \<le> 1 / 10 ^ 7"
proof -
  let ?q = "d_div D (a * of_int b) 10000"
  have "\<bar>?q - a * of_int b / 10000\<bar> \<le> 1 / (2 * 10 ^ 16)"
    by (rule decimal_docD [OF assms(1)]) simp
  moreover have "\<bar>d_round D ?q 7 - ?q\<bar> \<le> 1 / (2 * 10 ^ 7)"
    by (rule decimal_docD [OF assms(1)])
  ultimately have "\<bar>d_round D ?q 7 - a * of_int b / 10000\<bar> \<le> 1 / (2 * 10 ^ 7) + 1 / (2 * 10 ^ 16)"
    by linarith
  also have "\<dots> \<le> 1 / 10 ^ 7" by simp
  finally show ?thesis using assms(2,3) by (simp add: calculate_def Let_def)
qed

section \<open>Facts about the summary\<close>

definition asset_amounts :: "string \<Rightarrow> fee_collection list \<Rightarrow> decimal" where
  "asset_amounts a cs = sum_list (map fc_amount (filter (\<lambda>c. fc_asset c = a) cs))"

definition summary_total :: "string \<Rightarrow> (string \<times> asset_summary) list \<Rightarrow> decimal" where
  "summary_total a m = (case map_of m a of None \<Rightarrow> 0 | Some s \<Rightarrow> as_total s)"

definition balanced :: "(string \<times> asset_summary) list \<Rightarrow> bool" where
  "balanced m \<longleftrightarrow> (\<forall>(a, s) \<in> set m. sum_list (map snd (as_tenants s)) = as_total s)"

lemma bump_total_sum: "sum_list (map snd (bump_total k x m)) = sum_list (map snd m) + x"
  by (induction k x m rule: bump_total.induct) auto

lemma add_collection_total:
  "summary_total a (add_collection c m) = summary_total a m + (if fc_asset c = a then fc_amount c else 0)"
  by (induction c m rule: add_collection.induct) (auto simp: summary_total_def)

lemma add_collection_balanced: "balanced m \<Longrightarrow> balanced (add_collection c m)"
  by (induction c m rule: add_collection.induct) (auto simp: balanced_def bump_total_sum)

lemma collected_summary_total: "summary_total a (collected_summary cs) = asset_amounts a cs"
proof -
  have "summary_total a (fold add_collection cs m) = summary_total a m + asset_amounts a cs" for m
    by (induction cs arbitrary: m) (auto simp: add_collection_total asset_amounts_def)
  then show ?thesis by (simp add: collected_summary_def summary_total_def)
qed

lemma collected_summary_balanced: "balanced (collected_summary cs)"
proof -
  have "balanced m \<Longrightarrow> balanced (fold add_collection cs m)" for m
    by (induction cs arbitrary: m) (auto simp: add_collection_balanced)
  moreover have "balanced []" by (simp add: balanced_def)
  ultimately show ?thesis unfolding collected_summary_def by blast
qed

text \<open>The cell of one asset and one tenant key.\<close>

definition summary_cell :: "string \<Rightarrow> string \<Rightarrow> (string \<times> asset_summary) list \<Rightarrow> decimal" where
  "summary_cell a k m =
     (case map_of m a of None \<Rightarrow> 0 | Some s \<Rightarrow> the_default 0 (map_of (as_tenants s) k))"

definition tenant_amounts :: "string \<Rightarrow> string \<Rightarrow> fee_collection list \<Rightarrow> decimal" where
  "tenant_amounts a k cs =
     sum_list (map fc_amount (filter (\<lambda>c. fc_asset c = a \<and> tenant_key c = k) cs))"

lemma bump_total_lookup:
  "the_default 0 (map_of (bump_total k x m) j) = the_default 0 (map_of m j) + (if j = k then x else 0)"
  by (induction k x m rule: bump_total.induct) auto

lemma add_collection_cell:
  "summary_cell a k (add_collection c m) = summary_cell a k m
     + (if fc_asset c = a \<and> tenant_key c = k then fc_amount c else 0)"
  by (induction c m rule: add_collection.induct) (auto simp: summary_cell_def bump_total_lookup)

lemma collected_summary_cell: "summary_cell a k (collected_summary cs) = tenant_amounts a k cs"
proof -
  have "summary_cell a k (fold add_collection cs m) = summary_cell a k m + tenant_amounts a k cs" for m
    by (induction cs arbitrary: m) (auto simp: add_collection_cell tenant_amounts_def)
  then show ?thesis by (simp add: collected_summary_def summary_cell_def)
qed

lemma add_collection_keys:
  "map fst (add_collection c m) = map fst m @ (if fc_asset c \<in> set (map fst m) then [] else [fc_asset c])"
  by (induction c m rule: add_collection.induct) auto

lemma collected_summary_keys: "distinct (map fst (collected_summary cs))"
proof -
  have "distinct (map fst m) \<Longrightarrow> distinct (map fst (fold add_collection cs m))" for m
    by (induction cs arbitrary: m) (simp_all add: add_collection_keys)
  then show ?thesis by (simp add: collected_summary_def)
qed

section \<open>Facts about the schedule\<close>

text \<open>The rows a lookup may use, in the order of preference.\<close>

definition schedule_candidates :: "string option \<Rightarrow> string \<Rightarrow> world \<Rightarrow> fee_schedule list" where
  "schedule_candidates tenant asset w =
     (case tenant of None \<Rightarrow> []
      | Some t \<Rightarrow> filter (\<lambda>s. fs_asset s = asset \<and> fs_tenant s = Some t) (w_fees w)) @
     filter (\<lambda>s. fs_asset s = asset \<and> fs_tenant s = None) (w_fees w) @
     filter (\<lambda>s. fs_asset s = ''*'' \<and> fs_tenant s = None) (w_fees w)"

lemma find_filter: "find P xs = (case filter P xs of [] \<Rightarrow> None | x # _ \<Rightarrow> Some x)"
  by (induction xs) auto

lemma calculate_fee_schedule:
  assumes "calculate_fee D q t s a k w = Inr r"
  obtains sch where "get_schedule q (ptr_of t) s w = Inr sch"
    and "tf_bps r = (if k then fs_transfer_bps sch else fs_conversion_bps sch)"
    and "tf_amount r = fst (apply_bounds a (fst (calculate D a (tf_bps r))) (fs_min sch) (fs_max sch))"
  using assms by (auto simp: calculate_fee_def Let_def split: sum.splits prod.splits)

lemma apply_bounds_lipschitz:
  "\<bar>f - g\<bar> \<le> e \<Longrightarrow> \<bar>fst (apply_bounds a f mn mx) - fst (apply_bounds a g mn mx)\<bar> \<le> e"
  by (auto simp: apply_bounds_def Let_def split: option.splits)

section \<open>Properties\<close>

text \<open>
  What is due under a schedule, over the exact rationals: the share in hundredths of a percent, at
  least the minimum, at most the maximum, and never more than the amount. It refers to none of the
  routines above.
\<close>

definition fee_due :: "fee_schedule \<Rightarrow> decimal \<Rightarrow> decimal" where
  "fee_due s a =
     min a ((case fs_max s of None \<Rightarrow> id | Some m \<Rightarrow> min m)
       (max (fs_min s) (a * of_int (max 0 (fs_transfer_bps s)) / 10000)))"

lemma apply_bounds_clamp:
  "fst (apply_bounds a f mn mx) = min a ((case mx of None \<Rightarrow> id | Some m \<Rightarrow> min m) (max mn f))"
  by (auto simp: apply_bounds_def Let_def min_def max_def split: option.splits)

lemma calculate_share:
  assumes "decimal_doc D" and "0 \<le> a"
  shows "\<bar>fst (calculate D a b) - a * of_int (max 0 b) / 10000\<bar> \<le> 1 / 10 ^ 7"
proof (cases "b \<le> 0 \<or> a = 0")
  case False
  with assms(2) have "0 < b" "0 < a" by auto
  with calculate_accuracy [OF assms(1) this] show ?thesis by (simp add: max_def)
qed (use assms(2) in \<open>auto simp: calculate_def max_def\<close>)

lemma fee_due_close:
  assumes "decimal_doc D" and "0 \<le> a"
  shows "\<bar>fst (apply_bounds a (fst (calculate D a (fs_transfer_bps s))) (fs_min s) (fs_max s)) - fee_due s a\<bar> \<le> 1 / 10 ^ 7"
  using apply_bounds_lipschitz [OF calculate_share [OF assms], where mn = "fs_min s" and mx = "fs_max s"]
  unfolding fee_due_def apply_bounds_clamp .

text \<open>
  C12: a fee that is returned splits the amount without a remainder and neither part is negative. It is,
  up to one unit of the seventh place, the share of the amount at the rate of the chosen schedule, clamped
  to the limits of the schedule and to the amount; the limits themselves are kept exactly.
\<close>

theorem transfer_fee_split:
  assumes "calculate_transfer_fee D q t s a w = Inr r" and "decimal_doc D" and "0 \<le> a"
    and "list_all (\<lambda>f. 0 \<le> fs_min f \<and> pred_option ((\<le>) 0) (fs_max f)) (w_fees w)"
  shows "tf_amount r + tf_net r = a \<and> 0 \<le> tf_amount r \<and> 0 \<le> tf_net r \<and>
    (\<exists>sch. get_schedule q (ptr_of t) s w = Inr sch \<and> tf_bps r = fs_transfer_bps sch \<and>
       \<bar>tf_amount r - fee_due sch a\<bar> \<le> 1 / 10 ^ 7 \<and>
       pred_option ((\<le>) (tf_amount r)) (fs_max sch) \<and>
       (fs_min sch \<le> a \<and> pred_option ((\<le>) (fs_min sch)) (fs_max sch) \<longrightarrow> fs_min sch \<le> tf_amount r))"
proof -
  from assms(1) have fee: "calculate_fee D q t s a True w = Inr r"
    by (simp add: calculate_transfer_fee_def)
  from assms(4) have ok: "\<forall>f \<in> set (w_fees w). 0 \<le> fs_min f \<and> (\<forall>m. fs_max f = Some m \<longrightarrow> 0 \<le> m)"
    by (auto simp: list_all_iff)
  from calculate_fee_schedule [OF fee] obtain sch where sch: "get_schedule q (ptr_of t) s w = Inr sch"
    "tf_bps r = fs_transfer_bps sch"
    and r: "tf_amount r = fst (apply_bounds a (fst (calculate D a (tf_bps r))) (fs_min sch) (fs_max sch))"
    by auto
  have "pred_option ((\<le>) (tf_amount r)) (fs_max sch)"
    unfolding r by (cases "fs_max sch") (auto intro: apply_bounds_max)
  moreover have "fs_min sch \<le> a \<and> pred_option ((\<le>) (fs_min sch)) (fs_max sch) \<longrightarrow> fs_min sch \<le> tf_amount r"
    unfolding r by (auto intro!: apply_bounds_min)
  moreover have "\<bar>tf_amount r - fee_due sch a\<bar> \<le> 1 / 10 ^ 7"
    unfolding r sch(2) by (rule fee_due_close [OF assms(2,3)])
  ultimately show ?thesis
    using calculate_fee_Inr [OF fee] calculate_fee_nonneg [OF fee assms(2,3) ok] sch by blast
qed

definition sample_fees :: world where
  "sample_fees = empty_world\<lparr>w_fees :=
     [\<lparr>fs_tenant = None, fs_transfer_bps = 50, fs_conversion_bps = 100, fs_min = 1, fs_max = Some 20,
       fs_asset = ''*''\<rparr>]\<rparr>"

lemma sample_schedule:
  "get_schedule (\<lambda>_. None) None ''XLM'' sample_fees = Inr (hd (w_fees sample_fees))"
  by (simp add: get_schedule_def schedule_for_tenant_def sample_fees_def empty_world_def)

lemma sample_fee_row: "fs_transfer_bps (hd (w_fees sample_fees)) = 50"
  "fs_min (hd (w_fees sample_fees)) = 1" "fs_max (hd (w_fees sample_fees)) = Some 20"
  by (simp_all add: sample_fees_def empty_world_def)

lemma transfer_fee_split_witness:
  "\<exists>r. calculate_transfer_fee reference_pkg (\<lambda>_. None) '''' ''XLM'' 1000 sample_fees = Inr r \<and>
     tf_amount r + tf_net r = 1000 \<and> \<bar>tf_amount r - 5\<bar> \<le> 1 / 10 ^ 7"
proof -
  obtain r where r: "calculate_transfer_fee reference_pkg (\<lambda>_. None) '''' ''XLM'' 1000 sample_fees = Inr r"
    by (cases "calculate_transfer_fee reference_pkg (\<lambda>_. None) '''' ''XLM'' 1000 sample_fees")
       (simp_all add: calculate_transfer_fee_def calculate_fee_def sample_schedule Let_def split: prod.splits)
  have due: "fee_due (hd (w_fees sample_fees)) 1000 = 5"
    by (simp add: fee_due_def sample_fee_row)
  have "list_all (\<lambda>f. 0 \<le> fs_min f \<and> pred_option ((\<le>) 0) (fs_max f)) (w_fees sample_fees)"
    by (simp add: sample_fees_def empty_world_def)
  from transfer_fee_split [OF r decimal_doc_reference _ this] r show ?thesis
    by (auto simp: sample_schedule due)
qed

text \<open>
  The fee is the exact share of the schedule, clamped to the schedule's limits and the amount, up
  to one unit of the seventh place: rounding costs no more than that, also next to a limit.
\<close>

theorem transfer_fee_accuracy:
  assumes "calculate_transfer_fee D q t s a w = Inr r" and "decimal_doc D" and "0 \<le> a" and "0 \<le> tf_bps r"
  shows "\<exists>sch. get_schedule q (ptr_of t) s w = Inr sch \<and>
    \<bar>tf_amount r - fst (apply_bounds a (a * of_int (fs_transfer_bps sch) / 10000) (fs_min sch) (fs_max sch))\<bar>
      \<le> 1 / 10 ^ 7"
proof -
  from assms(1) have "calculate_fee D q t s a True w = Inr r"
    by (simp add: calculate_transfer_fee_def)
  from calculate_fee_schedule [OF this] obtain sch where sch: "get_schedule q (ptr_of t) s w = Inr sch"
    and bps: "tf_bps r = fs_transfer_bps sch"
    and r: "tf_amount r = fst (apply_bounds a (fst (calculate D a (tf_bps r))) (fs_min sch) (fs_max sch))"
    by auto
  have "\<bar>fst (calculate D a (tf_bps r)) - a * of_int (tf_bps r) / 10000\<bar> \<le> 1 / 10 ^ 7"
  proof (cases "tf_bps r = 0 \<or> a = 0")
    case False
    with assms(3,4) show ?thesis by (intro calculate_accuracy [OF assms(2)]) auto
  qed (auto simp: calculate_def)
  from apply_bounds_lipschitz [OF this] sch bps r show ?thesis by metis
qed

lemma transfer_fee_accuracy_witness:
  "\<exists>r. calculate_transfer_fee reference_pkg (\<lambda>_. None) '''' ''XLM'' 1000 sample_fees = Inr r \<and>
     \<bar>tf_amount r - 5\<bar> \<le> 1 / 10 ^ 7"
proof -
  obtain r where r: "calculate_transfer_fee reference_pkg (\<lambda>_. None) '''' ''XLM'' 1000 sample_fees = Inr r"
    and "0 \<le> tf_bps r"
    by (cases "calculate_transfer_fee reference_pkg (\<lambda>_. None) '''' ''XLM'' 1000 sample_fees")
       (auto simp: calculate_transfer_fee_def calculate_fee_def sample_schedule sample_fee_row Let_def
         split: prod.splits)
  from this(1) transfer_fee_accuracy [OF r decimal_doc_reference _ this(2)] show ?thesis
    by (simp add: sample_schedule sample_fee_row apply_bounds_def)
qed

text \<open>
  The summary of collected fees has one entry per asset; its total is the sum of the asset's
  collections, each tenant's figure is the sum of that tenant's, and the figures add up to the total.
\<close>

theorem collected_summary_spec:
  "distinct (map fst (collected_summary cs)) \<and> balanced (collected_summary cs) \<and>
   summary_total a (collected_summary cs) = asset_amounts a cs \<and>
   summary_cell a k (collected_summary cs) = tenant_amounts a k cs"
  by (simp add: collected_summary_keys collected_summary_balanced collected_summary_total
      collected_summary_cell)

text \<open>
  Without a failing query the schedule of a tenant and an asset is the tenant's own for the asset,
  else the platform's for the asset, else the platform's for the asset \<^verbatim>\<open>*\<close>, and its absence is the
  domain error only if there is none of the three.
\<close>

theorem schedule_precedence:
  "get_schedule (\<lambda>_. None) tenant asset w =
     (case schedule_candidates tenant asset w of
        [] \<Rightarrow> Inl (Dom ErrFeeScheduleNotFound) | s # _ \<Rightarrow> Inr s)"
  by (auto simp: get_schedule_def schedule_for_tenant_def schedule_candidates_def find_filter
      split: option.splits list.splits)

end
