(* ===== verification/Stellar.thy ===== *)
theory Stellar
  imports Domain
begin

text \<open>
  \<^verbatim>\<open>internal/stellar/client.go\<close>: the wrapper around the Horizon client library. The answer of the
  library is an argument; every method returns it with its error wrapped. Also the text of an
  error, which the settlement engine searches: \<^verbatim>\<open>fmt.Errorf("...: %w", err)\<close> puts the prefix in front;
  the texts of the library's own errors are a parameter.
\<close>

definition load_account :: "string \<Rightarrow> err + 'a \<Rightarrow> err + 'a" where
  "load_account account_id inner = map_sum (Wrap (''load account '' @ account_id)) id inner"

definition submit_transaction :: "err + 'a \<Rightarrow> err + 'a" where
  "submit_transaction inner = map_sum (Wrap ''submit transaction'') id inner"

definition transaction_detail :: "err + 'a \<Rightarrow> err + 'a" where
  "transaction_detail inner = map_sum (Wrap ''transaction detail'') id inner"

definition operations_for_transaction :: "err + 'a \<Rightarrow> err + 'a" where
  "operations_for_transaction inner = map_sum (Wrap ''operations for transaction'') id inner"

definition account_payments :: "string \<Rightarrow> err + 'a \<Rightarrow> err + 'a" where
  "account_payments account_id inner = map_sum (Wrap (''payments for account '' @ account_id)) id inner"

fun err_text :: "(err \<Rightarrow> string) \<Rightarrow> err \<Rightarrow> string" where
  "err_text T (Wrap s e) = s @ '': '' @ err_text T e"
| "err_text T (Opaque s) = s"
| "err_text T e = T e"

text \<open>\<^verbatim>\<open>strings.Contains\<close>.\<close>

fun contains_text :: "string \<Rightarrow> string \<Rightarrow> bool" where
  "contains_text [] p = (p = [])"
| "contains_text (c # s) p = (take (length p) (c # s) = p \<or> contains_text s p)"

text \<open>No error that comes out of the wrapper passes the type assertion to the library's error type.\<close>

lemma wrapper_hides_horizon [err_simps]:
  "load_account a r = Inl e \<Longrightarrow> as_horizon e = None"
  "submit_transaction r = Inl e \<Longrightarrow> as_horizon e = None"
  "transaction_detail r = Inl e \<Longrightarrow> as_horizon e = None"
  "operations_for_transaction r = Inl e \<Longrightarrow> as_horizon e = None"
  by (cases r; force simp: load_account_def submit_transaction_def transaction_detail_def
      operations_for_transaction_def)+

lemma wrapper_results [simp]:
  "load_account a (Inr x) = Inr x" "submit_transaction (Inr x) = Inr x"
  "transaction_detail (Inr x) = Inr x" "operations_for_transaction (Inr x) = Inr x"
  "load_account a (Inl e) = Inl (Wrap (''load account '' @ a) e)"
  "submit_transaction (Inl e) = Inl (Wrap ''submit transaction'' e)"
  "transaction_detail (Inl e) = Inl (Wrap ''transaction detail'' e)"
  "operations_for_transaction (Inl e) = Inl (Wrap ''operations for transaction'' e)"
  by (simp_all add: load_account_def submit_transaction_def transaction_detail_def
      operations_for_transaction_def)

end
