(* ===== verification/Transfers.thy ===== *)
theory Transfers
  imports Compliance Fees Stellar
begin

text \<open>
  \<^verbatim>\<open>internal/transfer\<close>: validation of a destination address, the trustline check, and \<^verbatim>\<open>initiate\<close>, which
  screens a payment, prices it, persists it and either parks it for review or enqueues it. The
  screener is an interface of this package; its contract is the locale \<open>transfer_screener\<close>, and the
  compliance service provides it. \<^verbatim>\<open>IsNativeAsset\<close> is from \<^verbatim>\<open>internal/assets/assets.go\<close>.
\<close>

section \<open>Addresses and assets\<close>

definition hex_digit :: "char \<Rightarrow> bool" where
  "hex_digit c \<longleftrightarrow> (let b = (of_char c :: nat) in
     (48 \<le> b \<and> b \<le> 57) \<or> (97 \<le> b \<and> b \<le> 102) \<or> (65 \<le> b \<and> b \<le> 70))"

text \<open>The expression \<^verbatim>\<open>^(0x|xdc)[0-9a-fA-F]{40}$\<close>; without the flag \<^verbatim>\<open>m\<close>, \<^verbatim>\<open>$\<close> is the end of the text.\<close>

definition hex40 :: "string \<Rightarrow> bool" where
  "hex40 s \<longleftrightarrow> length s = 40 \<and> list_all hex_digit s"

definition is_valid_destination_address :: "string \<Rightarrow> bool" where
  "is_valid_destination_address a \<longleftrightarrow>
     take 2 a = ''0x'' \<and> hex40 (drop 2 a) \<or> take 3 a = ''xdc'' \<and> hex40 (drop 3 a)"

definition is_native_asset :: "string \<Rightarrow> bool" where
  "is_native_asset code \<longleftrightarrow> code \<in> {'''', ''XLM'', ''TXDC'', ''XDC''}"

section \<open>The environment of a call\<close>

text \<open>
  The screener the service was built with: \<^verbatim>\<open>ScreenTransfer\<close> returns an error, a nil decision (the
  inner \<open>None\<close>) or a decision; \<^verbatim>\<open>RecordHold\<close> returns an error or nothing.
\<close>

record screener_iface =
  sf_screen :: "screening_request \<Rightarrow> world \<Rightarrow> (err + decision option) \<times> world"
  sf_hold :: "transaction \<Rightarrow> decision \<Rightarrow> world \<Rightarrow> err option \<times> world"

text \<open>
  \<open>ie_account\<close> is the answer of the Horizon library, \<open>None\<close> if the service has no Stellar client: the
  asset codes of the account's balances or an error. The other fields are the clock, read once for the
  row (\<open>ie_now\<close>) and once more for the month of the limit (\<open>ie_limit_now\<close>), the fresh id and what the
  driver and the queue report; \<open>ie_tenants\<close> and \<open>ie_queue\<close> say what the service was built with.
\<close>

record initiate_env =
  ie_now :: go_time
  ie_limit_now :: go_time
  ie_uuid :: string
  ie_tenants :: bool
  ie_tenant_q :: "err option"
  ie_src_q :: "err option"
  ie_dst_q :: "err option"
  ie_account :: "(err + string list) option"
  ie_balances_q :: "err option"
  ie_fee_q :: "nat \<Rightarrow> err option"
  ie_create_q :: "err option"
  ie_limit_q :: "limit_stage \<Rightarrow> err option"
  ie_queue :: bool
  ie_enqueue_q :: "err option"

definition get_tenant :: "err option \<Rightarrow> string \<Rightarrow> world \<Rightarrow> err + tenant" where
  "get_tenant q i w =
     (case q of Some e \<Rightarrow> Inl (Wrap ''get tenant by id'' e)
      | None \<Rightarrow> (case find (\<lambda>t. te_id t = i) (w_tenants w) of
                  None \<Rightarrow> Inl (Opaque ''tenant not found'') | Some t \<Rightarrow> Inr t))"

text \<open>
  The assertion \<^verbatim>\<open>err.(*horizonclient.Error)\<close> and the comparison of the status line with \<open>404\<close>; any
  other failure falls back to the cached balances.
\<close>

definition validate_trustline ::
  "initiate_env \<Rightarrow> string \<Rightarrow> string \<Rightarrow> string \<Rightarrow> world \<Rightarrow> err option" where
  "validate_trustline E wid public_key asset w =
     (let cached = (if ie_balances_q E = None \<and> (\<exists>b \<in> set (get_balances wid w). ba_asset b = asset)
                    then None else Some (NoTrustline asset)) in
      case ie_account E of
        None \<Rightarrow> cached
      | Some inner \<Rightarrow> (case load_account public_key inner of
          Inr codes \<Rightarrow> if asset \<in> set codes then None else cached
        | Inl e \<Rightarrow> (case as_horizon e of
            Some (st, line) \<Rightarrow> if line = ''404'' then Some (NoTrustline asset) else cached
          | None \<Rightarrow> cached)))"

section \<open>Initiating a transfer\<close>

record transfer_order =
  or_from :: string
  or_to :: string
  or_address :: string
  or_asset :: string
  or_amount :: decimal
  or_batch :: string
  or_reference :: string
  or_key :: string

definition monthly_limit :: "ctx \<Rightarrow> initiate_env \<Rightarrow> world \<Rightarrow> int" where
  "monthly_limit c E w =
     (if cx_tenant c \<noteq> '''' \<and> ie_tenants E
      then (case get_tenant (ie_tenant_q E) (cx_tenant c) w of
              Inl e \<Rightarrow> 0 | Inr t \<Rightarrow> get_transfer_limit t)
      else 0)"

text \<open>The screening part: the decision taken, or \<open>None\<close> without a screener.\<close>

definition screen_order ::
  "screener_iface option \<Rightarrow> screening_request \<Rightarrow> world \<Rightarrow> decision option \<times> world" where
  "screen_order S rq w =
     (case S of None \<Rightarrow> (None, w)
      | Some s \<Rightarrow> (case sf_screen s rq w of
          (Inr (Some d), w') \<Rightarrow> (Some d, w')
        | (_, w') \<Rightarrow> (Some screener_error, w')))"

definition order_request ::
  "ctx \<Rightarrow> transfer_order \<Rightarrow> wallet \<Rightarrow> wallet option \<Rightarrow> screening_request" where
  "order_request c ord src dst =
     \<lparr>rq_org = cx_tenant c, rq_from_wallet = or_from ord, rq_to_wallet = or_to ord,
      rq_from_key = wa_public_key src,
      rq_to_key = (case dst of Some d \<Rightarrow> wa_public_key d | None \<Rightarrow> or_address ord),
      rq_to_federation = '''', rq_asset = or_asset ord, rq_amount = or_amount ord\<rparr>"

definition order_tx ::
  "ctx \<Rightarrow> initiate_env \<Rightarrow> transfer_order \<Rightarrow> tx_status \<Rightarrow> transfer_fee \<Rightarrow> transaction" where
  "order_tx c E ord st fee =
     \<lparr>tx_id = ie_uuid E, tx_hash = '''', tx_kind = TypeTransfer, tx_status = st,
      tx_from = or_from ord, tx_to = or_to ord, tx_to_address = or_address ord,
      tx_asset = or_asset ord, tx_amount = or_amount ord, tx_fee = tf_amount fee,
      tx_fee_bps = tf_bps fee, tx_tenant = ptr_of (cx_tenant c), tx_batch = ptr_of (or_batch ord),
      tx_reference = or_reference ord, tx_created = ie_now E, tx_reconciled = None,
      tx_requeues = 0, tx_idem_key = or_key ord, tx_fiat_rail = None, tx_fiat_ref = None,
      tx_fiat_status = None, tx_local_currency = None, tx_local_amount = None\<rparr>"

definition persist_order ::
  "numeric_col \<Rightarrow> ctx \<Rightarrow> initiate_env \<Rightarrow> int \<Rightarrow> transaction \<Rightarrow> world \<Rightarrow> (err + transaction) \<times> world" where
  "persist_order N c E limit t w =
     (if limit > 0
      then (case create_with_monthly_limit N (ie_limit_q E) t (cx_tenant c) (year_of (ie_limit_now E))
                   (month_of (ie_limit_now E)) limit w of
              (Some e, w') \<Rightarrow> (Inl e, w') | (None, w') \<Rightarrow> (Inr t, w'))
      else (case create_tx N c (ie_create_q E) t w of
              (Inl e, w') \<Rightarrow> (Inl (Wrap ''persist transaction'' e), w')
            | (Inr t', w') \<Rightarrow> (Inr t', w')))"

text \<open>What follows the screening: the fee, the row, and the hold or the queue.\<close>

definition place_order ::
  "decimal_pkg \<Rightarrow> numeric_col \<Rightarrow> ctx \<Rightarrow> screener_iface option \<Rightarrow> initiate_env \<Rightarrow> transfer_order
    \<Rightarrow> int \<Rightarrow> decision option \<Rightarrow> world \<Rightarrow> (err + transaction) \<times> world" where
  "place_order D N c S E ord limit od w =
     (let st = (case od of Some d \<Rightarrow> if dc_status d = ScreeningHold then StatusComplianceHold
                                      else StatusPending
                | None \<Rightarrow> StatusPending) in
      case calculate_transfer_fee D (ie_fee_q E) (cx_tenant c) (or_asset ord) (or_amount ord) w of
        Inl e \<Rightarrow> (Inl (Wrap ''calculate transfer fee'' e), w)
      | Inr fee \<Rightarrow>
        (case persist_order N c E limit (order_tx c E ord st fee) w of
           (Inl e, w1) \<Rightarrow> (Inl e, w1)
         | (Inr t, w1) \<Rightarrow>
           (case (S, od, tx_status t = StatusComplianceHold) of
              (Some s, Some d, True) \<Rightarrow>
                (case sf_hold s t d w1 of
                   (Some e, w2) \<Rightarrow> (Inl (Wrap ''record compliance hold'' e), w2)
                 | (None, w2) \<Rightarrow> (Inr t, w2))
            | _ \<Rightarrow> (Inr t, if ie_queue E then snd (enqueue_transfer (ie_enqueue_q E) (tx_id t) w1)
                           else w1))))"

definition initiate ::
  "decimal_pkg \<Rightarrow> numeric_col \<Rightarrow> ctx \<Rightarrow> screener_iface option \<Rightarrow> initiate_env \<Rightarrow> transfer_order
    \<Rightarrow> world \<Rightarrow> (err + transaction) \<times> world" where
  "initiate D N c S E ord w =
     (if or_to ord \<noteq> '''' \<and> or_from ord = or_to ord then (Inl (Dom ErrSelfTransfer), w)
      else if or_address ord \<noteq> '''' \<and> \<not> is_valid_destination_address (or_address ord)
      then (Inl (Wrap (or_address ord) (Dom ErrInvalidDestinationAddress)), w)
      else
       (let limit = monthly_limit c E w in
        case get_wallet c (ie_src_q E) (or_from ord) w of
          Inl e \<Rightarrow> (Inl (Wrap ''source wallet'' e), w)
        | Inr src \<Rightarrow>
          (case (if or_to ord = '''' then Inr None
                 else map_sum id Some (get_wallet c (ie_dst_q E) (or_to ord) w)) of
             Inl e \<Rightarrow> (Inl (Wrap ''destination wallet'' e), w)
           | Inr dst \<Rightarrow>
             (case (if is_native_asset (or_asset ord) then None
                    else validate_trustline E (or_from ord) (wa_public_key src) (or_asset ord) w) of
                Some e \<Rightarrow> (Inl e, w)
              | None \<Rightarrow>
                (case screen_order S (order_request c ord src dst) w of
                   (od, w1) \<Rightarrow>
                     if (case od of Some d \<Rightarrow> dc_status d = ScreeningBlocked | None \<Rightarrow> False)
                     then (Inl (Dom ErrTransferBlockedSanctions), w1)
                     else place_order D N c S E ord limit od w1)))))"

definition initiate_idempotent ::
  "decimal_pkg \<Rightarrow> numeric_col \<Rightarrow> ctx \<Rightarrow> screener_iface option \<Rightarrow> initiate_env \<Rightarrow> err option
    \<Rightarrow> transfer_order \<Rightarrow> world \<Rightarrow> (err + transaction) \<times> world" where
  "initiate_idempotent D N c S E q ord w =
     (if or_key ord = '''' then initiate D N c S E ord w
      else case get_by_idempotency_key q (cx_tenant c) (or_key ord) w of
        Inr t \<Rightarrow> (Inr t, w)
      | Inl e \<Rightarrow> if err_is e (Dom ErrTransactionNotFound) then initiate D N c S E ord w
                 else (Inl (Wrap ''check idempotency key'' e), w))"

text \<open>The public methods, as the orders they make.\<close>

definition transfer_order_of :: "string \<Rightarrow> string \<Rightarrow> string \<Rightarrow> decimal \<Rightarrow> string \<Rightarrow> transfer_order" where
  "transfer_order_of from_id to_id asset amt key =
     \<lparr>or_from = from_id, or_to = to_id, or_address = '''', or_asset = asset, or_amount = amt,
      or_batch = '''', or_reference = '''', or_key = key\<rparr>"

definition payout_order_of :: "string \<Rightarrow> string \<Rightarrow> string \<Rightarrow> decimal \<Rightarrow> string \<Rightarrow> transfer_order" where
  "payout_order_of from_id address asset amt key =
     \<lparr>or_from = from_id, or_to = '''', or_address = address, or_asset = asset, or_amount = amt,
      or_batch = '''', or_reference = '''', or_key = key\<rparr>"

definition batch_transfer_order ::
  "string \<Rightarrow> string \<Rightarrow> string \<Rightarrow> decimal \<Rightarrow> string \<Rightarrow> string \<Rightarrow> transfer_order" where
  "batch_transfer_order from_id to_id asset amt b rf =
     (transfer_order_of from_id to_id asset amt '''')\<lparr>or_batch := b, or_reference := rf\<rparr>"

definition batch_payout_order ::
  "string \<Rightarrow> string \<Rightarrow> string \<Rightarrow> decimal \<Rightarrow> string \<Rightarrow> string \<Rightarrow> transfer_order" where
  "batch_payout_order from_id address asset amt b rf =
     (payout_order_of from_id address asset amt '''')\<lparr>or_batch := b, or_reference := rf\<rparr>"

definition list_transactions :: "ctx \<Rightarrow> string \<Rightarrow> int \<Rightarrow> nat \<Rightarrow> world \<Rightarrow> transaction list" where
  "list_transactions c wid limit offset w =
     list_by_wallet c wid (nat (if limit \<le> 0 \<or> limit > 100 then 20 else limit)) offset w"

section \<open>The handler\<close>

record create_transfer_request =
  cr_from :: string
  cr_to :: string
  cr_address :: string
  cr_asset :: string
  cr_amount :: string

datatype 'a response = BadRequest string | DomainError err | Accepted 'a

text \<open>\<open>valid\<close> is the verdict of the validation of the struct tags.\<close>

definition initiate_transfer_handler ::
  "decimal_pkg \<Rightarrow> numeric_col \<Rightarrow> ctx \<Rightarrow> screener_iface option \<Rightarrow> initiate_env \<Rightarrow> err option
    \<Rightarrow> string option \<Rightarrow> string \<Rightarrow> create_transfer_request \<Rightarrow> world \<Rightarrow> transaction response \<times> world" where
  "initiate_transfer_handler D N c S E q invalid key r w =
     (case invalid of Some msg \<Rightarrow> (BadRequest msg, w)
      | None \<Rightarrow>
        if (cr_to r = '''') = (cr_address r = '''')
        then (BadRequest ''exactly one of to_wallet_id or to_address is required'', w)
        else if cr_address r \<noteq> '''' \<and> \<not> is_valid_destination_address (cr_address r)
        then (BadRequest ''to_address must be a 0x or xdc address of 40 hex characters'', w)
        else (case d_parse D (cr_amount r) of
            None \<Rightarrow> (BadRequest ''amount must be a positive number'', w)
          | Some a \<Rightarrow>
            if a \<le> 0 then (BadRequest ''amount must be a positive number'', w)
            else (case initiate_idempotent D N c S E q
                     (if cr_address r \<noteq> '''' then payout_order_of (cr_from r) (cr_address r) (cr_asset r) a key
                      else transfer_order_of (cr_from r) (cr_to r) (cr_asset r) a key) w of
                    (Inl e, w') \<Rightarrow> (DomainError e, w')
                  | (Inr t, w') \<Rightarrow> (Accepted t, w'))))"

section \<open>The compliance service as the screener\<close>

definition compliance_screener ::
  "numeric_col \<Rightarrow> ctx \<Rightarrow> compliance_env \<Rightarrow> (screening_request \<Rightarrow> err + decision) \<Rightarrow> screener_iface" where
  "compliance_screener N c E screen =
     \<lparr>sf_screen = (\<lambda>rq w. case screen_transfer N c E screen rq w of (d, w') \<Rightarrow> (Inr (Some d), w')),
      sf_hold = record_hold c E\<rparr>"

section \<open>Persisting\<close>

lemma order_tx_simps [simp]:
  "tx_id (order_tx c E ord st fee) = ie_uuid E" "tx_status (order_tx c E ord st fee) = st"
  "tx_from (order_tx c E ord st fee) = or_from ord" "tx_to (order_tx c E ord st fee) = or_to ord"
  "tx_amount (order_tx c E ord st fee) = or_amount ord" "tx_hash (order_tx c E ord st fee) = ''''"
  "tx_fee (order_tx c E ord st fee) = tf_amount fee" "tx_idem_key (order_tx c E ord st fee) = or_key ord"
  "with_ctx_tenant c (order_tx c E ord st fee) = order_tx c E ord st fee"
  "without_fiat (order_tx c E ord st fee) = order_tx c E ord st fee"
  by (simp_all add: order_tx_def with_ctx_tenant_def without_fiat_def)

lemma insert_tx_Inr:
  assumes "insert_tx N t w = Inr w'"
  obtains r where "tx_row N t = Some r" "w' = w\<lparr>w_txs := w_txs w @ [r]\<rparr>" "\<not> tx_conflict t w"
    "tx_refs_ok r w"
  using assms by (auto simp: insert_tx_def split: option.splits if_splits)

lemma persist_order_cases:
  assumes "persist_order N c E limit (order_tx c E ord st fee) w = (res, w')"
  obtains (failed) e where "res = Inl e" "w' = w"
  | (stored) r where "res = Inr (order_tx c E ord st fee)" "w' = w\<lparr>w_txs := w_txs w @ [r]\<rparr>"
      "tx_row N (order_tx c E ord st fee) = Some r" "\<not> tx_conflict (order_tx c E ord st fee) w"
proof (cases "limit > 0")
  case True
  with assms that show ?thesis
    by (auto simp: persist_order_def create_with_monthly_limit_def Let_def elim!: insert_tx_Inr
        split: option.splits sum.splits if_splits)
next
  case False
  with assms that show ?thesis
    by (auto simp: persist_order_def create_tx_def Let_def elim!: insert_tx_Inr
        split: option.splits sum.splits)
qed

text \<open>The monthly limit, when there is one, bounds the rows of the month after the insert.\<close>

lemma create_with_monthly_limit_count:
  assumes "create_with_monthly_limit N q t tenant y m limit w = (None, w')"
  shows "count_month tenant y m w < limit"
  using assms by (auto simp: create_with_monthly_limit_def Let_def split: option.splits if_splits)

section \<open>The screener's contract\<close>

text \<open>
  What the transfer service relies on: screening a payment and recording a hold touch neither the
  transactions nor the queue, so the transfer service alone decides what is persisted and enqueued,
  and screening leaves the reviews and the fee schedules alone.
\<close>

locale transfer_screener =
  fixes S :: screener_iface
  assumes screen_frame: "sf_screen S rq w = (r, w') \<Longrightarrow>
      w_txs w' = w_txs w \<and> w_queue w' = w_queue w \<and> w_reviews w' = w_reviews w \<and> w_fees w' = w_fees w"
    and hold_frame: "sf_hold S t d w = (e, w') \<Longrightarrow> w_txs w' = w_txs w \<and> w_queue w' = w_queue w"
begin

lemma screen_order_frame:
  assumes "screen_order (Some S) rq w = (od, w1)"
  shows "w_txs w1 = w_txs w" "w_queue w1 = w_queue w" "\<exists>d. od = Some d" "w_reviews w1 = w_reviews w"
    "w_fees w1 = w_fees w"
  using assms screen_frame
  by (auto simp: screen_order_def split: prod.splits sum.splits option.splits)

lemma place_order_cases:
  assumes "place_order D N c (Some S) E ord limit (Some d) w = (res, w')"
  obtains (refused) e where "res = Inl e" "w_txs w' = w_txs w" "w_queue w' = w_queue w"
      "w_reviews w' = w_reviews w"
  | (parked) fee r he w1 where "dc_status d = ScreeningHold" "w_queue w' = w_queue w"
      "w1 = w\<lparr>w_txs := w_txs w @ [r]\<rparr>" "\<not> tx_conflict (order_tx c E ord StatusComplianceHold fee) w"
      "sf_hold S (order_tx c E ord StatusComplianceHold fee) d w1 = (he, w')"
      "w_txs w' = w_txs w @ [r]" "tx_row N (order_tx c E ord StatusComplianceHold fee) = Some r"
      "calculate_transfer_fee D (ie_fee_q E) (cx_tenant c) (or_asset ord) (or_amount ord) w = Inr fee"
      "res = (case he of None \<Rightarrow> Inr (order_tx c E ord StatusComplianceHold fee)
         | Some e \<Rightarrow> Inl (Wrap ''record compliance hold'' e))"
  | (released) fee r where "dc_status d \<noteq> ScreeningHold" "w_reviews w' = w_reviews w"
      "\<not> tx_conflict (order_tx c E ord StatusPending fee) w"
      "w_queue w' = w_queue w @ (if ie_queue E \<and> ie_enqueue_q E = None then [ie_uuid E] else [])"
      "w_txs w' = w_txs w @ [r]" "tx_row N (order_tx c E ord StatusPending fee) = Some r"
      "calculate_transfer_fee D (ie_fee_q E) (cx_tenant c) (or_asset ord) (or_amount ord) w = Inr fee"
      "res = Inr (order_tx c E ord StatusPending fee)"
proof -
  let ?st = "if dc_status d = ScreeningHold then StatusComplianceHold else StatusPending"
  show ?thesis
  proof (cases "calculate_transfer_fee D (ie_fee_q E) (cx_tenant c) (or_asset ord) (or_amount ord) w")
    case (Inl e)
    with assms refused show ?thesis by (auto simp: place_order_def)
  next
    case (Inr fee)
    obtain pr w1 where p: "persist_order N c E limit (order_tx c E ord ?st fee) w = (pr, w1)"
      by (cases "persist_order N c E limit (order_tx c E ord ?st fee) w")
    then show ?thesis
    proof (cases rule: persist_order_cases)
      case (failed e)
      with assms Inr p refused show ?thesis by (auto simp: place_order_def)
    next
      case (stored r)
      note st = stored
      show ?thesis
      proof (cases "dc_status d = ScreeningHold")
        case True
        obtain he w2 where h: "sf_hold S (order_tx c E ord StatusComplianceHold fee) d w1 = (he, w2)"
          by (cases "sf_hold S (order_tx c E ord StatusComplianceHold fee) d w1")
        have w': "w' = w2" "res = (case he of None \<Rightarrow> Inr (order_tx c E ord StatusComplianceHold fee)
            | Some e \<Rightarrow> Inl (Wrap ''record compliance hold'' e))"
          using assms Inr p st True h by (auto simp: place_order_def split: option.splits)
        have "?st = StatusComplianceHold" using True by simp
        note st' = st [unfolded this]
        show ?thesis
          using hold_frame [OF h] st' h w'
          by (intro parked [OF True _ st'(2,4) _ _ st'(3) Inr]) simp_all
      next
        case False
        with assms Inr p st have "res = Inr (order_tx c E ord StatusPending fee)"
          and "w' = (if ie_queue E then snd (enqueue_transfer (ie_enqueue_q E) (ie_uuid E) w1) else w1)"
          by (auto simp: place_order_def)
        with st False Inr released show ?thesis by simp
      qed
    qed
  qed
qed

text \<open>
  A call to \<^verbatim>\<open>initiate\<close> is refused without a trace in the transactions and the queue, or it adds
  exactly one row, which is parked exactly if the screening said hold and enqueued only if not.
\<close>

lemma initiate_cases:
  assumes "initiate D N c (Some S) E ord w = (res, w')"
  obtains (refused) e where "res = Inl e" "w_txs w' = w_txs w" "w_queue w' = w_queue w"
      "w_reviews w' = w_reviews w"
  | (placed) src dst d w1 where "get_wallet c (ie_src_q E) (or_from ord) w = Inr src"
      "or_to ord = '''' \<and> dst = None \<or>
        or_to ord \<noteq> '''' \<and> (\<exists>x. get_wallet c (ie_dst_q E) (or_to ord) w = Inr x \<and> dst = Some x)"
      "or_to ord = '''' \<or> or_from ord \<noteq> or_to ord"
      "or_address ord = '''' \<or> is_valid_destination_address (or_address ord)"
      "is_native_asset (or_asset ord) \<or> validate_trustline E (or_from ord) (wa_public_key src) (or_asset ord) w = None"
      "screen_order (Some S) (order_request c ord src dst) w = (Some d, w1)"
      "dc_status d \<noteq> ScreeningBlocked" "w_txs w1 = w_txs w" "w_queue w1 = w_queue w"
      "w_reviews w1 = w_reviews w"
      "place_order D N c (Some S) E ord (monthly_limit c E w) (Some d) w1 = (res, w')"
      "w_fees w1 = w_fees w"
proof (cases "get_wallet c (ie_src_q E) (or_from ord) w")
  case (Inl e)
  with assms refused show ?thesis by (auto simp: initiate_def split: if_splits)
next
  case (Inr src)
  let ?dst = "if or_to ord = '''' then Inr None else map_sum id Some (get_wallet c (ie_dst_q E) (or_to ord) w)"
  note src = Inr
  show ?thesis
  proof (cases ?dst)
    case (Inl e)
    with assms src refused show ?thesis by (auto simp: initiate_def split: if_splits)
  next
    case (Inr dst)
    obtain od w1 where s: "screen_order (Some S) (order_request c ord src dst) w = (od, w1)"
      by (cases "screen_order (Some S) (order_request c ord src dst) w")
    note fr = screen_order_frame [OF s]
    from fr(3) obtain d where d: "od = Some d" ..
    have dst: "or_to ord = '''' \<and> dst = None \<or>
        or_to ord \<noteq> '''' \<and> (\<exists>x. get_wallet c (ie_dst_q E) (or_to ord) w = Inr x \<and> dst = Some x)"
      using Inr by (cases "get_wallet c (ie_dst_q E) (or_to ord) w") (auto split: if_splits)
    show ?thesis
    proof (cases "\<exists>e. res = Inl e \<and> w_txs w' = w_txs w \<and> w_queue w' = w_queue w \<and> w_reviews w' = w_reviews w")
      case True
      with refused show ?thesis by blast
    next
      case False
      with assms src Inr s d fr(1,2,4) have
        "or_to ord = '''' \<or> or_from ord \<noteq> or_to ord"
        "or_address ord = '''' \<or> is_valid_destination_address (or_address ord)"
        "is_native_asset (or_asset ord) \<or> validate_trustline E (or_from ord) (wa_public_key src) (or_asset ord) w = None"
        "dc_status d \<noteq> ScreeningBlocked"
        "place_order D N c (Some S) E ord (monthly_limit c E w) (Some d) w1 = (res, w')"
        by (auto simp: initiate_def Let_def split: if_splits option.splits)
      with placed src dst s d fr(1,2,4,5) show ?thesis by blast
    qed
  qed
qed

end

text \<open>The compliance service keeps the contract, whatever its screener is.\<close>

lemma record_hold_frame:
  assumes "record_hold c E t d w = (e, w')"
  shows "w_txs w' = w_txs w \<and> w_queue w' = w_queue w"
  using assms create_review_same
  by (auto simp: record_hold_def Let_def split: prod.splits option.splits)

interpretation compliant: transfer_screener "compliance_screener N c E screen" for N c E screen
proof unfold_locales
  fix rq w r w' t d e
  show "sf_screen (compliance_screener N c E screen) rq w = (r, w') \<Longrightarrow>
      w_txs w' = w_txs w \<and> w_queue w' = w_queue w \<and> w_reviews w' = w_reviews w \<and> w_fees w' = w_fees w"
    by (auto simp: compliance_screener_def dest: screen_transfer_same split: prod.splits)
  show "sf_hold (compliance_screener N c E screen) t d w = (e, w') \<Longrightarrow>
      w_txs w' = w_txs w \<and> w_queue w' = w_queue w"
    by (auto simp: compliance_screener_def dest: record_hold_frame)
qed

section \<open>Idempotent calls\<close>

text \<open>After a call with a key went through, the same call again returns the row it made.\<close>

lemma get_by_idempotency_key_found:
  assumes "r \<in> set (w_txs w)" and "tx_idem_key r = key" and "key \<noteq> ''''"
    and "org = '''' \<or> tx_tenant r = Some org"
  shows "\<exists>t. get_by_idempotency_key None org key w = Inr t"
proof -
  have "find (\<lambda>r. key \<noteq> '''' \<and> tx_idem_key r = key \<and> (org = '''' \<or> tx_tenant r = Some org)) (w_txs w)
    \<noteq> None"
    using assms by (auto simp: find_None_iff)
  then show ?thesis by (auto simp: get_by_idempotency_key_def split: option.splits)
qed

section \<open>Properties\<close>

lemma calculate_transfer_fee_cong:
  assumes "w_fees w1 = w_fees w"
  shows "calculate_transfer_fee D q t a x w1 = calculate_transfer_fee D q t a x w"
proof -
  have "schedule_for_tenant e s b w1 = schedule_for_tenant e s b w" for e s b
    using assms by (cases e) (simp_all add: schedule_for_tenant_def)
  then show ?thesis unfolding calculate_transfer_fee_def calculate_fee_def get_schedule_def by presburger
qed

text \<open>What the screening of an order amounts to: an error of the screener is a hold.\<close>

definition screening_of :: "(screening_request \<Rightarrow> err + decision) \<Rightarrow> screening_request \<Rightarrow> screening_status" where
  "screening_of screen rq = (case screen rq of Inl e \<Rightarrow> ScreeningHold | Inr d \<Rightarrow> dc_status d)"

lemma compliance_screening:
  assumes "screen_order (Some (compliance_screener N c CE screen)) rq w = (Some d, w1)"
  shows "dc_status d = screening_of screen rq"
  using assms screen_transfer_status [of N c CE screen rq w]
  by (auto simp: screen_order_def compliance_screener_def screening_of_def split: prod.splits)

lemma record_hold_review:
  assumes "record_hold c E t d w = (None, w')"
  shows "list_ex (\<lambda>v. rv_tx v = tx_id t \<and> rv_status v = ReviewPending) (w_reviews w')"
  using assms
  by (auto simp: record_hold_def create_review_def Let_def list_ex_iff split: prod.splits option.splits if_splits)

definition placed_status :: "screening_status \<Rightarrow> tx_status" where
  "placed_status s = (if s = ScreeningHold then StatusComplianceHold else StatusPending)"

text \<open>What a call that is accepted leaves behind.\<close>

lemma initiate_accepted:
  assumes "initiate D N c (Some (compliance_screener N c CE screen)) E ord w = (Inr t, w')"
  obtains src dst fee r where "get_wallet c (ie_src_q E) (or_from ord) w = Inr src"
    "screening_of screen (order_request c ord src dst) \<noteq> ScreeningBlocked"
    "calculate_transfer_fee D (ie_fee_q E) (cx_tenant c) (or_asset ord) (or_amount ord) w = Inr fee"
    "t = order_tx c E ord (placed_status (screening_of screen (order_request c ord src dst))) fee"
    "tx_row N t = Some r" "w_txs w' = w_txs w @ [r]" "\<not> tx_conflict t w"
    "w_queue w' = w_queue w @ (if tx_status t = StatusPending \<and> ie_queue E \<and> ie_enqueue_q E = None
       then [tx_id t] else [])"
    "tx_status t = StatusComplianceHold \<longrightarrow>
       list_ex (\<lambda>v. rv_tx v = tx_id t \<and> rv_status v = ReviewPending) (w_reviews w')"
  using assms
proof (cases rule: compliant.initiate_cases)
  case (placed src dst d w1)
  note d = compliance_screening [OF placed(6)]
  note fee = calculate_transfer_fee_cong [OF placed(12)]
  from placed(11) show ?thesis
  proof (cases rule: compliant.place_order_cases)
    case (parked f r he w2)
    then have he: "he = None" and t: "t = order_tx c E ord StatusComplianceHold f"
      by (auto split: option.splits)
    have "record_hold c CE t d w2 = (None, w')"
      using parked(5) he t by (simp add: compliance_screener_def)
    from record_hold_review [OF this] parked placed d fee t that [of src dst f r] show ?thesis
      by (simp add: placed_status_def tx_conflict_def)
  next
    case (released f r)
    with placed d fee that [of src dst f r] show ?thesis
      by (simp add: placed_status_def tx_conflict_def)
  qed simp
qed simp

definition sample_priced :: world where
  "sample_priced = (sample_world StatusConfirmed)\<lparr>w_fees := w_fees sample_fees\<rparr>"

definition sample_initiate_env :: initiate_env where
  "sample_initiate_env = \<lparr>ie_now = 0, ie_limit_now = 0, ie_uuid = ''n'', ie_tenants = False, ie_tenant_q = None, ie_src_q = None,
     ie_dst_q = None, ie_account = None, ie_balances_q = None, ie_fee_q = (\<lambda>_. None), ie_create_q = None,
     ie_limit_q = (\<lambda>_. None), ie_queue = True, ie_enqueue_q = None\<rparr>"

definition sample_order :: "string \<Rightarrow> transfer_order" where
  "sample_order key = transfer_order_of ''a'' ''b'' ''XLM'' 10 key"

definition sample_rule :: "decision \<Rightarrow> screening_request \<Rightarrow> err + decision" where
  "sample_rule d = (\<lambda>rq. Inr d)"

definition sample_hold :: decision where
  "sample_hold = clear_decision\<lparr>dc_status := ScreeningHold, dc_rules := [''velocity_burst'']\<rparr>"

definition sample_service :: "decision \<Rightarrow> screener_iface option" where
  "sample_service d = Some (compliance_screener exact_numeric no_tenant sample_compliance_env (sample_rule d))"

definition accepted :: "(err + 'a) \<times> world \<Rightarrow> bool" where
  "accepted r = (case fst r of Inl e \<Rightarrow> False | Inr t \<Rightarrow> True)"

lemma acceptedD: "accepted r \<Longrightarrow> \<exists>t. r = (Inr t, snd r)"
  by (cases r) (auto simp: accepted_def split: sum.splits)




text \<open>
  C7: with the composite screener in front, a call to \<^verbatim>\<open>initiate\<close> enqueues at most the transfer it
  created, and only if every screener returned without an error and asked for neither hold nor block.
\<close>

theorem enqueued_only_if_clear:
  assumes "initiate D N c (Some (compliance_screener N c CE (composite_screen ss))) E ord w = (res, w')"
    and "w_queue w' \<noteq> w_queue w"
  shows "\<exists>t src dst. res = Inr t \<and> tx_status t = StatusPending \<and> w_queue w' = w_queue w @ [tx_id t] \<and>
    list_all (\<lambda>(name, screen). \<exists>r. screen (order_request c ord src dst) = Inr r \<and> severity (dc_status r) = 0) ss"
  using assms(1)
proof (cases rule: compliant.initiate_cases)
  case (placed src dst d w1)
  let ?rq = "order_request c ord src dst"
  obtain x where x: "composite_screen ss ?rq = Inr x" by (simp add: composite_screen_def)
  from placed(11) show ?thesis
  proof (cases rule: compliant.place_order_cases)
    case (released f r)
    from released(1) placed(7) x compliance_screening [OF placed(6)]
    have "severity (dc_status x) = 0" by (cases "dc_status x") (auto simp: screening_of_def)
    then have "dc_status x = ScreeningClear" by (simp add: composite_clear_severity [OF x])
    then have "list_all (\<lambda>(name, screen). \<exists>r. screen ?rq = Inr r \<and> severity (dc_status r) = 0) ss"
      using composite_not_stopped_iff [OF x] by (simp add: list_all_iff)
    with released assms(2) placed show ?thesis by (auto split: if_splits)
  qed (use assms(2) placed in auto)
qed (use assms(2) in simp)

lemma enqueued_only_if_clear_witness:
  "w_queue (snd (initiate reference_pkg exact_numeric no_tenant
      (Some (compliance_screener exact_numeric no_tenant sample_compliance_env
         (composite_screen [(''s'', sample_rule clear_decision)])))
      sample_initiate_env (sample_order '''') sample_priced)) = [''n'']"
proof -
  let ?r = "initiate reference_pkg exact_numeric no_tenant
      (Some (compliance_screener exact_numeric no_tenant sample_compliance_env
         (composite_screen [(''s'', sample_rule clear_decision)])))
      sample_initiate_env (sample_order '''') sample_priced"
  have q: "w_queue (snd ?r) \<noteq> w_queue sample_priced" and i: "map_sum id tx_id (fst ?r) = Inr ''n''"
    by code_simp+
  have r: "?r = (fst ?r, snd ?r)" by simp
  from enqueued_only_if_clear [OF r q] i show ?thesis
    by (auto simp: sample_priced_def sample_world_def empty_world_def)
qed

text \<open>
  The insert of the transfer and of its review are two writes. If the review cannot be written the
  caller gets an error, but the row is there, on hold, without a review that could release it.
\<close>

theorem unrecorded_hold_strands_transfer:
  assumes "initiate D N c (Some (compliance_screener N c CE screen)) E ord w = (Inl e, w')"
    and "w_txs w' \<noteq> w_txs w"
  shows "\<exists>r. w_txs w' = w_txs w @ [r] \<and> tx_status r = StatusComplianceHold \<and> w_queue w' = w_queue w \<and>
    w_reviews w' = w_reviews w"
  using assms(1)
proof (cases rule: compliant.initiate_cases)
  case (placed src dst d w1)
  from placed(11) show ?thesis
  proof (cases rule: compliant.place_order_cases)
    case (parked f r he w2)
    then have "he \<noteq> None" by (auto split: option.splits)
    moreover have "record_hold c CE (order_tx c E ord StatusComplianceHold f) d w2 = (he, w')"
      using parked(5) by (simp add: compliance_screener_def)
    ultimately have "w_reviews w' = w_reviews w2"
      by (auto simp: record_hold_def create_review_def Let_def split: option.splits if_splits)
    with parked placed tx_row_fields [OF parked(7)] show ?thesis by auto
  qed (use assms(2) placed in auto)
qed (use assms(2) in simp)

lemma unrecorded_hold_strands_transfer_witness:
  "map tx_status (w_txs (snd (initiate reference_pkg exact_numeric no_tenant
      (Some (compliance_screener exact_numeric no_tenant
         (sample_compliance_env\<lparr>ce_review := Some (Opaque ''down'')\<rparr>) (sample_rule sample_hold)))
      sample_initiate_env (sample_order '''') sample_priced))) = [StatusConfirmed, StatusComplianceHold]"
proof -
  let ?r = "initiate reference_pkg exact_numeric no_tenant
      (Some (compliance_screener exact_numeric no_tenant
         (sample_compliance_env\<lparr>ce_review := Some (Opaque ''down'')\<rparr>) (sample_rule sample_hold)))
      sample_initiate_env (sample_order '''') sample_priced"
  have f: "case fst ?r of Inl e \<Rightarrow> True | Inr t \<Rightarrow> False" by code_simp
  then obtain e where r: "?r = (Inl e, snd ?r)" by (cases ?r) (auto split: sum.splits)
  have q: "length (w_txs (snd ?r)) \<noteq> length (w_txs sample_priced)" by code_simp
  then have "w_txs (snd ?r) \<noteq> w_txs sample_priced" by auto
  from unrecorded_hold_strands_transfer [OF r this] show ?thesis
    by (auto simp: sample_priced_def sample_world_def sample_tx_def)
qed

lemma accepted_below_limit:
  assumes "initiate D N c (Some (compliance_screener N c CE screen)) E ord w = (Inr t, w')"
    and "monthly_limit c E w > 0"
  shows "count_month (cx_tenant c) (year_of (ie_limit_now E)) (month_of (ie_limit_now E)) w < monthly_limit c E w
    \<and> count_month (cx_tenant c) (year_of (ie_limit_now E)) (month_of (ie_limit_now E)) w' \<le> monthly_limit c E w"
  using assms(1)
proof (cases rule: compliant.initiate_cases)
  case (placed src dst d w1)
  let ?n = "count_month (cx_tenant c) (year_of (ie_limit_now E)) (month_of (ie_limit_now E))"
  from placed(11) obtain st fee x w2
    where "persist_order N c E (monthly_limit c E w) (order_tx c E ord st fee) w1 = (Inr x, w2)"
    by (auto simp: place_order_def Let_def split: sum.splits prod.splits)
  with assms(2) have "?n w1 < monthly_limit c E w"
    by (auto simp: persist_order_def split: prod.splits option.splits dest!: create_with_monthly_limit_count)
  with placed(8) have less: "?n w < monthly_limit c E w" by (simp add: count_month_def)
  from initiate_accepted [OF assms(1)] obtain r where "w_txs w' = w_txs w @ [r]" by metis
  then have "?n w' \<le> ?n w + 1" by (simp add: count_month_def)
  with less show ?thesis by linarith
qed simp

text \<open>The limit of a tenant that has a row, as the call sees it.\<close>

lemma monthly_limit_of_tenant:
  assumes "find (\<lambda>x. te_id x = cx_tenant c) (w_tenants w) = Some tn" and "cx_tenant c \<noteq> ''''" and "ie_tenants E"
  shows "monthly_limit c E w = (if ie_tenant_q E = None then get_transfer_limit tn else 0)"
  using assms by (simp add: monthly_limit_def get_tenant_def split: option.splits)

text \<open>
  C13: a tenant whose row gives it a positive limit of transfers a month is kept to it: a call of the tenant
  that is accepted found fewer rows of the current month, and leaves no more than the limit; so at the limit
  the call is refused. The one exception is in the code: if the query of the tenant's row fails, the call
  goes on without any limit.
\<close>

theorem monthly_limit_kept:
  assumes "initiate D N c (Some (compliance_screener N c CE screen)) E ord w = (Inr t, w')"
    and "find (\<lambda>x. te_id x = cx_tenant c) (w_tenants w) = Some tn" and "cx_tenant c \<noteq> ''''" and "ie_tenants E"
    and "get_transfer_limit tn > 0"
  shows "(if ie_tenant_q E = None
     then count_month (cx_tenant c) (year_of (ie_limit_now E)) (month_of (ie_limit_now E)) w < get_transfer_limit tn
       \<and> count_month (cx_tenant c) (year_of (ie_limit_now E)) (month_of (ie_limit_now E)) w' \<le> get_transfer_limit tn
     else monthly_limit c E w = 0)"
proof (cases "ie_tenant_q E = None")
  case True
  with monthly_limit_of_tenant [OF assms(2-4)] have "monthly_limit c E w = get_transfer_limit tn" by simp
  with accepted_below_limit [OF assms(1)] assms(5) True show ?thesis by simp
next
  case False
  with monthly_limit_of_tenant [OF assms(2-4)] have "monthly_limit c E w = 0" by simp
  with False show ?thesis by auto
qed

definition sample_tenant :: tenant where
  "sample_tenant = \<lparr>te_id = ''o'', te_account = AccountIndividual, te_max_wallets = None,
     te_max_transfers = Some 1, te_max_webhooks = None\<rparr>"

definition sample_limited :: world where
  "sample_limited = sample_priced\<lparr>w_tenants := [sample_tenant],
     w_wallets := map (\<lambda>x. x\<lparr>wa_tenant := Some ''o''\<rparr>) (w_wallets sample_priced)\<rparr>"

lemma monthly_limit_kept_witness:
  "count_month ''o'' (year_of 0) (month_of 0)
     (snd (initiate reference_pkg exact_numeric \<lparr>cx_tenant = ''o'', cx_user = ''''\<rparr>
        (Some (compliance_screener exact_numeric \<lparr>cx_tenant = ''o'', cx_user = ''''\<rparr> sample_compliance_env
           (sample_rule clear_decision)))
        (sample_initiate_env\<lparr>ie_tenants := True\<rparr>) (sample_order '''') sample_limited)) \<le> 1"
proof -
  let ?c = "\<lparr>cx_tenant = ''o'', cx_user = ''''\<rparr>"
  let ?E = "sample_initiate_env\<lparr>ie_tenants := True\<rparr>"
  let ?r = "initiate reference_pkg exact_numeric ?c
      (Some (compliance_screener exact_numeric ?c sample_compliance_env (sample_rule clear_decision)))
      ?E (sample_order '''') sample_limited"
  have "accepted ?r" by code_simp
  then obtain t where t: "?r = (Inr t, snd ?r)" using acceptedD by blast
  have "get_transfer_limit sample_tenant = 1" by (simp add: sample_tenant_def get_transfer_limit_def)
  moreover have "find (\<lambda>x. te_id x = ''o'') (w_tenants sample_limited) = Some sample_tenant"
    by (simp add: sample_limited_def sample_tenant_def)
  moreover have "ie_tenant_q ?E = None" "ie_limit_now ?E = 0" by (simp_all add: sample_initiate_env_def)
  ultimately show ?thesis using monthly_limit_kept [OF t, of sample_tenant] by (simp only: if_True) simp
qed

text \<open>
  The exception: with a limit of one and one transfer in the month, a second one is accepted if the
  query of the tenant fails.
\<close>

lemma failed_lookup_lifts_limit:
  "let c = \<lparr>cx_tenant = ''o'', cx_user = ''''\<rparr>;
       S = Some (compliance_screener exact_numeric c sample_compliance_env (sample_rule clear_decision));
       E = sample_initiate_env\<lparr>ie_tenants := True\<rparr>;
       w1 = snd (initiate reference_pkg exact_numeric c S E (sample_order '''') sample_limited);
       F = E\<lparr>ie_uuid := ''m'', ie_tenant_q := Some (Opaque ''timeout'')\<rparr>;
       w2 = snd (initiate reference_pkg exact_numeric c S F (sample_order '''') w1)
   in count_month ''o'' (year_of 0) (month_of 0) w1 = 1 \<and> count_month ''o'' (year_of 0) (month_of 0) w2 = 2"
  by code_simp

text \<open>
  Once a call with an idempotency key was accepted, the same key is answered with the transfer it
  made, whatever the rest of the second request says, and nothing is written or enqueued again.
\<close>

theorem idempotent_replay:
  assumes "initiate_idempotent D N c (Some (compliance_screener N c CE screen)) E None ord w = (Inr t, w')"
    and "or_key ord \<noteq> ''''" and "or_key ord' = or_key ord"
  shows "\<exists>t'. initiate_idempotent D N c S' E' None ord' w' = (Inr t', w') \<and> tx_id t' = tx_id t"
proof -
  let ?P = "\<lambda>r. or_key ord \<noteq> '''' \<and> tx_idem_key r = or_key ord \<and>
      (cx_tenant c = '''' \<or> tx_tenant r = Some (cx_tenant c))"
  have again: "\<exists>t'. initiate_idempotent D N c S' E' None ord' v = (Inr t', v) \<and> tx_id t' = tx_id r"
    if "find ?P (w_txs v) = Some r" for v r
    using that assms(2,3) by (simp add: initiate_idempotent_def get_by_idempotency_key_def without_fiat_def)
  show ?thesis
  proof (cases "find ?P (w_txs w)")
    case (Some r)
    with assms(1,2) have "w' = w" "tx_id t = tx_id r"
      by (auto simp: initiate_idempotent_def get_by_idempotency_key_def without_fiat_def)
    with again [OF Some] show ?thesis by simp
  next
    case None
    then have "initiate D N c (Some (compliance_screener N c CE screen)) E ord w = (Inr t, w')"
      using assms(1,2) by (auto simp: initiate_idempotent_def get_by_idempotency_key_def)
    then obtain st fee r where t: "t = order_tx c E ord st fee" and r: "tx_row N t = Some r"
      and w': "w_txs w' = w_txs w @ [r]" by (elim initiate_accepted) blast
    have "?P r" using assms(2) tx_row_fields [OF r] t by (simp add: order_tx_def ptr_of_def null_ptr_def)
    moreover have "\<forall>x \<in> set (w_txs w). \<not> ?P x" using None by (auto simp: find_None_iff)
    ultimately have "find ?P (w_txs w') = Some r" by (simp add: w' find_filter)
    from again [OF this] tx_row_fields(1) [OF r] show ?thesis by simp
  qed
qed

lemma or_key_sample: "or_key (sample_order k) = k"
  by (simp add: sample_order_def transfer_order_of_def)

lemma idempotent_replay_witness:
  "\<exists>t w' t'. initiate_idempotent reference_pkg exact_numeric no_tenant (sample_service clear_decision)
       sample_initiate_env None (sample_order ''k'') sample_priced = (Inr t, w') \<and>
     initiate_idempotent reference_pkg exact_numeric no_tenant (sample_service clear_decision)
       (sample_initiate_env\<lparr>ie_uuid := ''m''\<rparr>) None (sample_order ''k'') w' = (Inr t', w') \<and>
     tx_id t' = tx_id t"
proof -
  let ?r = "initiate_idempotent reference_pkg exact_numeric no_tenant (sample_service clear_decision)
       sample_initiate_env None (sample_order ''k'') sample_priced"
  have "accepted ?r" by code_simp
  then obtain t where t: "?r = (Inr t, snd ?r)" using acceptedD by blast
  from idempotent_replay [OF t [unfolded sample_service_def], of "sample_order ''k''"] t show ?thesis
    by (metis (no_types, lifting) list.discI or_key_sample sample_service_def)
qed

end
