(* ===== verification/Submitter.thy ===== *)
theory Submitter
  imports Store_Laws
begin

text \<open>
  The interface \<^verbatim>\<open>TransferSubmitter\<close> of \<^verbatim>\<open>internal/settlement/worker.go\<close>: what the worker needs of a
  settlement engine. Both engines implement it; \<open>burst\<close> says what one settlement may send to the
  network. The queue may deliver a transfer any number of times (retries, duplicates), each with its
  own answers from the environment; the worker hands every delivery to the engine.
\<close>

definition run_workers ::
  "('e \<Rightarrow> string \<Rightarrow> world \<Rightarrow> err option \<times> world) \<Rightarrow> 'e list \<Rightarrow> string \<Rightarrow> world \<Rightarrow> world" where
  "run_workers submit Es i w = fold (\<lambda>E w. snd (submit E i w)) Es w"

locale submitter =
  fixes submit :: "'e \<Rightarrow> string \<Rightarrow> world \<Rightarrow> err option \<times> world"
    and burst :: "net_effect list \<Rightarrow> bool"
  assumes nothing_sent: "burst []"
    and submit_effect: "wf_txs w \<Longrightarrow> submit E i w = (r, w') \<Longrightarrow>
      w' = w \<or> tx_available w i \<and> wf_txs w' \<and> \<not> tx_available w' i \<and>
        (\<exists>xs. burst xs \<and> w_net w' = w_net w @ xs)"
begin

lemma unavailable_idle:
  assumes "wf_txs w" and "\<not> tx_available w i"
  shows "run_workers submit Es i w = w"
  using assms
proof (induction Es)
  case (Cons E Es)
  obtain r w' where s: "submit E i w = (r, w')" by (cases "submit E i w")
  with submit_effect [OF Cons.prems(1) s] Cons show ?case by (auto simp: run_workers_def)
qed (simp add: run_workers_def)

text \<open>However often a transfer is delivered, it is settled at most once.\<close>

lemma settled_once:
  assumes "wf_txs w"
  shows "\<exists>xs. burst xs \<and> w_net (run_workers submit Es i w) = w_net w @ xs"
  using assms
proof (induction Es arbitrary: w)
  case Nil
  show ?case using nothing_sent by (intro exI [of _ "[]"]) (simp add: run_workers_def)
next
  case (Cons E Es)
  obtain r w' where s: "submit E i w = (r, w')" by (cases "submit E i w")
  then have run: "run_workers submit (E # Es) i w = run_workers submit Es i w'"
    by (simp add: run_workers_def)
  from submit_effect [OF Cons.prems s] show ?case
  proof
    assume "w' = w"
    with Cons.IH [OF Cons.prems] run show ?thesis by simp
  next
    assume a: "tx_available w i \<and> wf_txs w' \<and> \<not> tx_available w' i \<and>
      (\<exists>xs. burst xs \<and> w_net w' = w_net w @ xs)"
    then have "run_workers submit Es i w' = w'" by (simp add: unavailable_idle)
    with a run show ?thesis by simp
  qed
qed

text \<open>All that a run does, one of its calls does, and it does it in the state before the run.\<close>

lemma run_is_one_call:
  assumes "wf_txs w" and "run_workers submit Es i w \<noteq> w"
  obtains E r where "E \<in> set Es" "submit E i w = (r, run_workers submit Es i w)" "tx_available w i"
proof -
  have "\<exists>E \<in> set Es. \<exists>r. submit E i w = (r, run_workers submit Es i w) \<and> tx_available w i"
    using assms(2)
  proof (induction Es)
    case (Cons E Es)
    obtain r w' where s: "submit E i w = (r, w')" by (cases "submit E i w")
    then have run: "run_workers submit (E # Es) i w = run_workers submit Es i w'"
      by (simp add: run_workers_def)
    show ?case
    proof (cases "w' = w")
      case True
      with Cons run show ?thesis by auto
    next
      case False
      with submit_effect [OF assms(1) s] have a: "tx_available w i" "wf_txs w'" "\<not> tx_available w' i" by auto
      from unavailable_idle [OF a(2,3)] s run a(1) show ?thesis by simp
    qed
  qed (simp add: run_workers_def)
  with that show thesis by blast
qed

lemma settled_keys: "wf_txs w \<Longrightarrow> wf_txs (run_workers submit Es i w)"
proof (induction Es arbitrary: w)
  case (Cons E Es)
  obtain r w' where s: "submit E i w = (r, w')" by (cases "submit E i w")
  with submit_effect [OF Cons.prems s] Cons show ?case by (auto simp: run_workers_def)
qed (simp add: run_workers_def)

end

end
