(* ===== verification/Settlement.thy ===== *)
theory Settlement
  imports Transfers Submitter
begin

text \<open>
  \<^verbatim>\<open>internal/settlement/engine.go\<close>: the Stellar engine. A transfer is claimed, its payment operations are
  built and signed, the hash is recorded, and the signed envelope is submitted up to three times;
  the outcome is confirmed, rejected, or ambiguous, and an ambiguous one is looked up once by hash.
\<close>

section \<open>Configuration and environment\<close>

record engine =
  en_issuers :: "string \<rightharpoonup> string"
  en_fee_wallet :: string

text \<open>
  What the environment answers to one call of \<^verbatim>\<open>SubmitTransfer\<close>, in the order of the calls. \<open>ge_sign\<close> is
  \<^verbatim>\<open>Sign\<close> followed by nothing else; \<open>ge_hash\<close> is the hash of the signed envelope. \<open>ge_submit k\<close> is the
  library's answer to attempt \<open>k\<close>, \<open>ge_cancelled k\<close> says whether the context ended while waiting for it,
  \<open>ge_detail\<close> is the answer to the lookup by hash (whether the transaction was successful), and
  \<open>ge_balances\<close> the account's balances (code, issuer, amount), per public key.
\<close>

record settle_env =
  ge_get :: "err option"
  ge_claim :: "err option"
  ge_unsupported :: "err option"
  ge_src :: "err option"
  ge_account :: "err option"
  ge_dst :: "err option"
  ge_build :: "err option"
  ge_sign :: "err option"
  ge_hash :: "err + string"
  ge_record :: "err option"
  ge_cancelled :: "nat \<Rightarrow> err option"
  ge_submit :: "nat \<Rightarrow> err + string"
  ge_detail :: "err + bool"
  ge_final :: "err option"
  ge_failed :: "err option"
  ge_balances :: "string \<Rightarrow> err + (string \<times> string \<times> string) list"
  ge_upsert :: "err option"
  ge_collect :: "err option"
  ge_uuid :: string
  ge_now :: go_time

definition result_of :: "err option \<Rightarrow> err + unit" where
  "result_of q = (case q of Some e \<Rightarrow> Inl e | None \<Rightarrow> Inr ())"

section \<open>Parts\<close>

definition build_asset :: "engine \<Rightarrow> string \<Rightarrow> err + (string \<times> string)" where
  "build_asset en code =
     (if code = ''XLM'' then Inr (''XLM'', '''')
      else case en_issuers en code of
        None \<Rightarrow> Inl (Wrap code (Dom ErrInvalidAsset))
      | Some issuer \<Rightarrow> Inr (code, issuer))"

fun hex_value :: "nat \<Rightarrow> nat option" where
  "hex_value b = (if 48 \<le> b \<and> b \<le> 57 then Some (b - 48)
     else if 97 \<le> b \<and> b \<le> 102 then Some (b - 87)
     else if 65 \<le> b \<and> b \<le> 70 then Some (b - 55) else None)"

text \<open>\<^verbatim>\<open>hex.DecodeString\<close>: \<open>None\<close> on an odd length or a character that is no digit.\<close>

fun hex_decode :: "string \<Rightarrow> string option" where
  "hex_decode [] = Some []"
| "hex_decode [c] = None"
| "hex_decode (c # d # s) =
     (case (hex_value (of_char c), hex_value (of_char d), hex_decode s) of
        (Some h, Some l, Some bs) \<Rightarrow> Some (char_of (16 * h + l) # bs) | _ \<Rightarrow> None)"

text \<open>The payment operations: the net amount to the destination, the fee to the platform's wallet.\<close>

definition payment_ops ::
  "decimal_pkg \<Rightarrow> engine \<Rightarrow> transaction \<Rightarrow> string \<Rightarrow> string \<times> string \<Rightarrow> err + payment list" where
  "payment_ops D en t dest asset =
     (let pay = (\<lambda>d x. \<lparr>pay_dest = d, pay_asset = fst asset, pay_issuer = snd asset,
                        pay_amount = d_fixed D x 7\<rparr>);
          main = pay dest (net_amount t) in
      if tx_fee t > 0
      then if en_fee_wallet en = ''''
           then Inl (Opaque ''PLATFORM_FEE_WALLET_PUBLIC_KEY is required to collect fees'')
           else Inr [main, pay (en_fee_wallet en) (tx_fee t)]
      else Inr [main])"

definition is_retryable :: "(err \<Rightarrow> string) \<Rightarrow> err \<Rightarrow> bool" where
  "is_retryable T e =
     (let s = err_text T e in
      contains_text s ''429'' \<or> contains_text s ''503'' \<or> contains_text s ''timeout'')"

record submit_outcome =
  so_hash :: string
  so_confirmed :: bool
  so_ambiguous :: bool
  so_err :: "err option"

text \<open>
  The loop of \<^verbatim>\<open>submitWithRetry\<close>: \<open>n\<close> attempts left, \<open>k\<close> is \<^verbatim>\<open>attempt\<close>, \<open>prev\<close> is \<^verbatim>\<open>lastErr\<close>. Each attempt
  sends the same envelope.
\<close>

fun submit_loop ::
  "(err \<Rightarrow> string) \<Rightarrow> settle_env \<Rightarrow> net_effect \<Rightarrow> nat \<Rightarrow> nat \<Rightarrow> err option \<Rightarrow> world
    \<Rightarrow> submit_outcome \<times> world" where
  "submit_loop T E env 0 k prev w =
     (\<lparr>so_hash = '''', so_confirmed = False, so_ambiguous = True, so_err = prev\<rparr>, w)"
| "submit_loop T E env (Suc n) k prev w =
     (if 0 < k \<and> ge_cancelled E k \<noteq> None
      then (\<lparr>so_hash = '''', so_confirmed = False, so_ambiguous = True, so_err = ge_cancelled E k\<rparr>, w)
      else
       (let w1 = w\<lparr>w_net := w_net w @ [env]\<rparr> in
        case submit_transaction (ge_submit E k) of
          Inr h \<Rightarrow> (\<lparr>so_hash = h, so_confirmed = True, so_ambiguous = False, so_err = None\<rparr>, w1)
        | Inl e \<Rightarrow>
            if is_retryable T e then submit_loop T E env n (Suc k) (Some e) w1
            else (\<lparr>so_hash = '''', so_confirmed = False, so_ambiguous = False, so_err = Some e\<rparr>, w1)))"

definition submit_with_retry ::
  "(err \<Rightarrow> string) \<Rightarrow> settle_env \<Rightarrow> net_effect \<Rightarrow> world \<Rightarrow> submit_outcome \<times> world" where
  "submit_with_retry T E env w = submit_loop T E env 3 0 None w"

text \<open>\<^verbatim>\<open>syncWalletBalances\<close>: what cannot be parsed or stored is skipped.\<close>

definition sync_balance ::
  "decimal_pkg \<Rightarrow> numeric_col \<Rightarrow> err option \<Rightarrow> string \<Rightarrow> string \<times> string \<times> string \<Rightarrow> world \<Rightarrow> world" where
  "sync_balance D N q wid b w =
     (case b of (code, issuer, txt) \<Rightarrow>
        (case d_parse D txt of None \<Rightarrow> w
         | Some a \<Rightarrow> snd (upsert_balance N q wid (if code = '''' then ''XLM'' else code) issuer a w)))"

definition sync_wallet_balances ::
  "decimal_pkg \<Rightarrow> numeric_col \<Rightarrow> settle_env \<Rightarrow> wallet \<Rightarrow> world \<Rightarrow> world" where
  "sync_wallet_balances D N E x w =
     (case load_account (wa_public_key x) (ge_balances E (wa_public_key x)) of
        Inl e \<Rightarrow> w
      | Inr bs \<Rightarrow> fold (sync_balance D N (ge_upsert E) (wa_id x)) bs w)"

definition fee_collection_of :: "settle_env \<Rightarrow> transaction \<Rightarrow> fee_collection" where
  "fee_collection_of E t =
     \<lparr>fc_id = ge_uuid E, fc_tx = tx_id t, fc_tenant = tx_tenant t, fc_amount = tx_fee t,
      fc_asset = tx_asset t, fc_bps = tx_fee_bps t, fc_at = ge_now E\<rparr>"

definition finalize_confirmed ::
  "decimal_pkg \<Rightarrow> numeric_col \<Rightarrow> ctx \<Rightarrow> settle_env \<Rightarrow> transaction \<Rightarrow> string \<Rightarrow> wallet \<Rightarrow> wallet
    \<Rightarrow> world \<Rightarrow> world" where
  "finalize_confirmed D N c E t h src dst w =
     (let w1 = snd (update_status c (ge_final E) (tx_id t) StatusConfirmed h w);
          w2 = sync_wallet_balances D N E dst (sync_wallet_balances D N E src w1)
      in if tx_fee t > 0 then snd (record_collection N (ge_collect E) (fee_collection_of E t) w2)
         else w2)"

definition try_resolve_ambiguous ::
  "decimal_pkg \<Rightarrow> numeric_col \<Rightarrow> ctx \<Rightarrow> settle_env \<Rightarrow> transaction \<Rightarrow> string \<Rightarrow> wallet \<Rightarrow> wallet
    \<Rightarrow> world \<Rightarrow> bool \<times> world" where
  "try_resolve_ambiguous D N c E t h src dst w =
     (case transaction_detail (ge_detail E) of
        Inl e \<Rightarrow> (False, w)
      | Inr ok \<Rightarrow>
          if ok then (True, finalize_confirmed D N c E t h src dst w)
          else (True, snd (update_status c (ge_failed E) (tx_id t) StatusFailed h w)))"

section \<open>Submitting a transfer\<close>

text \<open>Everything between the claim and the network: the wallets, the operations, the envelope's hash.\<close>

definition prepare ::
  "decimal_pkg \<Rightarrow> ctx \<Rightarrow> engine \<Rightarrow> settle_env \<Rightarrow> transaction \<Rightarrow> world
    \<Rightarrow> err + (wallet \<times> wallet \<times> payment list \<times> string)" where
  "prepare D c en E t w =
     (case get_wallet c (ge_src E) (tx_from t) w of
        Inl e \<Rightarrow> Inl (Wrap ''load source wallet'' e) | Inr src \<Rightarrow>
     (case load_account (wa_public_key src) (result_of (ge_account E)) of
        Inl e \<Rightarrow> Inl (Wrap ''load stellar account'' e) | Inr _ \<Rightarrow>
     (case get_wallet c (ge_dst E) (tx_to t) w of
        Inl e \<Rightarrow> Inl (Wrap ''load destination wallet'' e) | Inr dst \<Rightarrow>
     (case build_asset en (tx_asset t) of
        Inl e \<Rightarrow> Inl e | Inr asset \<Rightarrow>
     (case payment_ops D en t (wa_public_key dst) asset of
        Inl e \<Rightarrow> Inl e | Inr ops \<Rightarrow>
     (case ge_build E of
        Some e \<Rightarrow> Inl (Wrap ''build transaction'' e) | None \<Rightarrow>
     (case hex_decode (wa_secret src) of
        None \<Rightarrow> Inl (Wrap ''decode encrypted secret'' (Opaque ''encoding/hex'')) | Some secret \<Rightarrow>
     (case ge_sign E of
        Some e \<Rightarrow> Inl (Wrap ''sign transaction'' e) | None \<Rightarrow>
     (case ge_hash E of
        Inl e \<Rightarrow> Inl (Wrap ''compute transaction hash'' e)
      | Inr h \<Rightarrow> Inr (src, dst, ops, h))))))))))"

text \<open>What happens to the outcome of the submission.\<close>

definition settle_outcome ::
  "decimal_pkg \<Rightarrow> numeric_col \<Rightarrow> ctx \<Rightarrow> settle_env \<Rightarrow> transaction \<Rightarrow> string \<Rightarrow> wallet \<Rightarrow> wallet
    \<Rightarrow> submit_outcome \<Rightarrow> world \<Rightarrow> err option \<times> world" where
  "settle_outcome D N c E t h src dst so w =
     (if so_confirmed so then (None, finalize_confirmed D N c E t h src dst w)
      else if so_ambiguous so
      then (case try_resolve_ambiguous D N c E t h src dst w of
              (True, w') \<Rightarrow> (None, w')
            | (False, w') \<Rightarrow>
                (Some (Wrap ''submit to stellar: ambiguous outcome, awaiting reconciliation''
                   (the_default (Opaque ''<nil>'') (so_err so))), w'))
      else (Some (Wrap ''submit to stellar'' (the_default (Opaque ''<nil>'') (so_err so))),
            snd (update_status c (ge_failed E) (tx_id t) StatusFailed h w)))"

text \<open>What a worker does with a transfer it has claimed.\<close>

definition after_claim ::
  "decimal_pkg \<Rightarrow> numeric_col \<Rightarrow> (err \<Rightarrow> string) \<Rightarrow> ctx \<Rightarrow> engine \<Rightarrow> settle_env \<Rightarrow> transaction \<Rightarrow> world
    \<Rightarrow> err option \<times> world" where
  "after_claim D N T c en E t w1 =
     (if tx_to_address t \<noteq> ''''
      then (Some (Opaque (''external payout to '' @ tx_to_address t @ '' is not supported on the Stellar settlement backend'')),
            snd (update_status c (ge_unsupported E) (tx_id t) StatusFailed '''' w1))
      else
     (case prepare D c en E t w1 of
        Inl e \<Rightarrow> (Some e, w1)
      | Inr (src, dst, ops, h) \<Rightarrow>
         (let w2 = snd (update_status c (ge_record E) (tx_id t) StatusSubmitted h w1);
              (so, w3) = submit_with_retry T E (StellarSubmit h ops) w2
          in settle_outcome D N c E t h src dst so w3)))"

definition submit_transfer ::
  "decimal_pkg \<Rightarrow> numeric_col \<Rightarrow> (err \<Rightarrow> string) \<Rightarrow> ctx \<Rightarrow> engine \<Rightarrow> settle_env \<Rightarrow> string \<Rightarrow> world
    \<Rightarrow> err option \<times> world" where
  "submit_transfer D N T c en E i w =
     (case get_tx c (ge_get E) i w of
        Inl e \<Rightarrow> (Some (Wrap ''load transaction'' e), w)
      | Inr t \<Rightarrow>
     (case claim_for_submission (ge_claim E) i w of
        (Some e, w1) \<Rightarrow>
          if err_is e (Dom ErrConcurrentUpdate) then (None, w1)
          else (Some (Wrap ''claim transaction for submission'' e), w1)
      | (None, w1) \<Rightarrow> after_claim D N T c en E t w1))"

section \<open>What each step leaves alone\<close>

lemma upsert_balance_same [simp]:
  "w_txs (snd (upsert_balance N q wid cd iss a w)) = w_txs w"
  "w_net (snd (upsert_balance N q wid cd iss a w)) = w_net w"
  "w_collections (snd (upsert_balance N q wid cd iss a w)) = w_collections w"
  by (simp_all add: upsert_balance_def Let_def split: option.splits)

lemma sync_balance_same [simp]:
  "w_txs (sync_balance D N q wid b w) = w_txs w" "w_net (sync_balance D N q wid b w) = w_net w"
  "w_collections (sync_balance D N q wid b w) = w_collections w"
  by (cases b; simp add: sync_balance_def split: option.splits)+

lemma fold_sync_same:
  "w_txs (fold (sync_balance D N q wid) bs w) = w_txs w"
  "w_net (fold (sync_balance D N q wid) bs w) = w_net w"
  "w_collections (fold (sync_balance D N q wid) bs w) = w_collections w"
  by (induction bs arbitrary: w) simp_all

lemma sync_wallet_balances_same [simp]:
  "w_txs (sync_wallet_balances D N E x w) = w_txs w"
  "w_net (sync_wallet_balances D N E x w) = w_net w"
  "w_collections (sync_wallet_balances D N E x w) = w_collections w"
  by (simp_all add: sync_wallet_balances_def fold_sync_same split: sum.splits)

lemma record_collection_same [simp]:
  "w_txs (snd (record_collection N q f w)) = w_txs w"
  "w_net (snd (record_collection N q f w)) = w_net w"
  by (simp_all add: record_collection_def split: option.splits)

lemma update_status_net [simp]: "w_net (snd (update_status c q i st h w)) = w_net w"
  using update_status_same [of c q i st h w] by (cases "update_status c q i st h w") simp

lemma claim_net [simp]: "w_net (snd (claim_for_submission q i w)) = w_net w"
  by (auto simp: claim_for_submission_def guarded_update_def split: option.splits)

lemma finalize_confirmed_txs:
  "w_txs (finalize_confirmed D N c E t h src dst w)
    = w_txs (snd (update_status c (ge_final E) (tx_id t) StatusConfirmed h w))"
  "w_net (finalize_confirmed D N c E t h src dst w) = w_net w"
  by (simp_all add: finalize_confirmed_def Let_def)

text \<open>The net sees at most \<open>n\<close> copies of the one envelope, and nothing else changes.\<close>

lemma submit_loop_net:
  assumes "submit_loop T E env n k prev w = (so, w')"
  shows "\<exists>m \<le> n. w' = w\<lparr>w_net := w_net w @ replicate m env\<rparr>"
  using assms
proof (induction n arbitrary: k prev w)
  case 0
  then show ?case by simp
next
  case (Suc n)
  let ?w1 = "w\<lparr>w_net := w_net w @ [env]\<rparr>"
  consider (stopped) "w' = w" | (once) "w' = ?w1"
    | (more) e where "submit_loop T E env n (Suc k) (Some e) ?w1 = (so, w')"
    using Suc.prems by (auto simp: Let_def split: if_splits sum.splits)
  then show ?case
  proof cases
    case stopped
    then show ?thesis by (intro exI [of _ 0]) simp
  next
    case once
    then show ?thesis by (intro exI [of _ 1]) simp
  next
    case more
    from Suc.IH [OF this] obtain m where "m \<le> n" "w' = ?w1\<lparr>w_net := w_net ?w1 @ replicate m env\<rparr>"
      by blast
    then show ?thesis by (intro exI [of _ "Suc m"]) simp
  qed
qed


section \<open>Availability\<close>

lemma update_status_available:
  assumes "\<not> tx_available w i" and "st \<noteq> StatusPending"
  shows "\<not> tx_available (snd (update_status c q j st h w)) i"
proof (cases "update_status c q j st h w")
  case (Pair r w')
  show ?thesis
  proof (cases r)
    case None
    with Pair assms update_status_effect [of c q j st h w w' i] show ?thesis
      by (auto simp: tx_available_def)
  next
    case (Some e)
    with Pair assms(1) update_status_failed [of c q j st h w e w'] show ?thesis by simp
  qed
qed

lemma tx_available_cong: "w_txs w' = w_txs w \<Longrightarrow> tx_available w' i = tx_available w i"
  by (simp add: tx_available_def)

lemma wf_txs_cong: "w_txs w' = w_txs w \<Longrightarrow> wf_txs w' = wf_txs w"
  by (simp add: wf_txs_def)

text \<open>The part after the network: it sends nothing, keeps the keys, and never makes a transfer pending.\<close>

lemma finalize_keeps:
  assumes "wf_txs w" and "\<not> tx_available w i"
  shows "wf_txs (finalize_confirmed D N c E t h src dst w)"
    and "\<not> tx_available (finalize_confirmed D N c E t h src dst w) i"
  using wf_update_status [OF assms(1)]
    update_status_available [OF assms(2), of StatusConfirmed c "ge_final E" "tx_id t" h]
  by (simp_all add: wf_txs_def tx_available_def finalize_confirmed_txs)

lemma settle_outcome_cases:
  assumes "settle_outcome D N c E t h src dst so w = (r, w')"
  obtains (confirmed) "w' = finalize_confirmed D N c E t h src dst w"
      "so_confirmed so \<or> so_ambiguous so \<and> ge_detail E = Inr True"
  | (failed) "w' = snd (update_status c (ge_failed E) (tx_id t) StatusFailed h w)"
      "\<not> so_confirmed so" "\<not> so_ambiguous so \<or> ge_detail E = Inr False"
  | (open_end) "w' = w" "so_ambiguous so" "\<not> so_confirmed so" "\<exists>e. ge_detail E = Inl e" "r \<noteq> None"
  using assms
  by (cases "ge_detail E")
     (auto simp: settle_outcome_def try_resolve_ambiguous_def split: if_splits)

lemma settle_outcome_keeps:
  assumes "settle_outcome D N c E t h src dst so w = (r, w')" and "wf_txs w" and "\<not> tx_available w i"
  shows "wf_txs w' \<and> \<not> tx_available w' i \<and> w_net w' = w_net w"
  using assms(1)
proof (cases rule: settle_outcome_cases)
  case confirmed
  then show ?thesis using finalize_keeps [OF assms(2,3)] finalize_confirmed_txs by simp
next
  case failed
  then show ?thesis using wf_update_status [OF assms(2)] update_status_available [OF assms(3)] by simp
next
  case open_end
  then show ?thesis using assms(2,3) by simp
qed

section \<open>The effect of a submission\<close>

lemma get_tx_Inr:
  assumes "get_tx c q i w = Inr t" and "wf_txs w"
  obtains r where "tx_of w i = Some r" "t = read_tx r" "in_scope c (tx_tenant r)" "q = None"
proof -
  from assms(1) obtain r where f: "find (\<lambda>r. tx_id r = i \<and> in_scope c (tx_tenant r)) (w_txs w) = Some r"
    and t: "t = read_tx r" "q = None"
    by (auto simp: get_tx_def split: option.splits)
  then have m: "r \<in> set (w_txs w)" and r: "tx_id r = i" "in_scope c (tx_tenant r)"
    by (auto simp: find_Some_iff)
  with assms(2) row_with_unique [of tx_id "w_txs w" r] have "tx_of w i = Some r"
    by (simp add: wf_txs_def)
  with t r that show ?thesis by simp
qed

lemma get_tx_found:
  assumes "wf_txs w" and "tx_of w i = Some r" and "in_scope c (tx_tenant r)"
  shows "get_tx c None i w = Inr (read_tx r)"
proof -
  have "r \<in> set (w_txs w)" "tx_id r = i" using assms(2) by (auto dest: row_with_SomeD)
  with assms(3) obtain t where "get_tx c None i w = Inr t"
    by (cases "find (\<lambda>r. tx_id r = i \<and> in_scope c (tx_tenant r)) (w_txs w)")
       (auto simp: get_tx_def find_None_iff)
  with get_tx_Inr [OF this assms(1)] assms(2) show ?thesis by auto
qed

lemma payment_ops_amounts:
  assumes "payment_ops D en t dest asset = Inr ops"
  shows "map pay_amount ops = map (\<lambda>x. d_fixed D x 7)
      (if tx_fee t > 0 then [tx_amount t - tx_fee t, tx_fee t] else [tx_amount t - tx_fee t])"
    and "map pay_dest ops = (if tx_fee t > 0 then [dest, en_fee_wallet en] else [dest])"
  using assms by (auto simp: payment_ops_def Let_def net_amount_def split: if_splits)

lemma submit_transfer_cases:
  assumes "submit_transfer D N T c en E i w = (res, w')" and "wf_txs w"
  obtains (idle) "w' = w" "res = None \<and> ge_claim E = None \<longrightarrow> \<not> tx_available w i"
  | (stopped) r w1 where "tx_of w i = Some r" "tx_status r = StatusPending"
      "claim_for_submission None i w = (None, w1)" "res \<noteq> None" "w' = w1"
  | (payout) r w1 where "tx_of w i = Some r" "tx_status r = StatusPending" "tx_to_address r \<noteq> ''''"
      "claim_for_submission None i w = (None, w1)" "res \<noteq> None"
      "w' = snd (update_status c (ge_unsupported E) i StatusFailed '''' w1)"
  | (sent) r w1 src dst ops h so w3 m where "tx_of w i = Some r" "tx_status r = StatusPending"
      "tx_to_address r = ''''" "claim_for_submission None i w = (None, w1)"
      "prepare D c en E (read_tx r) w1 = Inr (src, dst, ops, h)"
      "w3 = (snd (update_status c (ge_record E) i StatusSubmitted h w1))
              \<lparr>w_net := w_net w @ replicate m (StellarSubmit h ops)\<rparr>" "m \<le> 3"
      "submit_with_retry T E (StellarSubmit h ops)
         (snd (update_status c (ge_record E) i StatusSubmitted h w1)) = (so, w3)"
      "settle_outcome D N c E (read_tx r) h src dst so w3 = (res, w')"
proof (cases "get_tx c (ge_get E) i w")
  case (Inl e)
  with assms(1) idle show ?thesis by (auto simp: submit_transfer_def)
next
  case (Inr t)
  note get = Inr
  obtain r where r: "tx_of w i = Some r" "t = read_tx r"
    using get_tx_Inr [OF get assms(2)] by blast
  obtain q w1 where cl: "claim_for_submission (ge_claim E) i w = (q, w1)"
    by (cases "claim_for_submission (ge_claim E) i w")
  show ?thesis
  proof (cases q)
    case (Some e)
    have w1: "w1 = w" using claim_failed [of "ge_claim E" i w e w1] cl Some by simp
    have "ge_claim E = None \<longrightarrow> \<not> tx_available w i"
      using cl Some claim_succeeds_iff [OF assms(2), of i] by auto
    with assms(1) get cl Some w1 idle show ?thesis
      by (cases "err_is e (Dom ErrConcurrentUpdate)") (auto simp: submit_transfer_def)
  next
    case None
    have ti: "tx_id t = i" using r row_with_SomeD by (fastforce simp: read_tx_def)
    have run: "after_claim D N T c en E t w1 = (res, w')"
      using assms(1) get cl None by (simp add: submit_transfer_def)
    have cl': "claim_for_submission None i w = (None, w1)"
      using cl None by (auto simp: claim_for_submission_def guarded_update_def split: option.splits if_splits)
    then have p: "tx_status r = StatusPending"
      using claim_succeeds_iff [OF assms(2), of i] r by (auto simp: tx_available_def)
    show ?thesis
    proof (cases "tx_to_address r = ''''")
      case False
      with run ti r(2) payout [OF r(1) p False cl'] show ?thesis
        by (auto simp: after_claim_def read_tx_def)
    next
      case True
      then have ta: "tx_to_address t = ''''" by (simp add: r(2) read_tx_def)
      show ?thesis
      proof (cases "prepare D c en E t w1")
        case (Inl e)
        with run ta stopped [OF r(1) p cl'] show ?thesis by (auto simp: after_claim_def)
      next
        case (Inr x)
        obtain src dst ops h where x: "x = (src, dst, ops, h)" by (cases x)
        let ?w2 = "snd (update_status c (ge_record E) i StatusSubmitted h w1)"
        obtain so w3 where s: "submit_with_retry T E (StellarSubmit h ops) ?w2 = (so, w3)"
          by (cases "submit_with_retry T E (StellarSubmit h ops) ?w2")
        obtain m where m: "m \<le> 3" "w3 = ?w2\<lparr>w_net := w_net ?w2 @ replicate m (StellarSubmit h ops)\<rparr>"
          using submit_loop_net s by (metis submit_with_retry_def)
        have "w_net ?w2 = w_net w" using claim_net [of None i w] cl' by simp
        moreover have "settle_outcome D N c E t h src dst so w3 = (res, w')"
          using run ta Inr x s ti by (simp add: after_claim_def)
        ultimately show ?thesis using sent [OF r(1) p True cl' _ _ m(1) s] Inr x m r(2) by simp
      qed
    qed
  qed
qed

text \<open>
  One call: the claimed transfer is no longer available, and the network has seen at most three
  copies of one envelope; without a claim nothing has changed.
\<close>

lemma claimed_keeps:
  assumes "claim_for_submission None i w = (None, w1)" and "wf_txs w"
  shows "wf_txs w1" and "\<not> tx_available w1 i" and "w_net w1 = w_net w"
  using claims.act_inv [OF assms(2), of i] claims.act_uses_up [OF assms(2,1)] claim_net [of None i w]
    assms(1) by simp_all

lemma submit_transfer_effect:
  assumes "submit_transfer D N T c en E i w = (res, w')" and "wf_txs w"
  shows "w' = w \<or> tx_available w i \<and> wf_txs w' \<and> \<not> tx_available w' i \<and>
    (\<exists>m h ops. m \<le> 3 \<and> w_net w' = w_net w @ replicate m (StellarSubmit h ops))"
  using assms
proof (cases rule: submit_transfer_cases)
  case (stopped r w1)
  note k = claimed_keeps [OF stopped(3) assms(2)]
  then show ?thesis
    using stopped(1,2,5) by (auto simp: tx_available_def intro!: exI [of _ 0])
next
  case (payout r w1)
  note k = claimed_keeps [OF payout(4) assms(2)]
  have "wf_txs w' \<and> \<not> tx_available w' i \<and> w_net w' = w_net w"
    using payout(6) k wf_update_status [OF k(1)] update_status_available [OF k(2)] by auto
  then show ?thesis
    using payout(1,2) by (auto simp: tx_available_def intro!: exI [of _ 0])
next
  case (sent r w1 src dst ops h so w3 m)
  note k = claimed_keeps [OF sent(4) assms(2)]
  let ?w2 = "snd (update_status c (ge_record E) i StatusSubmitted h w1)"
  have "w_txs w3 = w_txs ?w2" using sent(6) by simp
  then have "wf_txs w3" "\<not> tx_available w3 i"
    using wf_update_status [OF k(1)] update_status_available [OF k(2), of StatusSubmitted]
      wf_txs_cong tx_available_cong by blast+
  from settle_outcome_keeps [OF sent(9) this] sent(1,2,6,7) show ?thesis
    by (auto simp: tx_available_def)
qed simp

text \<open>One settlement on Stellar: at most three copies of one envelope.\<close>

definition stellar_burst :: "net_effect list \<Rightarrow> bool" where
  "stellar_burst xs \<longleftrightarrow> (\<exists>m h ops. m \<le> 3 \<and> xs = replicate m (StellarSubmit h ops))"

interpretation stellar: submitter "submit_transfer D N T c en" stellar_burst for D N T c en
proof unfold_locales
  show "stellar_burst []" unfolding stellar_burst_def by (intro exI [of _ 0]) simp
  fix w E i r w'
  assume "wf_txs w" and "submit_transfer D N T c en E i w = (r, w')"
  then show "w' = w \<or> tx_available w i \<and> wf_txs w' \<and> \<not> tx_available w' i \<and>
      (\<exists>xs. stellar_burst xs \<and> w_net w' = w_net w @ xs)"
    using submit_transfer_effect [of D N T c en E i w r w'] by (auto simp: stellar_burst_def)
qed

section \<open>The verdict on a transfer\<close>

lemma read_tx_simps [simp]:
  "tx_id (read_tx r) = tx_id r" "tx_amount (read_tx r) = tx_amount r" "tx_fee (read_tx r) = tx_fee r"
  "tx_tenant (read_tx r) = tx_tenant r" "tx_to_address (read_tx r) = tx_to_address r"
  "tx_status (read_tx r) = tx_status r" "tx_hash (read_tx r) = tx_hash r" "tx_from (read_tx r) = tx_from r"
  "tx_to (read_tx r) = tx_to r" "tx_asset (read_tx r) = tx_asset r"
  by (simp_all add: read_tx_def)

text \<open>The status of a row after \<^verbatim>\<open>UpdateStatus\<close>, whether it succeeded or not.\<close>

lemma update_status_row:
  assumes "tx_of w i = Some r"
  obtains r' where "tx_of (snd (update_status c q j st h w)) i = Some r'"
    "r' = r \<or> i = j \<and> tx_status r' = st \<and> tx_hash r' = h"
proof (cases "update_status c q j st h w")
  case (Pair e w')
  show ?thesis
  proof (cases e)
    case None
    with Pair assms update_status_effect [of c q j st h w w' i] that show ?thesis by auto
  next
    case (Some x)
    with Pair assms update_status_failed [of c q j st h w x w'] that show ?thesis by simp
  qed
qed


lemma claimed_row:
  assumes "claim_for_submission None i w = (None, w1)" and "tx_of w i = Some r"
    and "tx_status r = StatusPending"
  shows "tx_of w1 i = Some (r\<lparr>tx_status := StatusSubmitted\<rparr>)"
  using claim_effect [OF assms(1), of i] assms(2,3) by simp


text \<open>
  The hash is on record before the first attempt: whenever the write goes through and no other row
  has this hash, the row holds it from then on, whatever the outcome.
\<close>

lemma update_status_hash:
  assumes "tx_of w i = Some r" and "tx_hash r = h"
  shows "\<exists>r'. tx_of (snd (update_status c q i st h w)) i = Some r' \<and> tx_hash r' = h"
  using update_status_row [OF assms(1), of c q i st h] assms(2) by metis

lemma hash_recorded:
  assumes "claim_for_submission None i w = (None, w1)" and "tx_of w i = Some r"
    and "tx_status r = StatusPending" and "in_scope c (tx_tenant r)" and "\<not> hash_taken i h w1"
  shows "tx_of (snd (update_status c None i StatusSubmitted h w1)) i
    = Some (r\<lparr>tx_status := StatusSubmitted, tx_hash := h\<rparr>)"
proof -
  obtain e w2 where u: "update_status c None i StatusSubmitted h w1 = (e, w2)"
    by (cases "update_status c None i StatusSubmitted h w1")
  with assms(5) have "e = None" by (auto simp: update_status_def Let_def split: if_splits)
  with u update_status_effect [of c None i StatusSubmitted h w1 w2 i] claimed_row [OF assms(1-3)] assms(4)
  show ?thesis by simp
qed

text \<open>
  A rejection that follows an attempt without an answer counts as definitive: the retry loop reports
  only the last attempt.
\<close>

lemma submit_after_timeout:
  assumes "ge_submit E 0 = Inl e0" and "is_retryable T (Wrap ''submit transaction'' e0)"
    and "ge_cancelled E 1 = None"
    and "ge_submit E 1 = Inl e1" and "\<not> is_retryable T (Wrap ''submit transaction'' e1)"
  shows "submit_with_retry T E env w =
    (\<lparr>so_hash = '''', so_confirmed = False, so_ambiguous = False,
      so_err = Some (Wrap ''submit transaction'' e1)\<rparr>, w\<lparr>w_net := w_net w @ [env, env]\<rparr>)"
  using assms by (simp add: submit_with_retry_def numeral_3_eq_3)

section \<open>Properties\<close>

lemma hash_taken_keys:
  "hash_taken i h w \<longleftrightarrow> h \<noteq> '''' \<and>
     (\<exists>k \<in> set (map (\<lambda>r. (tx_id r, tx_hash r)) (w_txs w)). fst k \<noteq> i \<and> snd k = h)"
  by (auto simp: hash_taken_def)

lemma hash_taken_set_txs:
  assumes "\<And>r. tx_id (f r) = tx_id r \<and> tx_hash (f r) = tx_hash r"
  shows "hash_taken i h (set_txs P f w) = hash_taken i h w"
proof -
  have "map (\<lambda>r. (tx_id r, tx_hash r)) (update_where P f (w_txs w)) = map (\<lambda>r. (tx_id r, tx_hash r)) (w_txs w)"
    using assms by (intro map_key_update_where) simp
  then show ?thesis unfolding hash_taken_keys set_txs_def by simp
qed

lemma update_status_own_hash:
  assumes "\<not> hash_taken i h w"
  shows "\<not> hash_taken i h (snd (update_status c q i st h w))"
proof -
  obtain e w' where u: "update_status c q i st h w = (e, w')" by (cases "update_status c q i st h w")
  then show ?thesis
  proof (cases rule: update_status_cases)
    case hit
    then have "\<forall>r \<in> set (w_txs w'). tx_id r \<noteq> i \<longrightarrow> r \<in> set (w_txs w)"
      by (auto simp: set_txs_def set_update_where)
    with u assms show ?thesis unfolding hash_taken_def by auto
  qed (use u assms in simp)
qed

text \<open>
  A submission that reached the network leaves the hash of the envelope in the row, if the write of the
  hash goes through and no other row has it.
\<close>

lemma sent_hash:
  assumes "submit_transfer D N T c en E i w = (res, w')" and "wf_txs w" and "tx_of w i = Some r"
    and "w_net w' \<noteq> w_net w" and "in_scope c (tx_tenant r)" and "ge_record E = None"
    and "ge_hash E = Inr h" and "\<not> hash_taken i h w"
  shows "\<exists>r'. tx_of w' i = Some r' \<and> tx_hash r' = h"
  using assms(1,2)
proof (cases rule: submit_transfer_cases)
  case (sent q w1 src dst ops g so w3 m)
  have g: "g = h" using sent(5) assms(7) by (auto simp: prepare_def split: sum.splits option.splits)
  have q: "q = r" and id: "tx_id q = i" using sent(1) assms(3) by (auto dest: row_with_SomeD)
  have "\<not> hash_taken i h w1"
    using sent(4) assms(8)
    by (auto simp: claim_for_submission_def guarded_update_def hash_taken_set_txs split: option.splits if_splits)
  from hash_recorded [OF sent(4) assms(3) sent(2) [unfolded q] assms(5) this]
  obtain r3 where r3: "tx_of w3 i = Some r3" "tx_hash r3 = h"
    using sent(6) assms(6) g by simp
  from sent(9) show ?thesis
  proof (cases rule: settle_outcome_cases)
    case confirmed
    with update_status_hash [OF r3] id g show ?thesis by (simp add: finalize_confirmed_txs)
  next
    case failed
    with update_status_hash [OF r3] id g show ?thesis by simp
  next
    case open_end
    with r3 show ?thesis by simp
  qed
qed (use assms(2,4) claimed_keeps(3) in \<open>auto\<close>)

definition sample_engine :: engine where
  "sample_engine = \<lparr>en_issuers = Map.empty, en_fee_wallet = ''GF''\<rparr>"

definition sample_settle_env :: settle_env where
  "sample_settle_env = \<lparr>ge_get = None, ge_claim = None, ge_unsupported = None, ge_src = None, ge_account = None,
     ge_dst = None, ge_build = None, ge_sign = None, ge_hash = Inr ''h1'', ge_record = None,
     ge_cancelled = (\<lambda>_. None), ge_submit = (\<lambda>_. Inr ''h1''), ge_detail = Inl (Opaque ''not found''),
     ge_final = None, ge_failed = None, ge_balances = (\<lambda>_. Inr []), ge_upsert = None, ge_collect = None,
     ge_uuid = ''f'', ge_now = 0\<rparr>"

abbreviation sample_submit :: "settle_env \<Rightarrow> string \<Rightarrow> world \<Rightarrow> err option \<times> world" where
  "sample_submit E \<equiv> submit_transfer reference_pkg exact_numeric (\<lambda>_. ''other'') no_tenant sample_engine E"

text \<open>
  C1: however often the queue delivers a transfer, and whatever the workers that take it meet, the
  network sees at most three copies of one signed envelope: the transfer is settled at most once.
\<close>

theorem settled_at_most_once:
  assumes "wf_txs w"
  shows "\<exists>m h ops. m \<le> 3 \<and>
    w_net (run_workers (submit_transfer D N T c en) Es i w) = w_net w @ replicate m (StellarSubmit h ops)"
  using stellar.settled_once [OF assms, of D N T c en Es i] unfolding stellar_burst_def by blast

lemma settled_at_most_once_witness:
  "\<exists>m h ops. m \<le> 3 \<and>
    w_net (run_workers (submit_transfer reference_pkg exact_numeric (\<lambda>_. ''other'') no_tenant sample_engine)
      [sample_settle_env, sample_settle_env] ''t'' (sample_world StatusPending)) =
    w_net (sample_world StatusPending) @ replicate m (StellarSubmit h ops)"
  by (rule settled_at_most_once [OF sample_world_wf])



text \<open>
  A submission that reached the network leaves the hash of its envelope in the row, whatever the
  outcome, provided the write of the hash goes through and no other row has that hash; that is what
  lets the reconciler find out later what became of it.
\<close>

theorem sent_hash_recorded:
  assumes "submit_transfer D N T c en E i w = (res, w')" and "wf_txs w" and "tx_of w i = Some r"
    and "w_net w' \<noteq> w_net w" and "in_scope c (tx_tenant r)" and "ge_record E = None"
    and "ge_hash E = Inr h" and "\<not> hash_taken i h w"
  shows "\<exists>r'. tx_of w' i = Some r' \<and> tx_hash r' = h"
  by (rule sent_hash [OF assms])

lemma sent_hash_recorded_witness:
  "\<exists>r'. tx_of (snd (sample_submit (sample_settle_env\<lparr>ge_submit := \<lambda>_. Inl (Opaque ''timeout'')\<rparr>) ''t''
     (sample_world StatusPending))) ''t'' = Some r' \<and> tx_hash r' = ''h1''"
proof -
  let ?E = "sample_settle_env\<lparr>ge_submit := \<lambda>_. Inl (Opaque ''timeout'')\<rparr>"
  let ?r = "sample_submit ?E ''t'' (sample_world StatusPending)"
  have r: "?r = (fst ?r, snd ?r)" by simp
  have n: "w_net (snd ?r) \<noteq> w_net (sample_world StatusPending)" by code_simp
  have "\<not> hash_taken ''t'' ''h1'' (sample_world StatusPending)"
    by (simp add: hash_taken_def sample_world_def sample_tx_def)
  from sent_hash_recorded [OF r sample_world_wf sample_world_tx n _ _ _ this] show ?thesis
    by (simp add: sample_settle_env_def)
qed

text \<open>
  Without that write the protection is gone. If recording the hash fails the envelope is sent all
  the same; with the outcome unknown the row stays submitted without a hash, the recovery puts it back
  to pending, and the next worker sends a second, different envelope: the payment is made twice.
\<close>

theorem unrecorded_hash_pays_twice:
  "let E1 = sample_settle_env\<lparr>ge_record := Some (Opaque ''down''), ge_submit := \<lambda>_. Inl (Opaque ''timeout'')\<rparr>;
       E2 = sample_settle_env\<lparr>ge_hash := Inr ''h2'', ge_submit := \<lambda>_. Inr ''h2''\<rparr>;
       w1 = snd (sample_submit E1 ''t'' (sample_world StatusPending));
       w2 = snd (reset_stuck_submitted None 1000 ''t'' 10 w1);
       w3 = snd (sample_submit E2 ''t'' w2)
   in map (\<lambda>x. case x of StellarSubmit h ops \<Rightarrow> (h, map pay_dest ops) | EvmTransfer a b c \<Rightarrow> ('''', [])) (w_net w3)
     = [(''h1'', [''GB'', ''GF'']), (''h1'', [''GB'', ''GF'']), (''h1'', [''GB'', ''GF'']), (''h2'', [''GB'', ''GF''])]"
  by code_simp

text \<open>
  An attempt without an answer that is followed by an outright rejection is reported as a
  rejection: the row is marked failed although the first copy may have been applied.
\<close>

theorem rejection_after_timeout_fails:
  assumes "wf_txs w" and "tx_of w i = Some r" and "tx_status r = StatusPending" and "tx_to_address r = ''''"
    and "in_scope c (tx_tenant r)" and "ge_get E = None" and "ge_claim E = None"
    and "claim_for_submission None i w = (None, w1)"
    and "prepare D c en E (read_tx r) w1 = Inr (src, dst, ops, h)" and "\<not> hash_taken i h w1"
    and "ge_record E = None" and "ge_failed E = None" and "ge_cancelled E 1 = None"
    and "ge_submit E 0 = Inl e0" and "is_retryable T (Wrap ''submit transaction'' e0)"
    and "ge_submit E 1 = Inl e1" and "\<not> is_retryable T (Wrap ''submit transaction'' e1)"
  shows "\<exists>w' r'. submit_transfer D N T c en E i w =
      (Some (Wrap ''submit to stellar'' (Wrap ''submit transaction'' e1)), w') \<and>
    w_net w' = w_net w @ [StellarSubmit h ops, StellarSubmit h ops] \<and>
    tx_of w' i = Some r' \<and> tx_status r' = StatusFailed"
proof -
  have id: "tx_id r = i" using assms(2) by (auto dest: row_with_SomeD)
  have get: "get_tx c None i w = Inr (read_tx r)"
    by (rule get_tx_found [OF assms(1,2,5)])
  let ?w2 = "snd (update_status c None i StatusSubmitted h w1)"
  note r2 = hash_recorded [OF assms(8,2,3,5,10)]
  let ?w3 = "?w2\<lparr>w_net := w_net ?w2 @ [StellarSubmit h ops, StellarSubmit h ops]\<rparr>"
  have n: "w_net ?w2 = w_net w" using claimed_keeps(3) [OF assms(8,1)] by simp
  have run: "submit_transfer D N T c en E i w =
      (Some (Wrap ''submit to stellar'' (Wrap ''submit transaction'' e1)),
       snd (update_status c None i StatusFailed h ?w3))"
    using assms(4,6,7,8,9,11,12) get id
    by (simp add: submit_transfer_def after_claim_def submit_after_timeout [OF assms(14,15,13,16,17)]
        settle_outcome_def)
  have r3: "tx_of ?w3 i = Some (r\<lparr>tx_status := StatusSubmitted, tx_hash := h\<rparr>)" using r2 by simp
  have "\<not> hash_taken i h ?w3" using update_status_own_hash [OF assms(10)] by (simp add: hash_taken_def)
  then obtain w4 where u: "update_status c None i StatusFailed h ?w3 = (None, w4)"
    by (cases "update_status c None i StatusFailed h ?w3") (auto simp: update_status_def Let_def split: if_splits)
  from update_status_effect [OF u, of i] r3 assms(5) show ?thesis
    using run [unfolded u snd_conv] update_status_net [of c None i StatusFailed h ?w3, unfolded u snd_conv] n
    by simp
qed

lemma rejection_after_timeout_fails_witness:
  "\<exists>w' r'. sample_submit (sample_settle_env\<lparr>ge_submit := \<lambda>k. if k = 0 then Inl (Opaque ''timeout'')
       else Inl (Opaque ''tx_failed'')\<rparr>) ''t'' (sample_world StatusPending) =
      (Some (Wrap ''submit to stellar'' (Wrap ''submit transaction'' (Opaque ''tx_failed''))), w') \<and>
    length (w_net w') = 2 \<and> tx_of w' ''t'' = Some r' \<and> tx_status r' = StatusFailed"
proof -
  let ?E = "sample_settle_env\<lparr>ge_submit := \<lambda>k. if k = 0 then Inl (Opaque ''timeout'')
       else Inl (Opaque ''tx_failed'')\<rparr>"
  let ?w = "sample_world StatusPending"
  let ?w1 = "snd (claim_for_submission None ''t'' ?w)"
  have c: "claim_for_submission None ''t'' ?w = (None, ?w1)"
  proof -
    have "fst (claim_for_submission None ''t'' ?w) = None" by code_simp
    then show ?thesis by (metis prod.collapse)
  qed
  have p: "case prepare reference_pkg no_tenant sample_engine ?E (read_tx (sample_tx ''t'' StatusPending)) ?w1 of
      Inl e \<Rightarrow> False | Inr x \<Rightarrow> True" by code_simp
  then obtain src dst ops h where p: "prepare reference_pkg no_tenant sample_engine ?E
      (read_tx (sample_tx ''t'' StatusPending)) ?w1 = Inr (src, dst, ops, h)"
    by (auto split: sum.splits)
  have u: "\<not> hash_taken ''t'' h ?w1"
    by (simp add: claim_for_submission_def guarded_update_def hash_taken_def sample_world_def sample_tx_def
        set_txs_def rows_affected_def)
  have x: "is_retryable (\<lambda>_. ''other'') (Wrap ''submit transaction'' (Opaque ''timeout''))"
    "\<not> is_retryable (\<lambda>_. ''other'') (Wrap ''submit transaction'' (Opaque ''tx_failed''))" by code_simp+
  have e: "ge_get ?E = None" "ge_claim ?E = None" "ge_record ?E = None" "ge_failed ?E = None"
    "ge_cancelled ?E 1 = None" "ge_submit ?E 0 = Inl (Opaque ''timeout'')"
    "ge_submit ?E 1 = Inl (Opaque ''tx_failed'')" by (simp_all add: sample_settle_env_def)
  have s: "tx_status (sample_tx ''t'' StatusPending) = StatusPending" "tx_to_address (sample_tx ''t'' StatusPending) = ''''"
    by (simp_all add: sample_tx_def)
  have n: "w_net ?w = []" by (simp add: sample_world_def empty_world_def)
  from rejection_after_timeout_fails [OF sample_world_wf sample_world_tx s in_scope_no_tenant e(1,2) c p u e(3-6) x(1) e(7) x(2)]
  show ?thesis unfolding n by fastforce
qed

end
