(* ===== verification/Xdc.thy ===== *)
theory Xdc
  imports Domain "HOL-Library.Word"
begin

text \<open>
  \<^verbatim>\<open>internal/chain/xdc/xdc.go\<close>: addresses in either prefix, the count of confirmations in its unsigned
  64-bit arithmetic, the polling loop, and the transfer, whose steps up to the network are the node's
  answers. Amounts are in wei; \<open>txdc_to_wei\<close> and \<open>wei_to_txdc\<close> are the conversions of
  \<^verbatim>\<open>internal/settlement/xdc_engine.go\<close>.
\<close>

section \<open>Addresses\<close>

definition ascii_lower :: "char \<Rightarrow> char" where
  "ascii_lower c = (let b = (of_char c :: nat) in if 65 \<le> b \<and> b \<le> 90 then char_of (b + 32) else c)"

definition xdc_normalize :: "string \<Rightarrow> string" where
  "xdc_normalize a =
     (if 3 \<le> length a \<and> map ascii_lower (take 3 a) = ''xdc'' then ''0x'' @ drop 3 a else a)"

section \<open>Confirmations\<close>

text \<open>The receipt: whether the transaction succeeded, and its block number.\<close>

definition confirmations ::
  "err + (bool \<times> 64 word) \<Rightarrow> err + 64 word \<Rightarrow> err + 64 word" where
  "confirmations receipt head =
     (case receipt of Inl e \<Rightarrow> Inl (Wrap ''xdc: receipt'' e)
      | Inr (ok, block_no) \<Rightarrow>
        if \<not> ok then Inl (Opaque ''xdc: tx reverted'')
        else (case head of Inl e \<Rightarrow> Inl (Wrap ''xdc: head'' e)
          | Inr head_no \<Rightarrow> if head_no < block_no then Inr 0 else Inr (head_no - block_no + 1)))"

text \<open>
  \<^verbatim>\<open>WaitConfirmations\<close>: the node's answers poll by poll, up to the end of the context, which ends the
  loop with the context's error.
\<close>

fun wait_confirmations ::
  "64 word \<Rightarrow> ((err + (bool \<times> 64 word)) \<times> (err + 64 word)) list \<Rightarrow> err option" where
  "wait_confirmations n [] = Some (Opaque ''context deadline exceeded'')"
| "wait_confirmations n ((receipt, head) # polls) =
     (case confirmations receipt head of
        Inr c \<Rightarrow> if n \<le> c then None else wait_confirmations n polls
      | Inl e \<Rightarrow> wait_confirmations n polls)"

section \<open>Amounts\<close>

definition big_int :: "decimal \<Rightarrow> int" where
  "big_int d = (if 0 \<le> d then \<lfloor>d\<rfloor> else - \<lfloor>- d\<rfloor>)"

definition txdc_to_wei :: "decimal \<Rightarrow> int" where
  "txdc_to_wei d = big_int (d * 10 ^ 18)"

definition wei_to_txdc :: "decimal_pkg \<Rightarrow> int \<Rightarrow> decimal" where
  "wei_to_txdc D wei = d_div D (of_int wei) (10 ^ 18)"

section \<open>Facts\<close>

lemma confirmations_count:
  assumes "confirmations (Inr (True, b)) (Inr h) = Inr c" and "b \<le> h" and "h < - 1"
  shows "unat c = unat h - unat b + 1"
proof -
  have "\<not> h < b" using assms(2) by simp
  then have c: "c = h - b + 1" using assms(1) by (simp add: confirmations_def)
  have hb: "unat (h - b) = unat h - unat b" using assms(2) by (simp add: unat_sub)
  have "unat h < unat (- 1 :: 64 word)" using assms(3) by (simp add: word_less_nat_alt)
  then have "unat h < 2 ^ 64 - 1" by (simp add: unsigned_minus_1_eq_mask mask_eq_exp_minus_1)
  then have "unat (h - b) + 1 < 2 ^ 64" using hb by linarith
  then have "unat (h - b + 1) = unat (h - b) + 1"
    by (simp add: unat_word_ariths)
  with c hb show ?thesis by simp
qed

text \<open>Waiting succeeds only on a receipt of success that is buried deep enough.\<close>

lemma wait_confirmations_None:
  assumes "wait_confirmations n polls = None"
  shows "\<exists>b h. (Inr (True, b), Inr h) \<in> set polls \<and> (n = 0 \<or> b \<le> h \<and> n \<le> h - b + 1)"
  using assms
proof (induction n polls rule: wait_confirmations.induct)
  case (2 n receipt head polls)
  show ?case
  proof (cases "confirmations receipt head")
    case (Inl e)
    with 2 show ?thesis by auto
  next
    case (Inr c)
    show ?thesis
    proof (cases "n \<le> c")
      case True
      from Inr obtain b h where r: "receipt = Inr (True, b)" "head = Inr h"
        and c: "c = (if h < b then 0 else h - b + 1)"
        by (auto simp: confirmations_def split: sum.splits if_splits)
      from True c have "n = 0 \<or> b \<le> h \<and> n \<le> h - b + 1" by (auto split: if_splits)
      with r show ?thesis by auto
    next
      case False
      with 2 Inr show ?thesis by auto
    qed
  qed
qed simp

lemma txdc_to_wei_exact:
  assumes "on_grid p d" and "p \<le> 18"
  shows "of_int (txdc_to_wei d) = d * 10 ^ 18"
proof -
  obtain i where i: "d * 10 ^ p = of_int i" using assms(1) by (auto simp: on_grid_def elim: Ints_cases)
  have "d * 10 ^ 18 = d * 10 ^ p * 10 ^ (18 - p)"
    using assms(2) by (simp add: mult.assoc flip: power_add)
  then have k: "d * 10 ^ 18 = of_int (i * 10 ^ (18 - p))" using i by simp
  show ?thesis unfolding txdc_to_wei_def big_int_def k by simp
qed

text \<open>Net amount and fee in wei add up to the amount.\<close>

lemma txdc_to_wei_sum:
  assumes "on_grid 7 a" and "on_grid 7 f"
  shows "txdc_to_wei (a - f) + txdc_to_wei f = txdc_to_wei a"
proof -
  have "on_grid 7 (a - f)" using assms by (simp add: on_grid_def algebra_simps)
  then have "(of_int (txdc_to_wei (a - f) + txdc_to_wei f) :: rat) = of_int (txdc_to_wei a)"
    using assms by (simp add: txdc_to_wei_exact [of 7] algebra_simps)
  then show ?thesis unfolding of_int_eq_iff .
qed

end
