(* ===== verification/Xdc_Settlement.thy ===== *)
theory Xdc_Settlement
  imports Settlement Xdc
begin

text \<open>
  \<^verbatim>\<open>internal/settlement/xdc_engine.go\<close>: settlement of the native asset on the XDC network. Unlike the
  Stellar engine it records the hash after the transfer; a transfer whose submission reports an error
  is marked failed, which the source documents as a deviation.
\<close>

text \<open>
  The answers of the environment to one call. \<open>xe_transfer\<close> is the chain client's answer to the main
  transfer and \<open>xe_sent\<close> whether the network took it, which need not agree with the answer;
  \<open>xe_fee\<close> and \<open>xe_fee_sent\<close> are the same for the fee. \<open>xe_decrypt\<close> is the decryption of a wallet's
  secret, \<open>xe_polls\<close> the polls for confirmations of a hash, \<open>xe_balance\<close> the balance of an address in wei.
\<close>

record xdc_env =
  xe_get :: "err option"
  xe_claim :: "err option"
  xe_asset :: "err option"
  xe_src :: "err option"
  xe_dst :: "err option"
  xe_decrypt :: "string \<Rightarrow> err + string"
  xe_transfer :: "err + string"
  xe_sent :: bool
  xe_failed :: "err option"
  xe_polls :: "string \<Rightarrow> ((err + (bool \<times> 64 word)) \<times> (err + 64 word)) list"
  xe_submitted :: "err option"
  xe_confirmed :: "err option"
  xe_balance :: "string \<Rightarrow> err + int"
  xe_upsert :: "err option"
  xe_fee :: "err + string"
  xe_fee_sent :: bool
  xe_collect :: "err option"
  xe_uuid :: string
  xe_now :: go_time

definition xdc_required_confirmations :: "64 word" where "xdc_required_confirmations = 6"

definition decrypt_secret :: "xdc_env \<Rightarrow> string \<Rightarrow> err + string" where
  "decrypt_secret E hex =
     (case hex_decode hex of
        None \<Rightarrow> Inl (Wrap ''decode encrypted secret'' (Opaque ''encoding/hex''))
      | Some bytes \<Rightarrow> map_sum (Wrap ''decrypt wallet secret'') id (xe_decrypt E bytes))"

text \<open>A transfer on the chain: what the network may have taken is recorded whatever the answer is.\<close>

definition chain_transfer ::
  "err + string \<Rightarrow> bool \<Rightarrow> string \<Rightarrow> string \<Rightarrow> int \<Rightarrow> world \<Rightarrow> (err + string) \<times> world" where
  "chain_transfer ans sent secret dest wei w =
     (ans, if sent then w\<lparr>w_net := w_net w @ [EvmTransfer secret (xdc_normalize dest) wei]\<rparr> else w)"

definition xdc_sync_balance ::
  "decimal_pkg \<Rightarrow> numeric_col \<Rightarrow> xdc_env \<Rightarrow> wallet \<Rightarrow> world \<Rightarrow> world" where
  "xdc_sync_balance D N E x w =
     (case xe_balance E (wa_public_key x) of Inl e \<Rightarrow> w
      | Inr wei \<Rightarrow> snd (upsert_balance N (xe_upsert E) (wa_id x) ''TXDC'' '''' (wei_to_txdc D wei) w))"

definition collect_fee ::
  "numeric_col \<Rightarrow> string \<Rightarrow> xdc_env \<Rightarrow> transaction \<Rightarrow> string \<Rightarrow> world \<Rightarrow> world" where
  "collect_fee N fee_wallet E t secret w =
     (if take 2 fee_wallet \<noteq> ''0x'' \<and> take 3 fee_wallet \<noteq> ''xdc'' then w
      else case chain_transfer (xe_fee E) (xe_fee_sent E) secret fee_wallet (txdc_to_wei (tx_fee t)) w of
        (Inl e, w1) \<Rightarrow> w1
      | (Inr h, w1) \<Rightarrow> snd (record_collection N (xe_collect E)
          \<lparr>fc_id = xe_uuid E, fc_tx = tx_id t, fc_tenant = tx_tenant t, fc_amount = tx_fee t,
           fc_asset = tx_asset t, fc_bps = tx_fee_bps t, fc_at = xe_now E\<rparr> w1))"

text \<open>The destination: the raw address of a payout, or the wallet and its key.\<close>

definition xdc_destination ::
  "ctx \<Rightarrow> xdc_env \<Rightarrow> transaction \<Rightarrow> world \<Rightarrow> err + (string \<times> wallet option)" where
  "xdc_destination c E t w =
     (if tx_to_address t \<noteq> '''' then Inr (tx_to_address t, None)
      else map_sum (Wrap ''load destination wallet'') (\<lambda>x. (wa_public_key x, Some x))
             (get_wallet c (xe_dst E) (tx_to t) w))"

definition xdc_finish ::
  "decimal_pkg \<Rightarrow> numeric_col \<Rightarrow> ctx \<Rightarrow> string \<Rightarrow> xdc_env \<Rightarrow> transaction \<Rightarrow> string \<Rightarrow> wallet
    \<Rightarrow> wallet option \<Rightarrow> string \<Rightarrow> world \<Rightarrow> world" where
  "xdc_finish D N c fee_wallet E t h src dst secret w =
     (let w1 = snd (update_status c (xe_confirmed E) (tx_id t) StatusConfirmed h w);
          w2 = xdc_sync_balance D N E src w1;
          w3 = (case dst of None \<Rightarrow> w2 | Some x \<Rightarrow> xdc_sync_balance D N E x w2)
      in if tx_fee t > 0 then collect_fee N fee_wallet E t secret w3 else w3)"

definition xdc_after_claim ::
  "decimal_pkg \<Rightarrow> numeric_col \<Rightarrow> ctx \<Rightarrow> string \<Rightarrow> xdc_env \<Rightarrow> transaction \<Rightarrow> world \<Rightarrow> err option \<times> world" where
  "xdc_after_claim D N c fee_wallet E t w =
     (if \<not> is_native_asset (tx_asset t)
      then (Some (Wrap (tx_asset t) (Dom ErrInvalidAsset)),
            snd (update_status c (xe_asset E) (tx_id t) StatusFailed '''' w))
      else
     (case get_wallet c (xe_src E) (tx_from t) w of
        Inl e \<Rightarrow> (Some (Wrap ''load source wallet'' e), w) | Inr src \<Rightarrow>
     (case xdc_destination c E t w of Inl e \<Rightarrow> (Some e, w) | Inr (dest, dst) \<Rightarrow>
     (case decrypt_secret E (wa_secret src) of Inl e \<Rightarrow> (Some e, w) | Inr secret \<Rightarrow>
     (case chain_transfer (xe_transfer E) (xe_sent E) secret dest (txdc_to_wei (net_amount t)) w of
        (Inl e, w1) \<Rightarrow> (Some (Wrap ''xdc submit transfer'' e),
                       snd (update_status c (xe_failed E) (tx_id t) StatusFailed '''' w1))
      | (Inr h, w1) \<Rightarrow>
        (case wait_confirmations xdc_required_confirmations (xe_polls E h) of
           Some e \<Rightarrow> (Some (Wrap ''xdc wait confirmations'' e),
                     snd (update_status c (xe_submitted E) (tx_id t) StatusSubmitted h w1))
         | None \<Rightarrow> (None, xdc_finish D N c fee_wallet E t h src dst secret w1)))))))"

definition xdc_submit_transfer ::
  "decimal_pkg \<Rightarrow> numeric_col \<Rightarrow> ctx \<Rightarrow> string \<Rightarrow> xdc_env \<Rightarrow> string \<Rightarrow> world \<Rightarrow> err option \<times> world" where
  "xdc_submit_transfer D N c fee_wallet E i w =
     (case get_tx c (xe_get E) i w of
        Inl e \<Rightarrow> (Some (Wrap ''load transaction'' e), w)
      | Inr t \<Rightarrow>
     (case claim_for_submission (xe_claim E) i w of
        (Some e, w1) \<Rightarrow>
          if err_is e (Dom ErrConcurrentUpdate) then (None, w1)
          else (Some (Wrap ''claim transaction for submission'' e), w1)
      | (None, w1) \<Rightarrow> xdc_after_claim D N c fee_wallet E t w1))"

section \<open>What a settlement sends\<close>

text \<open>At most two transfers, out of the same wallet: the net amount, and the fee after it.\<close>

definition xdc_burst :: "net_effect list \<Rightarrow> bool" where
  "xdc_burst xs \<longleftrightarrow> length xs \<le> 2 \<and>
     (\<exists>secret. \<forall>x \<in> set xs. \<exists>dest wei. x = EvmTransfer secret dest wei)"

lemma xdc_sync_same [simp]:
  "w_txs (xdc_sync_balance D N E x w) = w_txs w" "w_net (xdc_sync_balance D N E x w) = w_net w"
  by (simp_all add: xdc_sync_balance_def split: sum.splits)

lemma collect_fee_frame:
  "w_txs (collect_fee N fw E t sec w) = w_txs w"
  "\<exists>xs. w_net (collect_fee N fw E t sec w) = w_net w @ xs \<and>
     (xs = [] \<or> xs = [EvmTransfer sec (xdc_normalize fw) (txdc_to_wei (tx_fee t))])"
  by (auto simp: collect_fee_def chain_transfer_def split: sum.splits)

lemma xdc_finish_frame:
  "w_txs (xdc_finish D N c fw E t h src dst sec w)
    = w_txs (snd (update_status c (xe_confirmed E) (tx_id t) StatusConfirmed h w))"
  "\<exists>xs. w_net (xdc_finish D N c fw E t h src dst sec w) = w_net w @ xs \<and>
     (xs = [] \<or> tx_fee t > 0 \<and> xs = [EvmTransfer sec (xdc_normalize fw) (txdc_to_wei (tx_fee t))])"
proof -
  let ?w2 = "xdc_sync_balance D N E src (snd (update_status c (xe_confirmed E) (tx_id t) StatusConfirmed h w))"
  let ?w3 = "case dst of None \<Rightarrow> ?w2 | Some x \<Rightarrow> xdc_sync_balance D N E x ?w2"
  have w3: "w_txs ?w3 = w_txs (snd (update_status c (xe_confirmed E) (tx_id t) StatusConfirmed h w))"
    "w_net ?w3 = w_net w" by (simp_all split: option.split)
  show "w_txs (xdc_finish D N c fw E t h src dst sec w)
    = w_txs (snd (update_status c (xe_confirmed E) (tx_id t) StatusConfirmed h w))"
    using w3 by (simp add: xdc_finish_def Let_def collect_fee_frame)
  show "\<exists>xs. w_net (xdc_finish D N c fw E t h src dst sec w) = w_net w @ xs \<and>
     (xs = [] \<or> tx_fee t > 0 \<and> xs = [EvmTransfer sec (xdc_normalize fw) (txdc_to_wei (tx_fee t))])"
    using w3 collect_fee_frame(2) [of N fw E t sec ?w3] by (auto simp: xdc_finish_def Let_def)
qed

lemma xdc_after_claim_cases:
  assumes "xdc_after_claim D N c fw E t w = (r, w')"
  obtains (same) "w' = w"
  | (rejected) q where "w' = snd (update_status c q (tx_id t) StatusFailed '''' w)"
  | (moved) src dest dst sec w1 where "get_wallet c (xe_src E) (tx_from t) w = Inr src"
      "xdc_destination c E t w = Inr (dest, dst)"
      "decrypt_secret E (wa_secret src) = Inr sec"
      "w1 = (if xe_sent E then w\<lparr>w_net := w_net w @
         [EvmTransfer sec (xdc_normalize dest) (txdc_to_wei (net_amount t))]\<rparr> else w)"
      "(\<exists>e. xe_transfer E = Inl e) \<and> w' = snd (update_status c (xe_failed E) (tx_id t) StatusFailed '''' w1)
       \<or> (\<exists>h. xe_transfer E = Inr h \<and> r \<noteq> None \<and>
            w' = snd (update_status c (xe_submitted E) (tx_id t) StatusSubmitted h w1))
       \<or> (\<exists>h. xe_transfer E = Inr h \<and> r = None \<and>
            wait_confirmations xdc_required_confirmations (xe_polls E h) = None \<and>
            w' = xdc_finish D N c fw E t h src dst sec w1)"
proof (cases "is_native_asset (tx_asset t)")
  case False
  with assms rejected show ?thesis by (auto simp: xdc_after_claim_def)
next
  case True
  show ?thesis
  proof (cases "get_wallet c (xe_src E) (tx_from t) w")
    case (Inl e)
    with assms True same show ?thesis by (simp add: xdc_after_claim_def)
  next
    case (Inr src)
    note s = Inr
    show ?thesis
    proof (cases "xdc_destination c E t w")
      case (Inl e)
      with assms True s same show ?thesis by (simp add: xdc_after_claim_def)
    next
      case (Inr dd)
      obtain dest dst where dd: "dd = (dest, dst)" by (cases dd)
      show ?thesis
      proof (cases "decrypt_secret E (wa_secret src)")
        case (Inl e)
        with assms True s Inr dd same show ?thesis by (simp add: xdc_after_claim_def)
      next
        case (Inr sec)
        note d = \<open>xdc_destination c E t w = Inr dd\<close>
        show ?thesis
        proof (rule moved [OF s d [unfolded dd] Inr refl])
          show "(\<exists>e. xe_transfer E = Inl e) \<and> w' = snd (update_status c (xe_failed E) (tx_id t) StatusFailed ''''
             (if xe_sent E then w\<lparr>w_net := w_net w @
               [EvmTransfer sec (xdc_normalize dest) (txdc_to_wei (net_amount t))]\<rparr> else w))
            \<or> (\<exists>h. xe_transfer E = Inr h \<and> r \<noteq> None \<and>
                w' = snd (update_status c (xe_submitted E) (tx_id t) StatusSubmitted h
             (if xe_sent E then w\<lparr>w_net := w_net w @
               [EvmTransfer sec (xdc_normalize dest) (txdc_to_wei (net_amount t))]\<rparr> else w)))
            \<or> (\<exists>h. xe_transfer E = Inr h \<and> r = None \<and>
                wait_confirmations xdc_required_confirmations (xe_polls E h) = None \<and>
                w' = xdc_finish D N c fw E t h src dst sec
             (if xe_sent E then w\<lparr>w_net := w_net w @
               [EvmTransfer sec (xdc_normalize dest) (txdc_to_wei (net_amount t))]\<rparr> else w))"
            using assms True s d dd Inr
            by (cases "xe_transfer E";
                cases "wait_confirmations xdc_required_confirmations (xe_polls E (projr (xe_transfer E)))")
               (auto simp: xdc_after_claim_def chain_transfer_def)
        qed
      qed
    qed
  qed
qed

lemma xdc_burstI:
  "length xs \<le> 2 \<Longrightarrow> (\<And>x. x \<in> set xs \<Longrightarrow> \<exists>dest wei. x = EvmTransfer sec dest wei) \<Longrightarrow> xdc_burst xs"
  unfolding xdc_burst_def by blast

lemma xdc_burst_simps:
  "xdc_burst []" "xdc_burst [EvmTransfer sec d x]" "xdc_burst [EvmTransfer sec d x, EvmTransfer sec e y]"
  by (rule xdc_burstI; auto)+

lemma xdc_after_claim_keeps:
  assumes "xdc_after_claim D N c fw E t w = (r, w')" and "wf_txs w" and "\<not> tx_available w i"
  shows "wf_txs w' \<and> \<not> tx_available w' i \<and> (\<exists>xs. xdc_burst xs \<and> w_net w' = w_net w @ xs)"
  using assms(1)
proof (cases rule: xdc_after_claim_cases)
  case same
  with assms(2,3) xdc_burst_simps(1) show ?thesis by auto
next
  case (rejected q)
  with wf_update_status [OF assms(2)] update_status_available [OF assms(3)] xdc_burst_simps(1)
  show ?thesis by auto
next
  case (moved src dest dst sec w1)
  let ?main = "if xe_sent E then [EvmTransfer sec (xdc_normalize dest) (txdc_to_wei (net_amount t))] else []"
  have w1: "w_txs w1 = w_txs w" "w_net w1 = w_net w @ ?main" using moved(4) by simp_all
  then have keep: "wf_txs w1" "\<not> tx_available w1 i"
    using assms(2,3) by (simp_all add: wf_txs_def tx_available_def)

  show ?thesis
  proof (cases "\<exists>h. w' = xdc_finish D N c fw E t h src dst sec w1")
    case True
    then obtain h where w': "w' = xdc_finish D N c fw E t h src dst sec w1" ..
    from xdc_finish_frame(2) [of D N c fw E t h src dst sec w1] obtain xs where
      "w_net w' = w_net w1 @ xs"
      "xs = [] \<or> xs = [EvmTransfer sec (xdc_normalize fw) (txdc_to_wei (tx_fee t))]"
      unfolding w' by blast
    then have "xdc_burst (?main @ xs) \<and> w_net w' = w_net w @ (?main @ xs)"
      using w1 xdc_burst_simps by auto
    moreover have "wf_txs w'" "\<not> tx_available w' i"
      using wf_update_status [OF keep(1), of c "xe_confirmed E" "tx_id t" StatusConfirmed h]
        update_status_available [OF keep(2), of StatusConfirmed c "xe_confirmed E" "tx_id t" h]
        xdc_finish_frame(1) [of D N c fw E t h src dst sec w1]
      unfolding w' by (simp_all add: wf_txs_def tx_available_def)
    ultimately show ?thesis by blast
  next
    case False
    with moved(5) obtain q st h where w': "w' = snd (update_status c q (tx_id t) st h w1)"
      and "st \<noteq> StatusPending" by auto
    moreover have "xdc_burst ?main" using xdc_burst_simps by simp
    ultimately show ?thesis
      using wf_update_status [OF keep(1)] update_status_available [OF keep(2)] w1(2) by auto
  qed
qed

lemma xdc_submit_effect:
  assumes "xdc_submit_transfer D N c fw E i w = (r, w')" and "wf_txs w"
  shows "w' = w \<or> tx_available w i \<and> wf_txs w' \<and> \<not> tx_available w' i \<and>
    (\<exists>xs. xdc_burst xs \<and> w_net w' = w_net w @ xs)"
proof (cases "get_tx c (xe_get E) i w")
  case (Inl e)
  with assms(1) show ?thesis by (simp add: xdc_submit_transfer_def)
next
  case (Inr t)
  obtain q w1 where cl: "claim_for_submission (xe_claim E) i w = (q, w1)"
    by (cases "claim_for_submission (xe_claim E) i w")
  show ?thesis
  proof (cases q)
    case (Some e)
    with cl claim_failed [of "xe_claim E" i w e w1] assms(1) Inr show ?thesis
      by (auto simp: xdc_submit_transfer_def split: if_splits)
  next
    case None
    with cl have cl': "claim_for_submission None i w = (None, w1)"
      by (auto simp: claim_for_submission_def guarded_update_def split: option.splits if_splits)
    note k = claimed_keeps [OF cl' assms(2)]
    have "tx_available w i" using claim_succeeds_iff [OF assms(2), of i] cl' by simp
    moreover have "xdc_after_claim D N c fw E t w1 = (r, w')"
      using assms(1) Inr cl None by (simp add: xdc_submit_transfer_def)
    from xdc_after_claim_keeps [OF this k(1,2)] k(3) have
      "wf_txs w' \<and> \<not> tx_available w' i \<and> (\<exists>xs. xdc_burst xs \<and> w_net w' = w_net w @ xs)" by simp
    ultimately show ?thesis by blast
  qed
qed

interpretation evm: submitter "xdc_submit_transfer D N c fee_wallet" xdc_burst for D N c fee_wallet
proof unfold_locales
  show "xdc_burst []" by (rule xdc_burst_simps)
  fix w E i r w'
  assume "wf_txs w" and "xdc_submit_transfer D N c fee_wallet E i w = (r, w')"
  then show "w' = w \<or> tx_available w i \<and> wf_txs w' \<and> \<not> tx_available w' i \<and>
      (\<exists>xs. xdc_burst xs \<and> w_net w' = w_net w @ xs)"
    by (rule xdc_submit_effect [rotated])
qed

section \<open>Who pays whom\<close>

text \<open>
  What the settlement of the row \<open>t\<close> may send in the state \<open>w\<close>: the net amount from the opened secret of the
  source wallet to the address of the payout or the key of the destination wallet, if the network takes
  it, and the fee from the same secret to the fee wallet.
\<close>

definition xdc_legs :: "ctx \<Rightarrow> string \<Rightarrow> xdc_env \<Rightarrow> transaction \<Rightarrow> world \<Rightarrow> net_effect list \<Rightarrow> bool" where
  "xdc_legs c fw E t w xs \<longleftrightarrow>
     (\<exists>src bytes secret dest fs. get_wallet c None (tx_from t) w = Inr src
        \<and> hex_decode (wa_secret src) = Some bytes \<and> xe_decrypt E bytes = Inr secret
        \<and> (if tx_to_address t \<noteq> '''' then dest = tx_to_address t
           else (\<exists>dst. get_wallet c None (tx_to t) w = Inr dst \<and> dest = wa_public_key dst))
        \<and> xs = (if xe_sent E then [EvmTransfer secret (xdc_normalize dest) (txdc_to_wei (net_amount t))] else []) @ fs
        \<and> (fs = [] \<or> tx_fee t > 0 \<and> fs = [EvmTransfer secret (xdc_normalize fw) (txdc_to_wei (tx_fee t))]))"

lemma get_wallet_answered: "get_wallet c q i w = Inr x \<Longrightarrow> get_wallet c None i w = Inr x"
  by (auto simp: get_wallet_def split: option.splits)

lemma xdc_destination_Inr:
  assumes "xdc_destination c E t w = Inr (dest, dst)"
  shows "if tx_to_address t \<noteq> '''' then dest = tx_to_address t
    else (\<exists>x. get_wallet c None (tx_to t) w = Inr x \<and> dest = wa_public_key x)"
  using assms by (cases "get_wallet c (xe_dst E) (tx_to t) w")
    (auto simp: xdc_destination_def dest: get_wallet_answered split: if_splits)

lemma xdc_after_claim_legs:
  assumes "xdc_after_claim D N c fw E t w = (r, w')"
  shows "w_net w' = w_net w \<or> (\<exists>xs. w_net w' = w_net w @ xs \<and> xdc_legs c fw E t w xs)"
  using assms
proof (cases rule: xdc_after_claim_cases)
  case (moved src dest dst sec w1)
  from moved(3) obtain bytes where sec: "hex_decode (wa_secret src) = Some bytes" "xe_decrypt E bytes = Inr sec"
    by (cases "hex_decode (wa_secret src)"; cases "xe_decrypt E (the (hex_decode (wa_secret src)))")
       (auto simp: decrypt_secret_def)
  have w1: "w_net w1 = w_net w @ (if xe_sent E then [EvmTransfer sec (xdc_normalize dest) (txdc_to_wei (net_amount t))] else [])"
    using moved(4) by simp
  have "\<exists>fs. w_net w' = w_net w1 @ fs \<and> (fs = [] \<or> tx_fee t > 0 \<and> fs = [EvmTransfer sec (xdc_normalize fw) (txdc_to_wei (tx_fee t))])"
  proof (cases "\<exists>h. w' = xdc_finish D N c fw E t h src dst sec w1")
    case True
    then obtain h where "w' = xdc_finish D N c fw E t h src dst sec w1" ..
    with xdc_finish_frame(2) [of D N c fw E t h src dst sec w1] show ?thesis by blast
  next
    case False
    with moved(5) obtain q st h where "w' = snd (update_status c q (tx_id t) st h w1)" by blast
    then show ?thesis by simp
  qed
  then obtain fs where "w_net w' = w_net w1 @ fs"
    and fs: "fs = [] \<or> tx_fee t > 0 \<and> fs = [EvmTransfer sec (xdc_normalize fw) (txdc_to_wei (tx_fee t))]" by blast
  with w1 have "w_net w' = w_net w @ ((if xe_sent E then [EvmTransfer sec (xdc_normalize dest) (txdc_to_wei (net_amount t))] else []) @ fs)"
    by simp
  moreover have "xdc_legs c fw E t w ((if xe_sent E then [EvmTransfer sec (xdc_normalize dest) (txdc_to_wei (net_amount t))] else []) @ fs)"
    unfolding xdc_legs_def
    using get_wallet_answered [OF moved(1)] sec xdc_destination_Inr [OF moved(2)] fs
    by (intro exI [of _ src] exI [of _ bytes] exI [of _ sec] exI [of _ dest] exI [of _ fs] conjI) (assumption | rule refl)+
  ultimately show ?thesis by blast
qed auto

lemma claim_wallets: "w_wallets (snd (claim_for_submission q i w)) = w_wallets w"
  by (auto simp: claim_for_submission_def guarded_update_def split: option.splits)

lemma xdc_legs_wallets: "w_wallets w1 = w_wallets w \<Longrightarrow> xdc_legs c fw E t w1 xs = xdc_legs c fw E t w xs"
  by (simp add: xdc_legs_def get_wallet_def)

lemma xdc_submit_legs:
  assumes "xdc_submit_transfer D N c fw E i w = (r, w')"
  shows "w_net w' = w_net w \<or> (\<exists>t xs. get_tx c None i w = Inr t \<and> w_net w' = w_net w @ xs \<and> xdc_legs c fw E t w xs)"
proof (cases "get_tx c (xe_get E) i w")
  case (Inl e)
  with assms show ?thesis by (simp add: xdc_submit_transfer_def)
next
  case (Inr t)
  then have t: "get_tx c None i w = Inr t" by (auto simp: get_tx_def split: option.splits)
  obtain q w1 where cl: "claim_for_submission (xe_claim E) i w = (q, w1)"
    by (cases "claim_for_submission (xe_claim E) i w")
  then have same: "w_net w1 = w_net w" "w_wallets w1 = w_wallets w"
    using claim_net [of "xe_claim E" i w] claim_wallets [of "xe_claim E" i w] by simp_all
  show ?thesis
  proof (cases q)
    case (Some e)
    with assms Inr cl same show ?thesis by (auto simp: xdc_submit_transfer_def split: if_splits)
  next
    case None
    with assms Inr cl have "xdc_after_claim D N c fw E t w1 = (r, w')" by (simp add: xdc_submit_transfer_def)
    from xdc_after_claim_legs [OF this] t show ?thesis unfolding same(1) xdc_legs_wallets [OF same(2)] by blast
  qed
qed

section \<open>Properties\<close>

text \<open>
  C14: on the XDC network, too, a transfer is settled at most once however often it is delivered. Either
  nothing is sent, or all that is sent was sent by one of the deliveries: the net amount, out of the secret
  that is stored for the source wallet of the row, to its destination, and the fee, if there is one, out of the
  same secret to the fee wallet.
\<close>

theorem xdc_settled_at_most_once:
  assumes "wf_txs w"
  shows "\<exists>xs. w_net (run_workers (xdc_submit_transfer D N c fee_wallet) Es i w) = w_net w @ xs \<and> length xs \<le> 2 \<and>
    (xs = [] \<or> (\<exists>E t. E \<in> set Es \<and> get_tx c None i w = Inr t \<and> tx_available w i \<and> xdc_legs c fee_wallet E t w xs))"
proof (cases "run_workers (xdc_submit_transfer D N c fee_wallet) Es i w = w")
  case False
  from evm.run_is_one_call [OF assms False] obtain E r where
    E: "E \<in> set Es" "xdc_submit_transfer D N c fee_wallet E i w = (r, run_workers (xdc_submit_transfer D N c fee_wallet) Es i w)"
      "tx_available w i" by blast
  from xdc_submit_legs [OF E(2)] show ?thesis
  proof (elim disjE exE conjE)
    fix t xs
    assume "get_tx c None i w = Inr t"
      "w_net (run_workers (xdc_submit_transfer D N c fee_wallet) Es i w) = w_net w @ xs" "xdc_legs c fee_wallet E t w xs"
    moreover from this(3) have "length xs \<le> 2" by (auto simp: xdc_legs_def)
    ultimately show ?thesis using E by blast
  qed simp
qed simp

definition sample_xdc_env :: xdc_env where
  "sample_xdc_env = \<lparr>xe_get = None, xe_claim = None, xe_asset = None, xe_src = None, xe_dst = None,
     xe_decrypt = (\<lambda>_. Inr ''k''), xe_transfer = Inr ''0xh'', xe_sent = True, xe_failed = None,
     xe_polls = (\<lambda>h. if h = ''0xh'' then [(Inr (True, 100), Inr 103), (Inr (True, 100), Inr 105)] else []), xe_submitted = None, xe_confirmed = None,
     xe_balance = (\<lambda>_. Inl (Opaque ''down'')), xe_upsert = None, xe_fee = Inr ''0xf'', xe_fee_sent = True,
     xe_collect = None, xe_uuid = ''f'', xe_now = 0\<rparr>"

lemma xdc_settled_at_most_once_witness:
  "\<exists>xs. w_net (run_workers (xdc_submit_transfer reference_pkg exact_numeric no_tenant ''0xfee'')
      [sample_xdc_env, sample_xdc_env] ''t'' (sample_world StatusPending)) = w_net (sample_world StatusPending) @ xs \<and>
    length xs = 2 \<and> xdc_legs no_tenant ''0xfee'' sample_xdc_env (read_tx (sample_tx ''t'' StatusPending)) (sample_world StatusPending) xs"
proof -
  let ?w = "sample_world StatusPending"
  let ?v = "run_workers (xdc_submit_transfer reference_pkg exact_numeric no_tenant ''0xfee'') [sample_xdc_env, sample_xdc_env] ''t'' ?w"
  have n: "length (w_net ?v) = 2" by code_simp
  have t: "get_tx no_tenant None ''t'' ?w = Inr (read_tx (sample_tx ''t'' StatusPending))"
    by (simp add: get_tx_def sample_world_def sample_tx_def no_tenant_def in_scope_def)
  have "w_net ?w = []" by (simp add: sample_world_def empty_world_def)
  with n t xdc_settled_at_most_once [OF sample_world_wf, of reference_pkg exact_numeric no_tenant "''0xfee''"
      "[sample_xdc_env, sample_xdc_env]" "''t''" StatusPending] show ?thesis by auto
qed

text \<open>
  What is sent on the XDC network adds up: for amounts with at most seven decimal places the net
  amount and the fee, each converted to wei, sum to the amount in wei, with nothing lost.
\<close>

theorem xdc_wei_conserved:
  assumes "on_grid 7 (tx_amount t)" and "on_grid 7 (tx_fee t)"
  shows "txdc_to_wei (net_amount t) + txdc_to_wei (tx_fee t) = txdc_to_wei (tx_amount t) \<and>
    of_int (txdc_to_wei (tx_amount t)) = tx_amount t * 10 ^ 18"
  using txdc_to_wei_sum [OF assms] txdc_to_wei_exact [OF assms(1)] by (simp add: net_amount_def)

lemma xdc_wei_conserved_witness:
  "txdc_to_wei (net_amount (sample_tx ''t'' StatusPending)) + txdc_to_wei (tx_fee (sample_tx ''t'' StatusPending))
     = 10 * 10 ^ 18"
proof -
  have g: "on_grid 7 (tx_amount (sample_tx ''t'' StatusPending))" "on_grid 7 (tx_fee (sample_tx ''t'' StatusPending))"
    by (simp_all add: sample_tx_def on_grid_def)
  from xdc_wei_conserved [OF g] show ?thesis by (simp add: sample_tx_def txdc_to_wei_def big_int_def)
qed

text \<open>
  C15: a settlement on the XDC network that is reported as done rests on a poll in which the receipt of its
  own transfer was a success and the head of the chain at least five blocks above it, without wrapping around.
\<close>

theorem xdc_done_is_buried:
  assumes "xdc_submit_transfer D N c fee_wallet E i w = (None, w')" and "wf_txs w" and "tx_available w i"
    and "xe_claim E = None"
  shows "\<exists>h. xe_transfer E = Inr h \<and> list_ex (\<lambda>(receipt, head). \<exists>b n. receipt = Inr (True, b) \<and> head = Inr n \<and> b \<le> n \<and>
    xdc_required_confirmations \<le> n - b + 1) (xe_polls E h)"
proof -
  have "fst (claim_for_submission None i w) = None" using claim_succeeds_iff [OF assms(2)] assms(3) by simp
  with assms(1,4) obtain t w1 where "xdc_after_claim D N c fee_wallet E t w1 = (None, w')"
    by (cases "claim_for_submission None i w") (auto simp: xdc_submit_transfer_def split: sum.splits)
  then obtain h where h: "xe_transfer E = Inr h" "wait_confirmations xdc_required_confirmations (xe_polls E h) = None"
    by (auto simp: xdc_after_claim_def chain_transfer_def split: if_splits sum.splits prod.splits option.splits)
  from wait_confirmations_None [OF h(2)] h(1) show ?thesis
    by (auto simp: list_ex_iff xdc_required_confirmations_def)
qed

lemma xdc_done_is_buried_witness:
  "list_ex (\<lambda>(receipt, head). \<exists>b n. receipt = Inr (True, b) \<and> head = Inr n \<and> b \<le> n \<and>
    xdc_required_confirmations \<le> n - b + 1) (xe_polls sample_xdc_env ''0xh'')"
proof -
  let ?r = "xdc_submit_transfer reference_pkg exact_numeric no_tenant ''0xfee'' sample_xdc_env ''t'' (sample_world StatusPending)"
  have "fst ?r = None" by code_simp
  then have r: "?r = (None, snd ?r)" by (metis prod.collapse)
  have "tx_available (sample_world StatusPending) ''t''" by (simp add: tx_available_def sample_world_tx) (simp add: sample_tx_def)
  moreover have "xe_claim sample_xdc_env = None" "xe_transfer sample_xdc_env = Inr ''0xh''" by (simp_all add: sample_xdc_env_def)
  ultimately show ?thesis using xdc_done_is_buried [OF r sample_world_wf] by simp
qed

end
