(* ===== verification/Utf8.thy ===== *)
theory Utf8
  imports Sanctions
begin

text \<open>
  Encoding and decoding of runes are inverse on valid runes, and decoding yields only valid runes.
  The normal forms of \<^verbatim>\<open>internal/compliance/sanctions.go\<close> go back and forth between strings and runes,
  so their laws rest on this.
\<close>

definition valid_rune :: "rune \<Rightarrow> bool" where
  "valid_rune r \<longleftrightarrow> r \<le> 1114111 \<and> \<not> (55296 \<le> r \<and> r \<le> 57343)"

lemma decode_rune_2:
  "2 \<le> a \<Longrightarrow> a \<le> 31 \<Longrightarrow> b < 64 \<Longrightarrow> decode_rune (192 + a) ((128 + b) # bs) = (a * 64 + b, 1)"
  by (simp add: decode_rune_def is_cont_def)

lemma decode_rune_3:
  "a \<le> 15 \<Longrightarrow> b < 64 \<Longrightarrow> c < 64 \<Longrightarrow> (a = 0 \<longrightarrow> 32 \<le> b) \<Longrightarrow> (a = 13 \<longrightarrow> b \<le> 31)
    \<Longrightarrow> decode_rune (224 + a) ((128 + b) # (128 + c) # bs) = (a * 4096 + b * 64 + c, 2)"
  by (simp add: decode_rune_def is_cont_def)

lemma decode_rune_4:
  "a \<le> 4 \<Longrightarrow> b < 64 \<Longrightarrow> c < 64 \<Longrightarrow> d < 64 \<Longrightarrow> (a = 0 \<longrightarrow> 16 \<le> b) \<Longrightarrow> (a = 4 \<longrightarrow> b \<le> 15)
    \<Longrightarrow> decode_rune (240 + a) ((128 + b) # (128 + c) # (128 + d) # bs)
      = (a * 262144 + b * 4096 + c * 64 + d, 3)"
  by (simp add: decode_rune_def is_cont_def)

lemma split_64: "(r::nat) = r div 64 * 64 + r mod 64"
  by (simp add: div_mult_mod_eq)

lemma split_4096: "(r::nat) = r div 4096 * 4096 + r div 64 mod 64 * 64 + r mod 64"
proof -
  have "r div 64 = r div 64 div 64 * 64 + r div 64 mod 64" by (rule split_64)
  then have "r div 64 * 64 = r div 4096 * 4096 + r div 64 mod 64 * 64"
    unfolding div_mult2_eq [symmetric] by simp
  then show ?thesis using split_64 [of r] by linarith
qed

lemma split_262144:
  "(r::nat) = r div 262144 * 262144 + r div 4096 mod 64 * 4096 + r div 64 mod 64 * 64 + r mod 64"
proof -
  have "r div 4096 = r div 4096 div 64 * 64 + r div 4096 mod 64" by (rule split_64)
  then have "r div 4096 * 4096 = r div 262144 * 262144 + r div 4096 mod 64 * 4096"
    unfolding div_mult2_eq [symmetric] by simp
  then show ?thesis using split_4096 [of r] by linarith
qed

lemma decode_encode_2:
  assumes "128 \<le> r" and "r < 2048"
  shows "decode_bytes (encode_rune r @ bs) = r # decode_bytes bs"
proof -
  define a b where "a = r div 64" and "b = r mod 64"
  have r: "r = a * 64 + b" unfolding a_def b_def by (rule split_64)
  have b: "b < 64" by (simp add: b_def)
  then have a: "2 \<le> a" "a \<le> 31" using r assms by linarith+
  have "encode_rune r = [192 + a, 128 + b]"
    using assms by (simp add: encode_rune_def a_def b_def)
  then show ?thesis by (simp add: decode_rune_2 [OF a b] flip: r)
qed

lemma decode_encode_3:
  assumes "2048 \<le> r" and "r < 65536" and "\<not> (55296 \<le> r \<and> r \<le> 57343)"
  shows "decode_bytes (encode_rune r @ bs) = r # decode_bytes bs"
proof -
  define a b c where "a = r div 4096" and "b = r div 64 mod 64" and "c = r mod 64"
  have r: "r = a * 4096 + b * 64 + c" unfolding a_def b_def c_def by (rule split_4096)
  have b: "b < 64" and c: "c < 64" by (simp_all add: b_def c_def)
  have a: "a \<le> 15" using r assms(2) by linarith
  have a0: "a = 0 \<longrightarrow> 32 \<le> b"
  proof
    assume "a = 0"
    with r c assms(1) show "32 \<le> b" by linarith
  qed
  have a13: "a = 13 \<longrightarrow> b \<le> 31"
  proof
    assume "a = 13"
    with r have "r = 53248 + b * 64 + c" by simp
    with assms(3) b c show "b \<le> 31" by linarith
  qed
  have "encode_rune r = [224 + a, 128 + b, 128 + c]"
    using assms by (auto simp: encode_rune_def a_def b_def c_def)
  then show ?thesis by (simp add: decode_rune_3 [OF a b c a0 a13] numeral_2_eq_2 flip: r)
qed

lemma decode_encode_4:
  assumes "65536 \<le> r" and "r \<le> 1114111"
  shows "decode_bytes (encode_rune r @ bs) = r # decode_bytes bs"
proof -
  define a b c d where "a = r div 262144" and "b = r div 4096 mod 64" and "c = r div 64 mod 64"
    and "d = r mod 64"
  have r: "r = a * 262144 + b * 4096 + c * 64 + d"
    unfolding a_def b_def c_def d_def by (rule split_262144)
  have b: "b < 64" and c: "c < 64" and d: "d < 64" by (simp_all add: b_def c_def d_def)
  have a: "a \<le> 4" using r assms(2) by linarith
  have a0: "a = 0 \<longrightarrow> 16 \<le> b"
  proof
    assume "a = 0"
    with r c d assms(1) show "16 \<le> b" by linarith
  qed
  have a4: "a = 4 \<longrightarrow> b \<le> 15"
  proof
    assume "a = 4"
    with r have "r = 1048576 + b * 4096 + c * 64 + d" by simp
    with assms(2) show "b \<le> 15" by linarith
  qed
  have "encode_rune r = [240 + a, 128 + b, 128 + c, 128 + d]"
    using assms by (simp add: encode_rune_def a_def b_def c_def d_def)
  then show ?thesis by (simp add: decode_rune_4 [OF a b c d a0 a4] numeral_3_eq_3 flip: r)
qed

lemma decode_encode:
  assumes "valid_rune r"
  shows "decode_bytes (encode_rune r @ bs) = r # decode_bytes bs"
proof -
  consider "r < 128" | "128 \<le> r" "r < 2048" | "2048 \<le> r" "r < 65536" | "65536 \<le> r" by linarith
  then show ?thesis
  proof cases
    case 1
    then show ?thesis by (simp add: encode_rune_def decode_rune_def)
  qed (use assms decode_encode_2 decode_encode_3 decode_encode_4 in \<open>auto simp: valid_rune_def\<close>)
qed

lemma encode_rune_bytes: "b \<in> set (encode_rune r) \<Longrightarrow> b < 256"
  by (auto simp: encode_rune_def split: if_splits)

lemma encode_rune_mod: "map (\<lambda>x. x mod 256) (encode_rune r) = encode_rune r"
  by (rule map_idI) (use encode_rune_bytes in auto)

lemma of_char_encoded: "map of_char (string_of_runes rs) = concat (map encode_rune rs)"
  unfolding string_of_runes_def
  by (induction rs) (simp_all add: comp_def encode_rune_mod)

text \<open>The round trip.\<close>

lemma runes_string_of_runes:
  assumes "\<forall>r \<in> set rs. valid_rune r"
  shows "runes (string_of_runes rs) = rs"
  unfolding runes_def of_char_encoded
  using assms by (induction rs) (simp_all add: decode_encode)

lemma is_cont_low: "is_cont c \<Longrightarrow> c - 128 \<le> 63"
  by (auto simp: is_cont_def)

lemma decode_rune_two:
  "194 \<le> b \<Longrightarrow> b \<le> 223 \<Longrightarrow> fst (decode_rune b bs) = rune_error \<or>
     (\<exists>c. is_cont c \<and> fst (decode_rune b bs) = (b - 192) * 64 + (c - 128))"
  by (cases bs) (auto simp: decode_rune_def)

lemma decode_rune_three:
  assumes "224 \<le> b" and "b \<le> 239"
  shows "fst (decode_rune b bs) = rune_error \<or>
     (\<exists>c d. is_cont c \<and> is_cont d \<and> (b = 237 \<longrightarrow> c \<le> 159) \<and>
        fst (decode_rune b bs) = (b - 224) * 4096 + (c - 128) * 64 + (d - 128))"
proof -
  have "decode_rune b bs = (case bs of c1 # c2 # _ \<Rightarrow>
           if is_cont c1 \<and> is_cont c2 \<and> (b = 224 \<longrightarrow> 160 \<le> c1) \<and> (b = 237 \<longrightarrow> c1 \<le> 159)
           then ((b - 224) * 4096 + (c1 - 128) * 64 + (c2 - 128), 2) else (rune_error, 0)
         | _ \<Rightarrow> (rune_error, 0))"
    using assms unfolding decode_rune_def by simp
  then show ?thesis by (simp split: list.split) blast
qed

lemma decode_rune_four:
  assumes "240 \<le> b" and "b \<le> 244"
  shows "fst (decode_rune b bs) = rune_error \<or>
     (\<exists>c d e. is_cont c \<and> is_cont d \<and> is_cont e \<and> (b = 240 \<longrightarrow> 144 \<le> c) \<and> (b = 244 \<longrightarrow> c \<le> 143) \<and>
        fst (decode_rune b bs) = (b - 240) * 262144 + (c - 128) * 4096 + (d - 128) * 64 + (e - 128))"
proof -
  have "decode_rune b bs = (case bs of c1 # c2 # c3 # _ \<Rightarrow>
           if is_cont c1 \<and> is_cont c2 \<and> is_cont c3 \<and> (b = 240 \<longrightarrow> 144 \<le> c1) \<and> (b = 244 \<longrightarrow> c1 \<le> 143)
           then ((b - 240) * 262144 + (c1 - 128) * 4096 + (c2 - 128) * 64 + (c3 - 128), 3)
           else (rune_error, 0)
         | _ \<Rightarrow> (rune_error, 0))"
    using assms unfolding decode_rune_def by simp
  then show ?thesis by (simp split: list.split) blast
qed

lemma decode_rune_other:
  "b < 128 \<Longrightarrow> fst (decode_rune b bs) = b"
  "128 \<le> b \<Longrightarrow> b < 194 \<or> 244 < b \<Longrightarrow> fst (decode_rune b bs) = rune_error"
  by (auto simp: decode_rune_def)

lemma valid_rune_error: "valid_rune rune_error"
  by (simp add: valid_rune_def rune_error_def)

lemma decode_rune_valid: "valid_rune (fst (decode_rune b bs))"
proof -
  consider (one) "b < 128" | (err) "128 \<le> b" "b < 194 \<or> 244 < b" | (two) "194 \<le> b" "b \<le> 223"
    | (three) "224 \<le> b" "b \<le> 239" | (four) "240 \<le> b" "b \<le> 244" by linarith
  then show ?thesis
  proof cases
    case one
    then show ?thesis by (simp add: decode_rune_other valid_rune_def)
  next
    case err
    then show ?thesis by (simp add: decode_rune_other valid_rune_error)
  next
    case two
    show ?thesis
    proof (cases "fst (decode_rune b bs) = rune_error")
      case False
      with decode_rune_two [OF two, of bs] obtain c where c: "is_cont c"
        "fst (decode_rune b bs) = (b - 192) * 64 + (c - 128)" by blast
      define a x where "a = b - 192" and "x = c - 128"
      have "a \<le> 31" using two by (simp add: a_def)
      moreover have "x \<le> 63" using is_cont_low [OF c(1)] by (simp add: x_def)
      ultimately show ?thesis
        using c(2) unfolding valid_rune_def a_def [symmetric] x_def [symmetric] by linarith
    qed (simp add: valid_rune_error)
  next
    case three
    show ?thesis
    proof (cases "fst (decode_rune b bs) = rune_error")
      case False
      with decode_rune_three [OF three, of bs] obtain c d where c: "is_cont c" "is_cont d"
        "b = 237 \<longrightarrow> c \<le> 159" "fst (decode_rune b bs) = (b - 224) * 4096 + (c - 128) * 64 + (d - 128)"
        by blast
      define a x y where "a = b - 224" and "x = c - 128" and "y = d - 128"
      have ay: "a \<le> 15" "x \<le> 63" "y \<le> 63"
        using three is_cont_low [OF c(1)] is_cont_low [OF c(2)] by (simp_all add: a_def x_def y_def)
      have s: "a = 13 \<longrightarrow> x \<le> 31" using three c(3) unfolding a_def x_def by linarith
      have e: "fst (decode_rune b bs) = a * 4096 + x * 64 + y" using c by (simp add: a_def x_def y_def)
      consider "a \<le> 12" | "a = 13" | "14 \<le> a" by linarith
      then show ?thesis
        using e s ay unfolding valid_rune_def by cases linarith+
    qed (simp add: valid_rune_error)
  next
    case four
    show ?thesis
    proof (cases "fst (decode_rune b bs) = rune_error")
      case False
      with decode_rune_four [OF four, of bs] obtain c d e where c: "is_cont c" "is_cont d" "is_cont e"
        "b = 240 \<longrightarrow> 144 \<le> c" "b = 244 \<longrightarrow> c \<le> 143"
        "fst (decode_rune b bs) = (b - 240) * 262144 + (c - 128) * 4096 + (d - 128) * 64 + (e - 128)"
        by blast
      define a x y z where "a = b - 240" and "x = c - 128" and "y = d - 128" and "z = e - 128"
      have ay: "a \<le> 4" "x \<le> 63" "y \<le> 63" "z \<le> 63"
        using four is_cont_low [OF c(1)] is_cont_low [OF c(2)] is_cont_low [OF c(3)]
        by (simp_all add: a_def x_def y_def z_def)
      have s: "a = 0 \<longrightarrow> 16 \<le> x" "a = 4 \<longrightarrow> x \<le> 15" using four c(4,5) unfolding a_def x_def by linarith+
      have r: "fst (decode_rune b bs) = a * 262144 + x * 4096 + y * 64 + z"
        using c by (simp add: a_def x_def y_def z_def)
      consider "a = 0" | "1 \<le> a" "a \<le> 3" | "a = 4" using ay by linarith
      then show ?thesis
        using r s ay unfolding valid_rune_def by cases linarith+
    qed (simp add: valid_rune_error)
  qed
qed

lemma runes_valid: "r \<in> set (runes s) \<Longrightarrow> valid_rune r"
proof -
  have "r \<in> set (decode_bytes bs) \<Longrightarrow> valid_rune r" for bs
    by (induction bs rule: decode_bytes.induct) (auto intro: decode_rune_valid)
  then show "r \<in> set (runes s) \<Longrightarrow> valid_rune r" by (simp add: runes_def)
qed

section \<open>Trimming\<close>

lemma dropWhile_idem: "dropWhile P (dropWhile P xs) = dropWhile P xs"
  by (induction xs) auto

lemma set_trim: "set (trim_runes U rs) \<subseteq> set rs"
  by (fastforce simp: trim_runes_def dest: set_dropWhileD)

lemma dropWhile_hd: "xs = [] \<or> \<not> P (hd xs) \<Longrightarrow> dropWhile P xs = xs"
  by (cases xs) auto

lemma trim_idem: "trim_runes U (trim_runes U rs) = trim_runes U rs"
proof -
  let ?P = "space_rune U" and ?xs = "dropWhile (space_rune U) rs"
  let ?ys = "rev (dropWhile ?P (rev ?xs))"
  have "?ys = [] \<or> \<not> ?P (hd ?ys)"
  proof (cases "?ys = []")
    case False
    then have ne: "?xs \<noteq> []" by (cases ?xs) auto
    obtain zs where z: "rev ?xs = zs @ dropWhile ?P (rev ?xs)"
      by (metis takeWhile_dropWhile_id)
    then have "?xs = ?ys @ rev zs" by (metis rev_append rev_rev_ident)
    with False have "hd ?ys = hd ?xs" by (metis hd_append2)
    with ne hd_dropWhile [of ?P rs] show ?thesis by simp
  qed simp
  then have "dropWhile ?P ?ys = ?ys" by (rule dropWhile_hd)
  then show ?thesis by (simp add: trim_runes_def dropWhile_idem)
qed

text \<open>\<^verbatim>\<open>strings.TrimSpace\<close> on a well-formed string.\<close>

definition trim_space :: "unicode_tables \<Rightarrow> string \<Rightarrow> string" where
  "trim_space U s = string_of_runes (trim_runes U (runes s))"

lemma runes_trim_space: "runes (trim_space U s) = trim_runes U (runes s)"
  unfolding trim_space_def
  by (rule runes_string_of_runes) (use set_trim runes_valid in blast)

lemma trim_space_idem: "trim_space U (trim_space U s) = trim_space U s"
  by (simp add: trim_space_def [of U "trim_space U s"] runes_trim_space trim_idem)
     (simp add: trim_space_def)

lemma normalize_address_trim: "normalize_address U (trim_space U s) = normalize_address U s"
  by (simp add: normalize_address_def runes_trim_space trim_idem)

section \<open>Properties\<close>

text \<open>
  Decoding the encoding of valid runes gives them back, and every string decodes to valid runes;
  so trimming a string twice is trimming it once, and a normalised address does not depend on the
  blanks around it.
\<close>

theorem utf8_round_trip:
  assumes "list_all valid_rune rs"
  shows "runes (string_of_runes rs) = rs" and "list_all valid_rune (runes s)"
    and "normalize_address U (trim_space U s) = normalize_address U s"
  using assms runes_string_of_runes runes_valid normalize_address_trim by (auto simp: list_all_iff)

lemma utf8_round_trip_witness:
  "runes (string_of_runes [65, 233, 8364, 128512]) = [65, 233, 8364, 128512]"
  by (rule utf8_round_trip(1)) (simp add: valid_rune_def)

end
