(* ===== verification/Refresh.thy ===== *)
theory Refresh
  imports Utf8
begin

text \<open>
  The daily refresh of the sanctions list: \<^verbatim>\<open>internal/compliance/sdn.go\<close> from the decoded XML entries on,
  \<^verbatim>\<open>ReplaceSanctionsEntities\<close> of \<^verbatim>\<open>internal/postgres/compliance_repo.go\<close>, and the worker of
  \<^verbatim>\<open>internal/compliance/worker.go\<close> with its rule that a failed refresh keeps the previous list.
\<close>

section \<open>The list file\<close>

record sdn_entry =
  sd_uid :: string
  sd_first :: string
  sd_last :: string
  sd_type :: string
  sd_programs :: "string list"
  sd_akas :: "(string \<times> string) list"   \<comment> \<open>first and last name\<close>
  sd_ids :: "(string \<times> string) list"    \<comment> \<open>id type and number\<close>

definition source_ofac :: string where "source_ofac = ''ofac_sdn''"

definition digital_currency_id_type :: string where
  "digital_currency_id_type = ''digital currency address''"

definition to_lower :: "unicode_tables \<Rightarrow> string \<Rightarrow> string" where
  "to_lower U s = string_of_runes (map (lower_rune U) (runes s))"

definition has_prefix :: "string \<Rightarrow> string \<Rightarrow> bool" where
  "has_prefix s p \<longleftrightarrow> take (length p) s = p"

definition join_name :: "unicode_tables \<Rightarrow> string \<Rightarrow> string \<Rightarrow> string" where
  "join_name U fst_name last_name =
     (let f = trim_space U fst_name; l = trim_space U last_name in
      if f = '''' then l else if l = '''' then f else f @ '' '' @ l)"

text \<open>The closure \<^verbatim>\<open>add\<close>: the keys seen so far and the entities in order.\<close>

definition sdn_key :: "unicode_tables \<Rightarrow> string \<Rightarrow> string \<Rightarrow> string \<Rightarrow> string" where
  "sdn_key U uid name address =
     uid @ [CHR 0x00] @ normalize_name U name @ [CHR 0x00] @ normalize_address U address"

definition sdn_add ::
  "unicode_tables \<Rightarrow> go_time \<Rightarrow> sdn_entry \<Rightarrow> string \<times> string \<times> string
    \<Rightarrow> string list \<times> sanctions_entity list \<Rightarrow> string list \<times> sanctions_entity list" where
  "sdn_add U now e c acc =
     (case (c, acc) of ((nm, address, address_kind), (seen, out)) \<Rightarrow>
       (let name = trim_space U nm; key = sdn_key U (sd_uid e) name address in
        if name = '''' \<and> address = '''' then (seen, out)
        else if key \<in> set seen then (seen, out)
        else (key # seen, out @ [\<lparr>se_uid = sd_uid e, se_name = name, se_kind = sd_type e,
               se_address = address, se_address_kind = address_kind, se_programs = sd_programs e,
               se_source = source_ofac, se_refreshed = now\<rparr>])))"

text \<open>The calls of \<^verbatim>\<open>add\<close> one entry makes: its digital currency addresses, its name, its aliases.\<close>

definition is_address_id :: "unicode_tables \<Rightarrow> string \<times> string \<Rightarrow> bool" where
  "is_address_id U i \<longleftrightarrow>
     has_prefix (to_lower U (trim_space U (fst i))) digital_currency_id_type \<and>
     trim_space U (snd i) \<noteq> ''''"

definition sdn_calls :: "unicode_tables \<Rightarrow> sdn_entry \<Rightarrow> (string \<times> string \<times> string) list" where
  "sdn_calls U e =
     (let primary = join_name U (sd_first e) (sd_last e) in
      map (\<lambda>i. (primary, trim_space U (snd i), trim_space U (fst i))) (filter (is_address_id U) (sd_ids e))
      @ (primary, '''', '''') # map (\<lambda>a. (join_name U (fst a) (snd a), '''', '''')) (sd_akas e))"

definition sdn_entry_step ::
  "unicode_tables \<Rightarrow> go_time \<Rightarrow> sdn_entry \<Rightarrow> string list \<times> sanctions_entity list
    \<Rightarrow> string list \<times> sanctions_entity list" where
  "sdn_entry_step U now e acc = fold (sdn_add U now e) (sdn_calls U e) acc"

text \<open>\<^verbatim>\<open>ParseSDN\<close> on what the XML decoder delivers: the entries, or the error it stopped with.\<close>

definition parse_sdn ::
  "unicode_tables \<Rightarrow> go_time \<Rightarrow> err + sdn_entry list \<Rightarrow> err + sanctions_entity list" where
  "parse_sdn U now decoded =
     (case decoded of Inl e \<Rightarrow> Inl e
      | Inr es \<Rightarrow> Inr (snd (fold (sdn_entry_step U now) es ([], []))))"

section \<open>Replacing the table\<close>

datatype replace_stage = ReplaceBegin | ReplaceUpsert nat | ReplaceClose | ReplaceDelete | ReplaceCommit

definition entity_key :: "sanctions_entity \<Rightarrow> string \<times> string \<times> string" where
  "entity_key e = (se_uid e, se_name e, se_address e)"

definition upsert_entity ::
  "go_time \<Rightarrow> sanctions_entity \<Rightarrow> sanctions_entity list \<Rightarrow> sanctions_entity list" where
  "upsert_entity refreshed e rows =
     (if \<exists>r \<in> set rows. entity_key r = entity_key e
      then update_where (\<lambda>r. entity_key r = entity_key e)
             (\<lambda>r. r\<lparr>se_kind := se_kind e, se_address_kind := se_address_kind e,
                    se_programs := se_programs e, se_source := se_source e,
                    se_refreshed := refreshed\<rparr>) rows
      else rows @ [e\<lparr>se_refreshed := refreshed\<rparr>])"

fun first_error :: "(nat \<Rightarrow> err option) \<Rightarrow> nat \<Rightarrow> err option" where
  "first_error q 0 = None"
| "first_error q (Suc n) = (case first_error q n of Some e \<Rightarrow> Some e | None \<Rightarrow> q n)"

text \<open>One database transaction: any failure leaves the table as it was.\<close>

definition replace_sanctions_entities ::
  "(replace_stage \<Rightarrow> err option) \<Rightarrow> sanctions_entity list \<Rightarrow> go_time \<Rightarrow> sanctions_entity list
    \<Rightarrow> (err + int) \<times> sanctions_entity list" where
  "replace_sanctions_entities q es refreshed rows =
     (case es of [] \<Rightarrow> (Inr 0, rows)
      | e0 # _ \<Rightarrow>
        (case q ReplaceBegin of Some e \<Rightarrow> (Inl (Wrap ''begin sanctions refresh'' e), rows) | None \<Rightarrow>
        (case first_error (q \<circ> ReplaceUpsert) (length es) of
           Some e \<Rightarrow> (Inl (Wrap ''upsert sanctions entity'' e), rows) | None \<Rightarrow>
        (case q ReplaceClose of Some e \<Rightarrow> (Inl (Wrap ''close sanctions batch'' e), rows) | None \<Rightarrow>
        (case q ReplaceDelete of
           Some e \<Rightarrow> (Inl (Wrap ''prune stale sanctions entities'' e), rows) | None \<Rightarrow>
        (case q ReplaceCommit of Some e \<Rightarrow> (Inl (Wrap ''commit sanctions refresh'' e), rows) | None \<Rightarrow>
           (Inr (int (length es)),
            filter (\<lambda>r. \<not> (se_source r = se_source e0 \<and> se_refreshed r < refreshed))
              (fold (upsert_entity refreshed) es rows))))))))"

section \<open>The worker\<close>

record sanctions_update =
  up_status :: string
  up_count :: int
  up_failed :: "err option"

record refresh_state =
  rf_rows :: "sanctions_entity list"
  rf_updates :: "sanctions_update list"
  rf_events :: "event list"
  rf_set :: "sanctions_set option"

text \<open>
  What the environment answers: the download and the decoded document, the clock, the driver, and
  whether the audit row and the webhook go through.
\<close>

record refresh_env =
  rn_fetch :: "err + (err + sdn_entry list)"
  rn_now :: go_time
  rn_db :: "replace_stage \<Rightarrow> err option"
  rn_audit :: "err option"
  rn_hooks :: bool
  rn_dispatch :: "err option"

definition empty_list_error :: err where
  "empty_list_error =
     Opaque ''sdn list parsed to zero entities; refusing to replace the existing list''"

definition refresh_step ::
  "unicode_tables \<Rightarrow> refresh_env \<Rightarrow> refresh_state \<Rightarrow> (err + int) \<times> refresh_state" where
  "refresh_step U E s =
     (case rn_fetch E of Inl e \<Rightarrow> (Inl e, s)
      | Inr decoded \<Rightarrow>
        (case parse_sdn U (rn_now E) decoded of
           Inl e \<Rightarrow> (Inl (Wrap ''parse sdn list'' e), s)
         | Inr es \<Rightarrow>
           if es = [] then (Inl empty_list_error, s)
           else (case replace_sanctions_entities (rn_db E) es (rn_now E) (rf_rows s) of
               (Inl e, rows) \<Rightarrow> (Inl (Wrap ''persist sdn entities'' e), s\<lparr>rf_rows := rows\<rparr>)
             | (Inr n, rows) \<Rightarrow> (Inr n, s\<lparr>rf_rows := rows,
                 rf_set := map_option (replace_set U (map Some es) (rn_now E)) (rf_set s)\<rparr>))))"

definition record_update ::
  "err option \<Rightarrow> sanctions_update \<Rightarrow> refresh_state \<Rightarrow> refresh_state" where
  "record_update q u s = (if q = None then s\<lparr>rf_updates := rf_updates s @ [u]\<rparr> else s)"

definition handle_refresh ::
  "unicode_tables \<Rightarrow> refresh_env \<Rightarrow> refresh_state \<Rightarrow> err option \<times> refresh_state" where
  "handle_refresh U E s =
     (case refresh_step U E s of
        (Inl e, s1) \<Rightarrow>
          (let s2 = record_update (rn_audit E)
                      \<lparr>up_status = ''failed'', up_count = 0, up_failed = Some e\<rparr> s1
           in (Some e, if rn_hooks E \<and> rn_dispatch E = None
                       then s2\<lparr>rf_events := rf_events s2 @ [EventSanctionsRefreshFailed]\<rparr> else s2))
      | (Inr n, s1) \<Rightarrow>
          (None, record_update (rn_audit E)
                   \<lparr>up_status = ''success'', up_count = n, up_failed = None\<rparr> s1))"

section \<open>Parsing keeps every address\<close>

definition no_nul :: "string \<Rightarrow> bool" where "no_nul s \<longleftrightarrow> CHR 0x00 \<notin> set s"

lemma no_nul_suffix:
  assumes "xs @ [CHR 0x00] @ a = ys @ [CHR 0x00] @ b" and "no_nul a" and "no_nul b"
  shows "a = b"
proof -
  have "takeWhile (\<lambda>c. c \<noteq> CHR 0x00) (rev (zs @ [CHR 0x00] @ c)) = rev c" if "no_nul c" for zs c
  proof -
    have "takeWhile (\<lambda>c. c \<noteq> CHR 0x00) (rev c @ CHR 0x00 # rev zs) = rev c"
      by (subst takeWhile_append2) (use that in \<open>auto simp: no_nul_def\<close>)
    then show ?thesis by simp
  qed
  from this [OF assms(2), of xs] this [OF assms(3), of ys] have "rev a = rev b"
    unfolding assms(1) by simp
  then show ?thesis by simp
qed

lemma sdn_key_address:
  assumes "sdn_key U u n a = sdn_key U u' n' b"
    and "no_nul (normalize_address U a)" and "no_nul (normalize_address U b)"
  shows "normalize_address U a = normalize_address U b"
  using no_nul_suffix [of "u @ [CHR 0x00] @ normalize_name U n" "normalize_address U a"
      "u' @ [CHR 0x00] @ normalize_name U n'" "normalize_address U b"] assms
  by (simp add: sdn_key_def)

text \<open>What \<^verbatim>\<open>add\<close> keeps: each key seen belongs to an entity that was added.\<close>

definition sdn_inv :: "unicode_tables \<Rightarrow> string list \<times> sanctions_entity list \<Rightarrow> bool" where
  "sdn_inv U acc \<longleftrightarrow> (\<forall>k \<in> set (fst acc). \<exists>e \<in> set (snd acc).
     k = sdn_key U (se_uid e) (se_name e) (se_address e)) \<and>
     (\<forall>e \<in> set (snd acc). se_source e = source_ofac \<and> no_nul (normalize_address U (se_address e)))"

lemma sdn_add_mono: "set (snd acc) \<subseteq> set (snd (sdn_add U now e c acc))"
  by (auto simp: sdn_add_def Let_def split: prod.splits)

lemma sdn_add_inv:
  assumes "sdn_inv U acc" and "no_nul (normalize_address U (fst (snd c)))"
  shows "sdn_inv U (sdn_add U now e c acc)"
  using assms by (auto simp: sdn_inv_def sdn_add_def Let_def split: prod.splits)

lemma sdn_add_covers:
  assumes "sdn_inv U acc" and "no_nul (normalize_address U (fst (snd c)))" and "fst (snd c) \<noteq> ''''"
  shows "\<exists>x \<in> set (snd (sdn_add U now e c acc)).
    normalize_address U (se_address x) = normalize_address U (fst (snd c))"
proof (cases "sdn_key U (sd_uid e) (trim_space U (fst c)) (fst (snd c)) \<in> set (fst acc)")
  case True
  with assms(1) obtain x where x: "x \<in> set (snd acc)"
    "sdn_key U (sd_uid e) (trim_space U (fst c)) (fst (snd c))
      = sdn_key U (se_uid x) (se_name x) (se_address x)"
    and "no_nul (normalize_address U (se_address x))" by (auto simp: sdn_inv_def)
  with sdn_key_address [OF x(2)] assms(2)
  have "normalize_address U (se_address x) = normalize_address U (fst (snd c))" by simp
  with x(1) sdn_add_mono [of acc U now e c] show ?thesis by blast
next
  case False
  with assms(3) show ?thesis by (auto simp: sdn_add_def Let_def split: prod.splits)
qed

lemma sdn_fold_mono: "set (snd acc) \<subseteq> set (snd (fold (sdn_add U now e) cs acc))"
proof (induction cs arbitrary: acc)
  case (Cons c cs)
  from Cons [of "sdn_add U now e c acc"] sdn_add_mono [of acc U now e c] show ?case by auto
qed simp

lemma sdn_fold_inv:
  "sdn_inv U acc \<Longrightarrow> \<forall>c \<in> set cs. no_nul (normalize_address U (fst (snd c)))
    \<Longrightarrow> sdn_inv U (fold (sdn_add U now e) cs acc)"
  by (induction cs arbitrary: acc) (simp_all add: sdn_add_inv)

lemma sdn_fold_covers:
  assumes "sdn_inv U acc" and "\<forall>c \<in> set cs. no_nul (normalize_address U (fst (snd c)))"
    and "c \<in> set cs" and "fst (snd c) \<noteq> ''''"
  shows "\<exists>x \<in> set (snd (fold (sdn_add U now e) cs acc)).
    normalize_address U (se_address x) = normalize_address U (fst (snd c))"
  using assms
proof (induction cs arbitrary: acc)
  case (Cons d ds)
  show ?case
  proof (cases "c = d")
    case True
    with Cons.prems sdn_add_covers [of U acc c now e] show ?thesis
      using sdn_fold_mono [of "sdn_add U now e c acc" U now e ds] by simp blast
  next
    case False
    with Cons.prems have "c \<in> set ds" by simp
    with Cons.prems Cons.IH [of "sdn_add U now e d acc"] show ?thesis by (simp add: sdn_add_inv)
  qed
qed simp

text \<open>XML has no NUL character; the normal forms of the addresses in the file have none either.\<close>

definition sdn_clean :: "unicode_tables \<Rightarrow> sdn_entry list \<Rightarrow> bool" where
  "sdn_clean U es \<longleftrightarrow> (\<forall>e \<in> set es. \<forall>i \<in> set (sd_ids e). no_nul (normalize_address U (snd i)))"

lemma normalize_address_empty: "normalize_address U '''' = ''''"
  by (simp add: normalize_address_def runes_def trim_runes_def string_of_runes_def)

lemma sdn_calls_clean:
  assumes "\<forall>i \<in> set (sd_ids e). no_nul (normalize_address U (snd i))"
  shows "\<forall>c \<in> set (sdn_calls U e). no_nul (normalize_address U (fst (snd c)))"
  using assms
  by (auto simp: sdn_calls_def Let_def normalize_address_trim normalize_address_empty no_nul_def)

lemma sdn_step_inv:
  assumes "sdn_inv U acc" and "\<forall>i \<in> set (sd_ids e). no_nul (normalize_address U (snd i))"
  shows "sdn_inv U (sdn_entry_step U now e acc)"
  unfolding sdn_entry_step_def by (rule sdn_fold_inv [OF assms(1) sdn_calls_clean [OF assms(2)]])

lemma sdn_steps_mono: "set (snd acc) \<subseteq> set (snd (fold (sdn_entry_step U now) es acc))"
proof (induction es arbitrary: acc)
  case (Cons e es)
  from Cons [of "sdn_entry_step U now e acc"] show ?case
    using sdn_fold_mono [of acc U now e "sdn_calls U e"] by (auto simp: sdn_entry_step_def)
qed simp

lemma sdn_steps_cover:
  assumes "sdn_inv U acc" and "sdn_clean U es" and "e \<in> set es" and "i \<in> set (sd_ids e)"
    and "is_address_id U i"
  shows "\<exists>x \<in> set (snd (fold (sdn_entry_step U now) es acc)).
    normalize_address U (se_address x) = normalize_address U (snd i)"
  using assms
proof (induction es arbitrary: acc)
  case (Cons d ds)
  show ?case
  proof (cases "e = d")
    case True
    have "(join_name U (sd_first e) (sd_last e), trim_space U (snd i), trim_space U (fst i))
        \<in> set (sdn_calls U e)" (is "?c \<in> _")
      using Cons.prems by (auto simp: sdn_calls_def Let_def)
    then have "\<exists>x \<in> set (snd (sdn_entry_step U now e acc)).
        normalize_address U (se_address x) = normalize_address U (fst (snd ?c))"
      unfolding sdn_entry_step_def
      by (rule sdn_fold_covers [OF Cons.prems(1), rotated])
         (use Cons.prems True in \<open>auto simp: sdn_clean_def is_address_id_def intro!: sdn_calls_clean\<close>)
    with True show ?thesis
      using sdn_steps_mono [of "sdn_entry_step U now e acc" U now ds]
      by (auto simp: normalize_address_trim)
  next
    case False
    with Cons.prems have e: "e \<in> set ds" and c: "sdn_clean U ds"
      and d: "\<forall>i \<in> set (sd_ids d). no_nul (normalize_address U (snd i))"
      by (auto simp: sdn_clean_def)
    from Cons.IH [OF sdn_step_inv [OF Cons.prems(1) d] c e Cons.prems(4,5)] show ?thesis by simp
  qed
qed simp

lemma parse_sdn_covers:
  assumes "parse_sdn U now (Inr es) = Inr out" and "sdn_clean U es" and "e \<in> set es"
    and "i \<in> set (sd_ids e)" and "is_address_id U i"
  shows "\<exists>x \<in> set out. normalize_address U (se_address x) = normalize_address U (snd i)"
proof -
  have "sdn_inv U ([], [])" by (simp add: sdn_inv_def)
  from sdn_steps_cover [OF this assms(2-5), of now] assms(1) show ?thesis by (auto simp: parse_sdn_def)
qed

section \<open>The refresh\<close>

lemma replace_failed:
  "replace_sanctions_entities q es t rows = (Inl e, rows') \<Longrightarrow> rows' = rows"
  by (auto simp: replace_sanctions_entities_def split: list.splits option.splits)

lemma refresh_failed: "refresh_step U E s = (Inl e, s') \<Longrightarrow> s' = s"
  by (auto simp: refresh_step_def dest: replace_failed split: sum.splits if_splits prod.splits)

lemma refresh_ok:
  assumes "refresh_step U E s = (Inr n, s')"
  obtains decoded es where "rn_fetch E = Inr (Inr decoded)" "parse_sdn U (rn_now E) (Inr decoded) = Inr es"
    "es \<noteq> []" "rf_set s' = map_option (replace_set U (map Some es) (rn_now E)) (rf_set s)"
    "n = int (length es)"
proof -
  from assms obtain d es where d: "rn_fetch E = Inr d" "parse_sdn U (rn_now E) d = Inr es" "es \<noteq> []"
    and r: "(case replace_sanctions_entities (rn_db E) es (rn_now E) (rf_rows s) of
               (Inl e, rows) \<Rightarrow> (Inl (Wrap ''persist sdn entities'' e), s\<lparr>rf_rows := rows\<rparr>)
             | (Inr n, rows) \<Rightarrow> (Inr n, s\<lparr>rf_rows := rows,
                 rf_set := map_option (replace_set U (map Some es) (rn_now E)) (rf_set s)\<rparr>)) = (Inr n, s')"
    by (auto simp: refresh_step_def split: sum.splits if_splits)
  from d(2) obtain decoded where "d = Inr decoded" by (auto simp: parse_sdn_def split: sum.splits)
  moreover from r obtain rows where "replace_sanctions_entities (rn_db E) es (rn_now E) (rf_rows s) = (Inr n, rows)"
    and "rf_set s' = map_option (replace_set U (map Some es) (rn_now E)) (rf_set s)"
    by (auto split: prod.splits sum.splits)
  moreover from this(1) d(3) have "n = int (length es)"
    by (auto simp: replace_sanctions_entities_def split: list.splits option.splits)
  ultimately show ?thesis using d that by blast
qed

lemma handle_refresh_failed:
  assumes "handle_refresh U E s = (Some e, s')"
  shows "rf_rows s' = rf_rows s" and "rf_set s' = rf_set s"
  using assms
  by (auto simp: handle_refresh_def record_update_def Let_def dest!: refresh_failed
      split: prod.splits sum.splits if_splits)

lemma handle_refresh_ok:
  assumes "handle_refresh U E s = (None, s')"
  obtains s1 n where "refresh_step U E s = (Inr n, s1)" "rf_rows s' = rf_rows s1" "rf_set s' = rf_set s1"
  using assms
  by (auto simp: handle_refresh_def record_update_def Let_def split: prod.splits sum.splits if_splits)

text \<open>After a refresh that succeeded, an address of the file is blocked in whatever case it is written.\<close>

lemma refreshed_address_blocked:
  assumes "handle_refresh U E s = (None, s')" and "rf_set s' = Some st"
    and "rn_fetch E = Inr (Inr es)" and "sdn_clean U es"
    and "e \<in> set es" and "i \<in> set (sd_ids e)" and "is_address_id U i"
    and "normalize_address U (rq_to_key rq) = normalize_address U (snd i)" and "rq_to_key rq \<noteq> ''''"
  shows "\<exists>d. sanctions_screen U (Some st) threshold rq = Inr d \<and> dc_status d = ScreeningBlocked"
proof -
  obtain s1 n where "refresh_step U E s = (Inr n, s1)" and s1: "rf_set s' = rf_set s1"
    using handle_refresh_ok [OF assms(1)] by blast
  then obtain out where p: "parse_sdn U (rn_now E) (Inr es) = Inr out" and "out \<noteq> []"
    and "rf_set s1 = map_option (replace_set U (map Some out) (rn_now E)) (rf_set s)"
    using refresh_ok assms(3) by (metis Inr_inject)
  with assms(2) s1 obtain s0 where st: "st = replace_set U (map Some out) (rn_now E) s0"
    by auto
  obtain x where x: "x \<in> set out" "normalize_address U (se_address x) = normalize_address U (snd i)"
    using parse_sdn_covers [OF p assms(4-7)] by blast
  have "trim_runes U (runes (snd i)) \<noteq> []"
    using assms(7) by (auto simp: is_address_id_def trim_space_def string_of_runes_def)
  then have "normalize_address U (snd i) \<noteq> ''''"
    by (cases "trim_runes U (runes (snd i))")
       (auto simp: normalize_address_def string_of_runes_def encode_rune_def)
  with x(2) have "normalize_address U (se_address x) \<noteq> ''''" by simp
  then have ne: "trim_runes U (runes (se_address x)) \<noteq> []"
    by (auto simp: normalize_address_def string_of_runes_def)
  from x(1) have "Some x \<in> set (map Some out)" by simp
  from index_address_complete [OF this ne, of Map.empty]
  have "ss_addresses st (normalize_address U (rq_to_key rq)) \<noteq> None"
    using x(2) assms(8) \<open>out \<noteq> []\<close> by (simp add: st replace_set_def)
  moreover have "ss_loaded st" using \<open>out \<noteq> []\<close> by (simp add: st replace_set_def)
  ultimately show ?thesis using assms(9) by (auto simp: sanctions_screen_def match_address_def)
qed

section \<open>Properties\<close>

text \<open>
  C10: after a refresh that succeeded, a payment to any digital-currency address of the file is
  blocked, in whatever case and with whatever blanks around it the address is written.
\<close>

theorem listed_address_is_blocked:
  assumes "handle_refresh U E s = (None, s')" and "rf_set s' = Some st"
    and "rn_fetch E = Inr (Inr es)" and "sdn_clean U es"
    and "e \<in> set es" and "i \<in> set (sd_ids e)" and "is_address_id U i"
    and "normalize_address U (rq_to_key rq) = normalize_address U (snd i)" and "rq_to_key rq \<noteq> ''''"
  shows "\<exists>d. sanctions_screen U (Some st) threshold rq = Inr d \<and> dc_status d = ScreeningBlocked"
  by (rule refreshed_address_blocked [OF assms])

definition sample_sdn :: sdn_entry where
  "sample_sdn = \<lparr>sd_uid = ''7'', sd_first = ''Ivan'', sd_last = ''Petrov'', sd_type = ''Individual'',
     sd_programs = [], sd_akas = [], sd_ids = [(''Digital Currency Address - XLM'', '' gabc '')]\<rparr>"

definition sample_refresh :: refresh_env where
  "sample_refresh = \<lparr>rn_fetch = Inr (Inr [sample_sdn]), rn_now = 5, rn_db = (\<lambda>_. None), rn_audit = None,
     rn_hooks = True, rn_dispatch = None\<rparr>"

definition empty_refresh :: refresh_state where
  "empty_refresh = \<lparr>rf_rows = [], rf_updates = [], rf_events = [], rf_set = Some new_sanctions_set\<rparr>"

lemma listed_address_is_blocked_witness:
  "\<exists>st d. rf_set (snd (handle_refresh ascii_tables sample_refresh empty_refresh)) = Some st \<and>
     sanctions_screen ascii_tables (Some st) 2
       \<lparr>rq_org = '''', rq_from_wallet = '''', rq_to_wallet = '''', rq_from_key = '''', rq_to_key = ''GABC'',
        rq_to_federation = '''', rq_asset = '''', rq_amount = 0\<rparr> = Inr d \<and> dc_status d = ScreeningBlocked"
proof -
  let ?i = "(''Digital Currency Address - XLM'', '' gabc '')"
  let ?h = "handle_refresh ascii_tables sample_refresh empty_refresh"
  have n: "normalize_address ascii_tables '' gabc '' = ''GABC''"
    "normalize_address ascii_tables ''GABC'' = ''GABC''" by code_simp+
  have c: "sdn_clean ascii_tables [sample_sdn]" by (simp add: sdn_clean_def sample_sdn_def n no_nul_def)
  have a: "is_address_id ascii_tables ?i" by code_simp
  obtain out where out: "parse_sdn ascii_tables 5 (Inr [sample_sdn]) = Inr out"
    by (simp add: parse_sdn_def)
  have "out \<noteq> []" using parse_sdn_covers [OF out c _ _ a] by (auto simp: sample_sdn_def)
  then obtain o1 os where o1: "out = o1 # os" by (cases out) auto
  have q: "first_error (q \<circ> ReplaceUpsert) m = None" if "q = (\<lambda>_. None)" for q and m
    by (induction m) (simp_all add: that)
  have r: "fst ?h = None" and set: "rf_set (snd ?h) \<noteq> None"
    using out by (simp_all add: handle_refresh_def refresh_step_def sample_refresh_def o1
        replace_sanctions_entities_def q empty_refresh_def record_update_def)
  then obtain st where st: "rf_set (snd ?h) = Some st" by auto
  have ok: "?h = (None, snd ?h)" using r by (metis prod.collapse)
  have "\<exists>d. sanctions_screen ascii_tables (Some st) 2
       \<lparr>rq_org = '''', rq_from_wallet = '''', rq_to_wallet = '''', rq_from_key = '''', rq_to_key = ''GABC'',
        rq_to_federation = '''', rq_asset = '''', rq_amount = 0\<rparr> = Inr d \<and> dc_status d = ScreeningBlocked"
    by (rule listed_address_is_blocked [where e = sample_sdn, OF ok st _ c _ _ a])
       (simp_all add: sample_refresh_def sample_sdn_def n)
  with st show ?thesis by blast
qed

text \<open>
  C11: a refresh that reports an error, at any stage and also when the file holds no entity, changes
  neither the table nor the set in memory.
\<close>

theorem failed_refresh_keeps_list:
  assumes "handle_refresh U E s = (Some e, s')"
  shows "rf_rows s' = rf_rows s \<and> rf_set s' = rf_set s"
  using handle_refresh_failed [OF assms] by simp

lemma failed_refresh_keeps_list_witness:
  "rf_set (snd (handle_refresh ascii_tables (sample_refresh\<lparr>rn_fetch := Inr (Inr [])\<rparr>) empty_refresh))
     = Some new_sanctions_set"
proof -
  let ?h = "handle_refresh ascii_tables (sample_refresh\<lparr>rn_fetch := Inr (Inr [])\<rparr>) empty_refresh"
  have "?h = (Some empty_list_error, snd ?h)"
    by (simp add: handle_refresh_def refresh_step_def parse_sdn_def sample_refresh_def Let_def)
  from failed_refresh_keeps_list [OF this] show ?thesis by (simp add: empty_refresh_def)
qed

end
