(* ===== verification/Batches.thy ===== *)
theory Batches
  imports Transfers
begin

text \<open>
  \<^verbatim>\<open>internal/batch\<close>: creation of a batch, each item through the transfer service, the batch status
  derived from its transfers, and the CSV export. \<open>csv_read\<close> is a reader of the format, against which
  the export is checked.
\<close>

definition max_items :: nat where "max_items = 100"

record batch_item =
  it_to :: string
  it_address :: string
  it_asset :: string
  it_amount :: decimal
  it_reference :: string

text \<open>
  The environment of a call: the clock, the ids and the driver for the batch row and, per item, the
  environment of the transfer service, its screener, and what happens to the row of a failed item.
\<close>

record batch_env =
  be_now :: go_time
  be_uuid :: string
  be_q :: "err option"
  be_item :: "nat \<Rightarrow> initiate_env"
  be_screener :: "nat \<Rightarrow> screener_iface option"
  be_fail_uuid :: "nat \<Rightarrow> string"
  be_fail_now :: "nat \<Rightarrow> go_time"
  be_fail_q :: "nat \<Rightarrow> err option"

definition create_batch_row :: "ctx \<Rightarrow> err option \<Rightarrow> batch \<Rightarrow> world \<Rightarrow> (err + batch) \<times> world" where
  "create_batch_row c q b w =
     (let b' = (if cx_tenant c \<noteq> '''' then b\<lparr>bt_tenant := Some (cx_tenant c)\<rparr> else b);
          row = b'\<lparr>bt_tenant := null_ptr (bt_tenant b')\<rparr>;
          failed = (\<lambda>e. (Inl (Wrap ''insert batch'' e), w)) in
      case q of Some e \<Rightarrow> failed e
      | None \<Rightarrow>
        if \<exists>x \<in> set (w_batches w). bt_id x = bt_id b then failed unique_violation
        else if \<not> ref_ok (the_default '''' (bt_tenant row)) (map te_id (w_tenants w))
        then failed foreign_key_violation
        else (Inr b', w\<lparr>w_batches := w_batches w @ [row]\<rparr>))"

definition get_batch_row :: "ctx \<Rightarrow> err option \<Rightarrow> string \<Rightarrow> world \<Rightarrow> err + batch" where
  "get_batch_row c q i w =
     (case q of Some e \<Rightarrow> Inl (Wrap ''get batch by id'' e)
      | None \<Rightarrow> (case find (\<lambda>b. bt_id b = i \<and> in_scope c (bt_tenant b)) (w_batches w) of
                  None \<Rightarrow> Inl (Dom ErrBatchNotFound) | Some b \<Rightarrow> Inr b))"

definition item_order :: "string \<Rightarrow> string \<Rightarrow> batch_item \<Rightarrow> transfer_order" where
  "item_order from_id b it =
     (if it_address it \<noteq> ''''
      then batch_payout_order from_id (it_address it) (it_asset it) (it_amount it) b (it_reference it)
      else batch_transfer_order from_id (it_to it) (it_asset it) (it_amount it) b (it_reference it))"

definition failed_item_tx ::
  "string \<Rightarrow> go_time \<Rightarrow> string \<Rightarrow> string \<Rightarrow> batch_item \<Rightarrow> transaction" where
  "failed_item_tx i now from_id b it =
     \<lparr>tx_id = i, tx_hash = '''', tx_kind = TypeTransfer, tx_status = StatusFailed, tx_from = from_id,
      tx_to = it_to it, tx_to_address = it_address it, tx_asset = it_asset it,
      tx_amount = it_amount it, tx_fee = 0, tx_fee_bps = 0, tx_tenant = None, tx_batch = Some b,
      tx_reference = it_reference it, tx_created = now, tx_reconciled = None, tx_requeues = 0,
      tx_idem_key = '''', tx_fiat_rail = None, tx_fiat_ref = None, tx_fiat_status = None,
      tx_local_currency = None, tx_local_amount = None\<rparr>"

text \<open>The loop over the items; \<open>k\<close> is the index of the next one.\<close>

fun batch_items ::
  "decimal_pkg \<Rightarrow> numeric_col \<Rightarrow> ctx \<Rightarrow> batch_env \<Rightarrow> string \<Rightarrow> string \<Rightarrow> nat \<Rightarrow> batch_item list \<Rightarrow> world
    \<Rightarrow> (err + transaction list) \<times> world" where
  "batch_items D N c E from_id b k [] w = (Inr [], w)"
| "batch_items D N c E from_id b k (it # its) w =
     (case (case initiate D N c (be_screener E k) (be_item E k) (item_order from_id b it) w of
              (Inr t, w1) \<Rightarrow> (Inr t, w1)
            | (Inl e, w1) \<Rightarrow>
                create_tx N c (be_fail_q E k) (failed_item_tx (be_fail_uuid E k) (be_fail_now E k) from_id b it) w1) of
        (Inl e, w2) \<Rightarrow> (Inl (Wrap ''persist failed batch item'' e), w2)
      | (Inr t, w2) \<Rightarrow>
          (case batch_items D N c E from_id b (Suc k) its w2 of
             (Inl e, w3) \<Rightarrow> (Inl e, w3) | (Inr ts, w3) \<Rightarrow> (Inr (t # ts), w3)))"

definition create_batch ::
  "decimal_pkg \<Rightarrow> numeric_col \<Rightarrow> ctx \<Rightarrow> batch_env \<Rightarrow> string \<Rightarrow> batch_item list \<Rightarrow> world
    \<Rightarrow> (err + (batch \<times> transaction list)) \<times> world" where
  "create_batch D N c E from_id its w =
     (if its = [] then (Inl (Dom ErrBatchEmpty), w)
      else if length its > max_items then (Inl (Dom ErrBatchTooLarge), w)
      else
       (case create_batch_row c (be_q E) \<lparr>bt_id = be_uuid E, bt_tenant = None, bt_status = BatchPending,
               bt_total = int (length its), bt_created = be_now E, bt_updated = be_now E\<rparr> w of
          (Inl e, w1) \<Rightarrow> (Inl (Wrap ''persist batch'' e), w1)
        | (Inr b, w1) \<Rightarrow>
            (case batch_items D N c E from_id (bt_id b) 0 its w1 of
               (Inl e, w2) \<Rightarrow> (Inl e, w2) | (Inr ts, w2) \<Rightarrow> (Inr (b, ts), w2))))"

definition count_status :: "tx_status \<Rightarrow> transaction list \<Rightarrow> nat" where
  "count_status st ts = length (filter (\<lambda>t. tx_status t = st) ts)"

definition aggregate_status :: "transaction list \<Rightarrow> batch_status" where
  "aggregate_status ts =
     (let succeeded = count_status StatusConfirmed ts; failed = count_status StatusFailed ts;
          held = count_status StatusComplianceHold ts;
          n = length ts; resolved = succeeded + failed in
      if held > 0 \<and> resolved + held = n then BatchComplianceHold
      else if resolved = 0 then BatchPending
      else if resolved < n then BatchProcessing
      else if failed = n then BatchFailed
      else if succeeded = n then BatchCompleted
      else BatchPartial)"

definition get_batch ::
  "ctx \<Rightarrow> err option \<Rightarrow> err option \<Rightarrow> string \<Rightarrow> world \<Rightarrow> err + (batch \<times> transaction list)" where
  "get_batch c q ql i w =
     (case get_batch_row c q i w of Inl e \<Rightarrow> Inl e
      | Inr b \<Rightarrow> (case ql of Some e \<Rightarrow> Inl (Wrap ''list batch transfers'' e)
        | None \<Rightarrow> (let ts = list_by_batch c i w in Inr (b\<lparr>bt_status := aggregate_status ts\<rparr>, ts))))"

section \<open>The export\<close>

definition quote_char :: char where "quote_char = CHR 0x22"
definition newline :: char where "newline = CHR 0x0A"
definition comma :: char where "comma = CHR 0x2C"

definition double_quotes :: "string \<Rightarrow> string" where
  "double_quotes v = concat (map (\<lambda>c. if c = quote_char then [quote_char, quote_char] else [c]) v)"

definition csv_field :: "string \<Rightarrow> string" where
  "csv_field v =
     (if \<exists>c \<in> set v. c = comma \<or> c = quote_char \<or> c = newline
      then quote_char # double_quotes v @ [quote_char] else v)"

fun csv_line :: "string list \<Rightarrow> string" where
  "csv_line [] = [newline]"
| "csv_line [v] = csv_field v @ [newline]"
| "csv_line (v # vs) = csv_field v @ comma # csv_line vs"

definition csv_columns :: "decimal_pkg \<Rightarrow> transaction \<Rightarrow> string list" where
  "csv_columns D t = [tx_to t, tx_to_address t, tx_asset t, d_fixed D (tx_amount t) 7,
     tx_reference t, status_text (tx_status t), tx_hash t]"

definition csv_header :: string where
  "csv_header = ''to_wallet,to_address,asset,amount,reference,status,tx_hash'' @ [newline]"

definition to_csv :: "decimal_pkg \<Rightarrow> transaction list \<Rightarrow> string" where
  "to_csv D ts = csv_header @ concat (map (\<lambda>t. csv_line (csv_columns D t)) ts)"

definition export_csv ::
  "decimal_pkg \<Rightarrow> ctx \<Rightarrow> err option \<Rightarrow> err option \<Rightarrow> string \<Rightarrow> world \<Rightarrow> err + string" where
  "export_csv D c q ql i w = map_sum id (\<lambda>(b, ts). to_csv D ts) (get_batch c q ql i w)"

text \<open>A reader of the format: bare text, inside quotes, after a quote that may end the field.\<close>

datatype csv_mode = Bare | Quoted | Closed

fun csv_read :: "csv_mode \<Rightarrow> string \<Rightarrow> string list \<Rightarrow> string \<Rightarrow> string list list" where
  "csv_read m acc row [] = (if acc = [] \<and> row = [] then [] else [rev (rev acc # row)])"
| "csv_read Bare acc row (c # cs) =
     (if c = comma then csv_read Bare [] (rev acc # row) cs
      else if c = newline then rev (rev acc # row) # csv_read Bare [] [] cs
      else if c = quote_char \<and> acc = [] then csv_read Quoted [] row cs
      else csv_read Bare (c # acc) row cs)"
| "csv_read Quoted acc row (c # cs) =
     (if c = quote_char then csv_read Closed acc row cs else csv_read Quoted (c # acc) row cs)"
| "csv_read Closed acc row (c # cs) =
     (if c = quote_char then csv_read Quoted (quote_char # acc) row cs
      else if c = comma then csv_read Bare [] (rev acc # row) cs
      else rev (rev acc # row) # csv_read Bare [] [] cs)"

lemma chars_differ [simp]:
  "comma \<noteq> newline" "newline \<noteq> comma" "quote_char \<noteq> comma" "comma \<noteq> quote_char"
  "quote_char \<noteq> newline" "newline \<noteq> quote_char"
  by (simp_all add: comma_def newline_def quote_char_def)

lemma read_quoted:
  "csv_read Quoted acc row (double_quotes v @ quote_char # rest) = csv_read Closed (rev v @ acc) row rest"
  by (induction v arbitrary: acc) (simp_all add: double_quotes_def)

lemma read_bare:
  "\<forall>c \<in> set v. c \<noteq> comma \<and> c \<noteq> quote_char \<and> c \<noteq> newline
    \<Longrightarrow> csv_read Bare acc row (v @ rest) = csv_read Bare (rev v @ acc) row rest"
  by (induction v arbitrary: acc) simp_all

lemma read_field:
  "csv_read Bare [] row (csv_field v @ comma # rest) = csv_read Bare [] (v # row) rest"
  "csv_read Bare [] row (csv_field v @ newline # rest) = rev (v # row) # csv_read Bare [] [] rest"
  using read_quoted [of "[]" row v] by (auto simp: csv_field_def read_bare)

lemma read_line:
  "vs \<noteq> [] \<Longrightarrow> csv_read Bare [] row (csv_line vs @ rest) = (rev row @ vs) # csv_read Bare [] [] rest"
  by (induction vs arbitrary: row rule: csv_line.induct) (simp_all add: read_field)

lemma read_lines:
  "\<forall>vs \<in> set rows. vs \<noteq> [] \<Longrightarrow> csv_read Bare [] [] (concat (map csv_line rows)) = rows"
  by (induction rows) (simp_all add: read_line)

section \<open>Facts about the status\<close>

lemma count_status_le: "count_status st ts \<le> length ts"
  by (simp add: count_status_def)

lemma length_filter_all: "length (filter P xs) = length xs \<longleftrightarrow> (\<forall>x \<in> set xs. P x)"
proof (induction xs)
  case (Cons x xs)
  have "length (filter P xs) \<le> length xs" by simp
  then have "length (filter P xs) \<noteq> Suc (length xs)" by linarith
  with Cons show ?case by simp
qed simp

lemma count_status_full: "count_status st ts = length ts \<longleftrightarrow> (\<forall>t \<in> set ts. tx_status t = st)"
  by (simp add: count_status_def length_filter_all)

lemma count_status_sum2:
  "st \<noteq> su \<Longrightarrow> count_status st ts + count_status su ts
    = length (filter (\<lambda>t. tx_status t = st \<or> tx_status t = su) ts)"
  by (induction ts) (auto simp: count_status_def)

lemma count_status_sum3:
  "st \<noteq> su \<Longrightarrow> su \<noteq> sv \<Longrightarrow> st \<noteq> sv \<Longrightarrow>
    count_status st ts + count_status su ts + count_status sv ts
      = length (filter (\<lambda>t. tx_status t = st \<or> tx_status t = su \<or> tx_status t = sv) ts)"
  by (induction ts) (auto simp: count_status_def)

lemma count_status_0: "count_status st ts = 0 \<longleftrightarrow> (\<forall>t \<in> set ts. tx_status t \<noteq> st)"
  by (auto simp: count_status_def filter_empty_conv)

section \<open>Facts about creation\<close>

lemma batch_items_length:
  "batch_items D N c E from_id b k its w = (Inr ts, w') \<Longrightarrow> length ts = length its"
  by (induction its arbitrary: k w ts) (auto split: prod.splits sum.splits)

lemma create_tx_Inr:
  assumes "create_tx N c q t w = (Inr t', w')"
  shows "t' = with_ctx_tenant c t"
  using assms by (auto simp: create_tx_def Let_def split: option.splits sum.splits)

text \<open>
  An item whose destination wallet does not exist aborts the batch: the row of the failed item refers
  to the same wallet, so its insert is refused too.
\<close>

lemma unknown_destination_refused:
  assumes "it_to it \<noteq> ''''" and "it_to it \<notin> wa_id ` set (w_wallets w)"
  shows "\<exists>e. create_tx N c q (failed_item_tx i now from_id b it) w = (Inl e, w)"
proof -
  have "\<not> tx_refs_ok r w" if "tx_row N (with_ctx_tenant c (failed_item_tx i now from_id b it)) = Some r" for r
  proof -
    from tx_row_fields [OF that] have "tx_to r = it_to it"
      by (simp add: with_ctx_tenant_def failed_item_tx_def)
    with assms show ?thesis by (auto simp: tx_refs_ok_def ref_ok_def)
  qed
  then show ?thesis
    by (auto simp: create_tx_def insert_tx_def Let_def split: option.splits)
qed

lemma unknown_destination_not_initiated:
  assumes "or_to ord \<noteq> ''''" and "or_to ord \<notin> wa_id ` set (w_wallets w)"
  shows "\<exists>e. initiate D N c S E ord w = (Inl e, w)"
proof -
  have "find (\<lambda>r. wa_id r = or_to ord \<and> in_scope c (wa_tenant r)) (w_wallets w) = None"
    using assms(2) by (force simp: find_None_iff)
  then obtain e where "get_wallet c (ie_dst_q E) (or_to ord) w = Inl e"
    by (cases "ie_dst_q E") (simp_all add: get_wallet_def)
  with assms(1) show ?thesis by (auto simp: initiate_def Let_def split: sum.splits)
qed

lemma batch_items_unknown:
  assumes "it_to it \<noteq> ''''" and "it_address it = ''''" and "it_to it \<notin> wa_id ` set (w_wallets w)"
  shows "\<exists>e. batch_items D N c E from_id b k (it # its) w = (Inl e, w)"
proof -
  have "or_to (item_order from_id b it) = it_to it"
    using assms(2) by (simp add: item_order_def batch_transfer_order_def transfer_order_of_def)
  with assms(1,3) obtain e where
    "initiate D N c (be_screener E k) (be_item E k) (item_order from_id b it) w = (Inl e, w)"
    using unknown_destination_not_initiated by metis
  moreover obtain e' where "create_tx N c (be_fail_q E k)
      (failed_item_tx (be_fail_uuid E k) (be_fail_now E k) from_id b it) w = (Inl e', w)"
    using unknown_destination_refused [OF assms(1,3)] by blast
  ultimately show ?thesis by simp
qed

section \<open>Properties\<close>

lemma csv_header_line: "csv_header = csv_line [''to_wallet'', ''to_address'', ''asset'', ''amount'', ''reference'', ''status'', ''tx_hash'']"
  by (simp add: csv_header_def csv_field_def comma_def quote_char_def newline_def)

text \<open>
  C16: a reader that undoes the quoting gets back from an export the header and, for each transfer, its
  seven columns, whatever commas, quotes and newlines they contain.
\<close>

theorem csv_export_round_trip:
  "csv_read Bare [] [] (to_csv D ts) =
     [''to_wallet'', ''to_address'', ''asset'', ''amount'', ''reference'', ''status'', ''tx_hash'']
     # map (csv_columns D) ts"
proof -
  let ?h = "[''to_wallet'', ''to_address'', ''asset'', ''amount'', ''reference'', ''status'', ''tx_hash'']"
  have "to_csv D ts = concat (map csv_line (?h # map (csv_columns D) ts))"
    unfolding to_csv_def csv_header_line by (simp add: comp_def)
  moreover have "csv_read Bare [] [] (concat (map csv_line (?h # map (csv_columns D) ts))) = ?h # map (csv_columns D) ts"
    by (rule read_lines) (auto simp: csv_columns_def)
  ultimately show ?thesis by (simp only:)
qed

text \<open>
  What the aggregated status of a batch says of its transfers: completed and failed that all of them
  are, partial that all are resolved both ways, on hold that at least one is and the rest resolved.
\<close>

theorem aggregate_status_spec:
  "(aggregate_status ts = BatchCompleted \<longleftrightarrow> ts \<noteq> [] \<and> list_all (\<lambda>t. tx_status t = StatusConfirmed) ts) \<and>
   (aggregate_status ts = BatchFailed \<longleftrightarrow> ts \<noteq> [] \<and> list_all (\<lambda>t. tx_status t = StatusFailed) ts) \<and>
   (aggregate_status ts = BatchPartial \<longleftrightarrow> list_ex (\<lambda>t. tx_status t = StatusConfirmed) ts \<and>
      list_ex (\<lambda>t. tx_status t = StatusFailed) ts \<and>
      list_all (\<lambda>t. tx_status t = StatusConfirmed \<or> tx_status t = StatusFailed) ts) \<and>
   (aggregate_status ts = BatchComplianceHold \<longleftrightarrow> list_ex (\<lambda>t. tx_status t = StatusComplianceHold) ts \<and>
      list_all (\<lambda>t. tx_status t = StatusComplianceHold \<or> tx_status t = StatusConfirmed \<or> tx_status t = StatusFailed) ts)"
proof -
  let ?s = "count_status StatusConfirmed ts" and ?f = "count_status StatusFailed ts"
    and ?h = "count_status StatusComplianceHold ts" and ?n = "length ts"
  have res: "?s + ?f = ?n \<longleftrightarrow> list_all (\<lambda>t. tx_status t = StatusConfirmed \<or> tx_status t = StatusFailed) ts"
    by (simp add: count_status_sum2 length_filter_all list_all_iff)
  have hold: "?s + ?f + ?h = ?n \<longleftrightarrow>
      list_all (\<lambda>t. tx_status t = StatusComplianceHold \<or> tx_status t = StatusConfirmed \<or> tx_status t = StatusFailed) ts"
    by (simp add: count_status_sum3 length_filter_all list_all_iff) blast
  have all: "?s = ?n \<longleftrightarrow> list_all (\<lambda>t. tx_status t = StatusConfirmed) ts"
    "?f = ?n \<longleftrightarrow> list_all (\<lambda>t. tx_status t = StatusFailed) ts"
    by (simp_all add: count_status_full list_all_iff)
  have ex: "?s > 0 \<longleftrightarrow> list_ex (\<lambda>t. tx_status t = StatusConfirmed) ts"
    "?f > 0 \<longleftrightarrow> list_ex (\<lambda>t. tx_status t = StatusFailed) ts"
    "?h > 0 \<longleftrightarrow> list_ex (\<lambda>t. tx_status t = StatusComplianceHold) ts"
    using count_status_0 [of _ ts] by (auto simp: list_ex_iff simp flip: neq0_conv)
  have sum: "?s + ?f + ?h \<le> ?n" by (simp add: count_status_sum3)
  show ?thesis
    unfolding res [symmetric] hold [symmetric] all [symmetric] ex [symmetric] length_0_conv [symmetric]
    using sum by (auto simp: aggregate_status_def Let_def)
qed

text \<open>
  An item that cannot be initiated is meant to become a failed row of its batch. If its destination
  wallet does not exist that row is refused as well, by the foreign key: the whole call fails, and the
  row of the batch stays behind.
\<close>

theorem unknown_destination_aborts_batch:
  assumes "it_to it \<noteq> ''''" and "it_address it = ''''" and "\<not> list_ex (\<lambda>x. wa_id x = it_to it) (w_wallets w)"
    and "length its < max_items" and "fst (create_batch_row c (be_q E) \<lparr>bt_id = be_uuid E, bt_tenant = None,
      bt_status = BatchPending, bt_total = int (Suc (length its)), bt_created = be_now E, bt_updated = be_now E\<rparr> w) = Inr b"
  shows "\<exists>e w'. create_batch D N c E from_id (it # its) w = (Inl e, w') \<and> w_txs w' = w_txs w \<and>
    list_ex (\<lambda>x. bt_id x = be_uuid E) (w_batches w')"
proof -
  let ?b = "\<lparr>bt_id = be_uuid E, bt_tenant = None, bt_status = BatchPending, bt_total = int (Suc (length its)),
      bt_created = be_now E, bt_updated = be_now E\<rparr>"
  obtain w1 where b: "create_batch_row c (be_q E) ?b w = (Inr b, w1)"
    using assms(5) by (cases "create_batch_row c (be_q E) ?b w") auto
  then have w1: "w_wallets w1 = w_wallets w" "w_txs w1 = w_txs w" "list_ex (\<lambda>x. bt_id x = be_uuid E) (w_batches w1)"
    by (auto simp: create_batch_row_def Let_def split: option.splits if_splits)
  have "it_to it \<notin> wa_id ` set (w_wallets w1)" using assms(3) w1(1) by (auto simp: list_ex_iff)
  from batch_items_unknown [OF assms(1,2) this] obtain e where
    "batch_items D N c E from_id (bt_id b) 0 (it # its) w1 = (Inl e, w1)" by blast
  with b w1 assms(4) show ?thesis by (simp add: create_batch_def del: batch_items.simps)
qed

definition sample_batch_env :: batch_env where
  "sample_batch_env = \<lparr>be_now = 0, be_uuid = ''bb'', be_q = None, be_item = (\<lambda>_. sample_initiate_env),
     be_screener = (\<lambda>_. None), be_fail_uuid = (\<lambda>_. ''x''), be_fail_now = (\<lambda>_. 0), be_fail_q = (\<lambda>_. None)\<rparr>"

lemma unknown_destination_aborts_batch_witness:
  "\<exists>e w'. create_batch reference_pkg exact_numeric no_tenant sample_batch_env ''a''
      [\<lparr>it_to = ''nowhere'', it_address = '''', it_asset = ''XLM'', it_amount = 1, it_reference = ''''\<rparr>]
      sample_priced = (Inl e, w') \<and> w_txs w' = w_txs sample_priced \<and>
    list_ex (\<lambda>x. bt_id x = ''bb'') (w_batches w')"
proof -
  let ?it = "\<lparr>it_to = ''nowhere'', it_address = '''', it_asset = ''XLM'', it_amount = 1, it_reference = ''''\<rparr>"
  let ?b = "\<lparr>bt_id = be_uuid sample_batch_env, bt_tenant = None, bt_status = BatchPending, bt_total = int (Suc (length ([] :: batch_item list))),
      bt_created = be_now sample_batch_env, bt_updated = be_now sample_batch_env\<rparr>"
  have "\<exists>b. fst (create_batch_row no_tenant (be_q sample_batch_env) ?b sample_priced) = Inr b"
    by (simp add: create_batch_row_def sample_batch_env_def no_tenant_def sample_priced_def sample_world_def
        empty_world_def ref_ok_def Let_def)
  then obtain b where b: "fst (create_batch_row no_tenant (be_q sample_batch_env) ?b sample_priced) = Inr b" by blast
  have "\<not> list_ex (\<lambda>x. wa_id x = it_to ?it) (w_wallets sample_priced)"
    by (simp add: sample_priced_def sample_world_def sample_wallet_def)
  from unknown_destination_aborts_batch [OF _ _ this _ b, where D = reference_pkg and N = exact_numeric and from_id = "''a''"]
  show ?thesis by (simp add: max_items_def) (simp add: sample_batch_env_def)
qed

end
