(* ===== verification/Assets.thy ===== *)
theory Assets
  imports Utf8
begin

text \<open>
  \<^verbatim>\<open>internal/assets/assets.go\<close>: the registry of supported assets, keyed by the upper-cased code.
\<close>

record asset =
  as_code :: string
  as_issuer :: string
  as_type :: string

type_synonym registry = "string \<rightharpoonup> asset"

definition to_upper :: "unicode_tables \<Rightarrow> string \<Rightarrow> string" where
  "to_upper U s = string_of_runes (map (upper_rune U) (runes s))"

definition register_asset :: "unicode_tables \<Rightarrow> asset \<Rightarrow> registry \<Rightarrow> registry" where
  "register_asset U a r = r(to_upper U (as_code a) \<mapsto> a)"

definition get_asset :: "unicode_tables \<Rightarrow> registry \<Rightarrow> string \<Rightarrow> asset option" where
  "get_asset U r code = r (to_upper U code)"

definition is_supported :: "unicode_tables \<Rightarrow> registry \<Rightarrow> string \<Rightarrow> bool" where
  "is_supported U r code \<longleftrightarrow> r (to_upper U code) \<noteq> None"

definition new_registry :: "unicode_tables \<Rightarrow> string \<Rightarrow> string \<Rightarrow> registry" where
  "new_registry U usdc_issuer eurc_issuer =
     (let r0 = register_asset U \<lparr>as_code = ''XLM'', as_issuer = '''', as_type = ''native''\<rparr> Map.empty;
          r1 = (if usdc_issuer \<noteq> '''' then register_asset U
                  \<lparr>as_code = ''USDC'', as_issuer = usdc_issuer, as_type = ''credit_alphanum4''\<rparr> r0 else r0)
      in if eurc_issuer \<noteq> '''' then register_asset U
           \<lparr>as_code = ''EURC'', as_issuer = eurc_issuer, as_type = ''credit_alphanum4''\<rparr> r1 else r1)"

lemma get_register [simp]:
  "get_asset U (register_asset U a r) code
    = (if to_upper U code = to_upper U (as_code a) then Some a else get_asset U r code)"
  by (simp add: get_asset_def register_asset_def)

lemma is_supported_get: "is_supported U r code \<longleftrightarrow> get_asset U r code \<noteq> None"
  by (simp add: is_supported_def get_asset_def)

end
