(* ===== verification/Reconcile.thy ===== *)
theory Reconcile
  imports Settlement Assets
begin

text \<open>
  \<^verbatim>\<open>internal/reconcile/reconcile.go\<close>: matching the operations the network reports against the payment a
  transaction stands for, the pass over unfinished transactions, the audit of confirmed ones, the
  recovery of stuck ones, and the comparison of balances.
\<close>

definition reconcile_interval :: int where "reconcile_interval = hour"
definition pending_check_threshold :: int where "pending_check_threshold = 2 * minute"
definition stuck_threshold :: int where "stuck_threshold = 10 * minute"
definition max_requeues :: int where "max_requeues = 3"

section \<open>Matching operations\<close>

text \<open>
  An operation as the Horizon library delivers it: its type name and, when its Go type is one of the
  two payment structs, the fields.
\<close>

record pay_fields =
  pf_from :: string
  pf_to :: string
  pf_amount :: string
  pf_type :: string
  pf_code :: string
  pf_issuer :: string

record horizon_op =
  ho_type :: string
  ho_fields :: "pay_fields option"

record expected_payment =
  ep_from :: string
  ep_to :: string
  ep_code :: string
  ep_issuer :: string
  ep_net :: decimal
  ep_fee :: decimal
  ep_fee_wallet :: string

record candidate =
  ca_from :: string
  ca_to :: string
  ca_amount :: decimal
  ca_type :: string
  ca_code :: string
  ca_issuer :: string

definition asset_identity_matches :: "candidate \<Rightarrow> expected_payment \<Rightarrow> bool" where
  "asset_identity_matches c x \<longleftrightarrow>
     (if ep_code x = ''XLM'' then ca_type c = ''native''
      else ca_type c \<noteq> ''native'' \<and> ca_code c = ep_code x \<and> ca_issuer c = ep_issuer x)"

definition matches_main_leg :: "candidate \<Rightarrow> expected_payment \<Rightarrow> bool" where
  "matches_main_leg c x \<longleftrightarrow>
     (if ep_from x \<noteq> '''' \<and> ca_from c \<noteq> ep_from x then False
      else if ep_to x \<noteq> '''' \<and> ca_to c \<noteq> ep_to x then False
      else if \<not> asset_identity_matches c x then False
      else ca_amount c = ep_net x)"

definition matches_fee_leg :: "candidate \<Rightarrow> expected_payment \<Rightarrow> bool" where
  "matches_fee_leg c x \<longleftrightarrow>
     (if ep_fee_wallet x = '''' \<or> ca_to c \<noteq> ep_fee_wallet x then False
      else if \<not> asset_identity_matches c x then False
      else ca_amount c = ep_fee x)"

definition extract_candidate :: "decimal_pkg \<Rightarrow> horizon_op \<Rightarrow> candidate option" where
  "extract_candidate D op =
     (if ho_type op \<notin> {''payment'', ''path_payment_strict_send'', ''path_payment_strict_receive''}
      then None
      else case ho_fields op of None \<Rightarrow> None
      | Some f \<Rightarrow>
        if pf_amount f = '''' then None
        else case d_parse D (pf_amount f) of None \<Rightarrow> None
          | Some a \<Rightarrow> Some \<lparr>ca_from = pf_from f, ca_to = pf_to f, ca_amount = a, ca_type = pf_type f,
                            ca_code = pf_code f, ca_issuer = pf_issuer f\<rparr>)"

text \<open>The loop of \<^verbatim>\<open>verifyOps\<close> with its early return; the flags are amount, asset and fee.\<close>

fun verify_loop ::
  "decimal_pkg \<Rightarrow> expected_payment \<Rightarrow> horizon_op list \<Rightarrow> bool \<times> bool \<times> bool \<Rightarrow> bool \<times> bool \<times> bool" where
  "verify_loop D x [] fl = fl"
| "verify_loop D x (op # ops) (am, asst, fe) =
     (case extract_candidate D op of
        None \<Rightarrow> verify_loop D x ops (am, asst, fe)
      | Some c \<Rightarrow>
        (let main = \<not> am \<and> matches_main_leg c x;
             am' = (if main then True else am);
             asst' = (if main then True else asst);
             fe' = (if \<not> fe \<and> matches_fee_leg c x then True else fe)
         in if am' \<and> fe' then (True, True, True) else verify_loop D x ops (am', asst', fe')))"

definition verify_ops ::
  "decimal_pkg \<Rightarrow> horizon_op list \<Rightarrow> expected_payment \<Rightarrow> bool \<times> bool \<times> bool" where
  "verify_ops D ops x = verify_loop D x ops (False, False, \<not> ep_fee x > 0)"

section \<open>State and environment\<close>

datatype audit_outcome = AuditOK | AuditMismatch | AuditNotFound

record audit_entry =
  au_tx :: string
  au_hash :: string
  au_amount :: bool
  au_asset :: bool
  au_fee :: bool
  au_outcome :: audit_outcome

record discrepancy =
  di_wallet :: string
  di_db :: decimal
  di_horizon :: decimal
  di_asset :: string

record run_record =
  rr_checked :: int
  rr_discrepancies :: int
  rr_corrections :: int

record rec_state =
  rs_world :: world
  rs_audit :: "audit_entry list"
  rs_alerts :: "(string \<times> string) list"   \<comment> \<open>title, transaction or wallet id\<close>
  rs_found :: "discrepancy list"
  rs_runs :: "run_record list"

text \<open>
  The calls made about one transaction, for the driver's answers; \<open>re_detail\<close> and \<open>re_ops\<close> are the
  answers of the Horizon library for a hash, \<open>re_account\<close> the one for an account (asset type, code,
  issuer, balance text).
\<close>

datatype rec_call =
  RecConfirm | RecFail | RecStatus | RecReconciled | RecReset | RecIncrement | RecEnqueue
  | RecFrom | RecTo | RecAudit | RecBalances | RecDiscrepancy

record reconcile_env =
  re_now :: go_time
  re_ctx :: ctx
  re_detail :: "string \<Rightarrow> err + bool"
  re_ops :: "string \<Rightarrow> err + horizon_op list"
  re_account :: "string \<Rightarrow> err + (string \<times> string \<times> string \<times> string) list"
  re_q :: "string \<Rightarrow> rec_call \<Rightarrow> err option"
  re_pending_q :: "err option"
  re_confirmed_q :: "err option"
  re_stuck_q :: "err option"
  re_scan_null :: "string option"
  re_wallets_q :: "err option"
  re_run_q :: "err option"
  re_hooks :: bool
  re_dispatch :: "err option"

record reconciler =
  rc_unicode :: unicode_tables
  rc_registry :: registry
  rc_fee_wallet :: string
  rc_threshold :: decimal

definition alert :: "string \<Rightarrow> string \<Rightarrow> rec_state \<Rightarrow> rec_state" where
  "alert title i s = s\<lparr>rs_alerts := rs_alerts s @ [(title, i)]\<rparr>"

definition write_audit ::
  "err option \<Rightarrow> transaction \<Rightarrow> bool \<Rightarrow> bool \<Rightarrow> bool \<Rightarrow> audit_outcome \<Rightarrow> rec_state \<Rightarrow> rec_state" where
  "write_audit q t am asst fe out s =
     (if q = None then s\<lparr>rs_audit := rs_audit s @ [\<lparr>au_tx = tx_id t, au_hash = tx_hash t,
        au_amount = am, au_asset = asst, au_fee = fe, au_outcome = out\<rparr>]\<rparr> else s)"

section \<open>Unfinished transactions\<close>

definition check_pending ::
  "reconcile_env \<Rightarrow> transaction \<Rightarrow> rec_state \<Rightarrow> (bool \<times> bool \<times> err option) \<times> rec_state" where
  "check_pending E t s =
     (let q = re_q E (tx_id t); old = (re_now E - tx_created t > stuck_threshold) in
      if tx_hash t = ''''
      then (if old then ((True, False, None), alert ''Unsubmitted Transaction Detected'' (tx_id t) s)
            else ((False, False, None), s))
      else
      (case transaction_detail (re_detail E (tx_hash t)) of
         Inl e \<Rightarrow>
           (if (case as_horizon e of Some (st, line) \<Rightarrow> st = 404 | None \<Rightarrow> False)
            then (if old then ((True, False, None),
                               alert ''Transaction Not Found on Horizon'' (tx_id t) s)
                  else ((False, False, None), s))
            else ((False, False, Some (Wrap (''fetch transaction detail for '' @ tx_hash t) e)), s))
       | Inr ok \<Rightarrow>
         (let upd = (if ok then update_tx_confirmed (q RecConfirm) (tx_id t) (tx_hash t) (rs_world s)
                     else update_tx_failed (q RecFail) (tx_id t) (rs_world s));
              event = (if ok then EventTransferSettled else EventTransferFailed) in
          case upd of
            (Some e, w') \<Rightarrow>
              if err_is e (Dom ErrConcurrentUpdate) then ((True, False, None), s\<lparr>rs_world := w'\<rparr>)
              else ((True, False, Some (Wrap (''update tx '' @ tx_id t @ (if ok then '' to confirmed'' else '' to failed'')) e)), s\<lparr>rs_world := w'\<rparr>)
          | (None, w') \<Rightarrow> ((True, True, None),
              s\<lparr>rs_world := dispatch (re_hooks E) (re_dispatch E) event (tx_id t) w'\<rparr>))))"

text \<open>The pass: transactions checked, discrepancies, corrections.\<close>

fun check_pending_all ::
  "reconcile_env \<Rightarrow> transaction list \<Rightarrow> int \<times> int \<Rightarrow> rec_state \<Rightarrow> (int \<times> int) \<times> rec_state" where
  "check_pending_all E [] n s = (n, s)"
| "check_pending_all E (t # ts) (d, c) s =
     (case check_pending E t s of ((disc, corr, e), s') \<Rightarrow>
        check_pending_all E ts (if disc then d + 1 else d, if corr then c + 1 else c) s')"

definition run_pending_reconciliation ::
  "reconcile_env \<Rightarrow> rec_state \<Rightarrow> (err + int \<times> int \<times> int) \<times> rec_state" where
  "run_pending_reconciliation E s =
     (case re_pending_q E of
        Some e \<Rightarrow> (Inl (Wrap ''fetch pending txes for reconciliation'' e), s)
      | None \<Rightarrow>
        (let ts = pending_for_reconciliation (re_now E) pending_check_threshold (rs_world s) in
         case check_pending_all E ts (0, 0) s of
           ((d, c), s') \<Rightarrow> (Inr (int (length ts), d, c), s')))"

section \<open>Confirmed transactions\<close>

definition build_expected ::
  "reconciler \<Rightarrow> reconcile_env \<Rightarrow> transaction \<Rightarrow> world \<Rightarrow> err + expected_payment" where
  "build_expected R E t w =
     (case (if tx_from t = '''' then Inr ''''
            else map_sum (Wrap (''resolve source wallet '' @ tx_from t)) wa_public_key
                   (get_wallet (re_ctx E) (re_q E (tx_id t) RecFrom) (tx_from t) w)) of
        Inl e \<Rightarrow> Inl e | Inr src \<Rightarrow>
     (case (if tx_to t = '''' then Inr ''''
            else map_sum (Wrap (''resolve destination wallet '' @ tx_to t)) wa_public_key
                   (get_wallet (re_ctx E) (re_q E (tx_id t) RecTo) (tx_to t) w)) of
        Inl e \<Rightarrow> Inl e | Inr dst \<Rightarrow>
     (let mk = (\<lambda>code issuer. \<lparr>ep_from = src, ep_to = dst, ep_code = code, ep_issuer = issuer,
                  ep_net = net_amount t, ep_fee = tx_fee t, ep_fee_wallet = rc_fee_wallet R\<rparr>) in
      if tx_asset t = ''XLM'' then Inr (mk ''XLM'' '''')
      else case get_asset (rc_unicode R) (rc_registry R) (tx_asset t) of
        Some a \<Rightarrow> Inr (mk (as_code a) (as_issuer a))
      | None \<Rightarrow> Inl (Opaque ''asset is not in the platform asset registry''))))"

text \<open>Flagging a confirmed transaction: the status, the audit entry and the alert.\<close>

definition flag_transaction ::
  "reconcile_env \<Rightarrow> transaction \<Rightarrow> bool \<times> bool \<times> bool \<Rightarrow> audit_outcome \<Rightarrow> string \<Rightarrow> rec_state
    \<Rightarrow> err option \<times> rec_state" where
  "flag_transaction E t fl out title s =
     (case (fl, update_reconciliation_status (re_q E (tx_id t) RecStatus) (tx_id t)
              StatusReconciliationFailed (rs_world s)) of
        (_, (Some e, w')) \<Rightarrow>
          (Some (Wrap ''update status to reconciliation_failed'' e), s\<lparr>rs_world := w'\<rparr>)
      | ((am, asst, fe), (None, w')) \<Rightarrow>
          (None, alert title (tx_id t)
             (write_audit (re_q E (tx_id t) RecAudit) t am asst fe out (s\<lparr>rs_world := w'\<rparr>))))"

definition check_transaction ::
  "decimal_pkg \<Rightarrow> reconciler \<Rightarrow> reconcile_env \<Rightarrow> transaction \<Rightarrow> rec_state \<Rightarrow> err option \<times> rec_state" where
  "check_transaction D R E t s =
     (case transaction_detail (re_detail E (tx_hash t)) of
        Inl e \<Rightarrow>
          if (case as_horizon e of Some (st, line) \<Rightarrow> st = 404 | None \<Rightarrow> False)
          then flag_transaction E t (False, False, False) AuditNotFound
                 ''Reconciliation Failed: Missing Transaction'' s
          else (Some (Wrap ''fetch transaction detail'' e), s)
      | Inr ok \<Rightarrow>
        if \<not> ok
        then flag_transaction E t (False, False, False) AuditNotFound
               ''Reconciliation Failed: Unsuccessful Transaction'' s
        else
       (case operations_for_transaction (re_ops E (tx_hash t)) of
          Inl e \<Rightarrow> (Some (Wrap ''fetch operations for transaction'' e), s)
        | Inr ops \<Rightarrow>
       (case build_expected R E t (rs_world s) of
          Inl e \<Rightarrow> (Some (Wrap (''resolve expected payment for tx '' @ tx_id t) e), s)
        | Inr x \<Rightarrow>
       (case verify_ops D ops x of (am, asst, fe) \<Rightarrow>
          if \<not> am \<or> \<not> asst \<or> \<not> fe
          then flag_transaction E t (am, asst, fe) AuditMismatch
                 ''Reconciliation Failed: Payment Mismatch'' s
          else
           (let s1 = write_audit (re_q E (tx_id t) RecAudit) t True True True AuditOK s;
                w' = snd (update_reconciled_at (re_q E (tx_id t) RecReconciled) (re_now E) (tx_id t)
                       (rs_world s1))
            in (None, s1\<lparr>rs_world := w'\<rparr>))))))"

definition reconcile_confirmed ::
  "decimal_pkg \<Rightarrow> reconciler \<Rightarrow> reconcile_env \<Rightarrow> rec_state \<Rightarrow> err option \<times> rec_state" where
  "reconcile_confirmed D R E s =
     (case re_confirmed_q E of
        Some e \<Rightarrow> (Some (Wrap ''fetch txes for reconciliation'' e), s)
      | None \<Rightarrow> (None, fold (\<lambda>t s. snd (check_transaction D R E t s))
          (confirmed_for_reconciliation (re_now E) reconcile_interval (rs_world s)) s))"

section \<open>Stuck transactions\<close>

definition requeue_one :: "reconcile_env \<Rightarrow> transaction \<Rightarrow> rec_state \<Rightarrow> rec_state" where
  "requeue_one E t s =
     (let q = re_q E (tx_id t) in
      case increment_requeue (q RecIncrement) (tx_id t) (rs_world s) of
        (Inl e, w1) \<Rightarrow> s\<lparr>rs_world := w1\<rparr>
      | (Inr n, w1) \<Rightarrow>
          if n > max_requeues
          then alert ''Transaction Failed: Max Requeues'' (tx_id t)
                 (s\<lparr>rs_world := snd (update_reconciliation_status (q RecStatus) (tx_id t) StatusFailed w1)\<rparr>)
          else s\<lparr>rs_world := snd (enqueue_transfer (q RecEnqueue) (tx_id t) w1)\<rparr>)"

definition recover_one :: "reconcile_env \<Rightarrow> transaction \<Rightarrow> rec_state \<Rightarrow> rec_state" where
  "recover_one E t s =
     (if tx_status t = StatusComplianceHold then s
      else if tx_status t = StatusSubmitted
      then (case reset_stuck_submitted (re_q E (tx_id t) RecReset) (re_now E) (tx_id t) stuck_threshold
                   (rs_world s) of
              (Some e, w1) \<Rightarrow> s\<lparr>rs_world := w1\<rparr>
            | (None, w1) \<Rightarrow> requeue_one E t (s\<lparr>rs_world := w1\<rparr>))
      else requeue_one E t s)"

definition recover_pending :: "reconcile_env \<Rightarrow> rec_state \<Rightarrow> err option \<times> rec_state" where
  "recover_pending E s =
     (case get_stuck_pending (re_stuck_q E) (re_scan_null E) (re_now E) stuck_threshold (rs_world s) of
        Inl e \<Rightarrow> (Some (Wrap ''fetch stuck pending txes'' e), s)
      | Inr ts \<Rightarrow> (None, fold (recover_one E) ts s))"

section \<open>The periodic run\<close>

definition run_all ::
  "decimal_pkg \<Rightarrow> reconciler \<Rightarrow> reconcile_env \<Rightarrow> rec_state \<Rightarrow> rec_state" where
  "run_all D R E s =
     (case run_pending_reconciliation E s of (counts, s1) \<Rightarrow>
       (let s2 = snd (reconcile_confirmed D R E s1);
            s3 = snd (recover_pending E s2);
            (n, d, c) = (case counts of Inr x \<Rightarrow> x | Inl e \<Rightarrow> (0, 0, 0))
        in if re_run_q E = None
           then s3\<lparr>rs_runs := rs_runs s3 @ [\<lparr>rr_checked = n, rr_discrepancies = d, rr_corrections = c\<rparr>]\<rparr>
           else s3))"

section \<open>Balances\<close>

text \<open>
  The two maps from asset identities to balances; a later row overwrites an earlier one in the
  database map and is added in the map of the account, and text that cannot be parsed counts as zero.
\<close>

definition db_key :: "balance_record \<Rightarrow> string" where
  "db_key b = (if ba_issuer b \<noteq> '''' then ba_asset b @ '':'' @ ba_issuer b else ba_asset b)"

definition db_balances :: "string \<Rightarrow> world \<Rightarrow> (string \<rightharpoonup> decimal)" where
  "db_balances wid w = fold (\<lambda>b m. m(db_key b \<mapsto> ba_balance b)) (get_balances wid w) Map.empty"

definition horizon_asset_identity :: "string \<times> string \<times> string \<times> string \<Rightarrow> string" where
  "horizon_asset_identity b = (case b of (kind, code, issuer, amt) \<Rightarrow>
     if kind = ''native'' then ''XLM'' else code @ '':'' @ issuer)"

definition value_at :: "(string \<rightharpoonup> decimal) \<Rightarrow> string \<Rightarrow> decimal" where
  "value_at m k = (case m k of None \<Rightarrow> 0 | Some v \<Rightarrow> v)"

definition horizon_balances ::
  "decimal_pkg \<Rightarrow> (string \<times> string \<times> string \<times> string) list \<Rightarrow> (string \<rightharpoonup> decimal)" where
  "horizon_balances D bs = fold (\<lambda>b m. let k = horizon_asset_identity b;
       a = (case d_parse D (snd (snd (snd b))) of None \<Rightarrow> 0 | Some a \<Rightarrow> a)
     in m(k \<mapsto> value_at m k + a)) bs Map.empty"

text \<open>The keys of either map, each once; Go visits them in no particular order.\<close>

definition asset_keys ::
  "string \<Rightarrow> world \<Rightarrow> (string \<times> string \<times> string \<times> string) list \<Rightarrow> string list" where
  "asset_keys wid w bs = remdups (map db_key (get_balances wid w) @ map horizon_asset_identity bs)"

definition compare_asset ::
  "reconciler \<Rightarrow> reconcile_env \<Rightarrow> string \<Rightarrow> (string \<rightharpoonup> decimal) \<Rightarrow> (string \<rightharpoonup> decimal) \<Rightarrow> string
    \<Rightarrow> rec_state \<Rightarrow> rec_state" where
  "compare_asset R E wid db hz a s =
     (let x = value_at db a; y = value_at hz a in
      if \<bar>x - y\<bar> \<le> rc_threshold R then s
      else
       (let s1 = (if re_q E wid RecDiscrepancy = None
                  then s\<lparr>rs_found := rs_found s @
                         [\<lparr>di_wallet = wid, di_db = x, di_horizon = y, di_asset = a\<rparr>]\<rparr> else s)
        in alert ''Balance Discrepancy Detected'' wid s1))"

definition check_wallet_balance ::
  "decimal_pkg \<Rightarrow> reconciler \<Rightarrow> reconcile_env \<Rightarrow> wallet \<Rightarrow> rec_state \<Rightarrow> err option \<times> rec_state" where
  "check_wallet_balance D R E x s =
     (case load_account (wa_public_key x) (re_account E (wa_public_key x)) of
        Inl e \<Rightarrow>
          if (case as_horizon e of Some (st, line) \<Rightarrow> st = 404 | None \<Rightarrow> False) then (None, s)
          else (Some (Wrap (''load Horizon account '' @ wa_public_key x) e), s)
      | Inr bs \<Rightarrow>
        (case re_q E (wa_id x) RecBalances of
           Some e \<Rightarrow> (Some (Wrap (''get DB balances for wallet '' @ wa_id x) e), s)
         | None \<Rightarrow> (None, fold (compare_asset R E (wa_id x) (db_balances (wa_id x) (rs_world s))
             (horizon_balances D bs)) (asset_keys (wa_id x) (rs_world s) bs) s)))"

definition run_balance_reconciliation ::
  "decimal_pkg \<Rightarrow> reconciler \<Rightarrow> reconcile_env \<Rightarrow> rec_state \<Rightarrow> err option \<times> rec_state" where
  "run_balance_reconciliation D R E s =
     (case re_wallets_q E of
        Some e \<Rightarrow> (Some (Wrap ''list wallets for balance reconciliation'' e), s)
      | None \<Rightarrow> (None, fold (\<lambda>x s. snd (check_wallet_balance D R E x s))
          (sort_key wa_created (w_wallets (rs_world s))) s))"

section \<open>Facts about matching\<close>

definition candidates :: "decimal_pkg \<Rightarrow> horizon_op list \<Rightarrow> candidate set" where
  "candidates D ops = {c. \<exists>op \<in> set ops. extract_candidate D op = Some c}"

lemma candidates_simps [simp]:
  "candidates D [] = {}"
  "candidates D (op # ops) = (case extract_candidate D op of None \<Rightarrow> candidates D ops
     | Some c \<Rightarrow> insert c (candidates D ops))"
  by (auto simp: candidates_def split: option.splits)

lemma verify_loop_spec:
  "verify_loop D x ops (am, am, fe) =
     (let m = am \<or> (\<exists>c \<in> candidates D ops. matches_main_leg c x);
          f = fe \<or> (\<exists>c \<in> candidates D ops. matches_fee_leg c x) in (m, m, f))"
proof (induction ops arbitrary: am fe)
  case Nil
  then show ?case by simp
next
  case (Cons op ops)
  show ?case
  proof (cases "extract_candidate D op")
    case None
    with Cons show ?thesis by (simp add: Let_def)
  next
    case (Some c)
    show ?thesis
    proof (cases "(am \<or> matches_main_leg c x) \<and> (fe \<or> matches_fee_leg c x)")
      case True
      with Some show ?thesis by (auto simp: Let_def)
    next
      case False
      with Some Cons.IH [of "am \<or> matches_main_leg c x" "fe \<or> matches_fee_leg c x"] show ?thesis
        by (cases am; cases fe; cases "matches_main_leg c x"; cases "matches_fee_leg c x")
           (simp_all add: Let_def)
    qed
  qed
qed

text \<open>The loop with its early return, against its specification.\<close>

lemma verify_ops_spec:
  "verify_ops D ops x =
     (let m = (\<exists>c \<in> candidates D ops. matches_main_leg c x);
          f = (ep_fee x \<le> 0 \<or> (\<exists>c \<in> candidates D ops. matches_fee_leg c x)) in (m, m, f))"
  unfolding verify_ops_def verify_loop_spec by (simp add: not_less)

section \<open>Facts about the pass over unfinished transactions\<close>

lemma check_pending_cases:
  assumes "check_pending E t s = (r, s')"
  obtains (same) "rs_world s' = rs_world s"
  | (confirmed) w' where "re_detail E (tx_hash t) = Inr True" "tx_hash t \<noteq> ''''"
      "update_tx_confirmed (re_q E (tx_id t) RecConfirm) (tx_id t) (tx_hash t) (rs_world s) = (None, w')"
      "w_txs (rs_world s') = w_txs w'" "w_net (rs_world s') = w_net w'"
      "w_queue (rs_world s') = w_queue w'" "fst (snd r)"
  | (failed) w' where "re_detail E (tx_hash t) = Inr False" "tx_hash t \<noteq> ''''"
      "update_tx_failed (re_q E (tx_id t) RecFail) (tx_id t) (rs_world s) = (None, w')"
      "w_txs (rs_world s') = w_txs w'" "w_net (rs_world s') = w_net w'"
      "w_queue (rs_world s') = w_queue w'" "fst (snd r)"
proof -
  show ?thesis
  proof (cases "tx_hash t = ''''")
    case True
    with assms same show ?thesis by (auto simp: check_pending_def Let_def alert_def split: if_splits)
  next
    case False
    show ?thesis
    proof (cases "re_detail E (tx_hash t)")
      case (Inl e)
      with assms False same show ?thesis by (auto simp: check_pending_def Let_def alert_def)
    next
      case (Inr ok)
      define u where "u = (if ok
        then update_tx_confirmed (re_q E (tx_id t) RecConfirm) (tx_id t) (tx_hash t) (rs_world s)
        else update_tx_failed (re_q E (tx_id t) RecFail) (tx_id t) (rs_world s))"
      obtain q w' where q: "u = (q, w')" by (cases u)
      show ?thesis
      proof (cases q)
        case (Some e)
        have "w' = rs_world s"
          using q Some unfolding u_def update_tx_confirmed_def update_tx_failed_def
          by (auto simp: guarded_update_def Let_def split: if_splits option.splits)
        with assms False Inr q Some same show ?thesis
          by (auto simp: check_pending_def Let_def u_def [symmetric] split: if_splits)
      next
        case None
        with assms False Inr q show ?thesis
          using confirmed [of w'] failed [of w'] unfolding u_def
          by (auto simp: check_pending_def Let_def split: if_splits)
      qed
    qed
  qed
qed

text \<open>What one check does to the rows: only the transaction itself, and only as the network says.\<close>

definition corrected :: "reconcile_env \<Rightarrow> transaction \<Rightarrow> transaction \<Rightarrow> transaction" where
  "corrected E t r =
     (if tx_id r = tx_id t \<and> tx_status r \<in> {StatusPending, StatusSubmitted}
      then (case re_detail E (tx_hash t) of
              Inr True \<Rightarrow> r\<lparr>tx_status := StatusConfirmed, tx_hash := tx_hash t\<rparr>
            | Inr False \<Rightarrow> r\<lparr>tx_status := StatusFailed\<rparr>
            | Inl e \<Rightarrow> r)
      else r)"

lemma check_pending_rows:
  assumes "check_pending E t s = (r, s')"
  shows "tx_of (rs_world s') j = tx_of (rs_world s) j \<or>
    tx_of (rs_world s') j = map_option (corrected E t) (tx_of (rs_world s) j)"
  using assms
proof (cases rule: check_pending_cases)
  case same
  then show ?thesis by simp
next
  case (confirmed w')
  from confirmed update_tx_confirmed_effect [OF confirmed(3), of j] show ?thesis
    by (auto simp: corrected_def dest!: row_with_SomeD intro!: option.map_cong)
next
  case (failed w')
  from failed update_tx_failed_effect [OF failed(3), of j] show ?thesis
    by (auto simp: corrected_def dest!: row_with_SomeD intro!: option.map_cong)
qed

text \<open>A row that is not in flight is left alone by the whole pass.\<close>

definition in_flight :: "tx_status \<Rightarrow> bool" where
  "in_flight st \<longleftrightarrow> st = StatusPending \<or> st = StatusSubmitted"

lemma check_pending_all_settled:
  assumes "check_pending_all E ts n s = (m, s')" and "tx_of (rs_world s) j = Some r"
    and "\<not> in_flight (tx_status r)"
  shows "tx_of (rs_world s') j = Some r"
  using assms
proof (induction E ts n s rule: check_pending_all.induct)
  case (2 E t ts d c s)
  obtain x s1 where x: "check_pending E t s = (x, s1)" by (cases "check_pending E t s")
  have "tx_of (rs_world s1) j = Some r"
    using check_pending_rows [OF x, of j] 2(3,4) by (auto simp: corrected_def in_flight_def)
  with 2 x show ?case by (cases x) simp
qed simp

text \<open>
  The pass settles what the network knows: a listed row that is in flight with its hash ends up as
  the network says, if the driver does its work.
\<close>

lemma check_pending_settles:
  assumes "check_pending E t s = (x, s')" and "tx_of (rs_world s) (tx_id t) = Some r"
    and "in_flight (tx_status r)" and "tx_hash t \<noteq> ''''" and "\<not> hash_taken (tx_id t) (tx_hash t) (rs_world s)"
    and "re_detail E (tx_hash t) = Inr ok" and "re_q E (tx_id t) RecConfirm = None"
    and "re_q E (tx_id t) RecFail = None"
  shows "\<exists>r'. tx_of (rs_world s') (tx_id t) = Some r' \<and>
    tx_status r' = (if ok then StatusConfirmed else StatusFailed)"
proof -
  let ?P = "\<lambda>r. tx_id r = tx_id t \<and> tx_status r \<in> {StatusPending, StatusSubmitted}"
  have n: "rows_affected ?P (w_txs (rs_world s)) \<noteq> 0"
    using assms(2,3) by (intro rows_affected_key_pos) (auto simp: in_flight_def)
  define u where "u = (if ok
        then update_tx_confirmed None (tx_id t) (tx_hash t) (rs_world s)
        else update_tx_failed None (tx_id t) (rs_world s))"
  have u: "fst u = None"
    using n assms(5) by (simp add: u_def update_tx_confirmed_def update_tx_failed_def Let_def)
  then obtain w' where w': "u = (None, w')" by (cases u) auto
  have rows: "tx_of w' (tx_id t) = Some (if ok then r\<lparr>tx_status := StatusConfirmed, tx_hash := tx_hash t\<rparr>
      else r\<lparr>tx_status := StatusFailed\<rparr>)"
  proof (cases ok)
    case True
    with w' have "update_tx_confirmed None (tx_id t) (tx_hash t) (rs_world s) = (None, w')"
      by (simp add: u_def)
    from update_tx_confirmed_effect [OF this, of "tx_id t"] assms(2,3)
    show ?thesis using True by (auto simp: in_flight_def)
  next
    case False
    with w' have "update_tx_failed None (tx_id t) (rs_world s) = (None, w')" by (simp add: u_def)
    from update_tx_failed_effect [OF this, of "tx_id t"] assms(2,3)
    show ?thesis using False by (auto simp: in_flight_def)
  qed
  have "w_txs (rs_world s') = w_txs w'"
    using assms(1,4,6-8) w' by (cases ok) (auto simp: check_pending_def Let_def u_def)
  with rows show ?thesis by simp
qed

section \<open>Facts about the audit\<close>

text \<open>The answer \<open>404\<close> is never recognised, because the wrapper hides the library's error type.\<close>

lemma check_transaction_404:
  assumes "re_detail E (tx_hash t) = Inl e"
  shows "check_transaction D R E t s
    = (Some (Wrap ''fetch transaction detail'' (Wrap ''transaction detail'' e)), s)"
  using assms by (simp add: check_transaction_def)

lemma check_transaction_passed:
  assumes "re_detail E (tx_hash t) = Inr True" and "re_ops E (tx_hash t) = Inr ops"
    and "build_expected R E t (rs_world s) = Inr x" and "verify_ops D ops x = (True, True, True)"
    and "re_q E (tx_id t) RecReconciled = None"
  shows "\<exists>s'. check_transaction D R E t s = (None, s') \<and>
    rs_world s' = set_txs (\<lambda>r. tx_id r = tx_id t) (\<lambda>r. r\<lparr>tx_reconciled := Some (re_now E)\<rparr>) (rs_world s)
    \<and> rs_alerts s' = rs_alerts s"
  using assms by (simp add: check_transaction_def Let_def update_reconciled_at_def write_audit_def)

lemma check_transaction_flagged:
  assumes "re_detail E (tx_hash t) = Inr True" and "re_ops E (tx_hash t) = Inr ops"
    and "build_expected R E t (rs_world s) = Inr x" and "verify_ops D ops x \<noteq> (True, True, True)"
    and "re_q E (tx_id t) RecStatus = None"
  shows "\<exists>s'. check_transaction D R E t s = (None, s') \<and>
    rs_world s' = set_txs (\<lambda>r. tx_id r = tx_id t) (\<lambda>r. r\<lparr>tx_status := StatusReconciliationFailed\<rparr>)
      (rs_world s) \<and>
    rs_alerts s' = rs_alerts s @ [(''Reconciliation Failed: Payment Mismatch'', tx_id t)]"
  using assms
  by (cases "verify_ops D ops x")
     (auto simp: check_transaction_def flag_transaction_def update_reconciliation_status_def alert_def
        write_audit_def)

section \<open>Facts about recovery\<close>

lemma recover_one_held: "tx_status t = StatusComplianceHold \<Longrightarrow> recover_one E t s = s"
  by (simp add: recover_one_def)

text \<open>A transaction is put on the queue again at most \<open>max_requeues\<close> times.\<close>

lemma requeue_one_cases:
  assumes "tx_of (rs_world s) (tx_id t) = Some r" and "re_q E (tx_id t) = (\<lambda>_. None)"
  shows "rs_world (requeue_one E t s) =
    (let w1 = set_txs (\<lambda>r. tx_id r = tx_id t) (\<lambda>r. r\<lparr>tx_requeues := tx_requeues r + 1\<rparr>) (rs_world s) in
     if tx_requeues r \<ge> max_requeues
     then set_txs (\<lambda>r. tx_id r = tx_id t) (\<lambda>r. r\<lparr>tx_status := StatusFailed\<rparr>) w1
     else w1\<lparr>w_queue := w_queue w1 @ [tx_id t]\<rparr>)"
  using assms
  by (simp add: requeue_one_def increment_requeue_def max_requeues_def alert_def Let_def
      update_reconciliation_status_def enqueue_transfer_def)

text \<open>One row without a hash, and a driver that refuses to scan NULL, and nothing is recovered.\<close>

lemma scan_stuck_null:
  "\<exists>r \<in> set rs. tx_hash r = '''' \<Longrightarrow> \<exists>e. scan_stuck None rs = Inl e"
proof (induction rs)
  case (Cons r rs)
  then show ?case by (cases "tx_hash r = ''''"; cases "scan_stuck None rs") auto
qed simp

lemma recover_pending_null:
  assumes "re_scan_null E = None" and "r \<in> set (w_txs (rs_world s))"
    and "stuck_row (re_now E) stuck_threshold r" and "tx_hash r = ''''"
  shows "\<exists>e. recover_pending E s = (Some e, s)"
proof -
  let ?rows = "sort_key tx_created (filter (stuck_row (re_now E) stuck_threshold) (w_txs (rs_world s)))"
  have "\<exists>r \<in> set ?rows. tx_hash r = ''''" using assms by auto
  then obtain e where "scan_stuck None ?rows = Inl e" using scan_stuck_null by blast
  with assms(1) show ?thesis
    by (auto simp: recover_pending_def get_stuck_pending_def split: option.splits)
qed

lemma set_txs_net [simp]: "w_net (set_txs P f w) = w_net w"
  by (simp add: set_txs_def)

lemma requeue_one_net [simp]: "w_net (rs_world (requeue_one E t s)) = w_net (rs_world s)"
  by (auto simp: requeue_one_def Let_def increment_requeue_def update_reconciliation_status_def alert_def
      split: option.splits)

lemma recover_one_net [simp]: "w_net (rs_world (recover_one E t s)) = w_net (rs_world s)"
  by (auto simp: recover_one_def reset_stuck_submitted_def guarded_update_def split: option.splits)

section \<open>Facts about the balances\<close>

lemma compare_asset_found:
  "set (rs_found (fold (compare_asset R E wid db hz) ks s)) =
     set (rs_found s) \<union> {\<lparr>di_wallet = wid, di_db = value_at db a, di_horizon = value_at hz a, di_asset = a\<rparr> | a.
       a \<in> set ks \<and> re_q E wid RecDiscrepancy = None \<and> rc_threshold R < \<bar>value_at db a - value_at hz a\<bar>}"
proof (induction ks arbitrary: s)
  case (Cons k ks)
  have "set (rs_found (compare_asset R E wid db hz k s)) = set (rs_found s) \<union>
      (if re_q E wid RecDiscrepancy = None \<and> rc_threshold R < \<bar>value_at db k - value_at hz k\<bar>
       then {\<lparr>di_wallet = wid, di_db = value_at db k, di_horizon = value_at hz k, di_asset = k\<rparr>} else {})"
    by (auto simp: compare_asset_def Let_def alert_def not_le)
  with Cons show ?case by auto
qed simp

lemma compare_asset_world [simp]: "rs_world (compare_asset R E wid db hz a s) = rs_world s"
  by (simp add: compare_asset_def Let_def alert_def)

lemma fold_compare_world [simp]: "rs_world (fold (compare_asset R E wid db hz) ks s) = rs_world s"
  by (induction ks arbitrary: s) simp_all

text \<open>Balances are reported, never corrected.\<close>

lemma check_wallet_balance_world: "rs_world (snd (check_wallet_balance D R E x s)) = rs_world s"
  by (simp add: check_wallet_balance_def split: sum.splits option.splits)

lemma run_balance_world: "rs_world (snd (run_balance_reconciliation D R E s)) = rs_world s"
proof -
  have "rs_world (fold (\<lambda>x s. snd (check_wallet_balance D R E x s)) xs s) = rs_world s" for xs
    by (induction xs arbitrary: s) (simp_all add: check_wallet_balance_world)
  then show ?thesis by (simp add: run_balance_reconciliation_def split: option.splits)
qed

section \<open>The whole pass\<close>

text \<open>A check never changes an id or a hash, as long as the listed transaction carries its row's hash.\<close>

definition tx_keys :: "world \<Rightarrow> (string \<times> string) list" where
  "tx_keys w = map (\<lambda>r. (tx_id r, tx_hash r)) (w_txs w)"

lemma hash_taken_tx_keys:
  "tx_keys w' = tx_keys w \<Longrightarrow> hash_taken i h w' = hash_taken i h w"
  by (simp add: hash_taken_keys tx_keys_def)

lemma wf_txs_tx_keys: "tx_keys w' = tx_keys w \<Longrightarrow> wf_txs w \<Longrightarrow> wf_txs w'"
proof -
  assume k: "tx_keys w' = tx_keys w"
  from arg_cong [OF this, of "map fst"] arg_cong [OF this, of "map snd"]
  have "map tx_id (w_txs w') = map tx_id (w_txs w)" "map tx_hash (w_txs w') = map tx_hash (w_txs w)"
    by (simp_all add: tx_keys_def comp_def)
  then show "wf_txs w \<Longrightarrow> wf_txs w'" by (simp add: wf_txs_def)
qed

lemma wf_hash_not_taken:
  assumes "wf_txs w" and "(i, h) \<in> set (tx_keys w)"
  shows "\<not> hash_taken i h w"
proof
  assume "hash_taken i h w"
  then obtain r where r: "r \<in> set (w_txs w)" "tx_id r \<noteq> i" "tx_hash r = h" "h \<noteq> ''''"
    by (auto simp: hash_taken_def)
  from assms(2) obtain q where q: "q \<in> set (w_txs w)" "tx_id q = i" "tx_hash q = h"
    by (auto simp: tx_keys_def)
  have "inj_on tx_hash (set (filter ((\<lambda>h. h \<noteq> '''') \<circ> tx_hash) (w_txs w)))"
    using assms(1) by (simp add: wf_txs_def filter_map distinct_map)
  with r q have "r = q" by (simp add: inj_on_def)
  with r(2) q(2) show False by simp
qed

lemma tx_keys_update:
  assumes "\<And>r. r \<in> set (w_txs w) \<Longrightarrow> P r \<Longrightarrow> (tx_id (f r), tx_hash (f r)) = (tx_id r, tx_hash r)"
  shows "tx_keys (set_txs P f w) = tx_keys w"
  using assms by (simp add: tx_keys_def set_txs_def update_where_def)

lemma check_pending_keys:
  assumes "check_pending E t s = (x, s')" and "wf_txs (rs_world s)"
    and "(tx_id t, tx_hash t) \<in> set (tx_keys (rs_world s))"
  shows "tx_keys (rs_world s') = tx_keys (rs_world s)"
  using assms(1)
proof (cases rule: check_pending_cases)
  case (confirmed w')
  have "tx_hash r = tx_hash t" if r: "r \<in> set (w_txs (rs_world s))" "tx_id r = tx_id t" for r
  proof -
    from assms(3) obtain q where "q \<in> set (w_txs (rs_world s))" "tx_id q = tx_id t" "tx_hash q = tx_hash t"
      by (auto simp: tx_keys_def)
    with r assms(2) show ?thesis by (metis option.inject row_with_unique wf_txs_ids)
  qed
  note same = this
  from confirmed(3) have "tx_keys w' = tx_keys (rs_world s)"
    by (cases rule: update_tx_confirmed_cases) (auto dest: same intro!: tx_keys_update)
  with confirmed(4) show ?thesis by (simp add: tx_keys_def)
next
  case (failed w')
  then have "tx_keys w' = tx_keys (rs_world s)"
    by (auto simp: update_tx_failed_def guarded_update_def intro!: tx_keys_update split: if_splits option.splits)
  with failed(4) show ?thesis by (simp add: tx_keys_def)
qed (simp add: tx_keys_def)

text \<open>The verdict a listed transaction gets, once its turn has come, is kept by the rest of the pass.\<close>

lemma check_pending_all_settles:
  assumes "check_pending_all E ts n s = (m, s')" and "wf_txs (rs_world s)"
    and "\<forall>t \<in> set ts. (tx_id t, tx_hash t) \<in> set (tx_keys (rs_world s))" and "distinct (map tx_id ts)"
    and "t \<in> set ts" and "tx_of (rs_world s) (tx_id t) = Some r" and "in_flight (tx_status r)"
    and "tx_hash t \<noteq> ''''" and "re_detail E (tx_hash t) = Inr ok"
    and "re_q E (tx_id t) RecConfirm = None" and "re_q E (tx_id t) RecFail = None"
  shows "\<exists>r'. tx_of (rs_world s') (tx_id t) = Some r' \<and>
    tx_status r' = (if ok then StatusConfirmed else StatusFailed)"
  using assms
proof (induction E ts n s arbitrary: r rule: check_pending_all.induct)
  case (2 E u us d c s)
  obtain x s1 where x: "check_pending E u s = (x, s1)" by (cases "check_pending E u s")
  obtain di p where x1: "(di, p) = x" by (cases x) auto
  obtain co q where p: "(co, q) = p" by (cases p) auto
  have rest: "check_pending_all E us (if di then d + 1 else d, if co then c + 1 else c) s1 = (m, s')"
    using 2(2) x by (simp flip: x1 p)
  have keys: "tx_keys (rs_world s1) = tx_keys (rs_world s)" using 2(4) check_pending_keys [OF x 2(3)] by simp
  show ?case
  proof (cases "u = t")
    case True
    have "\<not> hash_taken (tx_id t) (tx_hash t) (rs_world s)"
      by (rule wf_hash_not_taken [OF 2(3)]) (use 2(4,6) in auto)
    from check_pending_settles [OF x [unfolded True] 2(7,8,9) this 2(10-12)] obtain r'
      where r': "tx_of (rs_world s1) (tx_id t) = Some r'" "tx_status r' = (if ok then StatusConfirmed else StatusFailed)"
      by blast
    then have "\<not> in_flight (tx_status r')" by (simp add: in_flight_def)
    from check_pending_all_settled [OF rest r'(1) this] r'(2) show ?thesis by simp
  next
    case False
    then have t: "t \<in> set us" "tx_id u \<noteq> tx_id t" using 2(5,6) by auto
    have "tx_of (rs_world s1) (tx_id t) = Some r"
      using check_pending_rows [OF x, of "tx_id t"] 2(7) t(2) by (auto simp: corrected_def dest: row_with_SomeD)
    from 2(1) [OF x [symmetric] x1 p rest wf_txs_tx_keys [OF keys 2(3)] _ _ t(1) this 2(8-12)] 2(4,5) keys
    show ?thesis by simp
  qed
qed simp

section \<open>Properties\<close>

definition sample_rec_env :: "(string \<Rightarrow> err + bool) \<Rightarrow> reconcile_env" where
  "sample_rec_env detail = \<lparr>re_now = 10 ^ 15, re_ctx = no_tenant, re_detail = detail, re_ops = (\<lambda>_. Inr []),
     re_account = (\<lambda>_. Inr []), re_q = (\<lambda>_ _. None), re_pending_q = None, re_confirmed_q = None,
     re_stuck_q = None, re_scan_null = None, re_wallets_q = None, re_run_q = None, re_hooks = False,
     re_dispatch = None\<rparr>"

definition rec_start :: "world \<Rightarrow> rec_state" where
  "rec_start w = \<lparr>rs_world = w, rs_audit = [], rs_alerts = [], rs_found = [], rs_runs = []\<rparr>"

definition sample_rows :: "transaction list \<Rightarrow> world" where
  "sample_rows ts = (sample_world StatusPending)\<lparr>w_txs := ts\<rparr>"

lemma rec_start_world [simp]: "rs_world (rec_start w) = w"
  by (simp add: rec_start_def)

lemma sample_rows_txs [simp]: "w_txs (sample_rows ts) = ts"
  by (simp add: sample_rows_def)

lemma read_tx_short_simps [simp]:
  "tx_id (read_tx_short r) = tx_id r" "tx_hash (read_tx_short r) = tx_hash r"
  by (simp_all add: read_tx_short_def without_fiat_def)

lemma sample_rec_q: "re_q (sample_rec_env d) = (\<lambda>_ _. None)"
  by (simp add: sample_rec_env_def)

lemma sample_rows_queue: "w_queue (sample_rows ts) = []"
  by (simp add: sample_rows_def sample_world_def empty_world_def)

lemma sample_tx_id: "tx_id (sample_tx i st) = i"
  by (simp add: sample_tx_def)

text \<open>
  C5: One pass over the unfinished transactions gives every one of them that the network knows, and
  whose update the database takes, the verdict of the network: confirmed or failed.
\<close>

theorem pending_pass_settles:
  assumes "run_pending_reconciliation E s = (Inr n, s')" and "wf_txs (rs_world s)"
    and "t \<in> set (pending_for_reconciliation (re_now E) pending_check_threshold (rs_world s))"
    and "re_detail E (tx_hash t) = Inr ok"
    and "re_q E (tx_id t) RecConfirm = None" and "re_q E (tx_id t) RecFail = None"
  shows "\<exists>r'. tx_of (rs_world s') (tx_id t) = Some r' \<and>
    tx_status r' = (if ok then StatusConfirmed else StatusFailed)"
proof -
  let ?ts = "pending_for_reconciliation (re_now E) pending_check_threshold (rs_world s)"
  from assms(1) obtain m where run: "check_pending_all E ?ts (0, 0) s = (m, s')"
    by (auto simp: run_pending_reconciliation_def Let_def split: option.splits prod.splits)
  have keys: "\<forall>t \<in> set ?ts. (tx_id t, tx_hash t) \<in> set (tx_keys (rs_world s))"
    by (auto simp: pending_for_reconciliation_def tx_keys_def)
  have "distinct (map tx_id (filter Q (w_txs (rs_world s))))" for Q
    using assms(2) by (simp add: wf_txs_def distinct_map_filter)
  then have ids: "distinct (map tx_id ?ts)"
    by (simp add: pending_for_reconciliation_def comp_def distinct_map)
  from assms(3) obtain r where r: "r \<in> set (w_txs (rs_world s))" "t = read_tx_short r"
    "tx_status r \<in> {StatusPending, StatusSubmitted}" "tx_hash r \<noteq> ''''"
    by (auto simp: pending_for_reconciliation_def)
  have "tx_of (rs_world s) (tx_id t) = Some r"
    using row_with_unique [of tx_id "w_txs (rs_world s)" r] r(1,2) assms(2)
    by (simp add: wf_txs_def)
  from check_pending_all_settles [OF run assms(2) keys ids assms(3) this _ _ assms(4-6)] r(2-4)
  show ?thesis by (auto simp: in_flight_def)
qed

lemma pending_pass_settles_witness:
  "\<exists>r'. tx_of (rs_world (snd (run_pending_reconciliation (sample_rec_env (\<lambda>_. Inr True))
       (rec_start (sample_rows [(sample_tx ''t'' StatusSubmitted)\<lparr>tx_hash := ''h''\<rparr>]))))) ''t'' = Some r' \<and>
     tx_status r' = StatusConfirmed"
proof -
  let ?t = "(sample_tx ''t'' StatusSubmitted)\<lparr>tx_hash := ''h''\<rparr>"
  let ?E = "sample_rec_env (\<lambda>_. Inr True)"
  let ?s = "rec_start (sample_rows [?t])"
  have "re_pending_q ?E = None" by (simp add: sample_rec_env_def)
  then obtain n where n: "run_pending_reconciliation ?E ?s = (Inr n, snd (run_pending_reconciliation ?E ?s))"
    by (cases "run_pending_reconciliation ?E ?s")
       (auto simp: run_pending_reconciliation_def Let_def split: prod.splits)
  have wf: "wf_txs (rs_world ?s)" by (simp add: wf_txs_def)
  have "read_tx_short ?t \<in> set (pending_for_reconciliation (re_now ?E) pending_check_threshold (rs_world ?s))"
    by (simp add: pending_for_reconciliation_def sample_rec_env_def sample_tx_def pending_check_threshold_def
        minute_def second_def)
  from pending_pass_settles [OF n wf this, of True] show ?thesis
    by (simp add: sample_rec_env_def sample_tx_def)
qed

text \<open>
  A transaction the network does not know is never noticed. The client wraps the library's error,
  so the branch for the answer \<^verbatim>\<open>404\<close> is not reached, neither in the audit of confirmed transactions nor in
  the pass over unfinished ones: both report an error and leave everything as it was.
\<close>

theorem missing_transaction_never_flagged:
  assumes "re_detail E (tx_hash t) = Inl e"
  shows "fst (check_transaction D R E t s) \<noteq> None \<and> snd (check_transaction D R E t s) = s \<and>
    (tx_hash t \<noteq> '''' \<longrightarrow> fst (fst (check_pending E t s)) = False \<and> snd (check_pending E t s) = s)"
  using assms by (simp add: check_transaction_404 check_pending_def Let_def)

definition sample_reconciler :: reconciler where
  "sample_reconciler = \<lparr>rc_unicode = ascii_tables, rc_registry = Map.empty, rc_fee_wallet = ''GF'',
     rc_threshold = 1\<rparr>"

lemma missing_transaction_never_flagged_witness:
  "snd (check_transaction reference_pkg sample_reconciler (sample_rec_env (\<lambda>_. Inl (HorizonError 404 ''404 Not Found'')))
     (sample_tx ''t'' StatusConfirmed) (rec_start empty_world)) = rec_start empty_world"
  using missing_transaction_never_flagged [of "sample_rec_env (\<lambda>_. Inl (HorizonError 404 ''404 Not Found''))"
      "sample_tx ''t'' StatusConfirmed" "HorizonError 404 ''404 Not Found''" reference_pkg sample_reconciler
      "rec_start empty_world"]
  by (simp add: sample_rec_env_def)

text \<open>
  An audit passes exactly if some operation is the payment and, where there is a fee, some
  operation is the fee; the loop with its early return agrees with that.
\<close>

theorem verify_ops_iff:
  "verify_ops D ops x = (True, True, True) \<longleftrightarrow>
     list_ex (\<lambda>op. \<exists>c. extract_candidate D op = Some c \<and> matches_main_leg c x) ops \<and>
     (ep_fee x \<le> 0 \<or> list_ex (\<lambda>op. \<exists>c. extract_candidate D op = Some c \<and> matches_fee_leg c x) ops)"
  by (auto simp: verify_ops_spec Let_def list_ex_iff candidates_def)

text \<open>
  The two operations need not be distinct, as the comment on \<^verbatim>\<open>verifyOps\<close> says they are: when the
  destination is the platform's fee wallet and the fee is half of the amount, a single payment passes
  for both.
\<close>

theorem one_operation_both_legs:
  assumes "extract_candidate D op = Some c" and "matches_main_leg c x" and "ep_to x = ep_fee_wallet x"
    and "ep_to x \<noteq> ''''" and "ep_fee x = ep_net x"
  shows "verify_ops D [op] x = (True, True, True)"
  using assms by (auto simp: verify_ops_def matches_main_leg_def matches_fee_leg_def split: if_splits)

definition sample_text_pkg :: decimal_pkg where
  "sample_text_pkg = reference_pkg\<lparr>d_fixed := \<lambda>x p. if x = 9 then ''9'' else ''1'',
     d_parse := \<lambda>s. if s = ''9'' then Some 9 else Some 1\<rparr>"

definition sample_op :: "string \<Rightarrow> string \<Rightarrow> horizon_op" where
  "sample_op to_key amt = \<lparr>ho_type = ''payment'', ho_fields = Some \<lparr>pf_from = ''GA'', pf_to = to_key,
     pf_amount = amt, pf_type = ''native'', pf_code = '''', pf_issuer = ''''\<rparr>\<rparr>"

lemma one_operation_both_legs_witness:
  "verify_ops sample_text_pkg [sample_op ''GF'' ''1''] \<lparr>ep_from = ''GA'', ep_to = ''GF'', ep_code = ''XLM'',
     ep_issuer = '''', ep_net = 1, ep_fee = 1, ep_fee_wallet = ''GF''\<rparr> = (True, True, True)"
  by (rule one_operation_both_legs [where c = "\<lparr>ca_from = ''GA'', ca_to = ''GF'', ca_amount = 1,
        ca_type = ''native'', ca_code = '''', ca_issuer = ''''\<rparr>"])
     (simp_all add: extract_candidate_def sample_op_def sample_text_pkg_def matches_main_leg_def
        asset_identity_matches_def)

subsection \<open>What the engine sends passes the audit\<close>

text \<open>
  The documented answer of Horizon for a payment operation: its type, accounts and amount, and either
  the type \<^verbatim>\<open>native\<close> or another type with the code and the issuer of the asset.
\<close>

definition reported :: "string \<Rightarrow> payment \<Rightarrow> horizon_op \<Rightarrow> bool" where
  "reported from_key p op \<longleftrightarrow> ho_type op = ''payment'' \<and>
     (\<exists>f. ho_fields op = Some f \<and> pf_from f = from_key \<and> pf_to f = pay_dest p \<and> pf_amount f = pay_amount p
        \<and> (if pay_asset p = ''XLM'' then pf_type f = ''native''
           else pf_type f \<noteq> ''native'' \<and> pf_code f = pay_asset p \<and> pf_issuer f = pay_issuer p))"

definition same_issuer :: "reconciler \<Rightarrow> engine \<Rightarrow> string \<Rightarrow> bool" where
  "same_issuer R en code \<longleftrightarrow> code = ''XLM'' \<or>
     (case get_asset (rc_unicode R) (rc_registry R) code of None \<Rightarrow> False
      | Some a \<Rightarrow> as_code a = code \<and> en_issuers en code = Some (as_issuer a))"

definition survives_text :: "decimal_pkg \<Rightarrow> decimal \<Rightarrow> bool" where
  "survives_text D x \<longleftrightarrow> d_fixed D x 7 \<noteq> '''' \<and> d_parse D (d_fixed D x 7) = Some x"

lemma extract_reported:
  assumes "reported k p op" and "pay_amount p = d_fixed D a 7" and "survives_text D a"
    and "pay_asset p = ep_code x" and "pay_issuer p = ep_issuer x"
  shows "\<exists>c. extract_candidate D op = Some c \<and> ca_from c = k \<and> ca_to c = pay_dest p \<and> ca_amount c = a
    \<and> asset_identity_matches c x"
proof -
  from assms(1) obtain f where f: "ho_type op = ''payment''" "ho_fields op = Some f" "pf_from f = k" "pf_to f = pay_dest p"
    "pf_amount f = pay_amount p" and kind: "if pay_asset p = ''XLM'' then pf_type f = ''native''
       else pf_type f \<noteq> ''native'' \<and> pf_code f = pay_asset p \<and> pf_issuer f = pay_issuer p"
    unfolding reported_def by blast
  let ?c = "\<lparr>ca_from = pf_from f, ca_to = pf_to f, ca_amount = a, ca_type = pf_type f, ca_code = pf_code f, ca_issuer = pf_issuer f\<rparr>"
  have "extract_candidate D op = Some ?c"
    using f assms(2,3) by (simp add: extract_candidate_def survives_text_def)
  moreover have "asset_identity_matches ?c x"
    using kind assms(4,5) by (simp add: asset_identity_matches_def split: if_splits)
  ultimately show ?thesis using f by auto
qed

text \<open>The keys that the audit looks up are those the engine pays from and to, as ids are unique.\<close>

lemma get_wallet_unique:
  assumes "get_wallet c q i w = Inr x" and "get_wallet c' q' i w' = Inr y"
    and "w_wallets w' = w_wallets w" and "distinct (map wa_id (w_wallets w))"
  shows "y = x"
proof -
  have "x \<in> set (w_wallets w) \<and> wa_id x = i" "y \<in> set (w_wallets w) \<and> wa_id y = i"
    using assms(1-3) by (auto simp: get_wallet_def find_Some_iff split: option.splits)
  with assms(4) show ?thesis by (auto simp: distinct_map inj_on_def)
qed

lemma build_expected_keys:
  assumes "build_expected R F t w' = Inr x" and "prepare D c en E t w = Inr (src, dst, ops, h)"
    and "w_wallets w' = w_wallets w" and "distinct (map wa_id (w_wallets w))"
  shows "ep_from x = (if tx_from t = '''' then '''' else wa_public_key src)"
    and "ep_to x = (if tx_to t = '''' then '''' else wa_public_key dst)"
proof -
  have src: "get_wallet c (ge_src E) (tx_from t) w = Inr src" and dst: "get_wallet c (ge_dst E) (tx_to t) w = Inr dst"
    using assms(2) by (auto simp: prepare_def split: sum.splits option.splits)
  note same = get_wallet_unique [OF src _ assms(3,4)] get_wallet_unique [OF dst _ assms(3,4)]
  show "ep_from x = (if tx_from t = '''' then '''' else wa_public_key src)"
    using assms(1) same(1)
    by (cases "get_wallet (re_ctx F) (re_q F (tx_id t) RecFrom) (tx_from t) w'")
       (auto simp: build_expected_def Let_def split: sum.splits option.splits if_splits)
  show "ep_to x = (if tx_to t = '''' then '''' else wa_public_key dst)"
    using assms(1) same(2)
    by (cases "get_wallet (re_ctx F) (re_q F (tx_id t) RecTo) (tx_to t) w'")
       (auto simp: build_expected_def Let_def split: sum.splits option.splits if_splits)
qed

lemma prepare_ops:
  assumes "prepare D c en E t w = Inr (src, dst, ops, h)"
  obtains a where "build_asset en (tx_asset t) = Inr a" "payment_ops D en t (wa_public_key dst) a = Inr ops"
  using assms by (auto simp: prepare_def split: sum.splits option.splits)

lemma build_expected_asset:
  assumes "build_expected R E t w = Inr x" and "build_asset en (tx_asset t) = Inr a"
    and "same_issuer R en (tx_asset t)"
  shows "ep_code x = fst a" "ep_issuer x = snd a" "ep_code x = ''XLM'' \<longleftrightarrow> tx_asset t = ''XLM''"
    "ep_net x = net_amount t" "ep_fee x = tx_fee t" "ep_fee_wallet x = rc_fee_wallet R"
  using assms
  by (auto simp: build_expected_def build_asset_def same_issuer_def Let_def split: sum.splits option.splits if_splits)

text \<open>
  C4: the audit accepts what the engine sends. The operations that the engine prepares from a row, as the
  network reports them, pass the verification against the payment that the reconciler rebuilds from the
  row and the same wallets: it expects the account of the source wallet to pay the one of the destination
  wallet. Ids are unique, engine and registry name the same issuer and fee wallet, and the two amounts survive
  being written with seven places and read back.
\<close>

theorem audit_accepts_settlement:
  assumes "prepare D c en E t w = Inr (src, dst, ops, h)" and "build_expected R F t w' = Inr x"
    and "w_wallets w' = w_wallets w" and "distinct (map wa_id (w_wallets w))"
    and "same_issuer R en (tx_asset t)" and "rc_fee_wallet R = en_fee_wallet en"
    and "survives_text D (net_amount t)" and "survives_text D (tx_fee t)"
    and "list_all2 (reported (wa_public_key src)) ops hops"
  shows "verify_ops D hops x = (True, True, True) \<and>
    ep_from x = (if tx_from t = '''' then '''' else wa_public_key src) \<and>
    ep_to x = (if tx_to t = '''' then '''' else wa_public_key dst)"
proof -
  obtain a where asset: "build_asset en (tx_asset t) = Inr a" and ops: "payment_ops D en t (wa_public_key dst) a = Inr ops"
    by (rule prepare_ops [OF assms(1)])
  note x = build_expected_asset [OF assms(2) asset assms(5)]
  note keys = build_expected_keys [OF assms(2,1,3,4)]
  let ?pay = "\<lambda>d y. \<lparr>pay_dest = d, pay_asset = fst a, pay_issuer = snd a, pay_amount = d_fixed D y 7\<rparr>"
  have main: "\<exists>c. extract_candidate D op = Some c \<and> matches_main_leg c x"
    if "reported (wa_public_key src) (?pay (wa_public_key dst) (net_amount t)) op" for op
    using extract_reported [OF that _ assms(7), of x] x(1,2,4) keys by (auto simp: matches_main_leg_def)
  have fee: "\<exists>c. extract_candidate D op = Some c \<and> matches_fee_leg c x"
    if "reported (wa_public_key src) (?pay (en_fee_wallet en) (tx_fee t)) op" "en_fee_wallet en \<noteq> ''''" for op
    using extract_reported [OF that(1) _ assms(8), of x] that(2) x(1,2,5,6) assms(6) by (auto simp: matches_fee_leg_def)
  have "verify_ops D hops x = (True, True, True)"
  proof (cases "tx_fee t > 0")
    case True
    with ops have two: "ops = [?pay (wa_public_key dst) (net_amount t), ?pay (en_fee_wallet en) (tx_fee t)]"
      and fw: "en_fee_wallet en \<noteq> ''''" by (auto simp: payment_ops_def Let_def split: if_splits)
    from assms(9) obtain op1 op2 where "hops = [op1, op2]"
      and "reported (wa_public_key src) (?pay (wa_public_key dst) (net_amount t)) op1"
      and "reported (wa_public_key src) (?pay (en_fee_wallet en) (tx_fee t)) op2"
      unfolding two by (auto simp: list_all2_Cons1)
    with main [of op1] fee [of op2] fw show ?thesis by (auto simp: verify_ops_spec Let_def candidates_def)
  next
    case False
    with ops have one: "ops = [?pay (wa_public_key dst) (net_amount t)]"
      by (auto simp: payment_ops_def Let_def split: if_splits)
    from assms(9) obtain op1 where "hops = [op1]"
      and "reported (wa_public_key src) (?pay (wa_public_key dst) (net_amount t)) op1"
      unfolding one by (auto simp: list_all2_Cons1)
    with main [of op1] False x(5) show ?thesis by (auto simp: verify_ops_spec Let_def candidates_def)
  qed
  with keys show ?thesis by simp
qed

lemma audit_accepts_settlement_witness:
  "\<exists>src dst ops hops x.
     prepare sample_text_pkg no_tenant sample_engine sample_settle_env (sample_tx ''t'' StatusConfirmed) (sample_world StatusConfirmed)
       = Inr (src, dst, ops, ''h1'') \<and> list_all2 (reported ''GA'') ops hops \<and> length hops = 2 \<and>
     build_expected sample_reconciler (sample_rec_env (\<lambda>_. Inr True)) (sample_tx ''t'' StatusConfirmed) (sample_world StatusConfirmed) = Inr x \<and>
     verify_ops sample_text_pkg hops x = (True, True, True) \<and> ep_from x = ''GA'' \<and> ep_to x = ''GB''"
proof -
  let ?t = "sample_tx ''t'' StatusConfirmed" and ?w = "sample_world StatusConfirmed"
  let ?a = "sample_wallet ''a'' ''GA''" and ?b = "sample_wallet ''b'' ''GB''"
  let ?x = "\<lparr>ep_from = ''GA'', ep_to = ''GB'', ep_code = ''XLM'', ep_issuer = '''', ep_net = 9, ep_fee = 1, ep_fee_wallet = ''GF''\<rparr>"
  let ?ops = "[\<lparr>pay_dest = ''GB'', pay_asset = ''XLM'', pay_issuer = '''', pay_amount = ''9''\<rparr>,
    \<lparr>pay_dest = ''GF'', pay_asset = ''XLM'', pay_issuer = '''', pay_amount = ''1''\<rparr>]"
  let ?hops = "[sample_op ''GB'' ''9'', sample_op ''GF'' ''1'']"
  have e: "build_expected sample_reconciler (sample_rec_env (\<lambda>_. Inr True)) ?t ?w = Inr ?x"
    by (simp add: build_expected_def get_wallet_def sample_rec_env_def sample_reconciler_def sample_world_def
        sample_wallet_def sample_tx_def net_amount_def no_tenant_def in_scope_def)
  have p: "prepare sample_text_pkg no_tenant sample_engine sample_settle_env ?t ?w = Inr (?a, ?b, ?ops, ''h1'')"
    by (simp add: prepare_def get_wallet_def sample_settle_env_def sample_engine_def sample_world_def load_account_def result_of_def
        sample_wallet_def sample_tx_def net_amount_def no_tenant_def in_scope_def build_asset_def payment_ops_def sample_text_pkg_def)
  have r: "list_all2 (reported (wa_public_key ?a)) ?ops ?hops"
    by (simp add: reported_def sample_op_def sample_wallet_def)
  have "verify_ops sample_text_pkg ?hops ?x = (True, True, True) \<and>
      ep_from ?x = (if tx_from ?t = '''' then '''' else wa_public_key ?a) \<and> ep_to ?x = (if tx_to ?t = '''' then '''' else wa_public_key ?b)"
  proof (rule audit_accepts_settlement [OF p e _ _ _ _ _ _ r])
    show "survives_text sample_text_pkg (net_amount ?t)" "survives_text sample_text_pkg (tx_fee ?t)"
      by (simp_all add: survives_text_def sample_text_pkg_def net_amount_def sample_tx_def)
  qed (simp_all add: same_issuer_def sample_reconciler_def sample_engine_def sample_tx_def sample_world_def sample_wallet_def)
  with p e r show ?thesis by (intro exI [of _ ?a] exI [of _ ?b] exI [of _ ?ops] exI [of _ ?hops] exI [of _ ?x])
      (simp add: sample_wallet_def)
qed

text \<open>
  Recovery stops working when it is needed. The query for stuck rows reads the nullable hash into a
  text; one stuck row without a hash, which every transfer that was never submitted is, makes the
  whole query fail, and nothing is recovered.
\<close>

theorem stuck_recovery_blocked:
  assumes "re_scan_null E = None" and "list_ex (\<lambda>r. stuck_row (re_now E) stuck_threshold r \<and> tx_hash r = '''')
    (w_txs (rs_world s))"
  shows "\<exists>e. recover_pending E s = (Some e, s)"
  using assms recover_pending_null by (auto simp: list_ex_iff)

lemma stuck_recovery_blocked_witness:
  "\<exists>e. recover_pending (sample_rec_env (\<lambda>_. Inr True)) (rec_start (sample_rows [sample_tx ''t'' StatusPending]))
     = (Some e, rec_start (sample_rows [sample_tx ''t'' StatusPending]))"
  by (rule stuck_recovery_blocked)
     (simp_all add: sample_rec_env_def stuck_row_def sample_tx_def stuck_threshold_def minute_def second_def)

text \<open>
  Putting a transaction on the queue again is counted in its row, and after the third time it is
  marked failed and raised as an alert instead.
\<close>

theorem requeue_bounded:
  assumes "tx_of (rs_world s) (tx_id t) = Some r" and "re_q E (tx_id t) = (\<lambda>_. None)"
  shows "\<exists>r'. tx_of (rs_world (requeue_one E t s)) (tx_id t) = Some r' \<and> tx_requeues r' = tx_requeues r + 1 \<and>
    w_queue (rs_world (requeue_one E t s)) =
      w_queue (rs_world s) @ (if tx_requeues r < max_requeues then [tx_id t] else []) \<and>
    tx_status r' = (if tx_requeues r < max_requeues then tx_status r else StatusFailed)"
  using assms(1) row_with_SomeD [OF assms(1)]
  by (simp add: requeue_one_cases [OF assms] Let_def tx_of_set_txs)

lemma requeue_bounded_witness:
  "w_queue (rs_world (requeue_one (sample_rec_env (\<lambda>_. Inr True)) (sample_tx ''t'' StatusPending)
     (rec_start (sample_rows [(sample_tx ''t'' StatusPending)\<lparr>tx_requeues := 3\<rparr>])))) = []"
  using requeue_bounded [of "sample_tx ''t'' StatusPending"
      "rec_start (sample_rows [(sample_tx ''t'' StatusPending)\<lparr>tx_requeues := 3\<rparr>])" "(sample_tx ''t'' StatusPending)\<lparr>tx_requeues := 3\<rparr>"
      "sample_rec_env (\<lambda>_. Inr True)"]
  by (auto simp: sample_rec_q sample_rows_queue max_requeues_def sample_tx_id)

text \<open>
  The write that marks a transaction failed has no guard. If the transaction was settled after the
  list of stuck ones was read, the recovery turns a confirmed row into a failed one.
\<close>

theorem recovery_overwrites_confirmed:
  assumes "tx_of (rs_world s) (tx_id t) = Some r" and "tx_status r = StatusConfirmed"
    and "tx_requeues r \<ge> max_requeues" and "tx_status t = StatusPending" and "re_q E (tx_id t) = (\<lambda>_. None)"
  shows "\<exists>r'. tx_of (rs_world (recover_one E t s)) (tx_id t) = Some r' \<and> tx_status r' = StatusFailed \<and>
    tx_hash r' = tx_hash r"
  using assms row_with_SomeD [OF assms(1)]
  by (simp add: recover_one_def requeue_one_cases Let_def tx_of_set_txs)

lemma recovery_overwrites_confirmed_witness:
  "\<exists>r'. tx_of (rs_world (recover_one (sample_rec_env (\<lambda>_. Inr True)) (sample_tx ''t'' StatusPending)
     (rec_start (sample_rows [(sample_tx ''t'' StatusConfirmed)\<lparr>tx_requeues := 3, tx_hash := ''h''\<rparr>])))) ''t'' = Some r' \<and>
     tx_status r' = StatusFailed \<and> tx_hash r' = ''h''"
  using recovery_overwrites_confirmed
    [of "sample_tx ''t'' StatusPending"
      "rec_start (sample_rows [(sample_tx ''t'' StatusConfirmed)\<lparr>tx_requeues := 3, tx_hash := ''h''\<rparr>])" "(sample_tx ''t'' StatusConfirmed)\<lparr>tx_requeues := 3, tx_hash := ''h''\<rparr>"
      "sample_rec_env (\<lambda>_. Inr True)"]
  by (simp add: sample_rec_env_def max_requeues_def sample_tx_def)

text \<open>
  The comparison of balances only reports. It records one discrepancy for each asset of the wallet
  whose two balances differ by more than the threshold, and leaves the database alone.
\<close>

theorem balances_only_reported:
  assumes "re_account E (wa_public_key x) = Inr bs" and "re_q E (wa_id x) = (\<lambda>_. None)"
  shows "\<exists>s'. check_wallet_balance D R E x s = (None, s') \<and> rs_world s' = rs_world s \<and>
    set (rs_found s') = set (rs_found s) \<union>
      {\<lparr>di_wallet = wa_id x, di_db = value_at (db_balances (wa_id x) (rs_world s)) a,
        di_horizon = value_at (horizon_balances D bs) a, di_asset = a\<rparr> | a.
        a \<in> set (asset_keys (wa_id x) (rs_world s) bs) \<and>
        rc_threshold R < \<bar>value_at (db_balances (wa_id x) (rs_world s)) a - value_at (horizon_balances D bs) a\<bar>}"
  using assms by (simp add: check_wallet_balance_def compare_asset_found)

lemma balances_only_reported_witness:
  "rs_found (snd (check_wallet_balance reference_pkg sample_reconciler (sample_rec_env (\<lambda>_. Inr True))
     (sample_wallet ''a'' ''GA'') (rec_start empty_world))) = []"
  using balances_only_reported [of "sample_rec_env (\<lambda>_. Inr True)" "sample_wallet ''a'' ''GA''" "[]" reference_pkg
      sample_reconciler "rec_start empty_world"]
  by (auto simp: sample_rec_env_def asset_keys_def get_balances_def empty_world_def rec_start_def)

end
