(* ===== verification/Moves.thy ===== *)
theory Moves
  imports Reconcile
begin

text \<open>
  How each operation may change the status of a transfer: \<open>moves X A w w'\<close> says that every row is still
  there, and that only rows with an id in \<open>X\<close> have a new status, which is one of \<open>A\<close>. One lemma per
  operation; the lifecycle is built from them.
\<close>

definition moves :: "string set \<Rightarrow> tx_status set \<Rightarrow> world \<Rightarrow> world \<Rightarrow> bool" where
  "moves X A w w' \<longleftrightarrow> (\<forall>j r. tx_of w j = Some r \<longrightarrow>
     (\<exists>r'. tx_of w' j = Some r' \<and> (tx_status r' = tx_status r \<or> j \<in> X \<and> tx_status r' \<in> A)))"

named_theorems move_intros \<open>the status changes of the operations\<close>

lemma moves_refl [move_intros]: "w_txs w' = w_txs w \<Longrightarrow> moves X A w w'"
  by (simp add: moves_def)

lemma moves_trans:
  assumes "moves X A w w1" and "moves Y B w1 w2"
  shows "moves (X \<union> Y) (A \<union> B) w w2"
  unfolding moves_def
proof (intro allI impI)
  fix j r
  assume "tx_of w j = Some r"
  with assms(1) obtain r1 where r1: "tx_of w1 j = Some r1"
    "tx_status r1 = tx_status r \<or> j \<in> X \<and> tx_status r1 \<in> A" unfolding moves_def by blast
  with assms(2) obtain r2 where "tx_of w2 j = Some r2"
    "tx_status r2 = tx_status r1 \<or> j \<in> Y \<and> tx_status r2 \<in> B" unfolding moves_def by blast
  with r1(2) show "\<exists>r'. tx_of w2 j = Some r' \<and> (tx_status r' = tx_status r \<or>
      j \<in> X \<union> Y \<and> tx_status r' \<in> A \<union> B)"
    by (intro exI [of _ r2]) auto
qed

lemma moves_comp:
  "moves X A w w1 \<Longrightarrow> moves Y B w1 w2 \<Longrightarrow> X \<subseteq> Z \<Longrightarrow> Y \<subseteq> Z \<Longrightarrow> A \<subseteq> C \<Longrightarrow> B \<subseteq> C \<Longrightarrow> moves Z C w w2"
  using moves_trans [of X A w w1 Y B w2] unfolding moves_def by blast

lemma movesD:
  assumes "moves X A w w'" and "tx_of w j = Some r"
  obtains r' where "tx_of w' j = Some r'" "tx_status r' = tx_status r \<or> j \<in> X \<and> tx_status r' \<in> A"
  using assms unfolding moves_def by blast

lemma moves_set_txs:
  assumes "\<And>r. tx_id (f r) = tx_id r"
    and "\<And>r. P r \<Longrightarrow> tx_id r \<in> X \<and> tx_status (f r) \<in> A \<or> tx_status (f r) = tx_status r"
  shows "moves X A w (set_txs P f w)"
  unfolding moves_def
  using assms by (auto simp: tx_of_set_txs dest!: row_with_SomeD)

lemma moves_guarded:
  assumes "\<And>r. tx_id (f r) = tx_id r"
    and "\<And>r. P r \<Longrightarrow> tx_id r \<in> X \<and> tx_status (f r) \<in> A \<or> tx_status (f r) = tx_status r"
  shows "moves X A w (snd (guarded_update what q P f w))"
  using moves_set_txs [OF assms, where w = w] moves_refl
  by (auto simp: guarded_update_def split: option.splits)

lemma moves_claim [move_intros]: "moves {i} {StatusSubmitted} w (snd (claim_for_submission q i w))"
  unfolding claim_for_submission_def by (rule moves_guarded) auto

lemma moves_reset [move_intros]:
  "moves {i} {StatusPending} w (snd (reset_stuck_submitted q now i older w))"
  unfolding reset_stuck_submitted_def by (rule moves_guarded) auto

lemma moves_confirmed [move_intros]: "moves {i} {StatusConfirmed} w (snd (update_tx_confirmed q i h w))"
  unfolding update_tx_confirmed_def Let_def by (rule moves_guarded) auto

lemma moves_failed [move_intros]: "moves {i} {StatusFailed} w (snd (update_tx_failed q i w))"
  unfolding update_tx_failed_def by (rule moves_guarded) auto

lemma moves_update_status [move_intros]: "moves {i} {st} w (snd (update_status c q i st h w))"
proof (cases "update_status c q i st h w")
  case (Pair r w')
  then have "moves {i} {st} w w'"
  proof (cases rule: update_status_cases)
    case failed
    then show ?thesis by (simp add: moves_refl)
  next
    case hit
    then show ?thesis by (auto intro: moves_set_txs)
  qed
  with Pair show ?thesis by simp
qed

lemma moves_reconciliation_status [move_intros]:
  "moves {i} {st} w (snd (update_reconciliation_status q i st w))"
  by (cases q) (auto simp: update_reconciliation_status_def moves_refl intro: moves_set_txs)

lemma moves_increment [move_intros]: "moves {} {} w (snd (increment_requeue q i w))"
  by (cases q; cases "tx_of w i") (auto simp: increment_requeue_def moves_refl intro: moves_set_txs)

lemma moves_cong: "moves X A w w' \<Longrightarrow> w_txs w'' = w_txs w' \<Longrightarrow> moves X A w w''"
  by (simp add: moves_def)

lemma moves_mono: "moves X A w w' \<Longrightarrow> X \<subseteq> Y \<Longrightarrow> A \<subseteq> B \<Longrightarrow> moves Y B w w'"
  unfolding moves_def by blast

lemma moves_finalize [move_intros]:
  "moves {tx_id t} {StatusConfirmed} w (finalize_confirmed D N c E t h src dst w)"
  by (rule moves_cong [OF moves_update_status finalize_confirmed_txs(1)])

lemma moves_outcome:
  assumes "settle_outcome D N c E t h src dst so w = (r, w')"
  shows "moves {tx_id t} {StatusConfirmed, StatusFailed} w w'"
  using assms
  by (cases rule: settle_outcome_cases)
     (auto intro: moves_mono [OF moves_finalize] moves_mono [OF moves_update_status] moves_refl)

lemma submit_with_retry_txs: "submit_with_retry T E env w = (so, w') \<Longrightarrow> w_txs w' = w_txs w"
  unfolding submit_with_retry_def by (drule submit_loop_net) auto

lemma moves_after_claim [move_intros]:
  "moves {tx_id t} {StatusSubmitted, StatusConfirmed, StatusFailed} w (snd (after_claim D N T c en E t w))"
proof (cases "tx_to_address t = ''''")
  case False
  then show ?thesis
    by (auto simp: after_claim_def intro: moves_mono [OF moves_update_status])
next
  case True
  show ?thesis
  proof (cases "prepare D c en E t w")
    case (Inl e)
    with True show ?thesis by (simp add: after_claim_def moves_refl)
  next
    case (Inr x)
    obtain src dst ops h where x: "x = (src, dst, ops, h)" by (cases x)
    let ?w2 = "snd (update_status c (ge_record E) (tx_id t) StatusSubmitted h w)"
    obtain so w3 where s: "submit_with_retry T E (StellarSubmit h ops) ?w2 = (so, w3)"
      by (cases "submit_with_retry T E (StellarSubmit h ops) ?w2")
    obtain r w' where o: "settle_outcome D N c E t h src dst so w3 = (r, w')"
      by (cases "settle_outcome D N c E t h src dst so w3")
    have "w_txs w3 = w_txs ?w2" by (rule submit_with_retry_txs [OF s])
    then have "moves {tx_id t} {StatusSubmitted} w w3" by (rule moves_cong [OF moves_update_status])
    from moves_comp [OF this moves_outcome [OF o]] True Inr x s o show ?thesis
      by (simp add: after_claim_def)
  qed
qed

lemma wf_finalize: "wf_txs w \<Longrightarrow> wf_txs (finalize_confirmed D N c E t h src dst w)"
  using wf_update_status [of w c "ge_final E" "tx_id t" StatusConfirmed h]
  by (simp add: wf_txs_def finalize_confirmed_txs)

lemma wf_after_claim: "wf_txs w \<Longrightarrow> wf_txs (snd (after_claim D N T c en E t w))"
proof -
  assume wf: "wf_txs w"
  show ?thesis
  proof (cases "prepare D c en E t w")
    case (Inl e)
    with wf wf_update_status show ?thesis by (simp add: after_claim_def)
  next
    case (Inr x)
    obtain src dst ops h where x: "x = (src, dst, ops, h)" by (cases x)
    let ?w2 = "snd (update_status c (ge_record E) (tx_id t) StatusSubmitted h w)"
    obtain so w3 where s: "submit_with_retry T E (StellarSubmit h ops) ?w2 = (so, w3)"
      by (cases "submit_with_retry T E (StellarSubmit h ops) ?w2")
    obtain r w' where o: "settle_outcome D N c E t h src dst so w3 = (r, w')"
      by (cases "settle_outcome D N c E t h src dst so w3")
    have "w_txs w3 = w_txs ?w2" by (rule submit_with_retry_txs [OF s])
    with wf_update_status [OF wf] have "wf_txs w3" by (simp add: wf_txs_def)
    with o have "wf_txs w'"
      by (cases rule: settle_outcome_cases) (auto simp: wf_update_status wf_finalize)
    with Inr x s o wf wf_update_status show ?thesis by (simp add: after_claim_def)
  qed
qed

text \<open>The passes of the reconciler.\<close>

lemma check_pending_txs:
  assumes "check_pending E t s = (r, s')"
  obtains "w_txs (rs_world s') = w_txs (rs_world s)"
  | q h where "w_txs (rs_world s') = w_txs (snd (update_tx_confirmed q (tx_id t) h (rs_world s)))"
  | q where "w_txs (rs_world s') = w_txs (snd (update_tx_failed q (tx_id t) (rs_world s)))"
  using assms
proof (cases rule: check_pending_cases)
  case same
  with that(1) show ?thesis by simp
next
  case (confirmed w')
  with that(2) show ?thesis by (metis snd_conv)
next
  case (failed w')
  with that(3) show ?thesis by (metis snd_conv)
qed

lemma moves_check_pending:
  assumes "check_pending E t s = (r, s')"
  shows "moves {tx_id t} {StatusConfirmed, StatusFailed} (rs_world s) (rs_world s')"
  by (rule check_pending_txs [OF assms])
     (auto intro: moves_refl moves_mono [OF moves_cong [OF moves_confirmed]]
        moves_mono [OF moves_cong [OF moves_failed]])

lemma wf_check_pending:
  assumes "check_pending E t s = (r, s')" and "wf_txs (rs_world s)"
  shows "wf_txs (rs_world s')"
  by (rule check_pending_txs [OF assms(1)])
     (use assms(2) wf_update_tx_confirmed wf_update_tx_failed wf_txs_cong in metis)+

lemma moves_requeue_one:
  "moves {tx_id t} {StatusFailed} (rs_world s) (rs_world (requeue_one E t s))"
proof -
  obtain x w1 where i: "increment_requeue (re_q E (tx_id t) RecIncrement) (tx_id t) (rs_world s) = (x, w1)"
    by (cases "increment_requeue (re_q E (tx_id t) RecIncrement) (tx_id t) (rs_world s)")
  then have m: "moves {} {} (rs_world s) w1" using moves_increment by (metis snd_conv)
  have f: "moves {tx_id t} {StatusFailed} (rs_world s)
      (snd (update_reconciliation_status (re_q E (tx_id t) RecStatus) (tx_id t) StatusFailed w1))"
    by (rule moves_comp [OF m moves_reconciliation_status]) auto
  have m': "moves {tx_id t} {StatusFailed} (rs_world s) w1" using m by (rule moves_mono) auto
  show ?thesis
    using i f m' moves_cong [OF m' enqueue_same(1)]
    by (auto simp: requeue_one_def Let_def alert_def split: sum.splits)
qed

lemma moves_recover_one:
  "moves {tx_id t} {StatusPending, StatusFailed} (rs_world s) (rs_world (recover_one E t s))"
proof -
  have rq: "moves {tx_id t} {StatusPending, StatusFailed} (rs_world s) (rs_world (requeue_one E t s))"
    by (rule moves_mono [OF moves_requeue_one]) auto
  obtain x w1 where r: "reset_stuck_submitted (re_q E (tx_id t) RecReset) (re_now E) (tx_id t)
      stuck_threshold (rs_world s) = (x, w1)"
    by (cases "reset_stuck_submitted (re_q E (tx_id t) RecReset) (re_now E) (tx_id t)
      stuck_threshold (rs_world s)")
  then have m: "moves {tx_id t} {StatusPending} (rs_world s) w1" using moves_reset by (metis snd_conv)
  have "moves {tx_id t} {StatusPending, StatusFailed} (rs_world s)
      (rs_world (requeue_one E t (s\<lparr>rs_world := w1\<rparr>)))"
    using moves_comp [OF m, of _ _ "rs_world (requeue_one E t (s\<lparr>rs_world := w1\<rparr>))"]
      moves_requeue_one [of t "s\<lparr>rs_world := w1\<rparr>" E] by simp
  moreover have "moves {tx_id t} {StatusPending, StatusFailed} (rs_world s) w1"
    using m by (rule moves_mono) auto
  ultimately show ?thesis
    using r rq by (auto simp: recover_one_def moves_refl split: option.splits)
qed

lemma wf_requeue_one: "wf_txs (rs_world s) \<Longrightarrow> wf_txs (rs_world (requeue_one E t s))"
proof -
  assume wf: "wf_txs (rs_world s)"
  obtain x w1 where i: "increment_requeue (re_q E (tx_id t) RecIncrement) (tx_id t) (rs_world s) = (x, w1)"
    by (cases "increment_requeue (re_q E (tx_id t) RecIncrement) (tx_id t) (rs_world s)")
  then have "wf_txs w1"
    using wf by (auto simp: increment_requeue_def wf_set_txs split: option.splits)
  then have "wf_txs (snd (update_reconciliation_status (re_q E (tx_id t) RecStatus) (tx_id t) StatusFailed w1))"
    and "wf_txs (snd (enqueue_transfer (re_q E (tx_id t) RecEnqueue) (tx_id t) w1))" and "wf_txs w1"
    by (auto simp: update_reconciliation_status_def wf_set_txs split: option.splits)
       (simp add: wf_txs_def)
  with i show ?thesis by (auto simp: requeue_one_def Let_def alert_def split: sum.splits)
qed

lemma wf_recover_one: "wf_txs (rs_world s) \<Longrightarrow> wf_txs (rs_world (recover_one E t s))"
proof -
  assume wf: "wf_txs (rs_world s)"
  obtain x w1 where r: "reset_stuck_submitted (re_q E (tx_id t) RecReset) (re_now E) (tx_id t)
      stuck_threshold (rs_world s) = (x, w1)"
    by (cases "reset_stuck_submitted (re_q E (tx_id t) RecReset) (re_now E) (tx_id t)
      stuck_threshold (rs_world s)")
  with wf wf_reset_stuck have "wf_txs w1" by (metis snd_conv)
  with r wf wf_requeue_one [of "s\<lparr>rs_world := w1\<rparr>" E t] wf_requeue_one [OF wf] show ?thesis
    by (auto simp: recover_one_def split: option.splits)
qed

lemma moves_recover_fold:
  "moves (tx_id ` set ts) {StatusPending, StatusFailed} (rs_world s) (rs_world (fold (recover_one E) ts s))"
proof (induction ts arbitrary: s)
  case (Cons t ts)
  have "moves ({tx_id t} \<union> tx_id ` set ts) ({StatusPending, StatusFailed} \<union> {StatusPending, StatusFailed})
      (rs_world s) (rs_world (fold (recover_one E) ts (recover_one E t s)))"
    by (rule moves_trans [OF moves_recover_one Cons.IH])
  then show ?case by simp
qed (simp add: moves_refl)

lemma wf_recover_fold: "wf_txs (rs_world s) \<Longrightarrow> wf_txs (rs_world (fold (recover_one E) ts s))"
  by (induction ts arbitrary: s) (simp_all add: wf_recover_one)

text \<open>The rows a recovery may touch, as the query selects them.\<close>

lemma scan_stuck_ids: "scan_stuck sn rs = Inr ts \<Longrightarrow> map tx_id ts = map tx_id rs"
  by (induction rs arbitrary: ts)
     (auto simp: read_tx_short_def without_fiat_def split: if_splits sum.splits)

lemma recover_pending_moves:
  shows "moves {i. \<exists>r \<in> set (w_txs (rs_world s)). tx_id r = i \<and> stuck_row (re_now E) stuck_threshold r}
    {StatusPending, StatusFailed} (rs_world s) (rs_world (snd (recover_pending E s)))"
    and "wf_txs (rs_world s) \<Longrightarrow> wf_txs (rs_world (snd (recover_pending E s)))"
proof -
  let ?rows = "sort_key tx_created (filter (stuck_row (re_now E) stuck_threshold) (w_txs (rs_world s)))"
  have "moves {i. \<exists>r \<in> set (w_txs (rs_world s)). tx_id r = i \<and> stuck_row (re_now E) stuck_threshold r}
      {StatusPending, StatusFailed} (rs_world s) (rs_world (snd (recover_pending E s))) \<and>
    (wf_txs (rs_world s) \<longrightarrow> wf_txs (rs_world (snd (recover_pending E s))))"
  proof (cases "get_stuck_pending (re_stuck_q E) (re_scan_null E) (re_now E) stuck_threshold (rs_world s)")
    case (Inl e)
    then show ?thesis by (simp add: recover_pending_def moves_refl)
  next
    case (Inr ts)
    then have "map tx_id ts = map tx_id ?rows"
      by (auto simp: get_stuck_pending_def dest: scan_stuck_ids split: option.splits)
    then have "set (map tx_id ts) = set (map tx_id ?rows)" by simp
    then have "tx_id ` set ts =
        {i. \<exists>r \<in> set (w_txs (rs_world s)). tx_id r = i \<and> stuck_row (re_now E) stuck_threshold r}"
      by auto
    with Inr show ?thesis
      using moves_recover_fold [of ts s E] wf_recover_fold [of s E ts]
      by (simp add: recover_pending_def)
  qed
  then show "moves {i. \<exists>r \<in> set (w_txs (rs_world s)). tx_id r = i \<and> stuck_row (re_now E) stuck_threshold r}
    {StatusPending, StatusFailed} (rs_world s) (rs_world (snd (recover_pending E s)))"
    and "wf_txs (rs_world s) \<Longrightarrow> wf_txs (rs_world (snd (recover_pending E s)))" by blast+
qed

end
