(* ===== verification/Lifecycle.thy ===== *)
theory Lifecycle
  imports Moves
begin

text \<open>
  The life of transfers with everything that touches them running at once: orders are placed, workers
  claim transfers and finish or crash later, reviews are decided, and the reconciler checks unfinished
  transfers and puts stuck ones back. A step is one database statement of a worker (the claim), or one
  complete handler; the steps interleave in any order. \<open>guarded\<close> says whether the recovery is only run
  when no running worker's transfer counts as stuck.
\<close>

record sys =
  sy_rec :: rec_state
  sy_running :: "transaction list"

abbreviation sy_world :: "sys \<Rightarrow> world" where
  "sy_world s \<equiv> rs_world (sy_rec s)"

definition with_world :: "sys \<Rightarrow> world \<Rightarrow> sys" where
  "with_world s w = s\<lparr>sy_rec := (sy_rec s)\<lparr>rs_world := w\<rparr>\<rparr>"

lemma with_world_simps [simp]:
  "sy_world (with_world s w) = w" "sy_running (with_world s w) = sy_running s"
  "sy_world (s\<lparr>sy_running := ts\<rparr>) = sy_world s" "sy_running (s\<lparr>sy_rec := x\<rparr>) = sy_running s"
  by (simp_all add: with_world_def)

definition quiet :: "reconcile_env \<Rightarrow> sys \<Rightarrow> bool" where
  "quiet E s \<longleftrightarrow> (\<forall>t \<in> set (sy_running s). \<forall>r \<in> set (w_txs (sy_world s)).
     tx_id r = tx_id t \<longrightarrow> \<not> stuck_row (re_now E) stuck_threshold r)"

inductive sys_step ::
  "decimal_pkg \<Rightarrow> numeric_col \<Rightarrow> (err \<Rightarrow> string) \<Rightarrow> ctx \<Rightarrow> engine \<Rightarrow> bool \<Rightarrow> sys \<Rightarrow> sys \<Rightarrow> bool"
  for D N T c en guarded where
  place: "initiate D N c' (Some (compliance_screener N c' CE screen)) IE ord (sy_world s) = (res, w') \<Longrightarrow>
    sys_step D N T c en guarded s (with_world s w')"
| claim: "get_tx c q i (sy_world s) = Inr t \<Longrightarrow>
    claim_for_submission q' i (sy_world s) = (None, w') \<Longrightarrow>
    sys_step D N T c en guarded s ((with_world s w')\<lparr>sy_running := t # sy_running s\<rparr>)"
| finish: "t \<in> set (sy_running s) \<Longrightarrow> after_claim D N T c en E t (sy_world s) = (res, w') \<Longrightarrow>
    sys_step D N T c en guarded s ((with_world s w')\<lparr>sy_running := remove1 t (sy_running s)\<rparr>)"
| crash: "t \<in> set (sy_running s) \<Longrightarrow>
    sys_step D N T c en guarded s (s\<lparr>sy_running := remove1 t (sy_running s)\<rparr>)"
| review: "decide c' CE outcome nt i (sy_world s) = (res, w') \<Longrightarrow> outcome \<noteq> ReviewPending \<Longrightarrow>
    sys_step D N T c en guarded s (with_world s w')"
| check: "check_pending RE t (sy_rec s) = (x, s') \<Longrightarrow>
    sys_step D N T c en guarded s (s\<lparr>sy_rec := s'\<rparr>)"
| recover: "(guarded \<longrightarrow> quiet RE s) \<Longrightarrow> recover_pending RE (sy_rec s) = (x, s') \<Longrightarrow>
    sys_step D N T c en guarded s (s\<lparr>sy_rec := s'\<rparr>)"

inductive sys_reachable ::
  "decimal_pkg \<Rightarrow> numeric_col \<Rightarrow> (err \<Rightarrow> string) \<Rightarrow> ctx \<Rightarrow> engine \<Rightarrow> bool \<Rightarrow> sys \<Rightarrow> sys \<Rightarrow> bool"
  for D N T c en guarded s0 where
  start: "sys_reachable D N T c en guarded s0 s0"
| step: "sys_reachable D N T c en guarded s0 s \<Longrightarrow> sys_step D N T c en guarded s s' \<Longrightarrow>
    sys_reachable D N T c en guarded s0 s'"

inductive_cases sys_stepE: "sys_step D N T c en guarded s s'"
inductive_simps sys_reachable_simps: "sys_reachable D N T c en guarded s0 s"

section \<open>The compliance gate\<close>

text \<open>The transfer of a review that is not decided is on hold.\<close>

definition gate :: "world \<Rightarrow> bool" where
  "gate w \<longleftrightarrow> wf_txs w \<and> wf_reviews w \<and>
     (\<forall>r \<in> set (w_reviews w). rv_status r = ReviewPending \<longrightarrow>
        (\<exists>t. tx_of w (rv_tx r) = Some t \<and> tx_status t = StatusComplianceHold))"

lemma gate_frame:
  assumes "gate w" and "moves X A w w'" and "wf_txs w'" and "w_reviews w' = w_reviews w"
    and "\<And>j t. j \<in> X \<Longrightarrow> tx_of w j = Some t \<Longrightarrow> tx_status t \<noteq> StatusComplianceHold"
  shows "gate w'"
  unfolding gate_def
proof (intro conjI ballI impI)
  show "wf_txs w'" by (rule assms(3))
  show "wf_reviews w'" using assms(1,4) by (simp add: gate_def wf_reviews_def)
  fix r
  assume "r \<in> set (w_reviews w')" and p: "rv_status r = ReviewPending"
  with assms(1,4) obtain t where t: "tx_of w (rv_tx r) = Some t" "tx_status t = StatusComplianceHold"
    by (auto simp: gate_def)
  with assms(5) have "rv_tx r \<notin> X" by blast
  with t show "\<exists>t. tx_of w' (rv_tx r) = Some t \<and> tx_status t = StatusComplianceHold"
    by (auto elim: movesD [OF assms(2)])
qed

lemma append_row:
  assumes "tx_row N t = Some r" and "\<not> tx_conflict t w" and "wf_txs w" and "w_txs w' = w_txs w @ [r]"
  shows "wf_txs w'" and "moves {} {} w w'" and "tx_of w' (tx_id t) = Some r"
    and "tx_of w (tx_id t) = None"
proof -
  note f = tx_row_fields [OF assms(1)]
  show "wf_txs w'"
    using assms(2-4) f(1,2) by (auto simp: wf_txs_def tx_conflict_def)
  show n: "tx_of w (tx_id t) = None"
    using assms(2) by (auto simp: row_with_None tx_conflict_def)
  then show "tx_of w' (tx_id t) = Some r" using assms(4) f(1) by (simp add: row_with_append)
  show "moves {} {} w w'" using assms(4) by (auto simp: moves_def row_with_append)
qed

lemma create_review_cases:
  assumes "create_review c q r w = (e, w')"
  obtains (failed) x where "e = Some x" "w' = w"
  | (made) row where "e = None" "w' = w\<lparr>w_reviews := w_reviews w @ [row]\<rparr>" "rv_tx row = rv_tx r"
      "rv_id row = rv_id r" "\<forall>x \<in> set (w_reviews w). rv_id x \<noteq> rv_id r \<and> rv_tx x \<noteq> rv_tx r"
  using assms by (auto simp: create_review_def Let_def split: option.splits if_splits)

lemma record_hold_gate:
  assumes "record_hold c CE t d w = (e, w')" and "gate w"
    and "tx_of w (tx_id t) = Some r" and "tx_status r = StatusComplianceHold"
  shows "gate w'" and "w_txs w' = w_txs w"
proof -
  obtain rv where rv: "rv_tx rv = tx_id t" and
    e: "record_hold c CE t d w = (case create_review c (ce_review CE) rv w of
        (Some e, w') \<Rightarrow> (Some (Wrap ''create compliance review'' e), w')
      | (None, w') \<Rightarrow> (None, dispatch (ce_hooks CE) (ce_dispatch CE) EventTransferComplianceHold (tx_id t) w'))"
    unfolding record_hold_def Let_def by (metis review.select_convs(2))
  obtain y w1 where y: "create_review c (ce_review CE) rv w = (y, w1)"
    by (cases "create_review c (ce_review CE) rv w")
  have "gate w1"
    using y
  proof (cases rule: create_review_cases)
    case failed
    with assms(2) show ?thesis by simp
  next
    case (made row)
    with assms(2-4) rv show ?thesis by (auto simp: gate_def wf_reviews_def wf_txs_def)
  qed
  moreover have "w_txs w' = w_txs w1" and "w_reviews w' = w_reviews w1"
    using assms(1) e y by (auto split: option.splits)
  moreover have "w_txs w1 = w_txs w" using create_review_same [OF y] by simp
  ultimately show "gate w'" and "w_txs w' = w_txs w" by (simp_all add: gate_def wf_txs_def wf_reviews_def)
qed

lemma gate_append:
  assumes "gate w" and "tx_row N t = Some r" and "\<not> tx_conflict t w" and "w_txs w' = w_txs w @ [r]"
    and "w_reviews w' = w_reviews w"
  shows "gate w'"
proof -
  have wf: "wf_txs w" using assms(1) by (simp add: gate_def)
  show ?thesis
    by (rule gate_frame [OF assms(1) append_row(2,1) [OF assms(2,3) wf assms(4)] assms(5)]) simp
qed

lemma initiate_gate:
  assumes "initiate D N c (Some (compliance_screener N c CE screen)) IE ord w = (res, w')" and "gate w"
  shows "gate w' \<and> moves {} {} w w'"
  using assms(1)
proof (cases rule: compliant.initiate_cases)
  case refused
  with assms(2) show ?thesis by (simp add: gate_def wf_txs_def wf_reviews_def moves_refl)
next
  case (placed src dst d w0)
  have g0: "gate w0" using assms(2) placed(8,10) by (simp add: gate_def wf_txs_def wf_reviews_def)
  have wf0: "wf_txs w0" using g0 by (simp add: gate_def)
  have m0: "moves {} {} w w'" if "moves {} {} w0 w'" using that placed(8) by (simp add: moves_def)
  from placed(11) show ?thesis
  proof (cases rule: compliant.place_order_cases)
    case refused
    with g0 m0 show ?thesis by (simp add: gate_def wf_txs_def wf_reviews_def moves_refl)
  next
    case (parked fee r he w1)
    have w1: "w_txs w1 = w_txs w0 @ [r]" "w_reviews w1 = w_reviews w0" using parked(3) by simp_all
    note ar = append_row [OF parked(7,4) wf0 w1(1)]
    have "tx_status r = StatusComplianceHold" using tx_row_fields [OF parked(7)] by simp
    moreover have "gate w1" by (rule gate_append [OF g0 parked(7,4) w1])
    moreover have "record_hold c CE (order_tx c IE ord StatusComplianceHold fee) d w1 = (he, w')"
      using parked(5) by (simp add: compliance_screener_def)
    ultimately have "gate w'" "w_txs w' = w_txs w1" using record_hold_gate ar(3) by blast+
    with m0 moves_cong [OF ar(2)] show ?thesis by simp
  next
    case (released fee r)
    note ar = append_row [OF released(6,3) wf0 released(5)]
    with gate_append [OF g0 released(6,3,5,2)] m0 show ?thesis by simp
  qed
qed

lemma release_moves:
  "moves {rv_tx r} {StatusPending} w (snd (release_transfer c E r w))"
  "wf_txs w \<Longrightarrow> wf_txs (snd (release_transfer c E r w))"
  "w_reviews (snd (release_transfer c E r w)) = w_reviews w"
proof -
  obtain e w1 where u: "update_status c (ce_status E) (rv_tx r) StatusPending '''' w = (e, w1)"
    by (cases "update_status c (ce_status E) (rv_tx r) StatusPending '''' w")
  have t: "w_txs (snd (release_transfer c E r w)) = w_txs w1"
    "w_reviews (snd (release_transfer c E r w)) = w_reviews w1"
    using u by (auto simp: release_transfer_def split: option.splits)
  have "moves {rv_tx r} {StatusPending} w w1"
    using moves_update_status [of "rv_tx r" StatusPending w c "ce_status E" "''''"] u by simp
  with t show "moves {rv_tx r} {StatusPending} w (snd (release_transfer c E r w))"
    by (blast intro: moves_cong)
  show "wf_txs w \<Longrightarrow> wf_txs (snd (release_transfer c E r w))"
    using wf_update_status [of w c "ce_status E" "rv_tx r" StatusPending "''''"] u t
    by (simp add: wf_txs_def)
  show "w_reviews (snd (release_transfer c E r w)) = w_reviews w"
    using t update_status_same [OF u] by simp
qed

lemma decide_cases:
  assumes "decide c E outcome nt i w = (res, w')" and "wf_reviews w" and "wf_txs w"
  obtains (same) "w' = w"
  | (decided) r w1 where "review_of w i = Some r" "rv_status r = ReviewPending"
      "decide_review c (ce_decide E) outcome (ptr_of (cx_user c)) nt (ce_now E) i w = (None, w1)"
      "w_reviews w' = w_reviews w1" "moves {rv_tx r} {StatusPending, StatusFailed} w w'" "wf_txs w'"
proof (cases "get_review c (ce_get E) i w")
  case (Inl e)
  with assms(1) same show ?thesis by (simp add: decide_def)
next
  case (Inr r)
  note g = Inr
  note gr = get_review_Inr [OF g assms(2)]
  show ?thesis
  proof (cases "rv_status r = ReviewPending")
    case False
    with assms(1) g same show ?thesis by (simp add: decide_def)
  next
    case True
    obtain q w1 where d: "decide_review c (ce_decide E) outcome (ptr_of (cx_user c)) nt (ce_now E) i w = (q, w1)"
      by (cases "decide_review c (ce_decide E) outcome (ptr_of (cx_user c)) nt (ce_now E) i w")
    show ?thesis
    proof (cases q)
      case (Some e)
      with d have "w1 = w" by (auto elim: decide_review_cases)
      with assms(1) g True d Some same show ?thesis by (simp add: decide_def)
    next
      case None
      have t1: "w_txs w1 = w_txs w" using d None by (auto elim: decide_review_cases)
      have wf1: "wf_txs w1" using t1 assms(3) by (simp add: wf_txs_def)
      define r' where "r' = r\<lparr>rv_status := outcome, rv_by := ptr_of (cx_user c), rv_notes := nt,
                         rv_at := Some (ce_now E)\<rparr>"
      have tx: "rv_tx r' = rv_tx r" by (simp add: r'_def)
      define w2 where "w2 = (if outcome = ReviewApproved then snd (release_transfer c E r' w1)
          else snd (update_status c (ce_status E) (rv_tx r) StatusFailed '''' w1))"
      have w': "w_txs w' = w_txs w2" "w_reviews w' = w_reviews w2"
        using assms(1) g True d None
        by (auto simp: decide_def Let_def w2_def r'_def split: if_splits prod.splits option.splits)
      have m: "moves {rv_tx r} {StatusPending, StatusFailed} w1 w2"
        using release_moves(1) [of r' w1 c E] moves_update_status [of "rv_tx r" StatusFailed w1 c "ce_status E" "''''"]
        by (auto simp: w2_def tx intro: moves_mono)
      have "moves {rv_tx r} {StatusPending, StatusFailed} w w'"
        using m t1 w'(1) by (simp add: moves_def)
      moreover have "wf_txs w2"
        using release_moves(2) [OF wf1] wf_update_status [OF wf1] by (simp add: w2_def)
      moreover have "w_reviews w2 = w_reviews w1"
        using release_moves(3) update_status_same(1) by (metis w2_def surjective_pairing)
      ultimately show ?thesis
        using decided [OF gr(1) True] d None w' by (simp add: wf_txs_def)
    qed
  qed
qed

lemma decide_gate:
  assumes "decide c E outcome nt i w = (res, w')" and "outcome \<noteq> ReviewPending" and "gate w"
  shows "gate w'"
    and "\<exists>X. moves X {StatusPending, StatusFailed} w w' \<and>
      (\<forall>j \<in> X. \<exists>t. tx_of w j = Some t \<and> tx_status t = StatusComplianceHold)"
proof -
  have wf: "wf_reviews w" "wf_txs w" using assms(3) by (simp_all add: gate_def)
  have "gate w' \<and> (\<exists>X. moves X {StatusPending, StatusFailed} w w' \<and>
      (\<forall>j \<in> X. \<exists>t. tx_of w j = Some t \<and> tx_status t = StatusComplianceHold))"
    using assms(1) wf
  proof (cases rule: decide_cases)
    case same
    have "moves {} {StatusPending, StatusFailed} w w" by (simp add: moves_refl)
    with same assms(3) show ?thesis by blast
  next
    case (decided r w1)
    have r: "r \<in> set (w_reviews w)" "rv_id r = i" using decided(1) row_with_SomeD by fastforce+
    have hold: "\<exists>t. tx_of w (rv_tx r) = Some t \<and> tx_status t = StatusComplianceHold"
      using assms(3) r(1) decided(2) by (simp add: gate_def)
    have wr: "wf_reviews w'"
      using wf_decide_review [OF wf(1), of c "ce_decide E" outcome "ptr_of (cx_user c)" nt "ce_now E" i]
        decided(3,4) by (simp add: wf_reviews_def)
    have "\<exists>t. tx_of w' (rv_tx x) = Some t \<and> tx_status t = StatusComplianceHold"
      if x: "x \<in> set (w_reviews w')" "rv_status x = ReviewPending" for x
    proof -
      let ?P = "\<lambda>r. rv_id r = i \<and> rv_status r = ReviewPending \<and> in_scope c (rv_org r)"
      from decided(3) have "w_reviews w1 = update_where ?P
         (\<lambda>r. r\<lparr>rv_status := outcome, rv_by := null_ptr (ptr_of (cx_user c)), rv_notes := nt,
                rv_at := Some (ce_now E)\<rparr>) (w_reviews w)"
        and hit: "\<not> (\<forall>y \<in> set (w_reviews w). \<not> ?P y)"
        by (auto elim!: decide_review_cases simp: decide_review_def Let_def rows_affected_0
            split: option.splits if_splits)
      with x decided(4) assms(2) have y: "x \<in> set (w_reviews w)" "\<not> ?P x"
        by (auto simp: set_update_where split: if_splits)
      from hit obtain z where z: "z \<in> set (w_reviews w)" "?P z" by blast
      have "z = r" using wf(1) z r by (auto simp: wf_reviews_def distinct_map dest: inj_onD)
      with y z have "x \<noteq> r" by blast
      with wf(1) y(1) r(1) have "rv_tx x \<noteq> rv_tx r"
        by (auto simp: wf_reviews_def distinct_map dest: inj_onD)
      moreover obtain t where "tx_of w (rv_tx x) = Some t" "tx_status t = StatusComplianceHold"
        using assms(3) y(1) x(2) by (auto simp: gate_def)
      ultimately show ?thesis by (auto elim: movesD [OF decided(5)])
    qed
    with decided(5,6) wr hold show ?thesis by (auto simp: gate_def)
  qed
  then show "gate w'" and "\<exists>X. moves X {StatusPending, StatusFailed} w w' \<and>
      (\<forall>j \<in> X. \<exists>t. tx_of w j = Some t \<and> tx_status t = StatusComplianceHold)" by blast+
qed

section \<open>The invariant\<close>

text \<open>
  A transfer a worker is running on exists and is not on hold; when the recovery is guarded it is
  claimed, and by one worker only.
\<close>

definition sys_inv :: "bool \<Rightarrow> sys \<Rightarrow> bool" where
  "sys_inv guarded s \<longleftrightarrow> gate (sy_world s) \<and>
     (\<forall>t \<in> set (sy_running s). \<exists>r. tx_of (sy_world s) (tx_id t) = Some r \<and>
        tx_status r \<noteq> StatusComplianceHold \<and> (guarded \<longrightarrow> tx_status r \<noteq> StatusPending)) \<and>
     (guarded \<longrightarrow> distinct (map tx_id (sy_running s)))"

lemma sys_inv_moves:
  assumes "sys_inv guarded s" and "moves X A (sy_world s) (sy_world s')" and "gate (sy_world s')"
    and "StatusComplianceHold \<notin> A" and "sy_running s' = sy_running s"
    and "\<And>t. guarded \<Longrightarrow> StatusPending \<in> A \<Longrightarrow> t \<in> set (sy_running s) \<Longrightarrow> tx_id t \<notin> X"
  shows "sys_inv guarded s'"
  using assms(1,3,5)
  unfolding sys_inv_def
proof (intro conjI ballI; elim conjE)
  fix t
  assume "\<forall>t\<in>set (sy_running s). \<exists>r. tx_of (sy_world s) (tx_id t) = Some r \<and>
     tx_status r \<noteq> StatusComplianceHold \<and> (guarded \<longrightarrow> tx_status r \<noteq> StatusPending)"
    and t: "t \<in> set (sy_running s')"
  then obtain r where r: "tx_of (sy_world s) (tx_id t) = Some r" "tx_status r \<noteq> StatusComplianceHold"
    "guarded \<longrightarrow> tx_status r \<noteq> StatusPending" using assms(5) by auto
  obtain r' where "tx_of (sy_world s') (tx_id t) = Some r'"
    "tx_status r' = tx_status r \<or> tx_id t \<in> X \<and> tx_status r' \<in> A"
    using movesD [OF assms(2) r(1)] by blast
  with r assms(4,5,6) t show "\<exists>r. tx_of (sy_world s') (tx_id t) = Some r \<and>
      tx_status r \<noteq> StatusComplianceHold \<and> (guarded \<longrightarrow> tx_status r \<noteq> StatusPending)"
    by (intro exI [of _ r']) auto
qed auto

lemma distinct_remove1_ids: "distinct (map f xs) \<Longrightarrow> distinct (map f (remove1 x xs))"
proof (induction xs)
  case (Cons a xs)
  then show ?case using set_remove1_subset [of x xs] by auto
qed simp

lemma sys_inv_remove: "sys_inv g s \<Longrightarrow> sys_inv g (s\<lparr>sy_running := remove1 t (sy_running s)\<rparr>)"
  using set_remove1_subset [of t "sy_running s"] distinct_remove1_ids [of tx_id "sy_running s" t]
  by (auto simp: sys_inv_def)

lemma check_pending_frame:
  assumes "check_pending E t s = (r, s')"
  shows "w_reviews (rs_world s') = w_reviews (rs_world s)"
proof -
  have "w_reviews (snd (update_tx_confirmed q i h w)) = w_reviews w"
    and "w_reviews (snd (update_tx_failed q i w)) = w_reviews w" for q i h w
    by (auto simp: update_tx_confirmed_def update_tx_failed_def guarded_update_def Let_def
        split: option.splits)
  with assms show ?thesis
    by (auto simp: check_pending_def Let_def alert_def split: if_splits sum.splits prod.splits option.splits)
      (metis snd_conv)+
qed

lemma requeue_one_reviews: "w_reviews (rs_world (requeue_one E t s)) = w_reviews (rs_world s)"
  by (auto simp: requeue_one_def Let_def increment_requeue_def update_reconciliation_status_def alert_def
      split: option.splits)

lemma recover_one_reviews: "w_reviews (rs_world (recover_one E t s)) = w_reviews (rs_world s)"
  by (auto simp: recover_one_def reset_stuck_submitted_def guarded_update_def requeue_one_reviews
      split: option.splits)

lemma recover_pending_reviews:
  "w_reviews (rs_world (snd (recover_pending E s))) = w_reviews (rs_world s)"
proof -
  have "w_reviews (rs_world (fold (recover_one E) ts s)) = w_reviews (rs_world s)" for ts
    by (induction ts arbitrary: s) (simp_all add: recover_one_reviews)
  then show ?thesis by (simp add: recover_pending_def split: sum.splits)
qed

lemma sync_reviews: "w_reviews (sync_wallet_balances D N E x w) = w_reviews w"
proof -
  have b: "w_reviews (sync_balance D N q wid b w) = w_reviews w" for q wid b w
    by (cases b) (auto simp: sync_balance_def upsert_balance_def Let_def split: option.splits)
  have "w_reviews (fold (sync_balance D N q wid) bs w) = w_reviews w" for q wid bs
    by (induction bs arbitrary: w) (simp_all add: b)
  then show ?thesis by (simp add: sync_wallet_balances_def split: sum.splits)
qed

lemma update_status_reviews: "w_reviews (snd (update_status c q i st h w)) = w_reviews w"
  using update_status_same(1) by (metis surjective_pairing)

lemma finalize_reviews: "w_reviews (finalize_confirmed D N c E t h src dst w) = w_reviews w"
  by (simp add: finalize_confirmed_def Let_def record_collection_def sync_reviews update_status_reviews
      split: option.splits)

lemma after_claim_reviews: "w_reviews (snd (after_claim D N T c en E t w)) = w_reviews w"
proof (cases "prepare D c en E t w")
  case (Inl e)
  then show ?thesis by (simp add: after_claim_def update_status_reviews)
next
  case (Inr x)
  obtain src dst ops h where x: "x = (src, dst, ops, h)" by (cases x)
  let ?w2 = "snd (update_status c (ge_record E) (tx_id t) StatusSubmitted h w)"
  obtain so w3 where s: "submit_with_retry T E (StellarSubmit h ops) ?w2 = (so, w3)"
    by (cases "submit_with_retry T E (StellarSubmit h ops) ?w2")
  obtain r w' where o: "settle_outcome D N c E t h src dst so w3 = (r, w')"
    by (cases "settle_outcome D N c E t h src dst so w3")
  have "w_reviews w3 = w_reviews ?w2"
    using s unfolding submit_with_retry_def by (auto dest!: submit_loop_net)
  moreover have "w_reviews w' = w_reviews w3"
    using o by (cases rule: settle_outcome_cases) (simp_all add: finalize_reviews update_status_reviews)
  ultimately show ?thesis using Inr x s o by (simp add: after_claim_def update_status_reviews)
qed

lemma check_pending_in_flight:
  assumes "check_pending E t s = (r, s')"
  shows "moves {j. \<exists>x. tx_of (rs_world s) j = Some x \<and> in_flight (tx_status x)}
    {StatusConfirmed, StatusFailed} (rs_world s) (rs_world s')"
  unfolding moves_def
proof (intro allI impI)
  fix j x
  assume x: "tx_of (rs_world s) j = Some x"
  from check_pending_rows [OF assms, of j] x
  have "tx_of (rs_world s') j = Some x \<or> tx_of (rs_world s') j = Some (corrected E t x)" by auto
  then show "\<exists>r'. tx_of (rs_world s') j = Some r' \<and> (tx_status r' = tx_status x \<or>
      j \<in> {j. \<exists>x. tx_of (rs_world s) j = Some x \<and> in_flight (tx_status x)} \<and>
      tx_status r' \<in> {StatusConfirmed, StatusFailed})"
    using x by (auto simp: corrected_def in_flight_def split: sum.splits bool.splits)
qed

lemma stuck_rows_not_held:
  assumes "wf_txs w" and "r \<in> set (w_txs w)" and "stuck_row now older r"
    and "tx_of w (tx_id r) = Some t"
  shows "tx_status t \<noteq> StatusComplianceHold"
  using assms row_with_unique [of tx_id "w_txs w" r] by (auto simp: wf_txs_def stuck_row_def)

lemma sys_step_inv:
  assumes "sys_step D N T c en guarded s s'" and "sys_inv guarded s"
  shows "sys_inv guarded s'"
  using assms(1)
proof (cases rule: sys_stepE [consumes 1, case_names place claim finish crash review check recover])
  case (place c' CE screen IE ord res w')
  have "gate w' \<and> moves {} {} (sy_world s) w'"
    using initiate_gate [OF place(2)] assms(2) by (simp add: sys_inv_def)
  then show ?thesis
    using sys_inv_moves [OF assms(2), of "{}" "{}" s'] place(1) by simp
next
  case (claim q i t q' w')
  let ?s = "with_world s w'"
  have wf: "wf_txs (sy_world s)" using assms(2) by (simp add: sys_inv_def gate_def)
  from claim(3) have cl: "claim_for_submission None i (sy_world s) = (None, w')"
    by (auto simp: claim_for_submission_def guarded_update_def split: option.splits if_splits)
  then obtain r where r: "tx_of (sy_world s) i = Some r" "tx_status r = StatusPending"
    using claim_succeeds_iff [OF wf, of i] by (auto simp: tx_available_def)
  have ti: "tx_id t = i"
    using get_tx_Inr [OF claim(2) wf] row_with_SomeD by (metis read_tx_simps(1))
  have m: "moves {i} {StatusSubmitted} (sy_world s) w'" using moves_claim [of i "sy_world s" None] cl by simp
  have g: "gate w'"
  proof (rule gate_frame [OF _ m])
    show "gate (sy_world s)" using assms(2) by (simp add: sys_inv_def)
    show "wf_txs w'" using wf_claim [OF wf, of None i] cl by simp
    show "w_reviews w' = w_reviews (sy_world s)"
      using cl by (auto simp: claim_for_submission_def guarded_update_def split: if_splits)
  qed (use r in auto)
  have "sys_inv guarded ?s"
    by (rule sys_inv_moves [OF assms(2), of "{i}" "{StatusSubmitted}"]) (use m g in simp_all)
  moreover have "guarded \<Longrightarrow> tx_id t \<notin> tx_id ` set (sy_running s)"
    using assms(2) r ti by (fastforce simp: sys_inv_def)
  moreover have "tx_of w' i = Some (r\<lparr>tx_status := StatusSubmitted\<rparr>)" by (rule claimed_row [OF cl r])
  ultimately show ?thesis using claim(1) ti by (auto simp: sys_inv_def)
next
  case (finish t E res w')
  let ?s = "with_world s w'"
  let ?A = "{StatusSubmitted, StatusConfirmed, StatusFailed}"
  have m: "moves {tx_id t} ?A (sy_world s) w'"
    using moves_after_claim [of t "sy_world s" D N T c en E] finish(3) by simp
  have "gate w'"
  proof (rule gate_frame [OF _ m])
    show "gate (sy_world s)" using assms(2) by (simp add: sys_inv_def)
    show "wf_txs w'" using wf_after_claim [of "sy_world s" D N T c en E t] finish(3) assms(2)
      by (simp add: sys_inv_def gate_def)
    show "w_reviews w' = w_reviews (sy_world s)"
      using after_claim_reviews [of D N T c en E t "sy_world s"] finish(3) by simp
    fix j x
    assume "j \<in> {tx_id t}" and "tx_of (sy_world s) j = Some x"
    with assms(2) finish(2) show "tx_status x \<noteq> StatusComplianceHold" by (auto simp: sys_inv_def)
  qed
  then have "sys_inv guarded ?s"
    by (intro sys_inv_moves [OF assms(2), of "{tx_id t}" ?A]) (use m in simp_all)
  from sys_inv_remove [OF this, of t] finish(1) show ?thesis by simp
next
  case (crash t)
  with sys_inv_remove [OF assms(2)] show ?thesis by simp
next
  case (review c' CE outcome nt i res w')
  have g: "gate (sy_world s)" using assms(2) by (simp add: sys_inv_def)
  obtain X where X: "moves X {StatusPending, StatusFailed} (sy_world s) w'"
    "\<forall>j \<in> X. \<exists>t. tx_of (sy_world s) j = Some t \<and> tx_status t = StatusComplianceHold"
    using decide_gate(2) [OF review(2,3) g] by blast
  have "sys_inv guarded (with_world s w')"
  proof (rule sys_inv_moves [OF assms(2)])
    show "moves X {StatusPending, StatusFailed} (sy_world s) (sy_world (with_world s w'))" using X(1) by simp
    show "gate (sy_world (with_world s w'))" using decide_gate(1) [OF review(2,3) g] by simp
    fix t
    assume "t \<in> set (sy_running s)"
    with assms(2) X(2) show "tx_id t \<notin> X" by (fastforce simp: sys_inv_def)
  qed simp_all
  with review(1) show ?thesis by simp
next
  case (check RE t x r')
  let ?X = "{j. \<exists>x. tx_of (sy_world s) j = Some x \<and> in_flight (tx_status x)}"
  note m = check_pending_in_flight [OF check(2)]
  have "gate (rs_world r')"
  proof (rule gate_frame [OF _ m])
    show "gate (sy_world s)" using assms(2) by (simp add: sys_inv_def)
    show "wf_txs (rs_world r')" using wf_check_pending [OF check(2)] assms(2)
      by (simp add: sys_inv_def gate_def)
    show "w_reviews (rs_world r') = w_reviews (sy_world s)" by (rule check_pending_frame [OF check(2)])
  qed (auto simp: in_flight_def)
  with m show ?thesis
    unfolding check(1)
    by (intro sys_inv_moves [OF assms(2), of ?X "{StatusConfirmed, StatusFailed}"]) simp_all
next
  case (recover RE x r')
  let ?X = "{i. \<exists>r \<in> set (w_txs (sy_world s)). tx_id r = i \<and> stuck_row (re_now RE) stuck_threshold r}"
  have r': "r' = snd (recover_pending RE (sy_rec s))" using recover(3) by simp
  have m: "moves ?X {StatusPending, StatusFailed} (sy_world s) (rs_world r')"
    unfolding r' by (rule recover_pending_moves(1))
  have wf: "wf_txs (sy_world s)" using assms(2) by (simp add: sys_inv_def gate_def)
  have "gate (rs_world r')"
  proof (rule gate_frame [OF _ m])
    show "gate (sy_world s)" using assms(2) by (simp add: sys_inv_def)
    show "wf_txs (rs_world r')" unfolding r' by (rule recover_pending_moves(2) [OF wf])
    show "w_reviews (rs_world r') = w_reviews (sy_world s)" unfolding r' by (rule recover_pending_reviews)
  qed (use stuck_rows_not_held [OF wf] in blast)
  with m show ?thesis
    unfolding recover(1)
  proof (intro sys_inv_moves [OF assms(2), of ?X "{StatusPending, StatusFailed}"])
    fix t
    assume guarded and t: "t \<in> set (sy_running s)"
    with recover(2) show "tx_id t \<notin> ?X" by (auto simp: quiet_def)
  qed simp_all
qed

lemma sys_reachable_inv:
  "sys_reachable D N T c en guarded s0 s \<Longrightarrow> sys_inv guarded s0 \<Longrightarrow> sys_inv guarded s"
  by (induction rule: sys_reachable.induct) (auto intro: sys_step_inv)

section \<open>Properties\<close>

lemma sys_inv_start: "gate (sy_world s) \<Longrightarrow> sy_running s = [] \<Longrightarrow> sys_inv guarded s"
  by (simp add: sys_inv_def)

text \<open>
  C2: the compliance gate. In every interleaving of orders, workers, crashes, decisions, checks and
  recoveries, the transfer of a review that is not decided is on hold, and no worker has it.
\<close>

theorem compliance_gate:
  assumes "sys_reachable D N T c en guarded s0 s" and "gate (sy_world s0)" and "sy_running s0 = []"
    and "r \<in> set (w_reviews (sy_world s))" and "rv_status r = ReviewPending"
  shows "\<exists>t. tx_of (sy_world s) (rv_tx r) = Some t \<and> tx_status t = StatusComplianceHold \<and>
    rv_tx r \<notin> tx_id ` set (sy_running s)"
proof -
  from sys_reachable_inv [OF assms(1) sys_inv_start [OF assms(2,3)]] have inv: "sys_inv guarded s" .
  with assms(4,5) obtain t where t: "tx_of (sy_world s) (rv_tx r) = Some t" "tx_status t = StatusComplianceHold"
    by (auto simp: sys_inv_def gate_def)
  moreover from inv t have "rv_tx r \<notin> tx_id ` set (sy_running s)" by (fastforce simp: sys_inv_def)
  ultimately show ?thesis by blast
qed

definition start_sys :: "world \<Rightarrow> sys" where
  "start_sys w = \<lparr>sy_rec = rec_start w, sy_running = []\<rparr>"

lemma start_sys_simps [simp]: "sy_world (start_sys w) = w" "sy_running (start_sys w) = []"
  by (simp_all add: start_sys_def)

lemma compliance_gate_witness:
  "\<exists>t. tx_of sample_held ''t'' = Some t \<and> tx_status t = StatusComplianceHold"
proof -
  have g: "gate (sy_world (start_sys sample_held))"
    using sample_held_wf sample_held_tx by (simp add: gate_def) (simp add: sample_held_def sample_review_def sample_tx_def)
  have r: "sample_review \<in> set (w_reviews (sy_world (start_sys sample_held)))" by (simp add: sample_held_def)
  from compliance_gate [OF start g _ r sample_held_review(2)] sample_held_review(3) show ?thesis by auto
qed

text \<open>
  If the recovery only runs while no worker's transfer counts as stuck, no transfer is ever in the
  hands of two workers.
\<close>

theorem one_worker_per_transfer:
  assumes "sys_reachable D N T c en True s0 s" and "gate (sy_world s0)" and "sy_running s0 = []"
  shows "distinct (map tx_id (sy_running s))"
  using sys_reachable_inv [OF assms(1) sys_inv_start [OF assms(2,3)]] by (simp add: sys_inv_def)

definition old_world :: world where
  "old_world = sample_world StatusPending"

lemma old_world_gate: "gate old_world"
  using sample_world_wf [of StatusPending] by (simp add: gate_def old_world_def wf_reviews_def sample_world_def empty_world_def)

definition claim_run :: "sys \<Rightarrow> sys" where
  "claim_run s = (case get_tx no_tenant None ''t'' (sy_world s) of Inl e \<Rightarrow> s
     | Inr t \<Rightarrow> (with_world s (snd (claim_for_submission None ''t'' (sy_world s))))\<lparr>sy_running := t # sy_running s\<rparr>)"

lemma claim_run_step:
  assumes "\<not> isl (get_tx no_tenant None ''t'' (sy_world s))" and "fst (claim_for_submission None ''t'' (sy_world s)) = None"
  shows "sys_step D N T no_tenant en guarded s (claim_run s)"
proof -
  obtain t where t: "get_tx no_tenant None ''t'' (sy_world s) = Inr t"
    using assms(1) by (cases "get_tx no_tenant None ''t'' (sy_world s)") auto
  have "claim_for_submission None ''t'' (sy_world s) = (None, snd (claim_for_submission None ''t'' (sy_world s)))"
    using assms(2) by (metis prod.collapse)
  from claim [OF t this] t show ?thesis by (simp add: claim_run_def)
qed

lemma one_worker_per_transfer_witness:
  "distinct (map tx_id (sy_running (claim_run (start_sys old_world))))"
proof -
  have "sys_step reference_pkg exact_numeric (\<lambda>_. ''other'') no_tenant sample_engine True (start_sys old_world)
      (claim_run (start_sys old_world))"
    by (rule claim_run_step) (code_simp, code_simp)
  from one_worker_per_transfer [OF step [OF start this]] old_world_gate show ?thesis by simp
qed

subsection \<open>An unguarded recovery\<close>

definition eager_recovery :: "sys \<Rightarrow> sys" where
  "eager_recovery s = s\<lparr>sy_rec := snd (recover_pending ((sample_rec_env (\<lambda>_. Inr True))\<lparr>re_scan_null := Some ''''\<rparr>) (sy_rec s))\<rparr>"

definition finish_run :: "string \<Rightarrow> sys \<Rightarrow> sys" where
  "finish_run h s = (case sy_running s of [] \<Rightarrow> s
     | t # ts \<Rightarrow> (with_world s (snd (after_claim reference_pkg exact_numeric (\<lambda>_. ''other'') no_tenant sample_engine
          (sample_settle_env\<lparr>ge_hash := Inr h, ge_submit := \<lambda>_. Inr h\<rparr>) t (sy_world s))))\<lparr>sy_running := ts\<rparr>)"

lemma eager_recovery_step: "sys_step D N T c en False s (eager_recovery s)"
  unfolding eager_recovery_def by (rule recover) (auto intro: surjective_pairing)

lemma finish_run_step:
  assumes "sy_running s \<noteq> []"
  shows "sys_step reference_pkg exact_numeric (\<lambda>_. ''other'') no_tenant sample_engine g s (finish_run h s)"
proof -
  from assms obtain t ts where t: "sy_running s = t # ts" by (cases "sy_running s") auto
  let ?E = "sample_settle_env\<lparr>ge_hash := Inr h, ge_submit := \<lambda>_. Inr h\<rparr>"
  have "t \<in> set (sy_running s)" by (simp add: t)
  from finish [where E = ?E and guarded = g, OF this surjective_pairing]
  show ?thesis by (simp add: finish_run_def t)
qed

lemma double_run_claims:
  "\<not> isl (get_tx no_tenant None ''t'' old_world)"
  "fst (claim_for_submission None ''t'' old_world) = None"
  "\<not> isl (get_tx no_tenant None ''t'' (sy_world (eager_recovery (claim_run (start_sys old_world)))))"
  "fst (claim_for_submission None ''t'' (sy_world (eager_recovery (claim_run (start_sys old_world))))) = None"
  by code_simp+

lemma double_run_ends:
  "sy_running (claim_run (eager_recovery (claim_run (start_sys old_world)))) \<noteq> []"
  "sy_running (finish_run ''h1'' (claim_run (eager_recovery (claim_run (start_sys old_world))))) \<noteq> []"
  by code_simp+

definition sent_to :: "world \<Rightarrow> (string \<times> string list) list" where
  "sent_to w = map (\<lambda>x. case x of StellarSubmit h ops \<Rightarrow> (h, map pay_dest ops) | EvmTransfer a b k \<Rightarrow> ('''', [])) (w_net w)"

lemma double_run_net:
  "sent_to (sy_world (finish_run ''h2'' (finish_run ''h1'' (claim_run (eager_recovery (claim_run (start_sys old_world)))))))
     = [(''h1'', [''GB'', ''GF'']), (''h2'', [''GB'', ''GF''])]"
  by code_simp

text \<open>
  The code does not ensure that. The threshold of the recovery is measured from the creation of the
  transfer, not from its claim, so a transfer that waited in the queue is put back while a worker has
  it; a second worker claims it, and two different envelopes reach the network: the payment is made
  twice. (The steps need a driver that reads NULL as the empty text.)
\<close>

theorem unguarded_recovery_pays_twice:
  "\<exists>s. sys_reachable reference_pkg exact_numeric (\<lambda>_. ''other'') no_tenant sample_engine False (start_sys old_world) s \<and>
     sent_to (sy_world s) = [(''h1'', [''GB'', ''GF'']), (''h2'', [''GB'', ''GF''])]"
proof -
  have "\<not> isl (get_tx no_tenant None ''t'' (sy_world (start_sys old_world)))"
    and "fst (claim_for_submission None ''t'' (sy_world (start_sys old_world))) = None"
    using double_run_claims(1,2) by simp_all
  note one = step [OF start claim_run_step [OF this]]
  note two = step [OF one eager_recovery_step]
  note three = step [OF two claim_run_step [OF double_run_claims(3,4)]]
  note four = step [OF three finish_run_step [OF double_run_ends(1)]]
  from step [OF four finish_run_step [OF double_run_ends(2)]] double_run_net show ?thesis by blast
qed

end
