(* ===== verification/Schedules.thy ===== *)
theory Schedules
  imports Transfers
begin

text \<open>
  \<^verbatim>\<open>internal/schedule\<close> and \<^verbatim>\<open>internal/postgres/schedule_repo.go\<close>: recurring transfers. The worker lists
  what is due, claims each schedule by a conditional update, places the order through the transfer
  service and advances the schedule. The statuses a row can hold are the labels of the type
  \<^verbatim>\<open>schedule_status\<close> of the database; they are an argument, because migration 13 declares fewer
  labels than \<^verbatim>\<open>internal/domain/schedule.go\<close> has constants.
\<close>

section \<open>Data\<close>

datatype schedule_freq = FrequencyDaily | FrequencyWeekly | FrequencyMonthly | FrequencyOther string

datatype schedule_status =
    ScheduleActive | ScheduleProcessing | ScheduleFailed | SchedulePaused | ScheduleCancelled
  | ScheduleCompleted

definition domain_labels :: "schedule_status list" where
  "domain_labels = [ScheduleActive, ScheduleProcessing, ScheduleFailed, SchedulePaused,
     ScheduleCancelled, ScheduleCompleted]"

instantiation schedule_status :: enum
begin

definition "enum_schedule_status = domain_labels"
definition "enum_all_schedule_status P = list_all P domain_labels"
definition "enum_ex_schedule_status P = list_ex P domain_labels"

instance
proof
  have all: "s \<in> set domain_labels" for s by (cases s) (simp_all add: domain_labels_def)
  show "UNIV = set (enum_class.enum :: schedule_status list)"
    using all by (auto simp: enum_schedule_status_def)
  show "distinct (enum_class.enum :: schedule_status list)"
    by (simp add: enum_schedule_status_def domain_labels_def)
  show "enum_class.enum_all P \<longleftrightarrow> Ball UNIV P" for P :: "schedule_status \<Rightarrow> bool"
    using all by (auto simp: enum_all_schedule_status_def list_all_iff)
  show "enum_class.enum_ex P \<longleftrightarrow> Bex UNIV P" for P :: "schedule_status \<Rightarrow> bool"
    using all by (auto simp: enum_ex_schedule_status_def list_ex_iff)
qed

end

definition migrated_labels :: "schedule_status list" where
  "migrated_labels = [ScheduleActive, SchedulePaused, ScheduleCancelled, ScheduleCompleted]"

record schedule =
  sd_id :: string
  sd_tenant :: "string option"
  sd_from :: string
  sd_to :: string
  sd_asset :: string
  sd_amount :: decimal
  sd_freq :: schedule_freq
  sd_next :: go_time
  sd_end :: "go_time option"
  sd_status :: schedule_status
  sd_created :: go_time
  sd_updated :: go_time

record sched_state =
  sc_rows :: "schedule list"
  sc_world :: world

abbreviation schedule_of :: "sched_state \<Rightarrow> string \<Rightarrow> schedule option" where
  "schedule_of s i \<equiv> row_with sd_id i (sc_rows s)"

definition invalid_enum :: err where
  "invalid_enum = Opaque ''invalid input value for enum''"

text \<open>\<^verbatim>\<open>AddInterval\<close>.\<close>

definition add_interval :: "go_time \<Rightarrow> schedule_freq \<Rightarrow> go_time" where
  "add_interval t f = (case f of FrequencyDaily \<Rightarrow> add_date t 0 0 1 | FrequencyWeekly \<Rightarrow> add_date t 0 0 7
     | FrequencyMonthly \<Rightarrow> add_date t 0 1 0 | FrequencyOther s \<Rightarrow> t)"

section \<open>The repository\<close>

definition known_freq :: "schedule_freq \<Rightarrow> bool" where
  "known_freq f = (case f of FrequencyOther s \<Rightarrow> False | _ \<Rightarrow> True)"

text \<open>The values of an INSERT or UPDATE, as the types of the columns take them.\<close>

definition schedule_row :: "numeric_col \<Rightarrow> schedule_status list \<Rightarrow> schedule \<Rightarrow> err + schedule" where
  "schedule_row N labels s =
     (if \<not> known_freq (sd_freq s) \<or> sd_status s \<notin> set labels then Inl invalid_enum
      else case N 20 7 (sd_amount s) of None \<Rightarrow> Inl numeric_overflow
        | Some a \<Rightarrow> Inr (s\<lparr>sd_amount := a, sd_tenant := null_ptr (sd_tenant s)\<rparr>))"

definition create_schedule_row ::
  "numeric_col \<Rightarrow> schedule_status list \<Rightarrow> ctx \<Rightarrow> err option \<Rightarrow> schedule \<Rightarrow> sched_state
    \<Rightarrow> (err + schedule) \<times> sched_state" where
  "create_schedule_row N labels c q s st =
     (let s' = (if cx_tenant c \<noteq> '''' then s\<lparr>sd_tenant := Some (cx_tenant c)\<rparr> else s);
          failed = (\<lambda>e. (Inl (Wrap ''insert schedule'' e), st)) in
      case q of Some e \<Rightarrow> failed e
      | None \<Rightarrow> (case schedule_row N labels s' of Inl e \<Rightarrow> failed e
        | Inr r \<Rightarrow>
          if \<exists>x \<in> set (sc_rows st). sd_id x = sd_id s then failed unique_violation
          else if sd_from r \<notin> wa_id ` set (w_wallets (sc_world st)) \<or> sd_to r \<notin> wa_id ` set (w_wallets (sc_world st))
             \<or> \<not> ref_ok (the_default '''' (sd_tenant r)) (map te_id (w_tenants (sc_world st)))
          then failed foreign_key_violation
          else (Inr s', st\<lparr>sc_rows := sc_rows st @ [r]\<rparr>)))"

definition get_schedule :: "ctx \<Rightarrow> err option \<Rightarrow> string \<Rightarrow> sched_state \<Rightarrow> err + schedule" where
  "get_schedule c q i st =
     (case q of Some e \<Rightarrow> Inl (Wrap ''get schedule by id'' e)
      | None \<Rightarrow> (case find (\<lambda>s. sd_id s = i \<and> in_scope c (sd_tenant s)) (sc_rows st) of
                  None \<Rightarrow> Inl (Dom ErrScheduleNotFound) | Some s \<Rightarrow> Inr s))"

definition list_schedules :: "ctx \<Rightarrow> err option \<Rightarrow> sched_state \<Rightarrow> err + schedule list" where
  "list_schedules c q st =
     (case q of Some e \<Rightarrow> Inl (Wrap ''list schedules'' e)
      | None \<Rightarrow> Inr (rev (sort_key sd_created (rev (filter (\<lambda>s. in_scope c (sd_tenant s)) (sc_rows st))))))"

text \<open>\<^verbatim>\<open>Update\<close> writes six columns of the row with the id, whatever its status is meanwhile.\<close>

definition write_columns :: "schedule \<Rightarrow> schedule \<Rightarrow> schedule" where
  "write_columns s r = r\<lparr>sd_amount := sd_amount s, sd_freq := sd_freq s, sd_next := sd_next s,
     sd_end := sd_end s, sd_status := sd_status s, sd_updated := sd_updated s\<rparr>"

definition update_schedule ::
  "numeric_col \<Rightarrow> schedule_status list \<Rightarrow> ctx \<Rightarrow> err option \<Rightarrow> schedule \<Rightarrow> sched_state
    \<Rightarrow> err option \<times> sched_state" where
  "update_schedule N labels c q s st =
     (case q of Some e \<Rightarrow> (Some (Wrap ''update schedule'' e), st)
      | None \<Rightarrow> (case schedule_row N labels s of Inl e \<Rightarrow> (Some (Wrap ''update schedule'' e), st)
        | Inr r \<Rightarrow> (None, st\<lparr>sc_rows :=
            update_where (\<lambda>x. sd_id x = sd_id s \<and> in_scope c (sd_tenant x)) (write_columns r) (sc_rows st)\<rparr>)))"

definition is_due :: "go_time \<Rightarrow> schedule \<Rightarrow> bool" where
  "is_due now s \<longleftrightarrow> sd_status s = ScheduleActive \<and> sd_next s \<le> now"

definition list_due :: "err option \<Rightarrow> go_time \<Rightarrow> sched_state \<Rightarrow> err + schedule list" where
  "list_due q now st =
     (case q of Some e \<Rightarrow> Inl (Wrap ''list due schedules'' e)
      | None \<Rightarrow> Inr (filter (is_due now) (sc_rows st)))"

definition claimable :: "string \<Rightarrow> go_time \<Rightarrow> schedule \<Rightarrow> bool" where
  "claimable i next_at s \<longleftrightarrow> sd_id s = i \<and> sd_status s = ScheduleActive \<and> sd_next s = next_at"

definition claim_schedule ::
  "schedule_status list \<Rightarrow> err option \<Rightarrow> go_time \<Rightarrow> string \<Rightarrow> go_time \<Rightarrow> sched_state
    \<Rightarrow> (err + bool) \<times> sched_state" where
  "claim_schedule labels q now i next_at st =
     (case (if q = None \<and> ScheduleProcessing \<notin> set labels then Some invalid_enum else q) of
        Some e \<Rightarrow> (Inl (Wrap ''claim schedule'' e), st)
      | None \<Rightarrow> (Inr (rows_affected (claimable i next_at) (sc_rows st) > 0),
          st\<lparr>sc_rows := update_where (claimable i next_at)
             (\<lambda>s. s\<lparr>sd_status := ScheduleProcessing, sd_updated := now\<rparr>) (sc_rows st)\<rparr>))"

section \<open>The service\<close>

record create_schedule_input =
  ci_from :: string
  ci_to :: string
  ci_asset :: string
  ci_amount :: decimal
  ci_freq :: schedule_freq
  ci_start :: go_time
  ci_end :: "go_time option"

record update_schedule_input =
  ui_status :: "schedule_status option"
  ui_amount :: "decimal option"
  ui_freq :: "schedule_freq option"
  ui_end :: "go_time option"

text \<open>The clock, read a second time where an edited row is stamped, the fresh id and the driver's answers of one call.\<close>

record schedule_env =
  se_now :: go_time
  se_stamp :: go_time
  se_uuid :: string
  se_src_q :: "err option"
  se_dst_q :: "err option"
  se_get_q :: "err option"
  se_write_q :: "err option"

definition create_schedule ::
  "numeric_col \<Rightarrow> schedule_status list \<Rightarrow> ctx \<Rightarrow> schedule_env \<Rightarrow> create_schedule_input \<Rightarrow> sched_state
    \<Rightarrow> (err + schedule) \<times> sched_state" where
  "create_schedule N labels c E x st =
     (if ci_from x = ci_to x then (Inl (Dom ErrSelfTransfer), st)
      else case get_wallet c (se_src_q E) (ci_from x) (sc_world st) of
        Inl e \<Rightarrow> (Inl (Wrap ''source wallet'' e), st)
      | Inr src \<Rightarrow> (case get_wallet c (se_dst_q E) (ci_to x) (sc_world st) of
          Inl e \<Rightarrow> (Inl (Wrap ''destination wallet'' e), st)
        | Inr dst \<Rightarrow>
          (case create_schedule_row N labels c (se_write_q E)
                  \<lparr>sd_id = se_uuid E, sd_tenant = ptr_of (cx_tenant c), sd_from = ci_from x,
                   sd_to = ci_to x, sd_asset = ci_asset x, sd_amount = ci_amount x,
                   sd_freq = ci_freq x, sd_next = ci_start x, sd_end = ci_end x,
                   sd_status = ScheduleActive, sd_created = se_now E, sd_updated = se_now E\<rparr> st of
             (Inl e, st') \<Rightarrow> (Inl (Wrap ''persist schedule'' e), st')
           | (Inr s, st') \<Rightarrow> (Inr s, st'))))"

text \<open>
  The loop of \<^verbatim>\<open>Update\<close> that moves an elapsed occurrence into the future. With a frequency that
  \<^verbatim>\<open>AddInterval\<close> does not know it does not end; the value is then \<open>None\<close>.
\<close>

partial_function (option) roll_forward :: "go_time \<Rightarrow> schedule_freq \<Rightarrow> go_time \<Rightarrow> go_time option" where
  "roll_forward now f t = (if t > now then Some t else roll_forward now f (add_interval t f))"

definition edited :: "update_schedule_input \<Rightarrow> schedule \<Rightarrow> schedule" where
  "edited x s = s\<lparr>sd_amount := the_default (sd_amount s) (ui_amount x),
     sd_freq := the_default (sd_freq s) (ui_freq x),
     sd_end := (case ui_end x of None \<Rightarrow> sd_end s | Some e \<Rightarrow> Some e),
     sd_status := the_default (sd_status s) (ui_status x)\<rparr>"

definition edit_schedule :: "go_time \<Rightarrow> go_time \<Rightarrow> update_schedule_input \<Rightarrow> schedule \<Rightarrow> schedule option" where
  "edit_schedule now stamp x s =
     (let s' = edited x s in
      if ui_status x = Some ScheduleActive
      then map_option (\<lambda>t. s'\<lparr>sd_next := t, sd_updated := stamp\<rparr>) (roll_forward now (sd_freq s') (sd_next s'))
      else Some (s'\<lparr>sd_updated := stamp\<rparr>))"

text \<open>\<open>None\<close> says that the call does not return.\<close>

definition update_service ::
  "numeric_col \<Rightarrow> schedule_status list \<Rightarrow> ctx \<Rightarrow> schedule_env \<Rightarrow> string \<Rightarrow> update_schedule_input
    \<Rightarrow> sched_state \<Rightarrow> ((err + schedule) \<times> sched_state) option" where
  "update_service N labels c E i x st =
     (case get_schedule c (se_get_q E) i st of
        Inl e \<Rightarrow> Some (Inl e, st)
      | Inr s \<Rightarrow> map_option (\<lambda>s'. case update_schedule N labels c (se_write_q E) s' st of
            (Some e, st') \<Rightarrow> (Inl (Wrap ''update schedule'' e), st')
          | (None, st') \<Rightarrow> (Inr s', st'))
        (edit_schedule (se_now E) (se_stamp E) x s))"

definition cancel_schedule ::
  "numeric_col \<Rightarrow> schedule_status list \<Rightarrow> ctx \<Rightarrow> schedule_env \<Rightarrow> string \<Rightarrow> sched_state
    \<Rightarrow> err option \<times> sched_state" where
  "cancel_schedule N labels c E i st =
     (case get_schedule c (se_get_q E) i st of
        Inl e \<Rightarrow> (Some e, st)
      | Inr s \<Rightarrow> update_schedule N labels c (se_write_q E)
           (s\<lparr>sd_status := ScheduleCancelled, sd_updated := se_now E\<rparr>) st)"

section \<open>The worker\<close>

text \<open>
  What the world does during a pass: the clock and the driver of the list, and for the \<open>k\<close>-th due
  schedule those of its claim, of the transfer service and of the final write.
\<close>

record run_env =
  rn_now :: go_time
  rn_list_q :: "err option"
  rn_claim_q :: "nat \<Rightarrow> err option"
  rn_claim_now :: "nat \<Rightarrow> go_time"
  rn_screener :: "nat \<Rightarrow> screener_iface option"
  rn_init :: "nat \<Rightarrow> initiate_env"
  rn_update_now :: "nat \<Rightarrow> go_time"
  rn_update_q :: "nat \<Rightarrow> err option"

definition run_ctx :: "ctx \<Rightarrow> schedule \<Rightarrow> ctx" where
  "run_ctx c s = (case sd_tenant s of None \<Rightarrow> c | Some t \<Rightarrow> c\<lparr>cx_tenant := t\<rparr>)"

definition schedule_order :: "schedule \<Rightarrow> transfer_order" where
  "schedule_order s = transfer_order_of (sd_from s) (sd_to s) (sd_asset s) (sd_amount s) ''''"

text \<open>What the worker writes back after the order was accepted or refused.\<close>

definition advanced :: "bool \<Rightarrow> go_time \<Rightarrow> schedule \<Rightarrow> schedule" where
  "advanced took now s =
     (if took then
        (let n = add_interval (sd_next s) (sd_freq s) in
         s\<lparr>sd_next := n,
           sd_status := (case sd_end s of None \<Rightarrow> ScheduleActive
                         | Some e \<Rightarrow> if n > e then ScheduleCompleted else ScheduleActive),
           sd_updated := now\<rparr>)
      else s\<lparr>sd_status := ScheduleFailed, sd_updated := now\<rparr>)"

definition run_one ::
  "decimal_pkg \<Rightarrow> numeric_col \<Rightarrow> schedule_status list \<Rightarrow> ctx \<Rightarrow> run_env \<Rightarrow> nat \<Rightarrow> schedule \<Rightarrow> sched_state
    \<Rightarrow> sched_state" where
  "run_one D N labels c E k s st =
     (case claim_schedule labels (rn_claim_q E k) (rn_claim_now E k) (sd_id s) (sd_next s) st of
        (Inl e, st1) \<Rightarrow> st1
      | (Inr False, st1) \<Rightarrow> st1
      | (Inr True, st1) \<Rightarrow>
          (case initiate D N (run_ctx c s) (rn_screener E k) (rn_init E k) (schedule_order s) (sc_world st1) of
             (r, w) \<Rightarrow> snd (update_schedule N labels c (rn_update_q E k)
                (advanced (\<not> isl r) (rn_update_now E k) s) (st1\<lparr>sc_world := w\<rparr>))))"

fun run_all ::
  "decimal_pkg \<Rightarrow> numeric_col \<Rightarrow> schedule_status list \<Rightarrow> ctx \<Rightarrow> run_env \<Rightarrow> nat \<Rightarrow> schedule list
    \<Rightarrow> sched_state \<Rightarrow> sched_state" where
  "run_all D N labels c E k [] st = st"
| "run_all D N labels c E k (s # ss) st =
     run_all D N labels c E (Suc k) ss (run_one D N labels c E k s st)"

definition handle_run_schedules ::
  "decimal_pkg \<Rightarrow> numeric_col \<Rightarrow> schedule_status list \<Rightarrow> ctx \<Rightarrow> run_env \<Rightarrow> sched_state
    \<Rightarrow> err option \<times> sched_state" where
  "handle_run_schedules D N labels c E st =
     (case list_due (rn_list_q E) (rn_now E) st of
        Inl e \<Rightarrow> (Some (Wrap ''list due schedules'' e), st)
      | Inr due \<Rightarrow> (None, run_all D N labels c E 0 due st))"

section \<open>The handler's part of an update\<close>

record update_schedule_request =
  us_status :: string
  us_amount :: string
  us_freq :: string
  us_end :: string

definition status_of_text :: "string \<Rightarrow> schedule_status option" where
  "status_of_text s = map_of [(''active'', ScheduleActive), (''paused'', SchedulePaused)] s"

definition freq_of_text :: "string \<Rightarrow> schedule_freq option" where
  "freq_of_text s = map_of [(''daily'', FrequencyDaily), (''weekly'', FrequencyWeekly),
     (''monthly'', FrequencyMonthly)] s"

text \<open>
  \<open>P\<close> is \<^verbatim>\<open>time.Parse\<close> with the layout RFC3339. The tags \<^verbatim>\<open>oneof\<close> are checked first; the message
  names every field that fails, joined as \<^verbatim>\<open>api.Validate\<close> does.
\<close>

definition tag_failures :: "update_schedule_request \<Rightarrow> string list" where
  "tag_failures r =
     (if us_status r \<noteq> '''' \<and> status_of_text (us_status r) = None then [''Status: oneof''] else []) @
     (if us_freq r \<noteq> '''' \<and> freq_of_text (us_freq r) = None then [''Frequency: oneof''] else [])"

definition parse_update ::
  "decimal_pkg \<Rightarrow> (string \<Rightarrow> go_time option) \<Rightarrow> update_schedule_request \<Rightarrow> string + update_schedule_input" where
  "parse_update D P r =
     (if tag_failures r \<noteq> [] then Inl (join_reasons (tag_failures r))
      else if us_amount r \<noteq> '''' \<and> (case d_parse D (us_amount r) of None \<Rightarrow> True | Some a \<Rightarrow> a \<le> 0)
      then Inl ''amount must be a positive number''
      else if us_end r \<noteq> '''' \<and> P (us_end r) = None then Inl ''end_date must be an RFC3339 timestamp''
      else Inr \<lparr>ui_status = status_of_text (us_status r),
        ui_amount = (if us_amount r = '''' then None else d_parse D (us_amount r)),
        ui_freq = freq_of_text (us_freq r),
        ui_end = (if us_end r = '''' then None else P (us_end r))\<rparr>)"

section \<open>Occurrences\<close>

lemma civil_day_bounds:
  assumes "civil (t div day_ns) = (y, m, d)"
  shows "date_days y m (d + k) = t div day_ns + k"
    and "t div day_ns < date_days y (m + 1) d"
  using civil_spec [OF assms] by (auto simp: date_days_def)

lemma add_days: "add_date t 0 0 k = t + k * day_ns"
proof -
  obtain y m d where c: "civil (t div day_ns) = (y, m, d)" by (cases "civil (t div day_ns)") auto
  show ?thesis
    using civil_day_bounds(1) [OF c, of k] div_mult_mod_eq [of t day_ns]
    by (simp add: add_date_def c algebra_simps)
qed

lemma add_month_later: "t < add_date t 0 1 0"
proof -
  obtain y m d where c: "civil (t div day_ns) = (y, m, d)" by (cases "civil (t div day_ns)") auto
  have "(t div day_ns + 1) * day_ns \<le> date_days y (m + 1) d * day_ns"
    using civil_day_bounds(2) [OF c] by (intro mult_right_mono) (auto simp: less_imp_le)
  moreover have "t < (t div day_ns + 1) * day_ns"
    using pos_mod_bound [OF day_ns_pos, of t] div_mult_mod_eq [of t day_ns]
    unfolding distrib_right by linarith
  moreover have "0 \<le> t mod day_ns" by simp
  moreover have "add_date t 0 1 0 = date_days y (m + 1) d * day_ns + t mod day_ns"
    by (simp add: add_date_def c)
  ultimately show ?thesis by linarith
qed

lemma add_interval_later: "known_freq f \<Longrightarrow> t < add_interval t f"
  by (cases f) (simp_all add: known_freq_def add_interval_def add_days add_month_later)

text \<open>The \<open>k\<close>-th occurrence after \<open>t\<close>.\<close>

definition occurrence :: "schedule_freq \<Rightarrow> go_time \<Rightarrow> nat \<Rightarrow> go_time" where
  "occurrence f t k = ((\<lambda>x. add_interval x f) ^^ k) t"

lemma occurrence_simps [simp]:
  "occurrence f t 0 = t" "occurrence f t (Suc k) = occurrence f (add_interval t f) k"
  by (simp_all add: occurrence_def funpow_Suc_right del: funpow.simps)

lemma roll_forward_returns:
  assumes "known_freq f"
  shows "\<exists>k. roll_forward now f t = Some (occurrence f t k) \<and> occurrence f t k > now
    \<and> (\<forall>j < k. occurrence f t j \<le> now)"
proof (induction "nat (now + 1 - t)" arbitrary: t rule: less_induct)
  case less
  show ?case
  proof (cases "t > now")
    case True
    then have "roll_forward now f t = Some (occurrence f t 0)" by (simp add: roll_forward.simps)
    with True show ?thesis by (intro exI [of _ 0]) simp
  next
    case False
    with add_interval_later [OF assms, of t] have "nat (now + 1 - add_interval t f) < nat (now + 1 - t)" by simp
    from less [OF this] obtain k where k: "roll_forward now f (add_interval t f) = Some (occurrence f t (Suc k))"
      "occurrence f t (Suc k) > now" "\<forall>j < k. occurrence f t (Suc j) \<le> now" by auto
    have "roll_forward now f t = Some (occurrence f t (Suc k))"
      using False k(1) by (subst roll_forward.simps) simp
    moreover have "\<forall>j < Suc k. occurrence f t j \<le> now"
      using k(3) False by (auto simp: less_Suc_eq_0_disj)
    ultimately show ?thesis using k(2) by blast
  qed
qed

text \<open>An unknown frequency never leaves the loop.\<close>

lemma roll_forward_stuck:
  assumes "t \<le> now"
  shows "roll_forward now (FrequencyOther s) t = None"
proof -
  have "f = FrequencyOther s \<longrightarrow> t > now" if "roll_forward now f t = Some y" for f y
    using _ that
  proof (rule roll_forward.raw_induct)
    fix rf n f x y
    assume "\<And>n f x y. rf n f x = Some y \<Longrightarrow> f = FrequencyOther s \<longrightarrow> (n :: int) < x"
      and "(if (n :: int) < x then Some x else rf n f (add_interval x f)) = Some y"
    then show "f = FrequencyOther s \<longrightarrow> n < x"
      by (cases "n < x") (auto simp: add_interval_def)
  qed
  with assms show ?thesis by (cases "roll_forward now (FrequencyOther s) t") auto
qed

text \<open>
  A monthly schedule that starts on the 31st drifts: \<^verbatim>\<open>AddDate\<close> carries the missing day over, so the
  occurrence after 31 January 2025 is 3 March, and the later ones stay on the third.
\<close>

lemma monthly_drift:
  "add_interval (date_days 2025 1 31 * day_ns) FrequencyMonthly = date_days 2025 3 3 * day_ns"
  "add_interval (date_days 2025 3 3 * day_ns) FrequencyMonthly = date_days 2025 4 3 * day_ns"
proof -
  have "civil (date_days 2025 1 31) = (2025, 1, 31)" "civil (date_days 2025 3 3) = (2025, 3, 3)"
    "date_days 2025 2 31 = date_days 2025 3 3" by code_simp+
  then show "add_interval (date_days 2025 1 31 * day_ns) FrequencyMonthly = date_days 2025 3 3 * day_ns"
    "add_interval (date_days 2025 3 3 * day_ns) FrequencyMonthly = date_days 2025 4 3 * day_ns"
    using day_ns_pos by (simp_all add: add_interval_def add_date_def)
qed

section \<open>Workers that interleave\<close>

text \<open>
  Several workers, each with its own list of due schedules. A claim and the order with the final write
  are separate steps, so other workers, crashes and the loss of the final write come in between.
  \<open>ss_seen\<close> are the copies in the workers' lists, \<open>ss_running\<close> the claimed ones whose order is not placed
  yet, \<open>ss_orders\<close> the occurrences for which the transfer service was called.
\<close>

record sched_sys =
  ss_state :: sched_state
  ss_seen :: "schedule list"
  ss_running :: "schedule list"
  ss_orders :: "(string \<times> go_time) list"

definition slot :: "schedule \<Rightarrow> string \<times> go_time" where
  "slot s = (sd_id s, sd_next s)"

inductive sched_step ::
  "decimal_pkg \<Rightarrow> numeric_col \<Rightarrow> schedule_status list \<Rightarrow> ctx \<Rightarrow> sched_sys \<Rightarrow> sched_sys \<Rightarrow> bool"
  for D N labels c where
  list_step: "list_due q now (ss_state s) = Inr due \<Longrightarrow>
    sched_step D N labels c s (s\<lparr>ss_seen := due @ ss_seen s\<rparr>)"
| claim_step: "x \<in> set (ss_seen s) \<Longrightarrow>
    claim_schedule labels q now (sd_id x) (sd_next x) (ss_state s) = (Inr True, st) \<Longrightarrow>
    sched_step D N labels c s (s\<lparr>ss_state := st, ss_running := x # ss_running s\<rparr>)"
| finish_step: "x \<in> set (ss_running s) \<Longrightarrow>
    initiate D N (run_ctx c x) S E (schedule_order x) (sc_world (ss_state s)) = (r, w) \<Longrightarrow>
    sched_step D N labels c s
      (s\<lparr>ss_state := snd (update_schedule N labels c q (advanced (\<not> isl r) now x) (ss_state s\<lparr>sc_world := w\<rparr>)),
         ss_running := remove1 x (ss_running s), ss_orders := slot x # ss_orders s\<rparr>)"
| crash_step: "x \<in> set (ss_running s) \<Longrightarrow>
    sched_step D N labels c s (s\<lparr>ss_running := remove1 x (ss_running s)\<rparr>)"

inductive_cases sched_stepE: "sched_step D N labels c s s'"

inductive sched_reachable ::
  "decimal_pkg \<Rightarrow> numeric_col \<Rightarrow> schedule_status list \<Rightarrow> ctx \<Rightarrow> sched_sys \<Rightarrow> sched_sys \<Rightarrow> bool"
  for D N labels c s0 where
  sched_start: "sched_reachable D N labels c s0 s0"
| sched_more: "sched_reachable D N labels c s0 s \<Longrightarrow> sched_step D N labels c s s' \<Longrightarrow>
    sched_reachable D N labels c s0 s'"

definition start_sched :: "sched_state \<Rightarrow> sched_sys" where
  "start_sched st = \<lparr>ss_state = st, ss_seen = [], ss_running = [], ss_orders = []\<rparr>"

definition wf_schedules :: "sched_state \<Rightarrow> bool" where
  "wf_schedules st \<longleftrightarrow> distinct (map sd_id (sc_rows st)) \<and> list_all (known_freq \<circ> sd_freq) (sc_rows st)"

text \<open>
  The invariant: an occurrence that was ordered or is being ordered is not after the next run of its
  row, and before it while the row is active; a running schedule has its row to itself.
\<close>

definition used :: "sched_sys \<Rightarrow> (string \<times> go_time) list" where
  "used s = map slot (ss_running s) @ ss_orders s"

definition row_ahead :: "sched_sys \<Rightarrow> string \<times> go_time \<Rightarrow> bool" where
  "row_ahead s p = (case schedule_of (ss_state s) (fst p) of None \<Rightarrow> False
     | Some r \<Rightarrow> snd p \<le> sd_next r \<and> (sd_status r = ScheduleActive \<longrightarrow> snd p < sd_next r))"

definition row_held :: "sched_sys \<Rightarrow> schedule \<Rightarrow> bool" where
  "row_held s x = (case schedule_of (ss_state s) (sd_id x) of None \<Rightarrow> False
     | Some r \<Rightarrow> sd_status r = ScheduleProcessing \<and> sd_next r = sd_next x)"

definition sched_inv :: "sched_sys \<Rightarrow> bool" where
  "sched_inv s \<longleftrightarrow> wf_schedules (ss_state s) \<and> list_all (known_freq \<circ> sd_freq) (ss_seen s)
     \<and> list_all (known_freq \<circ> sd_freq) (ss_running s)
     \<and> distinct (used s) \<and> distinct (map sd_id (ss_running s))
     \<and> list_all (row_ahead s) (used s) \<and> list_all (row_held s) (ss_running s)"

lemma claim_schedule_True:
  assumes "claim_schedule labels q now i t st = (Inr True, st')" and "wf_schedules st"
  obtains r where "schedule_of st i = Some r" "sd_status r = ScheduleActive" "sd_next r = t"
    "sc_world st' = sc_world st" "wf_schedules st'"
    "\<And>j. schedule_of st' j = (if j = i then Some (r\<lparr>sd_status := ScheduleProcessing, sd_updated := now\<rparr>)
       else schedule_of st j)"
proof -
  let ?f = "\<lambda>s. s\<lparr>sd_status := ScheduleProcessing, sd_updated := now\<rparr>"
  from assms(1) have st': "st' = st\<lparr>sc_rows := update_where (claimable i t) ?f (sc_rows st)\<rparr>"
    and "rows_affected (claimable i t) (sc_rows st) \<noteq> 0"
    by (auto simp: claim_schedule_def split: option.splits if_splits)
  then obtain r where r: "r \<in> set (sc_rows st)" "claimable i t r" by (auto simp: rows_affected_0)
  have d: "distinct (map sd_id (sc_rows st))" using assms(2) by (simp add: wf_schedules_def)
  from row_with_unique [OF d r(1)] r(2) have o: "schedule_of st i = Some r" by (simp add: claimable_def)
  have look: "schedule_of st' j = (if j = i then Some (?f r) else schedule_of st j)" for j
    using o r(2) by (auto simp: st' row_with_update_where claimable_def map_option_case dest: row_with_SomeD
        split: option.splits)
  have "wf_schedules st'" using assms(2)
    by (auto simp: wf_schedules_def st' map_key_update_where list_all_iff set_update_where)
  with o r(2) look st' show ?thesis by (intro that [of r]) (simp_all add: claimable_def)
qed

lemma update_schedule_None:
  assumes "update_schedule N labels c q s st = (None, st')"
  obtains r where "schedule_row N labels s = Inr r" "known_freq (sd_freq r)" "sd_next r = sd_next s"
    "sd_status r = sd_status s" "st' = st\<lparr>sc_rows :=
      update_where (\<lambda>x. sd_id x = sd_id s \<and> in_scope c (sd_tenant x)) (write_columns r) (sc_rows st)\<rparr>"
proof -
  from assms obtain r where r: "schedule_row N labels s = Inr r" "st' = st\<lparr>sc_rows :=
      update_where (\<lambda>x. sd_id x = sd_id s \<and> in_scope c (sd_tenant x)) (write_columns r) (sc_rows st)\<rparr>"
    by (auto simp: update_schedule_def split: option.splits sum.splits)
  from r(1) have "known_freq (sd_freq r)" "sd_next r = sd_next s" "sd_status r = sd_status s"
    by (auto simp: schedule_row_def split: if_splits option.splits)
  with r show ?thesis by (intro that)
qed

text \<open>A final write either does nothing or replaces the six columns.\<close>

lemma update_schedule_cases:
  assumes "update_schedule N labels c q s st = (e, st')" and "wf_schedules st"
  obtains (skipped) "st' = st"
  | (written) P r where "st' = st\<lparr>sc_rows := update_where P (write_columns r) (sc_rows st)\<rparr>" "e = None"
      "\<And>x. P x \<longleftrightarrow> sd_id x = sd_id s \<and> in_scope c (sd_tenant x)" "known_freq (sd_freq r)"
      "sd_next r = sd_next s" "sd_status r = sd_status s" "wf_schedules st'"
proof (cases "st' = st")
  case False
  with assms(1) have e: "e = None"
    by (auto simp: update_schedule_def split: option.splits sum.splits)
  from update_schedule_None [OF assms(1) [unfolded e]] obtain r where
    k: "known_freq (sd_freq r)" "sd_next r = sd_next s" "sd_status r = sd_status s"
    and st': "st' = st\<lparr>sc_rows := update_where (\<lambda>x. sd_id x = sd_id s \<and> in_scope c (sd_tenant x))
      (write_columns r) (sc_rows st)\<rparr>" by blast
  then have "wf_schedules st'" using assms(2)
    by (auto simp: wf_schedules_def map_key_update_where list_all_iff set_update_where write_columns_def)
  with k e st' written show ?thesis by blast
qed (rule skipped)

lemma update_schedule_effect:
  assumes "update_schedule N labels c q s st = (e, st')" and "wf_schedules st"
  shows "wf_schedules st'" and "schedule_of st' j = schedule_of st j \<or>
    j = sd_id s \<and> (\<exists>r. schedule_of st' j = Some r \<and> sd_next r = sd_next s \<and> sd_status r = sd_status s)"
proof -
  have "wf_schedules st' \<and> (schedule_of st' j = schedule_of st j \<or>
    j = sd_id s \<and> (\<exists>r. schedule_of st' j = Some r \<and> sd_next r = sd_next s \<and> sd_status r = sd_status s))"
  proof (cases rule: update_schedule_cases [OF assms, case_names skipped written])
    case skipped
    with assms(2) show ?thesis by simp
  next
    case (written P r)
    have "schedule_of st' j = map_option (\<lambda>x. if P x then write_columns r x else x) (schedule_of st j)"
      using written(1) by (simp add: row_with_update_where write_columns_def)
    with written(3-7) show ?thesis
      by (cases "schedule_of st j") (auto simp: write_columns_def dest: row_with_SomeD)
  qed
  then show "wf_schedules st'" and "schedule_of st' j = schedule_of st j \<or>
    j = sd_id s \<and> (\<exists>r. schedule_of st' j = Some r \<and> sd_next r = sd_next s \<and> sd_status r = sd_status s)"
    by auto
qed

lemma advanced_simps:
  "sd_id (advanced b now x) = sd_id x"
  "known_freq (sd_freq x) \<Longrightarrow> sd_next x \<le> sd_next (advanced b now x)"
  "known_freq (sd_freq x) \<Longrightarrow> sd_status (advanced b now x) = ScheduleActive \<Longrightarrow> sd_next x < sd_next (advanced b now x)"
  using add_interval_later [of "sd_freq x" "sd_next x"]
  by (auto simp: advanced_def Let_def split: if_splits option.splits)

lemma sched_inv_claim:
  assumes "sched_inv s" and "x \<in> set (ss_seen s)"
    and "claim_schedule labels q now (sd_id x) (sd_next x) (ss_state s) = (Inr True, st)"
  shows "sched_inv (s\<lparr>ss_state := st, ss_running := x # ss_running s\<rparr>)"
proof -
  let ?s = "s\<lparr>ss_state := st, ss_running := x # ss_running s\<rparr>"
  note inv = assms(1) [unfolded sched_inv_def list_all_iff]
  from inv have wf: "wf_schedules (ss_state s)" by blast
  from claim_schedule_True [OF assms(3) wf] obtain r where
    r: "schedule_of (ss_state s) (sd_id x) = Some r" "sd_status r = ScheduleActive" "sd_next r = sd_next x"
    and st: "wf_schedules st"
      "\<And>j. schedule_of st j = (if j = sd_id x then Some (r\<lparr>sd_status := ScheduleProcessing, sd_updated := now\<rparr>)
         else schedule_of (ss_state s) j)" by blast
  have "slot x \<notin> set (used s)"
  proof
    assume "slot x \<in> set (used s)"
    with inv have "row_ahead s (slot x)" by blast
    with r show False by (simp add: row_ahead_def slot_def)
  qed
  moreover have "sd_id x \<notin> sd_id ` set (ss_running s)"
  proof
    assume "sd_id x \<in> sd_id ` set (ss_running s)"
    then obtain y where "y \<in> set (ss_running s)" "sd_id y = sd_id x" by auto
    with inv have "row_held s y" by blast
    with r \<open>sd_id y = sd_id x\<close> show False by (simp add: row_held_def)
  qed
  moreover have "row_ahead ?s p" if "p \<in> set (used s)" for p
    using that inv r by (auto simp: row_ahead_def st(2) split: option.splits)
  moreover have "row_ahead ?s (slot x)" "row_held ?s x"
    using r by (simp_all add: row_ahead_def row_held_def slot_def st(2))
  moreover have "row_held ?s y" if "y \<in> set (ss_running s)" for y
  proof -
    have "sd_id y \<noteq> sd_id x" using that \<open>sd_id x \<notin> _\<close> by (auto intro: rev_image_eqI)
    moreover have "row_held s y" using that inv by blast
    ultimately show ?thesis by (simp add: row_held_def st(2))
  qed
  moreover have "set (used ?s) = insert (slot x) (set (used s))" and "distinct (used ?s) \<longleftrightarrow> slot x \<notin> set (used s) \<and> distinct (used s)"
    by (simp_all add: used_def)
  ultimately show ?thesis using inv st(1) assms(2) unfolding sched_inv_def list_all_iff by auto
qed

lemma sched_inv_finish:
  assumes "sched_inv s" and "x \<in> set (ss_running s)"
    and "update_schedule N labels c q (advanced b now x) (ss_state s\<lparr>sc_world := w\<rparr>) = (e, st)"
  shows "sched_inv (s\<lparr>ss_state := st, ss_running := remove1 x (ss_running s), ss_orders := slot x # ss_orders s\<rparr>)"
proof -
  let ?s = "s\<lparr>ss_state := st, ss_running := remove1 x (ss_running s), ss_orders := slot x # ss_orders s\<rparr>"
  note inv = assms(1) [unfolded sched_inv_def list_all_iff]
  from split_list_first [OF assms(2)] obtain ys zs where run: "ss_running s = ys @ x # zs" "x \<notin> set ys" by blast
  then have rem: "remove1 x (ss_running s) = ys @ zs" by (simp add: remove1_append)
  from inv have wf: "wf_schedules (ss_state s\<lparr>sc_world := w\<rparr>)" by (simp add: wf_schedules_def)
  note eff = update_schedule_effect [OF assms(3) wf, unfolded advanced_simps(1)]
  have k: "known_freq (sd_freq x)" using inv run by auto
  from inv assms(2) have "row_held s x" by blast
  then obtain r where r: "schedule_of (ss_state s) (sd_id x) = Some r" "sd_status r = ScheduleProcessing"
    "sd_next r = sd_next x" by (auto simp: row_held_def split: option.splits)
  have "row_ahead ?s p" if "p \<in> set (used s)" for p
  proof -
    have old: "row_ahead s p" using that inv by blast
    from eff(2) [of "fst p"] show ?thesis
    proof
      assume "schedule_of st (fst p) = schedule_of (ss_state s\<lparr>sc_world := w\<rparr>) (fst p)"
      with old show ?thesis by (simp add: row_ahead_def)
    next
      assume "fst p = sd_id x \<and> (\<exists>r. schedule_of st (fst p) = Some r \<and> sd_next r = sd_next (advanced b now x) \<and>
        sd_status r = sd_status (advanced b now x))"
      with old r advanced_simps(2,3) [OF k, of b now] show ?thesis by (fastforce simp: row_ahead_def)
    qed
  qed
  moreover have "row_held ?s y" if "y \<in> set (ys @ zs)" for y
  proof -
    have "sd_id y \<noteq> sd_id x" using that inv by (auto simp: run(1) intro: rev_image_eqI)
    with eff(2) [of "sd_id y"] have "schedule_of st (sd_id y) = schedule_of (ss_state s) (sd_id y)" by simp
    moreover have "row_held s y" using that inv run by auto
    ultimately show ?thesis by (simp add: row_held_def)
  qed
  moreover have u: "used ?s = map slot (ys @ zs) @ slot x # ss_orders s"
    "used s = map slot (ys @ x # zs) @ ss_orders s"
    using rem by (simp_all add: used_def run(1))
  then have "set (used ?s) = set (used s)" and "distinct (used ?s) = distinct (used s)"
    unfolding u by auto
  moreover have "distinct (map sd_id (ys @ zs))" "\<forall>y \<in> set (ys @ zs). known_freq (sd_freq y)"
    using inv by (auto simp: run(1))
  ultimately show ?thesis using inv eff(1) rem unfolding sched_inv_def list_all_iff by simp
qed

lemma sched_inv_step:
  assumes "sched_inv s" and "sched_step D N labels c s s'"
  shows "sched_inv s'"
  using assms(2)
proof (cases rule: sched_step.cases)
  case (list_step q now due)
  then have "set due \<subseteq> set (sc_rows (ss_state s))" by (auto simp: list_due_def split: option.splits)
  with assms(1) list_step(1) show ?thesis
    by (auto simp: sched_inv_def wf_schedules_def list_all_iff used_def row_ahead_def row_held_def)
next
  case (claim_step x q now st)
  with sched_inv_claim [OF assms(1)] show ?thesis by blast
next
  case (finish_step x S E r w q now)
  with sched_inv_finish [OF assms(1) finish_step(2) surjective_pairing] show ?thesis by blast
next
  case (crash_step x)
  from split_list_first [OF crash_step(2)] obtain ys zs where run: "ss_running s = ys @ x # zs" "x \<notin> set ys" by blast
  then have "remove1 x (ss_running s) = ys @ zs" by (simp add: remove1_append)
  with assms(1) crash_step(1) run show ?thesis
    by (auto simp: sched_inv_def list_all_iff used_def row_ahead_def row_held_def)
qed

lemma sched_reachable_inv:
  assumes "sched_reachable D N labels c (start_sched st) s" and "wf_schedules st"
  shows "sched_inv s"
  using assms
proof (induction rule: sched_reachable.induct)
  case sched_start
  then show ?case by (simp add: sched_inv_def start_sched_def used_def)
next
  case (sched_more s s')
  then show ?case by (blast intro: sched_inv_step)
qed

section \<open>One pass\<close>

text \<open>The driver answers every statement of the pass, and the rows hold values of their columns.\<close>

definition quiet_run :: "run_env \<Rightarrow> bool" where
  "quiet_run E \<longleftrightarrow> rn_list_q E = None \<and> rn_claim_q E = (\<lambda>_. None) \<and> rn_update_q E = (\<lambda>_. None)"

definition column_values :: "numeric_col \<Rightarrow> sched_state \<Rightarrow> bool" where
  "column_values N st \<longleftrightarrow> list_all (\<lambda>r. N 20 7 (sd_amount r) = Some (sd_amount r)) (sc_rows st)"

definition outcome ::
  "decimal_pkg \<Rightarrow> numeric_col \<Rightarrow> ctx \<Rightarrow> run_env \<Rightarrow> nat \<Rightarrow> schedule \<Rightarrow> world \<Rightarrow> (err + transaction) \<times> world" where
  "outcome D N c E k s w = initiate D N (run_ctx c s) (rn_screener E k) (rn_init E k) (schedule_order s) w"

lemma advanced_columns [simp]:
  "sd_amount (advanced b now s) = sd_amount s" "sd_freq (advanced b now s) = sd_freq s"
  "sd_tenant (advanced b now s) = sd_tenant s" "sd_status (advanced b now s) \<in> set domain_labels"
  by (simp_all add: advanced_def Let_def domain_labels_def split: option.splits)

lemma run_one_spec:
  assumes "wf_schedules st" and "column_values N st" and "quiet_run E" and "cx_tenant c = ''''"
    and "schedule_of st (sd_id s) = Some s" and "sd_status s = ScheduleActive"
  shows "run_one D N domain_labels c E k s st =
    (case outcome D N c E k s (sc_world st) of (r, w) \<Rightarrow> st\<lparr>sc_world := w, sc_rows :=
       update_where (\<lambda>x. sd_id x = sd_id s) (\<lambda>_. advanced (\<not> isl r) (rn_update_now E k) s) (sc_rows st)\<rparr>)"
proof -
  obtain r w where o: "outcome D N c E k s (sc_world st) = (r, w)" by (cases "outcome D N c E k s (sc_world st)")
  have only: "x = s" if "x \<in> set (sc_rows st)" "sd_id x = sd_id s" for x
  proof -
    from assms(1) have "distinct (map sd_id (sc_rows st))" by (simp add: wf_schedules_def)
    from row_with_unique [OF this that(1)] that(2) assms(5) show ?thesis by simp
  qed
  have s: "s \<in> set (sc_rows st)" using assms(5) by (auto dest: row_with_SomeD)
  then have n: "N 20 7 (sd_amount s) = Some (sd_amount s)" "known_freq (sd_freq s)"
    using assms(1,2) by (simp_all add: column_values_def wf_schedules_def list_all_iff)
  let ?f = "\<lambda>x. x\<lparr>sd_status := ScheduleProcessing, sd_updated := rn_claim_now E k\<rparr>"
  let ?a = "advanced (\<not> isl r) (rn_update_now E k) s"
  have c: "claim_schedule domain_labels None (rn_claim_now E k) (sd_id s) (sd_next s) st =
      (Inr True, st\<lparr>sc_rows := update_where (claimable (sd_id s) (sd_next s)) ?f (sc_rows st)\<rparr>)"
  proof -
    have "rows_affected (claimable (sd_id s) (sd_next s)) (sc_rows st) \<noteq> 0"
      using s assms(6) by (auto simp: rows_affected_0 claimable_def)
    then show ?thesis by (simp add: claim_schedule_def domain_labels_def)
  qed
  have two: "update_where (\<lambda>x. sd_id x = sd_id s) (write_columns (?a\<lparr>sd_tenant := t\<rparr>))
      (update_where (claimable (sd_id s) (sd_next s)) ?f (sc_rows st)) =
    update_where (\<lambda>x. sd_id x = sd_id s) (\<lambda>_. ?a) (sc_rows st)" for t
    unfolding update_where_def map_map
  proof (rule map_cong [OF refl])
    fix x
    assume x: "x \<in> set (sc_rows st)"
    have "write_columns (?a\<lparr>sd_tenant := t\<rparr>) (?f s) = ?a"
      by (cases s) (simp add: write_columns_def advanced_def Let_def)
    then show "((\<lambda>x. if sd_id x = sd_id s then write_columns (?a\<lparr>sd_tenant := t\<rparr>) x else x) \<circ>
        (\<lambda>x. if claimable (sd_id s) (sd_next s) x then ?f x else x)) x = (if sd_id x = sd_id s then ?a else x)"
      using only [OF x] assms(6) by (cases "sd_id x = sd_id s") (simp_all add: claimable_def)
  qed
  have "schedule_row N domain_labels ?a = Inr (?a\<lparr>sd_tenant := null_ptr (sd_tenant s)\<rparr>)"
  proof -
    have "?a\<lparr>sd_amount := sd_amount s\<rparr> = ?a" by (simp add: advanced_def Let_def)
    with n show ?thesis by (simp add: schedule_row_def)
  qed
  with two assms(3,4) show ?thesis
    by (simp add: run_one_def quiet_run_def c outcome_def [symmetric] o update_schedule_def in_scope_def advanced_simps(1))
qed

lemma run_all_spec:
  assumes "wf_schedules st" and "column_values N st" and "quiet_run E" and "cx_tenant c = ''''"
    and "distinct (map sd_id ss)"
    and "\<forall>s \<in> set ss. schedule_of st (sd_id s) = Some s \<and> sd_status s = ScheduleActive"
  shows "(\<forall>j < length ss. \<exists>w. schedule_of (run_all D N domain_labels c E k ss st) (sd_id (ss ! j)) =
      Some (advanced (\<not> isl (fst (outcome D N c E (k + j) (ss ! j) w))) (rn_update_now E (k + j)) (ss ! j)))
    \<and> (\<forall>i. i \<notin> sd_id ` set ss \<longrightarrow> schedule_of (run_all D N domain_labels c E k ss st) i = schedule_of st i)"
  using assms
proof (induction ss arbitrary: k st)
  case Nil
  then show ?case by simp
next
  case (Cons s ss)
  obtain r w where o: "outcome D N c E k s (sc_world st) = (r, w)" by (cases "outcome D N c E k s (sc_world st)")
  let ?st = "run_one D N domain_labels c E k s st"
  let ?a = "advanced (\<not> isl r) (rn_update_now E k) s"
  from Cons.prems(6) have s: "schedule_of st (sd_id s) = Some s" "sd_status s = ScheduleActive" by auto
  have one: "?st = st\<lparr>sc_world := w, sc_rows := update_where (\<lambda>x. sd_id x = sd_id s) (\<lambda>_. ?a) (sc_rows st)\<rparr>"
    using run_one_spec [OF Cons.prems(1-4) s, of D k] o by simp
  have look: "schedule_of ?st i = (if i = sd_id s then Some ?a else schedule_of st i)" for i
  proof -
    have "row_with sd_id i (update_where (\<lambda>x. sd_id x = sd_id s) (\<lambda>_. ?a) t)
      = map_option (\<lambda>x. if sd_id x = sd_id s then ?a else x) (row_with sd_id i t)" for t
      by (induction t) (auto simp: advanced_simps(1))
    then show ?thesis using s by (auto simp: one map_option_case dest: row_with_SomeD split: option.splits)
  qed
  have kf: "known_freq (sd_freq s) \<and> N 20 7 (sd_amount s) = Some (sd_amount s)"
    using s Cons.prems(1,2) by (auto simp: wf_schedules_def column_values_def list_all_iff dest: row_with_SomeD)
  have "map sd_id (update_where (\<lambda>x. sd_id x = sd_id s) (\<lambda>_. ?a) t) = map sd_id t" for t
    by (induction t) (auto simp: advanced_simps(1))
  with Cons.prems(1,2) kf have st: "wf_schedules ?st" "column_values N ?st"
    by (auto simp: one wf_schedules_def column_values_def list_all_iff set_update_where)
  from Cons.prems(5) have "distinct (map sd_id ss)" "sd_id s \<notin> sd_id ` set ss" by auto
  have rest: "\<forall>x \<in> set ss. schedule_of ?st (sd_id x) = Some x \<and> sd_status x = ScheduleActive"
  proof
    fix x
    assume x: "x \<in> set ss"
    with \<open>sd_id s \<notin> _\<close> have "sd_id x \<noteq> sd_id s" by (metis image_eqI)
    with x Cons.prems(6) show "schedule_of ?st (sd_id x) = Some x \<and> sd_status x = ScheduleActive"
      unfolding look by simp
  qed
  note IH = Cons.IH [OF st Cons.prems(3,4) \<open>distinct (map sd_id ss)\<close> rest, of "Suc k"]
  have "schedule_of (run_all D N domain_labels c E k (s # ss) st) (sd_id s) =
    Some (advanced (\<not> isl (fst (outcome D N c E k s (sc_world st)))) (rn_update_now E k) s)"
    using IH \<open>sd_id s \<notin> _\<close> by (simp add: look o)
  then have "\<exists>w. schedule_of (run_all D N domain_labels c E k (s # ss) st) (sd_id ((s # ss) ! j)) =
      Some (advanced (\<not> isl (fst (outcome D N c E (k + j) ((s # ss) ! j) w))) (rn_update_now E (k + j)) ((s # ss) ! j))"
    if "j < length (s # ss)" for j
    using IH that by (cases j) auto
  then show ?case using IH by (auto simp: look)
qed

section \<open>Properties\<close>

definition sample_schedule :: "schedule_freq \<Rightarrow> schedule" where
  "sample_schedule f = \<lparr>sd_id = ''s'', sd_tenant = None, sd_from = ''a'', sd_to = ''b'', sd_asset = ''XLM'',
     sd_amount = 5, sd_freq = f, sd_next = 0, sd_end = None, sd_status = ScheduleActive, sd_created = 0,
     sd_updated = 0\<rparr>"

definition sample_sched_state :: sched_state where
  "sample_sched_state = \<lparr>sc_rows = [sample_schedule FrequencyDaily], sc_world = sample_world StatusPending\<rparr>"

definition sample_run :: run_env where
  "sample_run = \<lparr>rn_now = 10, rn_list_q = None, rn_claim_q = (\<lambda>_. None), rn_claim_now = (\<lambda>_. 10),
     rn_screener = (\<lambda>_. None), rn_init = (\<lambda>_. sample_initiate_env), rn_update_now = (\<lambda>_. 20),
     rn_update_q = (\<lambda>_. None)\<rparr>"

definition sample_schedule_env :: schedule_env where
  "sample_schedule_env = \<lparr>se_now = 10, se_stamp = 11, se_uuid = ''n'', se_src_q = None, se_dst_q = None, se_get_q = None,
     se_write_q = None\<rparr>"

definition amount_edit :: update_schedule_input where
  "amount_edit = \<lparr>ui_status = None, ui_amount = Some 6, ui_freq = None, ui_end = None\<rparr>"

definition resume_edit :: update_schedule_input where
  "resume_edit = amount_edit\<lparr>ui_status := Some ScheduleActive\<rparr>"

lemmas sample_schedule_defs = sample_schedule_def sample_sched_state_def sample_run_def
  sample_schedule_env_def amount_edit_def resume_edit_def

lemma sample_sched_wf: "wf_schedules sample_sched_state" "column_values exact_numeric sample_sched_state"
  by (simp_all add: wf_schedules_def column_values_def sample_schedule_defs known_freq_def exact_numeric_def)

text \<open>
  C17: whatever workers do at the same time, and wherever they crash or lose the final write, the transfer
  service is called at most once for each occurrence of a schedule, if nobody edits schedules meanwhile.
\<close>

theorem occurrence_ordered_once:
  assumes "sched_reachable D N labels c (start_sched st) s" and "wf_schedules st"
  shows "distinct (ss_orders s)"
  using sched_reachable_inv [OF assms] by (simp add: sched_inv_def used_def)

lemma occurrence_ordered_once_witness:
  "\<exists>s. sched_reachable reference_pkg exact_numeric domain_labels no_tenant (start_sched sample_sched_state) s \<and>
     ss_orders s = [(''s'', 0)] \<and> distinct (ss_orders s)"
proof -
  let ?s0 = "start_sched sample_sched_state" and ?x = "sample_schedule FrequencyDaily"
  let ?s1 = "?s0\<lparr>ss_seen := [?x] @ ss_seen ?s0\<rparr>"
  have "list_due None 10 (ss_state ?s0) = Inr [?x]"
    by (simp add: list_due_def start_sched_def sample_schedule_defs is_due_def)
  from sched_more [OF sched_start list_step [OF this]]
  have r1: "sched_reachable reference_pkg exact_numeric domain_labels no_tenant ?s0 ?s1" .
  obtain st where "claim_schedule domain_labels None 10 (sd_id ?x) (sd_next ?x) (ss_state ?s1) = (Inr True, st)"
    by (simp add: claim_schedule_def domain_labels_def start_sched_def sample_schedule_defs
        claimable_def rows_affected_def)
  from sched_more [OF r1 claim_step [OF _ this]]
  have r2: "sched_reachable reference_pkg exact_numeric domain_labels no_tenant ?s0
      (?s1\<lparr>ss_state := st, ss_running := [?x]\<rparr>)" by (simp add: start_sched_def)
  from sched_more [OF r2 finish_step [where x = ?x, OF _ surjective_pairing]]
  obtain s where s: "sched_reachable reference_pkg exact_numeric domain_labels no_tenant ?s0 s" "ss_orders s = [slot ?x]"
    by (fastforce simp: start_sched_def)
  from occurrence_ordered_once [OF s(1) sample_sched_wf(1)] s show ?thesis
    by (auto simp: slot_def sample_schedule_def)
qed

text \<open>
  With the labels that the migrations give the type \<^verbatim>\<open>schedule_status\<close>, a pass of the worker changes
  nothing: the claim writes a label that the type does not have, and fails.
\<close>

theorem migrated_schema_runs_nothing:
  "snd (handle_run_schedules D N migrated_labels c E st) = st"
proof -
  have "run_one D N migrated_labels c E k s st = st" for k s st
    by (cases "rn_claim_q E k") (simp_all add: run_one_def claim_schedule_def migrated_labels_def)
  then have "run_all D N migrated_labels c E k ss st = st" for k ss st
    by (induction ss arbitrary: k st) simp_all
  then show ?thesis by (simp add: handle_run_schedules_def split: sum.split)
qed

text \<open>
  A pass in which the database answers handles every due schedule: an accepted order advances it by
  one interval, to active or, past its end, to completed; a refused one fails it. The schedules that
  are not due stay as they are.
\<close>

theorem due_schedules_handled:
  assumes "handle_run_schedules D N domain_labels c E st = (e, st')"
    and "wf_schedules st" and "column_values N st" and "quiet_run E" and "cx_tenant c = ''''"
  shows "e = None \<and>
    (\<forall>j < length (filter (is_due (rn_now E)) (sc_rows st)). let s = filter (is_due (rn_now E)) (sc_rows st) ! j in
      \<exists>w. schedule_of st' (sd_id s) =
        Some (advanced (\<not> isl (fst (outcome D N c E j s w))) (rn_update_now E j) s)) \<and>
    (\<forall>s \<in> set (sc_rows st). \<not> is_due (rn_now E) s \<longrightarrow> schedule_of st' (sd_id s) = Some s)"
proof -
  let ?due = "filter (is_due (rn_now E)) (sc_rows st)"
  have d: "distinct (map sd_id (sc_rows st))" using assms(2) by (simp add: wf_schedules_def)
  then have "distinct (map sd_id ?due)" by (simp add: distinct_map_filter)
  moreover have "\<forall>s \<in> set ?due. schedule_of st (sd_id s) = Some s \<and> sd_status s = ScheduleActive"
    using row_with_unique [OF d] by (auto simp: is_due_def)
  ultimately have run: "(\<forall>j < length ?due. \<exists>w. schedule_of (run_all D N domain_labels c E 0 ?due st) (sd_id (?due ! j)) =
      Some (advanced (\<not> isl (fst (outcome D N c E (0 + j) (?due ! j) w))) (rn_update_now E (0 + j)) (?due ! j)))
    \<and> (\<forall>i. i \<notin> sd_id ` set ?due \<longrightarrow> schedule_of (run_all D N domain_labels c E 0 ?due st) i = schedule_of st i)"
    by (intro run_all_spec [OF assms(2-5)])
  have e: "e = None" and st': "st' = run_all D N domain_labels c E 0 ?due st"
    using assms(1,4) by (auto simp: handle_run_schedules_def list_due_def quiet_run_def)
  have "schedule_of st' (sd_id s) = Some s" if s: "s \<in> set (sc_rows st)" "\<not> is_due (rn_now E) s" for s
  proof -
    have "sd_id s \<notin> sd_id ` set ?due"
      using s inj_onD [of sd_id "set (sc_rows st)" s] d by (auto simp: distinct_map)
    with run row_with_unique [OF d s(1)] show ?thesis by (simp add: st')
  qed
  with run e show ?thesis by (simp add: st' Let_def)
qed

lemma due_schedules_handled_witness:
  "\<exists>b. schedule_of (snd (handle_run_schedules reference_pkg exact_numeric domain_labels no_tenant sample_run
     sample_sched_state)) ''s'' = Some (advanced b 20 (sample_schedule FrequencyDaily))"
  using due_schedules_handled [OF surjective_pairing sample_sched_wf, of sample_run no_tenant reference_pkg]
  by (auto simp: sample_schedule_defs quiet_run_def no_tenant_def is_due_def Let_def)

text \<open>
  C18: Resuming a schedule with a known frequency returns, and its next run is the first of its
  occurrences that is in the future.
\<close>

theorem resume_rolls_forward:
  assumes "get_schedule c (se_get_q E) i st = Inr s" and "ui_status x = Some ScheduleActive"
    and "known_freq (sd_freq (edited x s))"
  shows "\<exists>k s'. s' = (edited x s)\<lparr>sd_next := occurrence (sd_freq (edited x s)) (sd_next s) k, sd_updated := se_stamp E\<rparr>
    \<and> sd_next s' > se_now E \<and> (\<forall>j < k. occurrence (sd_freq s') (sd_next s) j \<le> se_now E)
    \<and> update_service N labels c E i x st = Some (case update_schedule N labels c (se_write_q E) s' st of
        (Some e, st') \<Rightarrow> (Inl (Wrap ''update schedule'' e), st') | (None, st') \<Rightarrow> (Inr s', st'))"
proof -
  have n: "sd_next (edited x s) = sd_next s" by (simp add: edited_def)
  from roll_forward_returns [OF assms(3), of "se_now E" "sd_next s"] obtain k where
    k: "roll_forward (se_now E) (sd_freq (edited x s)) (sd_next s) = Some (occurrence (sd_freq (edited x s)) (sd_next s) k)"
    "occurrence (sd_freq (edited x s)) (sd_next s) k > se_now E"
    "\<forall>j < k. occurrence (sd_freq (edited x s)) (sd_next s) j \<le> se_now E" by blast
  then show ?thesis
    by (intro exI [of _ k]) (simp add: update_service_def assms(1,2) edit_schedule_def Let_def n)
qed

lemma resume_rolls_forward_witness:
  "update_service exact_numeric domain_labels no_tenant sample_schedule_env ''s'' resume_edit sample_sched_state \<noteq> None"
proof -
  have "get_schedule no_tenant (se_get_q sample_schedule_env) ''s'' sample_sched_state = Inr (sample_schedule FrequencyDaily)"
    by (simp add: get_schedule_def sample_schedule_defs in_scope_def no_tenant_def)
  from resume_rolls_forward [OF this, of resume_edit exact_numeric domain_labels] show ?thesis
    by (auto simp: resume_edit_def amount_edit_def edited_def sample_schedule_def known_freq_def)
qed

text \<open>
  An edit that read the schedule before a worker claimed it, and writes after, makes the schedule
  active again with the same next run: the occurrence that is being paid can be claimed a second time.
\<close>

theorem edit_repeats_occurrence:
  assumes "wf_schedules st" and "get_schedule c None i st = Inr s" and "sd_status s = ScheduleActive"
    and "ui_status x = None" and "edit_schedule now stamp x s = Some s'"
    and "claim_schedule domain_labels None t1 i (sd_next s) st = (Inr True, st1)"
    and "update_schedule N domain_labels c None s' st1 = (None, st2)"
  shows "fst (claim_schedule domain_labels None t2 i (sd_next s) st2) = Inr True"
proof -
  from assms(2) have s: "s \<in> set (sc_rows st)" "sd_id s = i" "in_scope c (sd_tenant s)"
    by (auto simp: get_schedule_def find_Some_iff split: option.splits)
  have s': "sd_id s' = i" "sd_next s' = sd_next s" "sd_status s' = ScheduleActive"
    using assms(3-5) s by (auto simp: edit_schedule_def edited_def Let_def)
  from update_schedule_None [OF assms(7)] obtain r where r: "sd_next r = sd_next s'" "sd_status r = sd_status s'"
    and st2: "st2 = st1\<lparr>sc_rows := update_where (\<lambda>x. sd_id x = sd_id s' \<and> in_scope c (sd_tenant x)) (write_columns r) (sc_rows st1)\<rparr>"
    by blast
  let ?p = "s\<lparr>sd_status := ScheduleProcessing, sd_updated := t1\<rparr>"
  have "?p \<in> set (sc_rows st1)"
    using assms(3,6) s by (auto simp: claim_schedule_def domain_labels_def set_update_where claimable_def image_iff
        split: if_splits)
  then have "write_columns r ?p \<in> set (sc_rows st2)"
    using s s'(1) by (auto simp: st2 set_update_where image_iff)
  then have "rows_affected (claimable i (sd_next s)) (sc_rows st2) \<noteq> 0"
    unfolding rows_affected_0 using r s' s
    by (intro notI) (drule (1) bspec, simp add: claimable_def write_columns_def)
  then show ?thesis by (simp add: claim_schedule_def domain_labels_def)
qed

lemma edit_repeats_occurrence_witness:
  "fst (claim_schedule domain_labels None 12 ''s'' 0
     (snd (update_schedule exact_numeric domain_labels no_tenant None (the (edit_schedule 5 5 amount_edit (sample_schedule FrequencyDaily)))
       (snd (claim_schedule domain_labels None 11 ''s'' 0 sample_sched_state))))) = Inr True"
proof -
  have g: "get_schedule no_tenant None ''s'' sample_sched_state = Inr (sample_schedule FrequencyDaily)"
    by (simp add: get_schedule_def sample_schedule_defs in_scope_def no_tenant_def)
  let ?e = "(sample_schedule FrequencyDaily)\<lparr>sd_amount := 6, sd_updated := 5\<rparr>"
  have e: "edit_schedule 5 5 amount_edit (sample_schedule FrequencyDaily) = Some ?e"
    by (simp add: edit_schedule_def edited_def amount_edit_def sample_schedule_def)
  let ?c = "claim_schedule domain_labels None 11 ''s'' 0 sample_sched_state"
  have c: "claim_schedule domain_labels None 11 ''s'' (sd_next (sample_schedule FrequencyDaily)) sample_sched_state = (Inr True, snd ?c)"
    by (simp add: claim_schedule_def domain_labels_def sample_schedule_defs claimable_def rows_affected_def)
  have u: "update_schedule exact_numeric domain_labels no_tenant None ?e (snd ?c)
    = (None, snd (update_schedule exact_numeric domain_labels no_tenant None ?e (snd ?c)))"
    by (simp add: update_schedule_def schedule_row_def known_freq_def sample_schedule_def domain_labels_def exact_numeric_def)
  from edit_repeats_occurrence [OF sample_sched_wf(1) g _ _ e c u, of 12] e show ?thesis
    by (simp add: sample_schedule_def amount_edit_def)
qed

text \<open>A cancellation while the worker runs the schedule is overwritten by the worker's final write.\<close>

lemma cancellation_overwritten:
  assumes "schedule_of st i = Some r" and "in_scope c (sd_tenant r)" and "sd_id s = i"
    and "update_schedule N labels c None (advanced True now s) st = (None, st')" and "sd_end s = None"
  shows "\<exists>r'. schedule_of st' i = Some r' \<and> sd_status r' = ScheduleActive"
proof -
  have "sd_status (advanced True now s) = ScheduleActive" using assms(5) by (simp add: advanced_def Let_def)
  with update_schedule_None [OF assms(4)] obtain a where a: "sd_status a = ScheduleActive"
    and st': "st' = st\<lparr>sc_rows := update_where (\<lambda>x. sd_id x = sd_id (advanced True now s) \<and> in_scope c (sd_tenant x))
      (write_columns a) (sc_rows st)\<rparr>" by metis
  have "sd_id r = i" using assms(1) by (auto dest: row_with_SomeD)
  with assms(1-3) have "schedule_of st' i = Some (write_columns a r)"
    by (simp add: st' row_with_update_where write_columns_def advanced_simps(1))
  with a show ?thesis by (simp add: write_columns_def)
qed

end
