(* ===== verification/Signature.thy ===== *)
theory Signature
  imports Go_Time "HOL-Library.Word"
begin

text \<open>
  The signature of a webhook delivery: \<^verbatim>\<open>sign\<close> of \<^verbatim>\<open>internal/webhook/service.go\<close> and \<^verbatim>\<open>Verify\<close> of
  \<^verbatim>\<open>internal/webhook/verify.go\<close>, with what they use of \<^verbatim>\<open>strconv\<close> and \<^verbatim>\<open>encoding/hex\<close>. The keyed
  hash is an argument \<open>H\<close>; the difference of the two times is taken in signed 64-bit arithmetic.
\<close>

section \<open>Numbers and bytes as text\<close>

definition digit_char :: "nat \<Rightarrow> char" where
  "digit_char d = char_of (48 + d)"

definition char_digit :: "char \<Rightarrow> nat option" where
  "char_digit c = (let b = (of_char c :: nat) in if 48 \<le> b \<and> b \<le> 57 then Some (b - 48) else None)"

fun digits :: "nat \<Rightarrow> string" where
  "digits n = (if n < 10 then [digit_char n] else digits (n div 10) @ [digit_char (n mod 10)])"

declare digits.simps [simp del]

text \<open>\<^verbatim>\<open>strconv.FormatInt(i, 10)\<close> and \<^verbatim>\<open>strconv.ParseInt(s, 10, 64)\<close>, with \<open>None\<close> for any error.\<close>

definition format_int :: "int \<Rightarrow> string" where
  "format_int i = (if i < 0 then CHR ''-'' # digits (nat (- i)) else digits (nat i))"

fun parse_digits :: "nat \<Rightarrow> string \<Rightarrow> nat option" where
  "parse_digits acc [] = Some acc"
| "parse_digits acc (c # cs) = (case char_digit c of None \<Rightarrow> None | Some d \<Rightarrow> parse_digits (10 * acc + d) cs)"

definition parse_uint :: "string \<Rightarrow> nat option" where
  "parse_uint s = (if s = '''' then None else parse_digits 0 s)"

definition parse_int64 :: "string \<Rightarrow> int option" where
  "parse_int64 s =
     (let neg = (take 1 s = ''-''); body = (if take 1 s \<in> {''-'', ''+''} then drop 1 s else s) in
      case parse_uint body of None \<Rightarrow> None
      | Some n \<Rightarrow> if neg then (if int n \<le> 2 ^ 63 then Some (- int n) else None)
                  else (if int n < 2 ^ 63 then Some (int n) else None))"

definition hex_digit_char :: "nat \<Rightarrow> char" where
  "hex_digit_char d = (if d < 10 then char_of (48 + d) else char_of (87 + d))"

definition hex_encode :: "string \<Rightarrow> string" where
  "hex_encode s = concat (map (\<lambda>c. let b = of_char c in [hex_digit_char (b div 16), hex_digit_char (b mod 16)]) s)"

section \<open>Signing and verifying\<close>

definition sign :: "(string \<Rightarrow> string \<Rightarrow> string) \<Rightarrow> string \<Rightarrow> string \<Rightarrow> string \<Rightarrow> string" where
  "sign H secret timestamp payload = ''sha256='' @ hex_encode (H secret (timestamp @ ''.'' @ payload))"

datatype verdict = Valid | Refused string

definition verify_tolerance :: "64 word" where
  "verify_tolerance = 300"

definition unix :: "go_time \<Rightarrow> int" where
  "unix t = t div second"

definition stale :: "go_time \<Rightarrow> int \<Rightarrow> bool" where
  "stale now ts =
     (let delta = word_of_int (unix now) - word_of_int ts :: 64 word;
          delta' = (if sint delta < 0 then - delta else delta)
      in sint verify_tolerance \<le> sint delta')"

definition verify :: "(string \<Rightarrow> string \<Rightarrow> string) \<Rightarrow> go_time \<Rightarrow> string \<Rightarrow> string \<Rightarrow> string \<Rightarrow> string \<Rightarrow> verdict" where
  "verify H now secret timestamp body signature =
     (case parse_int64 timestamp of None \<Rightarrow> Refused ''invalid_timestamp''
      | Some ts \<Rightarrow>
        if stale now ts then Refused ''stale_timestamp''
        else if sign H secret timestamp body \<noteq> signature then Refused ''signature_mismatch''
        else Valid)"

section \<open>Facts\<close>

lemma char_digit_char: "d < 10 \<Longrightarrow> char_digit (digit_char d) = Some d"
  by (simp add: char_digit_def digit_char_def)

lemma parse_digits_append:
  "parse_digits a (s @ t) = (case parse_digits a s of None \<Rightarrow> None | Some b \<Rightarrow> parse_digits b t)"
  by (induction s arbitrary: a) (auto split: option.splits)

lemma parse_digits_digits: "parse_digits a (digits n) = Some (a * 10 ^ length (digits n) + n)"
proof (induction n arbitrary: a rule: digits.induct)
  case (1 n)
  show ?case
  proof (cases "n < 10")
    case True
    then show ?thesis by (simp add: digits.simps [of n] char_digit_char)
  next
    case False
    then have d: "digits n = digits (n div 10) @ [digit_char (n mod 10)]" by (simp add: digits.simps [of n])
    have "n mod 10 < 10" by simp
    with 1 [OF False] show ?thesis
      by (simp add: d parse_digits_append char_digit_char distrib_left)
  qed
qed

lemma digits_not_empty [simp]: "digits n \<noteq> []"
  by (simp add: digits.simps [of n])

lemma digits_hd: "\<exists>d < 10. hd (digits n) = digit_char d"
proof (induction n rule: digits.induct)
  case (1 n)
  then show ?case by (cases "n < 10") (auto simp: digits.simps [of n])
qed

lemma digit_char_not_sign:
  assumes "d < 10"
  shows "digit_char d \<noteq> CHR ''-'' \<and> digit_char d \<noteq> CHR ''+''"
  using char_digit_char [OF assms] by (auto simp: char_digit_def)

lemma parse_uint_digits: "parse_uint (digits n) = Some n"
  by (simp add: parse_uint_def parse_digits_digits)

lemma parse_format_int:
  assumes "- (2 ^ 63) \<le> i" and "i < 2 ^ 63"
  shows "parse_int64 (format_int i) = Some i"
proof (cases "i < 0")
  case True
  with assms show ?thesis by (simp add: parse_int64_def format_int_def parse_uint_digits)
next
  case False
  let ?s = "digits (nat i)"
  from digits_hd [of "nat i"] digit_char_not_sign have "take 1 ?s \<notin> {''-'', ''+''}"
    by (cases ?s) auto
  with False assms show ?thesis by (simp add: parse_int64_def format_int_def parse_uint_digits)
qed

lemma sint_word_of_int64:
  assumes "- (2 ^ 63) \<le> k" and "k < 2 ^ 63"
  shows "sint (word_of_int k :: 64 word) = k"
  using assms by (simp add: sint_sbintrunc' signed_take_bit_int_eq_self)

text \<open>
  The freshness test in 64 bits: it means what it says, with one exception. The time \<open>2 ^ 63\<close> seconds
  before now gives the one difference whose negation is itself, and that is below the tolerance.
\<close>

lemma stale_iff:
  assumes "0 \<le> unix now" and "unix now < 2 ^ 62" and "- (2 ^ 63) \<le> ts" and "ts < 2 ^ 63"
  shows "stale now ts \<longleftrightarrow> 300 \<le> \<bar>unix now - ts\<bar> \<and> ts \<noteq> unix now - 2 ^ 63"
proof -
  let ?k = "unix now - ts"
  have d: "word_of_int (unix now) - word_of_int ts = (word_of_int ?k :: 64 word)" by simp
  consider (near) "?k < 2 ^ 63" | (far) "2 ^ 63 < ?k" | (edge) "?k = 2 ^ 63" by linarith
  then show ?thesis
  proof cases
    case near
    with assms have "sint (word_of_int ?k :: 64 word) = ?k" by (intro sint_word_of_int64) auto
    moreover have "sint (word_of_int (- ?k) :: 64 word) = - ?k"
      using assms near by (intro sint_word_of_int64) auto
    ultimately show ?thesis using near
      unfolding stale_def Let_def d verify_tolerance_def by (auto simp flip: of_int_minus)
  next
    case far
    let ?m = "?k - 2 ^ 64"
    have w: "(word_of_int ?k :: 64 word) = word_of_int ?m" by simp
    have "sint (word_of_int ?m :: 64 word) = ?m" using assms far by (intro sint_word_of_int64) auto
    moreover have "sint (word_of_int (- ?m) :: 64 word) = - ?m" using assms far by (intro sint_word_of_int64) auto
    ultimately show ?thesis using far assms
      unfolding stale_def Let_def d w verify_tolerance_def by (auto simp flip: of_int_minus)
  next
    case edge
    have "sint (word_of_int (2 ^ 63) :: 64 word) = - (2 ^ 63)" "- word_of_int (2 ^ 63) = (word_of_int (2 ^ 63) :: 64 word)"
      by code_simp+
    moreover have "ts = unix now - 2 ^ 63" using edge by simp
    ultimately show ?thesis unfolding stale_def Let_def d edge verify_tolerance_def by auto
  qed
qed

lemma parse_int64_range:
  assumes "parse_int64 s = Some i"
  shows "- (2 ^ 63) \<le> i" and "i < 2 ^ 63"
  using assms by (auto simp: parse_int64_def Let_def split: option.splits if_splits)

section \<open>Properties\<close>

text \<open>
  C19: the verifier accepts exactly the signature of the text it is given, under a timestamp less than 300
  seconds away from now in either direction, or exactly \<open>2 ^ 63\<close> seconds ago.
\<close>

theorem verify_valid_iff:
  assumes "0 \<le> unix now" and "unix now < 2 ^ 62"
  shows "verify H now secret timestamp body signature = Valid \<longleftrightarrow>
    (case parse_int64 timestamp of None \<Rightarrow> False
     | Some ts \<Rightarrow> (\<bar>unix now - ts\<bar> < 300 \<or> ts = unix now - 2 ^ 63) \<and> signature = sign H secret timestamp body)"
proof (cases "parse_int64 timestamp")
  case (Some ts)
  from stale_iff [OF assms parse_int64_range [OF Some]] Some show ?thesis
    by (auto simp: verify_def)
qed (simp add: verify_def)

definition sample_hash :: "string \<Rightarrow> string \<Rightarrow> string" where
  "sample_hash k m = rev k @ m"

lemma verify_valid_iff_witness:
  "verify sample_hash (1000 * second) ''k'' ''1299'' ''{}'' (sign sample_hash ''k'' ''1299'' ''{}'') = Valid
    \<and> verify sample_hash (1000 * second) ''k'' ''1300'' ''{}'' (sign sample_hash ''k'' ''1300'' ''{}'') \<noteq> Valid"
proof -
  have u: "unix (1000 * second) = 1000" by (simp add: unix_def duration_defs)
  have "parse_int64 ''1299'' = Some 1299" "parse_int64 ''1300'' = Some 1300" by code_simp+
  then show ?thesis using verify_valid_iff [of "1000 * second" sample_hash "''k''"] by (simp add: u)
qed

text \<open>
  What a delivery sends at one time is accepted by the verifier at any time less than 300 seconds away.
\<close>

theorem signed_delivery_verifies:
  assumes "0 \<le> unix sent" and "0 \<le> unix now" and "unix now < 2 ^ 62" and "\<bar>unix now - unix sent\<bar> < 300"
  shows "verify H now secret (format_int (unix sent)) payload
    (sign H secret (format_int (unix sent)) payload) = Valid"
proof -
  have r: "- (2 ^ 63) \<le> unix sent" "unix sent < 2 ^ 63" using assms by auto
  from stale_iff [OF assms(2,3) r] assms(4) have "\<not> stale now (unix sent)" by simp
  with parse_format_int [OF r] show ?thesis by (simp add: verify_def)
qed

lemma signed_delivery_verifies_witness:
  "verify sample_hash (1299 * second) ''k'' ''1000'' ''{}'' (sign sample_hash ''k'' ''1000'' ''{}'') = Valid"
proof -
  have u: "unix (1000 * second) = 1000" "unix (1299 * second) = 1299" by (simp_all add: unix_def duration_defs)
  have "format_int 1000 = ''1000''" by code_simp
  with signed_delivery_verifies [of "1000 * second" "1299 * second" sample_hash "''k''" "''{}''"] show ?thesis by (simp add: u)
qed

end
