(* ===== verification/Net_Addr.thy ===== *)
theory Net_Addr
  imports Prelude "HOL-Library.Word"
begin

text \<open>
  The predicates of Go's \<^verbatim>\<open>net.IP\<close> that \<^verbatim>\<open>internal/webhook/ssrf.go\<close> composes into \<^verbatim>\<open>isBlockedIP\<close>. An
  address is the slice of its bytes, four or sixteen of them; an IPv4 address may also come in its
  sixteen-byte form, which \<^verbatim>\<open>To4\<close> undoes.
\<close>

unbundle bit_operations_syntax

type_synonym ip = "8 word list"

definition mapped_prefix :: ip where
  "mapped_prefix = [0, 0, 0, 0, 0, 0, 0, 0, 0, 0, 0xff, 0xff]"

definition to4 :: "ip \<Rightarrow> ip option" where
  "to4 a = (if length a = 4 then Some a
     else if length a = 16 \<and> take 12 a = mapped_prefix then Some (drop 12 a) else None)"

definition is_loopback :: "ip \<Rightarrow> bool" where
  "is_loopback a = (case to4 a of Some b \<Rightarrow> b ! 0 = 127
     | None \<Rightarrow> a = [0, 0, 0, 0, 0, 0, 0, 0, 0, 0, 0, 0, 0, 0, 0, 1])"

definition is_link_local_unicast :: "ip \<Rightarrow> bool" where
  "is_link_local_unicast a = (case to4 a of Some b \<Rightarrow> b ! 0 = 169 \<and> b ! 1 = 254
     | None \<Rightarrow> length a = 16 \<and> a ! 0 = 0xfe \<and> (a ! 1) AND 0xc0 = 0x80)"

definition is_link_local_multicast :: "ip \<Rightarrow> bool" where
  "is_link_local_multicast a = (case to4 a of Some b \<Rightarrow> b ! 0 = 224 \<and> b ! 1 = 0 \<and> b ! 2 = 0
     | None \<Rightarrow> length a = 16 \<and> a ! 0 = 0xff \<and> (a ! 1) AND 0x0f = 0x02)"

definition is_interface_local_multicast :: "ip \<Rightarrow> bool" where
  "is_interface_local_multicast a \<longleftrightarrow> length a = 16 \<and> a ! 0 = 0xff \<and> (a ! 1) AND 0x0f = 0x01"

definition is_multicast :: "ip \<Rightarrow> bool" where
  "is_multicast a = (case to4 a of Some b \<Rightarrow> (b ! 0) AND 0xf0 = 0xe0
     | None \<Rightarrow> length a = 16 \<and> a ! 0 = 0xff)"

definition is_unspecified :: "ip \<Rightarrow> bool" where
  "is_unspecified a \<longleftrightarrow> to4 a = Some [0, 0, 0, 0] \<or> a = [0, 0, 0, 0, 0, 0, 0, 0, 0, 0, 0, 0, 0, 0, 0, 0]"

definition is_private :: "ip \<Rightarrow> bool" where
  "is_private a = (case to4 a of Some b \<Rightarrow> b ! 0 = 10 \<or> b ! 0 = 172 \<and> (b ! 1) AND 0xf0 = 16
       \<or> b ! 0 = 192 \<and> b ! 1 = 168
     | None \<Rightarrow> length a = 16 \<and> (a ! 0) AND 0xfe = 0xfc)"

text \<open>\<open>allow_private\<close> is the field that only tests set.\<close>

definition is_blocked_ip :: "bool \<Rightarrow> ip \<Rightarrow> bool" where
  "is_blocked_ip allow_private a \<longleftrightarrow> \<not> allow_private \<and>
     (is_loopback a \<or> is_link_local_unicast a \<or> is_link_local_multicast a \<or>
      is_interface_local_multicast a \<or> is_multicast a \<or> is_unspecified a \<or> is_private a)"

section \<open>Masks as ranges\<close>

lemma high_bits:
  fixes x :: "8 word"
  shows "unat (x AND NOT (mask n)) = unat x div 2 ^ n * 2 ^ n"
proof -
  have "x AND NOT (mask n) = push_bit n (drop_bit n x)"
    by (rule bit_eqI) (auto simp: bit_simps)
  also have "unat \<dots> = take_bit 8 (push_bit n (drop_bit n (take_bit 8 (unat x))))"
    unfolding unsigned_push_bit_eq unsigned_drop_bit_eq by simp
  also have "\<dots> = take_bit 8 (unat x div 2 ^ n * 2 ^ n)"
    using unsigned_less [of x, where 'a = nat]
    by (simp add: push_bit_eq_mult drop_bit_eq_div take_bit_nat_eq_self)
  also have "\<dots> = unat x div 2 ^ n * 2 ^ n"
    using le_less_trans [OF div_times_less_eq_dividend [of "unat x" "2 ^ n"] unsigned_less [of x]]
    by (intro take_bit_nat_eq_self) simp
  finally show ?thesis .
qed

lemma div_block:
  fixes n :: nat
  assumes "0 < k"
  shows "n div k * k = a * k \<longleftrightarrow> a * k \<le> n \<and> n < a * k + k"
  using assms less_eq_div_iff_mult_less_eq [of k a n] div_less_iff_less_mult [of k n "Suc a"]
  by (auto simp: algebra_simps)

lemma byte_eq: "x = y \<longleftrightarrow> unat x = unat (y :: 8 word)"
  by (simp add: word_unat_eq_iff)

lemma mask_ranges:
  fixes x :: "8 word"
  shows "x AND 0xf0 = 16 \<longleftrightarrow> 16 \<le> x \<and> x \<le> 31"
    and "x AND 0xf0 = 0xe0 \<longleftrightarrow> 224 \<le> x \<and> x \<le> 239"
    and "x AND 0xc0 = 0x80 \<longleftrightarrow> 128 \<le> x \<and> x \<le> 191"
    and "x AND 0xfe = 0xfc \<longleftrightarrow> x = 252 \<or> x = 253"
proof -
  have m: "(0xf0 :: 8 word) = NOT (mask 4)" "(0xc0 :: 8 word) = NOT (mask 6)" "(0xfe :: 8 word) = NOT (mask 1)"
    by code_simp+
  show "x AND 0xf0 = 16 \<longleftrightarrow> 16 \<le> x \<and> x \<le> 31"
    using div_block [of 16 "unat x" 1] by (simp add: m byte_eq [of "_ AND _"] high_bits word_le_nat_alt) linarith
  show "x AND 0xf0 = 0xe0 \<longleftrightarrow> 224 \<le> x \<and> x \<le> 239"
    using div_block [of 16 "unat x" 14] by (simp add: m byte_eq [of "_ AND _"] high_bits word_le_nat_alt) linarith
  show "x AND 0xc0 = 0x80 \<longleftrightarrow> 128 \<le> x \<and> x \<le> 191"
    using div_block [of 64 "unat x" 2] by (simp add: m byte_eq [of "_ AND _"] high_bits word_le_nat_alt) linarith
  show "x AND 0xfe = 0xfc \<longleftrightarrow> x = 252 \<or> x = 253"
    using div_block [of 2 "unat x" 126] high_bits [of x 1] unfolding m byte_eq by simp linarith
qed

text \<open>The blocked IPv4 addresses, in either form.\<close>

definition blocked_range4 :: "8 word \<Rightarrow> 8 word \<Rightarrow> 8 word \<Rightarrow> 8 word \<Rightarrow> bool" where
  "blocked_range4 a b c d \<longleftrightarrow> a = 10 \<or> a = 127 \<or> a = 169 \<and> b = 254 \<or> a = 172 \<and> 16 \<le> b \<and> b \<le> 31
     \<or> a = 192 \<and> b = 168 \<or> 224 \<le> a \<and> a \<le> 239 \<or> a = 0 \<and> b = 0 \<and> c = 0 \<and> d = 0"

lemmas ip_defs = is_loopback_def is_link_local_unicast_def is_link_local_multicast_def
  is_interface_local_multicast_def is_multicast_def is_unspecified_def is_private_def

lemma blocked_ip4:
  "is_blocked_ip False [a, b, c, d] \<longleftrightarrow> blocked_range4 a b c d"
  "is_blocked_ip False (mapped_prefix @ [a, b, c, d]) \<longleftrightarrow> blocked_range4 a b c d"
proof -
  have "to4 [a, b, c, d] = Some [a, b, c, d]" by (simp add: to4_def)
  then show "is_blocked_ip False [a, b, c, d] \<longleftrightarrow> blocked_range4 a b c d"
    by (auto simp: is_blocked_ip_def ip_defs mask_ranges blocked_range4_def)
  have "to4 (mapped_prefix @ [a, b, c, d]) = Some [a, b, c, d]" by (simp add: to4_def mapped_prefix_def)
  then show "is_blocked_ip False (mapped_prefix @ [a, b, c, d]) \<longleftrightarrow> blocked_range4 a b c d"
    by (auto simp: is_blocked_ip_def ip_defs mask_ranges blocked_range4_def mapped_prefix_def)
qed

text \<open>
  The internal addresses, as ranges of bytes: 10/8, 127/8, 169.254/16, 172.16/12, 192.168/16, 224/4 and
  0.0.0.0, plain or mapped into IPv6, and ::, ::1, fe80::/10, fc00::/7, ff00::/8.
\<close>

definition internal_ip :: "ip \<Rightarrow> bool" where
  "internal_ip x \<longleftrightarrow>
     (\<exists>a b c d. x = [a, b, c, d] \<and> blocked_range4 a b c d)
   \<or> (\<exists>a b c d. x = [0, 0, 0, 0, 0, 0, 0, 0, 0, 0, 255, 255, a, b, c, d] \<and> blocked_range4 a b c d)
   \<or> x = [0, 0, 0, 0, 0, 0, 0, 0, 0, 0, 0, 0, 0, 0, 0, 0]
   \<or> x = [0, 0, 0, 0, 0, 0, 0, 0, 0, 0, 0, 0, 0, 0, 0, 1]
   \<or> length x = 16 \<and> (x ! 0 = 254 \<and> 128 \<le> x ! 1 \<and> x ! 1 \<le> 191 \<or> x ! 0 = 252 \<or> x ! 0 = 253 \<or> x ! 0 = 255)"

lemma internal_is_blocked:
  assumes "internal_ip x"
  shows "is_blocked_ip False x"
proof -
  have to6: "to4 x = None" if "x ! 0 \<noteq> 0" "length x = 16"
  proof -
    from that have "take 12 x ! 0 \<noteq> mapped_prefix ! 0" by (simp add: mapped_prefix_def)
    then have "take 12 x \<noteq> mapped_prefix" by metis
    with that show ?thesis by (simp add: to4_def)
  qed
  from assms consider (v4) a b c d where "x = [a, b, c, d]" "blocked_range4 a b c d"
    | (mapped) a b c d where "x = mapped_prefix @ [a, b, c, d]" "blocked_range4 a b c d"
    | (zero) "x = [0, 0, 0, 0, 0, 0, 0, 0, 0, 0, 0, 0, 0, 0, 0, 0]"
    | (one) "x = [0, 0, 0, 0, 0, 0, 0, 0, 0, 0, 0, 0, 0, 0, 0, 1]"
    | (link) "length x = 16" "x ! 0 = 254" "128 \<le> x ! 1 \<and> x ! 1 \<le> 191"
    | (ula) "length x = 16" "x ! 0 = 252 \<or> x ! 0 = 253"
    | (mcast) "length x = 16" "x ! 0 = 255"
    unfolding internal_ip_def mapped_prefix_def by auto
  then show ?thesis
  proof cases
    case v4
    then show ?thesis by (simp add: blocked_ip4(1))
  next
    case mapped
    then show ?thesis by (simp add: blocked_ip4(2))
  next
    case zero
    then show ?thesis by (simp add: is_blocked_ip_def is_unspecified_def)
  next
    case one
    then show ?thesis by (simp add: is_blocked_ip_def is_loopback_def to4_def mapped_prefix_def)
  next
    case link
    with to6 show ?thesis by (simp add: is_blocked_ip_def is_link_local_unicast_def mask_ranges)
  next
    case ula
    with to6 have "to4 x = None" by auto
    with ula show ?thesis by (simp add: is_blocked_ip_def is_private_def mask_ranges)
  next
    case mcast
    with to6 show ?thesis by (simp add: is_blocked_ip_def is_multicast_def)
  qed
qed

end
