(* ===== verification/Webhooks.thy ===== *)
theory Webhooks
  imports Transfers Signature Net_Addr
begin

text \<open>
  \<^verbatim>\<open>internal/webhook\<close> and \<^verbatim>\<open>internal/postgres/webhook_repo.go\<close>: registration of endpoints with the guard
  against internal destinations, dispatch of an event to the subscribed endpoints, and the delivery with
  its retries. What the resolver and the peer answer is part of the environment of a call.
\<close>

section \<open>Data\<close>

fun event_text :: "event \<Rightarrow> string" where
  "event_text EventTransferInitiated = ''transfer.initiated''"
| "event_text EventTransferSettled = ''transfer.settled''"
| "event_text EventTransferFailed = ''transfer.failed''"
| "event_text EventWalletFunded = ''wallet.funded''"
| "event_text EventConversionCompleted = ''conversion.completed''"
| "event_text EventTreasurySweepCompleted = ''treasury.sweep_completed''"
| "event_text EventTransferComplianceHold = ''transfer.compliance_hold''"
| "event_text EventTransferComplianceApproved = ''transfer.compliance_approved''"
| "event_text EventTransferComplianceRejected = ''transfer.compliance_rejected''"
| "event_text EventSanctionsRefreshFailed = ''sanctions.refresh_failed''"

datatype delivery_status = DeliveryPending | DeliverySuccess | DeliveryFailed

record endpoint =
  ep_id :: string
  ep_tenant :: "string option"
  ep_url :: string
  ep_secret :: string
  ep_events :: "string list"
  ep_active :: bool
  ep_created :: go_time

record delivery =
  dl_id :: string
  dl_endpoint :: string
  dl_event :: event
  dl_payload :: string
  dl_status :: delivery_status
  dl_code :: "int option"
  dl_attempts :: int
  dl_last :: "go_time option"
  dl_created :: go_time

text \<open>A request as it leaves for an address, and the waits between attempts.\<close>

datatype hook_effect =
    Waited int
  | Posted ip "string \<times> string \<times> string \<times> string \<times> string"
      \<comment> \<open>address; URL, body, signature, timestamp, event\<close>

text \<open>
  The tables, the queue and the trace of what was sent. \<open>hk_webhooks\<close> is the table \<^verbatim>\<open>webhooks\<close> that
  \<^verbatim>\<open>CountByTenant\<close> reads; no migration creates it.
\<close>

record hook_state =
  hk_endpoints :: "endpoint list"
  hk_deliveries :: "delivery list"
  hk_webhooks :: "endpoint list option"
  hk_queue :: "string list"
  hk_trace :: "hook_effect list"

section \<open>The repository\<close>

definition create_endpoint :: "err option \<Rightarrow> endpoint \<Rightarrow> hook_state \<Rightarrow> err option \<times> hook_state" where
  "create_endpoint q p st =
     (let failed = (\<lambda>e. (Some (Wrap ''insert webhook endpoint'' e), st)) in
      case q of Some e \<Rightarrow> failed e
      | None \<Rightarrow> if \<exists>x \<in> set (hk_endpoints st). ep_id x = ep_id p then failed unique_violation
                else (None, st\<lparr>hk_endpoints := hk_endpoints st @ [p]\<rparr>))"

definition get_endpoint :: "err option \<Rightarrow> string \<Rightarrow> hook_state \<Rightarrow> err + endpoint" where
  "get_endpoint q i st =
     (case q of Some e \<Rightarrow> Inl (Wrap ''get webhook endpoint'' e)
      | None \<Rightarrow> (case row_with ep_id i (hk_endpoints st) of
                  None \<Rightarrow> Inl (Dom ErrWebhookNotFound) | Some p \<Rightarrow> Inr p))"

definition list_endpoints :: "err option \<Rightarrow> string option \<Rightarrow> hook_state \<Rightarrow> err + endpoint list" where
  "list_endpoints q tid st =
     (case q of Some e \<Rightarrow> Inl (Wrap ''list webhook endpoints'' e)
      | None \<Rightarrow> Inr (rev (sort_key ep_created (rev
          (filter (\<lambda>p. tid = None \<or> ep_tenant p = tid) (hk_endpoints st))))))"

text \<open>The deliveries of a deleted endpoint go with it.\<close>

definition delete_endpoint :: "err option \<Rightarrow> string \<Rightarrow> string option \<Rightarrow> hook_state \<Rightarrow> err option \<times> hook_state" where
  "delete_endpoint q i tid st =
     (let gone = (\<lambda>p. ep_id p = i \<and> (tid = None \<or> ep_tenant p = tid)) in
      case q of Some e \<Rightarrow> (Some (Wrap ''delete webhook endpoint'' e), st)
      | None \<Rightarrow> if rows_affected gone (hk_endpoints st) = 0 then (Some (Dom ErrWebhookNotFound), st)
                else (None, st\<lparr>hk_endpoints := filter (\<lambda>p. \<not> gone p) (hk_endpoints st),
                       hk_deliveries := filter (\<lambda>d. dl_endpoint d \<noteq> i) (hk_deliveries st)\<rparr>))"

definition subscribed :: "event \<Rightarrow> endpoint \<Rightarrow> bool" where
  "subscribed ev p \<longleftrightarrow> ep_active p \<and> (ep_events p = [] \<or> event_text ev \<in> set (ep_events p))"

definition list_active_by_event :: "err option \<Rightarrow> event \<Rightarrow> hook_state \<Rightarrow> err + endpoint list" where
  "list_active_by_event q ev st =
     (case q of Some e \<Rightarrow> Inl (Wrap ''list active webhook endpoints'' e)
      | None \<Rightarrow> Inr (sort_key ep_created (filter (subscribed ev) (hk_endpoints st))))"

text \<open>\<open>J\<close> is the conversion to the column type \<^verbatim>\<open>jsonb\<close>, \<open>None\<close> for text that is not JSON.\<close>

definition create_delivery ::
  "(string \<Rightarrow> string option) \<Rightarrow> err option \<Rightarrow> delivery \<Rightarrow> hook_state \<Rightarrow> err option \<times> hook_state" where
  "create_delivery J q d st =
     (let failed = (\<lambda>e. (Some (Wrap ''insert webhook delivery'' e), st)) in
      case q of Some e \<Rightarrow> failed e
      | None \<Rightarrow> (case J (dl_payload d) of None \<Rightarrow> failed (Opaque ''invalid input syntax for type json'')
        | Some body \<Rightarrow>
          if \<exists>x \<in> set (hk_deliveries st). dl_id x = dl_id d then failed unique_violation
          else if row_with ep_id (dl_endpoint d) (hk_endpoints st) = None then failed foreign_key_violation
          else (None, st\<lparr>hk_deliveries := hk_deliveries st @ [d\<lparr>dl_payload := body, dl_code := None, dl_last := None\<rparr>]\<rparr>)))"

definition update_delivery :: "err option \<Rightarrow> delivery \<Rightarrow> hook_state \<Rightarrow> err option \<times> hook_state" where
  "update_delivery q d st =
     (case q of Some e \<Rightarrow> (Some (Wrap ''update webhook delivery'' e), st)
      | None \<Rightarrow> (None, st\<lparr>hk_deliveries := update_where (\<lambda>x. dl_id x = dl_id d)
          (\<lambda>x. x\<lparr>dl_status := dl_status d, dl_code := dl_code d, dl_attempts := dl_attempts d, dl_last := dl_last d\<rparr>)
          (hk_deliveries st)\<rparr>))"

text \<open>With a tenant, the delivery is joined with its endpoint.\<close>

definition owned_by :: "string option \<Rightarrow> hook_state \<Rightarrow> delivery \<Rightarrow> bool" where
  "owned_by tid st d \<longleftrightarrow> tid = None \<or>
     (case row_with ep_id (dl_endpoint d) (hk_endpoints st) of None \<Rightarrow> False | Some p \<Rightarrow> ep_tenant p = tid)"

definition get_delivery :: "err option \<Rightarrow> string \<Rightarrow> string option \<Rightarrow> hook_state \<Rightarrow> err + delivery" where
  "get_delivery q i tid st =
     (case q of Some e \<Rightarrow> Inl (Wrap ''get webhook delivery'' e)
      | None \<Rightarrow> (case find (\<lambda>d. dl_id d = i \<and> owned_by tid st d) (hk_deliveries st) of
                  None \<Rightarrow> Inl (Dom ErrWebhookDeliveryNotFound) | Some d \<Rightarrow> Inr d))"

definition list_delivery_rows ::
  "err option \<Rightarrow> string \<Rightarrow> nat \<Rightarrow> nat \<Rightarrow> string option \<Rightarrow> hook_state \<Rightarrow> err + delivery list" where
  "list_delivery_rows q i limit offset tid st =
     (case q of Some e \<Rightarrow> Inl (Wrap ''list webhook deliveries'' e)
      | None \<Rightarrow> Inr (take limit (drop offset (rev (sort_key dl_created (rev
          (filter (\<lambda>d. dl_endpoint d = i \<and> owned_by tid st d) (hk_deliveries st))))))))"

definition undefined_table :: err where
  "undefined_table = Opaque ''undefined_table''"

definition count_by_tenant :: "err option \<Rightarrow> string \<Rightarrow> hook_state \<Rightarrow> err + int" where
  "count_by_tenant q tid st =
     (case q of Some e \<Rightarrow> Inl (Wrap ''count webhooks by tenant'' e)
      | None \<Rightarrow> (case hk_webhooks st of
          None \<Rightarrow> Inl (Wrap ''count webhooks by tenant'' undefined_table)
        | Some rows \<Rightarrow> Inr (int (length (filter (\<lambda>p. ep_tenant p = Some tid \<and> ep_active p) rows)))))"

section \<open>Destinations\<close>

definition unsafe_url :: err where
  "unsafe_url = Opaque ''webhook url is not allowed''"

text \<open>The resolver's answer for a host is an error or its addresses.\<close>

definition resolve_and_validate :: "bool \<Rightarrow> string \<Rightarrow> err + ip list \<Rightarrow> err + ip" where
  "resolve_and_validate allow_private host answer =
     (case answer of Inl e \<Rightarrow> Inl (Wrap (''resolve webhook host '' @ host) e)
      | Inr [] \<Rightarrow> Inl (Wrap (''host resolved to no addresses: '' @ host) unsafe_url)
      | Inr (a # as) \<Rightarrow>
          if list_ex (is_blocked_ip allow_private) (a # as)
          then Inl (Wrap (''host resolves to disallowed address: '' @ host) unsafe_url)
          else Inr a)"

text \<open>\<open>parsed\<close> is what \<^verbatim>\<open>url.Parse\<close> makes of the text: an error, or the scheme and the host name.\<close>

definition validate_webhook_url ::
  "bool \<Rightarrow> err + (string \<times> string) \<Rightarrow> err + ip list \<Rightarrow> err option" where
  "validate_webhook_url allow_private parsed answer =
     (case parsed of Inl e \<Rightarrow> Some (Wrap ''url parse'' unsafe_url)
      | Inr (scheme, host) \<Rightarrow>
        if scheme \<notin> {''http'', ''https''} then Some (Wrap (''scheme is not allowed: '' @ scheme) unsafe_url)
        else if host = '''' then Some (Wrap ''missing host'' unsafe_url)
        else (case resolve_and_validate allow_private host answer of Inl e \<Rightarrow> Some e | Inr a \<Rightarrow> None))"

section \<open>Registration\<close>

record register_env =
  rg_now :: go_time
  rg_uuid :: string
  rg_secret :: "err + string"
  rg_parsed :: "err + (string \<times> string)"
  rg_resolve :: "err + ip list"
  rg_tenants :: bool
  rg_tenant_q :: "err option"
  rg_count_q :: "err option"
  rg_create_q :: "err option"

definition webhook_limit_hit :: "register_env \<Rightarrow> ctx \<Rightarrow> world \<Rightarrow> hook_state \<Rightarrow> bool" where
  "webhook_limit_hit E c w st \<longleftrightarrow> cx_tenant c \<noteq> '''' \<and> rg_tenants E \<and>
     (case get_tenant (rg_tenant_q E) (cx_tenant c) w of Inl e \<Rightarrow> False
      | Inr t \<Rightarrow> get_webhook_limit t > 0 \<and>
          (case count_by_tenant (rg_count_q E) (cx_tenant c) st of Inl e \<Rightarrow> False
           | Inr n \<Rightarrow> n \<ge> get_webhook_limit t))"

definition register_endpoint ::
  "register_env \<Rightarrow> ctx \<Rightarrow> string \<Rightarrow> string list \<Rightarrow> world \<Rightarrow> hook_state \<Rightarrow> (err + endpoint) \<times> hook_state" where
  "register_endpoint E c url events w st =
     (case validate_webhook_url False (rg_parsed E) (rg_resolve E) of Some e \<Rightarrow> (Inl e, st)
      | None \<Rightarrow>
        if webhook_limit_hit E c w st then (Inl (Dom ErrWebhookLimitReached), st)
        else (case rg_secret E of Inl e \<Rightarrow> (Inl (Wrap ''generate webhook secret'' e), st)
          | Inr secret \<Rightarrow>
            (let p = \<lparr>ep_id = rg_uuid E, ep_tenant = ptr_of (cx_tenant c), ep_url = url, ep_secret = secret,
                      ep_events = events, ep_active = True, ep_created = rg_now E\<rparr> in
             case create_endpoint (rg_create_q E) p st of
               (Some e, st') \<Rightarrow> (Inl (Wrap ''persist webhook endpoint'' e), st')
             | (None, st') \<Rightarrow> (Inr p, st'))))"

definition list_deliveries ::
  "err option \<Rightarrow> ctx \<Rightarrow> string \<Rightarrow> int \<Rightarrow> nat \<Rightarrow> hook_state \<Rightarrow> err + delivery list" where
  "list_deliveries q c i limit offset st =
     list_delivery_rows q i (nat (if limit \<le> 0 \<or> limit > 100 then 20 else limit)) offset (ptr_of (cx_tenant c)) st"

section \<open>Dispatch\<close>

record dispatch_env =
  ds_list_q :: "err option"
  ds_body :: "err + string"
  ds_uuid :: "nat \<Rightarrow> string"
  ds_now :: "nat \<Rightarrow> go_time"
  ds_create_q :: "nat \<Rightarrow> err option"
  ds_queue :: bool
  ds_enqueue_q :: "nat \<Rightarrow> err option"

fun dispatch_each ::
  "(string \<Rightarrow> string option) \<Rightarrow> dispatch_env \<Rightarrow> event \<Rightarrow> string \<Rightarrow> nat \<Rightarrow> endpoint list \<Rightarrow> hook_state
    \<Rightarrow> err option \<times> hook_state" where
  "dispatch_each J E ev body k [] st = (None, st)"
| "dispatch_each J E ev body k (p # ps) st =
     (case create_delivery J (ds_create_q E k)
             \<lparr>dl_id = ds_uuid E k, dl_endpoint = ep_id p, dl_event = ev, dl_payload = body,
              dl_status = DeliveryPending, dl_code = None, dl_attempts = 0, dl_last = None,
              dl_created = ds_now E k\<rparr> st of
        (Some e, st1) \<Rightarrow> (Some (Wrap ''create delivery record'' e), st1)
      | (None, st1) \<Rightarrow> dispatch_each J E ev body (Suc k) ps
          (if ds_queue E \<and> ds_enqueue_q E k = None then st1\<lparr>hk_queue := hk_queue st1 @ [ds_uuid E k]\<rparr> else st1))"

definition dispatch_event ::
  "(string \<Rightarrow> string option) \<Rightarrow> dispatch_env \<Rightarrow> event \<Rightarrow> hook_state \<Rightarrow> err option \<times> hook_state" where
  "dispatch_event J E ev st =
     (case list_active_by_event (ds_list_q E) ev st of
        Inl e \<Rightarrow> (Some (Wrap ''list endpoints for event'' e), st)
      | Inr ps \<Rightarrow> (case ds_body E of Inl e \<Rightarrow> (Some (Wrap ''marshal event payload'' e), st)
        | Inr body \<Rightarrow> dispatch_each J E ev body 0 ps st))"

section \<open>Delivery\<close>

text \<open>
  The \<open>k\<close>-th attempt: whether the context ends during the wait before it, the clock, what the resolver
  answers to the check and, later, to the dial, and what comes back from an address: a network error or
  a status code.
\<close>

record deliver_env =
  de_load_q :: "err option"
  de_endpoint_q :: "err option"
  de_parsed :: "err + (string \<times> string)"
  de_done :: "nat \<Rightarrow> err option"
  de_now :: "nat \<Rightarrow> go_time"
  de_resolve :: "nat \<Rightarrow> err + ip list"
  de_dial :: "nat \<Rightarrow> err + ip list"
  de_answer :: "nat \<Rightarrow> ip \<Rightarrow> err + int"
  de_update_q :: "err option"

definition max_attempts :: nat where "max_attempts = 5"

definition backoff :: "nat \<Rightarrow> int" where
  "backoff k = 2 ^ (k - 1) * second"

definition hook_request ::
  "(string \<Rightarrow> string \<Rightarrow> string) \<Rightarrow> endpoint \<Rightarrow> delivery \<Rightarrow> go_time \<Rightarrow> string \<times> string \<times> string \<times> string \<times> string" where
  "hook_request H p d now =
     (let timestamp = format_int (unix now) in
      (ep_url p, dl_payload d, sign H (ep_secret p) timestamp (dl_payload d), timestamp, event_text (dl_event d)))"

text \<open>The client resolves and checks the host again when it dials, and connects to the checked address.\<close>

definition http_post ::
  "(string \<Rightarrow> string \<Rightarrow> string) \<Rightarrow> bool \<Rightarrow> deliver_env \<Rightarrow> nat \<Rightarrow> endpoint \<Rightarrow> delivery
    \<Rightarrow> (err + int) \<times> hook_effect list" where
  "http_post H allow_private E k p d =
     (case resolve_and_validate allow_private (case de_parsed E of Inl e \<Rightarrow> '''' | Inr x \<Rightarrow> snd x) (de_dial E k) of
        Inl e \<Rightarrow> (Inl e, [])
      | Inr a \<Rightarrow> (de_answer E k a, [Posted a (hook_request H p d (de_now E k))]))"

datatype attempt_end = Retry | Stop | Unsafe err

definition retryable_code :: "int \<Rightarrow> bool" where
  "retryable_code code \<longleftrightarrow> \<not> (200 \<le> code \<and> code < 300) \<and> \<not> (code < 500 \<and> code \<noteq> 429)"

definition deliver_attempt ::
  "(string \<Rightarrow> string \<Rightarrow> string) \<Rightarrow> bool \<Rightarrow> deliver_env \<Rightarrow> nat \<Rightarrow> endpoint \<Rightarrow> delivery
    \<Rightarrow> attempt_end \<times> delivery \<times> hook_effect list" where
  "deliver_attempt H allow_private E k p d0 =
     (let d = d0\<lparr>dl_attempts := dl_attempts d0 + 1, dl_last := Some (de_now E k)\<rparr> in
      case validate_webhook_url allow_private (de_parsed E) (de_resolve E k) of
        Some e \<Rightarrow> (Unsafe (Wrap ''validate webhook destination'' e), d\<lparr>dl_status := DeliveryFailed\<rparr>, [])
      | None \<Rightarrow> (case http_post H allow_private E k p d of
          (Inl e, tr) \<Rightarrow> (Retry, d\<lparr>dl_status := DeliveryFailed\<rparr>, tr)
        | (Inr code, tr) \<Rightarrow>
            (if retryable_code code then Retry else Stop,
             d\<lparr>dl_code := Some code,
               dl_status := (if 200 \<le> code \<and> code < 300 then DeliverySuccess else DeliveryFailed)\<rparr>, tr)))"

text \<open>How the loop is left: at its end or by a break, because the context ended, or for an unsafe URL.\<close>

datatype loop_end = LoopDone | LoopCancelled err | LoopUnsafe err

fun deliver_loop ::
  "(string \<Rightarrow> string \<Rightarrow> string) \<Rightarrow> bool \<Rightarrow> deliver_env \<Rightarrow> endpoint \<Rightarrow> nat \<Rightarrow> nat \<Rightarrow> delivery
    \<Rightarrow> loop_end \<times> delivery \<times> hook_effect list" where
  "deliver_loop H allow_private E p k 0 d = (LoopDone, d, [])"
| "deliver_loop H allow_private E p k (Suc n) d =
     (case (if k = 0 then None else de_done E k) of
        Some e \<Rightarrow> (LoopCancelled e, d, [])
      | None \<Rightarrow>
        (let waits = (if k = 0 then [] else [Waited (backoff k)]) in
         case deliver_attempt H allow_private E k p d of
           (Unsafe e, d1, tr) \<Rightarrow> (LoopUnsafe e, d1, waits @ tr)
         | (Stop, d1, tr) \<Rightarrow> (LoopDone, d1, waits @ tr)
         | (Retry, d1, tr) \<Rightarrow>
             (case deliver_loop H allow_private E p (Suc k) n d1 of
                (r, d2, tr2) \<Rightarrow> (r, d2, waits @ tr @ tr2))))"

definition load_delivery ::
  "deliver_env \<Rightarrow> ctx \<Rightarrow> string \<Rightarrow> hook_state \<Rightarrow> err + (delivery \<times> endpoint)" where
  "load_delivery E c i st =
     (case get_delivery (de_load_q E) i (ptr_of (cx_tenant c)) st of
        Inl e \<Rightarrow> Inl (Wrap ''load delivery'' e)
      | Inr d \<Rightarrow> (case get_endpoint (de_endpoint_q E) (dl_endpoint d) st of
          Inl e \<Rightarrow> Inl (Wrap ''load endpoint'' e) | Inr p \<Rightarrow> Inr (d, p)))"

definition deliver ::
  "(string \<Rightarrow> string \<Rightarrow> string) \<Rightarrow> bool \<Rightarrow> deliver_env \<Rightarrow> ctx \<Rightarrow> string \<Rightarrow> hook_state
    \<Rightarrow> err option \<times> hook_state" where
  "deliver H allow_private E c i st =
     (case load_delivery E c i st of Inl e \<Rightarrow> (Some e, st)
      | Inr (d, p) \<Rightarrow>
        (case deliver_loop H allow_private E p 0 max_attempts d of (r, d', tr) \<Rightarrow>
           (let st1 = st\<lparr>hk_trace := hk_trace st @ tr\<rparr> in
            case r of
              LoopCancelled e \<Rightarrow> (Some e, st1)
            | LoopUnsafe e \<Rightarrow> (Some e, snd (update_delivery (de_update_q E) d' st1))
            | LoopDone \<Rightarrow> (case update_delivery (de_update_q E) d' st1 of
                (Some e, st2) \<Rightarrow> (Some (Wrap ''update delivery record'' e), st2)
              | (None, st2) \<Rightarrow> (None, st2)))))"

section \<open>Facts\<close>

lemma resolve_and_validate_safe:
  assumes "resolve_and_validate False host answer = Inr a"
  shows "\<not> is_blocked_ip False a" and "\<exists>as. answer = Inr (a # as)"
  using assms by (auto simp: resolve_and_validate_def split: sum.splits list.splits if_splits)

lemma resolve_not_internal: "resolve_and_validate False host answer = Inr a \<Longrightarrow> \<not> internal_ip a"
  using resolve_and_validate_safe(1) internal_is_blocked by blast

fun safe_effect :: "hook_effect \<Rightarrow> bool" where
  "safe_effect (Posted a q) = (\<not> internal_ip a)"
| "safe_effect (Waited t) = True"

lemma deliver_attempt_trace:
  assumes "deliver_attempt H False E k p d = (r, d', tr)"
  shows "list_all safe_effect tr"
  using assms resolve_not_internal
  by (auto simp: deliver_attempt_def http_post_def Let_def split: option.splits prod.splits sum.splits)

text \<open>What an attempt with a valid destination gets, which does not depend on the delivery.\<close>

definition attempt_answer :: "bool \<Rightarrow> deliver_env \<Rightarrow> nat \<Rightarrow> err + int" where
  "attempt_answer allow_private E k =
     (case resolve_and_validate allow_private (case de_parsed E of Inl e \<Rightarrow> '''' | Inr x \<Rightarrow> snd x) (de_dial E k) of
        Inl e \<Rightarrow> Inl e | Inr a \<Rightarrow> de_answer E k a)"

definition answer_retried :: "err + int \<Rightarrow> bool" where
  "answer_retried r = (case r of Inl e \<Rightarrow> True | Inr code \<Rightarrow> retryable_code code)"

definition answer_status :: "err + int \<Rightarrow> delivery_status" where
  "answer_status r = (case r of Inl e \<Rightarrow> DeliveryFailed
     | Inr code \<Rightarrow> if 200 \<le> code \<and> code < 300 then DeliverySuccess else DeliveryFailed)"

lemma deliver_attempt_cases:
  assumes "deliver_attempt H al E k p d = (r, d', tr)"
  shows "dl_attempts d' = dl_attempts d + 1" and "dl_id d' = dl_id d" and "length tr \<le> 1"
    and "dl_last d' = Some (de_now E k)" and "list_all (\<lambda>x. \<exists>a q. x = Posted a q) tr"
    and "r = Retry \<Longrightarrow> answer_retried (attempt_answer al E k)"
    and "r = Stop \<Longrightarrow> \<not> answer_retried (attempt_answer al E k)"
    and "r = Retry \<or> r = Stop \<Longrightarrow> dl_status d' = answer_status (attempt_answer al E k)"
  using assms
  by (auto simp: deliver_attempt_def http_post_def Let_def attempt_answer_def answer_retried_def answer_status_def
      hook_request_def split: option.splits sum.splits if_splits)

fun posts :: "hook_effect list \<Rightarrow> nat" where
  "posts [] = 0" | "posts (Posted a q # tr) = Suc (posts tr)" | "posts (Waited t # tr) = posts tr"

fun waited :: "hook_effect list \<Rightarrow> int" where
  "waited [] = 0" | "waited (Posted a q # tr) = waited tr" | "waited (Waited t # tr) = t + waited tr"

lemma posts_append [simp]: "posts (s @ t) = posts s + posts t"
  by (induction s rule: posts.induct) simp_all

lemma waited_append [simp]: "waited (s @ t) = waited s + waited t"
  by (induction s rule: waited.induct) simp_all

lemma posts_attempt: "list_all (\<lambda>x. \<exists>a q. x = Posted a q) tr \<Longrightarrow> posts tr = length tr \<and> waited tr = 0"
  by (induction tr) auto

lemma deliver_loop_safe:
  "deliver_loop H False E p k n d = (r, d', tr) \<Longrightarrow> list_all safe_effect tr"
proof (induction n arbitrary: k d r d' tr)
  case (Suc n)
  show ?case
  proof (cases "if k = 0 then None else de_done E k")
    case (Some e)
    with Suc.prems show ?thesis by simp
  next
    case None
    obtain r1 d1 tr1 where at: "deliver_attempt H False E k p d = (r1, d1, tr1)" by (cases "deliver_attempt H False E k p d")
    obtain r2 d2 tr2 where rest: "deliver_loop H False E p (Suc k) n d1 = (r2, d2, tr2)"
      by (cases "deliver_loop H False E p (Suc k) n d1")
    from Suc.prems None at rest have "tr = (if k = 0 then [] else [Waited (backoff k)]) @ tr1 @ (if r1 = Retry then tr2 else [])"
      by (cases r1) (simp_all add: Let_def)
    with Suc.IH [OF rest] deliver_attempt_trace [OF at] show ?thesis by simp
  qed
qed simp

lemma deliver_loop_bounds:
  "deliver_loop H al E p k n d = (r, d', tr) \<Longrightarrow>
    posts tr \<le> n \<and> waited tr \<le> (if k = 0 then 2 ^ (n - 1) - 1 else 2 ^ (k - 1) * (2 ^ n - 1)) * second"
proof (induction n arbitrary: k d r d' tr)
  case (Suc n)
  let ?b = "\<lambda>k n. (if k = 0 then 2 ^ (n - 1) - 1 else 2 ^ (k - 1) * (2 ^ n - 1)) * second :: int"
  let ?waits = "if k = 0 then [] else [Waited (backoff k)]"
  have pos: "0 \<le> second" by (simp add: second_def)
  have w: "waited ?waits + (if n = 0 then 0 else ?b (Suc k) n) = ?b k (Suc n)"
    by (cases k; cases n) (simp_all add: backoff_def algebra_simps)
  have b0: "0 \<le> ?b (Suc k) n" using pos by simp
  show ?case
  proof (cases "if k = 0 then None else de_done E k")
    case (Some e)
    with Suc.prems pos show ?thesis by (auto split: if_splits)
  next
    case None
    obtain r1 d1 tr1 where at: "deliver_attempt H al E k p d = (r1, d1, tr1)" by (cases "deliver_attempt H al E k p d")
    from posts_attempt [OF deliver_attempt_cases(5) [OF at]] deliver_attempt_cases(3) [OF at]
    have tr1: "posts tr1 \<le> 1" "waited tr1 = 0" by simp_all
    have pw: "posts ?waits = 0" by simp
    show ?thesis
    proof (cases "r1 = Retry")
      case True
      obtain r2 d2 tr2 where rest: "deliver_loop H al E p (Suc k) n d1 = (r2, d2, tr2)"
        by (cases "deliver_loop H al E p (Suc k) n d1")
      from Suc.prems None True at rest have tr: "tr = ?waits @ tr1 @ tr2" by (simp add: Let_def)
      note IH = Suc.IH [OF rest]
      have "waited tr2 \<le> (if n = 0 then 0 else ?b (Suc k) n)"
        using IH rest by (cases "n = 0") auto
      with IH w tr1 pw show ?thesis unfolding tr by simp
    next
      case False
      with Suc.prems None at have tr: "tr = ?waits @ tr1" by (cases r1) (simp_all add: Let_def)
      have "0 \<le> (if n = 0 then 0 else ?b (Suc k) n)" using b0 by simp
      with w tr1 pw show ?thesis unfolding tr by simp
    qed
  qed
qed simp

lemma deliver_loop_done:
  "deliver_loop H al E p k n d = (LoopDone, d', tr) \<Longrightarrow> 0 < n \<Longrightarrow>
    \<exists>m < n. dl_attempts d' = dl_attempts d + int m + 1 \<and> (\<forall>j < m. answer_retried (attempt_answer al E (k + j)))
      \<and> (Suc m < n \<longrightarrow> \<not> answer_retried (attempt_answer al E (k + m)))
      \<and> dl_status d' = answer_status (attempt_answer al E (k + m)) \<and> dl_last d' = Some (de_now E (k + m))"
proof (induction n arbitrary: k d d' tr)
  case (Suc n)
  from Suc.prems(1) have go: "(if k = 0 then None else de_done E k) = None" by (auto split: option.splits)
  obtain r1 d1 tr1 where at: "deliver_attempt H al E k p d = (r1, d1, tr1)" by (cases "deliver_attempt H al E k p d")
  note f = deliver_attempt_cases [OF at]
  show ?case
  proof (cases r1)
    case (Unsafe e)
    with Suc.prems(1) go at show ?thesis by (simp add: Let_def)
  next
    case Stop
    with Suc.prems(1) go at have "d' = d1" by (simp add: Let_def)
    with f Stop show ?thesis by (intro exI [of _ 0]) simp
  next
    case Retry
    from Suc.prems(1) go at Retry obtain tr2 where rest: "deliver_loop H al E p (Suc k) n d1 = (LoopDone, d', tr2)"
      by (auto simp: Let_def split: prod.splits)
    show ?thesis
    proof (cases "n = 0")
      case True
      with rest f Retry show ?thesis by (intro exI [of _ 0]) simp
    next
      case False
      with Suc.IH [OF rest] obtain m where m: "m < n" "dl_attempts d' = dl_attempts d1 + int m + 1"
        "\<forall>j < m. answer_retried (attempt_answer al E (Suc k + j))"
        "Suc m < n \<longrightarrow> \<not> answer_retried (attempt_answer al E (Suc k + m))"
        "dl_status d' = answer_status (attempt_answer al E (Suc k + m))" "dl_last d' = Some (de_now E (Suc k + m))" by auto
      have "\<forall>j < Suc m. answer_retried (attempt_answer al E (k + j))"
        using m(3) f(6) Retry by (auto simp: less_Suc_eq_0_disj)
      with m f(1) show ?thesis by (intro exI [of _ "Suc m"]) simp
    qed
  qed
qed simp

lemma deliver_trace:
  assumes "deliver H al E c i st = (r, st')"
  obtains "hk_trace st' = hk_trace st"
  | d p l d' tr where "deliver_loop H al E p 0 max_attempts d = (l, d', tr)" "hk_trace st' = hk_trace st @ tr"
proof (cases "load_delivery E c i st")
  case (Inl e)
  with assms that(1) show ?thesis by (simp add: deliver_def)
next
  case (Inr x)
  obtain d p where x: "x = (d, p)" by (cases x)
  obtain l d' tr where loop: "deliver_loop H al E p 0 max_attempts d = (l, d', tr)"
    by (cases "deliver_loop H al E p 0 max_attempts d")
  have up: "hk_trace (snd (update_delivery q d' s)) = hk_trace s" for q s
    by (simp add: update_delivery_def split: option.split)
  have "hk_trace st' = hk_trace st @ tr"
  proof (cases l)
    case LoopDone
    then show ?thesis
      using assms Inr loop x up [of "de_update_q E" "st\<lparr>hk_trace := hk_trace st @ tr\<rparr>"]
      by (auto simp: deliver_def Let_def split: prod.splits option.splits)
  next
    case (LoopUnsafe e)
    then show ?thesis using assms Inr loop x up by (auto simp: deliver_def Let_def)
  qed (use assms Inr loop x in \<open>auto simp: deliver_def Let_def\<close>)
  with loop that(2) show ?thesis by blast
qed

lemma dispatch_each_rows:
  "dispatch_each J E ev body k ps st = (None, st') \<Longrightarrow>
    \<exists>ds. hk_deliveries st' = hk_deliveries st @ ds \<and> map dl_endpoint ds = map ep_id ps
      \<and> (\<forall>d \<in> set ds. dl_event d = ev \<and> dl_status d = DeliveryPending \<and> Some (dl_payload d) = J body)
      \<and> (ds_queue E \<and> ds_enqueue_q E = (\<lambda>_. None) \<longrightarrow> hk_queue st' = hk_queue st @ map dl_id ds)"
proof (induction ps arbitrary: k st)
  case (Cons p ps)
  let ?d = "\<lparr>dl_id = ds_uuid E k, dl_endpoint = ep_id p, dl_event = ev, dl_payload = body,
      dl_status = DeliveryPending, dl_code = None, dl_attempts = 0, dl_last = None, dl_created = ds_now E k\<rparr>"
  from Cons.prems obtain st1 where c: "create_delivery J (ds_create_q E k) ?d st = (None, st1)"
    by (auto split: prod.splits option.splits)
  let ?st1 = "if ds_queue E \<and> ds_enqueue_q E k = None then st1\<lparr>hk_queue := hk_queue st1 @ [ds_uuid E k]\<rparr> else st1"
  from c obtain b where st1: "J body = Some b" "st1 = st\<lparr>hk_deliveries := hk_deliveries st @ [?d\<lparr>dl_payload := b\<rparr>]\<rparr>"
    by (auto simp: create_delivery_def Let_def split: option.splits if_splits)
  from Cons.prems c have "dispatch_each J E ev body (Suc k) ps ?st1 = (None, st')" by simp
  from Cons.IH [OF this] obtain ds where
    ds: "hk_deliveries st' = hk_deliveries ?st1 @ ds" "map dl_endpoint ds = map ep_id ps"
    "\<forall>d \<in> set ds. dl_event d = ev \<and> dl_status d = DeliveryPending \<and> Some (dl_payload d) = J body"
    "ds_queue E \<and> ds_enqueue_q E = (\<lambda>_. None) \<longrightarrow> hk_queue st' = hk_queue ?st1 @ map dl_id ds" by blast
  show ?case by (rule exI [of _ "?d\<lparr>dl_payload := b\<rparr> # ds"]) (use ds st1 in auto)
qed simp

section \<open>Properties\<close>

definition sample_endpoint :: "string \<Rightarrow> string option \<Rightarrow> endpoint" where
  "sample_endpoint i t = \<lparr>ep_id = i, ep_tenant = t, ep_url = ''https://hooks.example/'', ep_secret = ''k'',
     ep_events = [], ep_active = True, ep_created = 0\<rparr>"

definition sample_delivery :: delivery where
  "sample_delivery = \<lparr>dl_id = ''d'', dl_endpoint = ''p'', dl_event = EventTransferSettled, dl_payload = ''{}'',
     dl_status = DeliveryPending, dl_code = None, dl_attempts = 0, dl_last = None, dl_created = 0\<rparr>"

definition sample_hooks :: hook_state where
  "sample_hooks = \<lparr>hk_endpoints = [sample_endpoint ''p'' (Some ''one''), sample_endpoint ''q'' (Some ''two'')],
     hk_deliveries = [sample_delivery], hk_webhooks = None, hk_queue = [], hk_trace = []\<rparr>"

text \<open>A public address at the check; at the dial the name points to the local host. The peer answers 200.\<close>

definition sample_deliver_env :: "ip \<Rightarrow> deliver_env" where
  "sample_deliver_env rebound = \<lparr>de_load_q = None, de_endpoint_q = None,
     de_parsed = Inr (''https'', ''hooks.example''), de_done = (\<lambda>_. None), de_now = (\<lambda>k. int k * second),
     de_resolve = (\<lambda>_. Inr [[93, 184, 216, 34]]), de_dial = (\<lambda>_. Inr [rebound]),
     de_answer = (\<lambda>_ _. Inr 200), de_update_q = None\<rparr>"

lemmas sample_hook_defs = sample_endpoint_def sample_delivery_def sample_hooks_def sample_deliver_env_def

text \<open>
  C20: a delivery never connects to an address of 10/8, 127/8, 169.254/16, 172.16/12, 192.168/16, 224/4 or to
  0.0.0.0, plain or in its IPv6 form, nor to ::, ::1, fe80::/10, fc00::/7 or ff00::/8, whatever the resolver
  answers to the check and, later, to each dial.
\<close>

theorem delivery_avoids_internal_addresses:
  assumes "deliver H False E c i st = (r, st')"
  shows "\<exists>tr. hk_trace st' = hk_trace st @ tr \<and> (\<forall>a q. Posted a q \<in> set tr \<longrightarrow> \<not> internal_ip a)"
  using assms
proof (cases rule: deliver_trace)
  case 1
  then show ?thesis by simp
next
  case (2 d p l d' tr)
  from deliver_loop_safe [OF 2(1)] have "\<forall>a q. Posted a q \<in> set tr \<longrightarrow> \<not> internal_ip a"
    by (auto simp: list_all_iff)
  with 2 show ?thesis by blast
qed

lemma delivery_avoids_internal_addresses_witness:
  "\<exists>q. hk_trace (snd (deliver sample_hash False (sample_deliver_env [93, 184, 216, 34]) no_tenant ''d'' sample_hooks))
     = [Posted [93, 184, 216, 34] q] \<and> \<not> internal_ip [93, 184, 216, 34]"
proof -
  let ?tr = "hk_trace (snd (deliver sample_hash False (sample_deliver_env [93, 184, 216, 34]) no_tenant ''d'' sample_hooks))"
  have "map (\<lambda>x. case x of Posted a q \<Rightarrow> Some a | Waited t \<Rightarrow> None) ?tr = [Some [93, 184, 216, 34]]" by code_simp
  then obtain q where q: "?tr = [Posted [93, 184, 216, 34] q]" by (auto split: hook_effect.splits)
  moreover have "hk_trace sample_hooks = []" by (simp add: sample_hooks_def)
  ultimately have "\<not> internal_ip [93, 184, 216, 34]"
    using delivery_avoids_internal_addresses [OF surjective_pairing, of sample_hash
      "sample_deliver_env [93, 184, 216, 34]" no_tenant "''d''" sample_hooks] by (metis append_Nil list.set_intros(1))
  with q show ?thesis by blast
qed

text \<open>
  A delivery posts at most five times and waits at most fifteen seconds between its attempts.
\<close>

theorem delivery_is_bounded:
  assumes "deliver H al E c i st = (r, st')"
  shows "\<exists>tr. hk_trace st' = hk_trace st @ tr \<and> posts tr \<le> 5 \<and> waited tr \<le> 15 * second"
  using assms
proof (cases rule: deliver_trace)
  case 1
  then show ?thesis by (intro exI [of _ "[]"]) (simp add: second_def)
next
  case (2 d p l d' tr)
  with deliver_loop_bounds [OF 2(1)] show ?thesis by (auto simp: max_attempts_def)
qed

lemma delivery_is_bounded_witness:
  "\<exists>tr. hk_trace (snd (deliver sample_hash False ((sample_deliver_env [93, 184, 216, 34])\<lparr>de_answer := \<lambda>_ _. Inr 503\<rparr>)
     no_tenant ''d'' sample_hooks)) = tr \<and> posts tr \<le> 5 \<and> waited tr \<le> 15 * second"
  using delivery_is_bounded [OF surjective_pairing, of sample_hash False
      "(sample_deliver_env [93, 184, 216, 34])\<lparr>de_answer := \<lambda>_ _. Inr 503\<rparr>" no_tenant "''d''" sample_hooks]
  by (simp add: sample_hooks_def)

text \<open>
  A delivery that reports success has made one to five attempts: all but the last ended in a network
  error, a 5xx or a 429, and the last one did not unless it was the fifth. The row says how the last
  attempt ended and counts the attempts.
\<close>

theorem delivery_outcome:
  assumes "deliver H al E c i st = (None, st')" and "load_delivery E c i st = Inr (d, p)"
  shows "\<exists>m < 5. (\<forall>j < m. answer_retried (attempt_answer al E j)) \<and>
    (m < 4 \<longrightarrow> \<not> answer_retried (attempt_answer al E m)) \<and>
    (\<exists>r. row_with dl_id i (hk_deliveries st') = Some r \<and> dl_status r = answer_status (attempt_answer al E m) \<and>
       dl_attempts r = dl_attempts d + int m + 1 \<and> dl_last r = Some (de_now E m))"
proof -
  obtain l d' tr where loop: "deliver_loop H al E p 0 max_attempts d = (l, d', tr)"
    by (cases "deliver_loop H al E p 0 max_attempts d")
  let ?st = "st\<lparr>hk_trace := hk_trace st @ tr\<rparr>"
  from assms loop have l: "l = LoopDone" by (cases l) (simp_all add: deliver_def Let_def)
  with assms loop have up: "update_delivery (de_update_q E) d' ?st = (None, st')"
    by (auto simp: deliver_def Let_def split: prod.splits option.splits)
  from deliver_loop_done [OF loop [unfolded l]] obtain m where m: "m < 5"
    "dl_attempts d' = dl_attempts d + int m + 1" "\<forall>j < m. answer_retried (attempt_answer al E j)"
    "Suc m < 5 \<longrightarrow> \<not> answer_retried (attempt_answer al E m)"
    "dl_status d' = answer_status (attempt_answer al E m)" "dl_last d' = Some (de_now E m)"
    by (auto simp: max_attempts_def)
  from assms(2) have "d \<in> set (hk_deliveries st)" "dl_id d = i"
    by (auto simp: load_delivery_def get_delivery_def find_Some_iff split: sum.splits option.splits)
  then obtain x where x: "row_with dl_id i (hk_deliveries st) = Some x"
    by (cases "row_with dl_id i (hk_deliveries st)") (auto simp: row_with_None)
  have "dl_id d' = i"
  proof -
    have "deliver_loop H al E p k n y = (r, y', s) \<Longrightarrow> dl_id y' = dl_id y" for k n y r y' s
    proof (induction n arbitrary: k y r y' s)
      case (Suc n)
      then show ?case
        by (auto simp: Let_def deliver_attempt_def http_post_def split: option.splits prod.splits sum.splits if_splits)
    qed simp
    with loop \<open>dl_id d = i\<close> show ?thesis by metis
  qed
  moreover from x have "dl_id x = i" by (auto dest: row_with_SomeD)
  ultimately have "\<exists>r. row_with dl_id i (hk_deliveries st') = Some r \<and> dl_status r = dl_status d' \<and>
      dl_attempts r = dl_attempts d' \<and> dl_last r = dl_last d'"
    using up x by (auto simp: update_delivery_def row_with_update_where split: option.splits)
  with m show ?thesis by (intro exI [of _ m]) auto
qed

lemma delivery_outcome_witness:
  "\<exists>m < 5. (m < 4 \<longrightarrow> \<not> answer_retried (attempt_answer False (sample_deliver_env [93, 184, 216, 34]) m))"
proof -
  let ?E = "sample_deliver_env [93, 184, 216, 34]"
  have l: "load_delivery ?E no_tenant ''d'' sample_hooks = Inr (sample_delivery, sample_endpoint ''p'' (Some ''one''))"
    by code_simp
  have "fst (deliver sample_hash False ?E no_tenant ''d'' sample_hooks) = None" by code_simp
  then have "deliver sample_hash False ?E no_tenant ''d'' sample_hooks
    = (None, snd (deliver sample_hash False ?E no_tenant ''d'' sample_hooks))" by (metis prod.collapse)
  from delivery_outcome [OF this l] show ?thesis by auto
qed

text \<open>
  An event dispatched without an error becomes one pending delivery, queued where the queue works,
  for every active endpoint that subscribed to it. The endpoints of all tenants are served: the tenant
  the event belongs to is not looked at.
\<close>

theorem dispatch_serves_all_tenants:
  assumes "dispatch_event J E ev st = (None, st')"
  shows "\<exists>ds body. ds_body E = Inr body \<and> hk_deliveries st' = hk_deliveries st @ ds \<and>
    map dl_endpoint ds = map ep_id (sort_key ep_created (filter (subscribed ev) (hk_endpoints st))) \<and>
    (\<forall>d \<in> set ds. dl_event d = ev \<and> dl_status d = DeliveryPending \<and> Some (dl_payload d) = J body) \<and>
    (ds_queue E \<and> ds_enqueue_q E = (\<lambda>_. None) \<longrightarrow> hk_queue st' = hk_queue st @ map dl_id ds)"
proof -
  from assms obtain body where "ds_body E = Inr body"
    "dispatch_each J E ev body 0 (sort_key ep_created (filter (subscribed ev) (hk_endpoints st))) st = (None, st')"
    by (auto simp: dispatch_event_def list_active_by_event_def split: sum.splits option.splits)
  with dispatch_each_rows [OF this(2)] show ?thesis by blast
qed

definition sample_dispatch :: dispatch_env where
  "sample_dispatch = \<lparr>ds_list_q = None, ds_body = Inr ''{}'', ds_uuid = (\<lambda>k. CHR ''n'' # digits k), ds_now = (\<lambda>_. 0),
     ds_create_q = (\<lambda>_. None), ds_queue = True, ds_enqueue_q = (\<lambda>_. None)\<rparr>"

lemma dispatch_serves_all_tenants_witness:
  "\<exists>ds. hk_deliveries (snd (dispatch_event Some sample_dispatch EventTransferSettled sample_hooks)) = sample_delivery # ds \<and>
     map dl_endpoint ds = [''p'', ''q'']"
proof -
  have "fst (dispatch_event Some sample_dispatch EventTransferSettled sample_hooks) = None" by code_simp
  then have "dispatch_event Some sample_dispatch EventTransferSettled sample_hooks
    = (None, snd (dispatch_event Some sample_dispatch EventTransferSettled sample_hooks))" by (metis prod.collapse)
  from dispatch_serves_all_tenants [OF this] show ?thesis
    by (auto simp: sample_hook_defs subscribed_def)
qed

text \<open>
  With the tables of the migrations the limit on a tenant's webhooks has no effect: the query that
  counts them reads a table that does not exist, and the error is taken for no limit.
\<close>

theorem webhook_limit_ignored:
  assumes "hk_webhooks st = None"
  shows "register_endpoint E c url events w st = register_endpoint (E\<lparr>rg_tenants := False\<rparr>) c url events w st"
proof -
  have "\<not> webhook_limit_hit E c w st" for E
    using assms by (auto simp: webhook_limit_hit_def count_by_tenant_def split: sum.splits option.splits)
  then show ?thesis
    by (cases "validate_webhook_url False (rg_parsed E) (rg_resolve E)"; cases "rg_secret E")
       (simp_all add: register_endpoint_def Let_def)
qed

lemma webhook_limit_ignored_witness:
  "fst (register_endpoint \<lparr>rg_now = 0, rg_uuid = ''n'', rg_secret = Inr ''s'', rg_parsed = Inr (''https'', ''h''),
      rg_resolve = Inr [[93, 184, 216, 34]], rg_tenants = True, rg_tenant_q = None, rg_count_q = None,
      rg_create_q = None\<rparr> no_tenant ''u'' [] empty_world sample_hooks)
    = fst (register_endpoint \<lparr>rg_now = 0, rg_uuid = ''n'', rg_secret = Inr ''s'', rg_parsed = Inr (''https'', ''h''),
      rg_resolve = Inr [[93, 184, 216, 34]], rg_tenants = False, rg_tenant_q = None, rg_count_q = None,
      rg_create_q = None\<rparr> no_tenant ''u'' [] empty_world sample_hooks)"
proof -
  have "hk_webhooks sample_hooks = None" by (simp add: sample_hooks_def)
  from arg_cong [where f = fst, OF webhook_limit_ignored [OF this]] show ?thesis by (rule trans) simp
qed

end
