(* ===== verification/Fx.thy ===== *)
theory Fx
  imports Transfers Xdc
begin

text \<open>
  \<^verbatim>\<open>internal/fx\<close>: rates from a list of providers behind a cache, quotes with a lifetime that can be used
  once, and their execution, with \<^verbatim>\<open>internal/postgres/fx_quote_repo.go\<close> and
  \<^verbatim>\<open>conversion_repo.go\<close>. Redis is a list of entries with their expiry; the Lua script that claims a
  quote is one step. Values survive their JSON encoding.
\<close>

section \<open>Data\<close>

record quote =
  qu_id :: string
  qu_org :: string
  qu_from :: string
  qu_to :: string
  qu_from_amount :: decimal
  qu_to_amount :: decimal
  qu_rate :: decimal
  qu_fee :: decimal
  qu_expires :: go_time
  qu_used :: bool

record rate_response =
  rr_rate :: decimal
  rr_mid :: decimal
  rr_spread :: int
  rr_provider :: string
  rr_cached :: go_time
  rr_stale :: bool

record conversion =
  cv_id :: string
  cv_wallet :: string
  cv_source :: string
  cv_dest :: string
  cv_source_amount :: decimal
  cv_dest_amount :: decimal
  cv_fee :: decimal
  cv_rate :: decimal
  cv_hash :: string
  cv_created :: go_time

record audit_row =
  au_quote :: quote
  au_used :: bool
  au_conversion :: string

text \<open>
  The state: cached rates and stored quotes with the time they expire, the audit table, the
  conversions, the pairs that are refreshed, and what was sent on the XDC network.
\<close>

record fx_state =
  fx_rates :: "((string \<times> string) \<times> rate_response \<times> go_time) list"
  fx_quotes :: "(quote \<times> go_time) list"
  fx_audit :: "audit_row list"
  fx_conversions :: "conversion list"
  fx_pairs :: "(string \<times> string) list"
  fx_sent :: "(string \<times> int) list"

definition quote_ttl :: int where "quote_ttl = 5 * minute"
definition rate_ttl :: int where "rate_ttl = 60 * second"

section \<open>Rates\<close>

definition rate_key :: "string \<Rightarrow> string \<Rightarrow> string" where
  "rate_key from to = from @ ''-'' @ to"

text \<open>A provider: its name, the pairs it supports, and its answer for a pair.\<close>

record provider =
  pv_name :: string
  pv_pairs :: "string list"
  pv_rate :: "string \<Rightarrow> string \<Rightarrow> err + decimal"

definition with_spread :: "decimal_pkg \<Rightarrow> int \<Rightarrow> decimal \<Rightarrow> decimal" where
  "with_spread D spread mid = mid * (1 + d_div D (of_int spread) 10000)"

fun fetch_rate ::
  "decimal_pkg \<Rightarrow> int \<Rightarrow> go_time \<Rightarrow> string \<Rightarrow> string \<Rightarrow> err option \<Rightarrow> provider list \<Rightarrow> err + rate_response" where
  "fetch_rate D spread now from to prev [] =
     (case prev of Some e \<Rightarrow> Inl (Wrap (rate_key from to) e)
      | None \<Rightarrow> Inl (Wrap (rate_key from to) (Dom ErrUnsupportedPair)))"
| "fetch_rate D spread now from to prev (p # ps) =
     (if rate_key from to \<notin> set (pv_pairs p) then fetch_rate D spread now from to prev ps
      else case pv_rate p from to of
        Inl e \<Rightarrow> fetch_rate D spread now from to (Some e) ps
      | Inr mid \<Rightarrow> Inr \<lparr>rr_rate = with_spread D spread mid, rr_mid = mid, rr_spread = spread,
          rr_provider = pv_name p, rr_cached = now, rr_stale = False\<rparr>)"

text \<open>A Redis entry is there until it expires; an error of the server reads as its absence.\<close>

definition cached_rate :: "bool \<Rightarrow> go_time \<Rightarrow> string \<Rightarrow> string \<Rightarrow> fx_state \<Rightarrow> rate_response option" where
  "cached_rate up now from to st =
     (case find (\<lambda>x. fst x = (from, to) \<and> now < snd (snd x)) (fx_rates st) of
        None \<Rightarrow> None | Some x \<Rightarrow> if up then Some (fst (snd x)) else None)"

definition store_rate :: "bool \<Rightarrow> go_time \<Rightarrow> string \<Rightarrow> string \<Rightarrow> rate_response \<Rightarrow> fx_state \<Rightarrow> fx_state" where
  "store_rate up now from to r st =
     (if up then st\<lparr>fx_rates := ((from, to), r, now + rate_ttl) # filter (\<lambda>x. fst x \<noteq> (from, to)) (fx_rates st)\<rparr>
      else st)"

record fx_env =
  fe_now :: go_time
  fe_uuid :: string
  fe_redis :: bool
  fe_lost :: bool
  fe_redis_error :: err
  fe_fee_q :: "nat \<Rightarrow> err option"
  fe_audit :: bool
  fe_audit_q :: "err option"
  fe_wallet_q :: "err option"
  fe_wallet_q2 :: "err option"
  fe_create_q :: "err option"
  fe_chain :: bool
  fe_transfer :: "err + string"
  fe_transfer_sent :: bool

definition get_rates ::
  "decimal_pkg \<Rightarrow> int \<Rightarrow> provider list \<Rightarrow> fx_env \<Rightarrow> string \<Rightarrow> string \<Rightarrow> fx_state
    \<Rightarrow> (err + rate_response) \<times> fx_state" where
  "get_rates D spread ps E from to st =
     (case cached_rate (fe_redis E) (fe_now E) from to st of Some r \<Rightarrow> (Inr r, st)
      | None \<Rightarrow> (case fetch_rate D spread (fe_now E) from to None ps of Inl e \<Rightarrow> (Inl e, st)
        | Inr r \<Rightarrow> (let st1 = store_rate (fe_redis E) (fe_now E) from to r st in
            (Inr r, st1\<lparr>fx_pairs := List.insert (from, to) (fx_pairs st1)\<rparr>))))"

text \<open>One tick of the background refresh, over the registered pairs.\<close>

fun refresh_pairs ::
  "decimal_pkg \<Rightarrow> int \<Rightarrow> provider list \<Rightarrow> fx_env \<Rightarrow> (string \<times> string) list \<Rightarrow> fx_state \<Rightarrow> fx_state" where
  "refresh_pairs D spread ps E [] st = st"
| "refresh_pairs D spread ps E ((from, to) # pairs) st =
     refresh_pairs D spread ps E pairs
       (case fetch_rate D spread (fe_now E) from to None ps of Inl e \<Rightarrow> st
        | Inr r \<Rightarrow> store_rate (fe_redis E) (fe_now E) from to r st)"

section \<open>Quotes\<close>

definition create_audit :: "numeric_col \<Rightarrow> err option \<Rightarrow> quote \<Rightarrow> fx_state \<Rightarrow> fx_state" where
  "create_audit N q u st =
     (case (q, N 20 7 (qu_from_amount u), N 20 7 (qu_to_amount u), N 20 10 (qu_rate u), N 20 7 (qu_fee u)) of
        (None, Some a, Some b, Some r, Some f) \<Rightarrow>
          if \<exists>x \<in> set (fx_audit st). qu_id (au_quote x) = qu_id u then st
          else st\<lparr>fx_audit := fx_audit st @ [\<lparr>au_quote = u\<lparr>qu_from_amount := a, qu_to_amount := b, qu_rate := r,
             qu_fee := f\<rparr>, au_used = False, au_conversion = ''''\<rparr>]\<rparr>
      | _ \<Rightarrow> st)"

definition mark_quote_used :: "err option \<Rightarrow> string \<Rightarrow> string \<Rightarrow> fx_state \<Rightarrow> fx_state" where
  "mark_quote_used q i conv st =
     (if q = None then st\<lparr>fx_audit := update_where (\<lambda>x. qu_id (au_quote x) = i)
        (\<lambda>x. x\<lparr>au_used := True, au_conversion := conv\<rparr>) (fx_audit st)\<rparr> else st)"

definition get_quote ::
  "decimal_pkg \<Rightarrow> numeric_col \<Rightarrow> int \<Rightarrow> provider list \<Rightarrow> ctx \<Rightarrow> fx_env \<Rightarrow> string \<Rightarrow> string \<Rightarrow> string \<Rightarrow> world
    \<Rightarrow> fx_state \<Rightarrow> (err + quote) \<times> fx_state" where
  "get_quote D N spread ps c E from to amount w st =
     (case get_rates D spread ps E from to st of (Inl e, st1) \<Rightarrow> (Inl e, st1)
      | (Inr r, st1) \<Rightarrow> (case d_parse D amount of None \<Rightarrow> (Inl (Dom ErrInvalidAsset), st1)
        | Some a \<Rightarrow>
          if a \<le> 0 then (Inl (Dom ErrInvalidQuoteAmount), st1)
          else (let fee = (case calculate_conversion_fee D (fe_fee_q E) (cx_tenant c) from a w of
                      Inl e \<Rightarrow> 0 | Inr f \<Rightarrow> tf_amount f);
                    u = \<lparr>qu_id = fe_uuid E, qu_org = cx_tenant c, qu_from = from, qu_to = to,
                      qu_from_amount = a, qu_to_amount = a * rr_rate r, qu_rate = rr_rate r, qu_fee = fee,
                      qu_expires = fe_now E + quote_ttl, qu_used = False\<rparr>
                in if \<not> fe_redis E then (Inl (Wrap ''store quote'' (fe_redis_error E)), st1)
                   else (let st2 = st1\<lparr>fx_quotes := (u, fe_now E + quote_ttl) #
                               filter (\<lambda>x. qu_id (fst x) \<noteq> qu_id u) (fx_quotes st1)\<rparr>
                         in (Inr u, if fe_audit E then create_audit N (fe_audit_q E) u st2 else st2)))))"

text \<open>
  The script \<^verbatim>\<open>markUsedScript\<close>: absent or expired, already used, or marked and returned as it was.
\<close>

definition quote_at :: "go_time \<Rightarrow> string \<Rightarrow> fx_state \<Rightarrow> quote option" where
  "quote_at now i st = map_option fst (find (\<lambda>x. qu_id (fst x) = i \<and> now < snd x) (fx_quotes st))"

definition mark_used :: "go_time \<Rightarrow> string \<Rightarrow> fx_state \<Rightarrow> (err + quote) \<times> fx_state" where
  "mark_used now i st =
     (case quote_at now i st of None \<Rightarrow> (Inl (Dom ErrQuoteExpired), st)
      | Some u \<Rightarrow> if qu_used u then (Inl (Dom ErrQuoteAlreadyUsed), st)
          else (Inr u, st\<lparr>fx_quotes := update_where (\<lambda>x. qu_id (fst x) = i \<and> now < snd x)
             (\<lambda>x. ((fst x)\<lparr>qu_used := True\<rparr>, snd x)) (fx_quotes st)\<rparr>))"

text \<open>If the call fails, the script may have run all the same, with its reply lost.\<close>

definition claim_quote :: "bool \<Rightarrow> bool \<Rightarrow> err \<Rightarrow> go_time \<Rightarrow> string \<Rightarrow> fx_state \<Rightarrow> (err + quote) \<times> fx_state" where
  "claim_quote up lost down now i st =
     (case mark_used now i st of (r, st1) \<Rightarrow>
        if up then (r, st1) else (Inl (Wrap ''claim quote'' down), if lost then st1 else st))"

section \<open>Execution\<close>

definition create_conversion ::
  "numeric_col \<Rightarrow> err option \<Rightarrow> conversion \<Rightarrow> world \<Rightarrow> fx_state \<Rightarrow> err option \<times> fx_state" where
  "create_conversion N q v w st =
     (let failed = (\<lambda>e. (Some (Wrap ''insert conversion'' e), st)) in
      case q of Some e \<Rightarrow> failed e
      | None \<Rightarrow> (case (N 20 7 (cv_source_amount v), N 20 7 (cv_dest_amount v), N 20 7 (cv_fee v), N 20 10 (cv_rate v)) of
          (Some a, Some b, Some f, Some r) \<Rightarrow>
            if \<exists>x \<in> set (fx_conversions st). cv_id x = cv_id v \<or> cv_hash v \<noteq> '''' \<and> cv_hash x = cv_hash v
            then failed unique_violation
            else if \<not> (\<exists>x \<in> set (w_wallets w). wa_id x = cv_wallet v) then failed foreign_key_violation
            else (None, st\<lparr>fx_conversions := fx_conversions st @ [v\<lparr>cv_source_amount := a, cv_dest_amount := b,
              cv_fee := f, cv_rate := r\<rparr>]\<rparr>)
        | _ \<Rightarrow> failed numeric_overflow))"

text \<open>
  The amount of the transfer: \<^verbatim>\<open>StringFixed(0)\<close> of the amount, read as an integer number of wei.
\<close>

definition payout_wei :: "decimal_pkg \<Rightarrow> quote \<Rightarrow> int" where
  "payout_wei D u = \<lfloor>d_round D (qu_to_amount u) 0\<rfloor>"

definition pay_out ::
  "decimal_pkg \<Rightarrow> ctx \<Rightarrow> fx_env \<Rightarrow> string \<Rightarrow> quote \<Rightarrow> world \<Rightarrow> fx_state \<Rightarrow> string \<times> fx_state" where
  "pay_out D c E wid u w st =
     (if \<not> fe_chain E then ('''', st)
      else case get_wallet c (fe_wallet_q2 E) wid w of Inl e \<Rightarrow> ('''', st)
      | Inr x \<Rightarrow> if wa_public_key x = '''' then ('''', st)
          else (case fe_transfer E of Inl e \<Rightarrow> '''' | Inr h \<Rightarrow> h,
                if fe_transfer_sent E then st\<lparr>fx_sent := fx_sent st @ [(xdc_normalize (wa_public_key x), payout_wei D u)]\<rparr>
                else st))"

definition execute_conversion ::
  "decimal_pkg \<Rightarrow> numeric_col \<Rightarrow> ctx \<Rightarrow> fx_env \<Rightarrow> string \<Rightarrow> string \<Rightarrow> world \<Rightarrow> fx_state
    \<Rightarrow> (err + conversion) \<times> fx_state" where
  "execute_conversion D N c E wid i w st =
     (case get_wallet c (fe_wallet_q E) wid w of Inl e \<Rightarrow> (Inl e, st)
      | Inr x \<Rightarrow> (case claim_quote (fe_redis E) (fe_lost E) (fe_redis_error E) (fe_now E) i st of (Inl e, st1) \<Rightarrow> (Inl e, st1)
        | (Inr u, st1) \<Rightarrow>
          if wa_tenant x \<noteq> Some (qu_org u) then (Inl (Dom ErrQuoteOwnershipMismatch), st1)
          else if qu_expires u < fe_now E then (Inl (Dom ErrQuoteExpired), st1)
          else if qu_from_amount u \<le> 0 \<or> qu_to_amount u \<le> 0 then (Inl (Dom ErrInvalidQuoteAmount), st1)
          else (let v = \<lparr>cv_id = fe_uuid E, cv_wallet = wid, cv_source = qu_from u, cv_dest = qu_to u,
                      cv_source_amount = qu_from_amount u, cv_dest_amount = qu_to_amount u, cv_fee = qu_fee u,
                      cv_rate = qu_rate u, cv_hash = '''', cv_created = fe_now E\<rparr> in
                case create_conversion N (fe_create_q E) v w st1 of
                  (Some e, st2) \<Rightarrow> (Inl (Wrap ''persist conversion'' e), st2)
                | (None, st2) \<Rightarrow> (case pay_out D c E wid u w st2 of (h, st3) \<Rightarrow>
                    (Inr (v\<lparr>cv_hash := h\<rparr>),
                     if fe_audit E then mark_quote_used (fe_audit_q E) (qu_id u) (cv_id v) st3 else st3)))))"

section \<open>A quote is claimed once\<close>

definition wf_quotes :: "fx_state \<Rightarrow> bool" where
  "wf_quotes st \<longleftrightarrow> distinct (map (qu_id \<circ> fst) (fx_quotes st))"

definition quote_open :: "go_time \<Rightarrow> fx_state \<Rightarrow> string \<Rightarrow> bool" where
  "quote_open now st i = (case quote_at now i st of None \<Rightarrow> False | Some u \<Rightarrow> \<not> qu_used u)"

definition claim_act :: "err \<Rightarrow> go_time \<Rightarrow> string \<Rightarrow> fx_state \<Rightarrow> err option \<times> fx_state" where
  "claim_act down now i st = (case claim_quote True False down now i st of (Inl e, st') \<Rightarrow> (Some e, st') | (Inr u, st') \<Rightarrow> (None, st'))"

lemma quote_at_update:
  assumes "wf_quotes st"
  shows "quote_at now j (st\<lparr>fx_quotes := update_where (\<lambda>x. qu_id (fst x) = i \<and> now < snd x)
      (\<lambda>x. ((fst x)\<lparr>qu_used := True\<rparr>, snd x)) (fx_quotes st)\<rparr>)
    = map_option (\<lambda>u. if j = i then u\<lparr>qu_used := True\<rparr> else u) (quote_at now j st)"
proof -
  have "map_option fst (find (\<lambda>x. qu_id (fst x) = j \<and> now < snd x) (update_where (\<lambda>x. qu_id (fst x) = i \<and> now < snd x)
      (\<lambda>x. ((fst x)\<lparr>qu_used := True\<rparr>, snd x)) t))
    = map_option (\<lambda>u. if j = i then u\<lparr>qu_used := True\<rparr> else u)
        (map_option fst (find (\<lambda>x. qu_id (fst x) = j \<and> now < snd x) t))" for t
    by (induction t) auto
  then show ?thesis by (simp add: quote_at_def)
qed

lemma claim_quote_True: "claim_quote True lost down now i st = mark_used now i st"
  by (simp add: claim_quote_def)

lemma claim_quote_Inr:
  assumes "claim_quote up lost down now i st = (Inr u, st')"
  shows "quote_at now i st = Some u" and "\<not> qu_used u"
    and "st' = st\<lparr>fx_quotes := update_where (\<lambda>x. qu_id (fst x) = i \<and> now < snd x)
      (\<lambda>x. ((fst x)\<lparr>qu_used := True\<rparr>, snd x)) (fx_quotes st)\<rparr>"
  using assms by (auto simp: claim_quote_def mark_used_def split: if_splits option.splits)

interpretation quotes: one_shot wf_quotes "quote_open now" "claim_act down now" for down now
proof
  fix w k
  assume wf: "wf_quotes w"
  show "wf_quotes (snd (claim_act down now k w))"
    using wf map_key_update_where [of "qu_id \<circ> fst" "\<lambda>x. ((fst x)\<lparr>qu_used := True\<rparr>, snd x)"
        "\<lambda>x. qu_id (fst x) = k \<and> now < snd x" "fx_quotes w"]
    by (auto simp: claim_act_def claim_quote_def mark_used_def wf_quotes_def split: option.split)
  show "quote_open now w k \<Longrightarrow> fst (claim_act down now k w) = None"
    by (auto simp: claim_act_def claim_quote_def mark_used_def quote_open_def split: option.splits)
  show "\<not> quote_open now w k \<Longrightarrow> fst (claim_act down now k w) \<noteq> None"
    by (auto simp: claim_act_def claim_quote_def mark_used_def quote_open_def split: option.splits)
next
  fix w k w'
  assume wf: "wf_quotes w" and c: "claim_act down now k w = (None, w')"
  then obtain u where u: "claim_quote True False down now k w = (Inr u, w')"
    by (auto simp: claim_act_def split: prod.splits sum.splits)
  have look: "quote_at now j w' = map_option (\<lambda>u. if j = k then u\<lparr>qu_used := True\<rparr> else u) (quote_at now j w)" for j
    unfolding claim_quote_Inr(3) [OF u] by (rule quote_at_update [OF wf])
  show "\<not> quote_open now w' k" by (auto simp: quote_open_def look split: option.split)
  show "quote_open now w' j = quote_open now w j" if "j \<noteq> k" for j
    using that by (auto simp: quote_open_def look split: option.split)
next
  fix k w e w'
  show "claim_act down now k w = (Some e, w') \<Longrightarrow> w' = w"
    by (auto simp: claim_act_def claim_quote_def mark_used_def split: option.splits if_splits)
qed

text \<open>A run of executions of one quote, by any wallets, and the conversions they made.\<close>

fun execute_all ::
  "decimal_pkg \<Rightarrow> numeric_col \<Rightarrow> string \<Rightarrow> (ctx \<times> fx_env \<times> string \<times> world) list \<Rightarrow> fx_state
    \<Rightarrow> nat \<times> fx_state" where
  "execute_all D N i [] st = (0, st)"
| "execute_all D N i ((c, E, wid, w) # calls) st =
     (case execute_conversion D N c E wid i w st of (r, st1) \<Rightarrow>
        (case execute_all D N i calls st1 of (n, st2) \<Rightarrow> (if isl r then n else Suc n, st2)))"

definition quote_spent :: "string \<Rightarrow> fx_state \<Rightarrow> bool" where
  "quote_spent i st \<longleftrightarrow> (\<forall>x \<in> set (fx_quotes st). qu_id (fst x) = i \<longrightarrow> qu_used (fst x))"

lemma later_steps_keep_quotes:
  "fx_quotes (snd (create_conversion N q v w st)) = fx_quotes st"
  "fx_quotes (snd (pay_out D c E wid u w st)) = fx_quotes st"
  "fx_quotes (mark_quote_used q j conv st) = fx_quotes st"
  by (simp_all add: create_conversion_def pay_out_def mark_quote_used_def Let_def split: option.split sum.split)

lemma later_steps_keep_conversions:
  "fx_conversions (snd (pay_out D c E wid u w st)) = fx_conversions st"
  "fx_conversions (mark_quote_used q j conv st) = fx_conversions st"
  by (simp_all add: pay_out_def mark_quote_used_def split: option.split sum.split)

text \<open>What an execution does to the stored quotes and the conversions.\<close>

lemma execute_conversion_quotes:
  assumes "execute_conversion D N c E wid i w st = (r, st')"
  shows "fx_quotes st' = fx_quotes (snd (claim_quote (fe_redis E) (fe_lost E) (fe_redis_error E) (fe_now E) i st))
    \<or> fx_quotes st' = fx_quotes st \<and> isl r"
proof -
  obtain cr st1 where cl: "claim_quote (fe_redis E) (fe_lost E) (fe_redis_error E) (fe_now E) i st = (cr, st1)" by fastforce
  have "fx_quotes (snd (create_conversion N q v w s)) = fx_quotes s" "fx_quotes (snd (pay_out D c E wid u w s)) = fx_quotes s"
    for q v s u by (rule later_steps_keep_quotes)+
  then show ?thesis using assms cl
    by (auto simp: execute_conversion_def Let_def later_steps_keep_quotes(3)
        split: sum.splits if_splits prod.splits option.splits) (metis snd_conv)+
qed

lemma execute_conversion_ok:
  assumes "execute_conversion D N c E wid i w st = (Inr v, st')"
  obtains x u a b f r where "get_wallet c (fe_wallet_q E) wid w = Inr x" "quote_at (fe_now E) i st = Some u" "\<not> qu_used u"
    "wa_tenant x = Some (qu_org u)" "fe_now E \<le> qu_expires u" "qu_from_amount u > 0" "qu_to_amount u > 0"
    "fx_quotes st' = fx_quotes (snd (claim_quote True False (fe_redis_error E) (fe_now E) i st))"
    "cv_wallet v = wid" "cv_source v = qu_from u" "cv_dest v = qu_to u" "cv_source_amount v = qu_from_amount u"
    "cv_dest_amount v = qu_to_amount u" "cv_fee v = qu_fee u" "cv_rate v = qu_rate u"
    "fx_conversions st' = fx_conversions st @ [v\<lparr>cv_source_amount := a, cv_dest_amount := b, cv_fee := f, cv_rate := r,
       cv_hash := ''''\<rparr>]"
    "fx_sent st' = fx_sent (snd (pay_out D c E wid u w st))"
proof -
  from assms obtain x where x: "get_wallet c (fe_wallet_q E) wid w = Inr x"
    by (auto simp: execute_conversion_def split: sum.splits)
  obtain u st1 where cl: "claim_quote (fe_redis E) (fe_lost E) (fe_redis_error E) (fe_now E) i st = (Inr u, st1)"
    using assms x by (auto simp: execute_conversion_def split: sum.splits prod.splits)
  have up: "fe_redis E" using cl by (auto simp: claim_quote_def split: prod.splits if_splits)
  let ?v = "\<lparr>cv_id = fe_uuid E, cv_wallet = wid, cv_source = qu_from u, cv_dest = qu_to u,
     cv_source_amount = qu_from_amount u, cv_dest_amount = qu_to_amount u, cv_fee = qu_fee u,
     cv_rate = qu_rate u, cv_hash = '''', cv_created = fe_now E\<rparr>"
  from assms x cl have ok: "wa_tenant x = Some (qu_org u)" "fe_now E \<le> qu_expires u" "qu_from_amount u > 0" "qu_to_amount u > 0"
    by (auto simp: execute_conversion_def Let_def split: if_splits)
  obtain st2 where cr: "create_conversion N (fe_create_q E) ?v w st1 = (None, st2)"
    using assms x cl ok by (auto simp: execute_conversion_def Let_def split: prod.splits option.splits)
  obtain h st3 where p: "pay_out D c E wid u w st2 = (h, st3)" by (cases "pay_out D c E wid u w st2")
  from assms x cl ok cr p have v: "v = ?v\<lparr>cv_hash := h\<rparr>"
    and st': "st' = (if fe_audit E then mark_quote_used (fe_audit_q E) (qu_id u) (fe_uuid E) st3 else st3)"
    by (auto simp: execute_conversion_def Let_def)
  from cr obtain a b f r where st2: "st2 = st1\<lparr>fx_conversions := fx_conversions st1 @
      [?v\<lparr>cv_source_amount := a, cv_dest_amount := b, cv_fee := f, cv_rate := r\<rparr>]\<rparr>"
    by (auto simp: create_conversion_def Let_def split: option.splits if_splits)
  note st1 = claim_quote_Inr(3) [OF cl]
  have q: "fx_quotes st' = fx_quotes st1" "fx_conversions st' = fx_conversions st2" "fx_sent st' = fx_sent st3"
    using p later_steps_keep_quotes(2) [of D c E wid u w st2] later_steps_keep_conversions(1) [of D c E wid u w st2] st2
    by (simp_all add: st' mark_quote_used_def)
  have "fx_sent st3 = fx_sent (snd (pay_out D c E wid u w st))"
  proof -
    have "st3 = snd (pay_out D c E wid u w st2)" by (simp add: p)
    then show ?thesis by (simp add: st2 st1 pay_out_def split: sum.split)
  qed
  with q have sent: "fx_sent st' = fx_sent (snd (pay_out D c E wid u w st))" by simp
  have conv: "fx_conversions st' = fx_conversions st @ [v\<lparr>cv_source_amount := a, cv_dest_amount := b, cv_fee := f,
      cv_rate := r, cv_hash := ''''\<rparr>]" using q(2) by (simp add: st2 st1 v)
  show ?thesis
    by (rule that [OF x claim_quote_Inr(1,2) [OF cl] ok _ _ _ _ _ _ _ _ conv sent]) (use q cl up in \<open>simp_all add: v claim_quote_True\<close>)
qed

lemma quote_at_SomeD:
  assumes "quote_at now i st = Some u"
  shows "\<exists>t. (u, t) \<in> set (fx_quotes st) \<and> qu_id u = i \<and> now < t"
proof -
  have "find P xs = Some x \<Longrightarrow> x \<in> set xs \<and> P x" for P and xs :: "(quote \<times> go_time) list" and x
    by (induction xs) (auto split: if_splits)
  with assms show ?thesis by (fastforce simp: quote_at_def)
qed

lemma claim_quote_spends:
  assumes "claim_quote up lost down now i st = (Inr u, st')" and "wf_quotes st"
  shows "quote_spent i st'"
proof -
  from quote_at_SomeD [OF claim_quote_Inr(1) [OF assms(1)]]
  obtain t where t: "(u, t) \<in> set (fx_quotes st)" "qu_id u = i" "now < t" by blast
  have "x = (u, t)" if "x \<in> set (fx_quotes st)" "qu_id (fst x) = i" for x
  proof -
    from assms(2) have "inj_on (qu_id \<circ> fst) (set (fx_quotes st))" by (simp add: wf_quotes_def distinct_map)
    from inj_onD [OF this _ that(1) t(1)] that(2) t(2) show ?thesis by simp
  qed
  with t(3) show ?thesis
    unfolding claim_quote_Inr(3) [OF assms(1)] quote_spent_def by (auto simp: set_update_where)
qed

lemma spent_stays:
  assumes "quote_spent i st" and "execute_conversion D N c E wid i w st = (r, st')"
  shows "isl r \<and> fx_quotes st' = fx_quotes st"
proof -
  have "\<not> qu_used u \<Longrightarrow> quote_at now i st \<noteq> Some u" for now u
    using assms(1) quote_at_SomeD by (fastforce simp: quote_spent_def)
  then have cl: "isl (fst (claim_quote up lost down now i st)) \<and> snd (claim_quote up lost down now i st) = st" for up lost down now
    by (auto simp: claim_quote_def mark_used_def split: option.splits)
  obtain e where e: "claim_quote (fe_redis E) (fe_lost E) (fe_redis_error E) (fe_now E) i st = (Inl e, st)"
    using cl [of "fe_redis E" "fe_lost E" "fe_redis_error E" "fe_now E"]
    by (cases "claim_quote (fe_redis E) (fe_lost E) (fe_redis_error E) (fe_now E) i st") (auto simp: isl_def)
  from assms(2) show ?thesis by (auto simp: execute_conversion_def e split: sum.splits)
qed

lemma execute_all_spent: "quote_spent i st \<Longrightarrow> fst (execute_all D N i calls st) = 0"
proof (induction D N i calls st rule: execute_all.induct)
  case (2 D N i c E wid w calls st)
  obtain r st1 where x: "execute_conversion D N c E wid i w st = (r, st1)" by fastforce
  from spent_stays [OF 2(2) x] 2(2) have "isl r" "quote_spent i st1" by (simp_all add: quote_spent_def)
  with 2(1) [OF x [symmetric]] x show ?case by (auto split: prod.splits)
qed simp

section \<open>Properties\<close>

definition sample_quote :: quote where
  "sample_quote = \<lparr>qu_id = ''q'', qu_org = ''one'', qu_from = ''USDC'', qu_to = ''TXDC'', qu_from_amount = 2,
     qu_to_amount = 50, qu_rate = 25, qu_fee = 0, qu_expires = 100, qu_used = False\<rparr>"

definition sample_fx :: fx_state where
  "sample_fx = \<lparr>fx_rates = [], fx_quotes = [(sample_quote, 100)], fx_audit = [], fx_conversions = [], fx_pairs = [],
     fx_sent = []\<rparr>"

definition sample_fx_env :: fx_env where
  "sample_fx_env = \<lparr>fe_now = 10, fe_uuid = ''c'', fe_redis = True, fe_lost = False, fe_redis_error = Opaque '''',
     fe_fee_q = (\<lambda>_. None), fe_audit = False, fe_audit_q = None, fe_wallet_q = None, fe_wallet_q2 = None,
     fe_create_q = None, fe_chain = True, fe_transfer = Inr ''h'', fe_transfer_sent = True\<rparr>"

text \<open>Wallet \<open>a\<close> belongs to tenant \<open>one\<close>, wallet \<open>b\<close> to tenant \<open>two\<close>.\<close>

definition fx_world :: world where
  "fx_world = empty_world\<lparr>w_wallets := [(sample_wallet ''a'' ''0xA'')\<lparr>wa_tenant := Some ''one''\<rparr>,
     (sample_wallet ''b'' ''0xB'')\<lparr>wa_tenant := Some ''two''\<rparr>]\<rparr>"

lemmas sample_fx_defs = sample_quote_def sample_fx_def sample_fx_env_def fx_world_def sample_wallet_def
  empty_world_def no_tenant_def exact_numeric_def

lemma sample_fx_wf: "wf_quotes sample_fx"
  by (simp add: wf_quotes_def sample_fx_def)

text \<open>
  C21: however many executions of a quote arrive, from whatever wallets and at whatever times, at most one of
  them succeeds.
\<close>

theorem quote_converts_once:
  assumes "wf_quotes st"
  shows "fst (execute_all D N i calls st) \<le> 1"
  using assms
proof (induction D N i calls st rule: execute_all.induct)
  case (2 D N i c E wid w calls st)
  obtain r st1 where x: "execute_conversion D N c E wid i w st = (r, st1)" by fastforce
  obtain n st2 where rest: "execute_all D N i calls st1 = (n, st2)" by fastforce
  show ?case
  proof (cases r)
    case (Inr v)
    from execute_conversion_ok [OF x [unfolded Inr]] obtain u where
      u: "quote_at (fe_now E) i st = Some u" "\<not> qu_used u"
      and q: "fx_quotes st1 = fx_quotes (snd (claim_quote True False (fe_redis_error E) (fe_now E) i st))" by blast
    then obtain s where "claim_quote True False (fe_redis_error E) (fe_now E) i st = (Inr u, s)"
      by (simp add: claim_quote_def mark_used_def)
    from claim_quote_spends [OF this 2(2)] q this have "quote_spent i st1" by (simp add: quote_spent_def)
    from execute_all_spent [OF this, of D N calls] rest x show ?thesis by simp
  next
    case (Inl e)
    have "wf_quotes st1"
    proof -
      have "wf_quotes (snd (claim_quote up lost down now i st))" for up lost down now
        using 2(2) map_key_update_where [of "qu_id \<circ> fst" "\<lambda>x. ((fst x)\<lparr>qu_used := True\<rparr>, snd x)"
          "\<lambda>x. qu_id (fst x) = i \<and> now < snd x" "fx_quotes st"]
        by (auto simp: claim_quote_def mark_used_def wf_quotes_def split: option.split)
      with execute_conversion_quotes [OF x] 2(2) show ?thesis by (auto simp: wf_quotes_def)
    qed
    with 2(1) [OF x [symmetric]] rest x Inl show ?thesis by simp
  qed
qed simp

lemma quote_converts_once_witness:
  "fst (execute_all reference_pkg exact_numeric ''q'' [(no_tenant, sample_fx_env, ''a'', fx_world),
     (no_tenant, sample_fx_env, ''a'', fx_world)] sample_fx) \<le> 1"
  by (rule quote_converts_once [OF sample_fx_wf])

text \<open>
  An execution that succeeds used a live, unused quote of the wallet's tenant with positive amounts, and
  wrote one conversion with the quote's figures; the conversion row does not carry the hash of the payout.
\<close>

theorem converted_as_quoted:
  assumes "execute_conversion D N c E wid i w st = (Inr v, st')"
  shows "\<exists>x u row. get_wallet c (fe_wallet_q E) wid w = Inr x \<and> quote_at (fe_now E) i st = Some u \<and> \<not> qu_used u \<and>
    wa_tenant x = Some (qu_org u) \<and> fe_now E \<le> qu_expires u \<and> qu_from_amount u > 0 \<and> qu_to_amount u > 0 \<and>
    cv_source_amount v = qu_from_amount u \<and> cv_dest_amount v = qu_to_amount u \<and> cv_fee v = qu_fee u \<and>
    cv_rate v = qu_rate u \<and> fx_conversions st' = fx_conversions st @ [row] \<and> cv_id row = cv_id v \<and>
    cv_wallet row = wid \<and> cv_hash row = ''''"
  using assms
proof (cases rule: execute_conversion_ok)
  case (1 x u a b f r)
  then show ?thesis
    by (intro exI [of _ x] exI [of _ u]
        exI [of _ "v\<lparr>cv_source_amount := a, cv_dest_amount := b, cv_fee := f, cv_rate := r, cv_hash := ''''\<rparr>"]) simp
qed

definition fx_step where
  "fx_step wid = execute_conversion reference_pkg exact_numeric no_tenant sample_fx_env wid ''q'' fx_world sample_fx"

lemma fx_step_ok: "fx_step ''a'' = (Inr (projr (fst (fx_step ''a''))), snd (fx_step ''a''))"
proof -
  have "\<not> isl (fst (fx_step ''a''))"
    by (simp add: fx_step_def execute_conversion_def get_wallet_def claim_quote_def mark_used_def quote_at_def create_conversion_def
        pay_out_def Let_def in_scope_def sample_fx_defs)
  then show ?thesis by (cases "fx_step ''a''") (auto simp: isl_def)
qed

lemma converted_as_quoted_witness:
  "cv_dest_amount (projr (fst (fx_step ''a''))) = 50"
  using converted_as_quoted [OF fx_step_ok [unfolded fx_step_def]]
  by (auto simp: fx_step_def quote_at_def sample_fx_defs)

text \<open>
  An execution for a wallet of another tenant is refused, but only after the quote was claimed: it marks
  the quote as used, and the owner can no longer execute it.
\<close>

theorem foreign_wallet_burns_quote:
  assumes "wf_quotes st" and "get_wallet c (fe_wallet_q E) wid w = Inr x" and "fe_redis E"
    and "quote_at (fe_now E) i st = Some u" and "\<not> qu_used u" and "wa_tenant x \<noteq> Some (qu_org u)"
  shows "fst (execute_conversion D N c E wid i w st) = Inl (Dom ErrQuoteOwnershipMismatch)"
    and "fst (execute_all D N i calls (snd (execute_conversion D N c E wid i w st))) = 0"
proof -
  obtain s where s: "claim_quote True False (fe_redis_error E) (fe_now E) i st = (Inr u, s)"
    using assms(4,5) by (simp add: claim_quote_def mark_used_def)
  then have x: "execute_conversion D N c E wid i w st = (Inl (Dom ErrQuoteOwnershipMismatch), s)"
    using assms(2,3,6) by (simp add: execute_conversion_def claim_quote_True)
  then show "fst (execute_conversion D N c E wid i w st) = Inl (Dom ErrQuoteOwnershipMismatch)" by simp
  from execute_all_spent [OF claim_quote_spends [OF s assms(1)]]
  show "fst (execute_all D N i calls (snd (execute_conversion D N c E wid i w st))) = 0" by (simp add: x)
qed

lemma foreign_wallet_burns_quote_witness:
  "fst (execute_all reference_pkg exact_numeric ''q'' [(no_tenant, sample_fx_env, ''a'', fx_world)] (snd (fx_step ''b''))) = 0"
proof -
  have x: "get_wallet no_tenant (fe_wallet_q sample_fx_env) ''b'' fx_world = Inr ((sample_wallet ''b'' ''0xB'')\<lparr>wa_tenant := Some ''two''\<rparr>)"
    and u: "quote_at (fe_now sample_fx_env) ''q'' sample_fx = Some sample_quote"
    by (simp_all add: get_wallet_def in_scope_def quote_at_def sample_fx_defs)
  show ?thesis unfolding fx_step_def
    by (rule foreign_wallet_burns_quote(2) [OF sample_fx_wf x _ u]) (simp_all add: sample_fx_defs)
qed

text \<open>
  The payout of a conversion is as many wei as the quote has units of the asset, rounded: the amount is
  not scaled by the \<open>10 ^ 18\<close> wei of a unit, and the asset of the quote is not looked at.
\<close>

theorem payout_in_wei:
  assumes "decimal_doc D" and "execute_conversion D N c E wid i w st = (Inr v, st')"
    and "fe_chain E" and "fe_transfer_sent E"
    and "get_wallet c (fe_wallet_q2 E) wid w = Inr x" and "wa_public_key x \<noteq> ''''"
  shows "\<exists>n. fx_sent st' = fx_sent st @ [(xdc_normalize (wa_public_key x), n)] \<and> \<bar>of_int n - cv_dest_amount v\<bar> \<le> 1 / 2"
  using assms(2)
proof (cases rule: execute_conversion_ok)
  case (1 y u a b f r)
  have "on_grid 0 (d_round D (qu_to_amount u) 0)" "\<bar>d_round D (qu_to_amount u) 0 - qu_to_amount u\<bar> \<le> 1 / (2 * 10 ^ 0)"
    using assms(1) unfolding decimal_doc_def by blast+
  then have "\<bar>of_int (payout_wei D u) - qu_to_amount u\<bar> \<le> 1 / 2"
    by (auto simp: on_grid_def payout_wei_def elim: Ints_cases)
  with 1 assms(3-6) show ?thesis by (simp add: pay_out_def)
qed

lemma payout_in_wei_witness:
  "fx_sent (snd (fx_step ''a'')) = [(''0xA'', 50)] \<and> txdc_to_wei 50 = 50 * 10 ^ 18"
proof -
  have x: "get_wallet no_tenant (fe_wallet_q2 sample_fx_env) ''a'' fx_world = Inr ((sample_wallet ''a'' ''0xA'')\<lparr>wa_tenant := Some ''one''\<rparr>)"
    by (simp add: get_wallet_def in_scope_def sample_fx_defs)
  have e: "fe_chain sample_fx_env" "fe_transfer_sent sample_fx_env" by (simp_all add: sample_fx_env_def)
  have k: "wa_public_key ((sample_wallet ''a'' ''0xA'')\<lparr>wa_tenant := Some ''one''\<rparr>) \<noteq> ''''" by (simp add: sample_wallet_def)
  from payout_in_wei [OF decimal_doc_reference fx_step_ok [unfolded fx_step_def] e x k] obtain n where
    n: "fx_sent (snd (fx_step ''a'')) = [(xdc_normalize ''0xA'', n)]" "\<bar>of_int n - cv_dest_amount (projr (fst (fx_step ''a'')))\<bar> \<le> 1 / 2"
    by (auto simp: fx_step_def sample_fx_def sample_wallet_def)
  have "cv_dest_amount (projr (fst (fx_step ''a''))) = 50"
    by (simp add: fx_step_def execute_conversion_def get_wallet_def claim_quote_def mark_used_def quote_at_def create_conversion_def
        pay_out_def Let_def in_scope_def sample_fx_defs)
  with n(2) have "rat_of_int (2 * n) \<le> rat_of_int 101" "rat_of_int 99 \<le> rat_of_int (2 * n)"
    by (simp_all, linarith+)
  then have "2 * n \<le> 101" "99 \<le> 2 * n" unfolding of_int_le_iff .
  then have "n = 50" by linarith
  moreover have "xdc_normalize ''0xA'' = ''0xA''" by code_simp
  moreover have "txdc_to_wei 50 = 50 * 10 ^ 18" by code_simp
  ultimately show ?thesis using n(1) by simp
qed

text \<open>
  A rate comes from the first provider that supports the pair and answers; the spread is added to the
  mid-market rate, so a positive spread gives the customer more of the bought asset than the market does.
\<close>

theorem spread_favours_customer:
  assumes "decimal_doc D" and "fetch_rate D spread now from to prev ps = Inr r"
  shows "\<exists>before p after. ps = before @ p # after \<and> rate_key from to \<in> set (pv_pairs p) \<and>
      pv_rate p from to = Inr (rr_mid r) \<and> rr_provider r = pv_name p \<and>
      (\<forall>q \<in> set before. rate_key from to \<notin> set (pv_pairs q) \<or> isl (pv_rate q from to)) \<and>
      rr_rate r = rr_mid r * (1 + of_int spread / 10000)"
proof -
  have "on_grid 16 (of_int spread / 10000)"
  proof -
    have "of_int spread / 10000 * 10 ^ 16 = (of_int (spread * 10 ^ 12) :: decimal)" by simp
    then show ?thesis unfolding on_grid_def by (metis Ints_of_int)
  qed
  with assms(1) have sp: "with_spread D spread m = m * (1 + of_int spread / 10000)" for m
    by (simp add: with_spread_def decimal_doc_def)
  from assms(2) show ?thesis
  proof (induction ps arbitrary: prev)
    case (Cons p ps)
    show ?case
    proof (cases "rate_key from to \<in> set (pv_pairs p) \<and> \<not> isl (pv_rate p from to)")
      case True
      then obtain m where "pv_rate p from to = Inr m" by (auto simp: isl_def) (meson sum.exhaust)
      with Cons.prems True show ?thesis by (intro exI [of _ "[]"] exI [of _ p] exI [of _ ps]) (auto simp: sp)
    next
      case False
      then obtain prev' where "fetch_rate D spread now from to prev' ps = Inr r"
        using Cons.prems by (cases "pv_rate p from to") (auto split: if_splits)
      from Cons.IH [OF this] obtain before q after where "ps = before @ q # after \<and> rate_key from to \<in> set (pv_pairs q) \<and>
        pv_rate q from to = Inr (rr_mid r) \<and> rr_provider r = pv_name q \<and>
        (\<forall>q \<in> set before. rate_key from to \<notin> set (pv_pairs q) \<or> isl (pv_rate q from to)) \<and>
        rr_rate r = rr_mid r * (1 + of_int spread / 10000)" by blast
      with False show ?thesis by (intro exI [of _ "p # before"] exI [of _ q] exI [of _ after]) auto
    qed
  qed (simp split: option.splits)
qed

lemma spread_favours_customer_witness:
  "\<exists>r. fetch_rate reference_pkg 50 0 ''XDC'' ''USDC'' None
      [\<lparr>pv_name = ''static'', pv_pairs = [''XDC-USDC''], pv_rate = \<lambda>_ _. Inr 2\<rparr>] = Inr r \<and> rr_rate r = 2 * (1 + 50 / 10000)"
proof -
  let ?ps = "[\<lparr>pv_name = ''static'', pv_pairs = [''XDC-USDC''], pv_rate = \<lambda>_ _. Inr 2\<rparr>]"
  obtain r where r: "fetch_rate reference_pkg 50 0 ''XDC'' ''USDC'' None ?ps = Inr r" by (simp add: rate_key_def)
  from spread_favours_customer [OF decimal_doc_reference r] obtain p where
    "rr_rate r = rr_mid r * (1 + 50 / 10000)" "p \<in> set ?ps" "pv_rate p ''XDC'' ''USDC'' = Inr (rr_mid r)"
    by (auto simp: Cons_eq_append_conv)
  with r show ?thesis by auto
qed

end
