(* ===== verification/Idempotency.thy ===== *)
theory Idempotency
  imports One_Shot Signature
begin

text \<open>
  \<^verbatim>\<open>internal/server/idempotency\<close> and \<^verbatim>\<open>internal/postgres/idempotency_repo.go\<close>: the middleware that
  runs a handler at most once per key and replays its response. The handler is any step on a state of
  its own. Arguments stand for what is not part of the program: \<open>V\<close> is the version of a parsed UUID,
  \<open>U\<close> and \<open>J\<close> are the conversions to the column types \<^verbatim>\<open>uuid\<close> and \<^verbatim>\<open>jsonb\<close>, \<open>SHA\<close> is the hash.
\<close>

section \<open>Records\<close>

record idem_row =
  id_org :: string
  id_key :: string
  id_hash :: string
  id_complete :: bool
  id_status :: "int option"
  id_body :: "string option"
  id_expires :: go_time

definition idem_ttl :: int where "idem_ttl = 24 * hour"

definition invalid_input :: err where
  "invalid_input = Opaque ''invalid input syntax''"

definition insert_if_absent ::
  "(string \<Rightarrow> string option) \<Rightarrow> err option \<Rightarrow> string \<Rightarrow> string \<Rightarrow> string \<Rightarrow> go_time \<Rightarrow> idem_row list
    \<Rightarrow> (err + bool) \<times> idem_row list" where
  "insert_if_absent U q org key hash expires rows =
     (case (q, U org, U key) of
        (None, Some o', Some k) \<Rightarrow>
          if \<exists>r \<in> set rows. id_org r = o' \<and> id_key r = k then (Inr False, rows)
          else (Inr True, rows @ [\<lparr>id_org = o', id_key = k, id_hash = hash, id_complete = False, id_status = None,
                 id_body = None, id_expires = expires\<rparr>])
      | (Some e, _, _) \<Rightarrow> (Inl (Wrap ''acquire idempotency record'' e), rows)
      | _ \<Rightarrow> (Inl (Wrap ''acquire idempotency record'' invalid_input), rows))"

text \<open>
  The read skips a row that another transaction has locked (\<open>locked\<close>), and then reports that there is
  none. \<open>q\<close> are the failures of the three statements of the transaction.
\<close>

definition lookup_live ::
  "(string \<Rightarrow> string option) \<Rightarrow> (nat \<Rightarrow> err option) \<Rightarrow> bool \<Rightarrow> go_time \<Rightarrow> string \<Rightarrow> string \<Rightarrow> idem_row list
    \<Rightarrow> err + idem_row option" where
  "lookup_live U q locked now org key rows =
     (case q 0 of Some e \<Rightarrow> Inl (Wrap ''begin idempotency lookup'' e)
      | None \<Rightarrow> (case (q 1, U org, U key) of
          (None, Some o', Some k) \<Rightarrow>
            (case find (\<lambda>r. id_org r = o' \<and> id_key r = k \<and> now < id_expires r) rows of
               None \<Rightarrow> Inr None
             | Some r \<Rightarrow> if locked then Inr None
                 else (case q 2 of Some e \<Rightarrow> Inl (Wrap ''commit idempotency lookup'' e) | None \<Rightarrow> Inr (Some r)))
        | (Some e, _, _) \<Rightarrow> Inl (Wrap ''lookup idempotency record'' e)
        | _ \<Rightarrow> Inl (Wrap ''lookup idempotency record'' invalid_input)))"

definition clear_expired ::
  "(string \<Rightarrow> string option) \<Rightarrow> err option \<Rightarrow> go_time \<Rightarrow> string \<Rightarrow> string \<Rightarrow> idem_row list \<Rightarrow> err + idem_row list" where
  "clear_expired U q now org key rows =
     (case q of Some e \<Rightarrow> Inl (Wrap ''clear expired idempotency record'' e)
      | None \<Rightarrow> Inr (filter (\<lambda>r. \<not> (Some (id_org r) = U org \<and> Some (id_key r) = U key \<and> id_expires r \<le> now)) rows))"

text \<open>
  The environment of \<^verbatim>\<open>TryAcquire\<close>: what each statement reports, whether a lookup meets a locked row, the
  clock of the database at the two lookups and the delete, and what other sessions commit before each statement.
\<close>

record acquire_env =
  ae_insert_q :: "nat \<Rightarrow> err option"
  ae_lookup_q :: "nat \<Rightarrow> nat \<Rightarrow> err option"
  ae_locked :: "nat \<Rightarrow> bool"
  ae_clear_q :: "err option"
  ae_now :: "nat \<Rightarrow> go_time"
  ae_others :: "nat \<Rightarrow> idem_row list \<Rightarrow> idem_row list"

text \<open>\<open>ExistingNil\<close> is the answer \<^verbatim>\<open>(nil, true, nil)\<close>.\<close>

datatype acquired = Acquired | Existing idem_row | ExistingNil

definition try_acquire ::
  "(string \<Rightarrow> string option) \<Rightarrow> acquire_env \<Rightarrow> string \<Rightarrow> string \<Rightarrow> string \<Rightarrow> go_time \<Rightarrow> idem_row list
    \<Rightarrow> (err + acquired) \<times> idem_row list" where
  "try_acquire U E org key hash expires rows =
     (case insert_if_absent U (ae_insert_q E 0) org key hash expires rows of
        (Inl e, r1) \<Rightarrow> (Inl e, r1)
      | (Inr True, r1) \<Rightarrow> (Inr Acquired, r1)
      | (Inr False, r1) \<Rightarrow>
     (let r2 = ae_others E 0 r1 in
      case lookup_live U (ae_lookup_q E 0) (ae_locked E 0) (ae_now E 0) org key r2 of
        Inl e \<Rightarrow> (Inl e, r2)
      | Inr (Some r) \<Rightarrow> (Inr (Existing r), r2)
      | Inr None \<Rightarrow>
     (let r3 = ae_others E 1 r2 in
      case clear_expired U (ae_clear_q E) (ae_now E 1) org key r3 of
        Inl e \<Rightarrow> (Inl e, r3)
      | Inr r4 \<Rightarrow>
     (let r5 = ae_others E 2 r4 in
      case insert_if_absent U (ae_insert_q E 1) org key hash expires r5 of
        (Inl e, r6) \<Rightarrow> (Inl e, r6)
      | (Inr True, r6) \<Rightarrow> (Inr Acquired, r6)
      | (Inr False, r6) \<Rightarrow>
     (let r7 = ae_others E 3 r6 in
      case lookup_live U (ae_lookup_q E 1) (ae_locked E 1) (ae_now E 2) org key r7 of
        Inl e \<Rightarrow> (Inl e, r7)
      | Inr (Some r) \<Rightarrow> (Inr (Existing r), r7)
      | Inr None \<Rightarrow> (Inr ExistingNil, r7))))))"

definition complete_record ::
  "(string \<Rightarrow> string option) \<Rightarrow> (string \<Rightarrow> string option) \<Rightarrow> err option \<Rightarrow> string \<Rightarrow> string \<Rightarrow> int \<Rightarrow> string
    \<Rightarrow> idem_row list \<Rightarrow> err option \<times> idem_row list" where
  "complete_record U J q org key status body rows =
     (case (q, U org, U key, J body) of
        (None, Some o', Some k, Some b) \<Rightarrow>
          (None, update_where (\<lambda>r. id_org r = o' \<and> id_key r = k)
             (\<lambda>r. r\<lparr>id_complete := True, id_status := Some status, id_body := Some b\<rparr>) rows)
      | (Some e, _) \<Rightarrow> (Some (Wrap ''complete idempotency record'' e), rows)
      | _ \<Rightarrow> (Some (Wrap ''complete idempotency record'' invalid_input), rows))"

section \<open>The middleware\<close>

record idem_request =
  im_key :: string
  im_method :: string
  im_path :: string
  im_body :: "err + string"
  im_org :: string

text \<open>
  The answer to the client: an error of the middleware with its status and code, a replayed response, the
  handler's response, or a panic of the goroutine.
\<close>

datatype idem_response = IdemError int string | Replayed int string | Handled int string | Panicked

definition request_hash :: "(string \<Rightarrow> string) \<Rightarrow> idem_request \<Rightarrow> string \<Rightarrow> string" where
  "request_hash SHA r body = hex_encode (SHA (im_method r @ im_path r @ body))"

definition stored_response :: "idem_row \<Rightarrow> int \<times> string" where
  "stored_response r = (the_default 0 (id_status r), the_default '''' (id_body r))"

text \<open>
  \<open>now\<close> is the clock of the server, \<open>cq\<close> what the statement that completes the record reports: it runs under the
  context of the request, which ends when the client goes away.
\<close>

definition middleware ::
  "(string \<Rightarrow> int option) \<Rightarrow> (string \<Rightarrow> string option) \<Rightarrow> (string \<Rightarrow> string option) \<Rightarrow> (string \<Rightarrow> string)
    \<Rightarrow> ('s \<Rightarrow> (int \<times> string) \<times> 's) \<Rightarrow> acquire_env \<Rightarrow> err option \<Rightarrow> go_time \<Rightarrow> idem_request
    \<Rightarrow> idem_row list \<times> 's \<Rightarrow> idem_response \<times> idem_row list \<times> 's" where
  "middleware V U J SHA handler E cq now r x =
     (case x of (rows, s) \<Rightarrow>
      if im_key r = '''' then (IdemError 400 ''IDEMPOTENCY_KEY_REQUIRED'', rows, s)
      else if V (im_key r) \<noteq> Some 4 then (IdemError 400 ''INVALID_IDEMPOTENCY_KEY_FORMAT'', rows, s)
      else case im_body r of Inl e \<Rightarrow> (IdemError 400 ''BAD_REQUEST'', rows, s)
      | Inr body \<Rightarrow>
     (let hash = request_hash SHA r body in
      case try_acquire U E (im_org r) (im_key r) hash (now + idem_ttl) rows of
        (Inl e, rows1) \<Rightarrow> (IdemError 500 ''INTERNAL_ERROR'', rows1, s)
      | (Inr ExistingNil, rows1) \<Rightarrow> (Panicked, rows1, s)
      | (Inr (Existing rec), rows1) \<Rightarrow>
          if \<not> id_complete rec then (IdemError 409 ''REQUEST_IN_PROGRESS'', rows1, s)
          else if id_hash rec \<noteq> hash then (IdemError 422 ''IDEMPOTENCY_KEY_REUSED_WITH_DIFFERENT_BODY'', rows1, s)
          else (Replayed (fst (stored_response rec)) (snd (stored_response rec)), rows1, s)
      | (Inr Acquired, rows1) \<Rightarrow>
          (case handler s of ((status, out), s1) \<Rightarrow>
             (Handled status out, snd (complete_record U J cq (im_org r) (im_key r) status out rows1), s1))))"

section \<open>A key is acquired once\<close>

text \<open>Keys are unique, as the index of the table has it.\<close>

definition wf_idem :: "idem_row list \<Rightarrow> bool" where
  "wf_idem rows \<longleftrightarrow> distinct (map (\<lambda>r. (id_org r, id_key r)) rows)"

definition free_key :: "(string \<Rightarrow> string option) \<Rightarrow> string \<Rightarrow> idem_row list \<Rightarrow> string \<Rightarrow> bool" where
  "free_key U org rows key \<longleftrightarrow> (case (U org, U key) of (Some o', Some k) \<Rightarrow>
     \<not> (\<exists>r \<in> set rows. id_org r = o' \<and> id_key r = k) | _ \<Rightarrow> False)"

definition acquire_act ::
  "(string \<Rightarrow> string option) \<Rightarrow> string \<Rightarrow> string \<Rightarrow> go_time \<Rightarrow> string \<Rightarrow> idem_row list \<Rightarrow> err option \<times> idem_row list" where
  "acquire_act U org hash expires key rows =
     (case insert_if_absent U None org key hash expires rows of
        (Inl e, r) \<Rightarrow> (Some e, r) | (Inr False, r) \<Rightarrow> (Some (Opaque ''no rows''), r) | (Inr True, r) \<Rightarrow> (None, r))"

interpretation acquires: one_shot wf_idem "free_key Some org" "acquire_act Some org hash expires" for org hash expires
proof
  fix w k
  assume wf: "wf_idem w"
  show "wf_idem (snd (acquire_act Some org hash expires k w))"
    using wf by (auto simp: acquire_act_def insert_if_absent_def wf_idem_def)
  show "free_key Some org w k \<Longrightarrow> fst (acquire_act Some org hash expires k w) = None"
    by (simp add: acquire_act_def insert_if_absent_def free_key_def)
  show "\<not> free_key Some org w k \<Longrightarrow> fst (acquire_act Some org hash expires k w) \<noteq> None"
    by (simp add: acquire_act_def insert_if_absent_def free_key_def)
next
  fix w k w' j
  assume "acquire_act Some org hash expires k w = (None, w')" and "j \<noteq> k"
  then obtain x where "w' = w @ [x]" "id_key x = k"
    by (auto simp: acquire_act_def insert_if_absent_def split: if_splits)
  with \<open>j \<noteq> k\<close> show "free_key Some org w' j = free_key Some org w j" by (simp add: free_key_def)
qed (auto simp: acquire_act_def insert_if_absent_def free_key_def split: if_splits)

section \<open>Acquiring\<close>

definition quiet_acquire :: "acquire_env \<Rightarrow> bool" where
  "quiet_acquire E \<longleftrightarrow> ae_insert_q E = (\<lambda>_. None) \<and> ae_lookup_q E = (\<lambda>_ _. None) \<and> ae_clear_q E = None
     \<and> ae_locked E = (\<lambda>_. False) \<and> ae_others E = (\<lambda>_ rows. rows)"

definition row_for :: "(string \<Rightarrow> string option) \<Rightarrow> string \<Rightarrow> string \<Rightarrow> idem_row \<Rightarrow> bool" where
  "row_for U org key r \<longleftrightarrow> U org = Some (id_org r) \<and> U key = Some (id_key r)"

lemma find_row_for:
  assumes "wf_idem rows" and "r \<in> set rows" and "now < id_expires r"
  shows "find (\<lambda>x. id_org x = id_org r \<and> id_key x = id_key r \<and> now < id_expires x) rows = Some r"
  using assms by (induction rows) (auto simp: wf_idem_def)

lemma lookup_live_row:
  assumes "wf_idem rows" and "r \<in> set rows" and "row_for U org key r" and "now < id_expires r" and "q = (\<lambda>_. None)"
  shows "lookup_live U q locked now org key rows = (if locked then Inr None else Inr (Some r))"
  using assms find_row_for [OF assms(1,2,4)] by (simp add: lookup_live_def row_for_def)

lemma insert_taken:
  assumes "r \<in> set rows" and "row_for U org key r"
  shows "insert_if_absent U None org key hash expires rows = (Inr False, rows)"
  using assms by (auto simp: insert_if_absent_def row_for_def)

lemma try_acquire_live:
  assumes "wf_idem rows" and "r \<in> set rows" and "row_for U org key r" and "ae_now E 0 < id_expires r" and "quiet_acquire E"
  shows "try_acquire U E org key hash expires rows = (Inr (Existing r), rows)"
  using assms insert_taken [OF assms(2,3)] lookup_live_row [OF assms(1-4) refl]
  by (simp add: try_acquire_def quiet_acquire_def)

section \<open>Other sessions\<close>











definition new_row :: "string \<Rightarrow> string \<Rightarrow> string \<Rightarrow> go_time \<Rightarrow> idem_row" where
  "new_row org key hash expires = \<lparr>id_org = org, id_key = key, id_hash = hash, id_complete = False, id_status = None,
     id_body = None, id_expires = expires\<rparr>"

lemma try_acquire_free:
  assumes "\<forall>x \<in> set rows. \<not> row_for U org key x" and "U org = Some o'" and "U key = Some k" and "quiet_acquire E"
  shows "try_acquire U E org key hash expires rows = (Inr Acquired, rows @ [new_row o' k hash expires])"
    and "wf_idem rows \<Longrightarrow> wf_idem (rows @ [new_row o' k hash expires])"
    and "update_where (\<lambda>x. id_org x = o' \<and> id_key x = k) f rows = rows"
proof -
  have free: "\<not> (id_org x = o' \<and> id_key x = k)" if "x \<in> set rows" for x
    using assms(1-3) that by (auto simp: row_for_def)
  then have "insert_if_absent U None org key hash expires rows = (Inr True, rows @ [new_row o' k hash expires])"
    using assms(2,3) by (auto simp: insert_if_absent_def new_row_def)
  with assms(4) show "try_acquire U E org key hash expires rows = (Inr Acquired, rows @ [new_row o' k hash expires])"
    by (simp add: try_acquire_def quiet_acquire_def)
  show "wf_idem (rows @ [new_row o' k hash expires])" if "wf_idem rows"
    using free that by (auto simp: wf_idem_def new_row_def)
  show "update_where (\<lambda>x. id_org x = o' \<and> id_key x = k) f rows = rows"
    using free by (intro update_where_id) auto
qed

section \<open>Properties\<close>

definition sample_acquire :: acquire_env where
  "sample_acquire = \<lparr>ae_insert_q = (\<lambda>_. None), ae_lookup_q = (\<lambda>_ _. None), ae_locked = (\<lambda>_. False),
     ae_clear_q = None, ae_now = (\<lambda>_. 10), ae_others = (\<lambda>_ rows. rows)\<rparr>"

definition sample_request :: idem_request where
  "sample_request = \<lparr>im_key = ''k'', im_method = ''POST'', im_path = ''/v1/transfers'', im_body = Inr ''{}'', im_org = ''o''\<rparr>"

definition sample_record :: idem_row where
  "sample_record = \<lparr>id_org = ''o'', id_key = ''k'', id_hash = ''x'', id_complete = False, id_status = None,
     id_body = None, id_expires = 100\<rparr>"

text \<open>A handler that counts how often it runs.\<close>

definition count_runs :: "nat \<Rightarrow> (int \<times> string) \<times> nat" where
  "count_runs n = ((202, ''{} ''), Suc n)"

definition trim_json :: "string \<Rightarrow> string option" where
  "trim_json s = (if s = '''' then None else Some ''{}'')"

lemma sample_quiet: "quiet_acquire sample_acquire"
  by (simp add: quiet_acquire_def sample_acquire_def)




text \<open>
  A first request whose record is completed runs the handler once; the same request within a day does
  not run it, and gets the same status and the body as the column type \<^verbatim>\<open>jsonb\<close> gives it back.
\<close>

theorem retry_replays_response:
  assumes "wf_idem rows" and "\<forall>x \<in> set rows. \<not> row_for U (im_org r) (im_key r) x"
    and "U (im_org r) = Some o'" and "U (im_key r) = Some k"
    and "quiet_acquire E1" and "quiet_acquire E2" and "ae_now E2 0 < now + idem_ttl"
    and "im_key r \<noteq> ''''" and "V (im_key r) = Some 4" and "im_body r = Inr body"
    and "handler s = ((status, out), s1)" and "J out = Some b"
    and "middleware V U J SHA handler E1 None now r (rows, s) = (a1, rows1, s')"
  shows "a1 = Handled status out \<and> s' = s1 \<and>
    middleware V U J SHA handler E2 cq now2 r (rows1, s1) = (Replayed status b, rows1, s1)"
proof -
  let ?hash = "request_hash SHA r body"
  let ?new = "new_row o' k ?hash (now + idem_ttl)"
  let ?done = "?new\<lparr>id_complete := True, id_status := Some status, id_body := Some b\<rparr>"
  note acq = try_acquire_free [OF assms(2-5)]
  have "complete_record U J None (im_org r) (im_key r) status out (rows @ [?new]) = (None, rows @ [?done])"
    using assms(3,4,12) acq(3) by (simp add: complete_record_def new_row_def)
  with acq(1) assms(8-11,13) have one: "a1 = Handled status out" "rows1 = rows @ [?done]" "s' = s1"
    by (auto simp: middleware_def Let_def)
  have "wf_idem rows1" using acq(2) [OF assms(1)] by (simp add: wf_idem_def one(2) new_row_def)
  from try_acquire_live [OF this, of ?done U "im_org r" "im_key r" E2] one assms(3,4,6-10)
  show ?thesis by (simp add: middleware_def Let_def row_for_def new_row_def stored_response_def)
qed

lemma retry_replays_response_witness:
  "fst (middleware (\<lambda>_. Some 4) Some trim_json (\<lambda>s. s) count_runs sample_acquire None 5 sample_request
     (fst (snd (middleware (\<lambda>_. Some 4) Some trim_json (\<lambda>s. s) count_runs sample_acquire None 0 sample_request ([], 0))), 1))
   = Replayed 202 ''{}''"
proof -
  obtain a1 rows1 s' where m: "middleware (\<lambda>_. Some 4) Some trim_json (\<lambda>s. s) count_runs sample_acquire None 0 sample_request ([], 0)
    = (a1, rows1, s')" using prod_cases3 by blast
  have h: "count_runs 0 = ((202, ''{} ''), 1)" by (simp add: count_runs_def)
  have t: "ae_now sample_acquire 0 < 0 + idem_ttl" by (simp add: sample_acquire_def idem_ttl_def duration_defs)
  have r: "im_key sample_request \<noteq> ''''" "im_body sample_request = Inr ''{}''" "trim_json ''{} '' = Some ''{}''"
    by (simp_all add: sample_request_def trim_json_def)
  from retry_replays_response [OF _ _ refl refl sample_quiet sample_quiet t r(1) refl r(2) h r(3) m, of None 5] m show ?thesis
    by (simp add: wf_idem_def)
qed

text \<open>
  Of any number of attempts to acquire a key, interleaved with anything that keeps its record, exactly one
  succeeds if the key was free, and none otherwise.
\<close>

theorem key_acquired_once:
  assumes "wf_idem rows"
  shows "wins (acquire_act Some org hash expires key) (Suc n) rows = (if free_key Some org rows key then 1 else 0)"
  using assms by (rule acquires.wins_eq)

lemma key_acquired_once_witness:
  "wins (acquire_act Some ''o'' ''x'' 100 ''k'') (Suc 6) [] = 1"
proof -
  have "wf_idem []" by (simp add: wf_idem_def)
  from key_acquired_once [OF this, of "''o''" "''x''" 100 "''k''" 6] show ?thesis
    by (simp add: free_key_def del: wins.simps)
qed

text \<open>
  If the record of a request cannot be completed, as when the client has gone away or the response is
  not JSON, every retry within the day is told that the request is in progress.
\<close>

theorem lost_client_locks_key:
  assumes "wf_idem rows" and "\<forall>x \<in> set rows. \<not> row_for U (im_org r) (im_key r) x"
    and "U (im_org r) = Some o'" and "U (im_key r) = Some k"
    and "quiet_acquire E1" and "quiet_acquire E2" and "ae_now E2 0 < now + idem_ttl"
    and "im_key r \<noteq> ''''" and "V (im_key r) = Some 4" and "im_body r = Inr body"
    and "handler s = ((status, out), s1)" and "cq \<noteq> None \<or> J out = None"
    and "middleware V U J SHA handler E1 cq now r (rows, s) = (a1, rows1, s')"
  shows "fst (middleware V U J SHA handler E2 cq2 now2 r (rows1, s'))  = IdemError 409 ''REQUEST_IN_PROGRESS''"
proof -
  let ?new = "new_row o' k (request_hash SHA r body) (now + idem_ttl)"
  note acq = try_acquire_free [OF assms(2-5)]
  have "snd (complete_record U J cq (im_org r) (im_key r) status out (rows @ [?new])) = rows @ [?new]"
    using assms(3,4,12) by (cases cq) (auto simp: complete_record_def)
  with acq(1) assms(8-11,13) have one: "rows1 = rows @ [?new]" by (auto simp: middleware_def Let_def)
  have "wf_idem rows1" unfolding one by (rule acq(2) [OF assms(1)])
  from try_acquire_live [OF this, of ?new U "im_org r" "im_key r" E2] one assms(3,4,6-10)
  show ?thesis by (simp add: middleware_def Let_def row_for_def new_row_def)
qed

lemma lost_client_locks_key_witness:
  "fst (middleware (\<lambda>_. Some 4) Some trim_json (\<lambda>s. s) count_runs sample_acquire None 5 sample_request
     (snd (middleware (\<lambda>_. Some 4) Some trim_json (\<lambda>s. s) count_runs sample_acquire (Some (Opaque ''context canceled'')) 0
        sample_request ([], 0)))) = IdemError 409 ''REQUEST_IN_PROGRESS''"
proof -
  let ?first = "middleware (\<lambda>_. Some 4) Some trim_json (\<lambda>s. s) count_runs sample_acquire (Some (Opaque ''context canceled'')) 0
     sample_request ([], 0)"
  obtain a1 rows1 s' where m: "?first = (a1, rows1, s')" using prod_cases3 by blast
  have h: "count_runs 0 = ((202, ''{} ''), 1)" by (simp add: count_runs_def)
  have t: "ae_now sample_acquire 0 < 0 + idem_ttl" by (simp add: sample_acquire_def idem_ttl_def duration_defs)
  have r: "im_key sample_request \<noteq> ''''" "im_body sample_request = Inr ''{}''" by (simp_all add: sample_request_def)
  from lost_client_locks_key [OF _ _ refl refl sample_quiet sample_quiet t r(1) refl r(2) h _ m, of None 5] m show ?thesis
    by (simp add: wf_idem_def)
qed

text \<open>
  Two lookups that both meet a locked row make the middleware read a missing record: it panics.
\<close>

theorem locked_record_panics:
  assumes "rec \<in> set rows" and "row_for U (im_org r) (im_key r) rec" and "wf_idem rows" and "\<forall>n. ae_now E n < id_expires rec"
    and "ae_insert_q E = (\<lambda>_. None)" and "ae_lookup_q E = (\<lambda>_ _. None)" and "ae_clear_q E = None"
    and "ae_others E = (\<lambda>_ rows. rows)" and "ae_locked E = (\<lambda>_. True)"
    and "im_key r \<noteq> ''''" and "V (im_key r) = Some 4" and "im_body r = Inr body"
  shows "middleware V U J SHA handler E cq now r (rows, s) = (Panicked, rows, s)"
proof -
  have "filter (\<lambda>x. \<not> (Some (id_org x) = U (im_org r) \<and> Some (id_key x) = U (im_key r) \<and> id_expires x \<le> ae_now E 1)) rows = rows"
  proof (rule filter_True, rule ballI)
    fix x
    assume x: "x \<in> set rows"
    show "\<not> (Some (id_org x) = U (im_org r) \<and> Some (id_key x) = U (im_key r) \<and> id_expires x \<le> ae_now E 1)"
    proof
      assume a: "Some (id_org x) = U (im_org r) \<and> Some (id_key x) = U (im_key r) \<and> id_expires x \<le> ae_now E 1"
      with assms(2) have "(id_org x, id_key x) = (id_org rec, id_key rec)" by (simp add: row_for_def)
      with assms(1,3) x have "x = rec" by (auto simp: wf_idem_def distinct_map dest: inj_onD)
      with a assms(4) show False using leD by blast
    qed
  qed
  then have "try_acquire U E (im_org r) (im_key r) hash expires rows = (Inr ExistingNil, rows)" for hash expires
    using insert_taken [OF assms(1,2)] lookup_live_row [OF assms(3,1,2) assms(4) [rule_format] refl] assms(5-9)
    by (simp add: try_acquire_def clear_expired_def)
  with assms(10-12) show ?thesis by (simp add: middleware_def Let_def)
qed

lemma locked_record_panics_witness:
  "fst (middleware (\<lambda>_. Some 4) Some trim_json (\<lambda>s. s) count_runs (sample_acquire\<lparr>ae_locked := \<lambda>_. True\<rparr>) None 0
     sample_request ([sample_record], 0)) = Panicked"
  using locked_record_panics [of sample_record "[sample_record]" Some sample_request "sample_acquire\<lparr>ae_locked := \<lambda>_. True\<rparr>"
      "\<lambda>_. Some 4" "''{}''" trim_json "\<lambda>s. s" count_runs None 0 0]
  by (simp add: row_for_def wf_idem_def sample_record_def sample_request_def sample_acquire_def)

end
