(* ===== verification/Treasury.thy ===== *)
theory Treasury
  imports Compliance Stellar "HOL-Library.Sublist"
begin

text \<open>
  \<^verbatim>\<open>internal/treasury/service.go\<close>, \<^verbatim>\<open>worker.go\<close>, the decoding in \<^verbatim>\<open>handler.go\<close>, and
  \<^verbatim>\<open>internal/postgres/treasury_repo.go\<close>: the balances of the platform's fee wallet, the reserve that the
  custodied accounts have to keep, what may be swept to cold storage, and the sweeps. The answers of
  the network and of the rate service are fields of a view, one view for each call.
\<close>

section \<open>Data and repository\<close>

record treasury_config =
  tc_asset :: string
  tc_threshold :: decimal
  tc_buffer :: decimal
  tc_cold :: string
  tc_auto :: bool
  tc_updated :: go_time

record sweep_row =
  sw_id :: string
  sw_asset :: string
  sw_amount :: decimal
  sw_destination :: string
  sw_hash :: string
  sw_by :: string
  sw_at :: go_time

text \<open>The two tables, the payments the network took, and the events dispatched.\<close>

record treasury_state =
  ts_configs :: "treasury_config list"
  ts_sweeps :: "sweep_row list"
  ts_sent :: "((string \<times> string) \<times> string \<times> decimal) list"
  ts_events :: "(event \<times> string) list"

abbreviation config_of :: "treasury_state \<Rightarrow> string \<Rightarrow> treasury_config option" where
  "config_of st a \<equiv> row_with tc_asset a (ts_configs st)"

definition get_config :: "err option \<Rightarrow> string \<Rightarrow> treasury_state \<Rightarrow> err + treasury_config" where
  "get_config q a st =
     (case q of Some e \<Rightarrow> Inl (Wrap ''get treasury config'' e)
      | None \<Rightarrow> (case config_of st a of None \<Rightarrow> Inl (Dom ErrTreasuryConfigNotFound) | Some x \<Rightarrow> Inr x))"

text \<open>The order of the asset column depends on the collation, which is a parameter.\<close>

definition list_config ::
  "(string \<Rightarrow> nat) \<Rightarrow> err option \<Rightarrow> treasury_state \<Rightarrow> err + treasury_config list" where
  "list_config coll q st =
     (case q of Some e \<Rightarrow> Inl (Wrap ''list treasury config'' e)
      | None \<Rightarrow> Inr (sort_key (coll \<circ> tc_asset) (ts_configs st)))"

definition update_config ::
  "numeric_col \<Rightarrow> err option \<Rightarrow> go_time \<Rightarrow> treasury_config \<Rightarrow> treasury_state \<Rightarrow> err option \<times> treasury_state" where
  "update_config N q now x st =
     (case q of Some e \<Rightarrow> (Some (Wrap ''update treasury config'' e), st)
      | None \<Rightarrow>
     (case (N 20 7 (tc_threshold x), N 20 7 (tc_buffer x)) of
        (Some t, Some b) \<Rightarrow>
          (let row = x\<lparr>tc_threshold := t, tc_buffer := b, tc_updated := now\<rparr> in
           (None, st\<lparr>ts_configs := (if config_of st (tc_asset x) = None then ts_configs st @ [row]
              else update_where (\<lambda>r. tc_asset r = tc_asset x) (\<lambda>_. row) (ts_configs st))\<rparr>))
      | _ \<Rightarrow> (Some (Wrap ''update treasury config'' numeric_overflow), st)))"

definition list_wallet_public_keys :: "err option \<Rightarrow> world \<Rightarrow> err + string list" where
  "list_wallet_public_keys q w =
     (case q of Some e \<Rightarrow> Inl (Wrap ''list wallet public keys'' e) | None \<Rightarrow> Inr (map wa_public_key (w_wallets w)))"

definition record_sweep ::
  "numeric_col \<Rightarrow> err option \<Rightarrow> sweep_row \<Rightarrow> treasury_state \<Rightarrow> err option \<times> treasury_state" where
  "record_sweep N q x st =
     (case q of Some e \<Rightarrow> (Some (Wrap ''record sweep'' e), st)
      | None \<Rightarrow>
        if \<exists>y \<in> set (ts_sweeps st). sw_id y = sw_id x then (Some (Wrap ''record sweep'' unique_violation), st)
        else (case N 20 7 (sw_amount x) of None \<Rightarrow> (Some (Wrap ''record sweep'' numeric_overflow), st)
          | Some a \<Rightarrow> (None, st\<lparr>ts_sweeps := ts_sweeps st @ [x\<lparr>sw_amount := a\<rparr>]\<rparr>)))"

text \<open>\<^verbatim>\<open>ListSweeps\<close> of the service and of the repository: newest first, at most 100 rows.\<close>

definition list_sweeps :: "err option \<Rightarrow> int \<Rightarrow> int \<Rightarrow> treasury_state \<Rightarrow> err + sweep_row list" where
  "list_sweeps q limit offset st =
     (let n = (if limit \<le> 0 \<or> limit > 100 then 20 else limit) in
      case q of Some e \<Rightarrow> Inl (Wrap ''list sweeps'' e)
      | None \<Rightarrow>
        if offset < 0 then Inl (Wrap ''list sweeps'' (Opaque ''OFFSET must not be negative''))
        else Inr (take (nat n) (drop (nat offset) (sort_key (\<lambda>x. - sw_at x) (ts_sweeps st)))))"

section \<open>Balances and reserve\<close>

text \<open>The configuration of the service.\<close>

record treasury_service =
  tr_fee_wallet :: string
  tr_secret :: string
  tr_usdc_issuer :: string
  tr_eurc_issuer :: string
  tr_rates :: bool
  tr_hooks :: bool

text \<open>
  An account is the list of its balances: the code, empty for the native asset, and the amount as text.
  The fee wallet is loaded twice in one call, for the balances and for the reserve.
\<close>

type_synonym account = "(string \<times> string) list"

record treasury_view =
  tv_config_q :: "err option"
  tv_fee_account :: "err + account"
  tv_rate :: "string \<Rightarrow> err + decimal"
  tv_keys_q :: "err option"
  tv_account :: "string \<Rightarrow> err + account"
  tv_offers :: "string \<Rightarrow> err + nat"
  tv_fee_account2 :: "err + account"

record asset_balance =
  ab_asset :: string
  ab_balance :: decimal
  ab_usd :: decimal

definition asset_code :: "string \<Rightarrow> string" where
  "asset_code code = (if code = '''' then ''XLM'' else code)"

definition usd_equivalent :: "treasury_service \<Rightarrow> treasury_view \<Rightarrow> string \<Rightarrow> decimal \<Rightarrow> decimal" where
  "usd_equivalent S V code amt =
     (if code = ''USDC'' then amt
      else if tr_rates S then (case tv_rate V code of Inl e \<Rightarrow> 0 | Inr r \<Rightarrow> amt * r)
      else 0)"

fun account_balances ::
  "decimal_pkg \<Rightarrow> treasury_service \<Rightarrow> treasury_view \<Rightarrow> account \<Rightarrow> asset_balance list" where
  "account_balances D S V [] = []"
| "account_balances D S V ((c, text) # bs) =
     (case d_parse D text of None \<Rightarrow> account_balances D S V bs
      | Some amt \<Rightarrow> \<lparr>ab_asset = asset_code c, ab_balance = amt, ab_usd = usd_equivalent S V (asset_code c) amt\<rparr>
          # account_balances D S V bs)"

definition fee_balances ::
  "decimal_pkg \<Rightarrow> treasury_service \<Rightarrow> treasury_view \<Rightarrow> err + asset_balance list" where
  "fee_balances D S V =
     (if tr_fee_wallet S = '''' then Inl (Opaque ''PLATFORM_FEE_WALLET_PUBLIC_KEY is not configured'')
      else case load_account (tr_fee_wallet S) (tv_fee_account V) of
        Inl e \<Rightarrow> Inl (Wrap ''load fee wallet account'' e)
      | Inr bs \<Rightarrow> Inr (account_balances D S V bs))"

record reserve_breakdown =
  rb_wallets :: nat
  rb_trustlines :: nat
  rb_offers :: nat
  rb_required :: decimal
  rb_current :: decimal
  rb_surplus :: decimal

definition base_reserve :: decimal where "base_reserve = 1 / 2"

text \<open>The loop over the keys: an account that cannot be loaded is skipped, offers that cannot be are not counted.\<close>

fun count_subentries :: "treasury_view \<Rightarrow> string list \<Rightarrow> nat \<times> nat \<Rightarrow> nat \<times> nat" where
  "count_subentries V [] n = n"
| "count_subentries V (k # ks) (t, f) =
     (case load_account k (tv_account V k) of Inl e \<Rightarrow> count_subentries V ks (t, f)
      | Inr bs \<Rightarrow> count_subentries V ks
          (t + length (filter (\<lambda>b. fst b \<noteq> '''') bs), case tv_offers V k of Inl e \<Rightarrow> f | Inr n \<Rightarrow> f + n))"

text \<open>The native balance; the last entry that parses counts.\<close>

definition native_balance :: "decimal_pkg \<Rightarrow> account \<Rightarrow> decimal" where
  "native_balance D bs = fold (\<lambda>b x. if fst b = '''' then the_default x (d_parse D (snd b)) else x) bs 0"

definition get_reserve_breakdown ::
  "decimal_pkg \<Rightarrow> treasury_service \<Rightarrow> treasury_view \<Rightarrow> world \<Rightarrow> err + reserve_breakdown" where
  "get_reserve_breakdown D S V w =
     (case list_wallet_public_keys (tv_keys_q V) w of Inl e \<Rightarrow> Inl (Wrap ''list wallet public keys'' e)
      | Inr ks \<Rightarrow>
     (case count_subentries V ks (0, 0) of (t, f) \<Rightarrow>
       let total = base_reserve * 2 * of_nat (length ks) + base_reserve * of_nat t + base_reserve * of_nat f;
           current = (if tr_fee_wallet S = '''' then 0
             else case load_account (tr_fee_wallet S) (tv_fee_account2 V) of Inl e \<Rightarrow> 0 | Inr bs \<Rightarrow> native_balance D bs)
       in Inr \<lparr>rb_wallets = length ks, rb_trustlines = t, rb_offers = f, rb_required = total, rb_current = current,
            rb_surplus = current - total\<rparr>))"

definition get_reserve_requirement ::
  "decimal_pkg \<Rightarrow> treasury_service \<Rightarrow> treasury_view \<Rightarrow> world \<Rightarrow> err + decimal" where
  "get_reserve_requirement D S V w = map_sum id rb_required (get_reserve_breakdown D S V w)"

definition get_sweepable_amount ::
  "decimal_pkg \<Rightarrow> treasury_service \<Rightarrow> treasury_view \<Rightarrow> string \<Rightarrow> world \<Rightarrow> treasury_state \<Rightarrow> err + decimal" where
  "get_sweepable_amount D S V asset w st =
     (case get_config (tv_config_q V) asset st of Inl e \<Rightarrow> Inl e
      | Inr cfg \<Rightarrow>
     (case fee_balances D S V of Inl e \<Rightarrow> Inl e
      | Inr bs \<Rightarrow>
     (case row_with ab_asset asset bs of None \<Rightarrow> Inr 0
      | Some b \<Rightarrow>
     (case (if asset = ''XLM'' then get_reserve_requirement D S V w else Inr 0) of Inl e \<Rightarrow> Inl e
      | Inr reserve \<Rightarrow>
          (let sweepable = ab_balance b - reserve - tc_buffer cfg in
           Inr (if sweepable < 0 then 0 else sweepable))))))"

section \<open>Sweeps\<close>

text \<open>The outside of one sweep: the key, the second load of the account, building, signing and submitting.\<close>

record sweep_env =
  sx_view :: treasury_view
  sx_uuid :: string
  sx_now :: go_time
  sx_record_q :: "err option"
  sx_key :: "err option"
  sx_load :: "err + account"
  sx_build :: "err option"
  sx_sign :: "err option"
  sx_submit :: "err + string"
  sx_taken :: bool
  sx_dispatch_q :: "err option"

definition sweep_asset :: "treasury_service \<Rightarrow> string \<Rightarrow> string \<times> string" where
  "sweep_asset S code =
     (if code = ''XLM'' then (''XLM'', '''')
      else (code, if code = ''USDC'' then tr_usdc_issuer S else if code = ''EURC'' then tr_eurc_issuer S else ''''))"

definition zero_sweep ::
  "numeric_col \<Rightarrow> sweep_env \<Rightarrow> string \<Rightarrow> string \<Rightarrow> string \<Rightarrow> treasury_state \<Rightarrow> (err + string) \<times> treasury_state" where
  "zero_sweep N E asset dest by_whom st =
     (case record_sweep N (sx_record_q E) \<lparr>sw_id = sx_uuid E, sw_asset = asset, sw_amount = 0, sw_destination = dest,
         sw_hash = '''', sw_by = by_whom, sw_at = sx_now E\<rparr> st of
        (Some e, st1) \<Rightarrow> (Inl (Wrap ''record zero sweep'' e), st1)
      | (None, st1) \<Rightarrow> (Inr '''', st1))"

text \<open>
  The network may have taken a payment although the submission returns an error, as when the answer is
  lost: \<open>sx_taken\<close>.
\<close>

definition sweep_sent ::
  "decimal_pkg \<Rightarrow> treasury_service \<Rightarrow> string \<Rightarrow> decimal \<Rightarrow> string \<Rightarrow> treasury_state \<Rightarrow> treasury_state" where
  "sweep_sent D S asset amount dest st =
     st\<lparr>ts_sent := ts_sent st @ [(sweep_asset S asset, dest, d_round D amount 7)]\<rparr>"

definition execute_sweep ::
  "decimal_pkg \<Rightarrow> numeric_col \<Rightarrow> treasury_service \<Rightarrow> sweep_env \<Rightarrow> string \<Rightarrow> decimal \<Rightarrow> string \<Rightarrow> string
    \<Rightarrow> world \<Rightarrow> treasury_state \<Rightarrow> (err + string) \<times> treasury_state" where
  "execute_sweep D N S E asset amount dest by_whom w st =
     (case get_sweepable_amount D S (sx_view E) asset w st of Inl e \<Rightarrow> (Inl e, st)
      | Inr sweepable \<Rightarrow>
        if amount > sweepable then (Inl (Dom ErrInsufficientSweepableBalance), st)
        else if amount = 0 then zero_sweep N E asset dest by_whom st
        else if tr_secret S = '''' then (Inl (Opaque ''TREASURY_SECRET_KEY is not configured''), st)
        else if dest = '''' then (Inl (Opaque ''destination address is required''), st)
        else case sx_key E of Some e \<Rightarrow> (Inl (Wrap ''parse treasury secret key'' e), st) | None \<Rightarrow>
        (case load_account (tr_fee_wallet S) (sx_load E) of
           Inl e \<Rightarrow> (Inl (Wrap ''load fee wallet account'' e), st) | Inr acct \<Rightarrow>
        (case sx_build E of Some e \<Rightarrow> (Inl (Wrap ''build sweep transaction'' e), st) | None \<Rightarrow>
        (case sx_sign E of Some e \<Rightarrow> (Inl (Wrap ''sign sweep transaction'' e), st) | None \<Rightarrow>
        (case submit_transaction (sx_submit E) of
           Inl e \<Rightarrow> (Inl (Wrap ''submit sweep transaction'' e), if sx_taken E then sweep_sent D S asset amount dest st else st)
         | Inr h \<Rightarrow>
         let st1 = sweep_sent D S asset amount dest st;
             st2 = snd (record_sweep N (sx_record_q E) \<lparr>sw_id = sx_uuid E, sw_asset = asset, sw_amount = amount,
               sw_destination = dest, sw_hash = h, sw_by = by_whom, sw_at = sx_now E\<rparr> st1);
             st3 = (if tr_hooks S \<and> sx_dispatch_q E = None
               then st2\<lparr>ts_events := ts_events st2 @ [(EventTreasurySweepCompleted, h)]\<rparr> else st2)
         in (Inr h, st3))))))"

text \<open>The daily task: every asset with automatic sweeps, each with its own view of the network.\<close>

fun sweep_configs ::
  "decimal_pkg \<Rightarrow> numeric_col \<Rightarrow> treasury_service \<Rightarrow> (nat \<Rightarrow> treasury_view) \<Rightarrow> (nat \<Rightarrow> sweep_env) \<Rightarrow> nat
    \<Rightarrow> treasury_config list \<Rightarrow> world \<Rightarrow> treasury_state \<Rightarrow> treasury_state" where
  "sweep_configs D N S V E k [] w st = st"
| "sweep_configs D N S V E k (cfg # cs) w st =
     sweep_configs D N S V E (Suc k) cs w
       (if \<not> tc_auto cfg then st
        else case get_sweepable_amount D S (V k) (tc_asset cfg) w st of Inl e \<Rightarrow> st
        | Inr sweepable \<Rightarrow> snd (execute_sweep D N S (E k) (tc_asset cfg)
            (if sweepable > tc_threshold cfg then sweepable else 0) (tc_cold cfg) ''auto'' w st))"

definition handle_sweep ::
  "decimal_pkg \<Rightarrow> numeric_col \<Rightarrow> treasury_service \<Rightarrow> (string \<Rightarrow> nat) \<Rightarrow> err option \<Rightarrow> (nat \<Rightarrow> treasury_view)
    \<Rightarrow> (nat \<Rightarrow> sweep_env) \<Rightarrow> world \<Rightarrow> treasury_state \<Rightarrow> err option \<times> treasury_state" where
  "handle_sweep D N S coll q V E w st =
     (case list_config coll q st of Inl e \<Rightarrow> (Some e, st) | Inr cs \<Rightarrow> (None, sweep_configs D N S V E 0 cs w st))"

section \<open>The handler\<close>

text \<open>
  \<^verbatim>\<open>manualSweep\<close> and \<^verbatim>\<open>updateConfig\<close> on decoded bodies: the three fields the validator requires are not
  empty, and the amounts parse and have the right sign. \<open>Inl\<close> is the text of a bad request, and
  \<open>Inl None\<close> the validator's own text.
\<close>

definition manual_sweep_amount :: "decimal_pkg \<Rightarrow> string \<Rightarrow> string \<Rightarrow> string \<Rightarrow> string option + decimal" where
  "manual_sweep_amount D asset amount dest =
     (if asset = '''' \<or> amount = '''' \<or> dest = '''' then Inl None
      else case d_parse D amount of None \<Rightarrow> Inl (Some ''amount must be a positive number'')
      | Some a \<Rightarrow> if a \<le> 0 then Inl (Some ''amount must be a positive number'') else Inr a)"

text \<open>\<^verbatim>\<open>manualSweep\<close>: the amount goes to the service as it was parsed, and whoever asks is not looked at.\<close>

datatype sweep_answer = Bad_Request "string option" | Domain_Error err | Swept decimal string

definition manual_sweep ::
  "decimal_pkg \<Rightarrow> numeric_col \<Rightarrow> treasury_service \<Rightarrow> sweep_env \<Rightarrow> string \<Rightarrow> string \<Rightarrow> string \<Rightarrow> world \<Rightarrow> treasury_state
    \<Rightarrow> sweep_answer \<times> treasury_state" where
  "manual_sweep D N S E asset amount dest w st =
     (case manual_sweep_amount D asset amount dest of Inl m \<Rightarrow> (Bad_Request m, st)
      | Inr a \<Rightarrow>
        (case execute_sweep D N S E asset a dest ''manual'' w st of
           (Inl e, st1) \<Rightarrow> (Domain_Error e, st1) | (Inr h, st1) \<Rightarrow> (Swept a h, st1)))"

definition parse_config ::
  "decimal_pkg \<Rightarrow> string \<Rightarrow> string \<Rightarrow> string \<Rightarrow> string \<Rightarrow> bool \<Rightarrow> string option + treasury_config" where
  "parse_config D asset threshold buffer cold auto_sweep =
     (if asset = '''' \<or> threshold = '''' \<or> buffer = '''' then Inl None
      else case d_parse D threshold of None \<Rightarrow> Inl (Some ''sweep_threshold must be a non-negative number'')
      | Some t \<Rightarrow> if t < 0 then Inl (Some ''sweep_threshold must be a non-negative number'')
      else case d_parse D buffer of None \<Rightarrow> Inl (Some ''min_operating_buffer must be a non-negative number'')
      | Some b \<Rightarrow> if b < 0 then Inl (Some ''min_operating_buffer must be a non-negative number'')
      else Inr \<lparr>tc_asset = asset, tc_threshold = t, tc_buffer = b, tc_cold = cold, tc_auto = auto_sweep, tc_updated = 0\<rparr>)"

section \<open>Facts about one sweep\<close>

lemma get_sweepable_cases:
  assumes "get_sweepable_amount D S V asset w st = Inr x"
  obtains cfg where "config_of st asset = Some cfg" "x = 0"
  | cfg bs b reserve where "config_of st asset = Some cfg" "fee_balances D S V = Inr bs"
      "row_with ab_asset asset bs = Some b" "(if asset = ''XLM'' then get_reserve_requirement D S V w else Inr 0) = Inr reserve"
      "x = ab_balance b - reserve - tc_buffer cfg" "0 \<le> x"
proof -
  from assms obtain cfg bs where c: "config_of st asset = Some cfg" "fee_balances D S V = Inr bs"
    by (auto simp: get_sweepable_amount_def get_config_def split: sum.splits option.splits)
  show thesis
  proof (cases "row_with ab_asset asset bs")
    case None
    with c assms that(1) show ?thesis
      by (auto simp: get_sweepable_amount_def get_config_def split: sum.splits option.splits)
  next
    case (Some b)
    with c assms obtain reserve where r: "(if asset = ''XLM'' then get_reserve_requirement D S V w else Inr 0) = Inr reserve"
      "x = (if ab_balance b - reserve - tc_buffer cfg < 0 then 0 else ab_balance b - reserve - tc_buffer cfg)"
      by (auto simp: get_sweepable_amount_def get_config_def Let_def split: sum.splits option.splits if_splits)
    show ?thesis
    proof (cases "ab_balance b - reserve - tc_buffer cfg < 0")
      case True
      with r(2) have "x = 0" by simp
      with c(1) show ?thesis by (rule that(1))
    next
      case False
      with r(2) have "x = ab_balance b - reserve - tc_buffer cfg" "0 \<le> x" by simp_all
      with that(2) [OF c Some r(1)] show ?thesis by blast
    qed
  qed
qed

lemma record_sweep_keeps [simp]:
  "ts_sent (snd (record_sweep N q x st)) = ts_sent st" "ts_configs (snd (record_sweep N q x st)) = ts_configs st"
  by (simp_all add: record_sweep_def split: option.split)

lemma zero_sweep_keeps [simp]:
  "ts_sent (snd (zero_sweep N E a d b st)) = ts_sent st" "ts_configs (snd (zero_sweep N E a d b st)) = ts_configs st"
proof -
  have "snd (zero_sweep N E a d b st) = snd (record_sweep N (sx_record_q E) \<lparr>sw_id = sx_uuid E, sw_asset = a, sw_amount = 0,
      sw_destination = d, sw_hash = '''', sw_by = b, sw_at = sx_now E\<rparr> st)"
    by (simp add: zero_sweep_def split: prod.split option.split)
  then show "ts_sent (snd (zero_sweep N E a d b st)) = ts_sent st" "ts_configs (snd (zero_sweep N E a d b st)) = ts_configs st"
    by simp_all
qed

lemma sweep_sent_simps [simp]:
  "ts_sent (sweep_sent D S a x d st) = ts_sent st @ [(sweep_asset S a, d, d_round D x 7)]"
  "ts_configs (sweep_sent D S a x d st) = ts_configs st" "ts_sweeps (sweep_sent D S a x d st) = ts_sweeps st"
  by (simp_all add: sweep_sent_def)

text \<open>A sweep either leaves the payments alone or sends one, which the sweepable amount covers.\<close>

lemma execute_sweep_sent:
  assumes "execute_sweep D N S E asset amount dest by_whom w st = (r, st')"
  obtains "ts_sent st' = ts_sent st" "ts_configs st' = ts_configs st" "\<And>h. r = Inr h \<Longrightarrow> amount = 0"
  | x where "get_sweepable_amount D S (sx_view E) asset w st = Inr x" "amount \<le> x" "amount \<noteq> 0"
      "ts_sent st' = ts_sent st @ [(sweep_asset S asset, dest, d_round D amount 7)]" "ts_configs st' = ts_configs st"
proof (cases "get_sweepable_amount D S (sx_view E) asset w st")
  case (Inl e)
  with assms that(1) show ?thesis by (auto simp: execute_sweep_def)
next
  case (Inr x)
  consider "amount > x" | "amount \<le> x" "amount = 0" | "amount \<le> x" "amount \<noteq> 0" by fastforce
  then show ?thesis
  proof cases
    case 1
    with assms Inr that(1) show ?thesis by (auto simp: execute_sweep_def)
  next
    case 2
    with assms Inr have "zero_sweep N E asset dest by_whom st = (r, st')" by (simp add: execute_sweep_def)
    with zero_sweep_keeps [of N E asset dest by_whom st] 2 that(1) show ?thesis by simp
  next
    case 3
    from assms 3 Inr have "(ts_sent st' = ts_sent st \<and> (\<forall>h. r \<noteq> Inr h) \<or>
        ts_sent st' = ts_sent st @ [(sweep_asset S asset, dest, d_round D amount 7)]) \<and> ts_configs st' = ts_configs st"
      by (auto simp: execute_sweep_def Let_def split: if_splits option.splits sum.splits)
    with 3 Inr that show ?thesis by blast
  qed
qed

section \<open>The grid of seven places\<close>

lemma on_grid_diff: "on_grid p x \<Longrightarrow> on_grid p y \<Longrightarrow> on_grid p (x - y)"
  by (simp add: on_grid_def left_diff_distrib)

lemma on_grid_halves: "on_grid 7 (base_reserve * of_nat n)"
proof -
  have "base_reserve * of_nat n * 10 ^ 7 = of_nat (n * 5000000)" by (simp add: base_reserve_def)
  then show ?thesis unfolding on_grid_def by (metis Ints_of_nat)
qed

lemma reserve_halves:
  assumes "get_reserve_breakdown D S V w = Inr b"
  shows "rb_required b = base_reserve * of_nat (2 * rb_wallets b + rb_trustlines b + rb_offers b)"
  using assms by (auto simp: get_reserve_breakdown_def Let_def algebra_simps split: sum.splits prod.splits)

definition account_on_grid :: "decimal_pkg \<Rightarrow> err + account \<Rightarrow> bool" where
  "account_on_grid D r = (case r of Inl e \<Rightarrow> True
     | Inr bs \<Rightarrow> list_all (\<lambda>b. case d_parse D (snd b) of None \<Rightarrow> True | Some a \<Rightarrow> on_grid 7 a) bs)"

lemma account_balances_grid:
  "list_all (\<lambda>b. case d_parse D (snd b) of None \<Rightarrow> True | Some a \<Rightarrow> on_grid 7 a) bs \<Longrightarrow>
   b \<in> set (account_balances D S V bs) \<Longrightarrow> on_grid 7 (ab_balance b)"
  by (induction D S V bs rule: account_balances.induct) (auto split: option.splits)

text \<open>What has to stay in the fee wallet is on the grid, so rounding the amount cannot exceed what may be swept.\<close>

lemma rounded_within:
  assumes "decimal_doc D" and "on_grid 7 x" and "amount \<le> x"
  shows "d_round D amount 7 \<le> x"
  using decimal_docD(5) [OF assms(1,2)] decimal_docD(6) [OF assms(1,3), of 7] by simp

lemma sweepable_grid:
  assumes "account_on_grid D (tv_fee_account V)" and "fee_balances D S V = Inr bs"
    and "row_with ab_asset asset bs = Some b"
    and "(if asset = ''XLM'' then get_reserve_requirement D S V w else Inr 0) = Inr reserve" and "on_grid 7 buffer"
  shows "on_grid 7 (ab_balance b - reserve - buffer)"
proof -
  from assms(2) obtain acct where acct: "tv_fee_account V = Inr acct" "bs = account_balances D S V acct"
    by (cases "tv_fee_account V") (auto simp: fee_balances_def split: if_splits)
  with assms(1) row_with_SomeD [OF assms(3)] have "on_grid 7 (ab_balance b)"
    by (auto simp: account_on_grid_def intro: account_balances_grid)
  moreover have "on_grid 7 reserve"
  proof (cases "asset = ''XLM''")
    case True
    with assms(4) obtain r where "get_reserve_breakdown D S V w = Inr r" "reserve = rb_required r"
      by (cases "get_reserve_breakdown D S V w") (auto simp: get_reserve_requirement_def)
    with reserve_halves on_grid_halves show ?thesis by metis
  next
    case False
    with assms(4) show ?thesis by (simp add: on_grid_def)
  qed
  ultimately show ?thesis using assms(5) by (intro on_grid_diff)
qed

section \<open>Reserve of the custodied accounts\<close>

text \<open>
  What the ledger holds for an account, trust lines and open offers, against what the view answers: an
  error, or the trust lines and the first 200 offers.
\<close>

definition truthful :: "treasury_view \<Rightarrow> (string \<Rightarrow> nat \<times> nat) \<Rightarrow> string \<Rightarrow> bool" where
  "truthful V L k \<longleftrightarrow>
     (case tv_account V k of Inl e \<Rightarrow> True | Inr bs \<Rightarrow> length (filter (\<lambda>b. fst b \<noteq> '''') bs) = fst (L k)) \<and>
     (case tv_offers V k of Inl e \<Rightarrow> True | Inr n \<Rightarrow> n = min 200 (snd (L k)))"

definition reached :: "treasury_view \<Rightarrow> (string \<Rightarrow> nat \<times> nat) \<Rightarrow> string \<Rightarrow> bool" where
  "reached V L k \<longleftrightarrow> \<not> isl (tv_account V k) \<and> \<not> isl (tv_offers V k) \<and> snd (L k) \<le> 200"

lemma count_subentries_bound:
  assumes "count_subentries V ks (t, f) = (t', f')" and "list_all (truthful V L) ks"
  shows "t' + f' \<le> t + f + sum_list (map (\<lambda>k. fst (L k) + snd (L k)) ks) \<and>
    (list_all (reached V L) ks \<longrightarrow> t' + f' = t + f + sum_list (map (\<lambda>k. fst (L k) + snd (L k)) ks))"
  using assms
proof (induction ks arbitrary: t f)
  case (Cons k ks)
  show ?case
  proof (cases "tv_account V k")
    case (Inl e)
    with Cons.prems Cons.IH [of t f] show ?thesis by (simp add: reached_def)
  next
    case (Inr bs)
    define g where "g = (case tv_offers V k of Inl e \<Rightarrow> f | Inr n \<Rightarrow> f + n)"
    from Cons.prems Inr have step: "count_subentries V ks (t + fst (L k), g) = (t', f')" "list_all (truthful V L) ks"
      by (simp_all add: g_def truthful_def [of V L k])
    have "g \<le> f + snd (L k)" "reached V L k \<longrightarrow> g = f + snd (L k)"
      using Cons.prems(2) by (auto simp: truthful_def g_def reached_def split: sum.splits)
    with Cons.IH [OF step] show ?thesis by auto
  qed
qed simp

definition ledger_reserve :: "(string \<Rightarrow> nat \<times> nat) \<Rightarrow> string list \<Rightarrow> decimal" where
  "ledger_reserve L ks = base_reserve * of_nat (2 * length ks + sum_list (map (\<lambda>k. fst (L k) + snd (L k)) ks))"

section \<open>The daily task\<close>

text \<open>The payments of one pass over the configurations: what each may be.\<close>

definition sweep_of ::
  "decimal_pkg \<Rightarrow> treasury_service \<Rightarrow> treasury_config \<Rightarrow> (string \<times> string) \<times> string \<times> decimal \<Rightarrow> bool" where
  "sweep_of D S cfg p \<longleftrightarrow> (\<exists>x. tc_threshold cfg < x \<and> p = (sweep_asset S (tc_asset cfg), tc_cold cfg, d_round D x 7))"

lemma sweep_configs_sent:
  assumes "\<forall>c \<in> set cs. 0 \<le> tc_threshold c"
  shows "\<exists>cs' ps. subseq cs' (filter tc_auto cs) \<and> list_all2 (sweep_of D S) cs' ps \<and>
    ts_sent (sweep_configs D N S V E k cs w st) = ts_sent st @ ps"
  using assms
proof (induction cs arbitrary: k st)
  case (Cons c cs)
  let ?st1 = "if \<not> tc_auto c then st
        else case get_sweepable_amount D S (V k) (tc_asset c) w st of Inl e \<Rightarrow> st
        | Inr sweepable \<Rightarrow> snd (execute_sweep D N S (E k) (tc_asset c)
            (if sweepable > tc_threshold c then sweepable else 0) (tc_cold c) ''auto'' w st)"
  have one: "ts_sent ?st1 = ts_sent st \<or> tc_auto c \<and> (\<exists>p. sweep_of D S c p \<and> ts_sent ?st1 = ts_sent st @ [p])"
  proof (cases "tc_auto c \<and> \<not> isl (get_sweepable_amount D S (V k) (tc_asset c) w st)")
    case True
    then obtain x where x: "tc_auto c" "get_sweepable_amount D S (V k) (tc_asset c) w st = Inr x"
      by (cases "get_sweepable_amount D S (V k) (tc_asset c) w st") auto
    let ?a = "if x > tc_threshold c then x else 0"
    obtain r st' where run: "execute_sweep D N S (E k) (tc_asset c) ?a (tc_cold c) ''auto'' w st = (r, st')" by fastforce
    from run show ?thesis
    proof (cases rule: execute_sweep_sent)
      case 1
      with x run show ?thesis by simp
    next
      case (2 y)
      then have "sweep_of D S c (sweep_asset S (tc_asset c), tc_cold c, d_round D ?a 7)"
        by (auto simp: sweep_of_def split: if_splits)
      moreover have "ts_sent ?st1 = ts_sent st @ [(sweep_asset S (tc_asset c), tc_cold c, d_round D ?a 7)]"
        using 2 x run by simp
      ultimately show ?thesis using x(1) by blast
    qed
  next
    case False
    then show ?thesis by (auto split: sum.split)
  qed
  from Cons obtain cs' ps where ih: "subseq cs' (filter tc_auto cs)" "list_all2 (sweep_of D S) cs' ps"
    "ts_sent (sweep_configs D N S V E (Suc k) cs w ?st1) = ts_sent ?st1 @ ps" by fastforce
  from one show ?case
  proof
    assume "ts_sent ?st1 = ts_sent st"
    with ih show ?thesis by (intro exI [of _ cs'] exI [of _ ps]) auto
  next
    assume "tc_auto c \<and> (\<exists>p. sweep_of D S c p \<and> ts_sent ?st1 = ts_sent st @ [p])"
    then obtain p where "tc_auto c" "sweep_of D S c p" "ts_sent ?st1 = ts_sent st @ [p]" by blast
    with ih show ?thesis by (intro exI [of _ "c # cs'"] exI [of _ "p # ps"]) simp
  qed
qed simp

section \<open>Properties\<close>

text \<open>A concrete fee wallet with a hundred units, one custodied account and a configuration.\<close>

definition hundred_pkg :: decimal_pkg where
  "hundred_pkg = reference_pkg\<lparr>d_parse := (\<lambda>s. if s = ''100.0000000'' then Some 100 else None)\<rparr>"

definition sample_treasury :: treasury_service where
  "sample_treasury = \<lparr>tr_fee_wallet = ''GFEE'', tr_secret = ''S'', tr_usdc_issuer = ''GI'', tr_eurc_issuer = '''',
     tr_rates = False, tr_hooks = True\<rparr>"

definition sample_view :: treasury_view where
  "sample_view = \<lparr>tv_config_q = None, tv_fee_account = Inr [('''', ''100.0000000'')], tv_rate = (\<lambda>_. Inl (Opaque ''down'')),
     tv_keys_q = None, tv_account = (\<lambda>_. Inr [('''', ''100.0000000''), (''USDC'', ''100.0000000'')]), tv_offers = (\<lambda>_. Inr 0),
     tv_fee_account2 = Inr []\<rparr>"

definition sample_sweep :: sweep_env where
  "sample_sweep = \<lparr>sx_view = sample_view, sx_uuid = ''u'', sx_now = 0, sx_record_q = None, sx_key = None, sx_load = Inr [],
     sx_build = None, sx_sign = None, sx_submit = Inr ''h'', sx_taken = True, sx_dispatch_q = None\<rparr>"

definition sample_config :: treasury_config where
  "sample_config = \<lparr>tc_asset = ''XLM'', tc_threshold = 10, tc_buffer = 20, tc_cold = ''GCOLD'', tc_auto = True, tc_updated = 0\<rparr>"

definition sample_treasury_state :: treasury_state where
  "sample_treasury_state = \<lparr>ts_configs = [sample_config], ts_sweeps = [], ts_sent = [], ts_events = []\<rparr>"

lemmas sample_treasury_defs = hundred_pkg_def sample_treasury_def sample_view_def sample_sweep_def sample_config_def
  sample_treasury_state_def

lemma hundred_pkg_doc: "decimal_doc hundred_pkg"
  using decimal_doc_reference by (simp add: decimal_doc_def hundred_pkg_def)

lemma sample_sweepable:
  "get_sweepable_amount hundred_pkg sample_treasury sample_view ''XLM'' (sample_world StatusPending) sample_treasury_state
     = Inr 77"
  by (simp add: get_sweepable_amount_def sample_treasury_defs get_config_def fee_balances_def asset_code_def
      get_reserve_requirement_def get_reserve_breakdown_def list_wallet_public_keys_def base_reserve_def sample_world_def
      Let_def)

text \<open>
  C24: a sweep of a positive amount that is reported as done sent one payment of the amount, rounded to seven
  places, and what the fee wallet held covers the payment, the buffer of the asset and, for the native
  asset, the reserve computed for the custodied accounts.
\<close>

theorem sweep_keeps_reserve:
  assumes "decimal_doc D" and "execute_sweep D N S E asset amount dest by_whom w st = (Inr h, st')" and "0 < amount"
    and "account_on_grid D (tv_fee_account (sx_view E))" and "\<forall>c \<in> set (ts_configs st). on_grid 7 (tc_buffer c)"
  shows "\<exists>cfg bs b reserve. config_of st asset = Some cfg \<and> fee_balances D S (sx_view E) = Inr bs \<and>
    row_with ab_asset asset bs = Some b \<and>
    (if asset = ''XLM'' then get_reserve_requirement D S (sx_view E) w else Inr 0) = Inr reserve \<and>
    ts_sent st' = ts_sent st @ [(sweep_asset S asset, dest, d_round D amount 7)] \<and>
    d_round D amount 7 + reserve + tc_buffer cfg \<le> ab_balance b"
  using assms(2)
proof (cases rule: execute_sweep_sent)
  case 1
  with assms(3) show ?thesis by simp
next
  case (2 x)
  note sent = \<open>ts_sent st' = _\<close> and le = \<open>amount \<le> x\<close>
  from 2(1) show ?thesis
  proof (cases rule: get_sweepable_cases)
    case 1
    with le assms(3) show ?thesis by simp
  next
    case (2 cfg bs b reserve)
    with row_with_SomeD [OF 2(1)] assms(5) have "on_grid 7 (tc_buffer cfg)" by blast
    with sweepable_grid [OF assms(4) 2(2-4)] have "on_grid 7 x" by (simp add: 2(5))
    from rounded_within [OF assms(1) this le] have "d_round D amount 7 + reserve + tc_buffer cfg \<le> ab_balance b"
      using 2(5) by simp
    with 2 sent show ?thesis by blast
  qed
qed

lemma sweep_keeps_reserve_witness:
  "\<exists>st'. execute_sweep hundred_pkg exact_numeric sample_treasury sample_sweep ''XLM'' 77 ''GCOLD'' ''manual''
      (sample_world StatusPending) sample_treasury_state = (Inr ''h'', st') \<and>
    ts_sent st' = [((''XLM'', ''''), ''GCOLD'', d_round hundred_pkg 77 7)]"
proof -
  have v: "sx_view sample_sweep = sample_view" by (simp add: sample_sweep_def)
  obtain st' where run: "execute_sweep hundred_pkg exact_numeric sample_treasury sample_sweep ''XLM'' 77 ''GCOLD'' ''manual''
      (sample_world StatusPending) sample_treasury_state = (Inr ''h'', st')"
    using sample_sweepable unfolding execute_sweep_def v by (simp add: Let_def sample_sweep_def sample_treasury_def)
  have "account_on_grid hundred_pkg (tv_fee_account (sx_view sample_sweep))"
    "\<forall>c \<in> set (ts_configs sample_treasury_state). on_grid 7 (tc_buffer c)"
    by (simp_all add: account_on_grid_def sample_treasury_defs on_grid_def)
  from sweep_keeps_reserve [OF hundred_pkg_doc run _ this] run show ?thesis
    by (auto simp: sweep_asset_def sample_treasury_state_def)
qed

text \<open>
  The reserve is at most what the ledger requires of the custodied accounts, two base reserves for
  each and one for each of their trust lines and offers, and exactly that if every account answered and
  none has more than 200 offers.
\<close>

theorem reserve_is_lower_bound:
  assumes "get_reserve_breakdown D S V w = Inr b" and "list_all (truthful V L) (map wa_public_key (w_wallets w))"
  shows "rb_required b \<le> ledger_reserve L (map wa_public_key (w_wallets w)) \<and>
    (list_all (reached V L) (map wa_public_key (w_wallets w)) \<longrightarrow>
       rb_required b = ledger_reserve L (map wa_public_key (w_wallets w)))"
proof -
  let ?ks = "map wa_public_key (w_wallets w)"
  obtain t f where n: "count_subentries V ?ks (0, 0) = (t, f)" by fastforce
  with assms(1) have b: "rb_wallets b = length ?ks" "rb_trustlines b = t" "rb_offers b = f"
    by (auto simp: get_reserve_breakdown_def list_wallet_public_keys_def Let_def split: option.splits)
  have "rb_required b = base_reserve * of_nat (2 * length ?ks + (t + f))"
    using reserve_halves [OF assms(1)] by (simp add: b add.assoc)
  with count_subentries_bound [OF n assms(2)] show ?thesis
    by (auto simp: ledger_reserve_def base_reserve_def simp del: of_nat_add of_nat_mult)
qed

lemma reserve_is_lower_bound_witness:
  "map_sum id rb_required (get_reserve_breakdown hundred_pkg sample_treasury sample_view (sample_world StatusPending)) = Inr 3"
proof -
  obtain b where b: "get_reserve_breakdown hundred_pkg sample_treasury sample_view (sample_world StatusPending) = Inr b"
    by (simp add: get_reserve_breakdown_def list_wallet_public_keys_def sample_view_def sample_world_def Let_def)
  have "list_all (truthful sample_view (\<lambda>_. (1, 0))) (map wa_public_key (w_wallets (sample_world StatusPending)))"
    "list_all (reached sample_view (\<lambda>_. (1, 0))) (map wa_public_key (w_wallets (sample_world StatusPending)))"
    by (simp_all add: sample_world_def truthful_def reached_def sample_view_def)
  with reserve_is_lower_bound [OF b this(1)] b show ?thesis
    by (simp add: ledger_reserve_def base_reserve_def sample_world_def)
qed

text \<open>
  A run of the daily task sends at most one payment for each asset with automatic sweeps, in the order of
  the configurations: to the asset's cold storage, and of an amount above its threshold before rounding.
\<close>

theorem daily_sweep_spec:
  assumes "handle_sweep D N S coll q V E w st = (e, st')" and "\<forall>c \<in> set (ts_configs st). 0 \<le> tc_threshold c"
  shows "\<exists>cs ps. subseq cs (filter tc_auto (sort_key (coll \<circ> tc_asset) (ts_configs st))) \<and>
    list_all2 (sweep_of D S) cs ps \<and> ts_sent st' = ts_sent st @ ps"
proof (cases q)
  case None
  let ?cs = "sort_key (coll \<circ> tc_asset) (ts_configs st)"
  from None assms(1) have st': "st' = sweep_configs D N S V E 0 ?cs w st" by (auto simp: handle_sweep_def list_config_def)
  have "\<forall>c \<in> set ?cs. 0 \<le> tc_threshold c" using assms(2) by simp
  from sweep_configs_sent [OF this, of D S N V E 0 w st] show ?thesis unfolding st' by blast
next
  case (Some x)
  with assms(1) have "st' = st" by (auto simp: handle_sweep_def list_config_def)
  then show ?thesis by (intro exI [of _ "[]"]) simp
qed

lemma daily_sweep_spec_witness:
  "\<exists>ps. ts_sent (snd (handle_sweep hundred_pkg exact_numeric sample_treasury length None (\<lambda>_. sample_view) (\<lambda>_. sample_sweep)
     (sample_world StatusPending) sample_treasury_state)) = ps \<and> length ps \<le> 1"
proof -
  have "\<forall>c \<in> set (ts_configs sample_treasury_state). 0 \<le> tc_threshold c"
    by (simp add: sample_treasury_state_def sample_config_def)
  from daily_sweep_spec [OF surjective_pairing this, where D = hundred_pkg and N = exact_numeric and S = sample_treasury
      and coll = length and q = None and V = "\<lambda>_. sample_view" and E = "\<lambda>_. sample_sweep" and w = "sample_world StatusPending"]
  obtain cs ps where
    "subseq cs (filter tc_auto (sort_key (length \<circ> tc_asset) (ts_configs sample_treasury_state)))"
    "list_all2 (sweep_of hundred_pkg sample_treasury) cs ps"
    "ts_sent (snd (handle_sweep hundred_pkg exact_numeric sample_treasury length None (\<lambda>_. sample_view) (\<lambda>_. sample_sweep)
      (sample_world StatusPending) sample_treasury_state)) = ts_sent sample_treasury_state @ ps" by blast
  note spec = this
  have "length cs \<le> 1"
    using list_emb_length [OF spec(1)] by (simp add: sample_treasury_state_def sample_config_def)
  with list_all2_lengthD [OF spec(2)] spec(3) show ?thesis by (simp add: sample_treasury_state_def)
qed

end
