(* ===== verification/Codecs.thy ===== *)
theory Codecs
  imports Prelude
begin

text \<open>
  Bytes as text: the base 58 of \<^verbatim>\<open>internal/apikey/apikey.go\<close>, and what \<^verbatim>\<open>internal/auth/jwt.go\<close> uses of the
  standard library, the unpadded URL alphabet of base 64 and \<^verbatim>\<open>strings.Split\<close>. Each encoding is read back
  by a decoder.
\<close>

section \<open>Digits\<close>

text \<open>The digits of a number, the least one first, as the division loop of \<^verbatim>\<open>base58Encode\<close> finds them.\<close>

function lsd :: "nat \<Rightarrow> nat \<Rightarrow> nat list" where
  "lsd B n = (if B < 2 \<or> n = 0 then [] else n mod B # lsd B (n div B))"
  by auto
termination by (relation "measure snd") auto

declare lsd.simps [simp del]

definition horner :: "nat \<Rightarrow> nat list \<Rightarrow> nat" where
  "horner B ds = foldl (\<lambda>n d. n * B + d) 0 ds"

lemma horner_simps [simp]: "horner B [] = 0" "horner B (ds @ [d]) = horner B ds * B + d"
  by (simp_all add: horner_def)

lemma horner_zeros: "horner B (replicate n 0 @ ds) = horner B ds"
  by (induction n) (simp_all add: horner_def)

lemma lsd_0 [simp]: "lsd B 0 = []"
  by (simp add: lsd.simps)

lemma lsd_step: "2 \<le> B \<Longrightarrow> d < B \<Longrightarrow> 0 < n * B + d \<Longrightarrow> lsd B (n * B + d) = d # lsd B n"
  by (subst lsd.simps) (auto simp: div_mult_self3)

lemma lsd_bounded: "list_all (\<lambda>d. d < B) (lsd B n)"
proof (induction B n rule: lsd.induct)
  case (1 B n)
  show ?case
  proof (cases "B < 2 \<or> n = 0")
    case True
    then show ?thesis by (subst lsd.simps) simp
  next
    case False
    with 1 show ?thesis by (subst lsd.simps) simp
  qed
qed

lemma horner_lsd: "2 \<le> B \<Longrightarrow> horner B (rev (lsd B n)) = n"
proof (induction B n rule: lsd.induct)
  case (1 B n)
  show ?case
  proof (cases "n = 0")
    case False
    with 1 have "horner B (rev (lsd B (n div B))) = n div B" by simp
    with False 1(2) show ?thesis by (subst lsd.simps) simp
  qed simp
qed

lemma lsd_leading: "2 \<le> B \<Longrightarrow> lsd B n \<noteq> [] \<Longrightarrow> last (lsd B n) \<noteq> 0"
proof (induction B n rule: lsd.induct)
  case (1 B n)
  then have n: "n \<noteq> 0" by (intro notI) simp
  then have step: "lsd B n = n mod B # lsd B (n div B)" using 1(2) by (subst lsd.simps) simp
  show ?case
  proof (cases "lsd B (n div B) = []")
    case True
    with 1(2) have "n div B = 0" by (metis horner_lsd horner_simps(1) rev.simps(1))
    with n have "n mod B \<noteq> 0" using 1(2) by (metis mult_0_right add_0 div_mult_mod_eq mult_0)
    with True step show ?thesis by simp
  next
    case False
    with 1 n step show ?thesis by simp
  qed
qed

lemma lsd_horner:
  assumes "2 \<le> B" and "list_all (\<lambda>d. d < B) ds" and "ds \<noteq> [] \<Longrightarrow> hd ds \<noteq> 0"
  shows "lsd B (horner B ds) = rev ds \<and> (ds \<noteq> [] \<longrightarrow> 0 < horner B ds)"
  using assms(2,3)
proof (induction ds rule: rev_induct)
  case (snoc d ds)
  have pos: "0 < horner B ds * B + d"
  proof (cases "ds = []")
    case True
    with snoc.prems show ?thesis by simp
  next
    case False
    with snoc show ?thesis using assms(1) by simp
  qed
  have "lsd B (horner B ds) = rev ds"
    using snoc by (cases "ds = []") simp_all
  with lsd_step [OF assms(1) _ pos] snoc.prems(1) pos show ?case by simp
qed simp

section \<open>Alphabets\<close>

definition char_index :: "string \<Rightarrow> char \<Rightarrow> nat option" where
  "char_index A c = (if c \<in> set A then Some (length (takeWhile (\<lambda>x. x \<noteq> c) A)) else None)"

lemma char_index_nth: "distinct A \<Longrightarrow> i < length A \<Longrightarrow> char_index A (A ! i) = Some i"
proof (induction A arbitrary: i)
  case (Cons a A)
  then show ?case
    by (cases i) (auto simp: char_index_def split: if_splits)
qed simp

section \<open>Base 58\<close>

definition b58_alphabet :: string where
  "b58_alphabet = ''123456789ABCDEFGHJKLMNPQRSTUVWXYZabcdefghijkmnopqrstuvwxyz''"

definition nul :: char where "nul = char_of (0 :: nat)"

definition byte_values :: "string \<Rightarrow> nat list" where
  "byte_values = map of_char"

definition base58_encode :: "string \<Rightarrow> string" where
  "base58_encode b =
     replicate (length (takeWhile (\<lambda>c. c = nul) b)) (b58_alphabet ! 0) @
     map (\<lambda>d. b58_alphabet ! d) (rev (lsd 58 (horner 256 (byte_values b))))"

definition base58_decode :: "string \<Rightarrow> string" where
  "base58_decode s =
     (let z = length (takeWhile (\<lambda>c. c = b58_alphabet ! 0) s);
          ds = map (\<lambda>c. the_default 0 (char_index b58_alphabet c)) (drop z s)
      in replicate z nul @ map char_of (rev (lsd 256 (horner 58 ds))))"

lemma b58_alphabet_facts: "distinct b58_alphabet" "length b58_alphabet = 58"
  by (simp_all add: b58_alphabet_def)

lemma byte_values_bounded: "list_all (\<lambda>d. d < 256) (byte_values b)"
  by (simp add: byte_values_def list_all_iff)

lemma char_of_byte_values [simp]: "map char_of (byte_values b) = b"
  by (simp add: byte_values_def comp_def map_idI)

text \<open>Leading zero bytes, and the rest, which starts with another byte.\<close>

lemma leading_zeros: "b = replicate (length (takeWhile (\<lambda>c. c = nul) b)) nul @ dropWhile (\<lambda>c. c = nul) b"
proof -
  have "takeWhile (\<lambda>c. c = nul) b = replicate (length (takeWhile (\<lambda>c. c = nul) b)) nul"
    by (induction b) auto
  with takeWhile_dropWhile_id [of "\<lambda>c. c = nul" b] show ?thesis by metis
qed

lemma base58_round_trip: "base58_decode (base58_encode b) = b"
proof -
  let ?A = "b58_alphabet"
  define z where "z = length (takeWhile (\<lambda>c. c = nul) b)"
  define r where "r = dropWhile (\<lambda>c. c = nul) b"
  have b: "b = replicate z nul @ r" unfolding z_def r_def by (rule leading_zeros)
  have nul0: "of_char nul = (0 :: nat)" by (simp add: nul_def)
  have v: "horner 256 (byte_values b) = horner 256 (byte_values r)"
    by (subst b) (simp add: byte_values_def nul0 horner_zeros)
  have hd: "hd (byte_values r) \<noteq> 0" if "byte_values r \<noteq> []"
  proof -
    from that have "r \<noteq> []" by (simp add: byte_values_def)
    then have "hd r \<noteq> nul" using hd_dropWhile [of "\<lambda>c. c = nul" b] by (simp add: r_def)
    moreover have "hd r = nul" if "of_char (hd r) = (0 :: nat)"
    proof -
      from that have "char_of (of_char (hd r) :: nat) = nul" by (simp only: nul_def)
      then show ?thesis by simp
    qed
    ultimately show ?thesis using \<open>r \<noteq> []\<close> by (auto simp: byte_values_def hd_map)
  qed
  from lsd_horner [OF _ byte_values_bounded, of r] hd
  have bytes: "lsd 256 (horner 256 (byte_values r)) = rev (byte_values r)" by simp
  define ds where "ds = rev (lsd 58 (horner 256 (byte_values b)))"
  have ds: "list_all (\<lambda>d. d < 58) ds" using lsd_bounded [of 58] by (simp add: ds_def)
  have lead: "ds \<noteq> [] \<Longrightarrow> hd ds \<noteq> 0" using lsd_leading [of 58] by (simp add: ds_def hd_rev)
  have idx: "char_index ?A (?A ! d) = Some d" if "d < 58" for d
    using that b58_alphabet_facts by (intro char_index_nth) simp_all
  have enc: "base58_encode b = replicate z (?A ! 0) @ map (\<lambda>d. ?A ! d) ds"
    by (simp add: base58_encode_def z_def ds_def)
  have "takeWhile (\<lambda>c. c = ?A ! 0) (map (\<lambda>d. ?A ! d) ds) = []"
  proof (cases ds)
    case (Cons d ds')
    with ds lead have "d < 58" "d \<noteq> 0" by auto
    with idx [of d] idx [of 0] have "?A ! d \<noteq> ?A ! 0" by (metis option.inject zero_less_numeral)
    with Cons show ?thesis by simp
  qed simp
  then have tw: "length (takeWhile (\<lambda>c. c = ?A ! 0) (base58_encode b)) = z"
    by (simp add: enc takeWhile_append)
  have "map (\<lambda>c. the_default 0 (char_index ?A c)) (map (\<lambda>d. ?A ! d) ds) = ds"
    using ds by (simp add: list_all_iff idx map_idI)
  then have "map (\<lambda>c. the_default 0 (char_index ?A c)) (drop z (base58_encode b)) = ds" by (simp add: enc)
  moreover have "horner 58 ds = horner 256 (byte_values r)"
    using horner_lsd [of 58] by (simp add: ds_def v)
  ultimately show ?thesis by (simp add: base58_decode_def tw bytes b [symmetric])
qed

section \<open>Base 64\<close>

definition b64_alphabet :: string where
  "b64_alphabet = ''ABCDEFGHIJKLMNOPQRSTUVWXYZabcdefghijklmnopqrstuvwxyz0123456789-_''"

text \<open>Groups of three bytes as four digits, with two or three digits for a last group of one or two.\<close>

fun b64_groups :: "nat list \<Rightarrow> nat list" where
  "b64_groups [] = []"
| "b64_groups [a] = (let n = a * 16 in [n div 64, n mod 64])"
| "b64_groups [a, b] = (let n = (a * 256 + b) * 4 in [n div 4096, n div 64 mod 64, n mod 64])"
| "b64_groups (a # b # c # r) =
     (let n = a * 65536 + b * 256 + c in n div 262144 # n div 4096 mod 64 # n div 64 mod 64 # n mod 64 # b64_groups r)"

fun b64_bytes :: "nat list \<Rightarrow> nat list option" where
  "b64_bytes [] = Some []"
| "b64_bytes [w] = None"
| "b64_bytes [w, x] = Some [(w * 64 + x) div 16]"
| "b64_bytes [w, x, y] = (let n = (w * 4096 + x * 64 + y) div 4 in Some [n div 256, n mod 256])"
| "b64_bytes (w # x # y # z # r) =
     (let n = w * 262144 + x * 4096 + y * 64 + z in
      map_option (\<lambda>bs. n div 65536 # n div 256 mod 256 # n mod 256 # bs) (b64_bytes r))"

definition b64_encode :: "string \<Rightarrow> string" where
  "b64_encode b = map (\<lambda>d. b64_alphabet ! d) (b64_groups (byte_values b))"

text \<open>The decoder skips carriage returns and line feeds; the last bits of a short group are not looked at.\<close>

definition b64_decode :: "string \<Rightarrow> string option" where
  "b64_decode s =
     (case those (map (char_index b64_alphabet) (filter (\<lambda>c. c \<noteq> CHR 0x0A \<and> c \<noteq> CHR 0x0D) s)) of None \<Rightarrow> None
      | Some ds \<Rightarrow> map_option (map char_of) (b64_bytes ds))"

lemma b64_alphabet_facts: "distinct b64_alphabet" "length b64_alphabet = 64"
  "CHR 0x0A \<notin> set b64_alphabet" "CHR 0x0D \<notin> set b64_alphabet" "CHR ''.'' \<notin> set b64_alphabet"
  by (simp_all add: b64_alphabet_def)

lemma b64_groups_bounded: "list_all (\<lambda>d. d < 256) bs \<Longrightarrow> list_all (\<lambda>d. d < 64) (b64_groups bs)"
  by (induction bs rule: b64_groups.induct) (auto simp: Let_def)

lemma two_digits: "n div (b * b) * (b * b) + n div b mod b * b + n mod b = (n :: nat)"
proof -
  have "(n div b div b * b + n div b mod b) * b + n mod b = n" by simp
  then show ?thesis by (metis div_mult2_eq distrib_right mult.assoc)
qed

lemma three_digits: "n div (b * b * b) * (b * b * b) + n div (b * b) mod b * (b * b) + n div b mod b * b + n mod b = (n :: nat)"
proof -
  have "(n div b div (b * b) * (b * b) + n div b div b mod b * b + n div b mod b) * b + n mod b = n"
    by (simp only: two_digits div_mult_mod_eq)
  then show ?thesis by (simp add: div_mult2_eq algebra_simps)
qed

lemma b64_bytes_groups: "list_all (\<lambda>d. d < 256) bs \<Longrightarrow> b64_bytes (b64_groups bs) = Some bs"
proof (induction bs rule: b64_groups.induct)
  case (2 a)
  define n where "n = a * 16"
  have "n div 64 * 64 + n mod 64 = n" by presburger
  then show ?case by (simp add: Let_def n_def [symmetric]) (simp add: n_def)
next
  case (3 a b)
  define n where "n = (a * 256 + b) * 4"
  have "n div 4096 * 4096 + n div 64 mod 64 * 64 + n mod 64 = n" using two_digits [of n 64] by simp
  moreover have "n div 4 = a * 256 + b" by (simp add: n_def)
  ultimately show ?case using 3 unfolding b64_groups.simps b64_bytes.simps Let_def n_def [symmetric] by simp
next
  case (4 a b c r)
  define n where "n = a * 65536 + b * 256 + c"
  have "n div 262144 * 262144 + n div 4096 mod 64 * 4096 + n div 64 mod 64 * 64 + n mod 64 = n"
    using three_digits [of n 64] by simp
  moreover have "n div 65536 = a" "n div 256 mod 256 = b" "n mod 256 = c"
  proof -
    have n: "n = (a * 256 + b) * 256 + c" by (simp add: n_def)
    have abc: "b < 256" "c < 256" using 4(2) by simp_all
    have md: "(x * 256 + y) mod 256 = y" "(x * 256 + y) div 256 = x" if "y < 256" for x y :: nat using that by simp_all
    show "n mod 256 = c" unfolding n by (rule md) (rule abc)
    have d: "n div 256 = a * 256 + b" unfolding n by (rule md) (rule abc)
    with abc show "n div 256 mod 256 = b" by simp
    have "n div 65536 = n div 256 div 256" by (simp add: div_mult2_eq [symmetric])
    with d abc show "n div 65536 = a" by simp
  qed
  ultimately show ?case using 4 by (simp add: Let_def n_def [symmetric])
qed simp

lemma those_map_Some: "(\<And>x. x \<in> set xs \<Longrightarrow> f (g x) = Some x) \<Longrightarrow> those (map f (map g xs)) = Some xs"
  by (induction xs) auto

lemma b64_encode_chars: "set (b64_encode b) \<subseteq> set b64_alphabet"
  using b64_groups_bounded [OF byte_values_bounded, of b]
  by (auto simp: b64_encode_def list_all_iff b64_alphabet_facts intro!: nth_mem)

lemma b64_round_trip: "b64_decode (b64_encode b) = Some b"
proof -
  let ?ds = "b64_groups (byte_values b)"
  have ds: "\<forall>d \<in> set ?ds. d < 64"
    using b64_groups_bounded [OF byte_values_bounded, of b] by (simp add: list_all_iff)
  have "filter (\<lambda>c. c \<noteq> CHR 0x0A \<and> c \<noteq> CHR 0x0D) (b64_encode b) = b64_encode b"
    using b64_encode_chars [of b] b64_alphabet_facts(3,4) by (intro filter_True) auto
  moreover have "those (map (char_index b64_alphabet) (map (\<lambda>d. b64_alphabet ! d) ?ds)) = Some ?ds"
    by (rule those_map_Some) (simp add: char_index_nth b64_alphabet_facts ds)
  ultimately show ?thesis
    by (simp add: b64_decode_def b64_encode_def b64_bytes_groups byte_values_bounded)
qed

section \<open>Splitting\<close>

text \<open>\<^verbatim>\<open>strings.Split\<close> at one character: always at least one part.\<close>

fun split_at :: "char \<Rightarrow> string \<Rightarrow> string list" where
  "split_at x [] = [[]]"
| "split_at x (c # cs) = (if c = x then [] # split_at x cs
     else case split_at x cs of [] \<Rightarrow> [[c]] | p # ps \<Rightarrow> (c # p) # ps)"

lemma split_at_not_empty [simp]: "split_at x s \<noteq> []"
  by (cases s) (auto split: list.split)

lemma split_at_none: "x \<notin> set s \<Longrightarrow> split_at x s = [s]"
  by (induction s) auto

lemma split_at_first: "x \<notin> set s \<Longrightarrow> split_at x (s @ x # t) = s # split_at x t"
  by (induction s) auto

lemma length_split_at: "length (split_at x s) = Suc (count_list s x)"
proof (induction s)
  case (Cons c s)
  then show ?case using split_at_not_empty [of x s] by (auto split: list.split)
qed simp

end
