(* ===== verification/Accounts.thy ===== *)
theory Accounts
  imports Samples One_Shot Codecs Signature
begin

text \<open>
  Users, tenants, their members, invitations and API keys: \<^verbatim>\<open>internal/postgres/user_repo.go\<close>,
  \<^verbatim>\<open>tenant_repo.go\<close>, \<^verbatim>\<open>org_repo.go\<close> and \<^verbatim>\<open>apikey_repo.go\<close>, \<^verbatim>\<open>internal/auth/service.go\<close> and
  \<^verbatim>\<open>jwt.go\<close>, \<^verbatim>\<open>internal/org/service.go\<close>, \<^verbatim>\<open>internal/apikey\<close>. The password hash, the keyed hash of the
  tokens and the JSON of their claims are parameters, as are clock and random identifiers.
\<close>

section \<open>Tables\<close>

record user =
  us_id :: string
  us_email :: string
  us_hash :: string
  us_name :: string
  us_created :: go_time

text \<open>The columns of a tenant that only accounts use, on top of those of \<^theory_text>\<open>Domain\<close>.\<close>

record tenant_row = tenant +
  tn_name :: string
  tn_email :: string
  tn_created :: go_time

record member =
  me_id :: string
  me_tenant :: string
  me_user :: string
  me_role :: string
  me_by :: "string option"
  me_created :: go_time

record invite =
  iv_id :: string
  iv_tenant :: string
  iv_email :: string
  iv_role :: string
  iv_token :: string
  iv_status :: string
  iv_by :: "string option"
  iv_created :: go_time
  iv_expires :: go_time

record api_key =
  ak_id :: string
  ak_tenant :: string
  ak_hash :: string
  ak_prefix :: string
  ak_label :: "string option"
  ak_used :: "go_time option"
  ak_revoked :: "go_time option"
  ak_created :: go_time

record accounts =
  ac_users :: "user list"
  ac_tenants :: "tenant_row list"
  ac_members :: "member list"
  ac_invites :: "invite list"
  ac_keys :: "api_key list"

definition roles :: "string list" where
  "roles = [''owner'', ''admin'', ''developer'', ''viewer'']"

section \<open>Repositories\<close>

abbreviation user_with :: "accounts \<Rightarrow> string \<Rightarrow> user option" where
  "user_with A i \<equiv> row_with us_id i (ac_users A)"

abbreviation user_by_email :: "accounts \<Rightarrow> string \<Rightarrow> user option" where
  "user_by_email A e \<equiv> row_with us_email e (ac_users A)"

abbreviation tenant_with :: "accounts \<Rightarrow> string \<Rightarrow> tenant_row option" where
  "tenant_with A i \<equiv> row_with te_id i (ac_tenants A)"

abbreviation membership :: "accounts \<Rightarrow> string \<Rightarrow> string \<Rightarrow> member option" where
  "membership A t u \<equiv> row_with (\<lambda>m. (me_tenant m, me_user m)) (t, u) (ac_members A)"

definition create_user :: "err option \<Rightarrow> user \<Rightarrow> accounts \<Rightarrow> err option \<times> accounts" where
  "create_user q u A =
     (case q of Some e \<Rightarrow> (Some (Wrap ''insert user'' e), A)
      | None \<Rightarrow>
        if user_with A (us_id u) \<noteq> None \<or> user_by_email A (us_email u) \<noteq> None
        then (Some (Wrap ''insert user'' unique_violation), A)
        else (None, A\<lparr>ac_users := ac_users A @ [u]\<rparr>))"

definition get_by_email :: "err option \<Rightarrow> string \<Rightarrow> accounts \<Rightarrow> err + user" where
  "get_by_email q e A =
     (case q of Some x \<Rightarrow> Inl (Wrap ''get user by email'' x)
      | None \<Rightarrow> (case user_by_email A e of None \<Rightarrow> Inl (Dom ErrUserNotFound) | Some u \<Rightarrow> Inr u))"

definition get_user :: "err option \<Rightarrow> string \<Rightarrow> accounts \<Rightarrow> err + user" where
  "get_user q i A =
     (case q of Some x \<Rightarrow> Inl (Wrap ''get user by id'' x)
      | None \<Rightarrow> (case user_with A i of None \<Rightarrow> Inl (Dom ErrUserNotFound) | Some u \<Rightarrow> Inr u))"

text \<open>An empty account type is the column's default.\<close>

definition create_tenant :: "err option \<Rightarrow> tenant_row \<Rightarrow> accounts \<Rightarrow> err option \<times> accounts" where
  "create_tenant q t A =
     (let row = (if te_account t = AccountOther '''' then t\<lparr>te_account := AccountIndividual\<rparr> else t) in
      case q of Some e \<Rightarrow> (Some (Wrap ''insert tenant'' e), A)
      | None \<Rightarrow>
        if tenant_with A (te_id t) \<noteq> None \<or> row_with tn_email (tn_email t) (ac_tenants A) \<noteq> None
        then (Some (Wrap ''insert tenant'' unique_violation), A)
        else (None, A\<lparr>ac_tenants := ac_tenants A @ [row]\<rparr>))"

definition get_tenant_row :: "err option \<Rightarrow> string \<Rightarrow> accounts \<Rightarrow> err + tenant_row" where
  "get_tenant_row q i A =
     (case q of Some x \<Rightarrow> Inl (Wrap ''get tenant by id'' x)
      | None \<Rightarrow> (case tenant_with A i of None \<Rightarrow> Inl (Opaque ''tenant not found'') | Some t \<Rightarrow> Inr t))"

text \<open>The references of a member: tenant, user and the user who invited.\<close>



definition add_member :: "err option \<Rightarrow> member \<Rightarrow> accounts \<Rightarrow> err option \<times> accounts" where
  "add_member q m A =
     (let row = m\<lparr>me_by := null_ptr (me_by m)\<rparr> in
      case (if q \<noteq> None then q
            else if row_with me_id (me_id m) (ac_members A) \<noteq> None \<or> membership A (me_tenant m) (me_user m) \<noteq> None
            then Some unique_violation
            else if tenant_with A (me_tenant m) = None \<or> user_with A (me_user m) = None \<or>
              (case me_by row of None \<Rightarrow> False | Some u \<Rightarrow> user_with A u = None)
            then Some foreign_key_violation else None) of
        Some e \<Rightarrow> (Some (Wrap ''add org member'' e), A)
      | None \<Rightarrow> (None, A\<lparr>ac_members := ac_members A @ [row]\<rparr>))"

definition get_member :: "err option \<Rightarrow> string \<Rightarrow> string \<Rightarrow> accounts \<Rightarrow> err + member" where
  "get_member q t u A =
     (case q of Some x \<Rightarrow> Inl (Wrap ''get member'' x)
      | None \<Rightarrow> (case membership A t u of None \<Rightarrow> Inl (Dom ErrOrgMemberNotFound) | Some m \<Rightarrow> Inr m))"

text \<open>The oldest membership of a user.\<close>

definition get_user_active_member :: "err option \<Rightarrow> string \<Rightarrow> accounts \<Rightarrow> err + member" where
  "get_user_active_member q u A =
     (case q of Some x \<Rightarrow> Inl (Wrap ''get user active member'' x)
      | None \<Rightarrow> (case sort_key me_created (filter (\<lambda>m. me_user m = u) (ac_members A)) of
          [] \<Rightarrow> Inl (Dom ErrOrgMemberNotFound) | m # ms \<Rightarrow> Inr m))"

definition list_members :: "err option \<Rightarrow> string \<Rightarrow> accounts \<Rightarrow> err + (member \<times> user) list" where
  "list_members q t A =
     (case q of Some x \<Rightarrow> Inl (Wrap ''list org members'' x)
      | None \<Rightarrow> Inr (List.map_filter (\<lambda>m. map_option (\<lambda>u. (m, u)) (user_with A (me_user m)))
          (sort_key me_created (filter (\<lambda>m. me_tenant m = t) (ac_members A)))))"

definition update_member_role :: "err option \<Rightarrow> string \<Rightarrow> string \<Rightarrow> string \<Rightarrow> accounts \<Rightarrow> err option \<times> accounts" where
  "update_member_role q t u role A =
     (let P = (\<lambda>m. me_tenant m = t \<and> me_user m = u) in
      case q of Some e \<Rightarrow> (Some (Wrap ''update member role'' e), A)
      | None \<Rightarrow>
        if rows_affected P (ac_members A) = 0 then (Some (Dom ErrOrgMemberNotFound), A)
        else (None, A\<lparr>ac_members := update_where P (\<lambda>m. m\<lparr>me_role := role\<rparr>) (ac_members A)\<rparr>))"

definition remove_member :: "err option \<Rightarrow> string \<Rightarrow> string \<Rightarrow> accounts \<Rightarrow> err option \<times> accounts" where
  "remove_member q t u A =
     (let P = (\<lambda>m. me_tenant m = t \<and> me_user m = u) in
      case q of Some e \<Rightarrow> (Some (Wrap ''remove org member'' e), A)
      | None \<Rightarrow>
        if rows_affected P (ac_members A) = 0 then (Some (Dom ErrOrgMemberNotFound), A)
        else (None, A\<lparr>ac_members := filter (\<lambda>m. \<not> P m) (ac_members A)\<rparr>))"

definition create_invite :: "err option \<Rightarrow> invite \<Rightarrow> accounts \<Rightarrow> err option \<times> accounts" where
  "create_invite q v A =
     (let row = v\<lparr>iv_by := null_ptr (iv_by v)\<rparr> in
      case (if q \<noteq> None then q
            else if row_with iv_id (iv_id v) (ac_invites A) \<noteq> None \<or> row_with iv_token (iv_token v) (ac_invites A) \<noteq> None
            then Some unique_violation
            else if tenant_with A (iv_tenant v) = None \<or> (case iv_by row of None \<Rightarrow> False | Some u \<Rightarrow> user_with A u = None)
            then Some foreign_key_violation else None) of
        Some e \<Rightarrow> (Some (Wrap ''create org invite'' e), A)
      | None \<Rightarrow> (None, A\<lparr>ac_invites := ac_invites A @ [row]\<rparr>))"

definition get_invite_by_token :: "err option \<Rightarrow> string \<Rightarrow> accounts \<Rightarrow> err + invite" where
  "get_invite_by_token q tok A =
     (case q of Some x \<Rightarrow> Inl (Wrap ''get invite by token'' x)
      | None \<Rightarrow> (case row_with iv_token tok (ac_invites A) of None \<Rightarrow> Inl (Dom ErrInviteNotFound) | Some v \<Rightarrow> Inr v))"

definition update_invite_status :: "err option \<Rightarrow> string \<Rightarrow> string \<Rightarrow> accounts \<Rightarrow> err option \<times> accounts" where
  "update_invite_status q i s A =
     (case q of Some e \<Rightarrow> (Some e, A)
      | None \<Rightarrow> (None, A\<lparr>ac_invites := update_where (\<lambda>v. iv_id v = i) (\<lambda>v. v\<lparr>iv_status := s\<rparr>) (ac_invites A)\<rparr>))"

definition create_api_key :: "err option \<Rightarrow> api_key \<Rightarrow> accounts \<Rightarrow> err option \<times> accounts" where
  "create_api_key q k A =
     (case (if q \<noteq> None then q
            else if row_with ak_id (ak_id k) (ac_keys A) \<noteq> None then Some unique_violation
            else if tenant_with A (ak_tenant k) = None then Some foreign_key_violation else None) of
        Some e \<Rightarrow> (Some (Wrap ''insert api_key'' e), A)
      | None \<Rightarrow> (None, A\<lparr>ac_keys := ac_keys A @ [k\<lparr>ak_used := None, ak_revoked := None\<rparr>]\<rparr>))"

definition get_by_hash :: "err option \<Rightarrow> string \<Rightarrow> accounts \<Rightarrow> err + api_key" where
  "get_by_hash q h A =
     (case q of Some x \<Rightarrow> Inl (Wrap ''get api_key by hash'' x)
      | None \<Rightarrow> (case row_with ak_hash h (ac_keys A) of None \<Rightarrow> Inl (Opaque ''api key not found'') | Some k \<Rightarrow> Inr k))"

definition list_keys :: "err option \<Rightarrow> string \<Rightarrow> accounts \<Rightarrow> err + api_key list" where
  "list_keys q t A =
     (case q of Some x \<Rightarrow> Inl (Wrap ''list api_keys'' x)
      | None \<Rightarrow> Inr (sort_key (\<lambda>k. - ak_created k) (filter (\<lambda>k. ak_tenant k = t) (ac_keys A))))"

definition revoke_key :: "err option \<Rightarrow> go_time \<Rightarrow> string \<Rightarrow> string \<Rightarrow> accounts \<Rightarrow> err option \<times> accounts" where
  "revoke_key q now i t A =
     (let P = (\<lambda>k. ak_id k = i \<and> ak_tenant k = t) in
      case q of Some e \<Rightarrow> (Some (Wrap ''revoke api_key'' e), A)
      | None \<Rightarrow>
        if rows_affected P (ac_keys A) = 0 then (Some (Opaque ''api key not found or not owned by tenant''), A)
        else (None, A\<lparr>ac_keys := update_where P (\<lambda>k. k\<lparr>ak_revoked := Some now\<rparr>) (ac_keys A)\<rparr>))"

definition update_last_used :: "err option \<Rightarrow> go_time \<Rightarrow> string \<Rightarrow> accounts \<Rightarrow> err option \<times> accounts" where
  "update_last_used q now i A =
     (case q of Some e \<Rightarrow> (Some (Wrap ''update api_key last_used'' e), A)
      | None \<Rightarrow> (None, A\<lparr>ac_keys := update_where (\<lambda>k. ak_id k = i) (\<lambda>k. k\<lparr>ak_used := Some now\<rparr>) (ac_keys A)\<rparr>))"

section \<open>Tokens\<close>

record claims =
  cl_sub :: string
  cl_tenant :: string
  cl_role :: string
  cl_email :: string
  cl_type :: string
  cl_exp :: int
  cl_iat :: int

text \<open>The keyed hash, and the JSON of the claims in both directions.\<close>

record jwt_pkg =
  jw_mac :: "string \<Rightarrow> string \<Rightarrow> string"
  jw_json :: "claims \<Rightarrow> string"
  jw_unjson :: "string \<Rightarrow> claims option"

definition jwt_header :: string where
  \<open>jwt_header = ''{"alg":"HS256","typ":"JWT"}''\<close>

definition new_claims ::
  "go_time \<Rightarrow> string \<Rightarrow> string \<Rightarrow> string \<Rightarrow> string \<Rightarrow> string \<Rightarrow> int \<Rightarrow> claims" where
  "new_claims now uid t role email kind duration =
     \<lparr>cl_sub = uid, cl_tenant = t, cl_role = role, cl_email = email, cl_type = kind,
      cl_exp = unix (now + duration), cl_iat = unix now\<rparr>"

definition unsigned_token :: "jwt_pkg \<Rightarrow> claims \<Rightarrow> string" where
  "unsigned_token J c = b64_encode jwt_header @ ''.'' @ b64_encode (jw_json J c)"

definition generate_token ::
  "jwt_pkg \<Rightarrow> string \<Rightarrow> go_time \<Rightarrow> string \<Rightarrow> string \<Rightarrow> string \<Rightarrow> string \<Rightarrow> string \<Rightarrow> int \<Rightarrow> string" where
  "generate_token J secret now uid t role email kind duration =
     (let unsigned = unsigned_token J (new_claims now uid t role email kind duration)
      in unsigned @ ''.'' @ b64_encode (jw_mac J secret unsigned))"

definition parse_token :: "jwt_pkg \<Rightarrow> string \<Rightarrow> go_time \<Rightarrow> string \<Rightarrow> err + claims" where
  "parse_token J secret now s =
     (case split_at (CHR ''.'') s of
        [h, c, g] \<Rightarrow>
          (case b64_decode g of None \<Rightarrow> Inl (Opaque ''invalid signature encoding'')
           | Some sig \<Rightarrow>
             if sig \<noteq> jw_mac J secret (h @ ''.'' @ c) then Inl (Opaque ''invalid token signature'')
             else (case b64_decode c of None \<Rightarrow> Inl (Opaque ''invalid claims encoding'')
               | Some j \<Rightarrow>
                 (case jw_unjson J j of None \<Rightarrow> Inl (Opaque ''failed to parse claims'')
                  | Some cl \<Rightarrow> if unix now > cl_exp cl then Inl (Opaque ''token expired'') else Inr cl)))
      | _ \<Rightarrow> Inl (Opaque ''invalid token format''))"

section \<open>Registration, login, refresh\<close>

text \<open>What one call meets: a query error for each statement, clock readings, identifiers, the password hash.\<close>

datatype auth_stage =
  AtUserByEmail | AtUserById | AtUserCreate | AtTenantCreate | AtTenantGet | AtMemberAdd | AtMemberGet
  | AtInviteGet | AtInviteCreate | AtInviteUpdate

record auth_env =
  av_q :: "auth_stage \<Rightarrow> err option"
  av_clock :: "nat \<Rightarrow> go_time"
  av_uuid :: "nat \<Rightarrow> string"
  av_random :: "err + string"
  av_bcrypt :: "string \<Rightarrow> err + string"
  av_compare :: "string \<Rightarrow> string \<Rightarrow> bool"
  av_jwt :: jwt_pkg
  av_secret :: string

record auth_response =
  ap_user :: user
  ap_tenant :: tenant_row
  ap_role :: string
  ap_access :: string
  ap_refresh :: string

definition access_ttl :: int where "access_ttl = 24 * hour"
definition refresh_ttl :: int where "refresh_ttl = 7 * 24 * hour"

text \<open>The two tokens, the \<open>k\<close>th and the next reading of the clock.\<close>

definition respond :: "auth_env \<Rightarrow> nat \<Rightarrow> user \<Rightarrow> tenant_row \<Rightarrow> string \<Rightarrow> auth_response" where
  "respond E k u t role =
     \<lparr>ap_user = u, ap_tenant = t, ap_role = role,
      ap_access = generate_token (av_jwt E) (av_secret E) (av_clock E k) (us_id u) (te_id t) role (us_email u)
        ''access'' access_ttl,
      ap_refresh = generate_token (av_jwt E) (av_secret E) (av_clock E (Suc k)) (us_id u) (te_id t) role (us_email u)
        ''refresh'' refresh_ttl\<rparr>"

record register_request =
  rr_email :: string
  rr_password :: string
  rr_name :: string
  rr_account :: string
  rr_org :: string

definition account_of_text :: "string \<Rightarrow> account_type option" where
  "account_of_text s = (if s = '''' \<or> s = ''individual'' then Some AccountIndividual
     else if s = ''organization'' then Some AccountOrganization else None)"

definition bad_account_type :: err where
  "bad_account_type = Opaque (''account_type must be '' @ [CHR 0x27] @ ''individual'' @ [CHR 0x27] @ '' or '' @ [CHR 0x27] @
     ''organization'' @ [CHR 0x27])"

definition register :: "auth_env \<Rightarrow> register_request \<Rightarrow> accounts \<Rightarrow> (err + auth_response) \<times> accounts" where
  "register E r A =
     (if rr_email r = '''' \<or> rr_password r = '''' \<or> rr_name r = ''''
      then (Inl (Opaque ''email, password, and name are required''), A)
      else case account_of_text (rr_account r) of
        None \<Rightarrow> (Inl bad_account_type, A)
      | Some kind \<Rightarrow>
      if kind = AccountOrganization \<and> rr_org r = ''''
      then (Inl (Opaque ''org_name is required for organization account registration''), A)
      else if \<not> isl (get_by_email (av_q E AtUserByEmail) (rr_email r) A) then (Inl (Dom ErrUserAlreadyExists), A)
      else case av_bcrypt E (rr_password r) of Inl e \<Rightarrow> (Inl (Wrap ''hash password'' e), A)
      | Inr hash \<Rightarrow>
     (let now = av_clock E 0;
          u = \<lparr>us_id = av_uuid E 0, us_email = rr_email r, us_hash = hash, us_name = rr_name r, us_created = now\<rparr>;
          t = \<lparr>te_id = av_uuid E 1, te_account = kind, te_max_wallets = None, te_max_transfers = None,
               te_max_webhooks = None,
               tn_name = (if kind = AccountOrganization then rr_org r else rr_name r @ CHR 0x27 # ''s Tenant''),
               tn_email = rr_email r, tn_created = now\<rparr>;
          m = \<lparr>me_id = av_uuid E 2, me_tenant = av_uuid E 1, me_user = av_uuid E 0, me_role = ''owner'', me_by = None,
               me_created = now\<rparr>
      in case create_user (av_q E AtUserCreate) u A of (Some e, A1) \<Rightarrow> (Inl (Wrap ''create user'' e), A1)
      | (None, A1) \<Rightarrow>
     (case create_tenant (av_q E AtTenantCreate) t A1 of (Some e, A2) \<Rightarrow> (Inl (Wrap ''create tenant'' e), A2)
      | (None, A2) \<Rightarrow>
     (case add_member (av_q E AtMemberAdd) m A2 of (Some e, A3) \<Rightarrow> (Inl (Wrap ''add owner member'' e), A3)
      | (None, A3) \<Rightarrow> (Inr (respond E 1 u t ''owner''), A3)))))"

definition login :: "auth_env \<Rightarrow> string \<Rightarrow> string \<Rightarrow> accounts \<Rightarrow> err + auth_response" where
  "login E email password A =
     (if email = '''' \<or> password = '''' then Inl (Dom ErrInvalidCredentials)
      else case get_by_email (av_q E AtUserByEmail) email A of Inl e \<Rightarrow> Inl (Dom ErrInvalidCredentials)
      | Inr u \<Rightarrow>
        if \<not> av_compare E (us_hash u) password then Inl (Dom ErrInvalidCredentials)
        else case get_user_active_member (av_q E AtMemberGet) (us_id u) A of
          Inl e \<Rightarrow> Inl (Wrap ''get user active tenant'' e)
        | Inr m \<Rightarrow>
       (case get_tenant_row (av_q E AtTenantGet) (me_tenant m) A of Inl e \<Rightarrow> Inl (Wrap ''get tenant'' e)
        | Inr t \<Rightarrow> Inr (respond E 0 u t (me_role m))))"

definition refresh_token :: "auth_env \<Rightarrow> go_time \<Rightarrow> string \<Rightarrow> accounts \<Rightarrow> err + auth_response" where
  "refresh_token E now s A =
     (case parse_token (av_jwt E) (av_secret E) now s of Inl e \<Rightarrow> Inl (Opaque ''invalid or expired refresh token'')
      | Inr cl \<Rightarrow>
        if cl_type cl \<noteq> ''refresh'' then Inl (Opaque ''invalid or expired refresh token'')
        else case get_user (av_q E AtUserById) (cl_sub cl) A of Inl e \<Rightarrow> Inl (Dom ErrUserNotFound)
        | Inr u \<Rightarrow>
       (case get_member (av_q E AtMemberGet) (cl_tenant cl) (cl_sub cl) A of Inl e \<Rightarrow> Inl (Dom ErrOrgMemberNotFound)
        | Inr m \<Rightarrow>
       (case get_tenant_row (av_q E AtTenantGet) (cl_tenant cl) A of Inl e \<Rightarrow> Inl (Opaque ''tenant not found'')
        | Inr t \<Rightarrow> Inr (respond E 0 u t (me_role m)))))"

section \<open>Members and invitations\<close>

definition invite_ttl :: int where "invite_ttl = 7 * 24 * hour"

definition no_tenant_error :: err where "no_tenant_error = Opaque ''tenant not found in context''"

definition invite_member :: "auth_env \<Rightarrow> ctx \<Rightarrow> string \<Rightarrow> string \<Rightarrow> accounts \<Rightarrow> (err + invite) \<times> accounts" where
  "invite_member E c email role A =
     (if cx_tenant c = '''' then (Inl no_tenant_error, A)
      else if email = '''' then (Inl (Opaque ''email is required''), A)
      else if role \<notin> set roles then (Inl (Opaque ''invalid role; must be owner, admin, developer, or viewer''), A)
      else case av_random E of Inl e \<Rightarrow> (Inl (Wrap ''generate invite token'' e), A)
      | Inr bytes \<Rightarrow>
     (let v = \<lparr>iv_id = av_uuid E 0, iv_tenant = cx_tenant c, iv_email = email, iv_role = role, iv_token = hex_encode bytes,
               iv_status = ''pending'', iv_by = ptr_of (cx_user c), iv_created = av_clock E 0,
               iv_expires = av_clock E 0 + invite_ttl\<rparr>
      in case create_invite (av_q E AtInviteCreate) v A of (Some e, A1) \<Rightarrow> (Inl (Wrap ''create invite'' e), A1)
      | (None, A1) \<Rightarrow> (Inr v, A1)))"

record accept_request =
  rq_token :: string
  rq_name :: string
  rq_password :: string

text \<open>The user who accepts: the one with the email of the invitation, whoever asks, or a new one.\<close>

definition invited_user ::
  "auth_env \<Rightarrow> accept_request \<Rightarrow> invite \<Rightarrow> accounts \<Rightarrow> (err + user) \<times> accounts" where
  "invited_user E r v A =
     (case get_by_email (av_q E AtUserByEmail) (iv_email v) A of Inr u \<Rightarrow> (Inr u, A)
      | Inl e \<Rightarrow>
        if rq_name r = '''' \<or> rq_password r = ''''
        then (Inl (Opaque ''name and password are required to register new user from invite''), A)
        else case av_bcrypt E (rq_password r) of Inl e \<Rightarrow> (Inl (Wrap ''hash password'' e), A)
        | Inr hash \<Rightarrow>
          (let u = \<lparr>us_id = av_uuid E 0, us_email = iv_email v, us_hash = hash, us_name = rq_name r,
                    us_created = av_clock E 1\<rparr>
           in case create_user (av_q E AtUserCreate) u A of (Some e, A1) \<Rightarrow> (Inl (Wrap ''create user'' e), A1)
           | (None, A1) \<Rightarrow> (Inr u, A1)))"

definition accept_invite :: "auth_env \<Rightarrow> accept_request \<Rightarrow> accounts \<Rightarrow> (err + auth_response) \<times> accounts" where
  "accept_invite E r A =
     (if rq_token r = '''' then (Inl (Opaque ''invite token is required''), A)
      else case get_invite_by_token (av_q E AtInviteGet) (rq_token r) A of Inl e \<Rightarrow> (Inl (Dom ErrInviteNotFound), A)
      | Inr v \<Rightarrow>
        if iv_status v \<noteq> ''pending'' \<or> av_clock E 0 > iv_expires v
        then (Inl (Opaque ''invite is invalid, already used, or expired''), A)
        else case invited_user E r v A of (Inl e, A1) \<Rightarrow> (Inl e, A1)
        | (Inr u, A1) \<Rightarrow>
       (let m = \<lparr>me_id = av_uuid E 1, me_tenant = iv_tenant v, me_user = us_id u, me_role = iv_role v, me_by = iv_by v,
                 me_created = av_clock E 2\<rparr>
        in case add_member (av_q E AtMemberAdd) m A1 of (Some e, A2) \<Rightarrow> (Inl (Wrap ''add org member'' e), A2)
        | (None, A2) \<Rightarrow>
       (case update_invite_status (av_q E AtInviteUpdate) (iv_id v) ''accepted'' A2 of (_, A3) \<Rightarrow>
        case get_tenant_row (av_q E AtTenantGet) (iv_tenant v) A3 of Inl e \<Rightarrow> (Inl (Wrap ''get tenant'' e), A3)
        | Inr t \<Rightarrow> (Inr (respond E 3 u t (iv_role v)), A3))))"

definition org_list_members :: "err option \<Rightarrow> ctx \<Rightarrow> accounts \<Rightarrow> err + (member \<times> user) list" where
  "org_list_members q c A = (if cx_tenant c = '''' then Inl no_tenant_error else list_members q (cx_tenant c) A)"

definition update_role :: "err option \<Rightarrow> ctx \<Rightarrow> string \<Rightarrow> string \<Rightarrow> accounts \<Rightarrow> err option \<times> accounts" where
  "update_role q c target role A =
     (if cx_tenant c = '''' then (Some no_tenant_error, A)
      else if role \<notin> set roles then (Some (Opaque ''invalid role''), A)
      else update_member_role q (cx_tenant c) target role A)"

definition org_remove_member :: "err option \<Rightarrow> ctx \<Rightarrow> string \<Rightarrow> accounts \<Rightarrow> err option \<times> accounts" where
  "org_remove_member q c target A =
     (if cx_tenant c = '''' then (Some no_tenant_error, A) else remove_member q (cx_tenant c) target A)"

section \<open>API keys\<close>

definition generate_key :: "string \<Rightarrow> string \<times> string" where
  "generate_key bytes = (let raw = ''sk_live_'' @ base58_encode bytes in (raw, take 8 raw))"

definition hash_key :: "(string \<Rightarrow> string) \<Rightarrow> string \<Rightarrow> string" where
  "hash_key SHA raw = hex_encode (SHA raw)"

definition verify_key :: "(string \<Rightarrow> string) \<Rightarrow> string \<Rightarrow> string \<Rightarrow> bool" where
  "verify_key SHA raw hashed \<longleftrightarrow> hash_key SHA raw = hashed"

text \<open>The create handler: \<open>Inl\<close> is the status code of the refusal.\<close>

definition create_key ::
  "(string \<Rightarrow> string) \<Rightarrow> err + string \<Rightarrow> err option \<Rightarrow> string \<Rightarrow> go_time \<Rightarrow> ctx \<Rightarrow> string option \<Rightarrow> accounts
    \<Rightarrow> (int + string \<times> api_key) \<times> accounts" where
  "create_key SHA random q i now c label A =
     (if cx_tenant c = '''' then (Inl 401, A)
      else case random of Inl e \<Rightarrow> (Inl 500, A)
      | Inr bytes \<Rightarrow>
     (case generate_key bytes of (raw, prefix) \<Rightarrow>
      let k = \<lparr>ak_id = i, ak_tenant = cx_tenant c, ak_hash = hash_key SHA raw, ak_prefix = prefix, ak_label = label,
               ak_used = None, ak_revoked = None, ak_created = now\<rparr>
      in case create_api_key q k A of (Some e, A1) \<Rightarrow> (Inl 500, A1) | (None, A1) \<Rightarrow> (Inr (raw, k), A1)))"

text \<open>The revoke handler: the status code.\<close>

definition revoke_handler :: "err option \<Rightarrow> go_time \<Rightarrow> ctx \<Rightarrow> string \<Rightarrow> accounts \<Rightarrow> int \<times> accounts" where
  "revoke_handler q now c i A =
     (case revoke_key q now i (cx_tenant c) A of (Some e, A1) \<Rightarrow> (500, A1) | (None, A1) \<Rightarrow> (204, A1))"

section \<open>The invariant of the tables\<close>

definition wf_accounts :: "accounts \<Rightarrow> bool" where
  "wf_accounts A \<longleftrightarrow>
     distinct (map us_id (ac_users A)) \<and> distinct (map us_email (ac_users A)) \<and> distinct (map te_id (ac_tenants A)) \<and>
     distinct (map (\<lambda>m. (me_tenant m, me_user m)) (ac_members A)) \<and> distinct (map iv_token (ac_invites A)) \<and>
     (\<forall>m \<in> set (ac_members A). me_tenant m \<in> te_id ` set (ac_tenants A) \<and> me_user m \<in> us_id ` set (ac_users A) \<and>
        me_role m \<in> set roles) \<and>
     (\<forall>v \<in> set (ac_invites A). iv_tenant v \<in> te_id ` set (ac_tenants A) \<and> iv_role v \<in> set roles) \<and>
     (\<forall>k \<in> set (ac_keys A). ak_tenant k \<in> te_id ` set (ac_tenants A))"

text \<open>A written row, or an error and no change.\<close>

lemma create_user_cases:
  assumes "create_user q u A = (e, A')"
  obtains x where "e = Some x" "A' = A"
  | "e = None" "A' = A\<lparr>ac_users := ac_users A @ [u]\<rparr>" "us_id u \<notin> us_id ` set (ac_users A)"
      "us_email u \<notin> us_email ` set (ac_users A)"
proof (cases "q = None \<and> user_with A (us_id u) = None \<and> user_by_email A (us_email u) = None")
  case True
  with assms have "e = None" "A' = A\<lparr>ac_users := ac_users A @ [u]\<rparr>" by (simp_all add: create_user_def)
  with True that(2) show ?thesis by (simp add: row_with_None)
next
  case False
  with assms that(1) show ?thesis by (cases q) (auto simp: create_user_def)
qed

lemma create_tenant_cases:
  assumes "create_tenant q t A = (e, A')"
  obtains x where "e = Some x" "A' = A"
  | t' where "e = None" "A' = A\<lparr>ac_tenants := ac_tenants A @ [t']\<rparr>" "te_id t' = te_id t" "tn_email t' = tn_email t"
      "te_id t \<notin> te_id ` set (ac_tenants A)" "te_account t \<noteq> AccountOther '''' \<Longrightarrow> t' = t"
proof (cases "q = None \<and> tenant_with A (te_id t) = None \<and> row_with tn_email (tn_email t) (ac_tenants A) = None")
  case True
  let ?t = "if te_account t = AccountOther '''' then t\<lparr>te_account := AccountIndividual\<rparr> else t"
  from True assms have "e = None" "A' = A\<lparr>ac_tenants := ac_tenants A @ [?t]\<rparr>" by (simp_all add: create_tenant_def Let_def)
  with True that(2) [of ?t] show ?thesis by (simp add: row_with_None)
next
  case False
  with assms that(1) show ?thesis by (cases q) (auto simp: create_tenant_def Let_def)
qed

lemma add_member_cases:
  assumes "add_member q m A = (e, A')"
  obtains x where "e = Some x" "A' = A"
  | "e = None" "A' = A\<lparr>ac_members := ac_members A @ [m\<lparr>me_by := null_ptr (me_by m)\<rparr>]\<rparr>"
      "membership A (me_tenant m) (me_user m) = None"
      "me_tenant m \<in> te_id ` set (ac_tenants A)" "me_user m \<in> us_id ` set (ac_users A)"
proof -
  from assms consider (bad) x where "e = Some x" "A' = A"
    | (ok) "e = None" "A' = A\<lparr>ac_members := ac_members A @ [m\<lparr>me_by := null_ptr (me_by m)\<rparr>]\<rparr>"
      "membership A (me_tenant m) (me_user m) = None" "tenant_with A (me_tenant m) \<noteq> None" "user_with A (me_user m) \<noteq> None"
    by (auto simp: add_member_def Let_def split: if_splits option.splits)
  then show ?thesis
  proof cases
    case bad
    then show ?thesis by (rule that(1))
  next
    case ok
    have "me_tenant m \<in> te_id ` set (ac_tenants A)" "me_user m \<in> us_id ` set (ac_users A)"
      using ok(4,5) row_with_None by metis+
    with ok that(2) show ?thesis by simp
  qed
qed

lemma create_invite_cases:
  assumes "create_invite q v A = (e, A')"
  obtains x where "e = Some x" "A' = A"
  | "e = None" "A' = A\<lparr>ac_invites := ac_invites A @ [v\<lparr>iv_by := null_ptr (iv_by v)\<rparr>]\<rparr>"
      "iv_token v \<notin> iv_token ` set (ac_invites A)" "iv_tenant v \<in> te_id ` set (ac_tenants A)"
proof -
  from assms consider (bad) x where "e = Some x" "A' = A"
    | (ok) "e = None" "A' = A\<lparr>ac_invites := ac_invites A @ [v\<lparr>iv_by := null_ptr (iv_by v)\<rparr>]\<rparr>"
      "row_with iv_token (iv_token v) (ac_invites A) = None" "tenant_with A (iv_tenant v) \<noteq> None"
    by (auto simp: create_invite_def Let_def split: if_splits option.splits)
  then show ?thesis
  proof cases
    case bad
    then show ?thesis by (rule that(1))
  next
    case ok
    have "iv_token v \<notin> iv_token ` set (ac_invites A)" "iv_tenant v \<in> te_id ` set (ac_tenants A)"
      using ok(3,4) row_with_None by metis+
    with ok that(2) show ?thesis by simp
  qed
qed

lemma wf_create_user: "wf_accounts A \<Longrightarrow> wf_accounts (snd (create_user q u A))"
  by (rule create_user_cases [OF surjective_pairing [of "create_user q u A"]]) (auto simp: wf_accounts_def)

lemma wf_create_tenant: "wf_accounts A \<Longrightarrow> wf_accounts (snd (create_tenant q t A))"
  by (rule create_tenant_cases [OF surjective_pairing [of "create_tenant q t A"]]) (auto simp: wf_accounts_def)

lemma wf_add_member: "wf_accounts A \<Longrightarrow> me_role m \<in> set roles \<Longrightarrow> wf_accounts (snd (add_member q m A))"
  by (rule add_member_cases [OF surjective_pairing [of "add_member q m A"]]) (auto simp: wf_accounts_def row_with_None)

lemma wf_create_invite: "wf_accounts A \<Longrightarrow> iv_role v \<in> set roles \<Longrightarrow> wf_accounts (snd (create_invite q v A))"
  by (rule create_invite_cases [OF surjective_pairing [of "create_invite q v A"]]) (auto simp: wf_accounts_def)

lemma wf_update_invite_status: "wf_accounts A \<Longrightarrow> wf_accounts (snd (update_invite_status q i s A))"
  by (cases q) (auto simp: update_invite_status_def wf_accounts_def map_key_update_where set_update_where)

lemma wf_update_member_role: "wf_accounts A \<Longrightarrow> role \<in> set roles \<Longrightarrow> wf_accounts (snd (update_member_role q t u role A))"
  by (cases q) (auto simp: update_member_role_def Let_def wf_accounts_def map_key_update_where set_update_where)

lemma wf_remove_member: "wf_accounts A \<Longrightarrow> wf_accounts (snd (remove_member q t u A))"
  by (cases q) (auto simp: remove_member_def Let_def wf_accounts_def distinct_map_filter)

lemma wf_create_api_key: "wf_accounts A \<Longrightarrow> wf_accounts (snd (create_api_key q k A))"
proof -
  assume wf: "wf_accounts A"
  show ?thesis
  proof (cases "tenant_with A (ak_tenant k)")
    case None
    then have "\<exists>x. create_api_key q k A = (Some x, A)" by (cases q) (simp_all add: create_api_key_def)
    with wf show ?thesis by auto
  next
    case (Some t)
    then have "ak_tenant k \<in> te_id ` set (ac_tenants A)" using row_with_None [of te_id "ak_tenant k" "ac_tenants A"] by simp
    moreover have "snd (create_api_key q k A) = A \<or>
        snd (create_api_key q k A) = A\<lparr>ac_keys := ac_keys A @ [k\<lparr>ak_used := None, ak_revoked := None\<rparr>]\<rparr>"
      by (simp add: create_api_key_def split: option.split)
    ultimately show ?thesis using wf by (auto simp: wf_accounts_def)
  qed
qed

lemma wf_keys_updated: "wf_accounts A \<Longrightarrow> (\<And>k. ak_tenant (f k) = ak_tenant k) \<Longrightarrow>
    wf_accounts (A\<lparr>ac_keys := update_where P f (ac_keys A)\<rparr>)"
  by (auto simp: wf_accounts_def set_update_where)

section \<open>Runs of the services\<close>

text \<open>
  One step is one call of a service, whatever the database, the clock and the random source do. Every call is
  modelled as atomic; a call that fails half-way leaves what its writes left.
\<close>

inductive account_step :: "accounts \<Rightarrow> accounts \<Rightarrow> bool" where
  step_register: "account_step A (snd (register E r A))"
| step_invite: "account_step A (snd (invite_member E c email role A))"
| step_accept: "account_step A (snd (accept_invite E a A))"
| step_role: "account_step A (snd (update_role q c target role A))"
| step_remove: "account_step A (snd (org_remove_member q c target A))"
| step_key: "account_step A (snd (create_key SHA random q i now c label A))"
| step_revoke: "account_step A (snd (revoke_handler q now c i A))"
| step_used: "account_step A (snd (update_last_used q now i A))"

inductive accounts_reachable :: "accounts \<Rightarrow> bool" where
  reach_start: "accounts_reachable \<lparr>ac_users = [], ac_tenants = [], ac_members = [], ac_invites = [], ac_keys = []\<rparr>"
| reach_step: "accounts_reachable A \<Longrightarrow> account_step A A' \<Longrightarrow> accounts_reachable A'"

lemma owner_is_role: "''owner'' \<in> set roles"
  by (simp add: roles_def)

text \<open>The writes of a call, one after the other: an error at one of them ends the call.\<close>

lemma snd_then:
  "snd (case p of (Some e, A1) \<Rightarrow> (f e, A1) | (None, A2) \<Rightarrow> g A2)
    = (case fst p of Some e \<Rightarrow> snd p | None \<Rightarrow> snd (g (snd p)))"
  by (cases p) (simp split: option.split)

lemma fst_then:
  "fst (case p of (Some e, A1) \<Rightarrow> (f e, A1) | (None, A2) \<Rightarrow> g A2)
    = (case fst p of Some e \<Rightarrow> f e | None \<Rightarrow> fst (g (snd p)))"
  by (cases p) (simp split: option.split)

lemma wf_register: "wf_accounts A \<Longrightarrow> wf_accounts (snd (register E r A))"
  unfolding register_def Let_def
  by (auto simp: snd_then owner_is_role intro!: wf_create_user wf_create_tenant wf_add_member split: option.splits sum.splits)

lemma wf_invite_member: "wf_accounts A \<Longrightarrow> wf_accounts (snd (invite_member E c email role A))"
  unfolding invite_member_def Let_def
  by (auto simp: snd_then intro!: wf_create_invite split: option.splits sum.splits)

lemma wf_invited_user: "wf_accounts A \<Longrightarrow> wf_accounts (snd (invited_user E a v A))"
  unfolding invited_user_def Let_def
  by (auto simp: snd_then intro!: wf_create_user split: option.splits sum.splits)

lemma wf_accept_invite: "wf_accounts A \<Longrightarrow> wf_accounts (snd (accept_invite E a A))"
proof -
  assume wf: "wf_accounts A"
  show ?thesis
  proof (cases "get_invite_by_token (av_q E AtInviteGet) (rq_token a) A")
    case (Inl e)
    with wf show ?thesis by (simp add: accept_invite_def)
  next
    case (Inr v)
    then have "v \<in> set (ac_invites A)"
      by (auto simp: get_invite_by_token_def split: option.splits dest: row_with_SomeD)
    with wf have role: "iv_role v \<in> set roles" by (simp add: wf_accounts_def)
    obtain x A1 where u: "invited_user E a v A = (x, A1)" by fastforce
    with wf wf_invited_user [of A E a v] have wf1: "wf_accounts A1" by simp
    have fin: "snd (case update_invite_status q i s A2 of (_, A3) \<Rightarrow> case g A3 of Inl e \<Rightarrow> (Inl (f e), A3) | Inr t \<Rightarrow> (Inr (h t), A3))
        = snd (update_invite_status q i s A2)" for q i s A2 g f h
      by (simp split: prod.split sum.split)
    show ?thesis
      using wf wf1 Inr u wf_add_member [OF wf1] wf_update_invite_status role
      by (cases x) (auto simp: accept_invite_def Let_def snd_then fin split: option.splits)
  qed
qed

lemma account_step_wf:
  assumes "account_step A A'" and "wf_accounts A"
  shows "wf_accounts A'"
  using assms
proof (induction rule: account_step.induct)
  case (step_role A q c target role)
  with wf_update_member_role show ?case by (auto simp: update_role_def)
next
  case (step_key A SHA random q i now c label)
  with wf_create_api_key show ?case
    by (auto simp: create_key_def Let_def snd_then split: option.splits sum.splits prod.splits)
next
  case (step_revoke A q now c i)
  with wf_keys_updated show ?case
    by (auto simp: revoke_handler_def snd_then revoke_key_def Let_def split: option.splits)
next
  case (step_used A q now i)
  with wf_keys_updated show ?case by (auto simp: update_last_used_def split: option.splits)
qed (simp_all add: wf_register wf_invite_member wf_accept_invite org_remove_member_def wf_remove_member)

section \<open>Reading tokens back\<close>

lemma parse_signed:
  assumes "jw_unjson J (jw_json J c) = Some c"
  shows "parse_token J secret later (unsigned_token J c @ ''.'' @ b64_encode (jw_mac J secret (unsigned_token J c)))
    = (if unix later \<le> cl_exp c then Inr c else Inl (Opaque ''token expired''))"
proof -
  let ?u = "unsigned_token J c"
  let ?sig = "jw_mac J secret ?u"
  have dot: "CHR ''.'' \<notin> set (b64_encode b)" for b using b64_encode_chars b64_alphabet_facts(5) by blast
  have "?u @ ''.'' @ b64_encode ?sig
      = b64_encode jwt_header @ CHR ''.'' # (b64_encode (jw_json J c) @ CHR ''.'' # b64_encode ?sig)"
    by (simp add: unsigned_token_def)
  then have "split_at (CHR ''.'') (?u @ ''.'' @ b64_encode ?sig)
      = [b64_encode jwt_header, b64_encode (jw_json J c), b64_encode ?sig]"
    by (simp add: split_at_first split_at_none dot)
  moreover have "b64_encode jwt_header @ ''.'' @ b64_encode (jw_json J c) = ?u" by (simp add: unsigned_token_def)
  ultimately show ?thesis
    using assms by (simp add: parse_token_def b64_round_trip)
qed

lemma parse_token_dots: "parse_token J secret now s = Inr cl \<Longrightarrow> count_list s (CHR ''.'') = 2"
  using length_split_at [of "CHR ''.''" s] by (auto simp: parse_token_def split: list.splits)

text \<open>A registration that succeeds has made its user the owner of the new tenant.\<close>

lemma register_member:
  assumes "register E r A = (Inr p, A')"
  shows "\<exists>m. p = respond E 1 (ap_user p) (ap_tenant p) ''owner'' \<and>
    membership A' (te_id (ap_tenant p)) (us_id (ap_user p)) = Some m \<and> me_role m = ''owner''"
proof -
  from assms obtain hash kind where h: "av_bcrypt E (rr_password r) = Inr hash"
    and k: "account_of_text (rr_account r) = Some kind"
    by (auto simp: register_def Let_def bad_account_type_def split: if_splits option.splits sum.splits prod.splits)
  let ?u = "\<lparr>us_id = av_uuid E 0, us_email = rr_email r, us_hash = hash, us_name = rr_name r, us_created = av_clock E 0\<rparr>"
  let ?m = "\<lparr>me_id = av_uuid E 2, me_tenant = av_uuid E 1, me_user = av_uuid E 0, me_role = ''owner'', me_by = None,
    me_created = av_clock E 0\<rparr>"
  from assms h k obtain t A2 where m: "add_member (av_q E AtMemberAdd) ?m A2 = (None, A')"
    and p: "p = respond E 1 ?u t ''owner''" "te_id t = av_uuid E 1"
    by (auto simp: register_def Let_def bad_account_type_def split: if_splits option.splits sum.splits prod.splits)
  from m show ?thesis
    by (cases rule: add_member_cases) (simp_all add: p respond_def row_with_append)
qed

section \<open>Properties\<close>

text \<open>A concrete call in which nothing fails; the claims of its tokens are written as their user.\<close>

definition sample_jwt :: jwt_pkg where
  "sample_jwt = \<lparr>jw_mac = (\<lambda>k m. k @ rev m), jw_json = cl_sub,
     jw_unjson = (\<lambda>s. Some \<lparr>cl_sub = s, cl_tenant = ''t'', cl_role = ''owner'', cl_email = ''e'', cl_type = ''access'',
       cl_exp = 86400, cl_iat = 0\<rparr>)\<rparr>"

definition sample_auth :: auth_env where
  "sample_auth = \<lparr>av_q = (\<lambda>_. None), av_clock = (\<lambda>_. 0), av_uuid = (\<lambda>n. [CHR ''u'', digit_char n]), av_random = Inr ''r'',
     av_bcrypt = Inr, av_compare = (=), av_jwt = sample_jwt, av_secret = ''k''\<rparr>"

definition sample_registration :: register_request where
  "sample_registration = \<lparr>rr_email = ''e'', rr_password = ''p'', rr_name = ''n'', rr_account = '''', rr_org = ''''\<rparr>"

definition no_accounts :: accounts where
  "no_accounts = \<lparr>ac_users = [], ac_tenants = [], ac_members = [], ac_invites = [], ac_keys = []\<rparr>"

lemma no_accounts_reachable: "accounts_reachable no_accounts"
  unfolding no_accounts_def by (rule reach_start)

lemma no_accounts_wf: "wf_accounts no_accounts"
  by (simp add: no_accounts_def wf_accounts_def)

text \<open>
  C25: in every run of the services, whatever fails in between, users have distinct emails, tenants and
  users have at most one membership with each other, with one of the four roles, and members,
  invitations and API keys belong to existing tenants.
\<close>

theorem accounts_invariant:
  assumes "accounts_reachable A"
  shows "wf_accounts A"
  using assms by induction (auto simp: wf_accounts_def [of "\<lparr>ac_users = [], ac_tenants = [], ac_members = [], ac_invites = [],
      ac_keys = []\<rparr>"] intro: account_step_wf)

lemma accounts_invariant_witness:
  "wf_accounts (snd (register sample_auth sample_registration no_accounts))"
  by (rule accounts_invariant [OF reach_step [OF no_accounts_reachable step_register]])

text \<open>
  A token read back with the same secret gives the claims it was made of until they expire, and is
  refused afterwards, if the JSON of the claims can be read back.
\<close>

theorem token_round_trip:
  assumes "jw_unjson J (jw_json J (new_claims now uid t role email kind duration))
    = Some (new_claims now uid t role email kind duration)"
  shows "parse_token J secret later (generate_token J secret now uid t role email kind duration)
    = (if unix later \<le> unix (now + duration) then Inr (new_claims now uid t role email kind duration)
       else Inl (Opaque ''token expired''))"
  using parse_signed [OF assms, of secret later] by (simp add: generate_token_def Let_def) (simp add: new_claims_def)

lemma token_round_trip_witness:
  "\<exists>c. parse_token sample_jwt ''k'' 5 (generate_token sample_jwt ''k'' 0 ''s'' ''t'' ''owner'' ''e'' ''access'' access_ttl) = Inr c \<and>
     cl_sub c = ''s''"
proof -
  have "jw_unjson sample_jwt (jw_json sample_jwt (new_claims 0 ''s'' ''t'' ''owner'' ''e'' ''access'' access_ttl))
      = Some (new_claims 0 ''s'' ''t'' ''owner'' ''e'' ''access'' access_ttl)"
    by (simp add: sample_jwt_def new_claims_def unix_def access_ttl_def duration_defs)
  from token_round_trip [OF this, of "''k''" 5] show ?thesis
    by (simp add: unix_def access_ttl_def duration_defs new_claims_def)
qed

text \<open>
  An API key can be decoded to its random bytes, so different bytes give different keys; the prefix
  stored to tell the keys of a tenant apart is the same for all of them.
\<close>

theorem key_round_trip:
  "base58_decode (drop 8 (fst (generate_key bytes))) = bytes \<and> snd (generate_key bytes) = ''sk_live_''"
  by (simp add: generate_key_def Let_def base58_round_trip)

text \<open>
  An invitation that is accepted was pending and not expired, and makes the user with its email a
  member of its tenant with its role. If that user exists, neither name nor password is looked at: the
  tokens are the user's, for whoever holds the invitation.
\<close>

theorem accepted_invite:
  assumes "accept_invite E a A = (Inr p, A')"
  shows "\<exists>v. row_with iv_token (rq_token a) (ac_invites A) = Some v \<and> iv_status v = ''pending'' \<and> av_clock E 0 \<le> iv_expires v \<and>
    us_email (ap_user p) = iv_email v \<and> ap_role p = iv_role v \<and> te_id (ap_tenant p) = iv_tenant v \<and>
    membership A (iv_tenant v) (us_id (ap_user p)) = None \<and>
    (\<exists>m. membership A' (iv_tenant v) (us_id (ap_user p)) = Some m \<and> me_role m = iv_role v) \<and>
    (user_by_email A (iv_email v) \<noteq> None \<and> av_q E AtUserByEmail = None \<longrightarrow>
       user_by_email A (iv_email v) = Some (ap_user p) \<and> accept_invite E (a\<lparr>rq_name := x, rq_password := y\<rparr>) A = (Inr p, A'))"
proof -
  from assms have tok: "rq_token a \<noteq> ''''" by (auto simp: accept_invite_def)
  with assms obtain v where v: "get_invite_by_token (av_q E AtInviteGet) (rq_token a) A = Inr v"
    by (cases "get_invite_by_token (av_q E AtInviteGet) (rq_token a) A") (auto simp: accept_invite_def)
  with assms tok have ok: "iv_status v = ''pending''" "\<not> av_clock E 0 > iv_expires v"
    by (auto simp: accept_invite_def split: if_splits)
  obtain ru A1 where u: "invited_user E a v A = (ru, A1)" by fastforce
  with assms tok v ok obtain usr where usr: "ru = Inr usr" by (cases ru) (auto simp: accept_invite_def)
  let ?m = "\<lparr>me_id = av_uuid E 1, me_tenant = iv_tenant v, me_user = us_id usr, me_role = iv_role v, me_by = iv_by v,
                 me_created = av_clock E 2\<rparr>"
  obtain e A2 where m: "add_member (av_q E AtMemberAdd) ?m A1 = (e, A2)" by fastforce
  obtain e' A3 where s: "update_invite_status (av_q E AtInviteUpdate) (iv_id v) ''accepted'' A2 = (e', A3)" by fastforce
  have run: "accept_invite E a A = (case e of Some x \<Rightarrow> (Inl (Wrap ''add org member'' x), A2) | None \<Rightarrow>
      (case get_tenant_row (av_q E AtTenantGet) (iv_tenant v) A3 of Inl e \<Rightarrow> (Inl (Wrap ''get tenant'' e), A3)
        | Inr t \<Rightarrow> (Inr (respond E 3 usr t (iv_role v)), A3)))"
    using tok v ok u usr m s by (simp add: accept_invite_def Let_def split: option.split)
  with assms have e: "e = None" by (cases e) auto
  with run assms obtain t where t: "get_tenant_row (av_q E AtTenantGet) (iv_tenant v) A3 = Inr t"
    and p: "p = respond E 3 usr t (iv_role v)" and A': "A' = A3"
    by (cases "get_tenant_row (av_q E AtTenantGet) (iv_tenant v) A3") auto
  have tid: "te_id t = iv_tenant v"
    using t by (auto simp: get_tenant_row_def split: option.splits dest: row_with_SomeD)
  have members: "ac_members A1 = ac_members A" "us_email usr = iv_email v"
    using u usr by (auto simp: invited_user_def get_by_email_def Let_def create_user_def
        split: sum.splits option.splits if_splits dest: row_with_SomeD)
  from m [unfolded e] have new: "membership A (iv_tenant v) (us_id usr) = None" and
    A2: "ac_members A2 = ac_members A @ [?m\<lparr>me_by := null_ptr (iv_by v)\<rparr>]"
    by (cases rule: add_member_cases; simp add: members)+
  have "ac_members A3 = ac_members A2" using s by (auto simp: update_invite_status_def split: option.splits)
  with A2 new have mem: "\<exists>m. membership A3 (iv_tenant v) (us_id usr) = Some m \<and> me_role m = iv_role v"
    by (simp add: row_with_append)
  have same: "user_by_email A (iv_email v) = Some usr \<and> accept_invite E (a\<lparr>rq_name := x, rq_password := y\<rparr>) A = (Inr p, A')"
    if known: "user_by_email A (iv_email v) \<noteq> None" "av_q E AtUserByEmail = None"
  proof -
    from known obtain w where w: "get_by_email None (iv_email v) A = Inr w" "user_by_email A (iv_email v) = Some w"
      by (auto simp: get_by_email_def)
    with u usr known have "w = usr" by (simp add: invited_user_def)
    moreover have "invited_user E (a\<lparr>rq_name := x, rq_password := y\<rparr>) v A = invited_user E a v A"
      using w known by (simp add: invited_user_def)
    ultimately show ?thesis using assms w tok v ok by (simp add: accept_invite_def)
  qed
  have "row_with iv_token (rq_token a) (ac_invites A) = Some v"
    using v by (auto simp: get_invite_by_token_def split: option.splits)
  with ok new mem same tid members(2) show ?thesis
    by (intro exI [of _ v]) (simp add: p A' respond_def)
qed

text \<open>A tenant with one owner and an invitation for a user who already has an account elsewhere.\<close>

definition sample_accounts :: accounts where
  "sample_accounts =
     \<lparr>ac_users = [\<lparr>us_id = ''o'', us_email = ''owner'', us_hash = ''p'', us_name = ''n'', us_created = 0\<rparr>,
                  \<lparr>us_id = ''v'', us_email = ''victim'', us_hash = ''q'', us_name = ''n'', us_created = 0\<rparr>],
      ac_tenants = [\<lparr>te_id = ''t'', te_account = AccountIndividual, te_max_wallets = None, te_max_transfers = None,
        te_max_webhooks = None, tn_name = ''n'', tn_email = ''owner'', tn_created = 0\<rparr>],
      ac_members = [\<lparr>me_id = ''m'', me_tenant = ''t'', me_user = ''o'', me_role = ''owner'', me_by = None, me_created = 0\<rparr>],
      ac_invites = [\<lparr>iv_id = ''i'', iv_tenant = ''t'', iv_email = ''victim'', iv_role = ''owner'', iv_token = ''x'',
        iv_status = ''pending'', iv_by = Some ''o'', iv_created = 0, iv_expires = 9\<rparr>],
      ac_keys = []\<rparr>"

lemma sample_accounts_wf: "wf_accounts sample_accounts"
  by (simp add: sample_accounts_def wf_accounts_def roles_def)

lemma accepted_invite_witness:
  "\<exists>p A'. accept_invite sample_auth \<lparr>rq_token = ''x'', rq_name = '''', rq_password = ''''\<rparr> sample_accounts = (Inr p, A') \<and>
     us_email (ap_user p) = ''victim'' \<and>
     accept_invite sample_auth \<lparr>rq_token = ''x'', rq_name = ''n'', rq_password = ''guess''\<rparr> sample_accounts = (Inr p, A')"
proof -
  let ?a = "\<lparr>rq_token = ''x'', rq_name = '''', rq_password = ''''\<rparr>"
  obtain p A' where run: "accept_invite sample_auth ?a sample_accounts = (Inr p, A')"
    by (simp add: accept_invite_def sample_accounts_def sample_auth_def get_invite_by_token_def invited_user_def
        get_by_email_def add_member_def update_invite_status_def get_tenant_row_def Let_def digit_char_def null_ptr_def)
  from accepted_invite [OF run, of "''guess''" "''n''"] obtain v where v:
    "row_with iv_token ''x'' (ac_invites sample_accounts) = Some v" "us_email (ap_user p) = iv_email v"
    "user_by_email sample_accounts (iv_email v) \<noteq> None \<and> av_q sample_auth AtUserByEmail = None \<Longrightarrow>
       accept_invite sample_auth (?a\<lparr>rq_name := ''n'', rq_password := ''guess''\<rparr>) sample_accounts = (Inr p, A')" by auto
  from v(1) have e: "iv_email v = ''victim''" by (auto simp: sample_accounts_def)
  have "user_by_email sample_accounts (iv_email v) \<noteq> None \<and> av_q sample_auth AtUserByEmail = None"
    unfolding e by (simp add: sample_accounts_def sample_auth_def)
  with v run e show ?thesis by simp
qed

text \<open>
  A registration whose tenant cannot be written leaves its user behind: the email cannot be
  registered again, and nobody can log in with it, whatever the database does next.
\<close>

theorem half_registration_locks_email:
  assumes "wf_accounts A" and "register E r A = (Inl (Wrap ''create tenant'' e), A')"
  shows "(\<forall>E' r'. rr_email r' = rr_email r \<longrightarrow> isl (fst (register E' r' A'))) \<and> (\<forall>E' pw. isl (login E' (rr_email r) pw A'))"
proof -
  from assms(2) obtain hash kind where req: "rr_email r \<noteq> ''''" and h: "av_bcrypt E (rr_password r) = Inr hash"
    and k: "account_of_text (rr_account r) = Some kind"
    by (auto simp: register_def Let_def bad_account_type_def split: if_splits option.splits sum.splits prod.splits)
  let ?u = "\<lparr>us_id = av_uuid E 0, us_email = rr_email r, us_hash = hash, us_name = rr_name r, us_created = av_clock E 0\<rparr>"
  obtain x A1 where u: "create_user (av_q E AtUserCreate) ?u A = (x, A1)" by fastforce
  from u show ?thesis
  proof (cases rule: create_user_cases)
    case (1 y)
    with assms(2) h k u show ?thesis
      by (auto simp: register_def Let_def bad_account_type_def split: if_splits sum.splits)
  next
    case 2
    have A': "A' = A1"
      using assms(2) h k u 2(1)
      by (auto simp: register_def Let_def bad_account_type_def create_tenant_def add_member_def
          split: if_splits sum.splits option.splits)
    have known: "user_by_email A' (rr_email r) = Some ?u"
    proof -
      have "user_by_email A (rr_email r) = None" using 2 by (simp add: row_with_None)
      with 2 show ?thesis by (simp add: A' row_with_append)
    qed
    have "isl (fst (register E' r' A'))" if "rr_email r' = rr_email r" for E' r'
    proof -
      have "fst (create_user (av_q E' AtUserCreate) w A') \<noteq> None" if "us_email w = rr_email r" for w
        using that known by (cases "av_q E' AtUserCreate") (simp_all add: create_user_def)
      with \<open>rr_email r' = rr_email r\<close> show ?thesis
        by (auto simp: register_def Let_def fst_then simp del: not_None_eq split: option.split sum.split)
    qed
    moreover have "isl (login E' (rr_email r) pw A')" for E' pw
    proof -
      have "filter (\<lambda>m. me_user m = us_id ?u) (ac_members A') = []"
      proof (rule filter_False, rule ballI)
        fix y
        assume "y \<in> set (ac_members A')"
        then have "me_user y \<in> us_id ` set (ac_users A)" using assms(1) 2(2) by (simp add: A' wf_accounts_def)
        with 2(3) show "me_user y \<noteq> us_id ?u" by auto
      qed
      then have "isl (get_user_active_member q (us_id ?u) A')" for q
        by (cases q) (simp_all add: get_user_active_member_def)
      then obtain y where "get_user_active_member (av_q E' AtMemberGet) (us_id ?u) A' = Inl y" unfolding isl_def by blast
      with known show ?thesis
        by (cases "av_q E' AtUserByEmail") (auto simp: login_def get_by_email_def)
    qed
    ultimately show ?thesis by blast
  qed
qed

lemma half_registration_locks_email_witness:
  "isl (login sample_auth ''e'' ''p'' (snd (register (sample_auth\<lparr>av_q := (\<lambda>s. if s = AtTenantCreate then Some (Opaque ''lost'') else None)\<rparr>)
     sample_registration no_accounts)))"
proof -
  let ?E = "sample_auth\<lparr>av_q := (\<lambda>s. if s = AtTenantCreate then Some (Opaque ''lost'') else None)\<rparr>"
  obtain A' where run: "register ?E sample_registration no_accounts = (Inl (Wrap ''create tenant'' (Wrap ''insert tenant'' (Opaque ''lost''))), A')"
    by (simp add: register_def sample_auth_def sample_registration_def no_accounts_def account_of_text_def get_by_email_def
        create_user_def create_tenant_def Let_def)
  from half_registration_locks_email [OF no_accounts_wf run] run show ?thesis
    by (simp add: sample_registration_def)
qed

text \<open>Nothing keeps the last owner of a tenant from being demoted, by any caller the route admits.\<close>

lemma last_owner_demoted:
  assumes "cx_tenant c = me_tenant m" and "m \<in> set (ac_members A)" and "\<forall>x \<in> set (ac_members A).
     me_tenant x = me_tenant m \<and> me_role x = ''owner'' \<longrightarrow> me_user x = me_user m"
  shows "\<exists>A'. update_role None c (me_user m) ''viewer'' A = (None, A') \<and>
    (\<forall>x \<in> set (ac_members A'). me_tenant x = me_tenant m \<longrightarrow> me_role x \<noteq> ''owner'') \<or> me_tenant m = ''''"
proof (cases "me_tenant m = ''''")
  case False
  have "rows_affected (\<lambda>x. me_tenant x = me_tenant m \<and> me_user x = me_user m) (ac_members A) \<noteq> 0"
    using assms(2) by (auto simp: rows_affected_0)
  with False assms show ?thesis
    by (auto simp: update_role_def update_member_role_def roles_def set_update_where Let_def)
qed simp

end
