(* ===== verification/Gateway.thy ===== *)
theory Gateway
  imports Accounts
begin

text \<open>
  What stands between a request and a handler: \<^verbatim>\<open>AuthMiddleware\<close>, \<^verbatim>\<open>RequireRole\<close> and
  \<^verbatim>\<open>RequireNotViewer\<close> of \<^verbatim>\<open>internal/server/middleware.go\<close>, the guards of the routes in
  \<^verbatim>\<open>internal/server/server.go\<close>, the status codes of \<^verbatim>\<open>internal/api/response.go\<close> and of the handlers of
  accounts. The lookup of memberships is an interface of the Go code, and a locale here.
\<close>

section \<open>Identities\<close>

text \<open>\<^verbatim>\<open>tenant.WithID\<close> and \<^verbatim>\<open>tenant.WithUser\<close>: what a request carries when it is admitted.\<close>

record identity =
  it_tenant :: string
  it_user :: string
  it_role :: string

datatype admission = Turned_Away int string | Admitted identity

text \<open>The outside of one request: the clock, and the queries on API keys.\<close>

record gate_env =
  gt_now :: go_time
  gt_hash_q :: "err option"
  gt_used_q :: "err option"
  gt_used_now :: go_time

definition api_key_auth ::
  "(string \<Rightarrow> string) \<Rightarrow> gate_env \<Rightarrow> string \<Rightarrow> accounts \<Rightarrow> admission \<times> accounts" where
  "api_key_auth SHA E raw A =
     (case get_by_hash (gt_hash_q E) (hash_key SHA raw) A of
        Inl e \<Rightarrow> (Turned_Away 401 ''invalid api key or authentication token'', A)
      | Inr k \<Rightarrow>
        if ak_revoked k \<noteq> None then (Turned_Away 401 ''revoked api key'', A)
        else (Admitted \<lparr>it_tenant = ak_tenant k, it_user = '''', it_role = ''admin''\<rparr>,
              snd (update_last_used (gt_used_q E) (gt_used_now E) (ak_id k) A)))"

text \<open>\<open>V\<close> is the validator of memberships, if there is one.\<close>

definition auth_middleware ::
  "jwt_pkg \<Rightarrow> string \<Rightarrow> (string \<Rightarrow> string) \<Rightarrow> (string \<Rightarrow> string \<Rightarrow> err + member) option \<Rightarrow> gate_env \<Rightarrow> string \<Rightarrow> accounts
    \<Rightarrow> admission \<times> accounts" where
  "auth_middleware J secret SHA V E header A =
     (if header = '''' \<or> length header \<le> 7 \<or> take 7 header \<noteq> ''Bearer ''
      then (Turned_Away 401 ''missing or invalid authorization header'', A)
      else let raw = drop 7 header in
      case (if count_list raw (CHR ''.'') = 2 then parse_token J secret (gt_now E) raw
            else Inl (Opaque ''not a token'')) of
        Inl e \<Rightarrow> api_key_auth SHA E raw A
      | Inr cl \<Rightarrow>
        if cl_type cl \<noteq> ''access'' then api_key_auth SHA E raw A
        else case V of
          None \<Rightarrow> (Admitted \<lparr>it_tenant = cl_tenant cl, it_user = cl_sub cl, it_role = cl_role cl\<rparr>, A)
        | Some look \<Rightarrow>
          (case look (cl_tenant cl) (cl_sub cl) of
             Inl e \<Rightarrow> (Turned_Away 403 ''membership not found or revoked'', A)
           | Inr m \<Rightarrow> (Admitted \<lparr>it_tenant = cl_tenant cl, it_user = cl_sub cl, it_role = me_role m\<rparr>, A)))"

section \<open>Guards and routes\<close>

datatype guard = RequireRole "string list" | RequireNotViewer

fun guard_refuses :: "guard \<Rightarrow> string \<Rightarrow> (int \<times> string) option" where
  "guard_refuses (RequireRole allowed) role =
     (if role = '''' then Some (401, ''unauthorized'')
      else if role \<in> set allowed then None else Some (403, ''insufficient permissions''))"
| "guard_refuses RequireNotViewer role = (if role = ''viewer'' then Some (403, ''viewer role is read-only'') else None)"

fun first_refusal :: "guard list \<Rightarrow> string \<Rightarrow> (int \<times> string) option" where
  "first_refusal [] role = None"
| "first_refusal (g # gs) role = (case guard_refuses g role of Some r \<Rightarrow> Some r | None \<Rightarrow> first_refusal gs role)"

text \<open>
  The routes of \<^verbatim>\<open>/v1\<close> behind the authentication, by the guards they have. \<open>Operational\<close> is the group of
  wallets, transfers, schedules, conversions and payments, \<open>Administrative\<close> that of \<^verbatim>\<open>/admin\<close>, and
  \<open>TreasuryChange\<close> its sweep and configuration, with the guard \<^verbatim>\<open>cmd/api/main.go\<close> adds.
\<close>

datatype route =
  Usage | KeysCreate | KeysList | KeysRevoke | MemberInvite | MemberList | MemberRole | MemberRemove
  | HookRegister | HookList | HookDelete | HookDeliveries | Operational | Administrative | TreasuryChange

definition owner_or_admin :: guard where
  "owner_or_admin = RequireRole [''owner'', ''admin'']"

fun route_guards :: "route \<Rightarrow> guard list" where
  "route_guards KeysCreate = [owner_or_admin]"
| "route_guards KeysRevoke = [owner_or_admin]"
| "route_guards MemberInvite = [owner_or_admin]"
| "route_guards MemberRole = [owner_or_admin]"
| "route_guards MemberRemove = [owner_or_admin]"
| "route_guards HookRegister = [owner_or_admin]"
| "route_guards HookDelete = [owner_or_admin]"
| "route_guards Operational = [RequireNotViewer]"
| "route_guards Administrative = [owner_or_admin]"
| "route_guards TreasuryChange = [owner_or_admin, owner_or_admin]"
| "route_guards _ = []"

definition admit ::
  "jwt_pkg \<Rightarrow> string \<Rightarrow> (string \<Rightarrow> string) \<Rightarrow> (string \<Rightarrow> string \<Rightarrow> err + member) option \<Rightarrow> gate_env \<Rightarrow> route \<Rightarrow> string
    \<Rightarrow> accounts \<Rightarrow> admission \<times> accounts" where
  "admit J secret SHA V E rt header A =
     (case auth_middleware J secret SHA V E header A of
        (Turned_Away c s, A1) \<Rightarrow> (Turned_Away c s, A1)
      | (Admitted i, A1) \<Rightarrow>
          (case first_refusal (route_guards rt) (it_role i) of
             Some (c, s) \<Rightarrow> (Turned_Away c s, A1) | None \<Rightarrow> (Admitted i, A1)))"

section \<open>Status codes\<close>

text \<open>\<^verbatim>\<open>errors.As\<close> for the error type of missing trust lines.\<close>

fun as_trustline :: "err \<Rightarrow> bool" where
  "as_trustline (NoTrustline s) = True"
| "as_trustline (Wrap s e) = as_trustline e"
| "as_trustline _ = False"

definition is_any :: "err \<Rightarrow> dom_err list \<Rightarrow> bool" where
  "is_any e ds = list_ex (\<lambda>d. err_is e (Dom d)) ds"

definition handle_domain_error :: "err \<Rightarrow> int \<times> string" where
  "handle_domain_error e =
     (if as_trustline e then (422, ''MISSING_TRUSTLINE'')
      else if is_any e [ErrWalletNotFound, ErrTransactionNotFound, ErrWebhookNotFound, ErrWebhookDeliveryNotFound,
        ErrBatchNotFound, ErrScheduleNotFound, ErrUserNotFound, ErrOrgMemberNotFound, ErrInviteNotFound]
      then (404, ''NOT_FOUND'')
      else if is_any e [ErrSelfTransfer, ErrInvalidAsset, ErrInsufficientBalance, ErrSlippageExceeded,
        ErrFeeScheduleNotFound, ErrBatchTooLarge, ErrBatchEmpty, ErrWalletLimitReached, ErrTransferLimitReached,
        ErrWebhookLimitReached, ErrInvalidQuoteAmount, ErrUnsupportedPair, ErrNoLiquidity]
      then (400, ''BAD_REQUEST'')
      else if is_any e [ErrUserAlreadyExists] then (409, ''CONFLICT'')
      else if is_any e [ErrInvalidCredentials] then (401, ''UNAUTHORIZED'')
      else if is_any e [ErrForbidden, ErrQuoteOwnershipMismatch] then (403, ''FORBIDDEN'')
      else if is_any e [ErrQuoteExpired] then (422, ''QUOTE_EXPIRED'')
      else if is_any e [ErrQuoteAlreadyUsed] then (422, ''QUOTE_ALREADY_USED'')
      else if is_any e [ErrInsufficientSweepableBalance] then (400, ''INSUFFICIENT_SWEEPABLE_BALANCE'')
      else if is_any e [ErrTreasuryConfigNotFound] then (404, ''NOT_FOUND'')
      else if is_any e [ErrComplianceReviewNotFound] then (404, ''NOT_FOUND'')
      else if is_any e [ErrReviewNotPending] then (409, ''REVIEW_ALREADY_DECIDED'')
      else if is_any e [ErrTransferBlockedSanctions] then (403, ''TRANSFER_BLOCKED_SANCTIONS'')
      else (500, ''INTERNAL_ERROR''))"

text \<open>The handlers of accounts on decoded bodies: the status of each outcome.\<close>

definition register_status :: "err + auth_response \<Rightarrow> int" where
  "register_status r = (case r of Inr p \<Rightarrow> 201 | Inl e \<Rightarrow> if err_is e (Dom ErrUserAlreadyExists) then 409 else 400)"

definition login_status :: "err + auth_response \<Rightarrow> int" where
  "login_status r = (case r of Inr p \<Rightarrow> 200 | Inl e \<Rightarrow> if err_is e (Dom ErrInvalidCredentials) then 401 else 500)"

definition refresh_status :: "err + auth_response \<Rightarrow> int" where
  "refresh_status r = (case r of Inr p \<Rightarrow> 200 | Inl e \<Rightarrow> 401)"

definition invite_status :: "err + invite \<Rightarrow> int" where
  "invite_status r = (case r of Inr v \<Rightarrow> 201 | Inl e \<Rightarrow> 400)"

definition accept_status :: "err + auth_response \<Rightarrow> int" where
  "accept_status r = (case r of Inr p \<Rightarrow> 200 | Inl e \<Rightarrow> if err_is e (Dom ErrInviteNotFound) then 404 else 400)"

definition members_status :: "err + (member \<times> user) list \<Rightarrow> int" where
  "members_status r = (case r of Inr ms \<Rightarrow> 200 | Inl e \<Rightarrow> 500)"

definition role_status :: "err option \<Rightarrow> int" where
  "role_status r = (case r of None \<Rightarrow> 200 | Some e \<Rightarrow> if err_is e (Dom ErrOrgMemberNotFound) then 404 else 400)"

definition remove_status :: "err option \<Rightarrow> int" where
  "remove_status r = (case r of None \<Rightarrow> 204 | Some e \<Rightarrow> if err_is e (Dom ErrOrgMemberNotFound) then 404 else 400)"

lemma wrapping_keeps_status [err_simps]: "handle_domain_error (Wrap s e) = handle_domain_error e"
  by (simp add: handle_domain_error_def is_any_def)

text \<open>Bad input that nobody gave a code: it is reported as an internal error.\<close>

lemma bad_address_is_internal_error:
  "handle_domain_error (Wrap a (Dom ErrInvalidDestinationAddress)) = (500, ''INTERNAL_ERROR'')"
  by (simp add: handle_domain_error_def is_any_def)

section \<open>What a token says\<close>

text \<open>
  The token consists of a header, the claims and the keyed hash of both under the secret, each in base 64.
\<close>

definition signed_claims :: "jwt_pkg \<Rightarrow> string \<Rightarrow> string \<Rightarrow> claims \<Rightarrow> bool" where
  "signed_claims J secret raw cl \<longleftrightarrow>
     (\<exists>h c g j. raw = h @ ''.'' @ c @ ''.'' @ g \<and> b64_decode g = Some (jw_mac J secret (h @ ''.'' @ c)) \<and>
        b64_decode c = Some j \<and> jw_unjson J j = Some cl)"

lemma split_at_Cons: "split_at x s = p # q # ps \<Longrightarrow> \<exists>t. s = p @ x # t \<and> split_at x t = q # ps"
proof (induction s arbitrary: p)
  case (Cons c s)
  show ?case
  proof (cases "c = x")
    case True
    with Cons.prems show ?thesis by (intro exI [of _ s]) auto
  next
    case False
    with Cons.prems obtain p' where "p = c # p'" "split_at x s = p' # q # ps" by (auto split: list.splits)
    with Cons.IH show ?thesis by fastforce
  qed
qed simp

lemma split_at_single: "split_at x s = [p] \<Longrightarrow> s = p"
proof (induction s arbitrary: p)
  case (Cons c s)
  then show ?case by (auto split: if_splits list.splits)
qed simp

lemma parse_token_signed:
  assumes "parse_token J secret now s = Inr cl"
  shows "signed_claims J secret s cl" and "unix now \<le> cl_exp cl"
proof -
  from assms obtain h c g j where parts: "split_at (CHR ''.'') s = [h, c, g]"
    and g: "b64_decode g = Some (jw_mac J secret (h @ ''.'' @ c))" and j: "b64_decode c = Some j" "jw_unjson J j = Some cl"
    and now: "unix now \<le> cl_exp cl"
    by (auto simp: parse_token_def split: list.splits option.splits if_splits)
  from split_at_Cons [OF parts] obtain t where t: "s = h @ CHR ''.'' # t" "split_at (CHR ''.'') t = [c, g]" by blast
  from split_at_Cons [OF t(2)] obtain t' where t': "t = c @ CHR ''.'' # t'" "split_at (CHR ''.'') t' = [g]" by blast
  from split_at_single [OF t'(2)] t(1) t'(1) have "s = h @ ''.'' @ c @ ''.'' @ g" by simp
  with g j show "signed_claims J secret s cl" unfolding signed_claims_def by blast
  from now show "unix now \<le> cl_exp cl" .
qed

section \<open>The lookup of memberships\<close>

text \<open>
  \<^verbatim>\<open>MembershipValidator\<close>: what the middleware relies on is that an answer is a current membership of
  exactly the tenant and the user it asked for.
\<close>

locale membership_source =
  fixes look :: "'s \<Rightarrow> string \<Rightarrow> string \<Rightarrow> err + member"
    and current :: "'s \<Rightarrow> member set"
  assumes look_sound: "look s t u = Inr m \<Longrightarrow> m \<in> current s \<and> me_tenant m = t \<and> me_user m = u"
begin

definition backed_by_token :: "jwt_pkg \<Rightarrow> string \<Rightarrow> gate_env \<Rightarrow> string \<Rightarrow> 's \<Rightarrow> identity \<Rightarrow> bool" where
  "backed_by_token J secret E header s i \<longleftrightarrow>
     (\<exists>cl m. parse_token J secret (gt_now E) (drop 7 header) = Inr cl \<and> cl_type cl = ''access'' \<and>
        m \<in> current s \<and> me_tenant m = it_tenant i \<and> me_user m = it_user i \<and> me_role m = it_role i \<and>
        cl_tenant cl = it_tenant i \<and> cl_sub cl = it_user i)"

lemma admitted_by:
  assumes "auth_middleware J secret SHA (Some (look s)) E header A = (Admitted i, A')"
  shows "backed_by_token J secret E header s i \<and> A' = A \<or> api_key_auth SHA E (drop 7 header) A = (Admitted i, A')"
proof (cases "\<exists>cl. parse_token J secret (gt_now E) (drop 7 header) = Inr cl \<and> cl_type cl = ''access'' \<and>
    count_list (drop 7 header) (CHR ''.'') = 2")
  case True
  then obtain cl where cl: "parse_token J secret (gt_now E) (drop 7 header) = Inr cl" "cl_type cl = ''access''"
    "count_list (drop 7 header) (CHR ''.'') = 2" by blast
  with assms obtain m where m: "look s (cl_tenant cl) (cl_sub cl) = Inr m"
    "i = \<lparr>it_tenant = cl_tenant cl, it_user = cl_sub cl, it_role = me_role m\<rparr>" "A' = A"
    by (auto simp: auth_middleware_def Let_def split: if_splits sum.splits)
  with look_sound [OF m(1)] cl show ?thesis by (auto simp: backed_by_token_def)
next
  case False
  with assms show ?thesis by (auto simp: auth_middleware_def Let_def split: if_splits sum.splits)
qed

end

interpretation repo: membership_source "\<lambda>A t u. get_member q t u A" "\<lambda>A. set (ac_members A)" for q
  by unfold_locales (auto simp: get_member_def split: option.splits dest: row_with_SomeD)

lemma api_key_auth_admits:
  assumes "api_key_auth SHA E raw A = (Admitted i, A')"
  shows "\<exists>k \<in> set (ac_keys A). ak_hash k = hash_key SHA raw \<and> ak_revoked k = None \<and>
    i = \<lparr>it_tenant = ak_tenant k, it_user = '''', it_role = ''admin''\<rparr>"
  using assms
  by (auto simp: api_key_auth_def get_by_hash_def split: sum.splits option.splits if_splits dest: row_with_SomeD)

section \<open>Properties\<close>

text \<open>
  C26: a request reaches its handler only as a current member of a tenant, with the role the database has now, and
  with an access token for that member, of the configured secret and not yet past its expiry, or with an API key of
  the tenant that is not revoked, and then without a user and as an administrator.
\<close>

theorem admitted_identity_is_current:
  assumes "auth_middleware J secret SHA (Some (\<lambda>t u. get_member q t u A)) E header A = (Admitted i, A')"
  shows "(\<exists>cl m. signed_claims J secret (drop 7 header) cl \<and> unix (gt_now E) \<le> cl_exp cl \<and> cl_type cl = ''access'' \<and>
      cl_tenant cl = it_tenant i \<and> cl_sub cl = it_user i \<and> m \<in> set (ac_members A) \<and>
      me_tenant m = it_tenant i \<and> me_user m = it_user i \<and> me_role m = it_role i) \<or>
    (\<exists>k \<in> set (ac_keys A). ak_hash k = hash_key SHA (drop 7 header) \<and> ak_revoked k = None \<and>
      i = \<lparr>it_tenant = ak_tenant k, it_user = '''', it_role = ''admin''\<rparr>)"
proof -
  from repo.admitted_by [OF assms] consider (key) "api_key_auth SHA E (drop 7 header) A = (Admitted i, A')"
    | (token) cl m where "parse_token J secret (gt_now E) (drop 7 header) = Inr cl" "cl_type cl = ''access''"
        "m \<in> set (ac_members A)" "me_tenant m = it_tenant i" "me_user m = it_user i" "me_role m = it_role i"
        "cl_tenant cl = it_tenant i" "cl_sub cl = it_user i"
    unfolding repo.backed_by_token_def by blast
  then show ?thesis
  proof cases
    case key
    then show ?thesis by (intro disjI2 api_key_auth_admits)
  next
    case token
    with parse_token_signed [OF token(1)] show ?thesis by blast
  qed
qed

definition quiet_gate :: gate_env where
  "quiet_gate = \<lparr>gt_now = 0, gt_hash_q = None, gt_used_q = None, gt_used_now = 0\<rparr>"

text \<open>The owner of the sample tenant, with a fresh access token.\<close>

definition owner_token :: string where
  "owner_token = generate_token sample_jwt ''k'' 0 ''o'' ''t'' ''owner'' ''e'' ''access'' access_ttl"

lemma admitted_identity_is_current_witness:
  "\<exists>i. auth_middleware sample_jwt ''k'' (\<lambda>s. s) (Some (\<lambda>t u. get_member None t u sample_accounts)) quiet_gate
      (''Bearer '' @ owner_token) sample_accounts = (Admitted i, sample_accounts) \<and> it_role i = ''owner'' \<and>
    (\<exists>cl. signed_claims sample_jwt ''k'' owner_token cl \<and> 0 \<le> cl_exp cl \<and> cl_sub cl = it_user i)"
proof -
  let ?a = "auth_middleware sample_jwt ''k'' (\<lambda>s. s) (Some (\<lambda>t u. get_member None t u sample_accounts)) quiet_gate
      (''Bearer '' @ owner_token) sample_accounts"
  let ?c = "new_claims 0 ''o'' ''t'' ''owner'' ''e'' ''access'' access_ttl"
  have json: "jw_unjson sample_jwt (jw_json sample_jwt ?c) = Some ?c" and exp: "cl_exp ?c = 86400"
    by (simp_all add: sample_jwt_def new_claims_def unix_def access_ttl_def duration_defs)
  have parse: "parse_token sample_jwt ''k'' 0 owner_token = Inr ?c"
    using parse_signed [OF json, of "''k''" 0] exp by (simp add: owner_token_def generate_token_def Let_def unix_def)
  then have "owner_token \<noteq> ''''" by (auto simp: parse_token_def)
  moreover have "get_member None ''t'' ''o'' sample_accounts = Inr \<lparr>me_id = ''m'', me_tenant = ''t'', me_user = ''o'',
      me_role = ''owner'', me_by = None, me_created = 0\<rparr>" by (simp add: get_member_def sample_accounts_def)
  ultimately have run: "?a = (Admitted \<lparr>it_tenant = ''t'', it_user = ''o'', it_role = ''owner''\<rparr>, sample_accounts)"
    using parse parse_token_dots [OF parse] by (simp add: auth_middleware_def quiet_gate_def new_claims_def)
  have "\<exists>cl. signed_claims sample_jwt ''k'' (drop 7 (''Bearer '' @ owner_token)) cl \<and> unix (gt_now quiet_gate) \<le> cl_exp cl \<and>
      cl_sub cl = ''o''"
    using admitted_identity_is_current [OF run] by fastforce
  then have "\<exists>cl. signed_claims sample_jwt ''k'' owner_token cl \<and> 0 \<le> cl_exp cl \<and> cl_sub cl = ''o''"
    by (simp add: quiet_gate_def unix_def)
  with run show ?thesis by simp
qed

text \<open>
  Once a member is removed, no request is admitted as that user of that tenant and no refresh token of
  theirs is honoured, whatever tokens they still hold.
\<close>

theorem removed_member_shut_out:
  assumes "remove_member None t u A = (None, A1)" and "u \<noteq> ''''"
  shows "(\<forall>E header i A'. auth_middleware J secret SHA (Some (\<lambda>t u. get_member q t u A1)) E header A1 = (Admitted i, A') \<longrightarrow>
      \<not> (it_tenant i = t \<and> it_user i = u)) \<and>
    (\<forall>E now s cl. parse_token (av_jwt E) (av_secret E) now s = Inr cl \<and> cl_tenant cl = t \<and> cl_sub cl = u \<longrightarrow>
      isl (refresh_token E now s A1))"
proof (intro conjI allI impI)
  from assms(1) have gone: "\<forall>m \<in> set (ac_members A1). \<not> (me_tenant m = t \<and> me_user m = u)"
    by (auto simp: remove_member_def Let_def split: if_splits)
  fix E header i A'
  assume "auth_middleware J secret SHA (Some (\<lambda>t u. get_member q t u A1)) E header A1 = (Admitted i, A')"
  from repo.admitted_by [OF this] show "\<not> (it_tenant i = t \<and> it_user i = u)"
    using gone api_key_auth_admits assms(2) unfolding repo.backed_by_token_def by fastforce
next
  from assms(1) have "membership A1 t u = None"
    by (auto simp: remove_member_def Let_def row_with_None split: if_splits)
  then have none: "isl (get_member q' t u A1)" for q' by (cases q') (simp_all add: get_member_def)
  fix E :: auth_env and now s cl
  assume "parse_token (av_jwt E) (av_secret E) now s = Inr cl \<and> cl_tenant cl = t \<and> cl_sub cl = u"
  with none [of "av_q E AtMemberGet"] show "isl (refresh_token E now s A1)"
    by (auto simp: refresh_token_def isl_def split: sum.split)
qed

lemma removed_member_shut_out_witness:
  "\<not> (\<exists>i A'. auth_middleware sample_jwt ''s'' (\<lambda>s. s)
       (Some (\<lambda>t u. get_member None t u (snd (remove_member None ''t'' ''o'' sample_accounts)))) quiet_gate
       (''Bearer '' @ generate_token sample_jwt ''s'' 0 ''o'' ''t'' ''owner'' ''e'' ''access'' access_ttl)
       (snd (remove_member None ''t'' ''o'' sample_accounts)) = (Admitted i, A') \<and> it_tenant i = ''t'' \<and> it_user i = ''o'')"
proof -
  have "fst (remove_member None ''t'' ''o'' sample_accounts) = None"
    by (simp add: remove_member_def sample_accounts_def rows_affected_def)
  then have "remove_member None ''t'' ''o'' sample_accounts = (None, snd (remove_member None ''t'' ''o'' sample_accounts))"
    by (metis prod.collapse)
  from removed_member_shut_out [OF this, of sample_jwt "''s''" "\<lambda>s. s" None] show ?thesis by blast
qed

text \<open>
  Whoever registers is admitted, with the token of the answer, to every route, those that administer
  the whole platform and its treasury included: the role that is asked for is the one in the tenant the
  registration has just made.
\<close>

lemma registrant_admitted:
  assumes "register E r A = (Inr p, A1)"
    and "jw_unjson (av_jwt E) (jw_json (av_jwt E) c) = Some c"
    and "c = new_claims (av_clock E 1) (us_id (ap_user p)) (te_id (ap_tenant p)) ''owner'' (us_email (ap_user p)) ''access'' access_ttl"
    and "unix (gt_now G) \<le> unix (av_clock E 1 + access_ttl)"
  shows "admit (av_jwt E) (av_secret E) SHA (Some (\<lambda>t u. get_member None t u A1)) G rt (''Bearer '' @ ap_access p) A1
    = (Admitted \<lparr>it_tenant = te_id (ap_tenant p), it_user = us_id (ap_user p), it_role = ''owner''\<rparr>, A1)"
proof -
  let ?t = "te_id (ap_tenant p)" and ?u = "us_id (ap_user p)"
  obtain m where p: "p = respond E 1 (ap_user p) (ap_tenant p) ''owner''" and m: "membership A1 ?t ?u = Some m" "me_role m = ''owner''"
    using register_member [OF assms(1)] by blast
  have tok: "ap_access p = generate_token (av_jwt E) (av_secret E) (av_clock E 1) ?u ?t ''owner'' (us_email (ap_user p)) ''access'' access_ttl"
    by (subst p) (simp add: respond_def)
  have parse: "parse_token (av_jwt E) (av_secret E) (gt_now G) (ap_access p) = Inr c"
    unfolding tok assms(3) 
    using parse_signed [OF assms(2) [unfolded assms(3)], of "av_secret E" "gt_now G"] assms(4)
    by (simp add: generate_token_def Let_def) (simp add: new_claims_def)
  have dots: "count_list (ap_access p) (CHR ''.'') = 2" using parse by (rule parse_token_dots)
  then have "ap_access p \<noteq> ''''" by auto
  with parse dots m show ?thesis
    by (cases rt) (simp_all add: admit_def auth_middleware_def get_member_def assms(3) new_claims_def owner_or_admin_def)
qed

end
