(* ===== verification/Scval.thy ===== *)
theory Scval
  imports Prelude "HOL-Library.Word"
begin

text \<open>
  \<^verbatim>\<open>internal/stellar/scval.go\<close>: values of Soroban contracts, encoded as arguments and decoded from
  results. A 128-bit integer is two 64-bit words, of which the high one is read as signed. The text
  form of addresses (strkey) is the library's, and a parameter.
\<close>

unbundle bit_operations_syntax

section \<open>Values\<close>

datatype sc_address = Account_Address string | Contract_Address string | Other_Address string

text \<open>
  The variants the code builds or reads; a vector or a map may be missing behind its tag. \<open>ScOther\<close>
  stands for the remaining variants of the XDR union, with its tag.
\<close>

datatype sc_val =
    ScBool bool | ScVoid | ScU32 "32 word" | ScU64 "64 word" | ScI128 "64 word" "64 word"
  | ScSymbol string | ScString string | ScAddr sc_address
  | ScVec "sc_val list option" | ScMap "(sc_val \<times> sc_val) list option" | ScOther string

text \<open>
  The library's conversions: an account address to its key, a contract address to its bytes and back,
  whether a text is a contract address, and the text of an address value.
\<close>

record strkey_pkg =
  sk_account :: "string \<Rightarrow> err + string"
  sk_contract :: "string \<Rightarrow> err + string"
  sk_encode_contract :: "string \<Rightarrow> err + string"
  sk_is_contract :: "string \<Rightarrow> bool"
  sk_render :: "sc_address \<Rightarrow> err + string"

section \<open>Encoding\<close>

definition account_sc_val :: "strkey_pkg \<Rightarrow> string \<Rightarrow> err + sc_val" where
  "account_sc_val K a = map_sum (Wrap ''encode account address'') (\<lambda>k. ScAddr (Account_Address k)) (sk_account K a)"

text \<open>The bytes are copied into an array of 32, so fewer are padded with zeros and more are cut off.\<close>

definition parse_contract_id :: "strkey_pkg \<Rightarrow> string \<Rightarrow> err + string" where
  "parse_contract_id K s =
     map_sum (Wrap ''decode contract id'') (\<lambda>b. take 32 (b @ replicate 32 (char_of (0 :: nat)))) (sk_contract K s)"

definition contract_sc_val :: "strkey_pkg \<Rightarrow> string \<Rightarrow> err + sc_val" where
  "contract_sc_val K s = map_sum id (\<lambda>i. ScAddr (Contract_Address i)) (parse_contract_id K s)"

definition address_sc_val :: "strkey_pkg \<Rightarrow> string \<Rightarrow> err + sc_val" where
  "address_sc_val K a = (if sk_is_contract K a then contract_sc_val K a else account_sc_val K a)"

definition encode_contract_id :: "strkey_pkg \<Rightarrow> string \<Rightarrow> err + string" where
  "encode_contract_id K i = map_sum (Wrap ''encode contract id'') id (sk_encode_contract K i)"

text \<open>The shift is arithmetic; the high part is what the low 64 bits of the shifted number are.\<close>

definition i128_sc_val :: "int \<Rightarrow> sc_val" where
  "i128_sc_val v = ScI128 (word_of_int (drop_bit 64 v)) (word_of_int (v AND mask 64))"

section \<open>Decoding\<close>

fun decode_i128 :: "sc_val \<Rightarrow> err + int" where
  "decode_i128 (ScI128 hi lo) = Inr (push_bit 64 (sint hi) OR uint lo)"
| "decode_i128 v = Inl (Opaque ''expected i128 value'')"

fun decode_u64 :: "sc_val \<Rightarrow> err + 64 word" where
  "decode_u64 (ScU64 u) = Inr u"
| "decode_u64 v = Inl (Opaque ''expected u64 value'')"

fun decode_u32 :: "sc_val \<Rightarrow> err + 32 word" where
  "decode_u32 (ScU32 u) = Inr u"
| "decode_u32 v = Inl (Opaque ''expected u32 value'')"

fun decode_bool :: "sc_val \<Rightarrow> err + bool" where
  "decode_bool (ScBool b) = Inr b"
| "decode_bool v = Inl (Opaque ''expected bool value'')"

fun decode_address :: "strkey_pkg \<Rightarrow> sc_val \<Rightarrow> err + string" where
  "decode_address K (ScAddr a) = map_sum (Wrap ''encode address'') id (sk_render K a)"
| "decode_address K v = Inl (Opaque ''expected address value'')"

fun decode_addresses :: "strkey_pkg \<Rightarrow> sc_val list \<Rightarrow> err + string list" where
  "decode_addresses K [] = Inr []"
| "decode_addresses K (v # vs) =
     (case decode_address K v of Inl e \<Rightarrow> Inl e
      | Inr a \<Rightarrow> map_sum id (\<lambda>as. a # as) (decode_addresses K vs))"

fun decode_address_vec :: "strkey_pkg \<Rightarrow> sc_val \<Rightarrow> err + string list" where
  "decode_address_vec K (ScVec (Some vs)) = decode_addresses K vs"
| "decode_address_vec K v = Inl (Opaque ''expected vec value'')"

fun decode_map_field :: "sc_val \<Rightarrow> string \<Rightarrow> err + sc_val" where
  "decode_map_field (ScMap (Some m)) field =
     (case find (\<lambda>e. fst e = ScSymbol field) m of
        None \<Rightarrow> Inl (Opaque (field @ '' missing from contract return value'')) | Some e \<Rightarrow> Inr (snd e))"
| "decode_map_field v field = Inl (Opaque ''expected map value'')"

section \<open>Facts\<close>

lemma sint_high: "sint (word_of_int (drop_bit 64 v) :: 64 word) = signed_take_bit 63 (drop_bit 64 v)"
  by (simp add: signed_of_int)

text \<open>Encoding and decoding keep the low 128 bits, with the top one as the sign.\<close>

lemma decode_encode_i128: "decode_i128 (i128_sc_val v) = Inr (signed_take_bit 127 v)"
proof -
  have "push_bit 64 (signed_take_bit 63 (drop_bit 64 v)) OR take_bit 64 v = signed_take_bit 127 v"
    by (rule bit_eqI) (auto simp: bit_simps min_def)
  then show ?thesis
    by (simp add: i128_sc_val_def sint_high unsigned_of_int flip: take_bit_eq_mask)
qed

text \<open>A decoded address can be used as an argument again, where the library's conversions agree.\<close>

definition strkey_doc :: "strkey_pkg \<Rightarrow> bool" where
  "strkey_doc K \<longleftrightarrow>
     (\<forall>k s. sk_render K (Account_Address k) = Inr s \<longrightarrow> sk_account K s = Inr k \<and> \<not> sk_is_contract K s) \<and>
     (\<forall>i s. sk_render K (Contract_Address i) = Inr s \<longrightarrow> sk_contract K s = Inr i \<and> sk_is_contract K s \<and> length i = 32)"

lemma address_round_trip:
  assumes "strkey_doc K" and "decode_address K (ScAddr a) = Inr s" and "\<forall>x. a \<noteq> Other_Address x"
  shows "address_sc_val K s = Inr (ScAddr a)"
  using assms by (cases a; cases "sk_render K a")
    (auto simp: strkey_doc_def address_sc_val_def account_sc_val_def contract_sc_val_def parse_contract_id_def)

section \<open>Properties\<close>

text \<open>
  A 128-bit argument is read back as the number it was made of exactly if that number fits into 128
  bits with a sign; a larger one silently becomes another number.
\<close>

theorem i128_round_trip:
  "decode_i128 (i128_sc_val v) = Inr v \<longleftrightarrow> - (2 ^ 127) \<le> v \<and> v < 2 ^ 127"
  using signed_take_bit_int_eq_self_iff [of 127 v] by (simp add: decode_encode_i128)

end
