(* ===== verification/Smart_Wallet.thy ===== *)
theory Smart_Wallet
  imports Scval
begin

text \<open>
  The contract \<^verbatim>\<open>contracts/soroban/contract_wallet/src/lib.rs\<close> that holds the funds of a non-custodial
  wallet: payments within a spending limit per window and outside a time lock, guardians, and recovery of
  the ownership by a quorum of them. The profile compiles with overflow checks, so arithmetic that does
  not fit traps, as a missing authorisation does; whatever does not return normally leaves the ledger
  as it was.
\<close>

section \<open>State\<close>

datatype wallet_error =
    NotInitialized | AlreadyInitialized | InvalidThreshold | NotGuardian | SpendingLimitExceeded | TimeLocked
  | NoPendingRecovery | ProposalMismatch | AlreadySigned | GuardianExists | GuardianNotFound

datatype 'a call_result = COk 'a | CErr wallet_error | Trap

record recovery_proposal =
  py_id :: "32 word"
  py_owner :: sc_address
  py_signatures :: "sc_address list"

text \<open>The instance storage, whose keys are all written by the constructor, except the pending proposal.\<close>

record contract_store =
  cs_owner :: sc_address
  cs_guardians :: "sc_address list"
  cs_threshold :: "32 word"
  cs_limit :: int
  cs_window :: "64 word"
  cs_spent :: int
  cs_start :: "64 word"
  cs_lock :: "64 word"
  cs_pending :: "recovery_proposal option"
  cs_next :: "32 word"

text \<open>With the events \<open>pay_exec\<close>: the time of the ledger, the destination, the asset and the amount.\<close>

type_synonym pay_event = "64 word \<times> sc_address \<times> sc_address \<times> int"

record contract_wallet =
  cw_store :: "contract_store option"
  cw_paid :: "pay_event list"

definition undeployed :: contract_wallet where
  "undeployed = \<lparr>cw_store = None, cw_paid = []\<rparr>"

text \<open>
  The host: who has authorised the call, the time of the ledger, and whether the token contract's
  transfer out of this wallet returns. The token is whatever contract the call names.
\<close>

record contract_env =
  ev_auth :: "sc_address \<Rightarrow> bool"
  ev_now :: "64 word"
  ev_token :: "sc_address \<Rightarrow> sc_address \<Rightarrow> int \<Rightarrow> bool"

definition fits128 :: "int \<Rightarrow> bool" where
  "fits128 v \<longleftrightarrow> - (2 ^ 127) \<le> v \<and> v < 2 ^ 127"

text \<open>Addition of \<open>u64\<close> with the overflow check.\<close>

definition add_u64 :: "64 word \<Rightarrow> 64 word \<Rightarrow> 64 word option" where
  "add_u64 a b = (if unat a + unat b < 2 ^ 64 then Some (a + b) else None)"

section \<open>Calls\<close>

definition initialize ::
  "contract_env \<Rightarrow> sc_address \<Rightarrow> sc_address list \<Rightarrow> 32 word \<Rightarrow> int \<Rightarrow> 64 word \<Rightarrow> contract_wallet
    \<Rightarrow> unit call_result \<times> contract_wallet" where
  "initialize E owner guardians threshold limit window W =
     (if cw_store W \<noteq> None then (CErr AlreadyInitialized, W)
      else if (if guardians = [] then threshold \<noteq> 0 else threshold = 0 \<or> length guardians < unat threshold)
      then (CErr InvalidThreshold, W)
      else if \<not> ev_auth E owner then (Trap, W)
      else (COk (), W\<lparr>cw_store := Some \<lparr>cs_owner = owner, cs_guardians = guardians, cs_threshold = threshold,
        cs_limit = limit, cs_window = window, cs_spent = 0, cs_start = ev_now E, cs_lock = 0, cs_pending = None,
        cs_next = 0\<rparr>\<rparr>))"

text \<open>The window a payment falls into: its start, and what has been spent in it.\<close>

definition window_at :: "64 word \<Rightarrow> contract_store \<Rightarrow> (64 word \<times> int) option" where
  "window_at now s =
     map_option (\<lambda>ends. if now > ends then (now, 0) else (cs_start s, cs_spent s)) (add_u64 (cs_start s) (cs_window s))"

definition execute_payment ::
  "contract_env \<Rightarrow> sc_address \<Rightarrow> sc_address \<Rightarrow> int \<Rightarrow> contract_wallet \<Rightarrow> unit call_result \<times> contract_wallet" where
  "execute_payment E dest asset amount W =
     (case cw_store W of None \<Rightarrow> (CErr NotInitialized, W)
      | Some s \<Rightarrow>
        if \<not> ev_auth E (cs_owner s) then (Trap, W)
        else if cs_lock s > ev_now E then (CErr TimeLocked, W)
        else case window_at (ev_now E) s of None \<Rightarrow> (Trap, W)
        | Some (start, spent) \<Rightarrow>
          if \<not> fits128 (spent + amount) then (Trap, W)
          else if spent + amount > cs_limit s then (CErr SpendingLimitExceeded, W)
          else if \<not> ev_token E asset dest amount then (Trap, W)
          else (COk (), W\<lparr>cw_store := Some (s\<lparr>cs_spent := spent + amount, cs_start := start\<rparr>),
                 cw_paid := cw_paid W @ [(ev_now E, dest, asset, amount)]\<rparr>))"

text \<open>The guardian must authorise before anything is read; without storage the read of the guardians traps.\<close>

definition propose_recovery ::
  "contract_env \<Rightarrow> sc_address \<Rightarrow> sc_address \<Rightarrow> contract_wallet \<Rightarrow> 32 word call_result \<times> contract_wallet" where
  "propose_recovery E guardian new_owner W =
     (if \<not> ev_auth E guardian then (Trap, W)
      else case cw_store W of None \<Rightarrow> (Trap, W)
      | Some s \<Rightarrow>
        if guardian \<notin> set (cs_guardians s) then (CErr NotGuardian, W)
        else if cs_next s = - 1 then (Trap, W)
        else (COk (cs_next s), W\<lparr>cw_store := Some (s\<lparr>cs_pending := Some \<lparr>py_id = cs_next s, py_owner = new_owner,
               py_signatures = [guardian]\<rparr>, cs_next := cs_next s + 1\<rparr>)\<rparr>))"

definition approve_recovery ::
  "contract_env \<Rightarrow> sc_address \<Rightarrow> 32 word \<Rightarrow> contract_wallet \<Rightarrow> unit call_result \<times> contract_wallet" where
  "approve_recovery E guardian proposal_id W =
     (if \<not> ev_auth E guardian then (Trap, W)
      else case cw_store W of None \<Rightarrow> (Trap, W)
      | Some s \<Rightarrow>
        if guardian \<notin> set (cs_guardians s) then (CErr NotGuardian, W)
        else case cs_pending s of None \<Rightarrow> (CErr NoPendingRecovery, W)
        | Some p \<Rightarrow>
          if py_id p \<noteq> proposal_id then (CErr ProposalMismatch, W)
          else if guardian \<in> set (py_signatures p) then (CErr AlreadySigned, W)
          else let signed = py_signatures p @ [guardian] in
            (COk (), W\<lparr>cw_store := Some (if unat (cs_threshold s) \<le> length signed
               then s\<lparr>cs_owner := py_owner p, cs_guardians := [], cs_pending := None\<rparr>
               else s\<lparr>cs_pending := Some (p\<lparr>py_signatures := signed\<rparr>)\<rparr>)\<rparr>))"

definition set_time_lock :: "contract_env \<Rightarrow> 64 word \<Rightarrow> contract_wallet \<Rightarrow> unit call_result \<times> contract_wallet" where
  "set_time_lock E until W =
     (case cw_store W of None \<Rightarrow> (CErr NotInitialized, W)
      | Some s \<Rightarrow> if \<not> ev_auth E (cs_owner s) then (Trap, W) else (COk (), W\<lparr>cw_store := Some (s\<lparr>cs_lock := until\<rparr>)\<rparr>))"

definition add_guardian :: "contract_env \<Rightarrow> sc_address \<Rightarrow> contract_wallet \<Rightarrow> unit call_result \<times> contract_wallet" where
  "add_guardian E guardian W =
     (case cw_store W of None \<Rightarrow> (CErr NotInitialized, W)
      | Some s \<Rightarrow>
        if \<not> ev_auth E (cs_owner s) then (Trap, W)
        else if cs_lock s > ev_now E then (CErr TimeLocked, W)
        else if guardian \<in> set (cs_guardians s) then (CErr GuardianExists, W)
        else (COk (), W\<lparr>cw_store := Some (s\<lparr>cs_guardians := cs_guardians s @ [guardian]\<rparr>)\<rparr>))"

definition remove_guardian :: "contract_env \<Rightarrow> sc_address \<Rightarrow> contract_wallet \<Rightarrow> unit call_result \<times> contract_wallet" where
  "remove_guardian E guardian W =
     (case cw_store W of None \<Rightarrow> (CErr NotInitialized, W)
      | Some s \<Rightarrow>
        if \<not> ev_auth E (cs_owner s) then (Trap, W)
        else if cs_lock s > ev_now E then (CErr TimeLocked, W)
        else if guardian \<notin> set (cs_guardians s) then (CErr GuardianNotFound, W)
        else (COk (), W\<lparr>cw_store := Some (s\<lparr>cs_guardians := remove1 guardian (cs_guardians s)\<rparr>)\<rparr>))"

definition get_state :: "contract_wallet \<Rightarrow> contract_store call_result" where
  "get_state W = (case cw_store W of None \<Rightarrow> CErr NotInitialized | Some s \<Rightarrow> COk s)"

record spending_status =
  sg_limit :: int
  sg_spent :: int
  sg_remaining :: int
  sg_resets :: "64 word"

definition get_spending_status :: "64 word \<Rightarrow> contract_wallet \<Rightarrow> spending_status call_result" where
  "get_spending_status now W =
     (case cw_store W of None \<Rightarrow> CErr NotInitialized
      | Some s \<Rightarrow>
     (case add_u64 (cs_start s) (cs_window s) of None \<Rightarrow> Trap
      | Some ends \<Rightarrow>
     (case (if now > ends then add_u64 now (cs_window s) else Some ends) of None \<Rightarrow> Trap
      | Some resets \<Rightarrow>
        let spent = (if now > ends then 0 else cs_spent s) in
        if \<not> fits128 (cs_limit s - spent) then Trap
        else COk \<lparr>sg_limit = cs_limit s, sg_spent = spent, sg_remaining = cs_limit s - spent, sg_resets = resets\<rparr>)))"

section \<open>Steps\<close>

text \<open>One call by anybody, at any time, with any arguments the types allow.\<close>

inductive contract_step :: "contract_wallet \<Rightarrow> contract_wallet \<Rightarrow> bool" where
  step_init: "initialize E ow gs th mx win W = (r, W') \<Longrightarrow> fits128 mx \<Longrightarrow> contract_step W W'"
| step_pay: "execute_payment E d a n W = (r, W') \<Longrightarrow> fits128 n \<Longrightarrow> contract_step W W'"
| step_propose: "propose_recovery E g ow W = (r', W') \<Longrightarrow> contract_step W W'"
| step_approve: "approve_recovery E g i W = (r, W') \<Longrightarrow> contract_step W W'"
| step_lock: "set_time_lock E u W = (r, W') \<Longrightarrow> contract_step W W'"
| step_add: "add_guardian E g W = (r, W') \<Longrightarrow> contract_step W W'"
| step_remove: "remove_guardian E g W = (r, W') \<Longrightarrow> contract_step W W'"

inductive contract_reachable :: "contract_wallet \<Rightarrow> bool" where
  reach_undeployed: "contract_reachable undeployed"
| reach_call: "contract_reachable W \<Longrightarrow> contract_step W W' \<Longrightarrow> contract_reachable W'"
section \<open>What a call does\<close>

lemma initialize_cases:
  assumes "initialize E ow gs th mx win W = (r, W')"
  obtains (refused) "W' = W" "r \<noteq> COk ()"
  | (made) "cw_store W = None" "ev_auth E ow" "r = COk ()"
      "W' = W\<lparr>cw_store := Some \<lparr>cs_owner = ow, cs_guardians = gs, cs_threshold = th, cs_limit = mx, cs_window = win,
         cs_spent = 0, cs_start = ev_now E, cs_lock = 0, cs_pending = None, cs_next = 0\<rparr>\<rparr>"
  using assms by (auto simp: initialize_def split: if_splits)

lemma execute_payment_cases:
  assumes "execute_payment E d a n W = (r, W')"
  obtains (refused) "W' = W" "r \<noteq> COk ()"
  | (paid) s start spent where "cw_store W = Some s" "ev_auth E (cs_owner s)" "cs_lock s \<le> ev_now E"
      "window_at (ev_now E) s = Some (start, spent)" "fits128 (spent + n)" "spent + n \<le> cs_limit s" "ev_token E a d n"
      "r = COk ()" "W' = W\<lparr>cw_store := Some (s\<lparr>cs_spent := spent + n, cs_start := start\<rparr>),
         cw_paid := cw_paid W @ [(ev_now E, d, a, n)]\<rparr>"
  using assms by (auto simp: execute_payment_def not_less split: option.splits if_splits)

lemma propose_cases:
  assumes "propose_recovery E g ow W = (r, W')"
  obtains (refused) "W' = W"
  | (opened) s where "cw_store W = Some s" "ev_auth E g" "g \<in> set (cs_guardians s)"
      "W' = W\<lparr>cw_store := Some (s\<lparr>cs_pending := Some \<lparr>py_id = cs_next s, py_owner = ow, py_signatures = [g]\<rparr>,
         cs_next := cs_next s + 1\<rparr>)\<rparr>"
  using assms by (auto simp: propose_recovery_def split: option.splits if_splits)

lemma approve_cases:
  assumes "approve_recovery E g i W = (r, W')"
  obtains (refused) "W' = W"
  | (signed) s p where "cw_store W = Some s" "cs_pending s = Some p" "py_id p = i" "g \<in> set (cs_guardians s)"
      "g \<notin> set (py_signatures p)" "length (py_signatures p) + 1 < unat (cs_threshold s)"
      "W' = W\<lparr>cw_store := Some (s\<lparr>cs_pending := Some (p\<lparr>py_signatures := py_signatures p @ [g]\<rparr>)\<rparr>)\<rparr>"
  | (recovered) s p where "cw_store W = Some s" "cs_pending s = Some p" "py_id p = i" "g \<in> set (cs_guardians s)"
      "g \<notin> set (py_signatures p)" "unat (cs_threshold s) \<le> length (py_signatures p) + 1"
      "W' = W\<lparr>cw_store := Some (s\<lparr>cs_owner := py_owner p, cs_guardians := [], cs_pending := None\<rparr>)\<rparr>"
  using assms by (auto simp: approve_recovery_def Let_def split: option.splits if_splits)

lemma owner_call_cases:
  assumes "set_time_lock E u W = (r, W') \<or> add_guardian E g W = (r, W') \<or> remove_guardian E g W = (r, W')"
  obtains (refused) "W' = W"
  | (locked) s where "cw_store W = Some s" "ev_auth E (cs_owner s)" "W' = W\<lparr>cw_store := Some (s\<lparr>cs_lock := u\<rparr>)\<rparr>"
  | (guarded) s gs where "cw_store W = Some s" "ev_auth E (cs_owner s)" "W' = W\<lparr>cw_store := Some (s\<lparr>cs_guardians := gs\<rparr>)\<rparr>"
  using assms
  by (elim disjE) (auto simp: set_time_lock_def add_guardian_def remove_guardian_def split: option.splits if_splits)

text \<open>Every call is refused, makes the wallet, pays, or leaves all that concerns payments alone.\<close>

lemma contract_step_cases:
  assumes "contract_step W W'"
  obtains (refused) "W' = W"
  | (made) E ow gs th mx win where "initialize E ow gs th mx win W = (COk (), W')" "fits128 mx"
  | (paid) E d a n where "execute_payment E d a n W = (COk (), W')" "fits128 n"
  | (other) s s' where "cw_store W = Some s" "W' = W\<lparr>cw_store := Some s'\<rparr>" "cs_limit s' = cs_limit s"
      "cs_window s' = cs_window s" "cs_start s' = cs_start s" "cs_spent s' = cs_spent s"
  using assms
proof cases
  case (step_init E ow gs th mx win r)
  then show ?thesis by (cases rule: initialize_cases) (use that(1,2) step_init in auto)
next
  case (step_pay E d a n r)
  then show ?thesis by (cases rule: execute_payment_cases) (use that(1,3) step_pay in auto)
next
  case (step_propose E g ow r)
  then show ?thesis by (cases rule: propose_cases) (use that(1,4) in auto)
next
  case (step_approve E g i r)
  then show ?thesis by (cases rule: approve_cases) (use that(1,4) in auto)
next
  case (step_lock E u r)
  then have "set_time_lock E u W = (r, W') \<or> add_guardian E (Other_Address []) W = (r, W') \<or> remove_guardian E (Other_Address []) W = (r, W')" by simp
  then show ?thesis by (cases rule: owner_call_cases) (use that(1,4) in auto)
next
  case (step_add E g r)
  then have "set_time_lock E 0 W = (r, W') \<or> add_guardian E g W = (r, W') \<or> remove_guardian E g W = (r, W')" by simp
  then show ?thesis by (cases rule: owner_call_cases) (use that(1,4) in auto)
next
  case (step_remove E g r)
  then have "set_time_lock E 0 W = (r, W') \<or> add_guardian E g W = (r, W') \<or> remove_guardian E g W = (r, W')" by simp
  then show ?thesis by (cases rule: owner_call_cases) (use that(1,4) in auto)
qed

section \<open>An abstract budget\<close>

text \<open>
  What the contract promises of payments, without words and counters: a limit, a period, and the amounts
  paid since the period began. A payment after the end of the period begins a new one.
\<close>

record budget =
  bg_limit :: int
  bg_period :: nat
  bg_start :: nat
  bg_amounts :: "int list"

definition budget_at :: "nat \<Rightarrow> budget \<Rightarrow> budget" where
  "budget_at now b = (if now > bg_start b + bg_period b then b\<lparr>bg_start := now, bg_amounts := []\<rparr> else b)"

definition budget_pay :: "nat \<Rightarrow> int \<Rightarrow> budget \<Rightarrow> budget option" where
  "budget_pay now n b =
     (let b' = budget_at now b in
      if sum_list (bg_amounts b') + n \<le> bg_limit b' then Some (b'\<lparr>bg_amounts := bg_amounts b' @ [n]\<rparr>) else None)"

text \<open>
  The abstraction: the counter is the sum of the amounts, and these are the last payments the contract
  made, none of them after the end of the window.
\<close>

definition represents :: "contract_wallet \<Rightarrow> budget \<Rightarrow> bool" where
  "represents W b \<longleftrightarrow> (\<exists>s old recent. cw_store W = Some s \<and> bg_limit b = cs_limit s \<and> bg_period b = unat (cs_window s) \<and>
     bg_start b = unat (cs_start s) \<and> cs_spent s = sum_list (bg_amounts b) \<and> cw_paid W = old @ recent \<and>
     map (\<lambda>(t, d, a, n). n) recent = bg_amounts b \<and> (\<forall>(t, d, a, n) \<in> set recent. unat t \<le> bg_start b + bg_period b))"

lemma add_u64_Some: "add_u64 a b = Some c \<longleftrightarrow> unat a + unat b < 2 ^ 64 \<and> c = a + b"
  by (auto simp: add_u64_def)

lemma unat_add_u64: "add_u64 a b = Some c \<Longrightarrow> unat c = unat a + unat b"
  by (auto simp: add_u64_Some unat_word_ariths)

lemma window_at_Some:
  assumes "window_at now s = Some (start, spent)"
  shows "(start, spent) = (if unat now > unat (cs_start s) + unat (cs_window s) then (now, 0) else (cs_start s, cs_spent s))"
  using assms by (auto simp: window_at_def word_less_nat_alt dest: unat_add_u64 split: if_splits)

text \<open>A payment that goes through is one the budget allows, and the budgets stay in step.\<close>

lemma payment_simulates:
  assumes "represents W b" and "execute_payment E d a n W = (COk (), W')"
  shows "\<exists>b'. budget_pay (unat (ev_now E)) n b = Some b' \<and> represents W' b'"
  using assms(2)
proof (cases rule: execute_payment_cases)
  case (paid s start spent)
  from assms(1) paid(1) obtain old recent where rep: "bg_limit b = cs_limit s" "bg_period b = unat (cs_window s)"
      "bg_start b = unat (cs_start s)" "cs_spent s = sum_list (bg_amounts b)" "cw_paid W = old @ recent"
      "map (\<lambda>(t, d, a, n). n) recent = bg_amounts b" "\<forall>(t, d, a, n) \<in> set recent. unat t \<le> bg_start b + bg_period b"
    by (auto simp: represents_def)
  let ?b = "budget_at (unat (ev_now E)) b"
  have w: "(start, spent) = (if unat (ev_now E) > bg_start b + bg_period b then (ev_now E, 0) else (cs_start s, cs_spent s))"
    using window_at_Some [OF paid(4)] rep(2,3) by simp
  then have spent: "spent = sum_list (bg_amounts ?b)" using rep(4) by (auto simp: budget_at_def split: if_splits)
  have lim: "bg_limit ?b = cs_limit s" "bg_period ?b = unat (cs_window s)" "bg_start ?b = unat start"
    using w rep(1-3) by (auto simp: budget_at_def split: if_splits)
  obtain old' recent' where h: "cw_paid W = old' @ recent'" "map (\<lambda>(t, d, a, n). n) recent' = bg_amounts ?b"
      "\<forall>(t, d, a, n) \<in> set recent'. unat t \<le> bg_start ?b + bg_period ?b"
  proof (cases "unat (ev_now E) > bg_start b + bg_period b")
    case True
    then show ?thesis using that [of "cw_paid W" "[]"] by (simp add: budget_at_def)
  next
    case False
    then show ?thesis using that [of old recent] rep(5-7) by (simp add: budget_at_def)
  qed
  have now: "unat (ev_now E) \<le> bg_start ?b + bg_period ?b" by (simp add: budget_at_def)
  have "budget_pay (unat (ev_now E)) n b = Some (?b\<lparr>bg_amounts := bg_amounts ?b @ [n]\<rparr>)"
    using paid(6) spent lim(1) by (simp add: budget_pay_def Let_def)
  moreover have "represents W' (?b\<lparr>bg_amounts := bg_amounts ?b @ [n]\<rparr>)"
    unfolding represents_def using paid(9) lim spent h now
    by (intro exI [of _ "s\<lparr>cs_spent := spent + n, cs_start := start\<rparr>"] exI [of _ old']
        exI [of _ "recent' @ [(ev_now E, d, a, n)]"]) auto
  ultimately show ?thesis by blast
qed simp

lemma represents_keeps:
  assumes "represents W b" and "cw_store W = Some s" and "cw_store W' = Some s'" and "cw_paid W' = cw_paid W"
    and "cs_limit s' = cs_limit s" "cs_window s' = cs_window s" "cs_start s' = cs_start s" "cs_spent s' = cs_spent s"
  shows "represents W' b"
proof -
  from assms(1,2) obtain old recent where "bg_limit b = cs_limit s" "bg_period b = unat (cs_window s)"
      "bg_start b = unat (cs_start s)" "cs_spent s = sum_list (bg_amounts b)" "cw_paid W = old @ recent"
      "map (\<lambda>(t, d, a, n). n) recent = bg_amounts b" "\<forall>(t, d, a, n) \<in> set recent. unat t \<le> bg_start b + bg_period b"
    by (auto simp: represents_def)
  with assms(3-) show ?thesis unfolding represents_def
    by (intro exI [of _ s'] exI [of _ old] exI [of _ recent]) simp
qed
section \<open>Recovery\<close>

text \<open>A pending proposal has at least one signature, and none twice.\<close>

definition wf_contract :: "contract_wallet \<Rightarrow> bool" where
  "wf_contract W \<longleftrightarrow> (\<forall>s p. cw_store W = Some s \<and> cs_pending s = Some p \<longrightarrow>
     py_signatures p \<noteq> [] \<and> distinct (py_signatures p))"

lemma step_wf:
  assumes "wf_contract W" and "contract_step W W'"
  shows "wf_contract W'"
  using assms(2)
proof cases
  case (step_init E ow gs th mx win r)
  then show ?thesis by (cases rule: initialize_cases) (use assms(1) in \<open>auto simp: wf_contract_def\<close>)
next
  case (step_pay E d a n r)
  then show ?thesis by (cases rule: execute_payment_cases) (use assms(1) in \<open>auto simp: wf_contract_def\<close>)
next
  case (step_propose E g ow r)
  then show ?thesis by (cases rule: propose_cases) (use assms(1) in \<open>auto simp: wf_contract_def\<close>)
next
  case (step_approve E g i r)
  then show ?thesis by (cases rule: approve_cases) (use assms(1) in \<open>auto simp: wf_contract_def\<close>)
next
  case (step_lock E u r)
  then have "set_time_lock E u W = (r, W') \<or> add_guardian E (Other_Address []) W = (r, W') \<or> remove_guardian E (Other_Address []) W = (r, W')" by simp
  then show ?thesis by (cases rule: owner_call_cases) (use assms(1) in \<open>auto simp: wf_contract_def\<close>)
next
  case (step_add E g r)
  then have "set_time_lock E 0 W = (r, W') \<or> add_guardian E g W = (r, W') \<or> remove_guardian E g W = (r, W')" by simp
  then show ?thesis by (cases rule: owner_call_cases) (use assms(1) in \<open>auto simp: wf_contract_def\<close>)
next
  case (step_remove E g r)
  then have "set_time_lock E 0 W = (r, W') \<or> add_guardian E g W = (r, W') \<or> remove_guardian E g W = (r, W')" by simp
  then show ?thesis by (cases rule: owner_call_cases) (use assms(1) in \<open>auto simp: wf_contract_def\<close>)
qed

lemma reachable_wf: "contract_reachable W \<Longrightarrow> wf_contract W"
  by (induction rule: contract_reachable.induct) (auto simp: undeployed_def wf_contract_def [of "\<lparr>cw_store = None, cw_paid = []\<rparr>"] intro: step_wf)

text \<open>Only an approval changes the owner of a wallet.\<close>

lemma owner_kept:
  assumes "contract_step W W'" and "cw_store W = Some s" and "cw_store W' = Some s'" and "cs_owner s' \<noteq> cs_owner s"
  shows "\<exists>E g i r. approve_recovery E g i W = (r, W')"
  using assms(1)
proof cases
  case (step_init E ow gs th mx win r)
  then show ?thesis by (cases rule: initialize_cases) (use assms in auto)
next
  case (step_pay E d a n r)
  then show ?thesis by (cases rule: execute_payment_cases) (use assms in auto)
next
  case (step_propose E g ow r)
  then show ?thesis by (cases rule: propose_cases) (use assms in auto)
next
  case (step_approve E g i r)
  then show ?thesis by blast
next
  case (step_lock E u r)
  then have "set_time_lock E u W = (r, W') \<or> add_guardian E (Other_Address []) W = (r, W') \<or> remove_guardian E (Other_Address []) W = (r, W')" by simp
  then show ?thesis by (cases rule: owner_call_cases) (use assms in auto)
next
  case (step_add E g r)
  then have "set_time_lock E 0 W = (r, W') \<or> add_guardian E g W = (r, W') \<or> remove_guardian E g W = (r, W')" by simp
  then show ?thesis by (cases rule: owner_call_cases) (use assms in auto)
next
  case (step_remove E g r)
  then have "set_time_lock E 0 W = (r, W') \<or> add_guardian E g W = (r, W') \<or> remove_guardian E g W = (r, W')" by simp
  then show ?thesis by (cases rule: owner_call_cases) (use assms in auto)
qed

text \<open>A guardian who is removed after signing still counts: the proposal keeps the signature.\<close>

lemma removed_guardian_still_counts:
  assumes "remove_guardian E g W = (COk (), W')" and "cw_store W = Some s"
  shows "\<exists>s'. cw_store W' = Some s' \<and> cs_pending s' = cs_pending s \<and> cs_threshold s' = cs_threshold s"
  using assms by (auto simp: remove_guardian_def split: if_splits)

section \<open>Properties\<close>

text \<open>
  C27: The payments of the contract refine the abstract budget: every call either leaves the budget as it is
  or is a payment the budget allows, and the counter stays the sum of the payments of the window.
\<close>

theorem contract_refines_budget:
  assumes "represents W b" and "contract_step W W'"
  shows "\<exists>b'. represents W' b' \<and> (b' = b \<or> (\<exists>now n. budget_pay now n b = Some b'))"
  using assms(2)
proof (cases rule: contract_step_cases)
  case (made E ow gs th mx win)
  then have "cw_store W = None" by (cases rule: initialize_cases) auto
  with assms(1) show ?thesis by (simp add: represents_def)
next
  case (paid E d a n)
  with payment_simulates [OF assms(1)] show ?thesis by blast
next
  case (other s s')
  then have "represents W' b" by (intro represents_keeps [OF assms(1) other(1), of W' s']) simp_all
  then show ?thesis by blast
qed (use assms(1) in blast)

text \<open>A sample wallet: an owner, two guardians, a limit of one hundred an hour.\<close>

definition sample_host :: "64 word \<Rightarrow> contract_env" where
  "sample_host t = \<lparr>ev_auth = (\<lambda>a. True), ev_now = t, ev_token = (\<lambda>a d n. True)\<rparr>"

definition sample_store :: contract_store where
  "sample_store = \<lparr>cs_owner = Account_Address ''o'', cs_guardians = [Account_Address ''g'', Account_Address ''h''],
     cs_threshold = 1, cs_limit = 100, cs_window = 3600, cs_spent = 0, cs_start = 1000, cs_lock = 0, cs_pending = None,
     cs_next = 0\<rparr>"

definition sample_contract :: contract_wallet where
  "sample_contract = \<lparr>cw_store = Some sample_store, cw_paid = []\<rparr>"

definition sample_budget :: budget where
  "sample_budget = \<lparr>bg_limit = 100, bg_period = 3600, bg_start = 1000, bg_amounts = []\<rparr>"

lemma sample_represents: "represents sample_contract sample_budget"
  by (simp add: represents_def sample_contract_def sample_store_def sample_budget_def)

lemma sample_reachable: "contract_reachable sample_contract"
proof -
  have "contract_step undeployed sample_contract"
    by (rule step_init [of "sample_host 1000" "Account_Address ''o''" "[Account_Address ''g'', Account_Address ''h'']" 1 100 3600 _ "COk ()"])
      (simp_all add: initialize_def undeployed_def sample_host_def sample_contract_def sample_store_def fits128_def)
  then show ?thesis by (rule reach_call [OF reach_undeployed])
qed

lemma contract_refines_budget_witness:
  "\<exists>W' b'. execute_payment (sample_host 1500) (Account_Address ''d'') (Contract_Address ''c'') 60 sample_contract = (COk (), W') \<and>
     represents W' b' \<and> (b' = sample_budget \<or> (\<exists>now n. budget_pay now n sample_budget = Some b'))"
proof -
  obtain W' where run: "execute_payment (sample_host 1500) (Account_Address ''d'') (Contract_Address ''c'') 60 sample_contract = (COk (), W')"
    by (simp add: execute_payment_def sample_contract_def sample_store_def sample_host_def window_at_def add_u64_def fits128_def)
  have "contract_step sample_contract W'" by (rule step_pay [OF run]) (simp add: fits128_def)
  from contract_refines_budget [OF sample_represents this] run show ?thesis by blast
qed

text \<open>
  Where the host takes part, a payment goes through exactly if its amount is at most what the spending
  status of the same moment reports as remaining.
\<close>

theorem status_predicts_payment:
  assumes "get_spending_status (ev_now E) W = COk g" and "cw_store W = Some s" and "ev_auth E (cs_owner s)"
    and "cs_lock s \<le> ev_now E" and "ev_token E a d n" and "fits128 (sg_spent g + n)"
  shows "fst (execute_payment E d a n W) = COk () \<longleftrightarrow> n \<le> sg_remaining g"
proof -
  from assms(1,2) obtain ends where ends: "add_u64 (cs_start s) (cs_window s) = Some ends"
    by (auto simp: get_spending_status_def split: option.splits)
  with assms(1,2) have g: "sg_spent g = (if ev_now E > ends then 0 else cs_spent s)" "sg_remaining g = cs_limit s - sg_spent g"
    by (auto simp: get_spending_status_def Let_def split: option.splits if_splits)
  have "window_at (ev_now E) s = Some (if ev_now E > ends then ev_now E else cs_start s, sg_spent g)"
    using ends g(1) by (simp add: window_at_def)
  with assms(2-6) g(2) show ?thesis by (auto simp: execute_payment_def not_less)
qed

lemma status_predicts_payment_witness:
  "\<exists>g. get_spending_status 1500 sample_contract = COk g \<and>
     (fst (execute_payment (sample_host 1500) (Account_Address ''d'') (Contract_Address ''c'') 60 sample_contract) = COk ()
      \<longleftrightarrow> 60 \<le> sg_remaining g)"
proof -
  obtain g where g: "get_spending_status (ev_now (sample_host 1500)) sample_contract = COk g" and z: "sg_spent g = 0"
    by (simp add: get_spending_status_def sample_contract_def sample_store_def sample_host_def add_u64_def fits128_def Let_def)
  have h: "cw_store sample_contract = Some sample_store" "ev_auth (sample_host 1500) (cs_owner sample_store)"
    "cs_lock sample_store \<le> ev_now (sample_host 1500)"
    "ev_token (sample_host 1500) (Contract_Address ''c'') (Account_Address ''d'') 60" "fits128 (sg_spent g + 60)"
    by (simp_all add: sample_contract_def sample_store_def sample_host_def z fits128_def)
  from status_predicts_payment [OF g h] g show ?thesis by (auto simp: sample_host_def)
qed

text \<open>
  Whoever becomes owner of a wallet was proposed, and at least two different addresses and as many as
  the threshold signed, the last of them a guardian now; the guardians are gone then. So a wallet with a
  threshold of one and a single guardian is never recovered.
\<close>

theorem owner_changed_by_quorum:
  assumes "contract_reachable W" and "contract_step W W'" and "cw_store W = Some s" and "cw_store W' = Some s'"
    and "cs_owner s' \<noteq> cs_owner s"
  shows "\<exists>p g. cs_pending s = Some p \<and> cs_owner s' = py_owner p \<and> g \<in> set (cs_guardians s) \<and>
    distinct (g # py_signatures p) \<and> max 2 (unat (cs_threshold s)) \<le> length (g # py_signatures p) \<and> cs_guardians s' = []"
proof -
  obtain E g i r where "approve_recovery E g i W = (r, W')" using owner_kept [OF assms(2-5)] by blast
  then show ?thesis
  proof (cases rule: approve_cases)
    case (recovered u p)
    with reachable_wf [OF assms(1)] have "py_signatures p \<noteq> []" "distinct (py_signatures p)" by (auto simp: wf_contract_def)
    moreover from this have "1 \<le> length (py_signatures p)" by (cases "py_signatures p") simp_all
    ultimately show ?thesis using recovered assms(3,4) by (intro exI [of _ p] exI [of _ g]) auto
  qed (use assms(3-5) in auto)
qed

text \<open>The sample wallet after a proposal of its first guardian.\<close>

lemma owner_changed_by_quorum_witness:
  "\<exists>W1 W2 s2. propose_recovery (sample_host 1500) (Account_Address ''g'') (Account_Address ''n'') sample_contract = (COk 0, W1) \<and>
     approve_recovery (sample_host 1600) (Account_Address ''h'') 0 W1 = (COk (), W2) \<and> cw_store W2 = Some s2 \<and>
     cs_owner s2 = Account_Address ''n'' \<and> cs_guardians s2 = []"
proof -
  let ?s1 = "sample_store\<lparr>cs_pending := Some \<lparr>py_id = 0, py_owner = Account_Address ''n'', py_signatures = [Account_Address ''g'']\<rparr>, cs_next := 1\<rparr>"
  let ?s2 = "?s1\<lparr>cs_owner := Account_Address ''n'', cs_guardians := [], cs_pending := None\<rparr>"
  let ?W1 = "sample_contract\<lparr>cw_store := Some ?s1\<rparr>" and ?W2 = "sample_contract\<lparr>cw_store := Some ?s2\<rparr>"
  have a: "propose_recovery (sample_host 1500) (Account_Address ''g'') (Account_Address ''n'') sample_contract = (COk 0, ?W1)"
    by (simp add: propose_recovery_def sample_host_def sample_contract_def sample_store_def)
  have b: "approve_recovery (sample_host 1600) (Account_Address ''h'') 0 ?W1 = (COk (), ?W2)"
    by (simp add: approve_recovery_def sample_host_def sample_contract_def sample_store_def)
  have "contract_reachable ?W1" by (rule reach_call [OF sample_reachable step_propose [OF a]])
  from owner_changed_by_quorum [OF this step_approve [OF b], of ?s1 ?s2]
  have "cs_guardians ?s2 = []" by (simp add: sample_store_def)
  with a b show ?thesis by (intro exI [of _ ?W1] exI [of _ ?W2] exI [of _ ?s2]) simp
qed

text \<open>
  The limit does not bind an owner who may name any token contract. A payment of a negative amount in
  a token that accepts it lowers the counter, and then more of a real asset than the limit goes out within the
  window.
\<close>

theorem foreign_token_lifts_limit:
  assumes "cw_store W = Some s" and "ev_auth E (cs_owner s)" and "cs_lock s \<le> ev_now E"
    and "add_u64 (cs_start s) (cs_window s) = Some ends" and "ev_now E \<le> ends" and "cs_spent s \<le> cs_limit s" and "0 < k"
    and "ev_token E token d (- k)" and "ev_token E asset d (cs_limit s - cs_spent s + k)"
    and "fits128 (cs_spent s - k)" and "fits128 (cs_limit s)"
  shows "\<exists>W1 W2. execute_payment E d token (- k) W = (COk (), W1) \<and>
    execute_payment E d asset (cs_limit s - cs_spent s + k) W1 = (COk (), W2) \<and>
    cw_paid W2 = cw_paid W @ [(ev_now E, d, token, - k), (ev_now E, d, asset, cs_limit s - cs_spent s + k)]"
proof -
  let ?s1 = "s\<lparr>cs_spent := cs_spent s - k\<rparr>"
  let ?W1 = "W\<lparr>cw_store := Some ?s1, cw_paid := cw_paid W @ [(ev_now E, d, token, - k)]\<rparr>"
  have 1: "execute_payment E d token (- k) W = (COk (), ?W1)"
    using assms leD [OF assms(3)] leD [OF assms(5)] by (simp add: execute_payment_def window_at_def)
  have w: "window_at (ev_now E) ?s1 = Some (cs_start s, cs_spent s - k)"
    using assms(4) leD [OF assms(5)] by (simp add: window_at_def)
  have "execute_payment E d asset (cs_limit s - cs_spent s + k) ?W1
      = (COk (), ?W1\<lparr>cw_store := Some (?s1\<lparr>cs_spent := cs_limit s, cs_start := cs_start s\<rparr>),
          cw_paid := cw_paid ?W1 @ [(ev_now E, d, asset, cs_limit s - cs_spent s + k)]\<rparr>)"
    using assms w by (simp add: execute_payment_def)
  with 1 show ?thesis by simp
qed

lemma foreign_token_lifts_limit_witness:
  "\<exists>W1 W2. execute_payment (sample_host 1500) (Account_Address ''d'') (Contract_Address ''evil'') (- 1000) sample_contract = (COk (), W1) \<and>
     execute_payment (sample_host 1500) (Account_Address ''d'') (Contract_Address ''usdc'') 1100 W1 = (COk (), W2)"
proof -
  have h: "cw_store sample_contract = Some sample_store" "ev_auth (sample_host 1500) (cs_owner sample_store)"
    "cs_lock sample_store \<le> ev_now (sample_host 1500)"
    "add_u64 (cs_start sample_store) (cs_window sample_store) = Some 4600" "ev_now (sample_host 1500) \<le> 4600"
    "cs_spent sample_store \<le> cs_limit sample_store" "0 < (1000 :: int)"
    "ev_token (sample_host 1500) (Contract_Address ''evil'') (Account_Address ''d'') (- 1000)"
    "ev_token (sample_host 1500) (Contract_Address ''usdc'') (Account_Address ''d'') (cs_limit sample_store - cs_spent sample_store + 1000)"
    "fits128 (cs_spent sample_store - 1000)" "fits128 (cs_limit sample_store)"
    by (simp_all add: sample_contract_def sample_store_def sample_host_def add_u64_def fits128_def)
  from foreign_token_lifts_limit [OF h] show ?thesis by (auto simp: sample_store_def)
qed

text \<open>
  The window is not rolling: a full limit at its last second and another at the first second after it
  both go through.
\<close>

theorem limit_is_not_rolling:
  assumes "cw_store W = Some s" and "add_u64 (cs_start s) (cs_window s) = Some ends" and "ends < - 1"
    and "cs_spent s = 0" and "fits128 (cs_limit s)" and "add_u64 (ends + 1) (cs_window s) \<noteq> None"
    and "\<forall>t \<in> {ends, ends + 1}. ev_auth (E t) (cs_owner s) \<and> ev_now (E t) = t \<and> cs_lock s \<le> t \<and> ev_token (E t) a d (cs_limit s)"
  shows "\<exists>W1 W2. execute_payment (E ends) d a (cs_limit s) W = (COk (), W1) \<and>
    execute_payment (E (ends + 1)) d a (cs_limit s) W1 = (COk (), W2)"
proof -
  have "unat ends < 2 ^ 64 - 1" using assms(3) by (simp add: word_less_nat_alt unsigned_minus_1_eq_mask mask_eq_exp_minus_1)
  then have "unat (ends + 1) = unat ends + 1" by (simp add: unat_word_ariths)
  then have less: "ends < ends + 1" by (simp add: word_less_nat_alt)
  let ?W1 = "W\<lparr>cw_store := Some (s\<lparr>cs_spent := cs_limit s, cs_start := cs_start s\<rparr>), cw_paid := cw_paid W @ [(ends, d, a, cs_limit s)]\<rparr>"
  have locks: "\<not> ends < cs_lock s" "\<not> ends + 1 < cs_lock s" using assms(7) by (auto dest: leD)
  have 1: "execute_payment (E ends) d a (cs_limit s) W = (COk (), ?W1)"
    using assms locks by (simp add: execute_payment_def window_at_def)
  have "\<exists>W2. execute_payment (E (ends + 1)) d a (cs_limit s) ?W1 = (COk (), W2)"
    using assms less locks by (simp add: execute_payment_def window_at_def)
  with 1 show ?thesis by blast
qed

lemma limit_is_not_rolling_witness:
  "\<exists>W1 W2. execute_payment (sample_host 4600) (Account_Address ''d'') (Contract_Address ''usdc'') 100 sample_contract = (COk (), W1) \<and>
     execute_payment (sample_host 4601) (Account_Address ''d'') (Contract_Address ''usdc'') 100 W1 = (COk (), W2)"
proof -
  have h: "cw_store sample_contract = Some sample_store" "add_u64 (cs_start sample_store) (cs_window sample_store) = Some 4600"
    "(4600 :: 64 word) < - 1" "cs_spent sample_store = 0" "fits128 (cs_limit sample_store)"
    "add_u64 (4600 + 1) (cs_window sample_store) \<noteq> None"
    "\<forall>t \<in> {4600, 4600 + 1}. ev_auth (sample_host t) (cs_owner sample_store) \<and> ev_now (sample_host t) = t \<and>
       cs_lock sample_store \<le> t \<and> ev_token (sample_host t) (Contract_Address ''usdc'') (Account_Address ''d'') (cs_limit sample_store)"
    by (simp_all add: sample_contract_def sample_store_def sample_host_def add_u64_def fits128_def)
  from limit_is_not_rolling [OF h] show ?thesis by (simp add: sample_store_def)
qed

end
