(* ===== verification/Vault.thy ===== *)
theory Vault
  imports Settlement Signature
begin

text \<open>
  \<^verbatim>\<open>internal/crypto/aes.go\<close>, \<^verbatim>\<open>internal/stellar/keypair.go\<close> and \<^verbatim>\<open>signer.go\<close>: how the secret of a
  wallet is sealed, stored as hexadecimal text, and opened again by the two kinds of caller, those that
  decode the text first and those that hand it to the signer as it is. The cipher is a parameter.
\<close>

section \<open>Hexadecimal text\<close>

lemma hex_value_digit: "d < 16 \<Longrightarrow> hex_value (of_char (hex_digit_char d)) = Some d"
  by (auto simp: hex_digit_char_def)

lemma hex_encode_Cons:
  "hex_encode (c # s)
    = hex_digit_char (of_char c div 16) # hex_digit_char (of_char c mod 16) # hex_encode s"
  by (simp add: hex_encode_def Let_def)

lemma hex_round_trip [simp]: "hex_decode (hex_encode s) = Some s"
proof (induction s)
  case (Cons c s)
  have "(of_char c :: nat) < 256" by simp
  then have "(of_char c :: nat) div 16 < 16" by linarith
  moreover have "16 * ((of_char c :: nat) div 16) + of_char c mod 16 = of_char c" by simp
  ultimately show ?case
    using Cons hex_value_digit [of "of_char c div 16"] hex_value_digit [of "of_char c mod 16"]
    unfolding hex_encode_Cons hex_decode.simps by (simp del: hex_value.simps)
qed (simp add: hex_encode_def)

lemma length_hex_encode [simp]: "length (hex_encode s) = 2 * length s"
  by (induction s) (simp_all add: hex_encode_Cons, simp add: hex_encode_def)

section \<open>The cipher\<close>

text \<open>\<^verbatim>\<open>cipher.AEAD\<close> for a key: \<^verbatim>\<open>Seal\<close> and \<^verbatim>\<open>Open\<close>, by nonce.\<close>

record gcm_pkg =
  gm_seal :: "string \<Rightarrow> string \<Rightarrow> string \<Rightarrow> string"
  gm_open :: "string \<Rightarrow> string \<Rightarrow> string \<Rightarrow> string option"

definition nonce_size :: nat where "nonce_size = 12"

text \<open>\<open>rand\<close> is what the random source gives for the nonce.\<close>

definition encrypt :: "gcm_pkg \<Rightarrow> err + string \<Rightarrow> string \<Rightarrow> string \<Rightarrow> err + string" where
  "encrypt G rand plaintext key =
     (if length key \<noteq> 32 then Inl (Opaque ''encryption key must be 32 bytes'')
      else case rand of Inl e \<Rightarrow> Inl e | Inr nonce \<Rightarrow> Inr (nonce @ gm_seal G key nonce plaintext))"

definition decrypt :: "gcm_pkg \<Rightarrow> string \<Rightarrow> string \<Rightarrow> err + string" where
  "decrypt G ciphertext key =
     (if length key \<noteq> 32 then Inl (Opaque ''encryption key must be 32 bytes'')
      else if length ciphertext < nonce_size then Inl (Opaque ''ciphertext too short'')
      else case gm_open G key (take nonce_size ciphertext) (drop nonce_size ciphertext) of
          None \<Rightarrow> Inl (Opaque ''decryption failed: authentication tag mismatch'')
        | Some p \<Rightarrow> Inr p)"

text \<open>
  What is documented of the cipher: opening what was sealed gives it back, and sealing adds a tag of
  sixteen bytes.
\<close>

definition gcm_doc :: "gcm_pkg \<Rightarrow> bool" where
  "gcm_doc G \<longleftrightarrow> (\<forall>k n p. gm_open G k n (gm_seal G k n p) = Some p) \<and>
     (\<forall>k n p. length (gm_seal G k n p) = length p + 16)"

text \<open>
  Authenticity in its ideal form, for a key and the messages sealed with it so far, each its nonce and
  its plain text: these open, and nothing else does.
\<close>

definition ideal_gcm :: "gcm_pkg \<Rightarrow> string \<Rightarrow> (string \<times> string) list \<Rightarrow> bool" where
  "ideal_gcm G k made \<longleftrightarrow>
     (\<forall>n c p. gm_open G k n c = Some p \<longleftrightarrow> (n, p) \<in> set made \<and> c = gm_seal G k n p) \<and>
     (\<forall>n p. length (gm_seal G k n p) = length p + 16)"

section \<open>Signing\<close>

text \<open>
  \<^verbatim>\<open>EnvSigner.Sign\<close>. \<open>parse\<close> is the parsing of a secret seed, \<open>seal\<close> the signing of the transaction
  with it; the signed transaction is \<open>'t\<close>.
\<close>

definition env_sign ::
  "gcm_pkg \<Rightarrow> string \<Rightarrow> (string \<Rightarrow> err + 'k) \<Rightarrow> ('k \<Rightarrow> err + 't) \<Rightarrow> string \<Rightarrow> err + 't" where
  "env_sign G key parse sign_with secret =
     (case decrypt G secret key of Inl e \<Rightarrow> Inl (Wrap ''decrypt secret'' e)
      | Inr bytes \<Rightarrow>
     (case parse bytes of Inl e \<Rightarrow> Inl (Wrap ''parse keypair'' e)
      | Inr kp \<Rightarrow>
     (case sign_with kp of Inl e \<Rightarrow> Inl (Wrap ''sign transaction'' e) | Inr t \<Rightarrow> Inr t)))"

definition generate_keypair :: "err + (string \<times> string) \<Rightarrow> err + (string \<times> string)" where
  "generate_keypair random = map_sum (Wrap ''generate stellar keypair'') id random"

section \<open>Facts\<close>

lemma decrypt_encrypt:
  assumes "gcm_doc G" and "encrypt G (Inr nonce) p key = Inr c" and "length nonce = nonce_size"
  shows "decrypt G c key = Inr p"
  using assms by (auto simp: encrypt_def decrypt_def gcm_doc_def split: if_splits)

lemma decrypt_sealed:
  assumes "ideal_gcm G key made" and "(nonce, p) \<in> set made" and "encrypt G (Inr nonce) p key = Inr c"
    and "length nonce = nonce_size"
  shows "decrypt G c key = Inr p" and "length c = length p + 28"
proof -
  have open_it: "gm_open G key nonce (gm_seal G key nonce p) = Some p"
    using assms(1,2) by (simp add: ideal_gcm_def)
  show "decrypt G c key = Inr p"
    using assms(3,4) by (auto simp: encrypt_def decrypt_def open_it split: if_splits)
  show "length c = length p + 28"
    using assms(1,3,4) by (auto simp: encrypt_def ideal_gcm_def nonce_size_def split: if_splits)
qed

text \<open>A text whose length is not that of a sealed message does not open.\<close>

lemma decrypt_foreign:
  assumes "ideal_gcm G key made" and "\<forall>(n, p) \<in> set made. length s \<noteq> length p + 28"
  shows "isl (decrypt G s key)"
proof (rule ccontr)
  assume "\<not> ?thesis"
  then obtain p where long: "nonce_size \<le> length s"
    and "gm_open G key (take nonce_size s) (drop nonce_size s) = Some p"
    by (auto simp: decrypt_def isl_def split: if_splits option.splits)
  with assms(1) have "(take nonce_size s, p) \<in> set made" and c: "drop nonce_size s = gm_seal G key (take nonce_size s) p"
    by (auto simp: ideal_gcm_def)
  with assms(2) have "length s \<noteq> length p + 28" by fast
  moreover have "length s - nonce_size = length p + 16"
    using arg_cong [OF c, of length] assms(1) by (simp add: ideal_gcm_def)
  ultimately show False using long by (simp add: nonce_size_def)
qed

lemma env_sign_fails: "isl (decrypt G s key) \<Longrightarrow> isl (env_sign G key parse sign_with s)"
  by (auto simp: env_sign_def isl_def)

lemma env_sign_empty [simp]: "isl (env_sign G key parse sign_with '''')"
  by (rule env_sign_fails) (simp add: decrypt_def nonce_size_def)

text \<open>
  Ciphers on which the hypotheses are evaluated: the plain text with a constant tag, and the same one
  that opens only what is on a list.
\<close>

definition constant_tag :: string where "constant_tag = replicate 16 (CHR ''#'')"

definition plain_gcm :: gcm_pkg where
  "plain_gcm = \<lparr>gm_seal = (\<lambda>k n p. p @ constant_tag),
     gm_open = (\<lambda>k n c. if 16 \<le> length c \<and> drop (length c - 16) c = constant_tag
        then Some (take (length c - 16) c) else None)\<rparr>"

lemma plain_gcm_doc: "gcm_doc plain_gcm"
  by (simp add: gcm_doc_def plain_gcm_def constant_tag_def)

definition listed_gcm :: "(string \<times> string) list \<Rightarrow> gcm_pkg" where
  "listed_gcm made = plain_gcm\<lparr>gm_open := (\<lambda>k n c.
     if 16 \<le> length c \<and> drop (length c - 16) c = constant_tag \<and> (n, take (length c - 16) c) \<in> set made
     then Some (take (length c - 16) c) else None)\<rparr>"

lemma listed_gcm_ideal: "ideal_gcm (listed_gcm made) k made"
proof -
  have tagged: "c = take (length c - 16) c @ constant_tag"
    if "drop (length c - 16) c = constant_tag" for c :: string
    using append_take_drop_id [of "length c - 16" c] that by simp
  show ?thesis
    by (auto simp: ideal_gcm_def listed_gcm_def plain_gcm_def intro: tagged) (simp_all add: constant_tag_def)
qed

section \<open>Properties\<close>

text \<open>
  The secret of a wallet survives its storage: sealed, written as hexadecimal text, read back,
  decoded and opened with the same key it is the same secret.
\<close>

theorem secret_round_trip:
  assumes "gcm_doc G" and "encrypt G (Inr nonce) secret key = Inr c" and "length nonce = nonce_size"
  shows "\<exists>bytes. hex_decode (hex_encode c) = Some bytes \<and> decrypt G bytes key = Inr secret"
  using decrypt_encrypt [OF assms] by simp

lemma secret_round_trip_witness:
  "\<exists>c. encrypt plain_gcm (Inr (replicate 12 (CHR ''n''))) ''SEED'' (replicate 32 (CHR ''k'')) = Inr c \<and>
     (\<exists>b. hex_decode (hex_encode c) = Some b \<and> decrypt plain_gcm b (replicate 32 (CHR ''k'')) = Inr ''SEED'')"
  using secret_round_trip [OF plain_gcm_doc, of "replicate 12 (CHR ''n'')" "''SEED''" "replicate 32 (CHR ''k'')"]
  by (simp add: encrypt_def nonce_size_def)

end
