(* ===== verification/Wallets.thy ===== *)
theory Wallets
  imports Vault Xdc_Settlement Transfers Reconcile
begin

text \<open>
  \<^verbatim>\<open>internal/wallet/service.go\<close>, \<^verbatim>\<open>xdc_service.go\<close>, the decoding in \<^verbatim>\<open>handler.go\<close>, and the rest of
  \<^verbatim>\<open>internal/postgres/wallet_repo.go\<close>: creation of custodial wallets on both backends, balances, trust
  lines, direct payments, deposits and the faucet. The Horizon client, the XDC node, the cipher and the
  parsing of keys are parameters; \<^verbatim>\<open>NewFromFloat\<close> is the decimal of the shortest text, so the amounts of
  requests are decimals here.
\<close>

section \<open>Repository\<close>

text \<open>
  \<^verbatim>\<open>Create\<close>: the tenant of the context, if any, is the wallet's. Keys are \<^verbatim>\<open>id\<close> and \<^verbatim>\<open>public_key\<close>. The
  caller's struct is changed with it and is returned.
\<close>

definition insert_wallet :: "ctx \<Rightarrow> err option \<Rightarrow> wallet \<Rightarrow> world \<Rightarrow> (err + wallet) \<times> world" where
  "insert_wallet c q x w =
     (let x' = (if cx_tenant c \<noteq> '''' then x\<lparr>wa_tenant := Some (cx_tenant c)\<rparr> else x);
          row = x'\<lparr>wa_tenant := null_ptr (wa_tenant x')\<rparr>
      in case (if q \<noteq> None then q
               else if \<exists>r \<in> set (w_wallets w). wa_id r = wa_id x \<or> wa_public_key r = wa_public_key x
               then Some unique_violation
               else if \<not> ref_ok (the_default '''' (wa_tenant row)) (map te_id (w_tenants w))
               then Some foreign_key_violation else None) of
           Some e \<Rightarrow> (Inl (Wrap ''insert wallet'' e), w)
         | None \<Rightarrow> (Inr x', w\<lparr>w_wallets := w_wallets w @ [row]\<rparr>))"

definition get_wallet_by_key :: "ctx \<Rightarrow> err option \<Rightarrow> string \<Rightarrow> world \<Rightarrow> err + wallet" where
  "get_wallet_by_key c q key w =
     (case q of Some e \<Rightarrow> Inl (Wrap ''get wallet by public key'' e)
      | None \<Rightarrow> (case find (\<lambda>r. wa_public_key r = key \<and> in_scope c (wa_tenant r)) (w_wallets w) of
                  None \<Rightarrow> Inl (Dom ErrWalletNotFound) | Some r \<Rightarrow> Inr r))"

definition count_wallets :: "err option \<Rightarrow> string \<Rightarrow> world \<Rightarrow> err + int" where
  "count_wallets q t w =
     (case q of Some e \<Rightarrow> Inl (Wrap ''count wallets by tenant'' e)
      | None \<Rightarrow> Inr (int (rows_affected (\<lambda>r. wa_tenant r = Some t) (w_wallets w))))"

definition list_wallets :: "ctx \<Rightarrow> err option \<Rightarrow> nat \<Rightarrow> nat \<Rightarrow> world \<Rightarrow> err + wallet list" where
  "list_wallets c q limit offset w =
     (case q of Some e \<Rightarrow> Inl (Wrap ''list wallets'' e)
      | None \<Rightarrow> Inr (take limit (drop offset (sort_key (\<lambda>r. - wa_created r)
          (filter (\<lambda>r. in_scope c (wa_tenant r)) (w_wallets w))))))"

definition update_sync_cursor :: "err option \<Rightarrow> string \<Rightarrow> string \<Rightarrow> world \<Rightarrow> err option \<times> world" where
  "update_sync_cursor q i cursor w =
     (case q of Some e \<Rightarrow> (Some (Wrap ''update sync cursor'' e), w)
      | None \<Rightarrow> (None, w\<lparr>w_wallets := update_where (\<lambda>r. wa_id r = i) (\<lambda>r. r\<lparr>wa_cursor := cursor\<rparr>) (w_wallets w)\<rparr>))"

text \<open>
  \<^verbatim>\<open>Delete\<close>: the context's tenant is not part of the condition. The balances go with the row, and the
  transactions keep a NULL in its place (\<^verbatim>\<open>ON DELETE CASCADE\<close>, \<^verbatim>\<open>ON DELETE SET NULL\<close>); schedules and
  conversions, which other theories hold, go as well. A wallet with rows of fiat ramps or anchors cannot
  be deleted, which is an error of the statement.
\<close>

definition forget_wallet :: "string \<Rightarrow> transaction \<Rightarrow> transaction" where
  "forget_wallet i t =
     t\<lparr>tx_from := if tx_from t = i then '''' else tx_from t, tx_to := if tx_to t = i then '''' else tx_to t\<rparr>"

definition delete_wallet :: "ctx \<Rightarrow> err option \<Rightarrow> string \<Rightarrow> world \<Rightarrow> err option \<times> world" where
  "delete_wallet c q i w =
     (case q of Some e \<Rightarrow> (Some (Wrap ''delete wallet'' e), w)
      | None \<Rightarrow> (None, if rows_affected (\<lambda>r. wa_id r = i) (w_wallets w) = 0 then w
          else w\<lparr>w_wallets := filter (\<lambda>r. wa_id r \<noteq> i) (w_wallets w),
            w_balances := filter (\<lambda>b. ba_wallet b \<noteq> i) (w_balances w),
            w_txs := map (forget_wallet i) (w_txs w)\<rparr>))"

section \<open>The services\<close>

text \<open>
  The configuration of a service, Stellar or XDC, with the parameters that stand for the libraries:
  the text of a decimal (\<^verbatim>\<open>String\<close>), the cipher, the parsing of a seed, and a signer that was set.
\<close>

record wallet_service =
  wv_tenants :: bool
  wv_key :: string
  wv_gcm :: gcm_pkg
  wv_parse :: "string \<Rightarrow> err + string"
  wv_signer :: "(string \<Rightarrow> err option) option"
  wv_unicode :: unicode_tables
  wv_registry :: registry
  wv_usdc_issuer :: string
  wv_eurc_issuer :: string
  wv_fx :: bool
  wv_text :: "decimal \<Rightarrow> string"
  wv_treasury_key :: string

text \<open>What one call meets outside.\<close>

datatype wallet_stage = AtTenant | AtCount | AtInsert | AtWallet | AtCached | AtUpsert | AtHash | AtDeposit | AtExisting

record wallet_env =
  wn_q :: "wallet_stage \<Rightarrow> err option"
  wn_keypair :: "err + (string \<times> string)"
  wn_nonce :: "err + string"
  wn_uuid :: string
  wn_now :: go_time
  wn_account :: "err + (string \<times> string \<times> string) list"
  wn_rate :: "string \<Rightarrow> string \<Rightarrow> err + decimal"
  wn_build :: "err option"
  wn_seal :: "string \<Rightarrow> err + unit"
  wn_submit :: "err + string"
  wn_taken :: bool
  wn_transfer :: "err + string"
  wn_sent :: bool
  wn_balance :: "string \<Rightarrow> err + int"

text \<open>What was sent to the Stellar network: payments and changes of trust, with the paying account.\<close>

datatype stellar_effect =
    PaymentSent string payment string
  | TrustSent string string string string

record wallet_state =
  wt_world :: world
  wt_sent :: "stellar_effect list"

text \<open>The limit holds only where both reads succeed: their errors are dropped.\<close>

definition wallet_limit_hit :: "wallet_service \<Rightarrow> wallet_env \<Rightarrow> ctx \<Rightarrow> world \<Rightarrow> bool" where
  "wallet_limit_hit S E c w \<longleftrightarrow> cx_tenant c \<noteq> '''' \<and> wv_tenants S \<and>
     (case get_tenant (wn_q E AtTenant) (cx_tenant c) w of Inl e \<Rightarrow> False
      | Inr t \<Rightarrow> (case count_wallets (wn_q E AtCount) (cx_tenant c) w of Inl e \<Rightarrow> False
                  | Inr n \<Rightarrow> n \<ge> get_wallet_limit t))"

text \<open>\<^verbatim>\<open>CreateWallet\<close> of both services up to the insert; \<open>generate\<close> is what the key generator returns.\<close>

definition create_custodial ::
  "wallet_service \<Rightarrow> wallet_env \<Rightarrow> err + (string \<times> string) \<Rightarrow> ctx \<Rightarrow> world \<Rightarrow> (err + wallet) \<times> world" where
  "create_custodial S E generate c w =
     (if wallet_limit_hit S E c w then (Inl (Dom ErrWalletLimitReached), w)
      else case generate of Inl e \<Rightarrow> (Inl (Wrap ''generate keypair'' e), w)
      | Inr (pub, secret) \<Rightarrow>
     (case encrypt (wv_gcm S) (wn_nonce E) secret (wv_key S) of Inl e \<Rightarrow> (Inl (Wrap ''encrypt secret'' e), w)
      | Inr sealed \<Rightarrow>
     (case insert_wallet c (wn_q E AtInsert)
         \<lparr>wa_id = wn_uuid E, wa_public_key = pub, wa_secret = hex_encode sealed, wa_tenant = None,
          wa_created = wn_now E, wa_cursor = '''', wa_custody = CustodyCustodial, wa_contract = ''''\<rparr> w of
        (Inl e, w1) \<Rightarrow> (Inl (Wrap ''persist wallet'' e), w1)
      | (Inr x, w1) \<Rightarrow> (Inr x, w1))))"

definition create_wallet :: "wallet_service \<Rightarrow> wallet_env \<Rightarrow> ctx \<Rightarrow> world \<Rightarrow> (err + wallet) \<times> world" where
  "create_wallet S E c w = create_custodial S E (generate_keypair (wn_keypair E)) c w"

section \<open>Custodial wallets on Stellar\<close>

text \<open>\<^verbatim>\<open>resolveAsset\<close> and the same steps in \<^verbatim>\<open>AddTrustline\<close>: a known issuer where none is given.\<close>

definition known_issuer :: "wallet_service \<Rightarrow> string \<Rightarrow> string \<Rightarrow> string" where
  "known_issuer S code issuer =
     (if issuer \<noteq> '''' then issuer
      else let other = (if code = ''USDC'' then wv_usdc_issuer S else if code = ''EURC'' then wv_eurc_issuer S else '''')
           in case get_asset (wv_unicode S) (wv_registry S) code of
                Some a \<Rightarrow> if as_issuer a \<noteq> '''' then as_issuer a else other | None \<Rightarrow> other)"

definition missing_issuer :: "string \<Rightarrow> err" where
  "missing_issuer code = Wrap (''missing issuer for asset '' @ code) (Dom ErrInvalidAsset)"

definition resolve_asset :: "wallet_service \<Rightarrow> string \<Rightarrow> string \<Rightarrow> err + (string \<times> string)" where
  "resolve_asset S code issuer =
     (if code = ''XLM'' \<or> code = '''' then Inr (''XLM'', '''')
      else let i = known_issuer S code issuer in if i = '''' then Inl (missing_issuer code) else Inr (code, i))"

text \<open>The signer that was set, or one made of the master key; both get the stored text as it is.\<close>

definition env_signer :: "wallet_service \<Rightarrow> (string \<Rightarrow> err + unit) \<Rightarrow> string \<Rightarrow> err option" where
  "env_signer S seal secret =
     (case env_sign (wv_gcm S) (wv_key S) (wv_parse S) seal secret of Inl e \<Rightarrow> Some e | Inr u \<Rightarrow> None)"

definition sign_stored :: "wallet_service \<Rightarrow> wallet_env \<Rightarrow> string \<Rightarrow> err option" where
  "sign_stored S E secret =
     (case wv_signer S of Some f \<Rightarrow> f secret | None \<Rightarrow> env_signer S (wn_seal E) secret)"

text \<open>Building, signing and submitting one operation; \<open>what\<close> are the three prefixes of the errors.\<close>

definition send_stellar ::
  "wallet_service \<Rightarrow> wallet_env \<Rightarrow> string \<times> string \<times> string \<Rightarrow> wallet \<Rightarrow> stellar_effect \<Rightarrow> wallet_state
    \<Rightarrow> (err + string) \<times> wallet_state" where
  "send_stellar S E what x eff st =
     (case wn_build E of Some e \<Rightarrow> (Inl (Wrap (fst what) e), st) | None \<Rightarrow>
     (case sign_stored S E (wa_secret x) of Some e \<Rightarrow> (Inl (Wrap (fst (snd what)) e), st) | None \<Rightarrow>
     (let sent = st\<lparr>wt_sent := wt_sent st @ [eff]\<rparr> in
      case submit_transaction (wn_submit E) of
        Inl e \<Rightarrow> (Inl (Wrap (snd (snd what)) e), if wn_taken E then sent else st)
      | Inr h \<Rightarrow> (Inr h, sent))))"

definition execute_transfer ::
  "wallet_service \<Rightarrow> wallet_env \<Rightarrow> ctx \<Rightarrow> string \<Rightarrow> string \<Rightarrow> string \<Rightarrow> string \<Rightarrow> decimal \<Rightarrow> string \<Rightarrow> wallet_state
    \<Rightarrow> (err + string) \<times> wallet_state" where
  "execute_transfer S E c wid dest code issuer amount memo st =
     (case get_wallet c (wn_q E AtWallet) wid (wt_world st) of Inl e \<Rightarrow> (Inl e, st) | Inr x \<Rightarrow>
     (case resolve_asset S code issuer of Inl e \<Rightarrow> (Inl e, st) | Inr asset \<Rightarrow>
     (case load_account (wa_public_key x) (wn_account E) of Inl e \<Rightarrow> (Inl (Wrap ''load account'' e), st) | Inr acct \<Rightarrow>
      send_stellar S E (''build payment transaction'', ''sign payment transaction'', ''submit payment to stellar'') x
        (PaymentSent (wa_public_key x) \<lparr>pay_dest = dest, pay_asset = fst asset, pay_issuer = snd asset,
           pay_amount = wv_text S amount\<rparr> memo) st)))"

text \<open>Only the code \<^verbatim>\<open>XLM\<close> is refused as native; the new line is recorded with a balance of zero.\<close>

definition max_trustline_limit :: string where "max_trustline_limit = ''922337203685.4775807''"

definition add_trustline ::
  "numeric_col \<Rightarrow> wallet_service \<Rightarrow> wallet_env \<Rightarrow> ctx \<Rightarrow> string \<Rightarrow> string \<Rightarrow> string \<Rightarrow> string \<Rightarrow> err option \<Rightarrow> wallet_state
    \<Rightarrow> (err + string) \<times> wallet_state" where
  "add_trustline N S E c wid code issuer limit line st =
     (if code = ''XLM'' then (Inl (Wrap ''XLM is native and does not require a trustline'' (Dom ErrInvalidAsset)), st)
      else let i = known_issuer S code issuer in
      if i = '''' then (Inl (missing_issuer code), st)
      else case get_wallet c (wn_q E AtWallet) wid (wt_world st) of Inl e \<Rightarrow> (Inl e, st) | Inr x \<Rightarrow>
     (case load_account (wa_public_key x) (wn_account E) of Inl e \<Rightarrow> (Inl (Wrap ''load account'' e), st) | Inr acct \<Rightarrow>
     (case line of Some e \<Rightarrow> (Inl (Wrap ''build change trust asset'' e), st) | None \<Rightarrow>
     (case send_stellar S E (''build change trust transaction'', ''sign trustline transaction'', ''submit trustline to stellar'') x
         (TrustSent (wa_public_key x) code i (if limit = '''' then max_trustline_limit else limit)) st of
        (Inl e, st1) \<Rightarrow> (Inl e, st1)
      | (Inr h, st1) \<Rightarrow> (Inr h, st1\<lparr>wt_world := snd (upsert_balance N (wn_q E AtUpsert) wid code i 0 (wt_world st1))\<rparr>)))))"
text \<open>
  \<^verbatim>\<open>GetBalances\<close>: the network's balances, cached on the way, or the cached ones. The first branch on an
  error looks for the library's error type and a status line of \<open>404\<close>.
\<close>

record wallet_balance =
  wb_code :: string
  wb_issuer :: string
  wb_balance :: string
  wb_usd :: string

definition fx_value :: "decimal_pkg \<Rightarrow> wallet_service \<Rightarrow> wallet_env \<Rightarrow> string \<Rightarrow> wallet_balance \<Rightarrow> string" where
  "fx_value D S E target b =
     (case d_parse D (wb_balance b) of None \<Rightarrow> ''0.00''
      | Some a \<Rightarrow>
        if a = 0 then ''0.00''
        else if wb_code b = target \<or> wb_code b = ''USDC'' \<and> target = ''USD'' then d_fixed D a 2
        else if wv_fx S then (case wn_rate E (wb_code b) target of Inl e \<Rightarrow> ''0.00'' | Inr r \<Rightarrow> d_fixed D (a * r) 2)
        else ''0.00'')"

definition cached_balance :: "wallet_service \<Rightarrow> balance_record \<Rightarrow> wallet_balance" where
  "cached_balance S b =
     \<lparr>wb_code = ba_asset b, wb_issuer = ba_issuer b, wb_balance = wv_text S (ba_balance b), wb_usd = ''''\<rparr>"

fun live_balances ::
  "decimal_pkg \<Rightarrow> numeric_col \<Rightarrow> err option \<Rightarrow> string \<Rightarrow> (string \<times> string \<times> string) list \<Rightarrow> world
    \<Rightarrow> wallet_balance list \<times> world" where
  "live_balances D N q wid [] w = ([], w)"
| "live_balances D N q wid ((code, issuer, text) # bs) w =
     (let code' = (if code = '''' then ''XLM'' else code);
          w1 = snd (upsert_balance N q wid code' issuer (the_default 0 (d_parse D text)) w)
      in case live_balances D N q wid bs w1 of
           (rest, w2) \<Rightarrow> (\<lparr>wb_code = code', wb_issuer = issuer, wb_balance = text, wb_usd = ''''\<rparr> # rest, w2))"

definition wallet_balances ::
  "decimal_pkg \<Rightarrow> numeric_col \<Rightarrow> wallet_service \<Rightarrow> wallet_env \<Rightarrow> ctx \<Rightarrow> string \<Rightarrow> string \<Rightarrow> world
    \<Rightarrow> (err + wallet_balance list) \<times> world" where
  "wallet_balances D N S E c wid target w =
     (case get_wallet c (wn_q E AtWallet) wid w of Inl e \<Rightarrow> (Inl e, w)
      | Inr x \<Rightarrow>
        let convert = (\<lambda>bs. if target = '''' then bs else map (\<lambda>b. b\<lparr>wb_usd := fx_value D S E target b\<rparr>) bs) in
        case load_account (wa_public_key x) (wn_account E) of
          Inr acct \<Rightarrow> (case live_balances D N (wn_q E AtUpsert) wid acct w of (bs, w1) \<Rightarrow> (Inr (convert bs), w1))
        | Inl e \<Rightarrow>
            if map_option snd (as_horizon e) = Some ''404'' then (Inr [], w)
            else let cached = get_balances wid w in
              if wn_q E AtCached \<noteq> None \<or> cached = [] then (Inl (Wrap ''load account from horizon'' e), w)
              else (Inr (convert (map (cached_balance S) cached)), w))"

text \<open>
  \<^verbatim>\<open>Faucet\<close>: the new balance is the cached one of the first row of the asset, of whatever issuer, plus
  the amount, and is written for the empty issuer.
\<close>

definition credit_balance ::
  "numeric_col \<Rightarrow> wallet_service \<Rightarrow> wallet_env \<Rightarrow> string \<Rightarrow> string \<Rightarrow> decimal \<Rightarrow> world \<Rightarrow> (err + string \<times> string) \<times> world" where
  "credit_balance N S E wid code amount w =
     (let rows = (if wn_q E AtCached = None then get_balances wid w else []);
          current = (case row_with ba_asset code rows of None \<Rightarrow> 0 | Some b \<Rightarrow> ba_balance b)
      in case upsert_balance N (wn_q E AtUpsert) wid code '''' (current + amount) w of
           (Some e, w1) \<Rightarrow> (Inl (Wrap ''failed to update balance'' e), w1)
         | (None, w1) \<Rightarrow> (Inr (wv_text S (current + amount), ''''), w1))"

definition faucet ::
  "numeric_col \<Rightarrow> wallet_service \<Rightarrow> wallet_env \<Rightarrow> ctx \<Rightarrow> string \<Rightarrow> string \<Rightarrow> decimal \<Rightarrow> world
    \<Rightarrow> (err + string \<times> string) \<times> world" where
  "faucet N S E c wid code amount w =
     (case get_wallet c (wn_q E AtWallet) wid w of Inl e \<Rightarrow> (Inl (Opaque ''wallet not found''), w)
      | Inr x \<Rightarrow> credit_balance N S E wid code amount w)"

text \<open>The decoded request: \<^verbatim>\<open>USDC\<close> and one thousand are the defaults, also for amounts that are not positive.\<close>

definition faucet_request :: "string \<Rightarrow> decimal \<Rightarrow> string \<times> decimal" where
  "faucet_request code amount = (if code = '''' then ''USDC'' else code, if amount \<le> 0 then 1000 else amount)"

section \<open>Wallets on the XDC network\<close>

definition xdc_fund_amount :: decimal where "xdc_fund_amount = 199 / 100"

text \<open>\<^verbatim>\<open>fundFromTreasury\<close>, whose error is only logged.\<close>

definition fund_from_treasury :: "wallet_service \<Rightarrow> wallet_env \<Rightarrow> wallet \<Rightarrow> world \<Rightarrow> world" where
  "fund_from_treasury S E x w =
     (if wv_treasury_key S = '''' then w
      else snd (chain_transfer (wn_transfer E) (wn_sent E) (wv_treasury_key S) (wa_public_key x)
        (txdc_to_wei xdc_fund_amount) w))"

definition xdc_create_wallet :: "wallet_service \<Rightarrow> wallet_env \<Rightarrow> ctx \<Rightarrow> world \<Rightarrow> (err + wallet) \<times> world" where
  "xdc_create_wallet S E c w =
     (case create_custodial S E (wn_keypair E) c w of
        (Inl e, w1) \<Rightarrow> (Inl e, w1)
      | (Inr x, w1) \<Rightarrow> (Inr x, fund_from_treasury S E x w1))"

text \<open>The balance on the chain first, if it can be read, and then the cached ones of other assets.\<close>

definition cache_native ::
  "decimal_pkg \<Rightarrow> numeric_col \<Rightarrow> wallet_env \<Rightarrow> wallet \<Rightarrow> world \<Rightarrow> decimal option \<times> world" where
  "cache_native D N E x w =
     (case wn_balance E (wa_public_key x) of Inl e \<Rightarrow> (None, w)
      | Inr wei \<Rightarrow> (Some (wei_to_txdc D wei),
          snd (upsert_balance N (wn_q E AtUpsert) (wa_id x) ''TXDC'' '''' (wei_to_txdc D wei) w)))"

fun add_cached :: "wallet_service \<Rightarrow> wallet_balance list \<Rightarrow> balance_record list \<Rightarrow> wallet_balance list" where
  "add_cached S bs [] = bs"
| "add_cached S bs (r # rs) =
     add_cached S (if \<exists>b \<in> set bs. wb_code b = ba_asset r then bs else bs @ [(cached_balance S r)\<lparr>wb_issuer := ''''\<rparr>]) rs"

definition xdc_balances ::
  "decimal_pkg \<Rightarrow> numeric_col \<Rightarrow> wallet_service \<Rightarrow> wallet_env \<Rightarrow> ctx \<Rightarrow> string \<Rightarrow> world
    \<Rightarrow> (err + wallet_balance list) \<times> world" where
  "xdc_balances D N S E c wid w =
     (case get_wallet c (wn_q E AtWallet) wid w of Inl e \<Rightarrow> (Inl e, w)
      | Inr x \<Rightarrow> (case cache_native D N E x w of (amt, w1) \<Rightarrow>
          let bs = (case amt of None \<Rightarrow> []
                | Some a \<Rightarrow> [\<lparr>wb_code = ''TXDC'', wb_issuer = '''', wb_balance = wv_text S a, wb_usd = ''''\<rparr>])
          in (Inr (if wn_q E AtCached \<noteq> None then bs else add_cached S bs (get_balances wid w1)), w1)))"

text \<open>\<^verbatim>\<open>ExecuteTransfer\<close>: the stored text is decoded here, unlike in the Stellar service.\<close>

definition open_secret :: "wallet_service \<Rightarrow> string \<Rightarrow> err + string" where
  "open_secret S text =
     (case hex_decode text of None \<Rightarrow> Inl (Wrap ''decode encrypted secret'' (Opaque ''encoding/hex''))
      | Some bytes \<Rightarrow> map_sum (Wrap ''decrypt wallet secret'') id (decrypt (wv_gcm S) bytes (wv_key S)))"

definition xdc_execute_transfer ::
  "wallet_service \<Rightarrow> wallet_env \<Rightarrow> ctx \<Rightarrow> string \<Rightarrow> string \<Rightarrow> string \<Rightarrow> decimal \<Rightarrow> world \<Rightarrow> (err + string) \<times> world" where
  "xdc_execute_transfer S E c wid dest code amount w =
     (case get_wallet c (wn_q E AtWallet) wid w of Inl e \<Rightarrow> (Inl e, w)
      | Inr x \<Rightarrow>
        if \<not> is_native_asset code then (Inl (Wrap (''asset '' @ code) (Dom ErrInvalidAsset)), w)
        else case open_secret S (wa_secret x) of Inl e \<Rightarrow> (Inl e, w)
        | Inr secret \<Rightarrow> chain_transfer (wn_transfer E) (wn_sent E) secret dest (txdc_to_wei amount) w)"

text \<open>The faucet pays the native asset out of the treasury; an unreadable balance is a nil pointer, whose conversion panics.\<close>

datatype 'a outcome = Returned 'a | Panicked

definition xdc_faucet ::
  "decimal_pkg \<Rightarrow> numeric_col \<Rightarrow> wallet_service \<Rightarrow> wallet_env \<Rightarrow> ctx \<Rightarrow> string \<Rightarrow> string \<Rightarrow> decimal \<Rightarrow> world
    \<Rightarrow> (err + string \<times> string) outcome \<times> world" where
  "xdc_faucet D N S E c wid code amount w =
     (case get_wallet c (wn_q E AtWallet) wid w of Inl e \<Rightarrow> (Returned (Inl (Opaque ''wallet not found'')), w)
      | Inr x \<Rightarrow>
        if code = ''TXDC'' \<or> code = ''XDC''
        then if wv_treasury_key S = '''' then (Returned (Inl (Opaque ''treasury key not configured'')), w)
          else (case chain_transfer (wn_transfer E) (wn_sent E) (wv_treasury_key S) (wa_public_key x) (txdc_to_wei amount) w of
              (Inl e, w1) \<Rightarrow> (Returned (Inl (Wrap ''treasury transfer failed'' e)), w1)
            | (Inr h, w1) \<Rightarrow> (case wn_balance E (wa_public_key x) of Inl e \<Rightarrow> (Panicked, w1)
                | Inr wei \<Rightarrow> (Returned (Inr (wv_text S (wei_to_txdc D wei), h)), w1)))
        else (case credit_balance N S E wid code amount w of (r, w1) \<Rightarrow> (Returned r, w1)))"
section \<open>Deposits\<close>

text \<open>
  \<^verbatim>\<open>GetDeposit\<close> of the chain client. The node is asked for a text, which the library turns into a hash; it
  answers with the transaction and whether it is pending, with its receipt and with the head. The
  sender is what the first of the signers that accepts the signature says.
\<close>

record chain_tx =
  ct_to :: "string option"
  ct_value :: int
  ct_pending :: bool
  ct_senders :: "(err + string) list"

record chain_receipt =
  cr_ok :: bool
  cr_block :: "64 word"
  cr_hash :: string

record deposit_info =
  dp_from :: string
  dp_to :: string
  dp_value :: int
  dp_hash :: string
  dp_block :: "64 word"
  dp_confirmations :: "64 word"
  dp_ok :: bool

record chain_view =
  cv_tx :: "string \<Rightarrow> err + chain_tx"
  cv_receipt :: "string \<Rightarrow> err + chain_receipt"
  cv_head :: "err + 64 word"

fun first_sender :: "err \<Rightarrow> (err + string) list \<Rightarrow> err + string" where
  "first_sender e [] = Inl e"
| "first_sender e (Inr s # rs) = Inr s"
| "first_sender e (Inl e' # rs) = first_sender e' rs"

definition lower_text :: "unicode_tables \<Rightarrow> string \<Rightarrow> string" where
  "lower_text U s = string_of_runes (map (lower_rune U) (runes s))"

definition get_deposit :: "unicode_tables \<Rightarrow> chain_view \<Rightarrow> string \<Rightarrow> err + deposit_info" where
  "get_deposit U V h =
     (case cv_tx V h of Inl e \<Rightarrow> Inl (Wrap ''xdc: fetch tx'' e) | Inr x \<Rightarrow>
      if ct_pending x then Inl (Opaque ''xdc: tx is still pending'')
      else case cv_receipt V h of Inl e \<Rightarrow> Inl (Wrap ''xdc: receipt'' e) | Inr r \<Rightarrow>
     (case cv_head V of Inl e \<Rightarrow> Inl (Wrap ''xdc: head'' e) | Inr head \<Rightarrow>
     (case first_sender (Opaque '''') (ct_senders x) of Inl e \<Rightarrow> Inl (Wrap ''xdc: derive sender'' e) | Inr s \<Rightarrow>
      Inr \<lparr>dp_from = lower_text U s, dp_to = lower_text U (the_default '''' (ct_to x)), dp_value = ct_value x,
        dp_hash = lower_text U (cr_hash r), dp_block = cr_block r,
        dp_confirmations = (if cr_block r \<le> head then head - cr_block r + 1 else 0), dp_ok = cr_ok r\<rparr>)))"

definition normalize_addr :: "unicode_tables \<Rightarrow> string \<Rightarrow> string" where
  "normalize_addr U addr =
     (let a = lower_text U addr in if take 3 a = ''xdc'' then ''0x'' @ drop 3 a else a)"

definition deposit_row :: "decimal_pkg \<Rightarrow> wallet_env \<Rightarrow> string \<Rightarrow> string \<Rightarrow> deposit_info \<Rightarrow> transaction" where
  "deposit_row D E wid h d =
     \<lparr>tx_id = wn_uuid E, tx_hash = h, tx_kind = TypeTransfer, tx_status = StatusConfirmed, tx_from = wid, tx_to = wid,
      tx_to_address = '''', tx_asset = ''TXDC'', tx_amount = wei_to_txdc D (dp_value d), tx_fee = 0, tx_fee_bps = 0,
      tx_tenant = None, tx_batch = None, tx_reference = '''', tx_created = wn_now E, tx_reconciled = None,
      tx_requeues = 0, tx_idem_key = '''', tx_fiat_rail = None, tx_fiat_ref = None, tx_fiat_status = None,
      tx_local_currency = None, tx_local_amount = None\<rparr>"

text \<open>
  \<^verbatim>\<open>VerifyDeposit\<close>: the lookup of a duplicate compares the text of the request, and the row found by it is
  then read by that text as its id.
\<close>

definition existing_deposit :: "wallet_env \<Rightarrow> ctx \<Rightarrow> string \<Rightarrow> world \<Rightarrow> transaction option" where
  "existing_deposit E c h w =
     (if wn_q E AtHash = None \<and> exists_by_tx_hash h w
      then (case get_tx c (wn_q E AtExisting) h w of Inl e \<Rightarrow> None | Inr t \<Rightarrow> Some t) else None)"

definition verify_deposit ::
  "decimal_pkg \<Rightarrow> numeric_col \<Rightarrow> wallet_service \<Rightarrow> wallet_env \<Rightarrow> chain_view \<Rightarrow> ctx \<Rightarrow> string \<Rightarrow> string \<Rightarrow> world
    \<Rightarrow> (err + transaction) \<times> world" where
  "verify_deposit D N S E V c wid h w =
     (case get_wallet c (wn_q E AtWallet) wid w of Inl e \<Rightarrow> (Inl (Wrap ''load wallet'' e), w) | Inr x \<Rightarrow>
     (case get_deposit (wv_unicode S) V h of Inl e \<Rightarrow> (Inl (Wrap ''fetch deposit'' e), w) | Inr d \<Rightarrow>
      if \<not> dp_ok d then (Inl (Opaque ''transaction reverted on-chain''), w)
      else if lower_text (wv_unicode S) (dp_to d) \<noteq> lower_text (wv_unicode S) (normalize_addr (wv_unicode S) (wa_public_key x))
      then (Inl (Opaque ''transaction was sent to another address''), w)
      else case existing_deposit E c h w of Some t \<Rightarrow> (Inr t, w)
      | None \<Rightarrow> (case create_tx N c (wn_q E AtDeposit) (deposit_row D E wid h d) w of
            (Inl e, w1) \<Rightarrow> (Inl (Wrap ''record deposit'' e), w1)
          | (Inr t, w1) \<Rightarrow> (Inr t, snd (cache_native D N E x w1)))))"

text \<open>The handler refuses an empty hash.\<close>

definition verify_deposit_request ::
  "decimal_pkg \<Rightarrow> numeric_col \<Rightarrow> wallet_service \<Rightarrow> wallet_env \<Rightarrow> chain_view \<Rightarrow> ctx \<Rightarrow> string \<Rightarrow> string \<Rightarrow> world
    \<Rightarrow> (err + transaction) option \<times> world" where
  "verify_deposit_request D N S E V c wid h w =
     (if h = '''' then (None, w) else case verify_deposit D N S E V c wid h w of (r, w1) \<Rightarrow> (Some r, w1))"

section \<open>Facts\<close>

lemma insert_wallet_cases:
  assumes "insert_wallet c q x w = (r, w1)"
  obtains (refused) e where "r = Inl e" "w1 = w"
  | (stored) t where "r = Inr (x\<lparr>wa_tenant := t\<rparr>)" "w1 = w\<lparr>w_wallets := w_wallets w @ [x\<lparr>wa_tenant := null_ptr t\<rparr>]\<rparr>"
      "t = (if cx_tenant c \<noteq> '''' then Some (cx_tenant c) else wa_tenant x)"
      "\<forall>y \<in> set (w_wallets w). wa_id y \<noteq> wa_id x \<and> wa_public_key y \<noteq> wa_public_key x"
  using assms by (auto simp: insert_wallet_def Let_def split: option.splits if_splits)

text \<open>A created wallet holds the sealed secret as text, and is a new row with a new id and key.\<close>

lemma create_custodial_cases:
  assumes "create_custodial S E g c w = (r, w1)"
  obtains (failed) e where "r = Inl e" "w1 = w"
  | (made) x pub secret sealed where "r = Inr x" "g = Inr (pub, secret)"
      "encrypt (wv_gcm S) (wn_nonce E) secret (wv_key S) = Inr sealed" "wa_secret x = hex_encode sealed"
      "wa_id x = wn_uuid E" "wa_public_key x = pub" "\<not> wallet_limit_hit S E c w"
      "wa_tenant x = (if cx_tenant c \<noteq> '''' then Some (cx_tenant c) else None)"
      "w1 = w\<lparr>w_wallets := w_wallets w @ [x]\<rparr>"
      "\<forall>y \<in> set (w_wallets w). wa_id y \<noteq> wn_uuid E \<and> wa_public_key y \<noteq> pub"
proof (cases "wallet_limit_hit S E c w \<or> isl g \<or> isl (encrypt (wv_gcm S) (wn_nonce E) (snd (projr g)) (wv_key S))")
  case True
  with assms that(1) show ?thesis
    by (auto simp: create_custodial_def isl_def split: if_splits sum.splits prod.splits)
next
  case False
  then have nl: "\<not> wallet_limit_hit S E c w" by simp
  from False obtain pub secret where g: "g = Inr (pub, secret)" by (cases g) auto
  with False obtain sealed where s: "encrypt (wv_gcm S) (wn_nonce E) secret (wv_key S) = Inr sealed"
    by (cases "encrypt (wv_gcm S) (wn_nonce E) secret (wv_key S)") auto
  let ?x = "\<lparr>wa_id = wn_uuid E, wa_public_key = pub, wa_secret = hex_encode sealed, wa_tenant = None,
          wa_created = wn_now E, wa_cursor = '''', wa_custody = CustodyCustodial, wa_contract = ''''\<rparr>"
  obtain r0 w0 where i: "insert_wallet c (wn_q E AtInsert) ?x w = (r0, w0)" by fastforce
  from i show ?thesis
  proof (cases rule: insert_wallet_cases)
    case (refused e)
    with assms g s nl i show ?thesis by (intro that(1)) (auto simp: create_custodial_def)
  next
    case (stored t)
    then have "null_ptr t = t" by (auto simp: null_ptr_def)
    with stored assms g s nl i show ?thesis by (intro that(2)) (auto simp: create_custodial_def)
  qed
qed
lemma find_filtered: "find P (filter Q xs) = find (\<lambda>x. Q x \<and> P x) xs"
  by (induction xs) auto

lemma get_wallet_deleted:
  assumes "delete_wallet c None i w = (e, w1)"
  shows "j \<noteq> i \<Longrightarrow> get_wallet c' q j w1 = get_wallet c' q j w"
    and "q = None \<Longrightarrow> get_wallet c' q i w1 = Inl (Dom ErrWalletNotFound)"
proof -
  have gone: "find (\<lambda>r. wa_id r = i \<and> P r) (w_wallets w1) = None" for P
    using assms by (auto simp: delete_wallet_def find_None_iff rows_affected_0 split: if_splits)
  have kept: "find (\<lambda>r. wa_id r = j \<and> P r) (w_wallets w1) = find (\<lambda>r. wa_id r = j \<and> P r) (w_wallets w)" if "j \<noteq> i" for P
  proof -
    have "(\<lambda>r. wa_id r \<noteq> i \<and> wa_id r = j \<and> P r) = (\<lambda>r. wa_id r = j \<and> P r)" using that by auto
    then have "find (\<lambda>r. wa_id r = j \<and> P r) (filter (\<lambda>r. wa_id r \<noteq> i) (w_wallets w)) = find (\<lambda>r. wa_id r = j \<and> P r) (w_wallets w)"
      unfolding find_filtered by simp
    with assms show ?thesis by (auto simp: delete_wallet_def split: if_splits)
  qed
  show "j \<noteq> i \<Longrightarrow> get_wallet c' q j w1 = get_wallet c' q j w"
    using kept [of "\<lambda>r. in_scope c' (wa_tenant r)"] by (cases q) (simp_all add: get_wallet_def)
  show "q = None \<Longrightarrow> get_wallet c' q i w1 = Inl (Dom ErrWalletNotFound)"
    using gone by (simp add: get_wallet_def)
qed

lemma find_map_forget: "find (\<lambda>r. tx_id r = j \<and> in_scope c (tx_tenant r)) (map (forget_wallet i) ts)
    = map_option (forget_wallet i) (find (\<lambda>r. tx_id r = j \<and> in_scope c (tx_tenant r)) ts)"
  by (induction ts) (auto simp: forget_wallet_def)

lemma sign_stored_env:
  assumes "wv_signer S = None \<or> (\<exists>seal. wv_signer S = Some (env_signer S seal))"
    and "ideal_gcm (wv_gcm S) (wv_key S) made" and "\<forall>(n, p) \<in> set made. length s \<noteq> length p + 28"
  shows "sign_stored S E s \<noteq> None"
proof -
  have "env_signer S seal s \<noteq> None" for seal
    using env_sign_fails [OF decrypt_foreign [OF assms(2,3)], of "wv_parse S" seal]
    by (auto simp: env_signer_def split: sum.splits)
  with assms(1) show ?thesis by (auto simp: sign_stored_def)
qed

lemma unsigned_sends_nothing:
  assumes "sign_stored S E (wa_secret x) \<noteq> None"
  shows "send_stellar S E what x eff st
    = (Inl (case wn_build E of Some e \<Rightarrow> Wrap (fst what) e
        | None \<Rightarrow> Wrap (fst (snd what)) (the (sign_stored S E (wa_secret x)))), st)"
  using assms by (auto simp: send_stellar_def split: option.splits)

section \<open>Properties\<close>

text \<open>
  A wallet made by the Stellar service can never pay or open a trust line itself. The stored secret is
  hexadecimal text, the service hands the text undecoded to the signer of the environment, and a text
  of that length is no sealed seed; every attempt ends in an error and nothing is sent. The settlement
  engine, which decodes the text, reads the very seed.
\<close>

theorem custodial_wallet_never_signs:
  assumes "create_wallet S E c w = (Inr x, w1)" and "wn_keypair E = Inr (pub, seed)" and "wn_nonce E = Inr nonce"
    and "length nonce = nonce_size" and "(nonce, seed) \<in> set made"
    and "ideal_gcm (wv_gcm S) (wv_key S) made" and "\<forall>(n, p) \<in> set made. length p = 56"
    and "wv_signer S = None \<or> (\<exists>seal. wv_signer S = Some (env_signer S seal))"
  shows "(\<forall>E' c' dest code issuer amount memo st.
      (\<forall>y \<in> set (w_wallets (wt_world st)). wa_id y = wa_id x \<longrightarrow> wa_secret y = wa_secret x) \<longrightarrow>
        (\<exists>e. execute_transfer S E' c' (wa_id x) dest code issuer amount memo st = (Inl e, st)) \<and>
        (\<forall>N limit line. \<exists>e. add_trustline N S E' c' (wa_id x) code issuer limit line st = (Inl e, st))) \<and>
    open_secret S (wa_secret x) = Inr seed"
proof -
  have made: "create_custodial S E (Inr (pub, seed)) c w = (Inr x, w1)"
    using assms(1,2) by (simp add: create_wallet_def generate_keypair_def)
  then obtain sealed where s: "encrypt (wv_gcm S) (Inr nonce) seed (wv_key S) = Inr sealed"
    and x: "wa_secret x = hex_encode sealed"
    by (rule create_custodial_cases) (use assms(3) in auto)
  note d = decrypt_sealed [OF assms(6,5) s assms(4)]
  have "length (wa_secret x) \<noteq> length p + 28" if "(n, p) \<in> set made" for n p
  proof -
    have "length p = 56" "length seed = 56" using that assms(5,7) by auto
    with d(2) show ?thesis by (simp add: x)
  qed
  then have "\<forall>(n, p) \<in> set made. length (wa_secret x) \<noteq> length p + 28" by blast
  from sign_stored_env [OF assms(8,6) this] have unsigned: "sign_stored S E' (wa_secret x) \<noteq> None" for E' .
  have stuck: "wa_secret y = wa_secret x"
    if "get_wallet c' q (wa_id x) w' = Inr y" "\<forall>y \<in> set (w_wallets w'). wa_id y = wa_id x \<longrightarrow> wa_secret y = wa_secret x"
    for c' q y w'
    using that by (auto simp: get_wallet_def find_Some_iff split: option.splits)
  have both: "(\<exists>e. execute_transfer S E' c' (wa_id x) dest code issuer amount memo st = (Inl e, st)) \<and>
      (\<exists>e. add_trustline N S E' c' (wa_id x) code issuer limit line st = (Inl e, st))"
    if same: "\<forall>y \<in> set (w_wallets (wt_world st)). wa_id y = wa_id x \<longrightarrow> wa_secret y = wa_secret x"
    for E' c' dest code issuer amount memo N limit line and st :: wallet_state
  proof (cases "get_wallet c' (wn_q E' AtWallet) (wa_id x) (wt_world st)")
    case (Inl e)
    then show ?thesis by (simp add: execute_transfer_def add_trustline_def Let_def)
  next
    case (Inr y)
    have "sign_stored S E' (wa_secret y) \<noteq> None" using unsigned stuck [OF Inr same] by simp
    note unsigned_sends_nothing [OF this]
    with Inr show ?thesis
      by (simp add: execute_transfer_def add_trustline_def Let_def split: sum.split option.split)
  qed
  show ?thesis using both d(1) by (simp add: open_secret_def x)
qed
text \<open>A service and an outside in which everything works, with a seed of the usual length.\<close>

definition sample_seed :: string where "sample_seed = replicate 56 (CHR ''S'')"

definition sample_nonce :: string where "sample_nonce = replicate 12 (CHR ''n'')"

definition sample_wallet_service :: wallet_service where
  "sample_wallet_service = \<lparr>wv_tenants = True, wv_key = replicate 32 (CHR ''k''),
     wv_gcm = listed_gcm [(sample_nonce, sample_seed)], wv_parse = Inr, wv_signer = None, wv_unicode = ascii_tables,
     wv_registry = Map.empty, wv_usdc_issuer = '''', wv_eurc_issuer = '''', wv_fx = False, wv_text = (\<lambda>a. ''''),
     wv_treasury_key = ''tk''\<rparr>"

definition sample_wallet_env :: wallet_env where
  "sample_wallet_env = \<lparr>wn_q = (\<lambda>_. None), wn_keypair = Inr (''GNEW'', sample_seed), wn_nonce = Inr sample_nonce,
     wn_uuid = ''n'', wn_now = 0, wn_account = Inr [], wn_rate = (\<lambda>_ _. Inr 1), wn_build = None, wn_seal = (\<lambda>_. Inr ()),
     wn_submit = Inr ''h'', wn_taken = True, wn_transfer = Inr ''0x1'', wn_sent = True, wn_balance = (\<lambda>_. Inr 0)\<rparr>"

lemma sample_wallet_made:
  "\<exists>x. create_wallet sample_wallet_service sample_wallet_env no_tenant empty_world = (Inr x, empty_world\<lparr>w_wallets := [x]\<rparr>) \<and>
     wa_id x = ''n''"
  by (simp add: create_wallet_def create_custodial_def wallet_limit_hit_def generate_keypair_def encrypt_def
      insert_wallet_def sample_wallet_service_def sample_wallet_env_def no_tenant_def empty_world_def ref_ok_def Let_def)

lemma custodial_wallet_never_signs_witness:
  "\<exists>x e. create_wallet sample_wallet_service sample_wallet_env no_tenant empty_world = (Inr x, empty_world\<lparr>w_wallets := [x]\<rparr>) \<and>
     execute_transfer sample_wallet_service sample_wallet_env no_tenant ''n'' ''GDEST'' ''XLM'' '''' 5 ''''
       \<lparr>wt_world = empty_world\<lparr>w_wallets := [x]\<rparr>, wt_sent = []\<rparr>
     = (Inl e, \<lparr>wt_world = empty_world\<lparr>w_wallets := [x]\<rparr>, wt_sent = []\<rparr>)"
proof -
  let ?S = sample_wallet_service and ?E = sample_wallet_env
  obtain x where run: "create_wallet ?S ?E no_tenant empty_world = (Inr x, empty_world\<lparr>w_wallets := [x]\<rparr>)"
    and i: "wa_id x = ''n''" using sample_wallet_made by blast
  have h: "wn_keypair ?E = Inr (''GNEW'', sample_seed)" "wn_nonce ?E = Inr sample_nonce" "length sample_nonce = nonce_size"
    "(sample_nonce, sample_seed) \<in> set [(sample_nonce, sample_seed)]"
    "ideal_gcm (wv_gcm ?S) (wv_key ?S) [(sample_nonce, sample_seed)]"
    "\<forall>(n, p) \<in> set [(sample_nonce, sample_seed)]. length p = 56"
    "wv_signer ?S = None \<or> (\<exists>seal. wv_signer ?S = Some (env_signer ?S seal))"
    by (simp_all add: sample_wallet_env_def sample_wallet_service_def sample_nonce_def sample_seed_def nonce_size_def
        listed_gcm_ideal)
  from custodial_wallet_never_signs [OF run h] run show ?thesis
    by (fastforce simp: i)
qed

lemma upsert_balance_tables:
  "w_wallets (snd (upsert_balance N q wid cd iss a w)) = w_wallets w"
  "w_tenants (snd (upsert_balance N q wid cd iss a w)) = w_tenants w"
  "w_batches (snd (upsert_balance N q wid cd iss a w)) = w_batches w"
  by (simp_all add: upsert_balance_def Let_def split: option.splits)

lemma cache_native_tables [simp]:
  "w_txs (snd (cache_native D N E x w)) = w_txs w" "w_wallets (snd (cache_native D N E x w)) = w_wallets w"
  "w_tenants (snd (cache_native D N E x w)) = w_tenants w"
  by (simp_all add: cache_native_def upsert_balance_tables split: sum.split)

text \<open>Everything that makes a first verification of a deposit succeed, and the row it leaves.\<close>

definition creditable ::
  "decimal_pkg \<Rightarrow> numeric_col \<Rightarrow> wallet_service \<Rightarrow> wallet_env \<Rightarrow> ctx \<Rightarrow> string \<Rightarrow> deposit_info \<Rightarrow> decimal \<Rightarrow> world \<Rightarrow> bool" where
  "creditable D N S E c wid d a w \<longleftrightarrow>
     (\<forall>k. wn_q E k = None) \<and> (cx_tenant c = '''' \<or> cx_tenant c \<in> te_id ` set (w_tenants w)) \<and> dp_ok d \<and>
     (\<exists>x. get_wallet c None wid w = Inr x \<and>
       lower_text (wv_unicode S) (dp_to d) = lower_text (wv_unicode S) (normalize_addr (wv_unicode S) (wa_public_key x))) \<and>
     N 20 7 (wei_to_txdc D (dp_value d)) = Some a \<and> N 20 7 0 = Some 0"

lemma deposit_recorded:
  assumes ok: "creditable D N S E c wid d a w" and d: "get_deposit (wv_unicode S) V h = Inr d" and h: "h \<noteq> ''''"
    and fresh: "\<forall>r \<in> set (w_txs w). tx_hash r \<noteq> h \<and> tx_id r \<noteq> wn_uuid E"
  shows "\<exists>r w1. verify_deposit D N S E V c wid h w = (Inr (with_ctx_tenant c (deposit_row D E wid h d)), w1) \<and>
    w_txs w1 = w_txs w @ [r] \<and> tx_id r = wn_uuid E \<and> tx_hash r = h \<and> tx_status r = StatusConfirmed \<and>
    tx_amount r = a \<and> tx_to r = wid \<and> w_wallets w1 = w_wallets w \<and> w_tenants w1 = w_tenants w"
proof -
  let ?t = "with_ctx_tenant c (deposit_row D E wid h d)"
  from ok obtain x where x: "get_wallet c None wid w = Inr x"
    and to: "lower_text (wv_unicode S) (dp_to d) = lower_text (wv_unicode S) (normalize_addr (wv_unicode S) (wa_public_key x))"
    by (auto simp: creditable_def)
  from x have wid: "wid \<in> wa_id ` set (w_wallets w)" by (auto simp: get_wallet_def find_Some_iff split: option.splits)
  obtain r where r: "tx_row N ?t = Some r" "tx_id r = wn_uuid E" "tx_hash r = h" "tx_status r = StatusConfirmed"
      "tx_amount r = a" "tx_to r = wid" "tx_from r = wid" "tx_batch r = None"
      "tx_tenant r = (if cx_tenant c = '''' then None else Some (cx_tenant c))"
    using ok by (cases "cx_tenant c = ''''")
      (simp_all add: tx_row_def deposit_row_def with_ctx_tenant_def creditable_def null_ptr_def)
  have "tx_refs_ok r w" using r wid ok by (auto simp: tx_refs_ok_def ref_ok_def creditable_def)
  moreover have "\<not> tx_conflict ?t w" using fresh h by (auto simp: tx_conflict_def with_ctx_tenant_def deposit_row_def)
  ultimately have "create_tx N c None (deposit_row D E wid h d) w = (Inr ?t, w\<lparr>w_txs := w_txs w @ [r]\<rparr>)"
    using r(1) by (simp add: create_tx_def insert_tx_def)
  moreover have "existing_deposit E c h w = None" using fresh by (auto simp: existing_deposit_def exists_by_tx_hash_def)
  ultimately show ?thesis
    using ok x d to r by (auto simp: verify_deposit_def creditable_def)
qed

text \<open>
  The same deposit counts once for every way to write its hash. Two texts for which the node finds the
  same transaction, neither of them recorded so far, both become a confirmed row of the whole amount.
\<close>

theorem deposit_counted_per_spelling:
  assumes "creditable D N S E c wid d a w" and "creditable D N S E' c wid d a w"
    and "get_deposit (wv_unicode S) V h = Inr d" and "get_deposit (wv_unicode S) V h' = Inr d"
    and "h \<noteq> h'" and "h \<noteq> ''''" and "h' \<noteq> ''''" and "wn_uuid E \<noteq> wn_uuid E'"
    and "\<forall>r \<in> set (w_txs w). tx_hash r \<notin> {h, h'} \<and> tx_id r \<notin> {wn_uuid E, wn_uuid E'}"
  shows "\<exists>t w1 t' w2 r r'. verify_deposit D N S E V c wid h w = (Inr t, w1) \<and>
    verify_deposit D N S E' V c wid h' w1 = (Inr t', w2) \<and> w_txs w2 = w_txs w @ [r, r'] \<and>
    tx_status r = StatusConfirmed \<and> tx_status r' = StatusConfirmed \<and> tx_to r = wid \<and> tx_to r' = wid \<and>
    tx_amount r = a \<and> tx_amount r' = a"
proof -
  have "\<forall>r \<in> set (w_txs w). tx_hash r \<noteq> h \<and> tx_id r \<noteq> wn_uuid E" using assms(9) by simp
  from deposit_recorded [OF assms(1,3,6) this] obtain r w1
    where 1: "verify_deposit D N S E V c wid h w = (Inr (with_ctx_tenant c (deposit_row D E wid h d)), w1)"
      "w_txs w1 = w_txs w @ [r]" "tx_id r = wn_uuid E" "tx_hash r = h" "tx_status r = StatusConfirmed"
      "tx_amount r = a" "tx_to r = wid" "w_wallets w1 = w_wallets w" "w_tenants w1 = w_tenants w" by blast
  have "creditable D N S E' c wid d a w1"
    using assms(2) 1(8,9) by (simp add: creditable_def get_wallet_def)
  moreover have "\<forall>r \<in> set (w_txs w1). tx_hash r \<noteq> h' \<and> tx_id r \<noteq> wn_uuid E'"
    using assms(5,8,9) 1(2-4) by auto
  ultimately obtain r' w2 where 2: "verify_deposit D N S E' V c wid h' w1 = (Inr (with_ctx_tenant c (deposit_row D E' wid h' d)), w2)"
      "w_txs w2 = w_txs w1 @ [r']" "tx_status r' = StatusConfirmed" "tx_amount r' = a" "tx_to r' = wid"
    using deposit_recorded [OF _ assms(4,7), of D N E' c wid a w1] by blast
  have "w_txs w2 = w_txs w @ [r, r']" using 1(2) 2(2) by simp
  with 1 2 show ?thesis by blast
qed

text \<open>A chain that knows one transaction under any text, of one hundred whole units to the address of a sample wallet.\<close>

definition sample_chain :: chain_view where
  "sample_chain = \<lparr>cv_tx = (\<lambda>_. Inr \<lparr>ct_to = Some ''0xab'', ct_value = 100000000000000000000, ct_pending = False, ct_senders = [Inr ''0xcd'']\<rparr>),
     cv_receipt = (\<lambda>_. Inr \<lparr>cr_ok = True, cr_block = 5, cr_hash = ''0x01''\<rparr>), cv_head = Inr 9\<rparr>"

definition deposit_world :: world where
  "deposit_world = empty_world\<lparr>w_wallets := [sample_wallet ''a'' ''xdcab'']\<rparr>"

lemma lower_ascii_samples:
  "lower_text ascii_tables ''0xab'' = ''0xab''" "lower_text ascii_tables ''xdcab'' = ''xdcab''"
  by code_simp+

lemma sample_creditable:
  "\<exists>d. get_deposit ascii_tables sample_chain h = Inr d \<and>
     (\<forall>E. (\<forall>k. wn_q E k = None) \<longrightarrow>
        creditable reference_pkg exact_numeric sample_wallet_service E no_tenant ''a'' d (wei_to_txdc reference_pkg 100000000000000000000) deposit_world)"
proof -
  obtain d where "get_deposit ascii_tables sample_chain h = Inr d" and d: "dp_ok d" "dp_to d = ''0xab''" "dp_value d = 100000000000000000000"
    by (simp add: get_deposit_def sample_chain_def lower_ascii_samples)
  then show ?thesis
    by (intro exI [of _ d] conjI allI impI)
      (simp_all add: creditable_def no_tenant_def deposit_world_def sample_wallet_def get_wallet_def in_scope_def d
        sample_wallet_service_def normalize_addr_def lower_ascii_samples exact_numeric_def)
qed
lemma deposit_counted_per_spelling_witness:
  "\<exists>t w1 t' w2. verify_deposit reference_pkg exact_numeric sample_wallet_service sample_wallet_env sample_chain no_tenant ''a'' ''0x1'' deposit_world
      = (Inr t, w1) \<and>
    verify_deposit reference_pkg exact_numeric sample_wallet_service (sample_wallet_env\<lparr>wn_uuid := ''m''\<rparr>) sample_chain no_tenant ''a'' ''0X1'' w1
      = (Inr t', w2) \<and> length (w_txs w2) = 2"
proof -
  let ?E = "sample_wallet_env\<lparr>wn_uuid := ''m''\<rparr>"
  obtain d where d: "get_deposit ascii_tables sample_chain h = Inr d" for h
    by (simp add: get_deposit_def sample_chain_def lower_ascii_samples)
  have q: "\<forall>k. wn_q sample_wallet_env k = None" "\<forall>k. wn_q ?E k = None" by (simp_all add: sample_wallet_env_def)
  have u: "wv_unicode sample_wallet_service = ascii_tables" by (simp add: sample_wallet_service_def)
  have c: "creditable reference_pkg exact_numeric sample_wallet_service E no_tenant ''a'' d
      (wei_to_txdc reference_pkg 100000000000000000000) deposit_world" if "\<forall>k. wn_q E k = None" for E
    using sample_creditable [of "''''"] d [of "''''"] that by auto
  from deposit_counted_per_spelling [OF c [OF q(1)] c [OF q(2)], of sample_chain "''0x1''" "''0X1''"]
  obtain t w1 t' w2 r r' where
    "verify_deposit reference_pkg exact_numeric sample_wallet_service sample_wallet_env sample_chain no_tenant ''a'' ''0x1'' deposit_world = (Inr t, w1)"
    "verify_deposit reference_pkg exact_numeric sample_wallet_service ?E sample_chain no_tenant ''a'' ''0X1'' w1 = (Inr t', w2)"
    "w_txs w2 = w_txs deposit_world @ [r, r']"
    using d unfolding u by (auto simp: sample_wallet_env_def deposit_world_def empty_world_def)
  then show ?thesis by (auto simp: deposit_world_def empty_world_def)
qed

lemma find_SomeD: "find P xs = Some x \<Longrightarrow> x \<in> set xs \<and> P x"
  by (induction xs) (auto split: if_splits)

text \<open>A claimed transfer whose source wallet is not found sends nothing, on either network.\<close>

lemma after_claim_no_source:
  assumes "tx_from s = ''''" and "isl (get_wallet c (ge_src E) '''' w)"
  shows "w_net (snd (after_claim D N T c en E s w)) = w_net w"
  using assms by (cases "get_wallet c (ge_src E) '''' w") (auto simp: after_claim_def prepare_def)

lemma xdc_after_claim_no_source:
  assumes "tx_from s = ''''" and "isl (get_wallet c (xe_src E) '''' w)"
  shows "w_net (snd (xdc_after_claim D N c fw E s w)) = w_net w"
  using assms by (cases "get_wallet c (xe_src E) '''' w") (auto simp: xdc_after_claim_def)

text \<open>
  Whoever knows the id of a wallet can delete it, also of a tenant whose wallets they cannot see.
  Nobody finds it afterwards, its balances are gone, and no transfer out of it is ever sent, by either
  engine, whatever the network would answer.
\<close>

theorem any_tenant_deletes_wallet:
  assumes "get_wallet c None i w = Inl (Dom ErrWalletNotFound)" and "x \<in> set (w_wallets w)" and "wa_id x = i"
    and "wf_txs w" and "\<forall>y \<in> set (w_wallets w). wa_id y \<noteq> ''''"
  shows "\<exists>w1. delete_wallet c None i w = (None, w1) \<and> (\<forall>c' q. isl (get_wallet c' q i w1)) \<and> get_balances i w1 = [] \<and>
    (\<forall>t r. tx_of w t = Some r \<and> tx_from r = i \<longrightarrow>
       (\<forall>D N T c' en E. w_net (snd (submit_transfer D N T c' en E t w1)) = w_net w) \<and>
       (\<forall>D N c' fw E. w_net (snd (xdc_submit_transfer D N c' fw E t w1)) = w_net w))"
proof -
  obtain w1 where del: "delete_wallet c None i w = (None, w1)" by (simp add: delete_wallet_def)
  have "rows_affected (\<lambda>r. wa_id r = i) (w_wallets w) \<noteq> 0" using assms(2,3) by (auto simp: rows_affected_0)
  with del have w1: "w1 = w\<lparr>w_wallets := filter (\<lambda>r. wa_id r \<noteq> i) (w_wallets w),
      w_balances := filter (\<lambda>b. ba_wallet b \<noteq> i) (w_balances w), w_txs := map (forget_wallet i) (w_txs w)\<rparr>"
    by (simp add: delete_wallet_def)
  have "isl (get_wallet c' q i w1)" for c' q
    using get_wallet_deleted(2) [OF del, of q c'] by (cases q) (simp_all add: get_wallet_def)
  moreover have "get_balances i w1 = []" by (simp add: w1 get_balances_def)
  moreover have "w_net (snd (submit_transfer D N T c' en E t w1)) = w_net w \<and>
      w_net (snd (xdc_submit_transfer D' N' c'' fw E' t w1)) = w_net w"
    if "tx_of w t = Some r" "tx_from r = i" for t r D N T c' en E D' N' c'' fw E'
  proof -
    have from_nobody: "tx_from s = ''''" if "get_tx c q t w1 = Inr s" for c q s
    proof -
      from that obtain s0 where s0: "s0 \<in> set (w_txs w)" "tx_id s0 = t" "s = read_tx (forget_wallet i s0)"
        by (auto simp: get_tx_def w1 find_map_forget dest: find_SomeD split: option.splits)
      with \<open>tx_of w t = Some r\<close> have "s0 = r" using row_with_unique [OF wf_txs_ids [OF assms(4)]] by fastforce
      with s0 \<open>tx_from r = i\<close> show ?thesis by (simp add: read_tx_def forget_wallet_def)
    qed
    have nobody: "isl (get_wallet c q '''' (w1\<lparr>w_txs := ts\<rparr>))" for c q ts
      using assms(5) by (auto simp: get_wallet_def w1 dest: find_SomeD split: option.splits)
    have claimed: "w2 = w1 \<or> (\<exists>ts. w2 = w1\<lparr>w_txs := ts\<rparr>)" if "claim_for_submission q t w1 = (e, w2)" for q e w2
      using that unfolding claim_for_submission_def by (cases rule: guarded_update_cases) (auto simp: set_txs_def)
    have net: "w_net w1 = w_net w" by (simp add: w1)
    have "w_net (snd (submit_transfer D N T c' en E t w1)) = w_net w"
    proof (cases "get_tx c' (ge_get E) t w1")
      case (Inr s)
      obtain e w2 where cl: "claim_for_submission (ge_claim E) t w1 = (e, w2)" by fastforce
      from claimed [OF cl] have "w_net w2 = w_net w" "isl (get_wallet c' (ge_src E) '''' w2)"
        using nobody [of c' "ge_src E" "w_txs w1"] nobody net by auto
      with Inr cl after_claim_no_source [OF from_nobody [OF Inr]] show ?thesis
        by (auto simp: submit_transfer_def split: option.split)
    qed (simp add: submit_transfer_def net)
    moreover have "w_net (snd (xdc_submit_transfer D' N' c'' fw E' t w1)) = w_net w"
    proof (cases "get_tx c'' (xe_get E') t w1")
      case (Inr s)
      obtain e w2 where cl: "claim_for_submission (xe_claim E') t w1 = (e, w2)" by fastforce
      from claimed [OF cl] have "w_net w2 = w_net w" "isl (get_wallet c'' (xe_src E') '''' w2)"
        using nobody [of c'' "xe_src E'" "w_txs w1"] nobody net by auto
      with Inr cl xdc_after_claim_no_source [OF from_nobody [OF Inr]] show ?thesis
        by (auto simp: xdc_submit_transfer_def split: option.split)
    qed (simp add: xdc_submit_transfer_def net)
    ultimately show ?thesis by simp
  qed
  ultimately show ?thesis using del by blast
qed
text \<open>The wallet of one tenant, seen from another.\<close>

definition two_tenant_world :: world where
  "two_tenant_world = (sample_world StatusPending)\<lparr>w_wallets :=
     [(sample_wallet ''a'' ''GA'')\<lparr>wa_tenant := Some ''one''\<rparr>, sample_wallet ''b'' ''GB'']\<rparr>"

lemma any_tenant_deletes_wallet_witness:
  "\<exists>w1. delete_wallet \<lparr>cx_tenant = ''two'', cx_user = ''u''\<rparr> None ''a'' two_tenant_world = (None, w1) \<and>
     isl (get_wallet \<lparr>cx_tenant = ''one'', cx_user = ''v''\<rparr> None ''a'' w1) \<and>
     w_net (snd (submit_transfer D N T no_tenant en E ''t'' w1)) = []"
proof -
  have "get_wallet \<lparr>cx_tenant = ''two'', cx_user = ''u''\<rparr> None ''a'' two_tenant_world = Inl (Dom ErrWalletNotFound)"
    "(sample_wallet ''a'' ''GA'')\<lparr>wa_tenant := Some ''one''\<rparr> \<in> set (w_wallets two_tenant_world)"
    "wa_id ((sample_wallet ''a'' ''GA'')\<lparr>wa_tenant := Some ''one''\<rparr>) = ''a''" "wf_txs two_tenant_world"
    "\<forall>y \<in> set (w_wallets two_tenant_world). wa_id y \<noteq> ''''"
    by (simp_all add: get_wallet_def two_tenant_world_def in_scope_def wf_txs_def sample_defs)
  moreover have "tx_of two_tenant_world ''t'' = Some (sample_tx ''t'' StatusPending)" "tx_from (sample_tx ''t'' StatusPending) = ''a''"
    "w_net two_tenant_world = []" by (simp_all add: two_tenant_world_def sample_defs)
  ultimately show ?thesis using any_tenant_deletes_wallet by metis
qed

text \<open>
  Where both reads of the limit check succeed, a tenant never gets more wallets than its limit from
  calls made one after the other, and a refused call changes nothing. If one of the reads fails there is
  no limit.
\<close>

theorem wallet_limit_kept:
  assumes "create_wallet S E c w = (r, w1)" and "cx_tenant c \<noteq> ''''" and "wv_tenants S" and "wn_q E AtCount = None"
    and "get_tenant (wn_q E AtTenant) (cx_tenant c) w = Inr t" and "count_wallets None (cx_tenant c) w = Inr n"
  shows "(\<exists>m. count_wallets None (cx_tenant c) w1 = Inr m \<and> m \<le> max n (get_wallet_limit t)) \<and>
    (n \<ge> get_wallet_limit t \<longrightarrow> r = Inl (Dom ErrWalletLimitReached)) \<and> (isl r \<longrightarrow> w1 = w)"
proof -
  have hit: "wallet_limit_hit S E c w \<longleftrightarrow> n \<ge> get_wallet_limit t"
    using assms(2-6) by (simp add: wallet_limit_hit_def)
  have "create_custodial S E (generate_keypair (wn_keypair E)) c w = (r, w1)"
    using assms(1) by (simp add: create_wallet_def)
  then show ?thesis
  proof (cases rule: create_custodial_cases)
    case (failed e)
    with assms(6) \<open>create_custodial _ _ _ _ _ = _\<close> hit show ?thesis by (auto simp: create_custodial_def)
  next
    case (made x pub secret sealed)
    then have "count_wallets None (cx_tenant c) w1 = Inr (n + 1)"
      using assms(2,6) by (auto simp: count_wallets_def rows_affected_def)
    with made hit show ?thesis by auto
  qed
qed

lemma wallet_limit_kept_witness:
  "\<exists>r. create_wallet sample_wallet_service sample_wallet_env \<lparr>cx_tenant = ''o'', cx_user = ''u''\<rparr>
      (empty_world\<lparr>w_tenants := [sample_tenant\<lparr>te_max_wallets := Some 0\<rparr>]\<rparr>) = (r, empty_world\<lparr>w_tenants := [sample_tenant\<lparr>te_max_wallets := Some 0\<rparr>]\<rparr>) \<and>
    r = Inl (Dom ErrWalletLimitReached)"
proof -
  let ?c = "\<lparr>cx_tenant = ''o'', cx_user = ''u''\<rparr>" and ?t = "sample_tenant\<lparr>te_max_wallets := Some 0\<rparr>"
  let ?w = "empty_world\<lparr>w_tenants := [?t]\<rparr>"
  obtain r w1 where run: "create_wallet sample_wallet_service sample_wallet_env ?c ?w = (r, w1)" by fastforce
  have h: "cx_tenant ?c \<noteq> ''''" "wv_tenants sample_wallet_service" "wn_q sample_wallet_env AtCount = None"
    "get_tenant (wn_q sample_wallet_env AtTenant) (cx_tenant ?c) ?w = Inr ?t" "count_wallets None (cx_tenant ?c) ?w = Inr 0"
    by (simp_all add: sample_wallet_service_def sample_wallet_env_def get_tenant_def sample_tenant_def count_wallets_def
        empty_world_def rows_affected_def)
  from wallet_limit_kept [OF run h] have "r = Inl (Dom ErrWalletLimitReached)" "w1 = ?w"
    by (auto simp: get_wallet_limit_def)
  with run show ?thesis by simp
qed

end
