(* ===== verification/Contracts.thy ===== *)
theory Contracts
  imports Smart_Wallet Wallets
begin

text \<open>
  Non-custodial wallets: \<^verbatim>\<open>internal/wallet/contract_adapter.go\<close>, \<^verbatim>\<open>contract_deployer.go\<close>,
  \<^verbatim>\<open>asset_contract.go\<close> and \<^verbatim>\<open>internal/stellar/soroban.go\<close>, the Go side of the contract of
  \<open>Smart_Wallet\<close>. The RPC node, the XDR codec, the transaction builder and the strkey library are
  parameters.
\<close>

section \<open>The Soroban client\<close>

text \<open>An operation: the call of a contract function, or the creation of a contract.\<close>

datatype host_function =
    InvokeContract string string "sc_val list"            \<comment> \<open>contract id, function, arguments\<close>
  | CreateContract string string string "sc_val list"     \<comment> \<open>account, salt, hash of the code, arguments\<close>

record invocation =
  vk_fn :: host_function
  vk_source :: string
  vk_auth :: "string list"
  vk_data :: "string option"

record soroban_tx =
  sb_source :: string
  sb_sequence :: int
  sb_op :: invocation
  sb_fee :: int

record sim_result =
  rz_value :: "string option"
  rz_auth :: "string list option"

record sim_response =
  rz_error :: string
  rz_results :: "sim_result list"
  rz_data :: string
  rz_min_fee :: int

text \<open>The answers of the node and of the libraries to one call.\<close>

record soroban_env =
  sn_account :: "err + int"
  sn_build :: "err option"
  sn_encode :: "err option"
  sn_simulate :: "err + sim_response"
  sn_data :: "string \<Rightarrow> err option"
  sn_auth :: "string \<Rightarrow> err option"
  sn_value :: "string \<Rightarrow> err + sc_val"
  sn_rebuild :: "err option"
  sn_envelope :: "err option"
  sn_send :: "err + (string \<times> string)"
  sn_taken :: bool

definition min_base_fee :: int where "min_base_fee = 100"

definition simulate :: "soroban_env \<Rightarrow> string \<Rightarrow> invocation \<Rightarrow> err + (sim_response \<times> soroban_tx)" where
  "simulate V source op =
     (case sn_account V of Inl e \<Rightarrow> Inl (Wrap ''load account from soroban rpc'' e) | Inr seq \<Rightarrow>
     (case sn_build V of Some e \<Rightarrow> Inl (Wrap ''build soroban transaction'' e) | None \<Rightarrow>
     (case sn_encode V of Some e \<Rightarrow> Inl (Wrap ''encode transaction envelope'' e) | None \<Rightarrow>
     (case sn_simulate V of Inl e \<Rightarrow> Inl (Wrap ''simulate soroban transaction'' e) | Inr r \<Rightarrow>
      if rz_error r \<noteq> '''' then Inl (Opaque (''soroban simulation failed: '' @ rz_error r))
      else Inr (r, \<lparr>sb_source = source, sb_sequence = seq + 1, sb_op = op, sb_fee = min_base_fee\<rparr>)))))"

fun first_bad :: "(string \<Rightarrow> err option) \<Rightarrow> string list \<Rightarrow> err option" where
  "first_bad f [] = None"
| "first_bad f (x # xs) = (case f x of Some e \<Rightarrow> Some e | None \<Rightarrow> first_bad f xs)"

definition decode_auth_entries :: "soroban_env \<Rightarrow> sim_response \<Rightarrow> err + string list" where
  "decode_auth_entries V r =
     (case rz_results r of [] \<Rightarrow> Inr []
      | x # _ \<Rightarrow> (case rz_auth x of None \<Rightarrow> Inr []
        | Some xs \<Rightarrow> (case first_bad (sn_auth V) xs of
            Some e \<Rightarrow> Inl (Wrap ''decode simulated authorization entry'' e) | None \<Rightarrow> Inr xs)))"

text \<open>The prepared transaction reuses the sequence number and pays the resource fee on top of the base fee.\<close>

definition prepare_invocation :: "soroban_env \<Rightarrow> string \<Rightarrow> invocation \<Rightarrow> err + soroban_tx" where
  "prepare_invocation V source op =
     (case simulate V source op of Inl e \<Rightarrow> Inl e | Inr (r, tx) \<Rightarrow>
     (case sn_data V (rz_data r) of Some e \<Rightarrow> Inl (Wrap ''decode simulated soroban transaction data'' e) | None \<Rightarrow>
     (case decode_auth_entries V r of Inl e \<Rightarrow> Inl e | Inr auth \<Rightarrow>
     (case sn_rebuild V of Some e \<Rightarrow> Inl (Wrap ''build prepared soroban transaction'' e) | None \<Rightarrow>
      Inr \<lparr>sb_source = sb_source tx, sb_sequence = sb_sequence tx,
        sb_op = op\<lparr>vk_auth := auth, vk_data := Some (rz_data r)\<rparr>, sb_fee = min_base_fee + rz_min_fee r\<rparr>))))"

definition simulate_invocation :: "soroban_env \<Rightarrow> string \<Rightarrow> invocation \<Rightarrow> err + sc_val" where
  "simulate_invocation V source op =
     (case simulate V source op of Inl e \<Rightarrow> Inl e
      | Inr (r, tx) \<Rightarrow>
        (case rz_results r of [] \<Rightarrow> Inl (Opaque ''simulation returned no value'')
         | x # _ \<Rightarrow> (case rz_value x of None \<Rightarrow> Inl (Opaque ''simulation returned no value'')
            | Some v \<Rightarrow> map_sum (Wrap ''decode simulation return value'') id (sn_value V v))))"

text \<open>A transaction may have reached the node although the call reports an error.\<close>

definition submit_soroban :: "soroban_env \<Rightarrow> soroban_tx \<Rightarrow> soroban_tx list \<Rightarrow> (err + string) \<times> soroban_tx list" where
  "submit_soroban V tx sent =
     (case sn_envelope V of Some e \<Rightarrow> (Inl (Wrap ''encode transaction envelope'' e), sent) | None \<Rightarrow>
     (case sn_send V of Inl e \<Rightarrow> (Inl (Wrap ''send soroban transaction'' e), if sn_taken V then sent @ [tx] else sent)
      | Inr (status, h) \<Rightarrow>
        if status = ''ERROR'' then (Inl (Opaque (''soroban rpc rejected transaction '' @ h)), sent)
        else (Inr h, sent @ [tx])))"

section \<open>The adapter\<close>

text \<open>
  An amount is a decimal with its exponent, the number of digits the caller wrote: the value is a
  multiple of that power of ten.
\<close>

record amount =
  am_value :: decimal
  am_exponent :: int

definition amount_doc :: "amount \<Rightarrow> bool" where
  "amount_doc a \<longleftrightarrow> (am_exponent a < 0 \<longrightarrow> on_grid (nat (- am_exponent a)) (am_value a)) \<and>
     (0 \<le> am_exponent a \<longrightarrow> am_value a \<in> \<int>)"

definition to_stroops :: "decimal \<Rightarrow> int" where
  "to_stroops v = big_int (v * 10 ^ 7)"

definition validate_stellar_precision :: "amount \<Rightarrow> err option" where
  "validate_stellar_precision a = (if am_exponent a < -7 then Some (Dom ErrSubPrecisionAmount) else None)"

record wallet_params =
  wq_guardians :: "string list"
  wq_threshold :: "32 word"
  wq_limit :: decimal
  wq_window :: "64 word"

text \<open>
  The adapter's configuration: the strkey library, the signer if one was set, what it shares with the
  custodial service (tenants, issuers, the text of a decimal), the defaults, the hash of the code, the
  encoding of an asset, and the derived ids of an asset's and of a new contract.
\<close>

record contract_adapter =
  ad_keys :: strkey_pkg
  ad_signer :: "(string \<Rightarrow> err option) option"
  ad_wallets :: wallet_service
  ad_defaults :: wallet_params
  ad_wasm :: string
  ad_asset_xdr :: "string \<times> string \<Rightarrow> err option"
  ad_asset_id :: "string \<times> string \<Rightarrow> err + string"
  ad_contract_id :: "string \<Rightarrow> string \<Rightarrow> err + string"

text \<open>\<^verbatim>\<open>sacResolver.ContractAddress\<close>: the issuer is found as in the custodial service.\<close>

definition contract_address :: "contract_adapter \<Rightarrow> string \<Rightarrow> string \<Rightarrow> err + string" where
  "contract_address A code issuer =
     (case (if code = '''' \<or> code = ''XLM'' then Inr (''XLM'', '''')
            else let i = known_issuer (ad_wallets A) code issuer in
              if i = '''' then Inl (missing_issuer code) else Inr (code, i)) of
        Inl e \<Rightarrow> Inl e
      | Inr asset \<Rightarrow>
        (case ad_asset_xdr A asset of Some e \<Rightarrow> Inl (Wrap (''encode asset '' @ code) e) | None \<Rightarrow>
         case ad_asset_id A asset of Inl e \<Rightarrow> Inl (Wrap (''derive asset contract id for '' @ code) e)
         | Inr i \<Rightarrow> encode_contract_id (ad_keys A) i))"

text \<open>\<^verbatim>\<open>contractWallet\<close>.\<close>

definition contract_wallet_of :: "ctx \<Rightarrow> err option \<Rightarrow> string \<Rightarrow> world \<Rightarrow> err + wallet" where
  "contract_wallet_of c q wid w =
     (case get_wallet c q wid w of Inl e \<Rightarrow> Inl e
      | Inr x \<Rightarrow> if wa_contract x = '''' then Inl (Dom ErrNotContractWallet) else Inr x)"

definition build_invocation :: "contract_adapter \<Rightarrow> wallet \<Rightarrow> string \<Rightarrow> sc_val list \<Rightarrow> err + invocation" where
  "build_invocation A x fn args =
     map_sum id (\<lambda>i. \<lparr>vk_fn = InvokeContract i fn args, vk_source = wa_public_key x, vk_auth = [], vk_data = None\<rparr>)
       (parse_contract_id (ad_keys A) (wa_contract x))"

text \<open>\<^verbatim>\<open>invoke\<close> and \<^verbatim>\<open>Deploy\<close> sign with what is stored for the wallet, and with the empty text.\<close>

definition sign_and_send ::
  "contract_adapter \<Rightarrow> soroban_env \<Rightarrow> string \<Rightarrow> string \<Rightarrow> soroban_tx \<Rightarrow> soroban_tx list \<Rightarrow> (err + string) \<times> soroban_tx list" where
  "sign_and_send A V what secret tx sent =
     (case ad_signer A of None \<Rightarrow> (Inl (Dom ErrNoContractSigner), sent)
      | Some put_signature \<Rightarrow>
     (case put_signature secret of Some e \<Rightarrow> (Inl (Wrap (''sign '' @ what) e), sent)
      | None \<Rightarrow>
     (case submit_soroban V tx sent of (Inl e, sent') \<Rightarrow> (Inl (Wrap (''submit '' @ what) e), sent')
      | (Inr h, sent') \<Rightarrow> (Inr h, sent'))))"

definition invoke ::
  "contract_adapter \<Rightarrow> soroban_env \<Rightarrow> wallet \<Rightarrow> string \<Rightarrow> sc_val list \<Rightarrow> soroban_tx list \<Rightarrow> (err + string) \<times> soroban_tx list" where
  "invoke A V x fn args sent =
     (case build_invocation A x fn args of Inl e \<Rightarrow> (Inl e, sent) | Inr op \<Rightarrow>
     (case prepare_invocation V (wa_public_key x) op of Inl e \<Rightarrow> (Inl (Wrap (''prepare '' @ fn @ '' invocation'') e), sent)
      | Inr tx \<Rightarrow> sign_and_send A V (fn @ '' invocation'') (wa_secret x) tx sent))"

definition contract_transfer ::
  "contract_adapter \<Rightarrow> soroban_env \<Rightarrow> ctx \<Rightarrow> err option \<Rightarrow> string \<Rightarrow> string \<Rightarrow> string \<Rightarrow> string \<Rightarrow> amount \<Rightarrow> string \<Rightarrow> world
    \<Rightarrow> soroban_tx list \<Rightarrow> (err + string) \<times> soroban_tx list" where
  "contract_transfer A V c q wid dest code issuer amt memo w sent =
     (case contract_wallet_of c q wid w of Inl e \<Rightarrow> (Inl e, sent) | Inr x \<Rightarrow>
     (case contract_address A code issuer of Inl e \<Rightarrow> (Inl (Wrap (''resolve asset contract for '' @ code) e), sent) | Inr ac \<Rightarrow>
     (case address_sc_val (ad_keys A) dest of Inl e \<Rightarrow> (Inl e, sent) | Inr d \<Rightarrow>
     (case contract_sc_val (ad_keys A) ac of Inl e \<Rightarrow> (Inl e, sent) | Inr a \<Rightarrow>
     (case validate_stellar_precision amt of Some e \<Rightarrow> (Inl e, sent) | None \<Rightarrow>
      invoke A V x ''execute_payment''
        [d, a, i128_sc_val (to_stroops (am_value amt)), if memo = '''' then ScVoid else ScString memo] sent)))))"

text \<open>\<^verbatim>\<open>AddGuardian\<close>, \<^verbatim>\<open>RemoveGuardian\<close> and \<^verbatim>\<open>SetTimeLock\<close>.\<close>

definition invoke_address_call ::
  "contract_adapter \<Rightarrow> soroban_env \<Rightarrow> ctx \<Rightarrow> err option \<Rightarrow> string \<Rightarrow> string \<Rightarrow> string \<Rightarrow> world \<Rightarrow> soroban_tx list
    \<Rightarrow> (err + string) \<times> soroban_tx list" where
  "invoke_address_call A V c q wid fn addr w sent =
     (case contract_wallet_of c q wid w of Inl e \<Rightarrow> (Inl e, sent) | Inr x \<Rightarrow>
     (case address_sc_val (ad_keys A) addr of Inl e \<Rightarrow> (Inl e, sent) | Inr a \<Rightarrow> invoke A V x fn [a] sent))"

definition adapter_time_lock ::
  "contract_adapter \<Rightarrow> soroban_env \<Rightarrow> ctx \<Rightarrow> err option \<Rightarrow> string \<Rightarrow> 64 word \<Rightarrow> world \<Rightarrow> soroban_tx list
    \<Rightarrow> (err + string) \<times> soroban_tx list" where
  "adapter_time_lock A V c q wid until w sent =
     (case contract_wallet_of c q wid w of Inl e \<Rightarrow> (Inl e, sent) | Inr x \<Rightarrow> invoke A V x ''set_time_lock'' [ScU64 until] sent)"
section \<open>Deployment\<close>

definition decode_wasm_hash :: "string \<Rightarrow> err + string" where
  "decode_wasm_hash s =
     (case hex_decode s of None \<Rightarrow> Inl (Wrap ''decode contract wasm hash'' (Opaque ''encoding/hex''))
      | Some b \<Rightarrow> if length b \<noteq> 32 then Inl (Opaque ''contract wasm hash must be 32 bytes'') else Inr b)"

fun guardian_args :: "strkey_pkg \<Rightarrow> string list \<Rightarrow> err + sc_val list" where
  "guardian_args K [] = Inr []"
| "guardian_args K (g # gs) =
     (case address_sc_val K g of Inl e \<Rightarrow> Inl (Wrap (''encode guardian '' @ g) e)
      | Inr a \<Rightarrow> map_sum id (\<lambda>as. a # as) (guardian_args K gs))"

definition constructor_args :: "strkey_pkg \<Rightarrow> string \<Rightarrow> wallet_params \<Rightarrow> err + sc_val list" where
  "constructor_args K owner p =
     (case account_sc_val K owner of Inl e \<Rightarrow> Inl e | Inr o_arg \<Rightarrow>
     (case guardian_args K (wq_guardians p) of Inl e \<Rightarrow> Inl e | Inr gs \<Rightarrow>
      Inr [o_arg, ScVec (Some gs), ScU32 (wq_threshold p), i128_sc_val (to_stroops (wq_limit p)), ScU64 (wq_window p)]))"

definition deploy ::
  "contract_adapter \<Rightarrow> soroban_env \<Rightarrow> err + string \<Rightarrow> string \<Rightarrow> wallet_params \<Rightarrow> soroban_tx list
    \<Rightarrow> (err + string) \<times> soroban_tx list" where
  "deploy A V salt owner p sent =
     (if ad_wasm A = '''' then (Inl (Dom ErrContractWasmNotConfigured), sent)
      else case decode_wasm_hash (ad_wasm A) of Inl e \<Rightarrow> (Inl e, sent) | Inr code \<Rightarrow>
     (case sk_account (ad_keys A) owner of Inl e \<Rightarrow> (Inl (Wrap (''decode owner address '' @ owner) e), sent) | Inr k \<Rightarrow>
     (case salt of Inl e \<Rightarrow> (Inl (Wrap ''generate contract salt'' e), sent) | Inr z \<Rightarrow>
     (case constructor_args (ad_keys A) owner p of Inl e \<Rightarrow> (Inl e, sent) | Inr args \<Rightarrow>
     (case prepare_invocation V owner \<lparr>vk_fn = CreateContract k z code args, vk_source = owner, vk_auth = [], vk_data = None\<rparr> of
        Inl e \<Rightarrow> (Inl (Wrap ''prepare contract deployment'' e), sent) | Inr tx \<Rightarrow>
     (case sign_and_send A V ''contract deployment'' '''' tx sent of
        (Inl e, sent') \<Rightarrow> (Inl e, sent')
      | (Inr h, sent') \<Rightarrow>
        (case ad_contract_id A k z of Inl e \<Rightarrow> (Inl (Wrap ''encode contract id preimage'' e), sent')
         | Inr i \<Rightarrow> (encode_contract_id (ad_keys A) i, sent'))))))))"

definition create_contract_wallet ::
  "contract_adapter \<Rightarrow> soroban_env \<Rightarrow> wallet_env \<Rightarrow> err + string \<Rightarrow> ctx \<Rightarrow> string \<Rightarrow> world \<Rightarrow> soroban_tx list
    \<Rightarrow> (err + wallet) \<times> world \<times> soroban_tx list" where
  "create_contract_wallet A V E salt c owner w sent =
     (if owner = '''' then (Inl (Dom ErrOwnerKeyRequired), w, sent)
      else if wallet_limit_hit (ad_wallets A) E c w then (Inl (Dom ErrWalletLimitReached), w, sent)
      else case deploy A V salt owner (ad_defaults A) sent of
        (Inl e, sent') \<Rightarrow> (Inl (Wrap ''deploy contract wallet'' e), w, sent')
      | (Inr i, sent') \<Rightarrow>
        (case insert_wallet c (wn_q E AtInsert)
            \<lparr>wa_id = wn_uuid E, wa_public_key = owner, wa_secret = '''', wa_tenant = None, wa_created = wn_now E,
             wa_cursor = '''', wa_custody = CustodyContract, wa_contract = i\<rparr> w of
           (Inl e, w') \<Rightarrow> (Inl (Wrap ''persist contract wallet'' e), w', sent')
         | (Inr x, w') \<Rightarrow> (Inr x, w', sent')))"

section \<open>Reading the contract\<close>

record contract_state =
  ck_owner :: string
  ck_contract :: string
  ck_guardians :: "string list"
  ck_threshold :: "32 word"
  ck_limit :: string
  ck_window :: "64 word"
  ck_spent :: string
  ck_start :: "64 word"
  ck_lock :: "64 word"
  ck_locked :: bool
  ck_pending :: bool

definition and_then :: "err + 'a \<Rightarrow> ('a \<Rightarrow> err + 'b) \<Rightarrow> err + 'b" where
  "and_then r f = (case r of Inl e \<Rightarrow> Inl e | Inr x \<Rightarrow> f x)"

lemma and_then_simps [simp]: "and_then (Inl e) f = Inl e" "and_then (Inr x) f = f x"
  by (simp_all add: and_then_def)

definition decode_address_field :: "strkey_pkg \<Rightarrow> sc_val \<Rightarrow> string \<Rightarrow> err + string" where
  "decode_address_field K v field = and_then (decode_map_field v field) (decode_address K)"

definition decode_u32_field :: "sc_val \<Rightarrow> string \<Rightarrow> err + 32 word" where
  "decode_u32_field v field = and_then (decode_map_field v field) decode_u32"

definition decode_u64_field :: "sc_val \<Rightarrow> string \<Rightarrow> err + 64 word" where
  "decode_u64_field v field = and_then (decode_map_field v field) decode_u64"

text \<open>Amounts are rendered as decimals with seven places.\<close>

definition stroops_text :: "(decimal \<Rightarrow> string) \<Rightarrow> int \<Rightarrow> string" where
  "stroops_text T i = T (of_int i / 10 ^ 7)"

definition decode_i128_field :: "(decimal \<Rightarrow> string) \<Rightarrow> sc_val \<Rightarrow> string \<Rightarrow> err + string" where
  "decode_i128_field T v field =
     and_then (decode_map_field v field) (\<lambda>f. map_sum id (stroops_text T) (decode_i128 f))"

text \<open>\<open>now\<close> is the clock in seconds, as an unsigned word.\<close>

definition decode_contract_state ::
  "contract_adapter \<Rightarrow> wallet \<Rightarrow> 64 word \<Rightarrow> sc_val \<Rightarrow> err + contract_state" where
  "decode_contract_state A x now v =
     (let K = ad_keys A; T = wv_text (ad_wallets A) in
      and_then (decode_address_field K v ''owner'') (\<lambda>ow.
      and_then (decode_map_field v ''guardians'') (\<lambda>gv.
      and_then (decode_address_vec K gv) (\<lambda>gs.
      and_then (decode_u32_field v ''recovery_threshold'') (\<lambda>th.
      and_then (decode_i128_field T v ''spending_limit'') (\<lambda>mx.
      and_then (decode_u64_field v ''spending_window_seconds'') (\<lambda>win.
      and_then (decode_i128_field T v ''spent_in_window'') (\<lambda>sp.
      and_then (decode_u64_field v ''window_start'') (\<lambda>st.
      and_then (decode_u64_field v ''time_lock_until'') (\<lambda>lk.
      and_then (decode_map_field v ''has_pending_recovery'') (\<lambda>pv.
      and_then (decode_bool pv) (\<lambda>pd.
        Inr \<lparr>ck_owner = ow, ck_contract = wa_contract x, ck_guardians = gs, ck_threshold = th, ck_limit = mx,
          ck_window = win, ck_spent = sp, ck_start = st, ck_lock = lk, ck_locked = lk > now, ck_pending = pd\<rparr>))))))))))))"

definition simulate_read :: "contract_adapter \<Rightarrow> soroban_env \<Rightarrow> wallet \<Rightarrow> string \<Rightarrow> err + sc_val" where
  "simulate_read A V x fn =
     and_then (build_invocation A x fn [])
       (\<lambda>op. map_sum (Wrap (''simulate '' @ fn)) id (simulate_invocation V (wa_public_key x) op))"

definition get_contract_state ::
  "contract_adapter \<Rightarrow> soroban_env \<Rightarrow> ctx \<Rightarrow> err option \<Rightarrow> string \<Rightarrow> 64 word \<Rightarrow> world \<Rightarrow> err + contract_state" where
  "get_contract_state A V c q wid now w =
     and_then (contract_wallet_of c q wid w)
       (\<lambda>x. and_then (simulate_read A V x ''get_state'') (decode_contract_state A x now))"

record spending_view =
  cn_limit :: string
  cn_spent :: string
  cn_remaining :: string
  cn_resets :: "64 word"

definition read_spending_status ::
  "contract_adapter \<Rightarrow> soroban_env \<Rightarrow> ctx \<Rightarrow> err option \<Rightarrow> string \<Rightarrow> world \<Rightarrow> err + spending_view" where
  "read_spending_status A V c q wid w =
     (let T = wv_text (ad_wallets A) in
      and_then (contract_wallet_of c q wid w) (\<lambda>x.
      and_then (simulate_read A V x ''get_spending_status'') (\<lambda>v.
      and_then (decode_i128_field T v ''limit'') (\<lambda>mx.
      and_then (decode_i128_field T v ''spent_in_window'') (\<lambda>sp.
      and_then (decode_i128_field T v ''remaining'') (\<lambda>rm.
      and_then (decode_u64_field v ''window_resets_at'') (\<lambda>rs.
        Inr \<lparr>cn_limit = mx, cn_spent = sp, cn_remaining = rm, cn_resets = rs\<rparr>)))))))"

text \<open>\<^verbatim>\<open>GetBalances\<close> of the adapter: what the database has recorded.\<close>

definition contract_balances ::
  "contract_adapter \<Rightarrow> ctx \<Rightarrow> err option \<Rightarrow> err option \<Rightarrow> string \<Rightarrow> world \<Rightarrow> err + wallet_balance list" where
  "contract_balances A c q cached_q wid w =
     and_then (contract_wallet_of c q wid w)
       (\<lambda>x. case cached_q of Some e \<Rightarrow> Inl (Wrap ''get contract wallet balances'' e)
         | None \<Rightarrow> Inr (map (cached_balance (ad_wallets A)) (get_balances wid w)))"
section \<open>Facts\<close>

lemma prepare_invocation_Inr:
  assumes "prepare_invocation V source op = Inr tx"
  shows "\<exists>auth data fee seq. sn_account V = Inr seq \<and>
    tx = \<lparr>sb_source = source, sb_sequence = seq + 1, sb_op = op\<lparr>vk_auth := auth, vk_data := Some data\<rparr>, sb_fee = min_base_fee + fee\<rparr>"
  using assms by (auto simp: prepare_invocation_def simulate_def split: sum.splits option.splits if_splits) blast

lemma sign_and_send_Inr:
  assumes "sign_and_send A V what secret tx sent = (Inr h, sent')"
  shows "sent' = sent @ [tx]"
  using assms by (auto simp: sign_and_send_def submit_soroban_def split: option.splits sum.splits if_splits prod.splits)

lemma invoke_Inr:
  assumes "invoke A V x fn args sent = (Inr h, sent')"
  obtains i tx where "parse_contract_id (ad_keys A) (wa_contract x) = Inr i" "sent' = sent @ [tx]"
    "vk_fn (sb_op tx) = InvokeContract i fn args" "sb_source tx = wa_public_key x"
proof -
  from assms obtain op where op: "build_invocation A x fn args = Inr op"
    by (cases "build_invocation A x fn args") (auto simp: invoke_def)
  with assms obtain tx where tx: "prepare_invocation V (wa_public_key x) op = Inr tx"
    by (cases "prepare_invocation V (wa_public_key x) op") (auto simp: invoke_def)
  from op obtain i where i: "parse_contract_id (ad_keys A) (wa_contract x) = Inr i"
    "op = \<lparr>vk_fn = InvokeContract i fn args, vk_source = wa_public_key x, vk_auth = [], vk_data = None\<rparr>"
    by (cases "parse_contract_id (ad_keys A) (wa_contract x)") (auto simp: build_invocation_def)
  have "sent' = sent @ [tx]" using assms op tx by (auto simp: invoke_def dest: sign_and_send_Inr)
  then show ?thesis using that i prepare_invocation_Inr [OF tx] by fastforce
qed

text \<open>An amount that passes the check of its digits is a whole number of stroops.\<close>

lemma stroops_exact:
  assumes "amount_doc a" and "validate_stellar_precision a = None"
  shows "of_int (to_stroops (am_value a)) = am_value a * 10 ^ 7"
proof -
  have "am_value a * 10 ^ 7 \<in> \<int>"
  proof (cases "am_exponent a < 0")
    case True
    with assms have k: "nat (- am_exponent a) \<le> 7" and g: "am_value a * 10 ^ nat (- am_exponent a) \<in> \<int>"
      by (auto simp: amount_doc_def on_grid_def validate_stellar_precision_def split: if_splits)
    have "(10 :: rat) ^ 7 = 10 ^ nat (- am_exponent a) * 10 ^ (7 - nat (- am_exponent a))"
      using k by (simp only: flip: power_add) simp
    then have "am_value a * 10 ^ 7 = (am_value a * 10 ^ nat (- am_exponent a)) * 10 ^ (7 - nat (- am_exponent a))"
      by (simp only: mult.assoc)
    also have "\<dots> \<in> \<int>" by (intro Ints_mult g) simp
    finally show ?thesis .
  qed (use assms(1) in \<open>simp add: amount_doc_def\<close>)
  then obtain i where "am_value a * 10 ^ 7 = of_int i" by (auto elim: Ints_cases)
  then show ?thesis by (simp add: to_stroops_def big_int_def)
qed

lemma unsigned_sign_and_send:
  assumes "ad_signer A = None \<or> (\<exists>S seal. ad_signer A = Some (env_signer S seal))"
  shows "\<exists>e. sign_and_send A V what '''' tx sent = (Inl e, sent)"
proof -
  have "env_signer S seal '''' \<noteq> None" for S seal
  proof -
    have "isl (env_sign (wv_gcm S) (wv_key S) (wv_parse S) seal '''')" by simp
    then show ?thesis by (auto simp: env_signer_def isl_def simp del: env_sign_empty)
  qed
  note refused = this
  from assms show ?thesis
  proof (elim disjE exE)
    fix S seal
    assume a: "ad_signer A = Some (env_signer S seal)"
    obtain e where "env_signer S seal '''' = Some e" using refused [of S seal] by blast
    with a show ?thesis by (simp add: sign_and_send_def)
  qed (simp add: sign_and_send_def)
qed

section \<open>The encoding of the contract's state\<close>

text \<open>
  What \<^verbatim>\<open>get_state\<close> returns: a struct is a map from symbols, in their order, to the encoded fields.
\<close>

definition state_sc_val :: "contract_store \<Rightarrow> sc_val" where
  "state_sc_val s = ScMap (Some
     [(ScSymbol ''guardians'', ScVec (Some (map ScAddr (cs_guardians s)))),
      (ScSymbol ''has_pending_recovery'', ScBool (cs_pending s \<noteq> None)),
      (ScSymbol ''owner'', ScAddr (cs_owner s)),
      (ScSymbol ''recovery_threshold'', ScU32 (cs_threshold s)),
      (ScSymbol ''spending_limit'', i128_sc_val (cs_limit s)),
      (ScSymbol ''spending_window_seconds'', ScU64 (cs_window s)),
      (ScSymbol ''spent_in_window'', i128_sc_val (cs_spent s)),
      (ScSymbol ''time_lock_until'', ScU64 (cs_lock s)),
      (ScSymbol ''window_start'', ScU64 (cs_start s))])"

lemma decode_addresses_map:
  "list_all2 (\<lambda>a t. sk_render K a = Inr t) as ts \<Longrightarrow> decode_addresses K (map ScAddr as) = Inr ts"
  by (induction as ts rule: list_all2_induct) simp_all

section \<open>Properties\<close>

text \<open>
  A payment out of a contract wallet that is reported as done is one transaction that calls
  \<^verbatim>\<open>execute_payment\<close> of the wallet's own contract, with the destination, the asset and exactly the amount asked
  for in units of the seventh place, which the contract reads as that number if it fits into 128 bits.
\<close>

theorem contract_payment_exact:
  assumes "contract_transfer A V c q wid dest code issuer amt memo w sent = (Inr h, sent')" and "amount_doc amt"
  shows "\<exists>x i tx d a n m. contract_wallet_of c q wid w = Inr x \<and> parse_contract_id (ad_keys A) (wa_contract x) = Inr i \<and>
    sent' = sent @ [tx] \<and> sb_source tx = wa_public_key x \<and>
    vk_fn (sb_op tx) = InvokeContract i ''execute_payment'' [d, a, i128_sc_val n, m] \<and>
    address_sc_val (ad_keys A) dest = Inr d \<and> of_int n = am_value amt * 10 ^ 7 \<and>
    (decode_i128 (i128_sc_val n) = Inr n \<longleftrightarrow> fits128 n)"
proof -
  from assms(1) obtain x where x: "contract_wallet_of c q wid w = Inr x"
    by (cases "contract_wallet_of c q wid w") (auto simp: contract_transfer_def)
  with assms(1) obtain ac where ac: "contract_address A code issuer = Inr ac"
    by (cases "contract_address A code issuer") (auto simp: contract_transfer_def)
  with x assms(1) obtain d where d: "address_sc_val (ad_keys A) dest = Inr d"
    by (cases "address_sc_val (ad_keys A) dest") (auto simp: contract_transfer_def)
  with x ac assms(1) obtain a where a: "contract_sc_val (ad_keys A) ac = Inr a"
    by (cases "contract_sc_val (ad_keys A) ac") (auto simp: contract_transfer_def)
  with x ac d assms(1) have v: "validate_stellar_precision amt = None"
    by (cases "validate_stellar_precision amt") (auto simp: contract_transfer_def)
  let ?n = "to_stroops (am_value amt)" and ?m = "if memo = '''' then ScVoid else ScString memo"
  have "invoke A V x ''execute_payment'' [d, a, i128_sc_val ?n, ?m] sent = (Inr h, sent')"
    using assms(1) x ac d a v by (simp add: contract_transfer_def)
  then obtain i tx where "parse_contract_id (ad_keys A) (wa_contract x) = Inr i" "sent' = sent @ [tx]"
    "vk_fn (sb_op tx) = InvokeContract i ''execute_payment'' [d, a, i128_sc_val ?n, ?m]" "sb_source tx = wa_public_key x"
    by (rule invoke_Inr)
  moreover have "decode_i128 (i128_sc_val ?n) = Inr ?n \<longleftrightarrow> fits128 ?n"
    using signed_take_bit_int_eq_self_iff [of 127 ?n] by (simp add: decode_encode_i128 fits128_def)
  ultimately show ?thesis using x d stroops_exact [OF assms(2) v] by blast
qed

text \<open>Parameters on which the hypotheses are evaluated: addresses are their own keys.\<close>

definition sample_keys :: strkey_pkg where
  "sample_keys = \<lparr>sk_account = Inr, sk_contract = Inr, sk_encode_contract = Inr, sk_is_contract = (\<lambda>s. take 1 s = ''C''),
     sk_render = (\<lambda>a. case a of Account_Address k \<Rightarrow> Inr k | Contract_Address k \<Rightarrow> Inr k | Other_Address k \<Rightarrow> Inl (Opaque k))\<rparr>"

definition sample_adapter :: contract_adapter where
  "sample_adapter = \<lparr>ad_keys = sample_keys, ad_signer = Some (\<lambda>s. None), ad_wallets = sample_wallet_service,
     ad_defaults = \<lparr>wq_guardians = [], wq_threshold = 0, wq_limit = 100, wq_window = 3600\<rparr>,
     ad_wasm = hex_encode (replicate 32 (CHR ''w'')), ad_asset_xdr = (\<lambda>a. None),
     ad_asset_id = (\<lambda>a. Inr ''CASSET''), ad_contract_id = (\<lambda>k z. Inr ''CNEW'')\<rparr>"

definition sample_node :: soroban_env where
  "sample_node = \<lparr>sn_account = Inr 7, sn_build = None, sn_encode = None,
     sn_simulate = Inr \<lparr>rz_error = '''', rz_results = [], rz_data = ''d'', rz_min_fee = 50\<rparr>, sn_data = (\<lambda>_. None),
     sn_auth = (\<lambda>_. None), sn_value = (\<lambda>_. Inr ScVoid), sn_rebuild = None, sn_envelope = None,
     sn_send = Inr (''PENDING'', ''h''), sn_taken = True\<rparr>"

definition contract_world :: world where
  "contract_world = empty_world\<lparr>w_wallets := [(sample_wallet ''a'' ''GOWNER'')\<lparr>wa_contract := ''CWALLET'', wa_custody := CustodyContract\<rparr>]\<rparr>"

lemma contract_payment_exact_witness:
  "\<exists>tx n. contract_transfer sample_adapter sample_node no_tenant None ''a'' ''GDEST'' ''XLM'' '''' \<lparr>am_value = 5 / 2, am_exponent = -1\<rparr> ''''
       contract_world [] = (Inr ''h'', [tx]) \<and> of_int n = (5 / 2 :: rat) * 10 ^ 7"
proof -
  let ?a = "\<lparr>am_value = 5 / 2, am_exponent = -1\<rparr>"
  have doc: "amount_doc ?a" by (simp add: amount_doc_def on_grid_def)
  obtain tx where run: "contract_transfer sample_adapter sample_node no_tenant None ''a'' ''GDEST'' ''XLM'' '''' ?a '''' contract_world []
      = (Inr ''h'', [tx])"
    by (simp add: contract_transfer_def contract_wallet_of_def get_wallet_def contract_world_def sample_wallet_def in_scope_def
        no_tenant_def contract_address_def encode_contract_id_def sample_adapter_def sample_keys_def address_sc_val_def
        account_sc_val_def contract_sc_val_def parse_contract_id_def validate_stellar_precision_def invoke_def build_invocation_def
        prepare_invocation_def simulate_def decode_auth_entries_def sample_node_def sign_and_send_def submit_soroban_def)
  from contract_payment_exact [OF run doc] obtain n where "of_int n = am_value ?a * 10 ^ 7" by blast
  with run show ?thesis by auto
qed

text \<open>
  With the signer of the environment, which is the one the program sets, no contract wallet is ever
  created: a deployment is signed with the empty text, which does not decrypt. Nothing is sent and no row is
  written, whatever the network would answer.
\<close>

theorem contract_wallet_never_created:
  assumes "ad_signer A = None \<or> (\<exists>S seal. ad_signer A = Some (env_signer S seal))"
  shows "\<exists>e. create_contract_wallet A V E salt c owner w sent = (Inl e, w, sent)"
proof -
  have "\<exists>e. deploy A V salt owner p sent = (Inl e, sent)" for p
    using unsigned_sign_and_send [OF assms, of V "''contract deployment''" _ sent]
    by (auto simp: deploy_def Let_def split: sum.split) (metis (no_types, lifting) old.sum.simps(5) prod.case)+
  then obtain e where "deploy A V salt owner (ad_defaults A) sent = (Inl e, sent)" by blast
  then show ?thesis by (auto simp: create_contract_wallet_def)
qed

lemma contract_wallet_never_created_witness:
  "\<exists>e. create_contract_wallet (sample_adapter\<lparr>ad_signer := Some (env_signer sample_wallet_service (\<lambda>_. Inr ()))\<rparr>) sample_node sample_wallet_env (Inr ''z'')
     no_tenant ''GOWNER'' empty_world [] = (Inl e, empty_world, [])"
proof -
  let ?A = "sample_adapter\<lparr>ad_signer := Some (env_signer sample_wallet_service (\<lambda>_. Inr ()))\<rparr>"
  have "ad_signer ?A = None \<or> (\<exists>S seal. ad_signer ?A = Some (env_signer S seal))" by (intro disjI2 exI) simp
  then show ?thesis by (rule contract_wallet_never_created)
qed

text \<open>
  Reading the state of a contract gives the contract's state back: owner and guardians as addresses,
  the threshold, the window, both amounts as decimals, and whether it is locked and a recovery is pending.
\<close>

theorem contract_state_round_trip:
  assumes "sk_render (ad_keys A) (cs_owner s) = Inr ow"
    and "list_all2 (\<lambda>a t. sk_render (ad_keys A) a = Inr t) (cs_guardians s) gs"
    and "fits128 (cs_limit s)" and "fits128 (cs_spent s)"
  shows "decode_contract_state A x now (state_sc_val s) = Inr
    \<lparr>ck_owner = ow, ck_contract = wa_contract x, ck_guardians = gs, ck_threshold = cs_threshold s,
     ck_limit = wv_text (ad_wallets A) (of_int (cs_limit s) / 10 ^ 7), ck_window = cs_window s,
     ck_spent = wv_text (ad_wallets A) (of_int (cs_spent s) / 10 ^ 7), ck_start = cs_start s, ck_lock = cs_lock s,
     ck_locked = (cs_lock s > now), ck_pending = (cs_pending s \<noteq> None)\<rparr>"
proof -
  have i: "decode_i128 (i128_sc_val v) = Inr v" if "fits128 v" for v
    using that signed_take_bit_int_eq_self_iff [of 127 v] by (simp add: decode_encode_i128 fits128_def)
  show ?thesis
    using assms(1) decode_addresses_map [OF assms(2)] i [OF assms(3)] i [OF assms(4)]
    by (simp add: decode_contract_state_def state_sc_val_def decode_address_field_def decode_u32_field_def
        decode_u64_field_def decode_i128_field_def stroops_text_def Let_def)
qed

lemma contract_state_round_trip_witness:
  "\<exists>k. decode_contract_state sample_adapter (sample_wallet ''a'' ''GOWNER'') 0 (state_sc_val sample_store) = Inr k \<and>
     ck_owner k = ''o'' \<and> ck_guardians k = [''g'', ''h''] \<and> \<not> ck_pending k"
proof -
  have h: "sk_render (ad_keys sample_adapter) (cs_owner sample_store) = Inr ''o''"
    "list_all2 (\<lambda>a t. sk_render (ad_keys sample_adapter) a = Inr t) (cs_guardians sample_store) [''g'', ''h'']"
    "fits128 (cs_limit sample_store)" "fits128 (cs_spent sample_store)"
    by (simp_all add: sample_adapter_def sample_keys_def sample_store_def fits128_def)
  from contract_state_round_trip [OF h, of "sample_wallet ''a'' ''GOWNER''" 0] show ?thesis
    by (simp add: sample_store_def)
qed

end
