(* ===== verification/Fiat.thy ===== *)
theory Fiat
  imports Transfers Fx Store_Laws
begin

text \<open>
  The fiat ramp (\<^verbatim>\<open>internal/fiat\<close>, \<^verbatim>\<open>postgres/fiat.go\<close>): deposits and withdrawals over a payment provider. A deposit is
  quoted and recorded, and the webhook of the provider credits the wallet out of the platform wallet; a
  withdrawal debits the wallet first, asks the provider to pay, and the webhook closes it or refunds it. The
  provider is a parameter of the service; the Flutterwave and Stripe rails are the providers of the code.
\<close>

section \<open>The tables\<close>

record fiat_deposit =
  fd_id :: string
  fd_wallet :: string
  fd_provider :: string
  fd_reference :: string
  fd_amount :: decimal
  fd_currency :: string
  fd_usdc :: decimal
  fd_instructions :: "(string \<times> string) list"
  fd_status :: string
  fd_created :: go_time

record fiat_withdrawal =
  fw_id :: string
  fw_wallet :: string
  fw_provider :: string
  fw_reference :: string
  fw_amount :: decimal
  fw_currency :: string
  fw_usdc :: decimal
  fw_status :: string
  fw_created :: go_time

record fiat_state =
  fi_deposits :: "fiat_deposit list"
  fi_withdrawals :: "fiat_withdrawal list"

definition fiat_pending :: string where "fiat_pending = ''pending''"
definition fiat_processing :: string where "fiat_processing = ''processing''"
definition fiat_completed :: string where "fiat_completed = ''completed''"
definition fiat_failed :: string where "fiat_failed = ''failed''"

lemmas fiat_status_defs = fiat_pending_def fiat_processing_def fiat_completed_def fiat_failed_def

text \<open>
  Both amounts are stored as \<^verbatim>\<open>DECIMAL(20,4)\<close>. The instructions are marshalled and unmarshalled by the repository; a
  deposit of the service has none.
\<close>

definition create_deposit ::
  "numeric_col \<Rightarrow> err option \<Rightarrow> fiat_deposit \<Rightarrow> world \<Rightarrow> fiat_state \<Rightarrow> err option \<times> fiat_state" where
  "create_deposit N q d w st =
     (let failed = (\<lambda>e. (Some (Wrap ''insert fiat deposit'' e), st)) in
      case q of Some e \<Rightarrow> failed e
      | None \<Rightarrow> (case (N 20 4 (fd_amount d), N 20 4 (fd_usdc d)) of
          (Some a, Some u) \<Rightarrow>
            if \<exists>x \<in> set (fi_deposits st). fd_id x = fd_id d \<or> fd_reference x = fd_reference d then failed unique_violation
            else if \<not> (\<exists>x \<in> set (w_wallets w). wa_id x = fd_wallet d) then failed foreign_key_violation
            else (None, st\<lparr>fi_deposits := fi_deposits st @ [d\<lparr>fd_amount := a, fd_usdc := u\<rparr>]\<rparr>)
        | _ \<Rightarrow> failed numeric_overflow))"

definition update_deposit_status ::
  "err option \<Rightarrow> string \<Rightarrow> string \<Rightarrow> fiat_state \<Rightarrow> err option \<times> fiat_state" where
  "update_deposit_status q i s st =
     (case q of Some e \<Rightarrow> (Some e, st)
      | None \<Rightarrow>
        (let P = (\<lambda>d. fd_id d = i \<and> fd_status d \<notin> {fiat_completed, fiat_failed}) in
         if rows_affected P (fi_deposits st) = 0
         then (Some (Opaque (''deposit '' @ i @ '' already processed or terminal'')), st)
         else (None, st\<lparr>fi_deposits := update_where P (\<lambda>d. d\<lparr>fd_status := s\<rparr>) (fi_deposits st)\<rparr>)))"

definition claim_deposit :: "err option \<Rightarrow> string \<Rightarrow> fiat_state \<Rightarrow> err option \<times> fiat_state" where
  "claim_deposit q i st =
     (case q of Some e \<Rightarrow> (Some e, st)
      | None \<Rightarrow>
        (let P = (\<lambda>d. fd_id d = i \<and> fd_status d = fiat_pending) in
         if rows_affected P (fi_deposits st) = 0
         then (Some (Opaque (''deposit '' @ i @ '' already claimed or not pending'')), st)
         else (None, st\<lparr>fi_deposits := update_where P (\<lambda>d. d\<lparr>fd_status := fiat_processing\<rparr>) (fi_deposits st)\<rparr>)))"

definition update_deposit_instructions ::
  "err option \<Rightarrow> string \<Rightarrow> (string \<times> string) list \<Rightarrow> fiat_state \<Rightarrow> err option \<times> fiat_state" where
  "update_deposit_instructions q i ins st =
     (case q of Some e \<Rightarrow> (Some e, st)
      | None \<Rightarrow> (None, st\<lparr>fi_deposits := update_where (\<lambda>d. fd_id d = i) (\<lambda>d. d\<lparr>fd_instructions := ins\<rparr>) (fi_deposits st)\<rparr>))"

definition deposit_by_reference :: "err option \<Rightarrow> string \<Rightarrow> fiat_state \<Rightarrow> err + fiat_deposit" where
  "deposit_by_reference q rf st =
     (case q of Some e \<Rightarrow> Inl e
      | None \<Rightarrow> (case row_with fd_reference rf (fi_deposits st) of
          None \<Rightarrow> Inl (Opaque ''deposit not found'') | Some d \<Rightarrow> Inr d))"

definition deposit_by_id :: "err option \<Rightarrow> string \<Rightarrow> fiat_state \<Rightarrow> err + fiat_deposit" where
  "deposit_by_id q i st =
     (case q of Some e \<Rightarrow> Inl e
      | None \<Rightarrow> (case row_with fd_id i (fi_deposits st) of
          None \<Rightarrow> Inl (Opaque ''deposit not found'') | Some d \<Rightarrow> Inr d))"

definition create_withdrawal ::
  "numeric_col \<Rightarrow> err option \<Rightarrow> fiat_withdrawal \<Rightarrow> world \<Rightarrow> fiat_state \<Rightarrow> err option \<times> fiat_state" where
  "create_withdrawal N q v w st =
     (let failed = (\<lambda>e. (Some (Wrap ''insert fiat withdrawal'' e), st)) in
      case q of Some e \<Rightarrow> failed e
      | None \<Rightarrow> (case (N 20 4 (fw_amount v), N 20 4 (fw_usdc v)) of
          (Some a, Some u) \<Rightarrow>
            if \<exists>x \<in> set (fi_withdrawals st). fw_id x = fw_id v \<or> fw_reference x = fw_reference v then failed unique_violation
            else if \<not> (\<exists>x \<in> set (w_wallets w). wa_id x = fw_wallet v) then failed foreign_key_violation
            else (None, st\<lparr>fi_withdrawals := fi_withdrawals st @ [v\<lparr>fw_amount := a, fw_usdc := u\<rparr>]\<rparr>)
        | _ \<Rightarrow> failed numeric_overflow))"

definition not_pending_error :: "string \<Rightarrow> err" where
  "not_pending_error i = Opaque (''withdrawal '' @ i @ '' already processed or not pending'')"

definition update_withdrawal_status ::
  "err option \<Rightarrow> string \<Rightarrow> string \<Rightarrow> fiat_state \<Rightarrow> err option \<times> fiat_state" where
  "update_withdrawal_status q i s st =
     (case q of Some e \<Rightarrow> (Some e, st)
      | None \<Rightarrow>
        (let P = (\<lambda>v. fw_id v = i \<and> fw_status v = fiat_pending) in
         if rows_affected P (fi_withdrawals st) = 0 then (Some (not_pending_error i), st)
         else (None, st\<lparr>fi_withdrawals := update_where P (\<lambda>v. v\<lparr>fw_status := s\<rparr>) (fi_withdrawals st)\<rparr>)))"

definition withdrawal_by_reference :: "err option \<Rightarrow> string \<Rightarrow> fiat_state \<Rightarrow> err + fiat_withdrawal" where
  "withdrawal_by_reference q rf st =
     (case q of Some e \<Rightarrow> Inl e
      | None \<Rightarrow> (case row_with fw_reference rf (fi_withdrawals st) of
          None \<Rightarrow> Inl (Opaque ''withdrawal not found'') | Some v \<Rightarrow> Inr v))"

definition withdrawal_by_id :: "err option \<Rightarrow> string \<Rightarrow> fiat_state \<Rightarrow> err + fiat_withdrawal" where
  "withdrawal_by_id q i st =
     (case q of Some e \<Rightarrow> Inl e
      | None \<Rightarrow> (case row_with fw_id i (fi_withdrawals st) of
          None \<Rightarrow> Inl (Opaque ''withdrawal not found'') | Some v \<Rightarrow> Inr v))"

section \<open>The rail\<close>

record deposit_request =
  dr_wallet :: string
  dr_reference :: string
  dr_amount :: decimal
  dr_currency :: string
  dr_email :: string
  dr_name :: string

record withdraw_request =
  wr_wallet :: string
  wr_reference :: string
  wr_amount :: decimal
  wr_currency :: string
  wr_bank :: string
  wr_account :: string

text \<open>The answers: the payment link and the reference, and the reference and the status.\<close>

type_synonym deposit_response = "string \<times> string"
type_synonym withdraw_response = "string \<times> string"

record rail_event =
  re_type :: string
  re_reference :: string
  re_event :: string
  re_status :: string
  re_amount :: decimal
  re_currency :: string

definition deposit_confirmed :: string where "deposit_confirmed = ''deposit.confirmed''"
definition deposit_failed :: string where "deposit_failed = ''deposit.failed''"
definition withdrawal_sent :: string where "withdrawal_sent = ''withdrawal.sent''"
definition withdrawal_failed :: string where "withdrawal_failed = ''withdrawal.failed''"

lemmas event_defs = deposit_confirmed_def deposit_failed_def withdrawal_sent_def withdrawal_failed_def

text \<open>A rail as its answers to the three calls of one request.\<close>

record rail =
  rl_deposit :: "deposit_request \<Rightarrow> err + deposit_response"
  rl_withdraw :: "withdraw_request \<Rightarrow> err + withdraw_response"
  rl_webhook :: "string \<Rightarrow> string \<Rightarrow> err + rail_event"

section \<open>The service\<close>

text \<open>
  \<open>fs_text\<close> is \<^verbatim>\<open>Decimal.String\<close>, \<open>fs_fold\<close> is \<^verbatim>\<open>strings.EqualFold\<close>.
\<close>

record fiat_service =
  fs_rail :: rail
  fs_spread :: int
  fs_providers :: "provider list"
  fs_platform :: string
  fs_name :: string
  fs_credit :: string
  fs_screener :: "screener_iface option"
  fs_text :: "decimal \<Rightarrow> string"
  fs_fold :: "string \<Rightarrow> string \<Rightarrow> bool"

definition credit_asset :: "string \<Rightarrow> string" where
  "credit_asset a = (if a = '''' then ''USDC'' else a)"

datatype fiat_stage = AtRecord | AtRead | AtClaimed | AtFailure | AtFinish

record fiat_env =
  fv_uuid :: string
  fv_now :: go_time
  fv_q :: "fiat_stage \<Rightarrow> err option"
  fv_fx :: fx_env
  fv_transfer :: initiate_env

record ramp =
  rp_world :: world
  rp_fiat :: fiat_state
  rp_fx :: fx_state

definition initiate_deposit ::
  "decimal_pkg \<Rightarrow> numeric_col \<Rightarrow> fiat_service \<Rightarrow> ctx \<Rightarrow> fiat_env \<Rightarrow> deposit_request \<Rightarrow> ramp
    \<Rightarrow> (err + deposit_response) \<times> ramp" where
  "initiate_deposit D N F c V r R =
     (case get_quote D N (fs_spread F) (fs_providers F) c (fv_fx V) (dr_currency r) (fs_credit F) (fs_text F (dr_amount r))
         (rp_world R) (rp_fx R) of
        (Inl e, fx) \<Rightarrow> (Inl (Wrap ''get quote for deposit'' e), R\<lparr>rp_fx := fx\<rparr>)
      | (Inr u, fx) \<Rightarrow>
        (let R1 = R\<lparr>rp_fx := fx\<rparr>;
             d = \<lparr>fd_id = fv_uuid V, fd_wallet = dr_wallet r, fd_provider = fs_name F, fd_reference = dr_reference r,
               fd_amount = dr_amount r, fd_currency = dr_currency r, fd_usdc = qu_to_amount u, fd_instructions = [],
               fd_status = fiat_pending, fd_created = fv_now V\<rparr>
         in case create_deposit N (fv_q V AtRecord) d (rp_world R1) (rp_fiat R1) of
             (Some e, st) \<Rightarrow> (Inl (Wrap ''create deposit record'' e), R1\<lparr>rp_fiat := st\<rparr>)
           | (None, st) \<Rightarrow>
             (case rl_deposit (fs_rail F) r of
                Inl e \<Rightarrow> (Inl (Wrap ''rail deposit error'' e),
                  R1\<lparr>rp_fiat := snd (update_deposit_status (fv_q V AtFailure) (fd_id d) fiat_failed st)\<rparr>)
              | Inr x \<Rightarrow> (Inr x, R1\<lparr>rp_fiat := st\<rparr>))))"

text \<open>The debit is ordered before the provider is asked, and is not taken back when the provider refuses.\<close>

definition debit_order :: "fiat_service \<Rightarrow> withdraw_request \<Rightarrow> decimal \<Rightarrow> transfer_order" where
  "debit_order F r a = transfer_order_of (wr_wallet r) (fs_platform F) (fs_credit F) a ''''"

definition pay_withdrawal ::
  "decimal_pkg \<Rightarrow> numeric_col \<Rightarrow> fiat_service \<Rightarrow> ctx \<Rightarrow> fiat_env \<Rightarrow> withdraw_request \<Rightarrow> string \<Rightarrow> decimal \<Rightarrow> ramp
    \<Rightarrow> (err + withdraw_response) \<times> ramp" where
  "pay_withdrawal D N F c V r i a R =
     (let fail = (\<lambda>R. R\<lparr>rp_fiat := snd (update_withdrawal_status (fv_q V AtFailure) i fiat_failed (rp_fiat R))\<rparr>) in
      case initiate D N c (fs_screener F) (fv_transfer V) (debit_order F r a) (rp_world R) of
        (Inl e, w) \<Rightarrow> (Inl (Wrap ''initiate transfer to platform'' e), fail (R\<lparr>rp_world := w\<rparr>))
      | (Inr t, w) \<Rightarrow> (case rl_withdraw (fs_rail F) r of
          Inl e \<Rightarrow> (Inl (Wrap ''rail withdraw error'' e), fail (R\<lparr>rp_world := w\<rparr>))
        | Inr x \<Rightarrow> (Inr x, R\<lparr>rp_world := w\<rparr>)))"

definition initiate_withdrawal ::
  "decimal_pkg \<Rightarrow> numeric_col \<Rightarrow> fiat_service \<Rightarrow> ctx \<Rightarrow> fiat_env \<Rightarrow> withdraw_request \<Rightarrow> ramp
    \<Rightarrow> (err + withdraw_response) \<times> ramp" where
  "initiate_withdrawal D N F c V r R =
     (case get_quote D N (fs_spread F) (fs_providers F) c (fv_fx V) (fs_credit F) (wr_currency r) ''1''
         (rp_world R) (rp_fx R) of
        (Inl e, fx) \<Rightarrow> (Inl (Wrap ''get FX rate for withdrawal'' e), R\<lparr>rp_fx := fx\<rparr>)
      | (Inr u, fx) \<Rightarrow>
        if qu_rate u = 0 then (Inl (Opaque ''FX service returned a zero exchange rate''), R\<lparr>rp_fx := fx\<rparr>)
        else
        (let R1 = R\<lparr>rp_fx := fx\<rparr>;
             a = d_div D (wr_amount r) (qu_rate u);
             v = \<lparr>fw_id = fv_uuid V, fw_wallet = wr_wallet r, fw_provider = fs_name F, fw_reference = wr_reference r,
               fw_amount = wr_amount r, fw_currency = wr_currency r, fw_usdc = a, fw_status = fiat_pending,
               fw_created = fv_now V\<rparr>
         in case create_withdrawal N (fv_q V AtRecord) v (rp_world R1) (rp_fiat R1) of
             (Some e, st) \<Rightarrow> (Inl (Wrap ''create withdrawal record'' e), R1\<lparr>rp_fiat := st\<rparr>)
           | (None, st) \<Rightarrow> pay_withdrawal D N F c V r (fv_uuid V) a (R1\<lparr>rp_fiat := st\<rparr>)))"
section \<open>The webhook of the provider\<close>

text \<open>
  A deposit event: the row is read, a row that is not pending ends the delivery, amount and currency are
  compared, the row is claimed, and only then the wallet is credited.
\<close>

definition mismatch_error :: "fiat_service \<Rightarrow> rail_event \<Rightarrow> fiat_deposit \<Rightarrow> err" where
  "mismatch_error F e d =
     Opaque (''webhook amount/currency mismatch for deposit '' @ fd_id d @ '': event has '' @ fs_text F (re_amount e) @ '' '' @
       re_currency e @ '', expected '' @ fs_text F (fd_amount d) @ '' '' @ fd_currency d)"

definition event_matches :: "fiat_service \<Rightarrow> rail_event \<Rightarrow> fiat_deposit \<Rightarrow> bool" where
  "event_matches F e d \<longleftrightarrow> re_amount e = fd_amount d \<and> fs_fold F (re_currency e) (fd_currency d)"

definition credit_order :: "fiat_service \<Rightarrow> fiat_deposit \<Rightarrow> transfer_order" where
  "credit_order F d = transfer_order_of (fs_platform F) (fd_wallet d) (fs_credit F) (fd_usdc d) ''''"

definition settle_deposit ::
  "decimal_pkg \<Rightarrow> numeric_col \<Rightarrow> fiat_service \<Rightarrow> ctx \<Rightarrow> fiat_env \<Rightarrow> rail_event \<Rightarrow> fiat_deposit \<Rightarrow> ramp \<Rightarrow> err option \<times> ramp" where
  "settle_deposit D N F c V e d R =
     (let finish = (\<lambda>s R. case update_deposit_status (fv_q V AtFinish) (fd_id d) s (rp_fiat R) of
                      (q, st) \<Rightarrow> (map_option (Wrap ''update deposit status'') q, R\<lparr>rp_fiat := st\<rparr>)) in
      if re_status e = ''completed'' then
        (case initiate D N c (fs_screener F) (fv_transfer V) (credit_order F d) (rp_world R) of
           (Inl x, w) \<Rightarrow> (Some (Wrap ''credit user wallet'' x), R\<lparr>rp_world := w,
              rp_fiat := snd (update_deposit_status (fv_q V AtFailure) (fd_id d) fiat_failed (rp_fiat R))\<rparr>)
         | (Inr t, w) \<Rightarrow> finish fiat_completed (R\<lparr>rp_world := w\<rparr>))
      else if re_status e = ''failed'' then finish fiat_failed R
      else (None, R))"

definition deposit_event ::
  "decimal_pkg \<Rightarrow> numeric_col \<Rightarrow> fiat_service \<Rightarrow> ctx \<Rightarrow> fiat_env \<Rightarrow> rail_event \<Rightarrow> ramp \<Rightarrow> err option \<times> ramp" where
  "deposit_event D N F c V e R =
     (case deposit_by_reference (fv_q V AtRead) (re_reference e) (rp_fiat R) of
        Inl x \<Rightarrow> (Some (Wrap ''get deposit by ref'' x), R)
      | Inr d \<Rightarrow>
        if fd_status d \<noteq> fiat_pending then (None, R)
        else if \<not> event_matches F e d then (Some (mismatch_error F e d), R)
        else (case claim_deposit (fv_q V AtClaimed) (fd_id d) (rp_fiat R) of
            (Some x, st) \<Rightarrow> (None, R\<lparr>rp_fiat := st\<rparr>)
          | (None, st) \<Rightarrow> settle_deposit D N F c V e d (R\<lparr>rp_fiat := st\<rparr>)))"

text \<open>
  A withdrawal event: the row is closed by one conditional update, and a failed payout is refunded by
  the delivery whose update took effect. The error of the update is told apart by its text.
\<close>

definition refund_order :: "fiat_service \<Rightarrow> fiat_withdrawal \<Rightarrow> transfer_order" where
  "refund_order F v = transfer_order_of (fs_platform F) (fw_wallet v) (fs_credit F) (fw_usdc v) ''''"

definition withdrawal_event ::
  "decimal_pkg \<Rightarrow> numeric_col \<Rightarrow> fiat_service \<Rightarrow> ctx \<Rightarrow> fiat_env \<Rightarrow> rail_event \<Rightarrow> ramp \<Rightarrow> err option \<times> ramp" where
  "withdrawal_event D N F c V e R =
     (case withdrawal_by_reference (fv_q V AtRead) (re_reference e) (rp_fiat R) of
        Inl x \<Rightarrow> (Some (Wrap ''get withdrawal by ref'' x), R)
      | Inr v \<Rightarrow>
        (let close = (\<lambda>s. update_withdrawal_status (fv_q V AtFinish) (fw_id v) s (rp_fiat R));
             refused = (\<lambda>x. if x = not_pending_error (fw_id v) then None else Some (Wrap ''update withdrawal status'' x)) in
         if fw_status v \<noteq> fiat_pending then (None, R)
         else if re_status e = ''completed'' then
           (case close fiat_completed of (Some x, st) \<Rightarrow> (refused x, R\<lparr>rp_fiat := st\<rparr>) | (None, st) \<Rightarrow> (None, R\<lparr>rp_fiat := st\<rparr>))
         else if re_status e = ''failed'' then
           (case close fiat_failed of (Some x, st) \<Rightarrow> (refused x, R\<lparr>rp_fiat := st\<rparr>)
            | (None, st) \<Rightarrow> (case initiate D N c (fs_screener F) (fv_transfer V) (refund_order F v) (rp_world R) of
                (Inl x, w) \<Rightarrow> (Some (Wrap ''refund user wallet for failed withdrawal'' x), R\<lparr>rp_world := w, rp_fiat := st\<rparr>)
              | (Inr t, w) \<Rightarrow> (None, R\<lparr>rp_world := w, rp_fiat := st\<rparr>)))
         else (None, R)))"

definition handle_webhook ::
  "decimal_pkg \<Rightarrow> numeric_col \<Rightarrow> fiat_service \<Rightarrow> ctx \<Rightarrow> fiat_env \<Rightarrow> string \<Rightarrow> string \<Rightarrow> ramp \<Rightarrow> err option \<times> ramp" where
  "handle_webhook D N F c V payload signature R =
     (case rl_webhook (fs_rail F) payload signature of
        Inl x \<Rightarrow> (Some (Wrap ''handle webhook'' x), R)
      | Inr e \<Rightarrow>
        if re_type e = deposit_confirmed \<or> re_type e = deposit_failed then deposit_event D N F c V e R
        else if re_type e = withdrawal_sent \<or> re_type e = withdrawal_failed then withdrawal_event D N F c V e R
        else (None, R))"

section \<open>The handlers\<close>

text \<open>
  The decoding of the two requests; \<open>valid\<close> is the verdict of the struct tags, and the reference is the first
  eight characters of a fresh UUID behind a prefix. A status code other than 200 is given with the text.
\<close>

definition fiat_amount :: "decimal_pkg \<Rightarrow> string \<Rightarrow> decimal option" where
  "fiat_amount D s = (case d_parse D s of None \<Rightarrow> None | Some a \<Rightarrow> if a \<le> 0 then None else Some a)"

definition deposit_handler ::
  "decimal_pkg \<Rightarrow> numeric_col \<Rightarrow> fiat_service \<Rightarrow> ctx \<Rightarrow> fiat_env \<Rightarrow> string \<Rightarrow> string option \<Rightarrow> string \<Rightarrow> string \<Rightarrow> string \<Rightarrow> string
    \<Rightarrow> string \<Rightarrow> ramp \<Rightarrow> deposit_response response \<times> ramp" where
  "deposit_handler D N F c V wid invalid amount currency email name uuid R =
     (if wid = '''' then (BadRequest ''wallet id is required'', R)
      else case invalid of Some m \<Rightarrow> (BadRequest m, R)
      | None \<Rightarrow> (case fiat_amount D amount of None \<Rightarrow> (BadRequest ''invalid amount'', R)
        | Some a \<Rightarrow> (case initiate_deposit D N F c V \<lparr>dr_wallet = wid, dr_reference = ''DEP-'' @ take 8 uuid, dr_amount = a,
              dr_currency = currency, dr_email = email, dr_name = name\<rparr> R of
            (Inl e, R1) \<Rightarrow> (DomainError e, R1) | (Inr x, R1) \<Rightarrow> (Accepted x, R1))))"

definition withdrawal_handler ::
  "decimal_pkg \<Rightarrow> numeric_col \<Rightarrow> fiat_service \<Rightarrow> ctx \<Rightarrow> fiat_env \<Rightarrow> string \<Rightarrow> string option \<Rightarrow> string \<Rightarrow> string \<Rightarrow> string \<Rightarrow> string
    \<Rightarrow> string \<Rightarrow> ramp \<Rightarrow> withdraw_response response \<times> ramp" where
  "withdrawal_handler D N F c V wid invalid amount currency bank account uuid R =
     (if wid = '''' then (BadRequest ''wallet id is required'', R)
      else case invalid of Some m \<Rightarrow> (BadRequest m, R)
      | None \<Rightarrow> (case fiat_amount D amount of None \<Rightarrow> (BadRequest ''invalid amount'', R)
        | Some a \<Rightarrow> (case initiate_withdrawal D N F c V \<lparr>wr_wallet = wid, wr_reference = ''WIT-'' @ take 8 uuid, wr_amount = a,
              wr_currency = currency, wr_bank = bank, wr_account = account\<rparr> R of
            (Inl e, R1) \<Rightarrow> (DomainError e, R1) | (Inr x, R1) \<Rightarrow> (Accepted x, R1))))"

text \<open>Both signature headers are tried; every failure is answered with 400. The public route has no tenant.\<close>

definition webhook_handler ::
  "decimal_pkg \<Rightarrow> numeric_col \<Rightarrow> fiat_service \<Rightarrow> ctx \<Rightarrow> fiat_env \<Rightarrow> string \<Rightarrow> (string option) \<Rightarrow> string \<Rightarrow> string
    \<Rightarrow> ramp \<Rightarrow> unit response \<times> ramp" where
  "webhook_handler D N F c V provider payload verif stripe_sig R =
     (if provider = '''' then (BadRequest ''provider is required'', R)
      else case payload of None \<Rightarrow> (BadRequest ''read payload error'', R)
      | Some p \<Rightarrow> (case handle_webhook D N F c V p (if verif = '''' then stripe_sig else verif) R of
          (Some e, R1) \<Rightarrow> (BadRequest ''webhook validation failed'', R1) | (None, R1) \<Rightarrow> (Accepted (), R1)))"

text \<open>The simulated deposit only computes: nothing is read or written.\<close>

definition simulate_deposit :: "decimal_pkg \<Rightarrow> string \<Rightarrow> string \<Rightarrow> decimal response" where
  "simulate_deposit D wid amount =
     (if wid = '''' then BadRequest ''wallet id is required''
      else case fiat_amount D amount of None \<Rightarrow> BadRequest ''invalid amount'' | Some a \<Rightarrow> Accepted (d_div D a 1500))"

section \<open>The guards as one-shot updates\<close>

definition wf_fiat :: "fiat_state \<Rightarrow> bool" where
  "wf_fiat st \<longleftrightarrow> distinct (map fd_id (fi_deposits st)) \<and> distinct (map fw_id (fi_withdrawals st))"

definition deposit_status :: "fiat_state \<Rightarrow> string \<Rightarrow> string option" where
  "deposit_status st i = map_option fd_status (row_with fd_id i (fi_deposits st))"

definition withdrawal_status :: "fiat_state \<Rightarrow> string \<Rightarrow> string option" where
  "withdrawal_status st i = map_option fw_status (row_with fw_id i (fi_withdrawals st))"

lemma wf_fiat_update [simp]:
  "wf_fiat (st\<lparr>fi_deposits := update_where P (\<lambda>d. d\<lparr>fd_status := s\<rparr>) (fi_deposits st)\<rparr>) = wf_fiat st"
  "wf_fiat (st\<lparr>fi_withdrawals := update_where Q (\<lambda>v. v\<lparr>fw_status := s\<rparr>) (fi_withdrawals st)\<rparr>) = wf_fiat st"
  by (simp_all add: wf_fiat_def map_key_update_where)

lemma claim_deposit_cases:
  assumes "wf_fiat st"
  obtains (won) "deposit_status st i = Some fiat_pending" "fst (claim_deposit None i st) = None"
      "wf_fiat (snd (claim_deposit None i st))" "fi_withdrawals (snd (claim_deposit None i st)) = fi_withdrawals st"
      "\<And>j. deposit_status (snd (claim_deposit None i st)) j = (if j = i then Some fiat_processing else deposit_status st j)"
  | (lost) e where "deposit_status st i \<noteq> Some fiat_pending" "claim_deposit None i st = (Some e, st)"
proof (cases "deposit_status st i = Some fiat_pending")
  case True
  then obtain d where d: "row_with fd_id i (fi_deposits st) = Some d" "fd_status d = fiat_pending"
    by (auto simp: deposit_status_def)
  have "d \<in> set (fi_deposits st)" "fd_id d = i" using row_with_SomeD [OF d(1)] by auto
  with d have hit: "rows_affected (\<lambda>d. fd_id d = i \<and> fd_status d = fiat_pending) (fi_deposits st) \<noteq> 0"
    by (auto simp: rows_affected_0)
  have st: "deposit_status (snd (claim_deposit None i st)) j = (if j = i then Some fiat_processing else deposit_status st j)" for j
    using hit d by (simp add: claim_deposit_def deposit_status_def keyed_update)
  show ?thesis using True hit assms st by (intro won) (auto simp: claim_deposit_def Let_def)
next
  case False
  have miss: "rows_affected (\<lambda>d. fd_id d = i \<and> fd_status d = fiat_pending) (fi_deposits st) = 0"
  proof (rule ccontr)
    assume "rows_affected (\<lambda>d. fd_id d = i \<and> fd_status d = fiat_pending) (fi_deposits st) \<noteq> 0"
    then obtain d where d: "d \<in> set (fi_deposits st)" "fd_id d = i" "fd_status d = fiat_pending"
      by (auto simp: rows_affected_0)
    with row_with_unique [of fd_id "fi_deposits st" d] assms False show False
      by (auto simp: wf_fiat_def deposit_status_def)
  qed
  show ?thesis using False miss by (intro lost) (auto simp: claim_deposit_def Let_def)
qed

interpretation deposits: one_shot wf_fiat "\<lambda>st i. deposit_status st i = Some fiat_pending" "claim_deposit None"
proof
  fix w k
  assume wf: "wf_fiat w"
  show "wf_fiat (snd (claim_deposit None k w))" by (cases rule: claim_deposit_cases [OF wf, of k]) (use wf in auto)
  show "deposit_status w k = Some fiat_pending \<Longrightarrow> fst (claim_deposit None k w) = None"
    by (cases rule: claim_deposit_cases [OF wf, of k]) auto
  show "deposit_status w k \<noteq> Some fiat_pending \<Longrightarrow> fst (claim_deposit None k w) \<noteq> None"
    by (cases rule: claim_deposit_cases [OF wf, of k]) auto
next
  fix w k w'
  assume wf: "wf_fiat w" and c: "claim_deposit None k w = (None, w')"
  show "deposit_status w' k \<noteq> Some fiat_pending"
    by (cases rule: claim_deposit_cases [OF wf, of k]) (use c in \<open>auto simp: fiat_status_defs\<close>)
  show "(deposit_status w' j = Some fiat_pending) = (deposit_status w j = Some fiat_pending)" if "j \<noteq> k" for j
    by (cases rule: claim_deposit_cases [OF wf, of k]) (use c that in auto)
next
  fix k w e w'
  show "claim_deposit None k w = (Some e, w') \<Longrightarrow> w' = w"
    by (auto simp: claim_deposit_def Let_def split: if_splits)
qed
lemma update_deposit_status_cases:
  assumes "wf_fiat st"
  obtains e where "update_deposit_status q i s st = (Some e, st)"
  | st' where "update_deposit_status q i s st = (None, st')" "wf_fiat st'" "fi_withdrawals st' = fi_withdrawals st"
      "\<And>j. deposit_status st' j = (if j = i then Some s else deposit_status st j)"
      "\<exists>x. deposit_status st i = Some x \<and> x \<notin> {fiat_completed, fiat_failed}"
proof (cases "fst (update_deposit_status q i s st)")
  case (Some e)
  then show ?thesis by (intro that(1) [of e]) (auto simp: update_deposit_status_def Let_def split: option.splits if_splits)
next
  case None
  let ?P = "\<lambda>d. fd_id d = i \<and> fd_status d \<notin> {fiat_completed, fiat_failed}"
  from None have hit: "rows_affected ?P (fi_deposits st) \<noteq> 0" and q: "q = None"
    by (auto simp: update_deposit_status_def Let_def split: option.splits if_splits)
  from hit obtain d where d: "d \<in> set (fi_deposits st)" "?P d" by (auto simp: rows_affected_0)
  with row_with_unique [of fd_id "fi_deposits st" d] assms have row: "row_with fd_id i (fi_deposits st) = Some d"
    by (auto simp: wf_fiat_def)
  let ?st' = "st\<lparr>fi_deposits := update_where ?P (\<lambda>d. d\<lparr>fd_status := s\<rparr>) (fi_deposits st)\<rparr>"
  have "deposit_status ?st' j = (if j = i then Some s else deposit_status st j)" for j
    using row d by (simp add: deposit_status_def keyed_update)
  with that(2) [of ?st'] hit q row d assms show ?thesis
    by (auto simp: update_deposit_status_def Let_def deposit_status_def)
qed

lemma update_withdrawal_status_cases:
  assumes "wf_fiat st"
  obtains e where "update_withdrawal_status q i s st = (Some e, st)"
  | st' where "update_withdrawal_status q i s st = (None, st')" "wf_fiat st'" "fi_deposits st' = fi_deposits st"
      "\<And>j. withdrawal_status st' j = (if j = i then Some s else withdrawal_status st j)"
      "withdrawal_status st i = Some fiat_pending"
proof (cases "fst (update_withdrawal_status q i s st)")
  case (Some e)
  then show ?thesis by (intro that(1) [of e]) (auto simp: update_withdrawal_status_def Let_def split: option.splits if_splits)
next
  case None
  let ?P = "\<lambda>v. fw_id v = i \<and> fw_status v = fiat_pending"
  from None have hit: "rows_affected ?P (fi_withdrawals st) \<noteq> 0" and q: "q = None"
    by (auto simp: update_withdrawal_status_def Let_def split: option.splits if_splits)
  from hit obtain v where v: "v \<in> set (fi_withdrawals st)" "?P v" by (auto simp: rows_affected_0)
  with row_with_unique [of fw_id "fi_withdrawals st" v] assms have row: "row_with fw_id i (fi_withdrawals st) = Some v"
    by (auto simp: wf_fiat_def)
  let ?st' = "st\<lparr>fi_withdrawals := update_where ?P (\<lambda>v. v\<lparr>fw_status := s\<rparr>) (fi_withdrawals st)\<rparr>"
  have "withdrawal_status ?st' j = (if j = i then Some s else withdrawal_status st j)" for j
    using row v by (simp add: withdrawal_status_def keyed_update)
  with that(2) [of ?st'] hit q row v assms show ?thesis
    by (auto simp: update_withdrawal_status_def Let_def withdrawal_status_def)
qed

lemma create_deposit_cases:
  assumes "create_deposit N q d w st = (r, st')"
  obtains e where "r = Some e" "st' = st"
  | a u where "r = None" "st' = st\<lparr>fi_deposits := fi_deposits st @ [d\<lparr>fd_amount := a, fd_usdc := u\<rparr>]\<rparr>"
      "N 20 4 (fd_amount d) = Some a" "N 20 4 (fd_usdc d) = Some u"
      "\<forall>x \<in> set (fi_deposits st). fd_id x \<noteq> fd_id d \<and> fd_reference x \<noteq> fd_reference d"
  using assms by (auto simp: create_deposit_def Let_def split: option.splits if_splits)

lemma create_withdrawal_cases:
  assumes "create_withdrawal N q v w st = (r, st')"
  obtains e where "r = Some e" "st' = st"
  | a u where "r = None" "st' = st\<lparr>fi_withdrawals := fi_withdrawals st @ [v\<lparr>fw_amount := a, fw_usdc := u\<rparr>]\<rparr>"
      "N 20 4 (fw_amount v) = Some a" "N 20 4 (fw_usdc v) = Some u"
      "\<forall>x \<in> set (fi_withdrawals st). fw_id x \<noteq> fw_id v \<and> fw_reference x \<noteq> fw_reference v"
  using assms by (auto simp: create_withdrawal_def Let_def split: option.splits if_splits)

section \<open>Deliveries that interleave\<close>

text \<open>
  Any number of deliveries and requests at once. Each statement of a delivery is a step of its own: after it
  read a row and found it in order (\<open>Checked\<close>), after the claim (\<open>Claimed\<close>), after the credit (\<open>Credited\<close>); for a
  failed withdrawal after the read (\<open>Opened\<close>) and after the update that took effect (\<open>Failed\<close>). A process may die
  between any two steps. \<open>rn_credited\<close> and \<open>rn_refunded\<close> are the rows for which the transfer service was called.
\<close>

datatype ramp_work =
    Checked fiat_deposit
  | Claimed fiat_deposit
  | Credited fiat_deposit
  | Opened fiat_withdrawal
  | Failed fiat_withdrawal

record ramp_run =
  rn_fiat :: fiat_state
  rn_world :: world
  rn_work :: "ramp_work list"
  rn_credited :: "string list"
  rn_refunded :: "string list"

inductive ramp_step :: "decimal_pkg \<Rightarrow> numeric_col \<Rightarrow> fiat_service \<Rightarrow> ramp_run \<Rightarrow> ramp_run \<Rightarrow> bool" for D N F where
  new_deposit: "fd_status d = fiat_pending \<Longrightarrow> create_deposit N q d (rn_world s) (rn_fiat s) = (r, st) \<Longrightarrow>
    ramp_step D N F s (s\<lparr>rn_fiat := st\<rparr>)"
| new_withdrawal: "fw_status v = fiat_pending \<Longrightarrow> create_withdrawal N q v (rn_world s) (rn_fiat s) = (r, st) \<Longrightarrow>
    ramp_step D N F s (s\<lparr>rn_fiat := st\<rparr>)"
| deposit_refused: "update_deposit_status q i fiat_failed (rn_fiat s) = (r, st) \<Longrightarrow> ramp_step D N F s (s\<lparr>rn_fiat := st\<rparr>)"
| withdrawal_closed: "x \<in> {fiat_completed, fiat_failed} \<Longrightarrow> update_withdrawal_status q i x (rn_fiat s) = (r, st) \<Longrightarrow>
    ramp_step D N F s (s\<lparr>rn_fiat := st\<rparr>)"
| check_deposit: "deposit_by_reference q rf (rn_fiat s) = Inr d \<Longrightarrow> fd_status d = fiat_pending \<Longrightarrow> event_matches F e d \<Longrightarrow>
    ramp_step D N F s (s\<lparr>rn_work := Checked d # rn_work s\<rparr>)"
| claim_won: "rn_work s = us @ Checked d # vs \<Longrightarrow> claim_deposit q (fd_id d) (rn_fiat s) = (None, st) \<Longrightarrow>
    ramp_step D N F s (s\<lparr>rn_fiat := st, rn_work := us @ Claimed d # vs\<rparr>)"
| credit: "rn_work s = us @ Claimed d # vs \<Longrightarrow> initiate D N c S E (credit_order F d) (rn_world s) = (r, w) \<Longrightarrow>
    ramp_step D N F s (s\<lparr>rn_world := w, rn_work := us @ Credited d # vs, rn_credited := fd_id d # rn_credited s\<rparr>)"
| finish_deposit: "rn_work s = us @ x # vs \<Longrightarrow> x = Claimed d \<or> x = Credited d \<Longrightarrow> y \<in> {fiat_completed, fiat_failed} \<Longrightarrow>
    update_deposit_status q (fd_id d) y (rn_fiat s) = (r, st) \<Longrightarrow>
    ramp_step D N F s (s\<lparr>rn_fiat := st, rn_work := us @ vs\<rparr>)"
| open_withdrawal: "withdrawal_by_reference q rf (rn_fiat s) = Inr v \<Longrightarrow> fw_status v = fiat_pending \<Longrightarrow>
    ramp_step D N F s (s\<lparr>rn_work := Opened v # rn_work s\<rparr>)"
| fail_withdrawal: "rn_work s = us @ Opened v # vs \<Longrightarrow>
    update_withdrawal_status q (fw_id v) fiat_failed (rn_fiat s) = (None, st) \<Longrightarrow>
    ramp_step D N F s (s\<lparr>rn_fiat := st, rn_work := us @ Failed v # vs\<rparr>)"
| refund: "rn_work s = us @ Failed v # vs \<Longrightarrow> initiate D N c S E (refund_order F v) (rn_world s) = (r, w) \<Longrightarrow>
    ramp_step D N F s (s\<lparr>rn_world := w, rn_work := us @ vs, rn_refunded := fw_id v # rn_refunded s\<rparr>)"
| give_up: "rn_work s = us @ x # vs \<Longrightarrow> ramp_step D N F s (s\<lparr>rn_work := us @ vs\<rparr>)"
| elsewhere: "ramp_step D N F s (s\<lparr>rn_world := w\<rparr>)"

inductive_cases ramp_stepE: "ramp_step D N F s s'"

inductive ramp_reachable :: "decimal_pkg \<Rightarrow> numeric_col \<Rightarrow> fiat_service \<Rightarrow> ramp_run \<Rightarrow> ramp_run \<Rightarrow> bool" for D N F s0 where
  ramp_start: "ramp_reachable D N F s0 s0"
| ramp_more: "ramp_reachable D N F s0 s \<Longrightarrow> ramp_step D N F s s' \<Longrightarrow> ramp_reachable D N F s0 s'"

definition start_ramp :: "fiat_state \<Rightarrow> world \<Rightarrow> ramp_run" where
  "start_ramp st w = \<lparr>rn_fiat = st, rn_world = w, rn_work = [], rn_credited = [], rn_refunded = []\<rparr>"

text \<open>
  The invariant: at most one credit of a deposit was or is about to be ordered, and then its row is closed to
  the claim; likewise for the refunds, whose row has failed.
\<close>

definition credit_tokens :: "ramp_run \<Rightarrow> string \<Rightarrow> nat" where
  "credit_tokens s i = count_list (rn_credited s) i +
     length (filter (\<lambda>x. case x of Claimed d \<Rightarrow> fd_id d = i | _ \<Rightarrow> False) (rn_work s))"

definition refund_tokens :: "ramp_run \<Rightarrow> string \<Rightarrow> nat" where
  "refund_tokens s i = count_list (rn_refunded s) i +
     length (filter (\<lambda>x. case x of Failed v \<Rightarrow> fw_id v = i | _ \<Rightarrow> False) (rn_work s))"

lemmas token_defs = credit_tokens_def refund_tokens_def

definition claimed_row :: "fiat_state \<Rightarrow> string \<Rightarrow> bool" where
  "claimed_row st i \<longleftrightarrow> deposit_status st i \<noteq> None \<and> deposit_status st i \<noteq> Some fiat_pending"

definition ramp_inv :: "ramp_run \<Rightarrow> bool" where
  "ramp_inv s \<longleftrightarrow> wf_fiat (rn_fiat s) \<and>
     (\<forall>i. credit_tokens s i = 0 \<or> credit_tokens s i = 1 \<and> claimed_row (rn_fiat s) i) \<and>
     (\<forall>i. refund_tokens s i = 0 \<or> refund_tokens s i = 1 \<and> withdrawal_status (rn_fiat s) i = Some fiat_failed)"

text \<open>How the rows may change without touching the invariant.\<close>

definition rows_kept :: "fiat_state \<Rightarrow> fiat_state \<Rightarrow> bool" where
  "rows_kept st st' \<longleftrightarrow> wf_fiat st' \<and> (\<forall>i. claimed_row st i \<longrightarrow> claimed_row st' i) \<and>
     (\<forall>i. withdrawal_status st i = Some fiat_failed \<longrightarrow> withdrawal_status st' i = Some fiat_failed)"

lemma ramp_inv_mono:
  assumes "ramp_inv s" and "rows_kept (rn_fiat s) (rn_fiat s')"
    and "\<And>i. credit_tokens s' i \<le> credit_tokens s i" and "\<And>i. refund_tokens s' i \<le> refund_tokens s i"
  shows "ramp_inv s'"
  unfolding ramp_inv_def
proof (intro conjI allI)
  show "wf_fiat (rn_fiat s')" using assms(2) by (simp add: rows_kept_def)
  fix i
  from assms(1) have "credit_tokens s i = 0 \<or> credit_tokens s i = 1 \<and> claimed_row (rn_fiat s) i"
    and "refund_tokens s i = 0 \<or> refund_tokens s i = 1 \<and> withdrawal_status (rn_fiat s) i = Some fiat_failed"
    by (auto simp: ramp_inv_def)
  then show "credit_tokens s' i = 0 \<or> credit_tokens s' i = 1 \<and> claimed_row (rn_fiat s') i"
    and "refund_tokens s' i = 0 \<or> refund_tokens s' i = 1 \<and> withdrawal_status (rn_fiat s') i = Some fiat_failed"
    using assms(2) assms(3,4) [of i] by (auto simp: rows_kept_def le_Suc_eq)
qed

lemma rows_kept_refl: "wf_fiat st \<Longrightarrow> rows_kept st st"
  by (simp add: rows_kept_def)

lemma rows_kept_deposit_update:
  assumes "wf_fiat st" and "s \<noteq> fiat_pending"
  shows "rows_kept st (snd (update_deposit_status q i s st))"
  by (cases rule: update_deposit_status_cases [OF assms(1), of q i s])
    (use assms in \<open>auto simp: rows_kept_def claimed_row_def withdrawal_status_def\<close>)

lemma rows_kept_withdrawal_update:
  assumes "wf_fiat st"
  shows "rows_kept st (snd (update_withdrawal_status q i s st))"
  by (cases rule: update_withdrawal_status_cases [OF assms, of q i s])
    (use assms in \<open>auto simp: rows_kept_def claimed_row_def deposit_status_def fiat_status_defs\<close>)

lemma rows_kept_create_deposit:
  assumes "wf_fiat st" and "create_deposit N q d w st = (r, st')"
  shows "rows_kept st st'"
  using assms(2)
  by (cases rule: create_deposit_cases)
    (use assms(1) in \<open>auto simp: rows_kept_def wf_fiat_def claimed_row_def deposit_status_def withdrawal_status_def
      row_with_append image_iff split: option.splits\<close>)

lemma rows_kept_create_withdrawal:
  assumes "wf_fiat st" and "create_withdrawal N q v w st = (r, st')"
  shows "rows_kept st st'"
  using assms(2)
  by (cases rule: create_withdrawal_cases)
    (use assms(1) in \<open>auto simp: rows_kept_def wf_fiat_def claimed_row_def deposit_status_def withdrawal_status_def
      row_with_append image_iff split: option.splits\<close>)
lemma ramp_inv_claim:
  assumes "ramp_inv s" and "rn_work s = us @ Checked d # vs" and "claim_deposit q (fd_id d) (rn_fiat s) = (None, st)"
  shows "ramp_inv (s\<lparr>rn_fiat := st, rn_work := us @ Claimed d # vs\<rparr>)"
proof -
  have q: "q = None" using assms(3) by (auto simp: claim_deposit_def split: option.splits)
  have wf: "wf_fiat (rn_fiat s)" using assms(1) by (simp add: ramp_inv_def)
  show ?thesis
  proof (cases rule: claim_deposit_cases [OF wf, of "fd_id d"])
    case 1
    with assms(3) q have st: "wf_fiat st" "fi_withdrawals st = fi_withdrawals (rn_fiat s)"
      "\<And>j. deposit_status st j = (if j = fd_id d then Some fiat_processing else deposit_status (rn_fiat s) j)" by auto
    have none: "credit_tokens s (fd_id d) = 0" using assms(1) 1(1) by (auto simp: ramp_inv_def claimed_row_def)
    have "credit_tokens s i = 0 \<or> credit_tokens s i = 1 \<and> claimed_row (rn_fiat s) i"
      and "refund_tokens s i = 0 \<or> refund_tokens s i = 1 \<and> withdrawal_status (rn_fiat s) i = Some fiat_failed" for i
      using assms(1) by (auto simp: ramp_inv_def)
    with none st assms(2) show ?thesis
      by (auto simp: ramp_inv_def token_defs claimed_row_def withdrawal_status_def fiat_status_defs)
  qed (use assms(3) q in simp)
qed

lemma ramp_inv_fail:
  assumes "ramp_inv s" and "rn_work s = us @ Opened v # vs"
    and "update_withdrawal_status q (fw_id v) fiat_failed (rn_fiat s) = (None, st)"
  shows "ramp_inv (s\<lparr>rn_fiat := st, rn_work := us @ Failed v # vs\<rparr>)"
proof -
  have wf: "wf_fiat (rn_fiat s)" using assms(1) by (simp add: ramp_inv_def)
  show ?thesis
  proof (cases rule: update_withdrawal_status_cases [OF wf, of q "fw_id v" fiat_failed])
    case (2 st')
    with assms(3) have st: "wf_fiat st" "fi_deposits st = fi_deposits (rn_fiat s)"
      "\<And>j. withdrawal_status st j = (if j = fw_id v then Some fiat_failed else withdrawal_status (rn_fiat s) j)" by auto
    have none: "refund_tokens s (fw_id v) = 0" using assms(1) 2(5) by (auto simp: ramp_inv_def fiat_status_defs)
    have "credit_tokens s i = 0 \<or> credit_tokens s i = 1 \<and> claimed_row (rn_fiat s) i"
      and "refund_tokens s i = 0 \<or> refund_tokens s i = 1 \<and> withdrawal_status (rn_fiat s) i = Some fiat_failed" for i
      using assms(1) by (auto simp: ramp_inv_def)
    with none st assms(2) show ?thesis
      by (auto simp: ramp_inv_def token_defs claimed_row_def deposit_status_def)
  qed (use assms(3) in simp)
qed

lemma ramp_inv_step:
  assumes inv: "ramp_inv s" and "ramp_step D N F s s'"
  shows "ramp_inv s'"
  using assms(2)
proof cases
  case (new_deposit d q r st)
  with rows_kept_create_deposit [OF _ new_deposit(3)] inv show ?thesis
    by (intro ramp_inv_mono [OF inv]) (auto simp: token_defs ramp_inv_def)
next
  case (new_withdrawal v q r st)
  with rows_kept_create_withdrawal [OF _ new_withdrawal(3)] inv show ?thesis
    by (intro ramp_inv_mono [OF inv]) (auto simp: token_defs ramp_inv_def)
next
  case (deposit_refused q i r st)
  with rows_kept_deposit_update [of "rn_fiat s" fiat_failed q i] inv show ?thesis
    by (intro ramp_inv_mono [OF inv]) (auto simp: token_defs ramp_inv_def fiat_status_defs)
next
  case (withdrawal_closed x q i r st)
  with rows_kept_withdrawal_update [of "rn_fiat s" q i x] inv show ?thesis
    by (intro ramp_inv_mono [OF inv]) (auto simp: token_defs ramp_inv_def)
next
  case (check_deposit q rf d e)
  with inv show ?thesis by (intro ramp_inv_mono [OF inv]) (auto simp: token_defs ramp_inv_def rows_kept_refl)
next
  case (claim_won us d vs q st)
  with ramp_inv_claim [OF inv] show ?thesis by blast
next
  case (credit us d vs c S E r w)
  with inv show ?thesis by (intro ramp_inv_mono [OF inv]) (auto simp: token_defs ramp_inv_def rows_kept_refl)
next
  case (finish_deposit us x vs d y q r st)
  with rows_kept_deposit_update [of "rn_fiat s" y q "fd_id d"] inv show ?thesis
    by (intro ramp_inv_mono [OF inv]) (auto simp: token_defs ramp_inv_def fiat_status_defs)
next
  case (open_withdrawal q rf v)
  with inv show ?thesis by (intro ramp_inv_mono [OF inv]) (auto simp: token_defs ramp_inv_def rows_kept_refl)
next
  case (fail_withdrawal us v vs q st)
  with ramp_inv_fail [OF inv] show ?thesis by blast
next
  case (refund us v vs c S E r w)
  with inv show ?thesis by (intro ramp_inv_mono [OF inv]) (auto simp: token_defs ramp_inv_def rows_kept_refl)
next
  case (give_up us x vs)
  with inv show ?thesis by (intro ramp_inv_mono [OF inv]) (auto simp: token_defs ramp_inv_def rows_kept_refl)
next
  case (elsewhere w)
  with inv show ?thesis by (intro ramp_inv_mono [OF inv]) (auto simp: token_defs ramp_inv_def rows_kept_refl)
qed

lemma ramp_inv_reachable: "ramp_reachable D N F s0 s \<Longrightarrow> ramp_inv s0 \<Longrightarrow> ramp_inv s"
  by (induction rule: ramp_reachable.induct) (auto intro: ramp_inv_step)

text \<open>
  C28: whatever deliveries of the provider's webhook run at once, and wherever they die, the transfer
  service is called at most once to credit a deposit, then its row is not pending any more, and at most once
  to refund a withdrawal, then its row has failed.
\<close>

theorem deposit_credited_once:
  assumes "ramp_reachable D N F (start_ramp st w) s" and "wf_fiat st"
  shows "count_list (rn_credited s) i \<le> 1 \<and> count_list (rn_refunded s) j \<le> 1 \<and>
    (i \<in> set (rn_credited s) \<longrightarrow> claimed_row (rn_fiat s) i) \<and>
    (j \<in> set (rn_refunded s) \<longrightarrow> withdrawal_status (rn_fiat s) j = Some fiat_failed)"
proof -
  have "ramp_inv (start_ramp st w)" using assms(2) by (simp add: start_ramp_def ramp_inv_def token_defs)
  with ramp_inv_reachable [OF assms(1)] have "ramp_inv s" by blast
  then have "credit_tokens s i = 0 \<or> credit_tokens s i = 1 \<and> claimed_row (rn_fiat s) i"
    and "refund_tokens s j = 0 \<or> refund_tokens s j = 1 \<and> withdrawal_status (rn_fiat s) j = Some fiat_failed"
    by (auto simp: ramp_inv_def)
  then show ?thesis by (auto simp: token_defs count_list_0_iff)
qed

text \<open>Two deliveries of one event: both read the row, both claim it, the first one credits.\<close>

definition sample_deposit :: fiat_deposit where
  "sample_deposit = \<lparr>fd_id = ''d'', fd_wallet = ''b'', fd_provider = ''flutterwave'', fd_reference = ''DEP-1'', fd_amount = 1500,
     fd_currency = ''NGN'', fd_usdc = 1, fd_instructions = [], fd_status = fiat_pending, fd_created = 0\<rparr>"

definition sample_event :: rail_event where
  "sample_event = \<lparr>re_type = deposit_confirmed, re_reference = ''DEP-1'', re_event = ''1'', re_status = ''completed'',
     re_amount = 1500, re_currency = ''NGN''\<rparr>"

definition sample_rail :: rail where
  "sample_rail = \<lparr>rl_deposit = (\<lambda>r. Inr (''link'', dr_reference r)), rl_withdraw = (\<lambda>r. Inl (Opaque ''503'')),
     rl_webhook = (\<lambda>p s. Inr sample_event)\<rparr>"

definition sample_ramp :: fiat_service where
  "sample_ramp = \<lparr>fs_rail = sample_rail, fs_spread = 0, fs_providers = [], fs_platform = ''a'', fs_name = ''flutterwave'',
     fs_credit = ''XLM'', fs_screener = None, fs_text = (\<lambda>a. ''''), fs_fold = (\<lambda>a b. a = b)\<rparr>"

definition sample_rows :: fiat_state where
  "sample_rows = \<lparr>fi_deposits = [sample_deposit], fi_withdrawals = []\<rparr>"

lemmas sample_ramp_defs = sample_deposit_def sample_event_def sample_rail_def sample_ramp_def sample_rows_def

lemma deposit_credited_once_witness:
  "\<exists>s. ramp_reachable reference_pkg exact_numeric sample_ramp (start_ramp sample_rows empty_world) s \<and>
     count_list (rn_credited s) ''d'' = 1 \<and> claimed_row (rn_fiat s) ''d''"
proof -
  let ?R = "ramp_reachable reference_pkg exact_numeric sample_ramp (start_ramp sample_rows empty_world)"
  let ?s0 = "start_ramp sample_rows empty_world"
  let ?st = "snd (claim_deposit None ''d'' sample_rows)"
  have found: "deposit_by_reference None ''DEP-1'' sample_rows = Inr sample_deposit" "event_matches sample_ramp sample_event sample_deposit"
    "fd_status sample_deposit = fiat_pending" "fd_id sample_deposit = ''d''"
    and claim: "claim_deposit None ''d'' sample_rows = (None, ?st)"
    by (simp_all add: deposit_by_reference_def event_matches_def claim_deposit_def rows_affected_def sample_ramp_defs)
  have r1: "?R (?s0\<lparr>rn_work := [Checked sample_deposit]\<rparr>)"
    using ramp_more [OF ramp_start check_deposit, of None "''DEP-1''" ?s0 sample_deposit sample_ramp sample_event] found
    by (simp add: start_ramp_def)
  have r2: "?R (?s0\<lparr>rn_work := [Claimed sample_deposit], rn_fiat := ?st\<rparr>)"
    using ramp_more [OF r1 claim_won, of "[]" sample_deposit "[]" None ?st] found claim by (simp add: start_ramp_def)
  obtain r w where "initiate reference_pkg exact_numeric no_tenant None sample_initiate_env
      (credit_order sample_ramp sample_deposit) empty_world = (r, w)" by fastforce
  then have r3: "?R (?s0\<lparr>rn_work := [Credited sample_deposit], rn_fiat := ?st, rn_world := w, rn_credited := [''d'']\<rparr>)"
    using ramp_more [OF r2 credit, of "[]" sample_deposit "[]" no_tenant None sample_initiate_env r w] found
    by (simp add: start_ramp_def)
  have wf: "wf_fiat sample_rows" by (simp add: wf_fiat_def sample_rows_def)
  from deposit_credited_once [OF r3 wf, of "''d''" "''d''"] r3 show ?thesis
    by (intro exI [of _ "?s0\<lparr>rn_work := [Credited sample_deposit], rn_fiat := ?st, rn_world := w, rn_credited := [''d'']\<rparr>"])
      (simp add: start_ramp_def)
qed
section \<open>What a delivery does\<close>

lemma handle_deposit_event:
  assumes "rl_webhook (fs_rail F) p sg = Inr e" and "re_type e = deposit_confirmed \<or> re_type e = deposit_failed"
  shows "handle_webhook D N F c V p sg R = deposit_event D N F c V e R"
  using assms by (simp add: handle_webhook_def)

lemma handle_withdrawal_event:
  assumes "rl_webhook (fs_rail F) p sg = Inr e" and "re_type e = withdrawal_sent \<or> re_type e = withdrawal_failed"
  shows "handle_webhook D N F c V p sg R = withdrawal_event D N F c V e R"
  using assms by (auto simp: handle_webhook_def event_defs)

text \<open>A row that is not pending is left alone by every delivery of its reference.\<close>

lemma settled_deposit_ignored:
  assumes "row_with fd_reference (re_reference e) (fi_deposits (rp_fiat R)) = Some d" and "fd_status d \<noteq> fiat_pending"
  shows "snd (deposit_event D N F c V e R) = R"
  using assms by (cases "fv_q V AtRead") (simp_all add: deposit_event_def deposit_by_reference_def)

lemma settled_withdrawal_ignored:
  assumes "row_with fw_reference (re_reference e) (fi_withdrawals (rp_fiat R)) = Some v" and "fw_status v \<noteq> fiat_pending"
  shows "snd (withdrawal_event D N F c V e R) = R"
  using assms by (cases "fv_q V AtRead") (simp_all add: withdrawal_event_def withdrawal_by_reference_def)

lemma initiate_deposit_recorded:
  assumes "initiate_deposit D N F c V r R = (Inr x, R1)"
  obtains u fx a b d where "get_quote D N (fs_spread F) (fs_providers F) c (fv_fx V) (dr_currency r) (fs_credit F)
      (fs_text F (dr_amount r)) (rp_world R) (rp_fx R) = (Inr u, fx)"
    "N 20 4 (dr_amount r) = Some a" "N 20 4 (qu_to_amount u) = Some b"
    "R1 = R\<lparr>rp_fx := fx, rp_fiat := (rp_fiat R)\<lparr>fi_deposits := fi_deposits (rp_fiat R) @ [d]\<rparr>\<rparr>"
    "\<forall>y \<in> set (fi_deposits (rp_fiat R)). fd_id y \<noteq> fd_id d \<and> fd_reference y \<noteq> fd_reference d"
    "fd_reference d = dr_reference r" "fd_wallet d = dr_wallet r" "fd_amount d = a" "fd_currency d = dr_currency r"
    "fd_usdc d = b" "fd_status d = fiat_pending"
  using assms by (auto simp: initiate_deposit_def create_deposit_def Let_def split: prod.splits sum.splits option.splits if_splits)

text \<open>
  C29: a deposit request records the quoted amount, rounded to four places, and the completed event of its
  payment is accepted exactly if the requested amount has no more than four places: then the wallet is
  credited out of the platform wallet with the recorded amount and the row is completed, and if the
  transfer is refused the row is failed for good; otherwise the payment is never recognised.
\<close>

theorem paid_deposit_credited:
  assumes "initiate_deposit D N F c V r R = (Inr x, R1)" and "rl_webhook (fs_rail F) p sg = Inr e"
    and "re_type e = deposit_confirmed" and "re_reference e = dr_reference r" and "re_status e = ''completed''"
    and "re_amount e = dr_amount r" and "fs_fold F (re_currency e) (dr_currency r)"
    and "fv_q V' = (\<lambda>_. None)"
    and "initiate D N c' (fs_screener F) (fv_transfer V')
       (transfer_order_of (fs_platform F) (dr_wallet r) (fs_credit F) b '''') (rp_world R1) = (res, w)"
    and "get_quote D N (fs_spread F) (fs_providers F) c (fv_fx V) (dr_currency r) (fs_credit F) (fs_text F (dr_amount r))
       (rp_world R) (rp_fx R) = (Inr u, fx)" and "N 20 4 (qu_to_amount u) = Some b"
  shows "(N 20 4 (dr_amount r) = Some (dr_amount r) \<longrightarrow>
      (\<exists>R2. handle_webhook D N F c' V' p sg R1 = (case res of Inl y \<Rightarrow> Some (Wrap ''credit user wallet'' y) | Inr t \<Rightarrow> None, R2) \<and>
        rp_world R2 = w \<and>
        map_option fd_status (row_with fd_reference (dr_reference r) (fi_deposits (rp_fiat R2))) =
          Some (if isl res then fiat_failed else fiat_completed))) \<and>
    (N 20 4 (dr_amount r) \<noteq> Some (dr_amount r) \<longrightarrow> (\<exists>y. handle_webhook D N F c' V' p sg R1 = (Some y, R1)))"
proof -
  let ?t = "fi_deposits (rp_fiat R)"
  from assms(1) obtain a d where d: "N 20 4 (dr_amount r) = Some a"
    "R1 = R\<lparr>rp_fx := fx, rp_fiat := (rp_fiat R)\<lparr>fi_deposits := ?t @ [d]\<rparr>\<rparr>"
    "\<forall>y \<in> set ?t. fd_id y \<noteq> fd_id d \<and> fd_reference y \<noteq> fd_reference d"
    "fd_reference d = dr_reference r" "fd_wallet d = dr_wallet r" "fd_amount d = a" "fd_currency d = dr_currency r"
    "fd_usdc d = b" "fd_status d = fiat_pending"
    by (rule initiate_deposit_recorded) (use assms(10,11) in auto)
  have row: "row_with fd_reference (dr_reference r) (?t @ [x]) = Some x" if "fd_reference x = dr_reference r" for x
    using row_with_last [of ?t fd_reference x] d(3,4) that by simp
  have claim: "claim_deposit None (fd_id d) ((rp_fiat R)\<lparr>fi_deposits := ?t @ [d]\<rparr>)
      = (None, (rp_fiat R)\<lparr>fi_deposits := ?t @ [d\<lparr>fd_status := fiat_processing\<rparr>]\<rparr>)"
    using update_last [of ?t fd_id d "\<lambda>x. fd_status x = fiat_pending"] d(3,9)
      affected_last [of "\<lambda>x. fd_status x = fiat_pending" d fd_id "fd_id d" ?t]
    by (simp add: claim_deposit_def)
  have ev: "handle_webhook D N F c' V' p sg R1 = (if a = dr_amount r then
      settle_deposit D N F c' V' e d (R1\<lparr>rp_fiat := (rp_fiat R)\<lparr>fi_deposits := ?t @ [d\<lparr>fd_status := fiat_processing\<rparr>]\<rparr>\<rparr>)
      else (Some (mismatch_error F e d), R1))"
    using assms(3-8) d row [of d] claim
    by (auto simp: handle_deposit_event [OF assms(2)] deposit_event_def deposit_by_reference_def event_matches_def)
  have order: "credit_order F d = transfer_order_of (fs_platform F) (dr_wallet r) (fs_credit F) b ''''"
    using d by (simp add: credit_order_def)
  have upd: "update_deposit_status None (fd_id d) s ((rp_fiat R)\<lparr>fi_deposits := ?t @ [d\<lparr>fd_status := fiat_processing\<rparr>]\<rparr>)
      = (None, (rp_fiat R)\<lparr>fi_deposits := ?t @ [d\<lparr>fd_status := s\<rparr>]\<rparr>)" for s
    using update_last [of ?t fd_id "d\<lparr>fd_status := fiat_processing\<rparr>" "\<lambda>x. fd_status x \<notin> {fiat_completed, fiat_failed}"] d(3)
      affected_last [of "\<lambda>x. fd_status x \<notin> {fiat_completed, fiat_failed}" "d\<lparr>fd_status := fiat_processing\<rparr>" fd_id "fd_id d" ?t]
    by (simp add: update_deposit_status_def Let_def fiat_status_defs)
  have "rp_world R1 = rp_world R" using d(2) by simp
  with assms(5,8,9) d(1) ev order upd d(4) show ?thesis
    by (cases res) (auto simp: settle_deposit_def row)
qed
text \<open>A deposit of twenty at half a unit of the credit asset each.\<close>

definition fiat_pkg :: decimal_pkg where
  "fiat_pkg = reference_pkg\<lparr>d_parse := (\<lambda>s. Some (if s = ''1'' then 1 else 20))\<rparr>"

definition half_rate :: provider where
  "half_rate = \<lparr>pv_name = ''p'', pv_pairs = [''NGN-XLM'', ''XLM-NGN''], pv_rate = (\<lambda>a b. Inr (if a = ''NGN'' then 1/2 else 2))\<rparr>"

definition quoted_ramp :: fiat_service where
  "quoted_ramp = sample_ramp\<lparr>fs_providers := [half_rate],
     fs_rail := sample_rail\<lparr>rl_webhook := (\<lambda>p s. Inr (sample_event\<lparr>re_amount := 20\<rparr>))\<rparr>\<rparr>"

definition sample_fiat_env :: fiat_env where
  "sample_fiat_env = \<lparr>fv_uuid = ''d'', fv_now = 0, fv_q = (\<lambda>_. None), fv_fx = sample_fx_env\<lparr>fe_audit := False\<rparr>,
     fv_transfer = sample_initiate_env\<rparr>"

definition fiat_start :: ramp where
  "fiat_start = \<lparr>rp_world = sample_priced, rp_fiat = \<lparr>fi_deposits = [], fi_withdrawals = []\<rparr>, rp_fx = sample_fx\<rparr>"

definition sample_deposit_request :: deposit_request where
  "sample_deposit_request = \<lparr>dr_wallet = ''b'', dr_reference = ''DEP-1'', dr_amount = 20, dr_currency = ''NGN'',
     dr_email = '''', dr_name = ''''\<rparr>"

lemmas fiat_sample_defs = sample_ramp_defs fiat_pkg_def half_rate_def quoted_ramp_def sample_fiat_env_def fiat_start_def
  sample_deposit_request_def

lemma sample_fiat_quote:
  "\<exists>u fx. get_quote fiat_pkg exact_numeric 0 [half_rate] no_tenant (fv_fx sample_fiat_env) ''NGN'' ''XLM'' '''' sample_priced sample_fx
     = (Inr u, fx) \<and> qu_to_amount u = 10"
  by (simp add: get_quote_def get_rates_def cached_rate_def fetch_rate.simps rate_key_def with_spread_def store_rate_def
      fiat_sample_defs sample_fx_defs Let_def reference_pkg_def round_half_away_def floor_eq_iff)

lemma paid_deposit_credited_witness:
  "\<exists>x R1 y R2. initiate_deposit fiat_pkg exact_numeric quoted_ramp no_tenant sample_fiat_env sample_deposit_request fiat_start
       = (Inr x, R1) \<and>
     handle_webhook fiat_pkg exact_numeric quoted_ramp no_tenant sample_fiat_env ''p'' ''s'' R1 = (y, R2) \<and>
     map_option fd_status (row_with fd_reference ''DEP-1'' (fi_deposits (rp_fiat R2))) \<in> {Some fiat_failed, Some fiat_completed}"
proof -
  from sample_fiat_quote obtain u fx where q: "get_quote fiat_pkg exact_numeric (fs_spread quoted_ramp) (fs_providers quoted_ramp) no_tenant
      (fv_fx sample_fiat_env) (dr_currency sample_deposit_request) (fs_credit quoted_ramp)
      (fs_text quoted_ramp (dr_amount sample_deposit_request)) (rp_world fiat_start) (rp_fx fiat_start) = (Inr u, fx)"
    and u: "qu_to_amount u = 10" by (auto simp: fiat_sample_defs)
  have wallet: "\<exists>x \<in> set (w_wallets sample_priced). wa_id x = ''b''" by (simp add: sample_priced_def sample_defs)
  obtain x R1 where i: "initiate_deposit fiat_pkg exact_numeric quoted_ramp no_tenant sample_fiat_env sample_deposit_request fiat_start
      = (Inr x, R1)"
    using q u wallet by (simp add: initiate_deposit_def create_deposit_def Let_def fiat_sample_defs exact_numeric_def)
  obtain res w where t: "initiate fiat_pkg exact_numeric no_tenant (fs_screener quoted_ramp) (fv_transfer sample_fiat_env)
      (transfer_order_of (fs_platform quoted_ramp) (dr_wallet sample_deposit_request) (fs_credit quoted_ramp) 10 '''') (rp_world R1)
      = (res, w)" by fastforce
  from paid_deposit_credited [OF i _ _ _ _ _ _ _ t q, of "''p''" "''s''" "sample_event\<lparr>re_amount := 20\<rparr>"] u i
  show ?thesis by (cases res) (auto simp: fiat_sample_defs exact_numeric_def)
qed

lemma initiate_withdrawal_cases:
  assumes "initiate_withdrawal D N F c V r R = (res, R1)"
  obtains (unrecorded) e where "res = Inl e" "\<And>x. e \<noteq> Wrap ''rail withdraw error'' x" "rp_world R1 = rp_world R"
      "rp_fiat R1 = rp_fiat R"
  | (recorded) u fx v where "get_quote D N (fs_spread F) (fs_providers F) c (fv_fx V) (fs_credit F) (wr_currency r) ''1''
         (rp_world R) (rp_fx R) = (Inr u, fx)" "qu_rate u \<noteq> 0"
      "\<forall>x \<in> set (fi_withdrawals (rp_fiat R)). fw_id x \<noteq> fw_id v \<and> fw_reference x \<noteq> fw_reference v"
      "fw_status v = fiat_pending" "fw_reference v = wr_reference r" "fw_id v = fv_uuid V"
      "N 20 4 (d_div D (wr_amount r) (qu_rate u)) = Some (fw_usdc v)"
      "pay_withdrawal D N F c V r (fv_uuid V) (d_div D (wr_amount r) (qu_rate u)) (R\<lparr>rp_fx := fx,
         rp_fiat := (rp_fiat R)\<lparr>fi_withdrawals := fi_withdrawals (rp_fiat R) @ [v]\<rparr>\<rparr>) = (res, R1)"
proof -
  obtain q fx where q: "get_quote D N (fs_spread F) (fs_providers F) c (fv_fx V) (fs_credit F) (wr_currency r) ''1''
    (rp_world R) (rp_fx R) = (q, fx)" by fastforce
  show ?thesis
  proof (cases q)
    case (Inl e)
    with assms q show ?thesis by (intro unrecorded) (auto simp: initiate_withdrawal_def)
  next
    case (Inr u)
    show ?thesis
    proof (cases "qu_rate u = 0")
      case True
      with assms q Inr show ?thesis by (intro unrecorded) (auto simp: initiate_withdrawal_def)
    next
      case False
      define v where "v = \<lparr>fw_id = fv_uuid V, fw_wallet = wr_wallet r, fw_provider = fs_name F, fw_reference = wr_reference r,
        fw_amount = wr_amount r, fw_currency = wr_currency r, fw_usdc = d_div D (wr_amount r) (qu_rate u),
        fw_status = fiat_pending, fw_created = fv_now V\<rparr>"
      obtain x st where x: "create_withdrawal N (fv_q V AtRecord) v (rp_world R) (rp_fiat R) = (x, st)" by fastforce
      have run: "initiate_withdrawal D N F c V r R = (case x of
          Some e \<Rightarrow> (Inl (Wrap ''create withdrawal record'' e), R\<lparr>rp_fx := fx, rp_fiat := st\<rparr>)
        | None \<Rightarrow> pay_withdrawal D N F c V r (fv_uuid V) (d_div D (wr_amount r) (qu_rate u)) (R\<lparr>rp_fx := fx, rp_fiat := st\<rparr>))"
        using q Inr False x by (simp add: initiate_withdrawal_def Let_def v_def)
      from x show ?thesis
      proof (cases rule: create_withdrawal_cases)
        case (1 e)
        with run assms show ?thesis by (intro unrecorded) auto
      next
        case (2 a b)
        with run assms q Inr False show ?thesis
          by (intro recorded [of u fx "v\<lparr>fw_amount := a, fw_usdc := b\<rparr>"]) (auto simp: v_def)
      qed
    qed
  qed
qed

text \<open>
  C30: if the provider refuses a withdrawal after the debit was ordered, the caller gets an error, the debit
  stays and the row is failed, so that no later event of the provider refunds it.
\<close>

theorem refused_withdrawal_keeps_debit:
  assumes "initiate_withdrawal D N F c V r R = (Inl (Wrap ''rail withdraw error'' e), R1)"
    and "fv_q V AtFailure = None" and "wf_fiat (rp_fiat R)"
  shows "\<exists>a t. initiate D N c (fs_screener F) (fv_transfer V) (debit_order F r a) (rp_world R) = (Inr t, rp_world R1) \<and>
    (\<forall>D N F c V p sg ev. rl_webhook (fs_rail F) p sg = Inr ev \<and> (re_type ev = withdrawal_sent \<or> re_type ev = withdrawal_failed) \<and>
       re_reference ev = wr_reference r \<longrightarrow> snd (handle_webhook D N F c V p sg R1) = R1)"
  using assms(1)
proof (cases rule: initiate_withdrawal_cases)
  case (unrecorded x)
  then show ?thesis by auto
next
  case (recorded u fx v)
  let ?t = "fi_withdrawals (rp_fiat R)"
  note v = recorded(3-6) and paid = recorded(8)
  let ?a = "d_div D (wr_amount r) (qu_rate u)"
  from paid obtain t w where t: "initiate D N c (fs_screener F) (fv_transfer V) (debit_order F r ?a) (rp_world R) = (Inr t, w)"
    and R1: "R1 = R\<lparr>rp_fx := fx, rp_world := w, rp_fiat := snd (update_withdrawal_status (fv_q V AtFailure) (fv_uuid V) fiat_failed
      ((rp_fiat R)\<lparr>fi_withdrawals := ?t @ [v]\<rparr>))\<rparr>"
    by (auto simp: pay_withdrawal_def Let_def split: prod.splits sum.splits)
  have "fi_withdrawals (rp_fiat R1) = ?t @ [v\<lparr>fw_status := fiat_failed\<rparr>]"
    using R1 assms(2) v update_last [of ?t fw_id v "\<lambda>x. fw_status x = fiat_pending"]
      affected_last [of "\<lambda>x. fw_status x = fiat_pending" v fw_id "fv_uuid V" ?t]
    by (simp add: update_withdrawal_status_def)
  then have row: "row_with fw_reference (wr_reference r) (fi_withdrawals (rp_fiat R1)) = Some (v\<lparr>fw_status := fiat_failed\<rparr>)"
    using row_with_last [of ?t fw_reference "v\<lparr>fw_status := fiat_failed\<rparr>"] v by simp
  have "snd (handle_webhook D N F c V p sg R1) = R1" if "rl_webhook (fs_rail F) p sg = Inr ev"
    "re_type ev = withdrawal_sent \<or> re_type ev = withdrawal_failed" "re_reference ev = wr_reference r" for D N F c V p sg ev
    using that row by (simp add: handle_withdrawal_event settled_withdrawal_ignored fiat_status_defs)
  with t R1 show ?thesis by (intro exI [of _ ?a] exI [of _ t]) auto
qed

definition sample_withdraw_request :: withdraw_request where
  "sample_withdraw_request = \<lparr>wr_wallet = ''b'', wr_reference = ''WIT-1'', wr_amount = 20, wr_currency = ''NGN'',
     wr_bank = ''044'', wr_account = ''1''\<rparr>"

lemma sample_debit_accepted:
  "accepted (initiate fiat_pkg exact_numeric no_tenant (fs_screener quoted_ramp) (fv_transfer sample_fiat_env)
     (debit_order quoted_ramp sample_withdraw_request 10) sample_priced)"
  by code_simp

lemma sample_withdrawal_refused:
  "\<exists>R1. initiate_withdrawal fiat_pkg exact_numeric quoted_ramp no_tenant sample_fiat_env sample_withdraw_request fiat_start
     = (Inl (Wrap ''rail withdraw error'' (Opaque ''503'')), R1)"
proof -
  obtain t w where "initiate fiat_pkg exact_numeric no_tenant (fs_screener quoted_ramp) (fv_transfer sample_fiat_env)
      (debit_order quoted_ramp sample_withdraw_request 10) sample_priced = (Inr t, w)"
    using acceptedD [OF sample_debit_accepted] by blast
  moreover have "\<exists>u fx. get_quote fiat_pkg exact_numeric 0 [half_rate] no_tenant (fv_fx sample_fiat_env) ''XLM'' ''NGN'' ''1''
      sample_priced sample_fx = (Inr u, fx) \<and> qu_rate u = 2"
    by (simp add: get_quote_def get_rates_def cached_rate_def fetch_rate.simps rate_key_def with_spread_def store_rate_def
      fiat_sample_defs sample_fx_defs Let_def reference_pkg_def round_half_away_def floor_eq_iff)
  moreover have "\<exists>x \<in> set (w_wallets sample_priced). wa_id x = ''b''" by (simp add: sample_priced_def sample_defs)
  moreover have "d_div fiat_pkg 20 2 = 10" by (simp add: fiat_pkg_def reference_pkg_def round_half_away_def floor_eq_iff)
  ultimately show ?thesis
    by (auto simp: initiate_withdrawal_def pay_withdrawal_def create_withdrawal_def Let_def quoted_ramp_def sample_ramp_def sample_rail_def
        sample_withdraw_request_def fiat_start_def sample_fiat_env_def exact_numeric_def)
qed
lemma refused_withdrawal_keeps_debit_witness:
  "\<exists>R1 a t. initiate_withdrawal fiat_pkg exact_numeric quoted_ramp no_tenant sample_fiat_env sample_withdraw_request fiat_start
       = (Inl (Wrap ''rail withdraw error'' (Opaque ''503'')), R1) \<and>
     initiate fiat_pkg exact_numeric no_tenant (fs_screener quoted_ramp) (fv_transfer sample_fiat_env)
       (debit_order quoted_ramp sample_withdraw_request a) sample_priced = (Inr t, rp_world R1)"
proof -
  obtain R1 where run: "initiate_withdrawal fiat_pkg exact_numeric quoted_ramp no_tenant sample_fiat_env sample_withdraw_request fiat_start
     = (Inl (Wrap ''rail withdraw error'' (Opaque ''503'')), R1)" using sample_withdrawal_refused by blast
  have wf: "wf_fiat (rp_fiat fiat_start)" by (simp add: fiat_start_def wf_fiat_def)
  have q: "fv_q sample_fiat_env AtFailure = None" by (simp add: sample_fiat_env_def)
  from refused_withdrawal_keeps_debit [OF run q wf] run show ?thesis by (auto simp: fiat_start_def)
qed

text \<open>
  A tenant that cannot see the platform wallet cannot withdraw: the request is recorded, nothing is
  debited, and the provider is not asked.
\<close>

theorem tenant_cannot_withdraw:
  assumes "get_wallet c None (fs_platform F) (rp_world R) = Inl (Dom ErrWalletNotFound)" and "fs_platform F \<noteq> ''''"
  shows "\<exists>e R1. initiate_withdrawal D N F c V r R = (Inl e, R1) \<and> rp_world R1 = rp_world R \<and>
    (\<forall>x. e \<noteq> Wrap ''rail withdraw error'' x)"
proof -
  have unseen: "\<exists>e. get_wallet c q (fs_platform F) (rp_world R) = Inl e" for q
    using assms(1) by (cases q) (auto simp: get_wallet_def)
  have debit: "\<exists>e. initiate D N c (fs_screener F) (fv_transfer V) (debit_order F r a) (rp_world R) = (Inl e, rp_world R)" for a
  proof -
    obtain e where e: "get_wallet c (ie_dst_q (fv_transfer V)) (fs_platform F) (rp_world R) = Inl e" using unseen by blast
    then show ?thesis
      by (cases "get_wallet c (ie_src_q (fv_transfer V)) (wr_wallet r) (rp_world R)")
        (use assms(2) in \<open>auto simp: initiate_def debit_order_def transfer_order_of_def Let_def\<close>)
  qed
  obtain res R1 where run: "initiate_withdrawal D N F c V r R = (res, R1)" by fastforce
  then show ?thesis
  proof (cases rule: initiate_withdrawal_cases)
    case (recorded u fx v)
    obtain e where "initiate D N c (fs_screener F) (fv_transfer V) (debit_order F r (d_div D (wr_amount r) (qu_rate u))) (rp_world R)
        = (Inl e, rp_world R)" using debit by blast
    with recorded(8) run show ?thesis by (auto simp: pay_withdrawal_def Let_def)
  qed (use run in auto)
qed

lemma tenant_cannot_withdraw_witness:
  "\<exists>e R1. initiate_withdrawal fiat_pkg exact_numeric quoted_ramp \<lparr>cx_tenant = ''two'', cx_user = ''''\<rparr> sample_fiat_env
       (sample_withdraw_request) (fiat_start\<lparr>rp_world := fx_world\<rparr>) = (Inl e, R1) \<and> rp_world R1 = fx_world"
  using tenant_cannot_withdraw [of "\<lparr>cx_tenant = ''two'', cx_user = ''''\<rparr>" quoted_ramp "fiat_start\<lparr>rp_world := fx_world\<rparr>"
      fiat_pkg exact_numeric sample_fiat_env sample_withdraw_request]
  by (auto simp: get_wallet_def in_scope_def fiat_sample_defs sample_fx_defs)

end
