(* ===== verification/Rails.thy ===== *)
theory Rails
  imports Fiat Signature Stellar Xdc
begin

text \<open>
  The payment providers behind the fiat ramp: \<^verbatim>\<open>fiat/rail.go\<close>, \<^verbatim>\<open>fiat/flutterwave\<close>, \<^verbatim>\<open>fiat/stripe\<close> and
  \<^verbatim>\<open>fiat/yellowcard\<close>. What the providers answer over HTTP is a parameter, already decoded; the model is how the
  code asks, which answers it takes, and how it turns a webhook into an event of the ramp.
\<close>

section \<open>The adapter\<close>

text \<open>
  An answer over HTTP: no answer, or the status code, the text an error message is made of, and the
  decoded body.
\<close>

type_synonym 'a http = "err + int \<times> string \<times> (err + 'a)"

text \<open>
  A provider as its answers: the reference and the instructions of a deposit, the reference and the status
  of a withdrawal. The headers of a webhook are a function, \<open>''''\<close> for a missing one.
\<close>

record fiat_provider =
  fp_deposit :: "deposit_request \<Rightarrow> err + string \<times> (string \<rightharpoonup> string)"
  fp_withdraw :: "withdraw_request \<Rightarrow> err + string \<times> string"
  fp_webhook :: "string \<Rightarrow> (string \<Rightarrow> string) \<Rightarrow> err + rail_event"

definition adapter_headers :: "string \<Rightarrow> string \<Rightarrow> string" where
  "adapter_headers signature = (\<lambda>h. if h = ''verif-hash'' then signature else '''')"

definition rail_adapter :: "fiat_provider \<Rightarrow> rail" where
  "rail_adapter p =
     \<lparr>rl_deposit = (\<lambda>r. case fp_deposit p r of Inl e \<Rightarrow> Inl (Wrap ''initiate deposit'' e)
        | Inr (rf, ins) \<Rightarrow> Inr (case ins ''payment_link'' of None \<Rightarrow> '''' | Some l \<Rightarrow> l, rf)),
      rl_withdraw = (\<lambda>r. case fp_withdraw p r of Inl e \<Rightarrow> Inl (Wrap ''initiate withdrawal'' e) | Inr x \<Rightarrow> Inr x),
      rl_webhook = (\<lambda>payload signature. fp_webhook p payload (adapter_headers signature))\<rparr>"

section \<open>Flutterwave\<close>

record flutterwave =
  fl_secret :: string
  fl_hash :: string
  fl_mock_base :: string

record flutter_payload =
  fl_event :: string
  fl_id :: string
  fl_tx_ref :: string
  fl_status :: string
  fl_amount :: decimal      \<comment> \<open>\<^verbatim>\<open>NewFromFloat\<close> of the number in the payload\<close>
  fl_reference :: string
  fl_currency :: string

record flutter_answers =
  fa_payment :: "deposit_request \<Rightarrow> string http"
  fa_transfer :: "withdraw_request \<Rightarrow> (string \<times> string) http"
  fa_status :: "string \<Rightarrow> err + (err + string)"
  fa_payload :: "string \<Rightarrow> err + flutter_payload"

definition flutter_mock :: "flutterwave \<Rightarrow> bool" where
  "flutter_mock p \<longleftrightarrow> fl_secret p = ''mock'' \<or> fl_secret p = ''''"

record fiat_quote =
  fq_provider :: string
  fq_amount :: decimal
  fq_currency :: string
  fq_usdc :: decimal
  fq_rate :: decimal
  fq_fee :: decimal
  fq_expires :: go_time

definition flutter_quote ::
  "decimal_pkg \<Rightarrow> flutterwave \<Rightarrow> go_time \<Rightarrow> decimal \<Rightarrow> string \<Rightarrow> err + fiat_quote" where
  "flutter_quote D p now a currency =
     (if flutter_mock p then Inr \<lparr>fq_provider = ''flutterwave'', fq_amount = a, fq_currency = currency,
        fq_usdc = d_div D a 1500, fq_rate = 1500, fq_fee = 0, fq_expires = now + 30 * second\<rparr>
      else Inl (Opaque ''flutterwave: GetQuote not yet implemented for production''))"

definition flutter_deposit ::
  "(decimal \<Rightarrow> string) \<Rightarrow> flutterwave \<Rightarrow> flutter_answers \<Rightarrow> deposit_request \<Rightarrow> err + string \<times> (string \<rightharpoonup> string)" where
  "flutter_deposit txt p A r =
     (if flutter_mock p then
        (let base = (if fl_mock_base p = '''' then ''http://localhost:3001'' else fl_mock_base p) in
         Inr (dr_reference r, [''payment_link'' \<mapsto> base @ ''/fiat/pay?ref='' @ dr_reference r @ ''&amount='' @ txt (dr_amount r)
           @ ''&currency='' @ dr_currency r]))
      else case fa_payment A r of Inl e \<Rightarrow> Inl (Wrap ''flutterwave deposit api'' e)
      | Inr (code, body, link) \<Rightarrow>
        if code \<noteq> 200 then Inl (Opaque (''unexpected status from flutterwave: '' @ format_int code))
        else (case link of Inl e \<Rightarrow> Inl e | Inr l \<Rightarrow> Inr (dr_reference r, [''payment_link'' \<mapsto> l])))"

text \<open>With a test key a withdrawal is answered as completed without asking the provider.\<close>

definition flutter_withdraw :: "flutterwave \<Rightarrow> flutter_answers \<Rightarrow> withdraw_request \<Rightarrow> err + string \<times> string" where
  "flutter_withdraw p A r =
     (if flutter_mock p \<or> contains_text (fl_secret p) ''TEST'' then Inr (wr_reference r, ''completed'')
      else case fa_transfer A r of Inl e \<Rightarrow> Inl (Wrap ''flutterwave withdraw api'' e)
      | Inr (code, body, x) \<Rightarrow>
        if code \<noteq> 200 then Inl (Opaque (''flutterwave transfer failed ('' @ format_int code @ ''): '' @ body)) else x)"

definition flutter_get_status :: "flutter_answers \<Rightarrow> string \<Rightarrow> err + rail_event" where
  "flutter_get_status A rf =
     (case fa_status A rf of Inl e \<Rightarrow> Inl (Wrap ''flutterwave get status'' e)
      | Inr (Inl e) \<Rightarrow> Inl e
      | Inr (Inr s) \<Rightarrow> Inr \<lparr>re_type = '''', re_reference = rf, re_event = '''',
          re_status = (if s = ''successful'' then ''completed'' else ''failed''), re_amount = 0, re_currency = ''''\<rparr>)"

definition verify_flutter_signature :: "flutterwave \<Rightarrow> (string \<Rightarrow> string) \<Rightarrow> err option" where
  "verify_flutter_signature p headers =
     (if fl_hash p = ''mock'' then None
      else if fl_hash p = '''' then Some (Opaque ''flutterwave webhook secret is not configured'')
      else if headers ''verif-hash'' = '''' then Some (Opaque ''missing webhook signature header'')
      else if headers ''verif-hash'' \<noteq> fl_hash p then Some (Opaque ''invalid webhook signature'') else None)"

definition map_flutter_status :: "string \<Rightarrow> err + string" where
  "map_flutter_status s =
     (if s = ''successful'' then Inr ''completed''
      else if s = ''failed'' \<or> s = ''cancelled'' then Inr ''failed''
      else Inl (Opaque (''unsupported or non-final webhook status: '' @ s)))"

definition flutter_webhook ::
  "flutterwave \<Rightarrow> flutter_answers \<Rightarrow> string \<Rightarrow> (string \<Rightarrow> string) \<Rightarrow> err + rail_event" where
  "flutter_webhook p A payload headers =
     (case verify_flutter_signature p headers of Some e \<Rightarrow> Inl e
      | None \<Rightarrow> (case fa_payload A payload of Inl e \<Rightarrow> Inl (Wrap ''parse webhook payload'' e)
        | Inr d \<Rightarrow>
          (let rf = (if fl_tx_ref d = '''' then fl_reference d else fl_tx_ref d) in
           if rf = '''' then Inl (Opaque ''webhook payload is missing a transaction reference'')
           else case map_flutter_status (fl_status d) of Inl e \<Rightarrow> Inl e
           | Inr s \<Rightarrow> Inr \<lparr>re_type = (if fl_event d = ''charge.completed'' then deposit_confirmed
                else if fl_event d = ''transfer.completed'' then withdrawal_sent else fl_event d),
               re_reference = rf, re_event = fl_id d, re_status = s, re_amount = fl_amount d, re_currency = fl_currency d\<rparr>)))"

definition flutter_provider :: "(decimal \<Rightarrow> string) \<Rightarrow> flutterwave \<Rightarrow> flutter_answers \<Rightarrow> fiat_provider" where
  "flutter_provider txt p A = \<lparr>fp_deposit = flutter_deposit txt p A, fp_withdraw = flutter_withdraw p A,
     fp_webhook = flutter_webhook p A\<rparr>"

section \<open>Stripe\<close>

record stripe_rail =
  st_key :: string
  st_webhook_secret :: string
  st_success :: string

definition stripe_success_url :: "string \<Rightarrow> string" where
  "stripe_success_url u = (if u = '''' then ''http://localhost:3001/wallets?deposit=success'' else u)"

record checkout_params =
  cp_reference :: string
  cp_success :: string
  cp_cancel :: string
  cp_currency :: string
  cp_units :: int
  cp_name :: string
  cp_email :: string

record checkout_session =
  ks_id :: string
  ks_reference :: string
  ks_payment :: string
  ks_total :: int
  ks_currency :: string

record connect_transfer =
  kt_id :: string
  kt_group :: string
  kt_amount :: int
  kt_currency :: string

text \<open>A verified event: its type, and its object decoded as a session and as a transfer.\<close>

record stripe_event =
  ke_type :: string
  ke_session :: "err + checkout_session"
  ke_transfer :: "err + connect_transfer"

text \<open>
  \<open>sa_int\<close> is \<^verbatim>\<open>Decimal.IntPart\<close>, an int64: the integer part where it fits. \<open>sa_transfer\<close> is asked with
  the amount, the currency, the destination and the group.
\<close>

record stripe_answers =
  sa_int :: "decimal \<Rightarrow> int"
  sa_session :: "checkout_params \<Rightarrow> err + string"
  sa_transfer :: "int \<Rightarrow> string \<Rightarrow> string \<Rightarrow> string \<Rightarrow> err + string"
  sa_event :: "string \<Rightarrow> string \<Rightarrow> string \<Rightarrow> err + stripe_event"

definition int_part_doc :: "(decimal \<Rightarrow> int) \<Rightarrow> bool" where
  "int_part_doc f \<longleftrightarrow> (\<forall>a. - (2 ^ 63) \<le> big_int a \<and> big_int a < 2 ^ 63 \<longrightarrow> f a = big_int a)"

definition lower_ascii :: "string \<Rightarrow> string" where
  "lower_ascii s = map (\<lambda>c. let b = of_char c :: nat in if 65 \<le> b \<and> b \<le> 90 then char_of (b + 32) else c) s"

definition upper_ascii :: "string \<Rightarrow> string" where
  "upper_ascii s = map (\<lambda>c. let b = of_char c :: nat in if 97 \<le> b \<and> b \<le> 122 then char_of (b - 32) else c) s"

definition stripe_units :: "stripe_answers \<Rightarrow> (decimal \<Rightarrow> string) \<Rightarrow> decimal \<Rightarrow> string \<Rightarrow> err + int" where
  "stripe_units A txt a currency =
     (let u = sa_int A (a * 100) in
      if u \<le> 0 then Inl (Opaque (''stripe: fiat amount '' @ txt a @ '' too small for '' @ currency)) else Inr u)"

definition checkout_of :: "stripe_rail \<Rightarrow> deposit_request \<Rightarrow> int \<Rightarrow> checkout_params" where
  "checkout_of p r u =
     \<lparr>cp_reference = dr_reference r, cp_success = st_success p @ ''&ref='' @ dr_reference r,
      cp_cancel = ''http://localhost:3001/fiat?deposit=cancelled'', cp_currency = lower_ascii (dr_currency r), cp_units = u,
      cp_name = ''FlowX wallet deposit ('' @ dr_wallet r @ '')'', cp_email = dr_email r\<rparr>"

definition stripe_deposit ::
  "stripe_rail \<Rightarrow> stripe_answers \<Rightarrow> (decimal \<Rightarrow> string) \<Rightarrow> deposit_request \<Rightarrow> err + deposit_response" where
  "stripe_deposit p A txt r =
     (if st_key p = '''' then Inl (Opaque ''stripe: STRIPE_SECRET_KEY not configured'')
      else case stripe_units A txt (dr_amount r) (dr_currency r) of Inl e \<Rightarrow> Inl e
      | Inr u \<Rightarrow> (case sa_session A (checkout_of p r u) of
          Inl e \<Rightarrow> Inl (Wrap ''stripe: create checkout session'' e) | Inr url \<Rightarrow> Inr (url, dr_reference r)))"

definition stripe_withdraw ::
  "stripe_rail \<Rightarrow> stripe_answers \<Rightarrow> (decimal \<Rightarrow> string) \<Rightarrow> withdraw_request \<Rightarrow> err + withdraw_response" where
  "stripe_withdraw p A txt r =
     (if st_key p = '''' then Inl (Opaque ''stripe: STRIPE_SECRET_KEY not configured'')
      else if wr_account r = '''' then Inl (Opaque ''stripe: withdrawal requires a destination connected account'')
      else case stripe_units A txt (wr_amount r) (wr_currency r) of Inl e \<Rightarrow> Inl e
      | Inr u \<Rightarrow> (case sa_transfer A u (lower_ascii (wr_currency r)) (wr_account r) (wr_reference r) of
          Inl e \<Rightarrow> Inl (Wrap ''stripe: create transfer'' e) | Inr i \<Rightarrow> Inr (i, ''completed'')))"

definition session_event :: "decimal_pkg \<Rightarrow> string \<Rightarrow> string \<Rightarrow> checkout_session \<Rightarrow> rail_event" where
  "session_event D t st s = \<lparr>re_type = t, re_reference = ks_reference s, re_event = ks_id s, re_status = st,
     re_amount = d_div D (of_int (ks_total s)) 100, re_currency = upper_ascii (ks_currency s)\<rparr>"

definition transfer_event :: "decimal_pkg \<Rightarrow> string \<Rightarrow> string \<Rightarrow> connect_transfer \<Rightarrow> rail_event" where
  "transfer_event D t st x = \<lparr>re_type = t, re_reference = kt_group x, re_event = kt_id x, re_status = st,
     re_amount = d_div D (of_int (kt_amount x)) 100, re_currency = upper_ascii (kt_currency x)\<rparr>"

definition stripe_session_of :: "stripe_event \<Rightarrow> err + checkout_session" where
  "stripe_session_of e =
     (case ke_session e of Inl x \<Rightarrow> Inl (Wrap ''stripe: decode session'' x)
      | Inr s \<Rightarrow> if ks_reference s = '''' then Inl (Opaque (''stripe: session '' @ ks_id s @ '' has no client_reference_id'')) else Inr s)"

definition stripe_webhook ::
  "decimal_pkg \<Rightarrow> stripe_rail \<Rightarrow> stripe_answers \<Rightarrow> string \<Rightarrow> string \<Rightarrow> err + rail_event" where
  "stripe_webhook D p A payload signature =
     (if st_webhook_secret p = '''' then Inl (Opaque ''stripe: STRIPE_WEBHOOK_SECRET not configured'')
      else case sa_event A payload signature (st_webhook_secret p) of Inl e \<Rightarrow> Inl (Wrap ''stripe: webhook signature'' e)
      | Inr e \<Rightarrow>
        if ke_type e = ''checkout.session.completed'' then
          (case stripe_session_of e of Inl x \<Rightarrow> Inl x
           | Inr s \<Rightarrow> if ks_payment s \<noteq> ''paid'' then Inl (Opaque (''stripe: session '' @ ks_id s @ '' payment status '' @ ks_payment s))
               else Inr (session_event D deposit_confirmed ''completed'' s))
        else if ke_type e = ''checkout.session.async_payment_failed'' \<or> ke_type e = ''checkout.session.expired'' then
          map_sum id (session_event D deposit_failed ''failed'') (stripe_session_of e)
        else if ke_type e = ''transfer.paid'' then
          map_sum (Wrap ''stripe: decode transfer'') (transfer_event D withdrawal_sent ''completed'') (ke_transfer e)
        else if ke_type e = ''transfer.failed'' then
          map_sum (Wrap ''stripe: decode transfer'') (transfer_event D withdrawal_failed ''failed'') (ke_transfer e)
        else Inl (Opaque (''stripe: unhandled event type '' @ ke_type e)))"

definition stripe_as_rail :: "decimal_pkg \<Rightarrow> (decimal \<Rightarrow> string) \<Rightarrow> stripe_rail \<Rightarrow> stripe_answers \<Rightarrow> rail" where
  "stripe_as_rail D txt p A = \<lparr>rl_deposit = stripe_deposit p A txt, rl_withdraw = stripe_withdraw p A txt,
     rl_webhook = stripe_webhook D p A\<rparr>"
section \<open>Yellow Card\<close>

text \<open>The provider is written but not wired into the API.\<close>

record yellowcard =
  yc_webhook_key :: string
  yc_hmac :: "string \<Rightarrow> string \<Rightarrow> string"   \<comment> \<open>HMAC-SHA256 by key and payload\<close>
  yc_time :: "string \<Rightarrow> go_time option"      \<comment> \<open>\<^verbatim>\<open>time.Parse(time.RFC3339, s)\<close>\<close>

record yc_rate =
  yr_rate :: string
  yr_fee :: string
  yr_source :: string
  yr_dest :: string
  yr_expires :: string

record yc_payment =
  yp_id :: string
  yp_instructions :: "(string \<times> string) list"   \<comment> \<open>the seven fields of the instructions, by name\<close>
  yp_link :: string

record yc_object =
  yo_id :: string
  yo_reference :: string
  yo_type :: string
  yo_status :: string
  yo_amount :: string
  yo_currency :: string

record yc_request =
  yq_amount :: string
  yq_source :: string
  yq_dest :: string
  yq_reference :: string
  yq_method :: string
  yq_details :: "(string \<times> string) list"

record yc_answers =
  ya_rate :: "yc_request \<Rightarrow> yc_rate http"
  ya_payment :: "yc_request \<Rightarrow> yc_payment http"
  ya_payout :: "yc_request \<Rightarrow> (string \<times> string) http"
  ya_status :: "string \<Rightarrow> yc_object http"
  ya_payload :: "string \<Rightarrow> err + string \<times> yc_object"

definition yc_decimal :: "decimal_pkg \<Rightarrow> string \<Rightarrow> decimal" where
  "yc_decimal D s = (case d_parse D s of None \<Rightarrow> 0 | Some a \<Rightarrow> a)"

definition yc_answer :: "string \<Rightarrow> string \<Rightarrow> string \<Rightarrow> int list \<Rightarrow> 'a http \<Rightarrow> err + 'a" where
  "yc_answer what refused parse ok h =
     (case h of Inl e \<Rightarrow> Inl (Wrap (''yellowcard '' @ what) e)
      | Inr (code, body, x) \<Rightarrow>
        if code \<notin> set ok then Inl (Opaque (''yellowcard '' @ refused @ '' error (status '' @ format_int code @ ''): '' @ body))
        else (case x of Inl e \<Rightarrow> Inl (Wrap (''parse yellowcard '' @ parse @ '' response'') e) | Inr y \<Rightarrow> Inr y))"

definition yc_quote ::
  "decimal_pkg \<Rightarrow> yellowcard \<Rightarrow> yc_answers \<Rightarrow> go_time \<Rightarrow> string \<Rightarrow> decimal \<Rightarrow> string \<Rightarrow> err + fiat_quote" where
  "yc_quote D p A now currency a country =
     (case yc_answer ''get quote'' ''rate'' ''rate'' [200] (ya_rate A \<lparr>yq_amount = d_fixed D a 2, yq_source = currency, yq_dest = ''USDC'',
          yq_reference = '''', yq_method = ''sell'', yq_details = [(''country'', country)]\<rparr>) of
        Inl e \<Rightarrow> Inl e
      | Inr r \<Rightarrow> Inr \<lparr>fq_provider = ''yellowcard'', fq_amount = yc_decimal D (yr_source r), fq_currency = currency,
          fq_usdc = yc_decimal D (yr_dest r), fq_rate = yc_decimal D (yr_rate r), fq_fee = yc_decimal D (yr_fee r),
          fq_expires = (if yr_expires r = '''' then now + 30 * second
            else case yc_time p (yr_expires r) of None \<Rightarrow> now + 30 * second | Some t \<Rightarrow> t)\<rparr>)"

definition yc_deposit ::
  "decimal_pkg \<Rightarrow> yc_answers \<Rightarrow> string \<Rightarrow> deposit_request \<Rightarrow> err + string \<times> (string \<rightharpoonup> string)" where
  "yc_deposit D A uuid r =
     (let rf = (if dr_reference r = '''' then ''DEP-'' @ uuid else dr_reference r) in
      case yc_answer ''initiate deposit'' ''deposit'' ''payment'' [200, 201] (ya_payment A \<lparr>yq_amount = d_fixed D (dr_amount r) 2,
          yq_source = dr_currency r, yq_dest = ''USDC'', yq_reference = rf, yq_method = '''',
          yq_details = [(''email'', dr_email r), (''customer_name'', dr_name r)]\<rparr>) of
        Inl e \<Rightarrow> Inl e
      | Inr y \<Rightarrow> Inr (yp_id y, map_of (filter (\<lambda>x. snd x \<noteq> '''') ((''payment_link'', yp_link y) # yp_instructions y))))"

definition yc_payout_status :: "string \<Rightarrow> string" where
  "yc_payout_status s =
     (if s \<in> {''completed'', ''sent'', ''successful''} then ''completed''
      else if s \<in> {''failed'', ''cancelled'', ''reversed''} then ''failed'' else ''pending'')"

definition yc_withdraw :: "decimal_pkg \<Rightarrow> yc_answers \<Rightarrow> string \<Rightarrow> withdraw_request \<Rightarrow> err + string \<times> string" where
  "yc_withdraw D A uuid r =
     (let rf = (if wr_reference r = '''' then ''WIT-'' @ uuid else wr_reference r);
          bank = (wr_bank r \<noteq> '''' \<and> wr_account r \<noteq> '''') in
      case yc_answer ''initiate withdrawal'' ''payout'' ''payout'' [200, 201] (ya_payout A \<lparr>yq_amount = d_fixed D (wr_amount r) 2,
          yq_source = ''USDC'', yq_dest = wr_currency r, yq_reference = rf,
          yq_method = (if bank then ''bank'' else ''mobile_money''),
          yq_details = (if bank then [(''bank_code'', wr_bank r), (''account_number'', wr_account r)]
            else [(''mobile_money'', wr_account r), (''network'', wr_bank r)])\<rparr>) of
        Inl e \<Rightarrow> Inl e | Inr (i, s) \<Rightarrow> Inr (i, yc_payout_status s))"

definition yc_get_status :: "decimal_pkg \<Rightarrow> yc_answers \<Rightarrow> string \<Rightarrow> err + rail_event" where
  "yc_get_status D A rf =
     (case yc_answer ''get status'' ''status'' ''status'' [200] (ya_status A rf) of Inl e \<Rightarrow> Inl e
      | Inr y \<Rightarrow>
        (let s = (if yo_status y \<in> {''completed'', ''sent'', ''successful''} then ''completed''
                  else if yo_status y \<in> {''pending'', ''processing''} then ''pending'' else ''failed'') in
         Inr \<lparr>re_type = (if yo_type y \<in> {''payment'', ''deposit''} then (if s = ''completed'' then deposit_confirmed else deposit_failed)
               else if yo_type y \<in> {''payout'', ''withdrawal''} then (if s = ''completed'' then withdrawal_sent else withdrawal_failed)
               else ''''),
             re_reference = yo_id y, re_event = '''', re_status = s, re_amount = yc_decimal D (yo_amount y),
             re_currency = yo_currency y\<rparr>))"

text \<open>The signature is only looked at if the request has one.\<close>

definition yc_event_type :: "string \<Rightarrow> string" where
  "yc_event_type e =
     (let has = (\<lambda>a b. contains_text e a \<or> contains_text e b) in
      if has ''payment.completed'' ''deposit.completed'' then deposit_confirmed
      else if has ''payment.failed'' ''deposit.failed'' then deposit_failed
      else if has ''payout.completed'' ''withdrawal.completed'' then withdrawal_sent
      else if has ''payout.failed'' ''withdrawal.failed'' then withdrawal_failed else e)"

definition yc_webhook ::
  "decimal_pkg \<Rightarrow> yellowcard \<Rightarrow> yc_answers \<Rightarrow> string \<Rightarrow> (string \<Rightarrow> string) \<Rightarrow> err + rail_event" where
  "yc_webhook D p A payload headers =
     (let sg = headers ''x-yellowcard-signature'' in
      if yc_webhook_key p \<noteq> '''' \<and> sg \<noteq> '''' \<and> sg \<noteq> hex_encode (yc_hmac p (yc_webhook_key p) payload)
      then Inl (Opaque ''invalid webhook signature'')
      else case ya_payload A payload of Inl e \<Rightarrow> Inl (Wrap ''parse yellowcard webhook payload'' e)
      | Inr (e, d) \<Rightarrow> Inr \<lparr>re_type = yc_event_type e, re_reference = (if yo_reference d = '''' then yo_id d else yo_reference d),
          re_event = '''', re_status = (if yo_status d \<in> {''completed'', ''sent'', ''successful''} then ''completed'' else ''failed''),
          re_amount = yc_decimal D (yo_amount d), re_currency = yo_currency d\<rparr>)"

definition yc_provider :: "decimal_pkg \<Rightarrow> yellowcard \<Rightarrow> yc_answers \<Rightarrow> string \<Rightarrow> fiat_provider" where
  "yc_provider D p A uuid = \<lparr>fp_deposit = yc_deposit D A uuid, fp_withdraw = yc_withdraw D A uuid, fp_webhook = yc_webhook D p A\<rparr>"

section \<open>Which webhooks move money\<close>

text \<open>
  A webhook of Flutterwave becomes an event only with the configured hash in its header, or with any
  header at all if that hash is \<^verbatim>\<open>mock\<close>; its status is final, and it has a reference. A charge confirms a
  deposit, a transfer closes a withdrawal.
\<close>

theorem flutter_event_authentic:
  assumes "rl_webhook (rail_adapter (flutter_provider txt p A)) payload signature = Inr e"
  shows "(fl_hash p = ''mock'' \<or> signature = fl_hash p \<and> signature \<noteq> '''') \<and> re_reference e \<noteq> '''' \<and>
    (\<exists>d. fa_payload A payload = Inr d \<and> re_amount e = fl_amount d \<and> re_currency e = fl_currency d \<and>
       (re_status e = ''completed'' \<longleftrightarrow> fl_status d = ''successful'') \<and>
       (re_status e = ''failed'' \<longleftrightarrow> fl_status d \<in> {''failed'', ''cancelled''}) \<and> re_status e \<in> {''completed'', ''failed''} \<and>
       (fl_event d = ''charge.completed'' \<longrightarrow> re_type e = deposit_confirmed) \<and>
       (fl_event d = ''transfer.completed'' \<longrightarrow> re_type e = withdrawal_sent))"
proof -
  from assms have w: "flutter_webhook p A payload (adapter_headers signature) = Inr e"
    by (simp add: rail_adapter_def flutter_provider_def)
  then have "verify_flutter_signature p (adapter_headers signature) = None"
    by (auto simp: flutter_webhook_def split: option.splits)
  then have "fl_hash p = ''mock'' \<or> signature = fl_hash p \<and> signature \<noteq> ''''"
    by (auto simp: verify_flutter_signature_def adapter_headers_def split: if_splits)
  moreover have "re_reference e \<noteq> ''''" and "\<exists>d. fa_payload A payload = Inr d \<and> re_amount e = fl_amount d \<and> re_currency e = fl_currency d \<and>
       (re_status e = ''completed'' \<longleftrightarrow> fl_status d = ''successful'') \<and>
       (re_status e = ''failed'' \<longleftrightarrow> fl_status d \<in> {''failed'', ''cancelled''}) \<and> re_status e \<in> {''completed'', ''failed''} \<and>
       (fl_event d = ''charge.completed'' \<longrightarrow> re_type e = deposit_confirmed) \<and>
       (fl_event d = ''transfer.completed'' \<longrightarrow> re_type e = withdrawal_sent)"
    using w by (auto simp: flutter_webhook_def map_flutter_status_def Let_def split: option.splits sum.splits if_splits)
  ultimately show ?thesis by blast
qed

definition sample_flutter :: flutterwave where
  "sample_flutter = \<lparr>fl_secret = ''FLWSECK'', fl_hash = ''h'', fl_mock_base = ''''\<rparr>"

definition sample_charge :: flutter_payload where
  "sample_charge = \<lparr>fl_event = ''charge.completed'', fl_id = ''1'', fl_tx_ref = ''DEP-1'', fl_status = ''successful'',
     fl_amount = 1500, fl_reference = '''', fl_currency = ''NGN''\<rparr>"

definition sample_flutter_answers :: flutter_answers where
  "sample_flutter_answers = \<lparr>fa_payment = (\<lambda>r. Inr (200, '''', Inr ''link'')), fa_transfer = (\<lambda>r. Inr (200, '''', Inr (''r'', ''NEW''))),
     fa_status = (\<lambda>r. Inr (Inr ''successful'')), fa_payload = (\<lambda>s. Inr sample_charge)\<rparr>"

lemmas sample_flutter_defs = sample_flutter_def sample_charge_def sample_flutter_answers_def

lemma flutter_event_authentic_witness:
  "\<exists>e. rl_webhook (rail_adapter (flutter_provider (\<lambda>a. '''') sample_flutter sample_flutter_answers)) ''p'' ''h'' = Inr e \<and>
     re_amount e = 1500 \<and> re_type e = deposit_confirmed"
proof -
  obtain e where e: "rl_webhook (rail_adapter (flutter_provider (\<lambda>a. '''') sample_flutter sample_flutter_answers)) ''p'' ''h'' = Inr e"
    by (simp add: rail_adapter_def flutter_provider_def flutter_webhook_def verify_flutter_signature_def adapter_headers_def
        map_flutter_status_def sample_flutter_defs)
  with flutter_event_authentic [OF e] show ?thesis by (auto simp: sample_flutter_defs)
qed

text \<open>
  Behind the adapter the signature of Yellow Card is never checked: whatever key is configured and
  whatever signature a request has, a payload that parses becomes an event.
\<close>

theorem yellowcard_unsigned_event:
  assumes "ya_payload A payload = Inr (ev, d)"
  shows "\<exists>e. rl_webhook (rail_adapter (yc_provider D p A uuid)) payload signature = Inr e \<and> re_type e = yc_event_type ev \<and>
    re_amount e = yc_decimal D (yo_amount d) \<and> re_reference e = (if yo_reference d = '''' then yo_id d else yo_reference d)"
  using assms by (simp add: rail_adapter_def yc_provider_def yc_webhook_def adapter_headers_def)

lemma yellowcard_unsigned_event_witness:
  "\<exists>e. rl_webhook (rail_adapter (yc_provider fiat_pkg \<lparr>yc_webhook_key = ''k'', yc_hmac = (\<lambda>k m. m), yc_time = Map.empty\<rparr>
     \<lparr>ya_rate = (\<lambda>r. Inl (Opaque '''')), ya_payment = (\<lambda>r. Inl (Opaque '''')), ya_payout = (\<lambda>r. Inl (Opaque '''')),
      ya_status = (\<lambda>r. Inl (Opaque '''')), ya_payload = (\<lambda>s. Inr (''deposit.completed'', \<lparr>yo_id = ''1'', yo_reference = ''DEP-1'',
        yo_type = '''', yo_status = ''completed'', yo_amount = ''20'', yo_currency = ''NGN''\<rparr>))\<rparr> ''u'')) ''p'' ''forged'' = Inr e \<and>
     re_reference e = ''DEP-1''"
  using yellowcard_unsigned_event [of "\<lparr>ya_rate = (\<lambda>r. Inl (Opaque '''')), ya_payment = (\<lambda>r. Inl (Opaque '''')),
      ya_payout = (\<lambda>r. Inl (Opaque '''')), ya_status = (\<lambda>r. Inl (Opaque '''')), ya_payload = (\<lambda>s. Inr (''deposit.completed'',
        \<lparr>yo_id = ''1'', yo_reference = ''DEP-1'', yo_type = '''', yo_status = ''completed'', yo_amount = ''20'', yo_currency = ''NGN''\<rparr>))\<rparr>"
      "''p''" "''deposit.completed''" "\<lparr>yo_id = ''1'', yo_reference = ''DEP-1'', yo_type = '''', yo_status = ''completed'',
        yo_amount = ''20'', yo_currency = ''NGN''\<rparr>" fiat_pkg _ "''u''" "''forged''"]
  by auto

section \<open>Checkout sessions\<close>

lemma upper_lower_ascii:
  "upper_ascii (lower_ascii s) = upper_ascii s"
proof -
  have "(of_char (char_of (of_char c + 32 :: nat) :: char) :: nat) = of_char c + 32" if "(of_char c :: nat) \<le> 90" for c :: char
    using that by (simp add: of_char_of)
  then show ?thesis by (auto simp: upper_ascii_def lower_ascii_def Let_def)
qed

text \<open>
  The payer of a checkout session is charged the amount of the deposit cut off after two places, and the
  event of the paid session matches the deposit exactly if the amount has no more than two: a finer
  deposit is charged and never credited.
\<close>

theorem stripe_payment_matches:
  assumes "decimal_doc D" and "int_part_doc (sa_int A)" and "0 < dr_amount r" and "dr_amount r * 100 < 2 ^ 63"
    and "stripe_units A txt (dr_amount r) (dr_currency r) = Inr u" and "fs_fold F (upper_ascii (dr_currency r)) (dr_currency r)"
    and "ks_total s = cp_units (checkout_of p r u)" and "ks_currency s = cp_currency (checkout_of p r u)"
    and "fd_amount d = dr_amount r" and "fd_currency d = dr_currency r"
  shows "of_int (cp_units (checkout_of p r u)) / 100 \<le> dr_amount r \<and>
    dr_amount r < of_int (cp_units (checkout_of p r u)) / 100 + 1 / 100 \<and>
    (event_matches F (session_event D deposit_confirmed ''completed'' s) d \<longleftrightarrow> on_grid 2 (dr_amount r))"
proof -
  let ?a = "dr_amount r"
  have "0 \<le> ?a * 100" using assms(3) by simp
  then have big: "big_int (?a * 100) = \<lfloor>?a * 100\<rfloor>" by (simp add: big_int_def)
  have "\<lfloor>?a * 100\<rfloor> < 2 ^ 63" using assms(4) by (simp add: floor_less_iff)
  moreover have "0 \<le> \<lfloor>?a * 100\<rfloor>" using assms(3) by simp
  ultimately have u: "u = \<lfloor>?a * 100\<rfloor>"
    using assms(2,5) big by (auto simp: int_part_doc_def stripe_units_def Let_def split: if_splits)
  have f: "of_int u \<le> ?a * 100" "?a * 100 < of_int u + 1" unfolding u by linarith+
  have "of_int u / 100 * 10 ^ 16 = (of_int (u * 10 ^ 14) :: rat)" by simp
  then have "on_grid 16 (of_int u / 100)" unfolding on_grid_def by (metis Ints_of_int)
  then have div: "d_div D (of_int u) 100 = of_int u / 100" using decimal_docD(2) [OF assms(1)] by simp
  have "of_int u / 100 = ?a \<longleftrightarrow> ?a * 100 \<in> \<int>"
    unfolding u by (auto simp: field_simps elim!: Ints_cases)
  then have "d_div D (of_int u) 100 = ?a \<longleftrightarrow> ?a * 100 \<in> \<int>" unfolding div .
  then have "event_matches F (session_event D deposit_confirmed ''completed'' s) d \<longleftrightarrow> on_grid 2 ?a"
    using assms(6-10) by (simp add: event_matches_def session_event_def checkout_of_def upper_lower_ascii on_grid_def)
  with f show ?thesis by (simp add: checkout_of_def field_simps)
qed
definition sample_stripe :: stripe_rail where
  "sample_stripe = \<lparr>st_key = ''k'', st_webhook_secret = ''w'', st_success = stripe_success_url ''''\<rparr>"

definition sample_session :: checkout_session where
  "sample_session = \<lparr>ks_id = ''cs'', ks_reference = ''DEP-1'', ks_payment = ''unpaid'', ks_total = 2000, ks_currency = ''ngn''\<rparr>"

definition sample_stripe_answers :: stripe_answers where
  "sample_stripe_answers = \<lparr>sa_int = big_int, sa_session = (\<lambda>p. Inr ''url''), sa_transfer = (\<lambda>u c d g. Inr ''tr''),
     sa_event = (\<lambda>p s k. Inr \<lparr>ke_type = ''checkout.session.completed'', ke_session = Inr sample_session,
       ke_transfer = Inl (Opaque '''')\<rparr>)\<rparr>"

lemmas sample_stripe_defs = sample_stripe_def sample_session_def sample_stripe_answers_def

lemma ngn_ascii: "upper_ascii ''NGN'' = ''NGN''" "lower_ascii ''NGN'' = ''ngn''"
  by code_simp+

lemma stripe_payment_matches_witness:
  "event_matches sample_ramp (session_event reference_pkg deposit_confirmed ''completed'' sample_session)
     (sample_deposit\<lparr>fd_amount := 20\<rparr>) \<longleftrightarrow> on_grid 2 (dr_amount sample_deposit_request)"
proof -
  have doc: "int_part_doc (sa_int sample_stripe_answers)" by (simp add: int_part_doc_def sample_stripe_defs)
  have u: "stripe_units sample_stripe_answers (\<lambda>a. '''') (dr_amount sample_deposit_request) (dr_currency sample_deposit_request) = Inr 2000"
    by (simp add: stripe_units_def sample_stripe_defs sample_deposit_request_def big_int_def)
  have k: "fs_fold sample_ramp (upper_ascii (dr_currency sample_deposit_request)) (dr_currency sample_deposit_request)"
    "ks_total sample_session = cp_units (checkout_of sample_stripe sample_deposit_request 2000)"
    "ks_currency sample_session = cp_currency (checkout_of sample_stripe sample_deposit_request 2000)"
    by (simp_all add: fiat_sample_defs ngn_ascii checkout_of_def sample_session_def)
  from stripe_payment_matches [OF decimal_doc_reference doc _ _ u k, of "sample_deposit\<lparr>fd_amount := 20\<rparr>"]
  show ?thesis by (simp add: sample_deposit_request_def sample_deposit_def)
qed

text \<open>
  A checkout that is paid asynchronously is never credited: the event of the completed but unpaid session
  and the later event of its successful payment are both refused, and change nothing.
\<close>

theorem async_payment_never_credited:
  assumes "fs_rail F = stripe_as_rail D txt p A" and "sa_event A payload signature (st_webhook_secret p) = Inr k"
    and "ke_type k = ''checkout.session.async_payment_succeeded'' \<or>
      ke_type k = ''checkout.session.completed'' \<and> ke_session k = Inr s \<and> ks_payment s = ''unpaid''"
  shows "\<exists>x. handle_webhook D N F c V payload signature R = (Some x, R)"
proof -
  have "\<exists>x. stripe_webhook D p A payload signature = Inl x"
    using assms(2,3) by (auto simp: stripe_webhook_def stripe_session_of_def)
  then show ?thesis using assms(1) by (auto simp: handle_webhook_def stripe_as_rail_def)
qed

lemma sample_stripe_event:
  "sa_event sample_stripe_answers p g k = Inr \<lparr>ke_type = ''checkout.session.completed'', ke_session = Inr sample_session,
     ke_transfer = Inl (Opaque '''')\<rparr>"
  by (simp add: sample_stripe_answers_def)

lemma async_payment_never_credited_witness:
  "\<exists>x. handle_webhook reference_pkg exact_numeric (sample_ramp\<lparr>fs_rail := stripe_as_rail reference_pkg (\<lambda>a. '''') sample_stripe
     sample_stripe_answers\<rparr>) no_tenant sample_fiat_env ''p'' ''s'' fiat_start = (Some x, fiat_start)"
  by (rule async_payment_never_credited [where s = sample_session and p = sample_stripe and A = sample_stripe_answers,
      OF _ sample_stripe_event]) (simp_all add: sample_session_def)

end
