(* ===== verification/Anchors.thy ===== *)
theory Anchors
  imports Wallets Refresh "HOL-Library.Multiset"
begin

text \<open>
  Fiat through registered Stellar anchors: \<^verbatim>\<open>internal/anchor\<close>, \<^verbatim>\<open>fiat/anchor_service.go\<close>, \<^verbatim>\<open>fiat/anchor_handler.go\<close> and
  \<^verbatim>\<open>postgres/anchor_repo.go\<close>. The registry in memory, the discovery of an anchor, the authentication by a signed
  challenge, the two transfer protocols, and the record of what was started. What anchors answer, TOML, URLs
  and the challenge reader of the Stellar library are parameters.
\<close>

section \<open>The tables\<close>

record anchor =
  an_id :: string
  an_home :: string
  an_sep6 :: string
  an_sep24 :: string
  an_auth :: string
  an_key :: string
  an_passphrase :: string
  an_assets :: "string list"
  an_seps :: "int list"
  an_at :: go_time

record anchor_tx =
  ax_id :: string
  ax_user :: string
  ax_wallet :: string
  ax_anchor :: string
  ax_external :: string
  ax_asset :: string
  ax_amount :: string
  ax_type :: string
  ax_status :: string
  ax_created :: go_time
  ax_completed :: "go_time option"

definition type_deposit :: string where "type_deposit = ''deposit''"
definition type_withdrawal :: string where "type_withdrawal = ''withdrawal''"

record anchor_db =
  nb_anchors :: "anchor list"
  nb_txs :: "anchor_tx list"

text \<open>
  What the database does to a time stamp it stores, which has more digits than the column keeps, and how it orders
  the rows of a query whose ordering leaves ties.
\<close>

record anchor_sql =
  aq_micros :: "go_time \<Rightarrow> go_time"
  aq_order :: "anchor list \<Rightarrow> anchor list"

definition stored_anchor :: "anchor_sql \<Rightarrow> anchor \<Rightarrow> anchor" where
  "stored_anchor P a = a\<lparr>an_at := aq_micros P (an_at a)\<rparr>"

definition create_anchor :: "anchor_sql \<Rightarrow> err option \<Rightarrow> anchor \<Rightarrow> anchor_db \<Rightarrow> err option \<times> anchor_db" where
  "create_anchor P q a db =
     (let failed = (\<lambda>e. (Some (Wrap ''insert anchor'' e), db)) in
      case q of Some e \<Rightarrow> failed e
      | None \<Rightarrow> if \<exists>x \<in> set (nb_anchors db). an_id x = an_id a \<or> an_home x = an_home a then failed unique_violation
          else (None, db\<lparr>nb_anchors := nb_anchors db @ [stored_anchor P a]\<rparr>))"

definition list_anchors :: "anchor_sql \<Rightarrow> err option \<Rightarrow> anchor_db \<Rightarrow> err + anchor list" where
  "list_anchors P q db =
     (case q of Some e \<Rightarrow> Inl (Wrap ''list anchors'' e) | None \<Rightarrow> Inr (aq_order P (nb_anchors db)))"

definition anchor_by_id :: "err option \<Rightarrow> string \<Rightarrow> anchor_db \<Rightarrow> err + anchor" where
  "anchor_by_id q i db =
     (case q of Some e \<Rightarrow> Inl e
      | None \<Rightarrow> (case row_with an_id i (nb_anchors db) of None \<Rightarrow> Inl (Opaque ''anchor not found'') | Some a \<Rightarrow> Inr a))"

definition anchor_by_home :: "err option \<Rightarrow> string \<Rightarrow> anchor_db \<Rightarrow> err + anchor" where
  "anchor_by_home q h db =
     (case q of Some e \<Rightarrow> Inl e
      | None \<Rightarrow> (case row_with an_home h (nb_anchors db) of None \<Rightarrow> Inl (Opaque ''anchor not found'') | Some a \<Rightarrow> Inr a))"

text \<open>The service never sets the user of a record, so the reference to \<^verbatim>\<open>users\<close> is NULL.\<close>

definition create_anchor_tx :: "err option \<Rightarrow> anchor_tx \<Rightarrow> world \<Rightarrow> anchor_db \<Rightarrow> err option \<times> anchor_db" where
  "create_anchor_tx q t w db =
     (let failed = (\<lambda>e. (Some (Wrap ''insert anchor transaction'' e), db)) in
      case q of Some e \<Rightarrow> failed e
      | None \<Rightarrow>
        if \<exists>x \<in> set (nb_txs db). ax_id x = ax_id t then failed unique_violation
        else if \<not> (\<exists>x \<in> set (w_wallets w). wa_id x = ax_wallet t) \<or> \<not> (\<exists>x \<in> set (nb_anchors db). an_id x = ax_anchor t)
        then failed foreign_key_violation
        else (None, db\<lparr>nb_txs := nb_txs db @ [t\<lparr>ax_completed := None\<rparr>]\<rparr>))"

text \<open>With a tenant the wallet of the row must belong to it.\<close>

definition wallet_of_tenant :: "string option \<Rightarrow> world \<Rightarrow> string \<Rightarrow> bool" where
  "wallet_of_tenant t w i \<longleftrightarrow> t = None \<or> (\<exists>x \<in> set (w_wallets w). wa_id x = i \<and> wa_tenant x = t)"

definition anchor_tx_by_id :: "err option \<Rightarrow> string option \<Rightarrow> string \<Rightarrow> world \<Rightarrow> anchor_db \<Rightarrow> err + anchor_tx" where
  "anchor_tx_by_id q tenant i w db =
     (case q of Some e \<Rightarrow> Inl e
      | None \<Rightarrow> (case find (\<lambda>t. ax_id t = i \<and> wallet_of_tenant tenant w (ax_wallet t)) (nb_txs db) of
          None \<Rightarrow> Inl (Opaque ''anchor transaction not found'') | Some t \<Rightarrow> Inr t))"

definition update_anchor_tx ::
  "err option \<Rightarrow> string \<Rightarrow> string \<Rightarrow> go_time option \<Rightarrow> string option \<Rightarrow> world \<Rightarrow> anchor_db \<Rightarrow> err option \<times> anchor_db" where
  "update_anchor_tx q i status completed tenant w db =
     (case q of Some e \<Rightarrow> (Some (Wrap ''update anchor transaction status'' e), db)
      | None \<Rightarrow> (None, db\<lparr>nb_txs := update_where (\<lambda>t. ax_id t = i \<and> wallet_of_tenant tenant w (ax_wallet t))
          (\<lambda>t. t\<lparr>ax_status := status, ax_completed := completed\<rparr>) (nb_txs db)\<rparr>))"

section \<open>The registry\<close>

record anchor_registry =
  rg_ids :: "string \<rightharpoonup> anchor"
  rg_assets :: "string \<Rightarrow> anchor list"

definition empty_registry :: anchor_registry where
  "empty_registry = \<lparr>rg_ids = Map.empty, rg_assets = (\<lambda>_. [])\<rparr>"

fun index_assets :: "anchor \<Rightarrow> string list \<Rightarrow> (string \<Rightarrow> anchor list) \<Rightarrow> string \<Rightarrow> anchor list" where
  "index_assets a [] m = m"
| "index_assets a (s # ss) m = index_assets a ss (m(s := m s @ [a]))"

definition index_anchor :: "anchor \<Rightarrow> anchor_registry \<Rightarrow> anchor_registry" where
  "index_anchor a r = r\<lparr>rg_ids := (rg_ids r)(an_id a \<mapsto> a), rg_assets := index_assets a (an_assets a) (rg_assets r)\<rparr>"

text \<open>A failed query leaves the registry as it was.\<close>

definition load_registry :: "anchor_sql \<Rightarrow> err option \<Rightarrow> anchor_db \<Rightarrow> anchor_registry \<Rightarrow> err option \<times> anchor_registry" where
  "load_registry P q db r =
     (case list_anchors P q db of Inl e \<Rightarrow> (Some (Wrap ''list anchors'' e), r)
      | Inr as \<Rightarrow> (None, fold index_anchor as empty_registry))"

definition registered :: "string \<Rightarrow> anchor_registry \<Rightarrow> err + anchor" where
  "registered i r =
     (case rg_ids r i of None \<Rightarrow> Inl (Opaque (''anchor '' @ i @ '' is not registered'')) | Some a \<Rightarrow> Inr a)"

definition resolve_for_asset :: "string \<Rightarrow> anchor_registry \<Rightarrow> err + anchor" where
  "resolve_for_asset s r =
     (case rg_assets r s of [] \<Rightarrow> Inl (Opaque (''no registered anchor supports asset '' @ s)) | a # as \<Rightarrow> Inr a)"

section \<open>Discovery\<close>

definition trim_prefix :: "string \<Rightarrow> string \<Rightarrow> string" where
  "trim_prefix s p = (if has_prefix s p then drop (length p) s else s)"

definition trim_suffix :: "string \<Rightarrow> string \<Rightarrow> string" where
  "trim_suffix s p = (if drop (length s - length p) s = p then take (length s - length p) s else s)"

definition normalize_home_domain :: "unicode_tables \<Rightarrow> string \<Rightarrow> string" where
  "normalize_home_domain U h =
     trim_suffix (trim_prefix (trim_prefix (trim_space U h) ''https://'') ''http://'') ''/''"

text \<open>The decoded \<^verbatim>\<open>stellar.toml\<close>; of a currency only the code is used.\<close>

record toml_doc =
  td_signing :: string
  td_passphrase :: string
  td_auth :: string
  td_sep6 :: string
  td_sep24 :: string
  td_kyc :: string
  td_codes :: "string list"

text \<open>
  \<open>get\<close> is the answer for a home domain: no answer, or the status code and the decoded document.
\<close>

definition fetch_stellar_toml ::
  "unicode_tables \<Rightarrow> (string \<Rightarrow> err + int \<times> (err + toml_doc)) \<Rightarrow> string \<Rightarrow> err + toml_doc" where
  "fetch_stellar_toml U get h0 =
     (let h = normalize_home_domain U h0 in
      if h = '''' then Inl (Opaque ''home domain is required'')
      else case get h of Inl e \<Rightarrow> Inl (Wrap (''fetch stellar.toml from '' @ h) e)
      | Inr (code, body) \<Rightarrow>
        if code \<noteq> 200 then Inl (Opaque (''fetch stellar.toml from '' @ h @ '': unexpected status '' @ format_int code))
        else (case body of Inl e \<Rightarrow> Inl (Wrap ''parse stellar.toml'' e)
          | Inr d \<Rightarrow>
            if td_signing d = '''' then Inl (Opaque (''stellar.toml at '' @ h @ '' has no SIGNING_KEY''))
            else if td_auth d = '''' then Inl (Opaque (''stellar.toml at '' @ h @ '' has no WEB_AUTH_ENDPOINT''))
            else if td_sep6 d = '''' \<and> td_sep24 d = ''''
            then Inl (Opaque (''stellar.toml at '' @ h @ '' declares no SEP-6 or SEP-24 transfer server''))
            else Inr (d\<lparr>td_codes := filter (\<lambda>s. s \<noteq> '''') (td_codes d)\<rparr>)))"

definition sep_versions :: "toml_doc \<Rightarrow> int list" where
  "sep_versions d = 1 # (if td_auth d \<noteq> '''' then [10] else []) @ (if td_sep6 d \<noteq> '''' then [6] else []) @
     (if td_sep24 d \<noteq> '''' then [24] else [])"

definition anchor_of_toml :: "string \<Rightarrow> go_time \<Rightarrow> string \<Rightarrow> toml_doc \<Rightarrow> anchor" where
  "anchor_of_toml uuid now h d =
     \<lparr>an_id = uuid, an_home = h, an_sep6 = td_sep6 d, an_sep24 = td_sep24 d, an_auth = td_auth d, an_key = td_signing d,
      an_passphrase = td_passphrase d, an_assets = td_codes d, an_seps = sep_versions d, an_at = now\<rparr>"

definition register_anchor ::
  "anchor_sql \<Rightarrow> unicode_tables \<Rightarrow> (string \<Rightarrow> err + int \<times> (err + toml_doc)) \<Rightarrow> string \<Rightarrow> go_time \<Rightarrow> err option \<Rightarrow> string
    \<Rightarrow> anchor_registry \<Rightarrow> anchor_db \<Rightarrow> (err + anchor) \<times> anchor_registry \<times> anchor_db" where
  "register_anchor P U get uuid now q home r db =
     (let h = normalize_home_domain U home in
      case fetch_stellar_toml U get h of Inl e \<Rightarrow> (Inl (Wrap (''register anchor '' @ h) e), r, db)
      | Inr d \<Rightarrow> (let a = anchor_of_toml uuid now h d in
          case create_anchor P q a db of (Some e, db1) \<Rightarrow> (Inl (Wrap (''persist anchor '' @ h) e), r, db1)
          | (None, db1) \<Rightarrow> (Inr a, index_anchor a r, db1)))"
section \<open>Authentication by a challenge\<close>

text \<open>
  What one call meets outside: parsing of URLs (the host, and the scheme), the anchor's answers, and the two
  functions of the Stellar library: reading a challenge, which gives the client account of a challenge that
  is signed by the given key, for the given network, host and home domains; and signing it.
\<close>

record challenge_answer =
  ch_transaction :: string
  ch_error :: string

record token_answer =
  tk_token :: string
  tk_error :: string

text \<open>An HTTP answer: no answer, or the status code, the body as text, and the decoded body.\<close>

type_synonym 'a anchor_http = "err + int \<times> string \<times> (err + 'a)"

record transfer_answer =
  tn_id :: string
  tn_body :: string       \<comment> \<open>the instructions or the account and memo to pay to\<close>

record interactive_answer =
  ia_error :: string
  ia_url :: string
  ia_id :: string

datatype anchor_stage = AtOpen | AtStore | AtFetch | AtStatus

record anchor_env =
  nv_q :: "anchor_stage \<Rightarrow> err option"
  nv_uuid :: string
  nv_now :: go_time
  nv_host :: "string \<Rightarrow> err + string"
  nv_scheme :: "string \<Rightarrow> string option"
  nv_challenge :: "string \<Rightarrow> string \<Rightarrow> string \<Rightarrow> challenge_answer anchor_http"
  nv_read :: "string \<Rightarrow> string \<Rightarrow> string \<Rightarrow> string \<Rightarrow> string list \<Rightarrow> err + string"
  nv_sign :: "string \<Rightarrow> string \<Rightarrow> string \<Rightarrow> err + string"
  nv_token :: "string \<Rightarrow> string \<Rightarrow> token_answer anchor_http"
  nv_sep6 :: "string \<Rightarrow> (string \<times> string) list \<Rightarrow> string \<Rightarrow> transfer_answer anchor_http"
  nv_sep24 :: "string \<Rightarrow> (string \<times> string) list \<Rightarrow> string \<Rightarrow> interactive_answer anchor_http"
  nv_poll :: "string \<Rightarrow> string \<Rightarrow> string \<Rightarrow> string anchor_http"

definition challenge_for ::
  "anchor_env \<Rightarrow> string \<Rightarrow> string \<Rightarrow> string \<Rightarrow> string \<Rightarrow> string \<Rightarrow> err + string" where
  "challenge_for V auth home pass server_key client =
     (case nv_host V auth of Inl e \<Rightarrow> Inl (Wrap ''parse web auth endpoint'' e)
      | Inr host \<Rightarrow> (case nv_challenge V auth client home of Inl e \<Rightarrow> Inl (Wrap ''request challenge'' e)
      | Inr (code, body, x) \<Rightarrow>
        if code \<noteq> 200 then Inl (Opaque (''web_auth challenge request failed with status '' @ format_int code @ '': '' @ body))
        else (case x of Inl e \<Rightarrow> Inl (Wrap ''parse challenge response'' e)
      | Inr ch \<Rightarrow>
        if ch_error ch \<noteq> '''' then Inl (Opaque (''anchor returned error: '' @ ch_error ch))
        else if ch_transaction ch = '''' then Inl (Opaque ''anchor challenge response has no transaction'')
        else (case nv_read V (ch_transaction ch) server_key pass host [home] of
            Inl e \<Rightarrow> Inl (Wrap ''invalid SEP-10 challenge'' e)
          | Inr account \<Rightarrow>
            if account \<noteq> client then Inl (Opaque (''challenge client account '' @ account @
              '' does not match requested account '' @ client))
            else Inr (ch_transaction ch)))))"

text \<open>
  What a login leaves behind: a passphrase and a challenge signed with a secret, and an envelope sent to the anchor.
\<close>

datatype login_event = Signed string string string | Sent string string

definition authenticate_challenge ::
  "anchor_env \<Rightarrow> string \<Rightarrow> string \<Rightarrow> string \<Rightarrow> string \<Rightarrow> (err + string) \<times> login_event list" where
  "authenticate_challenge V auth pass challenge secret =
     (case nv_sign V pass challenge secret of Inl e \<Rightarrow> (Inl (Wrap ''sign challenge'' e), [])
      | Inr envelope \<Rightarrow> ((case nv_token V auth envelope of Inl e \<Rightarrow> Inl (Wrap ''submit signed challenge'' e)
      | Inr (code, body, x) \<Rightarrow>
        if code \<noteq> 200 then Inl (Opaque (''web_auth token request failed with status '' @ format_int code @ '': '' @ body))
        else (case x of Inl e \<Rightarrow> Inl (Wrap ''parse auth response'' e)
      | Inr t \<Rightarrow>
        if tk_error t \<noteq> '''' then Inl (Opaque (''anchor returned error: '' @ tk_error t))
        else if tk_token t = '''' then Inl (Opaque ''anchor did not return a token'') else Inr (tk_token t))),
        [Signed pass challenge secret, Sent auth envelope]))"

section \<open>The two transfer protocols\<close>

definition anchor_answer :: "'a anchor_http \<Rightarrow> err + 'a" where
  "anchor_answer h =
     (case h of Inl e \<Rightarrow> Inl (Wrap ''do request'' e)
      | Inr (code, body, x) \<Rightarrow>
        if code \<noteq> 200 then Inl (Opaque (''anchor returned status '' @ format_int code @ '': '' @ body))
        else (case x of Inl e \<Rightarrow> Inl (Wrap ''parse response'' e) | Inr y \<Rightarrow> Inr y))"

definition given :: "string \<Rightarrow> string \<Rightarrow> (string \<times> string) list" where
  "given k v = (if v = '''' then [] else [(k, v)])"

definition sep6_deposit :: "anchor_env \<Rightarrow> string \<Rightarrow> string \<Rightarrow> string \<Rightarrow> string \<Rightarrow> string \<Rightarrow> string \<Rightarrow> err + transfer_answer" where
  "sep6_deposit V server jwt asset account amount email =
     map_sum (Wrap ''initiate sep-6 deposit'') id (anchor_answer (nv_sep6 V (server @ ''/deposit'')
       ([(''asset_code'', asset), (''account'', account)] @ given ''amount'' amount @ given ''email_address'' email) jwt))"

definition sep6_withdrawal :: "anchor_env \<Rightarrow> string \<Rightarrow> string \<Rightarrow> string \<Rightarrow> string \<Rightarrow> string \<Rightarrow> err + transfer_answer" where
  "sep6_withdrawal V server jwt asset amount dest =
     map_sum (Wrap ''initiate sep-6 withdrawal'') id (anchor_answer (nv_sep6 V (server @ ''/withdraw'')
       ([(''asset_code'', asset), (''type'', ''bank_account'')] @ given ''amount'' amount @ given ''dest'' dest) jwt))"

definition sep24_path :: "string \<Rightarrow> string option" where
  "sep24_path operation =
     (if operation = type_deposit then Some ''/transactions/deposit/interactive''
      else if operation = type_withdrawal \<or> operation = ''withdraw'' then Some ''/transactions/withdraw/interactive'' else None)"

definition interactive_url ::
  "anchor_env \<Rightarrow> string \<Rightarrow> string \<Rightarrow> string \<Rightarrow> string \<Rightarrow> string \<Rightarrow> string \<Rightarrow> err + string \<times> string" where
  "interactive_url V server jwt asset account amount operation =
     (case sep24_path operation of None \<Rightarrow> Inl (Opaque (''unsupported sep-24 operation '' @ operation))
      | Some path \<Rightarrow> (case anchor_answer (nv_sep24 V (server @ path)
          ([(''asset_code'', asset)] @ given ''amount'' amount @ given ''account'' account) jwt) of
          Inl e \<Rightarrow> Inl (Wrap (''start sep-24 '' @ operation) e)
        | Inr x \<Rightarrow>
          if ia_error x \<noteq> '''' then Inl (Opaque (''anchor returned error: '' @ ia_error x))
          else if ia_url x = '''' then Inl (Opaque ''anchor did not return an interactive url'')
          else if nv_scheme V (ia_url x) \<noteq> Some ''https''
          then Inl (Opaque (''anchor returned a non-https interactive url: '' @ ia_url x))
          else Inr (ia_url x, ia_id x)))"

definition poll_transaction :: "string \<Rightarrow> anchor_env \<Rightarrow> string \<Rightarrow> string \<Rightarrow> string \<Rightarrow> err + string" where
  "poll_transaction protocol V server jwt i =
     map_sum (Wrap (''get '' @ protocol @ '' transaction'')) id (anchor_answer (nv_poll V (server @ ''/transaction'') i jwt))"

section \<open>The service\<close>

text \<open>The two passphrases are constants of the Stellar library.\<close>

record anchor_service =
  aw_gcm :: gcm_pkg
  aw_key :: string
  aw_network :: string
  aw_public :: string
  aw_test :: string

definition network_passphrase :: "anchor_service \<Rightarrow> string" where
  "network_passphrase S = (if aw_network S = ''mainnet'' \<or> aw_network S = ''public'' then aw_public S else aw_test S)"

text \<open>The stored text is decoded before it is opened.\<close>

definition open_secret :: "anchor_service \<Rightarrow> string \<Rightarrow> err + string" where
  "open_secret S stored =
     (case hex_decode stored of None \<Rightarrow> Inl (Wrap ''decode wallet secret'' (Opaque ''encoding/hex''))
      | Some c \<Rightarrow> map_sum (Wrap ''decrypt wallet secret'') id (decrypt (aw_gcm S) c (aw_key S)))"

definition anchor_login ::
  "anchor_service \<Rightarrow> anchor_env \<Rightarrow> anchor \<Rightarrow> string \<Rightarrow> string \<Rightarrow> (err + string) \<times> login_event list" where
  "anchor_login S V a public_key secret =
     (let pass = (if an_passphrase a = '''' then network_passphrase S else an_passphrase a) in
      case challenge_for V (an_auth a) (an_home a) pass (an_key a) public_key of Inl e \<Rightarrow> (Inl (Wrap ''sep-10 challenge'' e), [])
      | Inr ch \<Rightarrow> apfst (map_sum (Wrap ''sep-10 authenticate'') id) (authenticate_challenge V (an_auth a) pass ch secret))"

definition anchor_prereqs ::
  "anchor_service \<Rightarrow> anchor_env \<Rightarrow> ctx \<Rightarrow> anchor_registry \<Rightarrow> string \<Rightarrow> string \<Rightarrow> world \<Rightarrow> err + anchor \<times> wallet \<times> string" where
  "anchor_prereqs S V c r asset wid w =
     (case resolve_for_asset asset r of Inl e \<Rightarrow> Inl e
      | Inr a \<Rightarrow> (case get_wallet c (nv_q V AtOpen) wid w of Inl e \<Rightarrow> Inl (Wrap ''get wallet'' e)
      | Inr x \<Rightarrow> (case open_secret S (wa_secret x) of Inl e \<Rightarrow> Inl e | Inr s \<Rightarrow> Inr (a, x, s))))"

datatype anchor_result = Instructions transfer_answer string | Interactive string string

definition store_anchor_tx ::
  "anchor_env \<Rightarrow> string \<Rightarrow> string \<Rightarrow> string \<Rightarrow> wallet \<Rightarrow> anchor \<Rightarrow> string \<Rightarrow> string \<Rightarrow> string \<Rightarrow> anchor_result \<Rightarrow> world
    \<Rightarrow> anchor_db \<Rightarrow> (err + anchor_result) \<times> anchor_db" where
  "store_anchor_tx V what kind status x a external asset amount res w db =
     (case create_anchor_tx (nv_q V AtStore) \<lparr>ax_id = nv_uuid V, ax_user = '''', ax_wallet = wa_id x, ax_anchor = an_id a,
         ax_external = external, ax_asset = asset, ax_amount = amount, ax_type = kind, ax_status = status,
         ax_created = nv_now V, ax_completed = None\<rparr> w db of
        (Some e, db1) \<Rightarrow> (Inl (Wrap what e), db1) | (None, db1) \<Rightarrow> (Inr res, db1))"

definition anchor_deposit ::
  "anchor_service \<Rightarrow> anchor_env \<Rightarrow> ctx \<Rightarrow> anchor_registry \<Rightarrow> string \<Rightarrow> string \<Rightarrow> string \<Rightarrow> string \<Rightarrow> world \<Rightarrow> anchor_db
    \<Rightarrow> (err + anchor_result) \<times> anchor_db" where
  "anchor_deposit S V c r wid asset amount email w db =
     (case anchor_prereqs S V c r asset wid w of Inl e \<Rightarrow> (Inl e, db)
      | Inr (a, x, secret) \<Rightarrow> (case fst (anchor_login S V a (wa_public_key x) secret) of Inl e \<Rightarrow> (Inl e, db)
      | Inr jwt \<Rightarrow>
        if an_sep6 a \<noteq> '''' then
          (case sep6_deposit V (an_sep6 a) jwt asset (wa_public_key x) amount email of Inl e \<Rightarrow> (Inl (Wrap ''sep-6 deposit'' e), db)
           | Inr t \<Rightarrow> store_anchor_tx V ''record deposit'' type_deposit ''incomplete'' x a (tn_id t) asset amount
               (Instructions t (nv_uuid V)) w db)
        else if an_sep24 a \<noteq> '''' then
          (case interactive_url V (an_sep24 a) jwt asset (wa_public_key x) amount type_deposit of
             Inl e \<Rightarrow> (Inl (Wrap ''sep-24 deposit'' e), db)
           | Inr (url, i) \<Rightarrow> store_anchor_tx V ''record deposit'' type_deposit ''incomplete'' x a i asset amount
               (Interactive url (nv_uuid V)) w db)
        else (Inl (Opaque (''anchor '' @ an_home a @ '' supports neither SEP-6 nor SEP-24'')), db)))"

definition anchor_withdrawal ::
  "anchor_service \<Rightarrow> anchor_env \<Rightarrow> ctx \<Rightarrow> anchor_registry \<Rightarrow> string \<Rightarrow> string \<Rightarrow> string \<Rightarrow> string \<Rightarrow> world \<Rightarrow> anchor_db
    \<Rightarrow> (err + anchor_result) \<times> anchor_db" where
  "anchor_withdrawal S V c r wid asset amount dest w db =
     (case anchor_prereqs S V c r asset wid w of Inl e \<Rightarrow> (Inl e, db)
      | Inr (a, x, secret) \<Rightarrow> (case fst (anchor_login S V a (wa_public_key x) secret) of Inl e \<Rightarrow> (Inl e, db)
      | Inr jwt \<Rightarrow>
        if an_sep6 a \<noteq> '''' then
          (case sep6_withdrawal V (an_sep6 a) jwt asset amount dest of Inl e \<Rightarrow> (Inl (Wrap ''sep-6 withdrawal'' e), db)
           | Inr t \<Rightarrow> store_anchor_tx V ''record withdrawal'' type_withdrawal ''pending_user_transfer_start'' x a (tn_id t)
               asset amount (Instructions t (nv_uuid V)) w db)
        else if an_sep24 a \<noteq> '''' then
          (case interactive_url V (an_sep24 a) jwt asset (wa_public_key x) amount type_withdrawal of
             Inl e \<Rightarrow> (Inl (Wrap ''sep-24 withdrawal'' e), db)
           | Inr (url, i) \<Rightarrow> store_anchor_tx V ''record withdrawal'' type_withdrawal ''incomplete'' x a i asset amount
               (Interactive url (nv_uuid V)) w db)
        else (Inl (Opaque (''anchor '' @ an_home a @ '' supports neither SEP-6 nor SEP-24'')), db)))"

definition ctx_tenant :: "ctx \<Rightarrow> string option" where
  "ctx_tenant c = (if cx_tenant c = '''' then None else Some (cx_tenant c))"

text \<open>The status the anchor of a record reports now.\<close>

definition anchor_status ::
  "anchor_service \<Rightarrow> anchor_env \<Rightarrow> ctx \<Rightarrow> anchor_registry \<Rightarrow> anchor_tx \<Rightarrow> world \<Rightarrow> err + string" where
  "anchor_status S V c r t w =
     (case registered (ax_anchor t) r of Inl e \<Rightarrow> Inl e
      | Inr a \<Rightarrow> (case get_wallet c (nv_q V AtOpen) (ax_wallet t) w of Inl e \<Rightarrow> Inl (Wrap ''get wallet'' e)
      | Inr x \<Rightarrow> (case open_secret S (wa_secret x) of Inl e \<Rightarrow> Inl e
      | Inr secret \<Rightarrow> (case fst (anchor_login S V a (wa_public_key x) secret) of Inl e \<Rightarrow> Inl e
      | Inr jwt \<Rightarrow> map_sum (Wrap ''poll anchor transaction'') id
          (if an_sep6 a \<noteq> '''' then poll_transaction ''sep-6'' V (an_sep6 a) jwt (ax_external t)
           else poll_transaction ''sep-24'' V (an_sep24 a) jwt (ax_external t))))))"

definition anchor_transaction ::
  "anchor_service \<Rightarrow> anchor_env \<Rightarrow> ctx \<Rightarrow> anchor_registry \<Rightarrow> string \<Rightarrow> world \<Rightarrow> anchor_db \<Rightarrow> (err + anchor_tx) \<times> anchor_db" where
  "anchor_transaction S V c r i w db =
     (case anchor_tx_by_id (nv_q V AtFetch) (ctx_tenant c) i w db of Inl e \<Rightarrow> (Inl e, db)
      | Inr t \<Rightarrow> (case anchor_status S V c r t w of Inl e \<Rightarrow> (Inl e, db)
        | Inr s \<Rightarrow>
          if s = '''' \<or> s = ax_status t then (Inr t, db)
          else (let done_at = (if s = ''completed'' then Some (nv_now V) else None) in
                case update_anchor_tx (nv_q V AtStatus) (ax_id t) s done_at (ctx_tenant c) w db of
                  (Some e, db1) \<Rightarrow> (Inl (Wrap ''update transaction status'' e), db1)
                | (None, db1) \<Rightarrow> (Inr (t\<lparr>ax_status := s, ax_completed := done_at\<rparr>), db1))))"

section \<open>The handlers\<close>

text \<open>Every failure is answered with one status code: 502, or 404 for the lookup.\<close>

definition anchor_answer_code :: "int \<Rightarrow> string option \<Rightarrow> (err + 'a) \<Rightarrow> int" where
  "anchor_answer_code bad invalid res =
     (case invalid of Some m \<Rightarrow> 400 | None \<Rightarrow> (case res of Inl e \<Rightarrow> bad | Inr x \<Rightarrow> 200))"
section \<open>The registry and the table\<close>

lemma index_assets_eq: "index_assets a ss m s = m s @ replicate (count_list ss s) a"
  by (induction ss arbitrary: m) (auto simp: replicate_app_Cons_same)

lemma index_anchor_assets: "rg_assets (index_anchor a r) s = rg_assets r s @ replicate (count_list (an_assets a) s) a"
  by (simp add: index_anchor_def index_assets_eq)

text \<open>
  What is documented of the database: rounding a rounded time changes nothing, and the rows come in the order of
  their times.
\<close>

definition sql_doc :: "anchor_sql \<Rightarrow> bool" where
  "sql_doc P \<longleftrightarrow> (\<forall>t. aq_micros P (aq_micros P t) = aq_micros P t)
     \<and> (\<forall>as. mset (aq_order P as) = mset as \<and> sorted (map an_at (aq_order P as)))"

lemma order_snoc:
  assumes "sql_doc P" and "distinct (map an_at as)" and "\<forall>x \<in> set as. an_at x < an_at a"
  shows "aq_order P (as @ [a]) = aq_order P as @ [a]"
proof -
  have o: "mset (aq_order P bs) = mset bs" "sorted (map an_at (aq_order P bs))" for bs
    using assms(1) by (auto simp: sql_doc_def)
  have inj: "inj_on an_at (set (as @ [a]))" using assms(2,3) by (auto simp: distinct_map inj_on_def)
  have s: "sorted (map an_at (aq_order P as @ [a]))"
    using o(2) [of as] mset_eq_setD [OF o(1) [of as]] assms(3) by (auto simp: sorted_append less_imp_le)
  have "sort_key an_at (as @ [a]) = aq_order P (as @ [a])"
    by (rule sort_key_inj_key_eq [OF _ inj o(2)]) (simp add: o(1))
  moreover have "sort_key an_at (as @ [a]) = aq_order P as @ [a]"
    by (rule sort_key_inj_key_eq [OF _ inj s]) (simp add: o(1))
  ultimately show ?thesis by simp
qed

text \<open>The registry with the times as the table keeps them.\<close>

definition rounded_registry :: "anchor_sql \<Rightarrow> anchor_registry \<Rightarrow> anchor_registry" where
  "rounded_registry P r = \<lparr>rg_ids = (\<lambda>i. map_option (stored_anchor P) (rg_ids r i)),
     rg_assets = (\<lambda>s. map (stored_anchor P) (rg_assets r s))\<rparr>"

lemma rounded_index: "rounded_registry P (index_anchor a r) = index_anchor (stored_anchor P a) (rounded_registry P r)"
  by (auto simp: rounded_registry_def index_anchor_def index_assets_eq stored_anchor_def fun_eq_iff)

lemma rounded_fold:
  "\<forall>a \<in> set as. stored_anchor P a = a \<Longrightarrow> rounded_registry P r = r \<Longrightarrow> rounded_registry P (fold index_anchor as r) = fold index_anchor as r"
  by (induction as arbitrary: r) (auto simp: rounded_index)

lemma rounded_empty: "rounded_registry P empty_registry = empty_registry"
  by (simp add: rounded_registry_def empty_registry_def)

text \<open>The registry that a start of the process would load from the table.\<close>

definition mirrors :: "anchor_sql \<Rightarrow> anchor_db \<Rightarrow> anchor_registry \<Rightarrow> bool" where
  "mirrors P db r \<longleftrightarrow> (\<forall>r0. load_registry P None db r0 = (None, rounded_registry P r))"

lemma mirrors_eq: "mirrors P db r \<longleftrightarrow> rounded_registry P r = fold index_anchor (aq_order P (nb_anchors db)) empty_registry"
  by (auto simp: mirrors_def load_registry_def list_anchors_def)

lemma register_anchor_cases:
  assumes "register_anchor P U get uuid now q home r db = (res, r', db')"
  obtains (refused) e where "res = Inl e" "r' = r" "db' = db"
  | (added) a where "res = Inr a" "r' = index_anchor a r" "db' = db\<lparr>nb_anchors := nb_anchors db @ [stored_anchor P a]\<rparr>"
      "an_at a = now" "an_id a = uuid" "\<forall>x \<in> set (nb_anchors db). an_id x \<noteq> an_id a \<and> an_home x \<noteq> an_home a"
  using assms
  by (auto simp: register_anchor_def create_anchor_def anchor_of_toml_def Let_def split: sum.splits prod.splits option.splits if_splits)

text \<open>Registrations one after the other, each with its own discovery, clock and database.\<close>

record registration =
  ry_home :: string
  ry_uuid :: string
  ry_now :: go_time
  ry_get :: "string \<Rightarrow> err + int \<times> (err + toml_doc)"
  ry_q :: "err option"

fun register_all ::
  "anchor_sql \<Rightarrow> unicode_tables \<Rightarrow> registration list \<Rightarrow> anchor_registry \<Rightarrow> anchor_db \<Rightarrow> anchor_registry \<times> anchor_db" where
  "register_all P U [] r db = (r, db)"
| "register_all P U (y # ys) r db =
     (case register_anchor P U (ry_get y) (ry_uuid y) (ry_now y) (ry_q y) (ry_home y) r db of
        (res, r1, db1) \<Rightarrow> register_all P U ys r1 db1)"

text \<open>No two rows have the same time, and all are before \<open>t\<close>.\<close>

definition stamped_before :: "anchor_db \<Rightarrow> go_time \<Rightarrow> bool" where
  "stamped_before db t \<longleftrightarrow> distinct (map an_at (nb_anchors db)) \<and> (\<forall>a \<in> set (nb_anchors db). an_at a < t)"

lemma register_mirrors:
  assumes "sql_doc P" and "mirrors P db r" and "stamped_before db (aq_micros P now)"
    and "register_anchor P U get uuid now q home r db = (res, r', db')"
  shows "mirrors P db' r'" and "aq_micros P now < t \<Longrightarrow> stamped_before db' t"
proof -
  have "mirrors P db' r' \<and> (aq_micros P now < t \<longrightarrow> stamped_before db' t)"
    using assms(4)
  proof (cases rule: register_anchor_cases)
    case refused
    with assms(2,3) show ?thesis by (auto simp: stamped_before_def)
  next
    case (added a)
    let ?a = "stored_anchor P a"
    have at: "an_at ?a = aq_micros P now" using added by (simp add: stored_anchor_def)
    have "aq_order P (nb_anchors db @ [?a]) = aq_order P (nb_anchors db) @ [?a]"
      by (rule order_snoc [OF assms(1)]) (use assms(3) at in \<open>auto simp: stamped_before_def\<close>)
    with added assms(2) have "mirrors P db' r'" by (simp add: mirrors_eq rounded_index)
    moreover have "aq_micros P now < t \<longrightarrow> stamped_before db' t"
      using assms(3) at added by (auto simp: stamped_before_def)
    ultimately show ?thesis by blast
  qed
  then show "mirrors P db' r'" and "aq_micros P now < t \<Longrightarrow> stamped_before db' t" by blast+
qed

lemma load_mirrors:
  assumes "sql_doc P" and "load_registry P None db r0 = (None, r)" and "\<forall>a \<in> set (nb_anchors db). stored_anchor P a = a"
  shows "mirrors P db r"
proof -
  have "set (aq_order P (nb_anchors db)) = set (nb_anchors db)"
    using assms(1) by (intro mset_eq_setD) (simp add: sql_doc_def)
  with rounded_fold [OF _ rounded_empty, of "aq_order P (nb_anchors db)" P] assms(2,3) show ?thesis
    by (auto simp: mirrors_eq load_registry_def list_anchors_def)
qed

text \<open>
  C31: a process that loaded the registry from the table and then registered anchors, some of them in vain, has in
  memory what a restart would load, up to the rounding of the times of registration: the same anchors under the
  same identifiers and, for every asset, the same anchors in the same order. This needs times of registration that
  increase and stay apart when the table rounds them; rows with equal times come back in any order.
\<close>

theorem registry_survives_restart:
  assumes "sql_doc P" and "load_registry P None db r0 = (None, r)"
    and "distinct (map an_at (nb_anchors db))" and "\<forall>a \<in> set (nb_anchors db). stored_anchor P a = a"
    and "sorted_wrt (<) (map (\<lambda>y. aq_micros P (ry_now y)) ys)"
    and "\<forall>a \<in> set (nb_anchors db). \<forall>y \<in> set ys. an_at a < aq_micros P (ry_now y)"
    and "register_all P U ys r db = (r', db')"
  shows "load_registry P None db' empty_registry = (None, rounded_registry P r')"
proof -
  have "\<forall>y \<in> set ys. stamped_before db (aq_micros P (ry_now y))" using assms(3,6) by (auto simp: stamped_before_def)
  with load_mirrors [OF assms(1,2,4)] assms(5,7) have "mirrors P db' r'"
  proof (induction ys arbitrary: r db)
    case (Cons y ys)
    obtain res r1 db1 where step: "register_anchor P U (ry_get y) (ry_uuid y) (ry_now y) (ry_q y) (ry_home y) r db = (res, r1, db1)"
      by (metis prod_cases3)
    have s: "stamped_before db (aq_micros P (ry_now y))" using Cons.prems(4) by simp
    note m = register_mirrors [OF assms(1) Cons.prems(1) s step]
    have "\<forall>z \<in> set ys. stamped_before db1 (aq_micros P (ry_now z))" using m(2) Cons.prems(2) by simp
    with Cons.IH [OF m(1)] Cons.prems(2,3) step show ?case by simp
  qed simp
  then show ?thesis by (simp add: mirrors_def)
qed

definition sample_toml :: toml_doc where
  "sample_toml = \<lparr>td_signing = ''GKEY'', td_passphrase = '''', td_auth = ''https://a/auth'', td_sep6 = ''https://a/sep6'', td_sep24 = '''',
     td_kyc = '''', td_codes = [''USDC'']\<rparr>"

definition sample_listing :: "string \<Rightarrow> go_time \<Rightarrow> registration" where
  "sample_listing h t = \<lparr>ry_home = h, ry_uuid = h, ry_now = t, ry_get = (\<lambda>_. Inr (200, Inr sample_toml)), ry_q = None\<rparr>"

definition no_anchors :: anchor_db where
  "no_anchors = \<lparr>nb_anchors = [], nb_txs = []\<rparr>"

text \<open>A database that keeps whole microseconds and orders equal times as the rows were written.\<close>

definition sample_sql :: anchor_sql where
  "sample_sql = \<lparr>aq_micros = (\<lambda>t. t div 1000 * 1000), aq_order = sort_key an_at\<rparr>"

lemma sample_sql_doc: "sql_doc sample_sql"
  by (simp add: sql_doc_def sample_sql_def)

lemma registry_survives_restart_witness:
  "case register_all sample_sql ascii_tables [sample_listing ''a.com'' 1001, sample_listing ''b.com'' 2002] empty_registry no_anchors of
     (r, db) \<Rightarrow> load_registry sample_sql None db empty_registry = (None, rounded_registry sample_sql r) \<and> length (nb_anchors db) = 2"
proof -
  let ?ys = "[sample_listing ''a.com'' 1001, sample_listing ''b.com'' 2002]"
  obtain r db where run: "register_all sample_sql ascii_tables ?ys empty_registry no_anchors = (r, db)" by fastforce
  have "length (nb_anchors (snd (register_all sample_sql ascii_tables ?ys empty_registry no_anchors))) = 2" by code_simp
  moreover have "load_registry sample_sql None no_anchors empty_registry = (None, empty_registry)"
    by (simp add: load_registry_def list_anchors_def sample_sql_def no_anchors_def)
  ultimately show ?thesis using registry_survives_restart [OF sample_sql_doc _ _ _ _ _ run] run
    by (simp add: sample_listing_def no_anchors_def sample_sql_def)
qed

text \<open>
  Without times that differ after rounding the order may change: of two anchors registered within a microsecond the
  second may serve an asset after the restart.
\<close>

lemma tied_anchors_swap:
  "let P = sample_sql\<lparr>aq_order := \<lambda>as. sort_key an_at (rev as)\<rparr>;
       run = register_all P ascii_tables [sample_listing ''a.com'' 1001, sample_listing ''b.com'' 1002] empty_registry no_anchors in
   map_sum id an_id (resolve_for_asset ''USDC'' (fst run)) = Inr ''a.com'' \<and>
   map_sum id an_id (resolve_for_asset ''USDC'' (snd (load_registry P None (snd run) empty_registry))) = Inr ''b.com''"
  by code_simp

text \<open>
  A successful registration leaves every asset that some anchor serves with that anchor, and gives all the
  other assets of the new document to the new anchor, for every tenant.
\<close>

theorem first_anchor_serves:
  assumes "register_anchor P U get uuid now q home r db = (Inr a, r', db')"
  shows "resolve_for_asset s r' = (case resolve_for_asset s r of Inr b \<Rightarrow> Inr b
    | Inl e \<Rightarrow> if s \<in> set (an_assets a) then Inr a else Inl e)"
  using assms
proof (cases rule: register_anchor_cases)
  case (added b)
  then have r': "rg_assets r' s = rg_assets r s @ replicate (count_list (an_assets a) s) a" by (simp add: index_anchor_assets)
  have "count_list (an_assets a) s = 0 \<longleftrightarrow> s \<notin> set (an_assets a)" by (simp add: count_list_0_iff)
  with r' show ?thesis
    by (cases "rg_assets r s"; cases "count_list (an_assets a) s") (auto simp: resolve_for_asset_def)
qed simp

lemma first_anchor_serves_witness:
  "\<exists>a r db b r1 db1. register_anchor sample_sql ascii_tables (\<lambda>_. Inr (200, Inr sample_toml)) ''1'' 1 None ''a.com'' empty_registry no_anchors
       = (Inr a, r, db) \<and>
     register_anchor sample_sql ascii_tables (\<lambda>_. Inr (200, Inr sample_toml)) ''2'' 2 None ''b.com'' r db = (Inr b, r1, db1) \<and>
     resolve_for_asset ''USDC'' r1 = Inr a"
proof -
  have n: "normalize_home_domain ascii_tables ''a.com'' = ''a.com''" "normalize_home_domain ascii_tables ''b.com'' = ''b.com''"
    by code_simp+
  let ?reg = "register_anchor sample_sql ascii_tables (\<lambda>_. Inr (200, Inr sample_toml))"
  obtain a r db where one: "?reg ''1'' 1 None ''a.com'' empty_registry no_anchors = (Inr a, r, db)" and a: "''USDC'' \<in> set (an_assets a)"
    and db: "map an_id (nb_anchors db) = [''1'']" "map an_home (nb_anchors db) = [''a.com'']"
    by (simp add: register_anchor_def fetch_stellar_toml_def n sample_toml_def create_anchor_def stored_anchor_def anchor_of_toml_def no_anchors_def Let_def)
  obtain b r1 db1 where two: "?reg ''2'' 2 None ''b.com'' r db = (Inr b, r1, db1)"
    using db by (auto simp: register_anchor_def fetch_stellar_toml_def n sample_toml_def create_anchor_def anchor_of_toml_def Let_def)
  have "resolve_for_asset ''USDC'' r = Inr a"
    using first_anchor_serves [OF one, of "''USDC''"] a by (simp add: resolve_for_asset_def empty_registry_def)
  with first_anchor_serves [OF two, of "''USDC''"] one two show ?thesis by auto
qed
section \<open>Sessions and records\<close>

lemma challenge_for_Inr:
  assumes "challenge_for V auth home pass key client = Inr ch"
  obtains host where "nv_host V auth = Inr host" "nv_read V ch key pass host [home] = Inr client" "ch \<noteq> ''''"
  using assms by (auto simp: challenge_for_def split: sum.splits prod.splits if_splits)

text \<open>
  C32: a login at an anchor, successful or not, signs with the wallet's secret nothing, or one challenge and that
  only if the library accepts it as signed by the anchor's key for the anchor's home domain, host and network, with
  the wallet's own account as its client. The envelope goes to the anchor and nowhere else, and a session is the
  token that the anchor answers to it.
\<close>

theorem session_answers_own_challenge:
  assumes "anchor_login S V a public_key secret = (res, events)"
  shows "(events = [] \<and> (\<exists>e. res = Inl e)) \<or>
    (\<exists>pass host ch envelope. pass = (if an_passphrase a = '''' then network_passphrase S else an_passphrase a) \<and>
      events = [Signed pass ch secret, Sent (an_auth a) envelope] \<and>
      nv_host V (an_auth a) = Inr host \<and> nv_read V ch (an_key a) pass host [an_home a] = Inr public_key \<and>
      nv_sign V pass ch secret = Inr envelope \<and>
      (\<forall>jwt. res = Inr jwt \<longrightarrow>
         (\<exists>body t. nv_token V (an_auth a) envelope = Inr (200, body, Inr t) \<and> tk_error t = '''' \<and> tk_token t = jwt \<and> jwt \<noteq> '''')))"
proof -
  let ?p = "if an_passphrase a = '''' then network_passphrase S else an_passphrase a"
  let ?c = "challenge_for V (an_auth a) (an_home a) ?p (an_key a) public_key"
  consider (refused) e where "?c = Inl e" | (unsigned) ch e where "?c = Inr ch" "nv_sign V ?p ch secret = Inl e"
    | (signed) ch envelope where "?c = Inr ch" "nv_sign V ?p ch secret = Inr envelope"
    by (metis sum.exhaust)
  then show ?thesis
  proof cases
    case refused
    with assms show ?thesis unfolding anchor_login_def Let_def by auto
  next
    case unsigned
    with assms show ?thesis unfolding anchor_login_def Let_def by (auto simp: authenticate_challenge_def)
  next
    case signed
    from signed(1) obtain host where h: "nv_host V (an_auth a) = Inr host" "nv_read V ch (an_key a) ?p host [an_home a] = Inr public_key"
      by (rule challenge_for_Inr)
    from assms signed have e: "events = [Signed ?p ch secret, Sent (an_auth a) envelope]"
      and r: "res = map_sum (Wrap ''sep-10 authenticate'') id (fst (authenticate_challenge V (an_auth a) ?p ch secret))"
      unfolding anchor_login_def Let_def by (auto simp: authenticate_challenge_def)
    have "\<exists>body t. nv_token V (an_auth a) envelope = Inr (200, body, Inr t) \<and> tk_error t = '''' \<and> tk_token t = jwt \<and> jwt \<noteq> ''''"
      if "res = Inr jwt" for jwt
      using that r signed(2) by (auto simp: authenticate_challenge_def map_sum_def split: sum.splits prod.splits if_splits)
    with h e signed(2) show ?thesis by blast
  qed
qed

definition sample_anchor :: anchor where
  "sample_anchor = anchor_of_toml ''1'' 1 ''a.com'' sample_toml"

definition sample_anchor_service :: anchor_service where
  "sample_anchor_service = \<lparr>aw_gcm = plain_gcm, aw_key = replicate 32 (CHR ''k''), aw_network = ''testnet'', aw_public = ''P'',
     aw_test = ''T''\<rparr>"

definition sample_anchor_env :: anchor_env where
  "sample_anchor_env = \<lparr>nv_q = (\<lambda>_. None), nv_uuid = ''u'', nv_now = 5, nv_host = (\<lambda>u. Inr ''a''), nv_scheme = (\<lambda>u. Some ''https''),
     nv_challenge = (\<lambda>u a h. Inr (200, '''', Inr \<lparr>ch_transaction = ''tx'' @ a, ch_error = ''''\<rparr>)),
     nv_read = (\<lambda>t k p h ds. Inr (drop 2 t)), nv_sign = (\<lambda>p t s. Inr (t @ s)),
     nv_token = (\<lambda>u e. Inr (200, '''', Inr \<lparr>tk_token = ''jwt'', tk_error = ''''\<rparr>)),
     nv_sep6 = (\<lambda>u q j. Inr (200, '''', Inr \<lparr>tn_id = ''x'', tn_body = ''''\<rparr>)),
     nv_sep24 = (\<lambda>u q j. Inr (200, '''', Inr \<lparr>ia_error = '''', ia_url = ''https://a'', ia_id = ''x''\<rparr>)),
     nv_poll = (\<lambda>u i j. Inr (200, '''', Inr ''completed''))\<rparr>"

lemmas sample_anchor_defs = sample_anchor_def anchor_of_toml_def sample_toml_def sample_anchor_service_def sample_anchor_env_def

lemma sample_login: "anchor_login sample_anchor_service sample_anchor_env sample_anchor pk secret
    = (Inr ''jwt'', [Signed ''T'' (''tx'' @ pk) secret, Sent ''https://a/auth'' (''tx'' @ pk @ secret)])"
  by (simp add: anchor_login_def challenge_for_def authenticate_challenge_def sample_anchor_defs network_passphrase_def Let_def)

lemma session_answers_own_challenge_witness:
  "\<exists>host. anchor_login sample_anchor_service sample_anchor_env sample_anchor ''GPK'' ''S'' =
      (Inr ''jwt'', [Signed ''T'' ''txGPK'' ''S'', Sent ''https://a/auth'' ''txGPKS'']) \<and>
    nv_read sample_anchor_env ''txGPK'' ''GKEY'' ''T'' host [''a.com''] = Inr ''GPK''"
proof -
  have run: "anchor_login sample_anchor_service sample_anchor_env sample_anchor ''GPK'' ''S'' =
      (Inr ''jwt'', [Signed ''T'' ''txGPK'' ''S'', Sent ''https://a/auth'' ''txGPKS''])"
    by (simp add: sample_login)
  from session_answers_own_challenge [OF run] run show ?thesis
    by (auto simp: network_passphrase_def sample_anchor_def anchor_of_toml_def sample_toml_def sample_anchor_service_def)
qed

text \<open>
  A lookup that answers belongs to a wallet of the caller's tenant, reports the stored record with the
  status the anchor has now, if it tells one, writes that status to this row and touches no other; the
  time of completion is set exactly when the status turns to completed.
\<close>

theorem lookup_mirrors_anchor:
  assumes "anchor_transaction S V c r i w db = (Inr t', db')" and "distinct (map ax_id (nb_txs db))"
  shows "\<exists>t s. row_with ax_id i (nb_txs db) = Some t \<and> anchor_status S V c r t w = Inr s \<and> wallet_of_tenant (ctx_tenant c) w (ax_wallet t) \<and>
    t' = (if s = '''' \<or> s = ax_status t then t
          else t\<lparr>ax_status := s, ax_completed := if s = ''completed'' then Some (nv_now V) else None\<rparr>) \<and>
    row_with ax_id i (nb_txs db') = Some t' \<and> (\<forall>j. j \<noteq> i \<longrightarrow> row_with ax_id j (nb_txs db') = row_with ax_id j (nb_txs db)) \<and>
    nb_anchors db' = nb_anchors db"
proof -
  let ?c = "ctx_tenant c"
  from assms(1) obtain t where f: "anchor_tx_by_id (nv_q V AtFetch) ?c i w db = Inr t"
    by (cases "anchor_tx_by_id (nv_q V AtFetch) ?c i w db") (auto simp: anchor_transaction_def)
  then have t: "t \<in> set (nb_txs db)" "ax_id t = i" "wallet_of_tenant ?c w (ax_wallet t)"
    by (auto simp: anchor_tx_by_id_def find_Some_iff split: option.splits)
  then have row: "row_with ax_id i (nb_txs db) = Some t" using row_with_unique [OF assms(2)] by blast
  from assms(1) f obtain s where st: "anchor_status S V c r t w = Inr s"
    by (cases "anchor_status S V c r t w") (auto simp: anchor_transaction_def)
  with assms(1) f have s: "(if s = '''' \<or> s = ax_status t then (Inr t, db)
      else (case update_anchor_tx (nv_q V AtStatus) (ax_id t) s (if s = ''completed'' then Some (nv_now V) else None) ?c w db of
              (Some e, db1) \<Rightarrow> (Inl (Wrap ''update transaction status'' e), db1)
            | (None, db1) \<Rightarrow> (Inr (t\<lparr>ax_status := s, ax_completed := if s = ''completed'' then Some (nv_now V) else None\<rparr>), db1)))
      = (Inr t', db')"
    unfolding anchor_transaction_def Let_def by simp
  show ?thesis
  proof (cases "s = '''' \<or> s = ax_status t")
    case True
    with s st row t show ?thesis by (intro exI [of _ t] exI [of _ s]) auto
  next
    case False
    let ?f = "\<lambda>t. t\<lparr>ax_status := s, ax_completed := if s = ''completed'' then Some (nv_now V) else None\<rparr>"
    from s False have u: "t' = ?f t" "db' = db\<lparr>nb_txs := update_where (\<lambda>t. ax_id t = i \<and> wallet_of_tenant ?c w (ax_wallet t)) ?f (nb_txs db)\<rparr>"
      using t(2) by (auto simp: update_anchor_tx_def split: option.splits)
    have "row_with ax_id i (nb_txs db') = Some t'" using u row t(3) by (simp add: keyed_update)
    moreover have "\<forall>j. j \<noteq> i \<longrightarrow> row_with ax_id j (nb_txs db') = row_with ax_id j (nb_txs db)" using u by (simp add: keyed_update)
    moreover have "nb_anchors db' = nb_anchors db" using u by simp
    ultimately show ?thesis using False st row t u by (intro exI [of _ t] exI [of _ s]) simp
  qed
qed
definition sample_anchor_tx :: anchor_tx where
  "sample_anchor_tx = \<lparr>ax_id = ''t'', ax_user = '''', ax_wallet = ''n'', ax_anchor = ''1'', ax_external = ''x'', ax_asset = ''USDC'',
     ax_amount = ''1'', ax_type = type_deposit, ax_status = ''incomplete'', ax_created = 0, ax_completed = None\<rparr>"

text \<open>A custodial wallet with a sealed secret, and the record of a deposit.\<close>

definition custodial_world :: world where
  "custodial_world = empty_world\<lparr>w_wallets := [(sample_wallet ''n'' ''GPK'')\<lparr>wa_secret :=
     hex_encode (replicate 12 (CHR ''n'') @ gm_seal plain_gcm (replicate 32 (CHR ''k'')) (replicate 12 (CHR ''n'')) ''SEED'')\<rparr>]\<rparr>"

lemma sample_open: "open_secret sample_anchor_service (hex_encode (replicate 12 (CHR ''n'') @ gm_seal plain_gcm
    (replicate 32 (CHR ''k'')) (replicate 12 (CHR ''n'')) ''SEED'')) = Inr ''SEED''"
proof -
  have "encrypt plain_gcm (Inr (replicate 12 (CHR ''n''))) ''SEED'' (replicate 32 (CHR ''k''))
      = Inr (replicate 12 (CHR ''n'') @ gm_seal plain_gcm (replicate 32 (CHR ''k'')) (replicate 12 (CHR ''n'')) ''SEED'')"
    by (simp add: encrypt_def)
  from decrypt_encrypt [OF plain_gcm_doc this] show ?thesis
    by (simp add: open_secret_def sample_anchor_service_def nonce_size_def)
qed

lemma lookup_mirrors_anchor_witness:
  "\<exists>t db. anchor_transaction sample_anchor_service sample_anchor_env no_tenant (empty_registry\<lparr>rg_ids := [''1'' \<mapsto> sample_anchor]\<rparr>) ''t''
     custodial_world (no_anchors\<lparr>nb_txs := [sample_anchor_tx]\<rparr>) = (Inr t, db) \<and> row_with ax_id ''t'' (nb_txs db) = Some t \<and> ax_status t = ''completed''"
proof -
  let ?r = "empty_registry\<lparr>rg_ids := [''1'' \<mapsto> sample_anchor]\<rparr>"
  let ?db = "no_anchors\<lparr>nb_txs := [sample_anchor_tx]\<rparr>"
  have st: "anchor_status sample_anchor_service sample_anchor_env no_tenant ?r sample_anchor_tx custodial_world = Inr ''completed''"
  proof -
    let ?x = "hd (w_wallets custodial_world)"
    have "get_wallet no_tenant None ''n'' custodial_world = Inr ?x"
      by (simp add: get_wallet_def custodial_world_def empty_world_def no_tenant_def in_scope_def sample_wallet_def)
    moreover have "nv_q sample_anchor_env AtOpen = None" by (simp add: sample_anchor_env_def)
    moreover have "open_secret sample_anchor_service (wa_secret ?x) = Inr ''SEED''"
      by (simp add: custodial_world_def empty_world_def sample_open)
    moreover have "registered (ax_anchor sample_anchor_tx) ?r = Inr sample_anchor" "ax_wallet sample_anchor_tx = ''n''"
      by (simp_all add: registered_def sample_anchor_tx_def)
    moreover have "poll_transaction p sample_anchor_env u j e = Inr ''completed''" for p u j e
      by (simp add: poll_transaction_def anchor_answer_def sample_anchor_env_def)
    ultimately show ?thesis by (simp add: anchor_status_def sample_login)
  qed
  have f: "anchor_tx_by_id (nv_q sample_anchor_env AtFetch) (ctx_tenant no_tenant) ''t'' custodial_world ?db = Inr sample_anchor_tx"
    by (simp add: anchor_tx_by_id_def wallet_of_tenant_def custodial_world_def sample_anchor_env_def sample_anchor_tx_def sample_wallet_def
        empty_world_def no_tenant_def ctx_tenant_def no_anchors_def)
  obtain t db where run: "anchor_transaction sample_anchor_service sample_anchor_env no_tenant ?r ''t'' custodial_world ?db = (Inr t, db)"
    "ax_status t = ''completed''"
    using f st by (simp add: anchor_transaction_def update_anchor_tx_def Let_def sample_anchor_env_def sample_anchor_tx_def split: prod.splits)
  have "distinct (map ax_id (nb_txs ?db))" by simp
  from lookup_mirrors_anchor [OF run(1) this] run show ?thesis by blast
qed

text \<open>
  What the custodial service stores for a new wallet, the anchor service opens to the secret seed.
\<close>

theorem anchor_opens_custodial_secret:
  assumes "create_wallet S E c w = (Inr x, w1)" and "wn_keypair E = Inr (pub, seed)" and "wn_nonce E = Inr nonce"
    and "length nonce = nonce_size" and "gcm_doc (wv_gcm S)" and "aw_gcm A = wv_gcm S" and "aw_key A = wv_key S"
  shows "open_secret A (wa_secret x) = Inr seed"
proof -
  have made: "create_custodial S E (Inr (pub, seed)) c w = (Inr x, w1)"
    using assms(1,2) by (simp add: create_wallet_def generate_keypair_def)
  then obtain sealed where "encrypt (wv_gcm S) (Inr nonce) seed (wv_key S) = Inr sealed" and "wa_secret x = hex_encode sealed"
    by (rule create_custodial_cases) (use assms(3) in auto)
  with decrypt_encrypt [OF assms(5) _ assms(4)] assms(6,7) show ?thesis by (simp add: open_secret_def)
qed

lemma anchor_opens_custodial_secret_witness:
  "\<exists>x w. create_wallet (sample_wallet_service\<lparr>wv_gcm := plain_gcm\<rparr>) sample_wallet_env no_tenant empty_world = (Inr x, w) \<and>
     open_secret sample_anchor_service (wa_secret x) = Inr sample_seed"
proof -
  let ?S = "sample_wallet_service\<lparr>wv_gcm := plain_gcm\<rparr>"
  obtain x w where x: "create_wallet ?S sample_wallet_env no_tenant empty_world = (Inr x, w)"
    by (simp add: create_wallet_def create_custodial_def wallet_limit_hit_def generate_keypair_def encrypt_def
        insert_wallet_def sample_wallet_service_def sample_wallet_env_def no_tenant_def empty_world_def ref_ok_def Let_def)
  have "wn_keypair sample_wallet_env = Inr (''GNEW'', sample_seed)" "wn_nonce sample_wallet_env = Inr sample_nonce"
    "length sample_nonce = nonce_size" "gcm_doc (wv_gcm ?S)" "aw_gcm sample_anchor_service = wv_gcm ?S" "aw_key sample_anchor_service = wv_key ?S"
    by (simp_all add: sample_wallet_env_def sample_nonce_def nonce_size_def plain_gcm_doc sample_anchor_service_def sample_wallet_service_def)
  from anchor_opens_custodial_secret [OF x this] x show ?thesis by blast
qed

end
