(* ===== verification/Routing.thy ===== *)
theory Routing
  imports Fiat Rails Xdc_Settlement Refresh "HOL-Library.Multiset"
begin

text \<open>
  Cross-border payments over a choice of routes: \<^verbatim>\<open>internal/routing\<close> and the two routes of \<^verbatim>\<open>internal/fiat\<close>. The
  evaluator asks the registered routes, the scorer ranks their quotes, the compliance checker classifies a
  payment, and the handler answers with the options or executes one of them. The rate service, the chain and
  Stripe are parameters.

  A float64 is the rational it stands for, and every operation on floats rounds its exact result with \<open>fl\<close>, as
  IEEE 754 prescribes; nothing here overflows to an infinity.
\<close>

section \<open>Quotes and routes\<close>

record route_quote =
  rq_route :: string
  rq_name :: string
  rq_source :: string
  rq_dest :: string
  rq_amount :: decimal
  rq_dest_amount :: decimal
  rq_rate :: decimal
  rq_spread :: int
  rq_fee :: decimal
  rq_fee_asset :: string
  rq_settlement :: int
  rq_expires :: go_time
  rq_provider :: string

record payment_request =
  pq_source :: string
  pq_dest :: string
  pq_amount :: decimal
  pq_source_region :: string
  pq_dest_region :: string
  pq_risk :: string
  pq_address :: string

text \<open>A route; executing it may send to the chain.\<close>

record payment_route =
  rt_id :: string
  rt_name :: string
  rt_supports :: "string \<Rightarrow> string \<Rightarrow> string \<Rightarrow> string \<Rightarrow> bool"
  rt_quote :: "string \<Rightarrow> string \<Rightarrow> decimal \<Rightarrow> err + route_quote"
  rt_execute :: "payment_request \<Rightarrow> route_quote \<Rightarrow> world \<Rightarrow> (err + string) \<times> world"

definition pair :: "string \<Rightarrow> string \<Rightarrow> string" where
  "pair from to = from @ ''-'' @ to"

definition on_chain_xdc :: string where "on_chain_xdc = ''onchain_xdc''"
definition fiat_ngn :: string where "fiat_ngn = ''fiat_ngn''"
definition fiat_kes :: string where "fiat_kes = ''fiat_kes''"

section \<open>The evaluator\<close>

text \<open>
  The quotes are collected concurrently: \<open>arrive\<close> is the order in which they come in.
\<close>

definition route_quotes :: "payment_route list \<Rightarrow> payment_request \<Rightarrow> route_quote list" where
  "route_quotes rs r = concat (map (\<lambda>x.
     if rt_supports x (pq_source r) (pq_dest r) (pq_source_region r) (pq_dest_region r)
     then (case rt_quote x (pq_source r) (pq_dest r) (pq_amount r) of Inl e \<Rightarrow> [] | Inr q \<Rightarrow> [q]) else []) rs)"

datatype evaluation = No_Registered_Routes | No_Routes string | Quotes "route_quote list"

definition evaluate ::
  "payment_route list \<Rightarrow> (route_quote list \<Rightarrow> route_quote list) \<Rightarrow> payment_request \<Rightarrow> evaluation" where
  "evaluate rs arrive r =
     (if rs = [] then No_Registered_Routes
      else case arrive (route_quotes rs r) of [] \<Rightarrow> No_Routes (pair (pq_source r) (pq_dest r)) | q # qs \<Rightarrow> Quotes (q # qs))"

definition supports_pair :: "payment_route list \<Rightarrow> string \<Rightarrow> string \<Rightarrow> bool" where
  "supports_pair rs from to \<longleftrightarrow> (\<exists>x \<in> set rs. rt_supports x from to '''' '''')"

section \<open>Compliance\<close>

datatype risk_level = RiskLow | RiskMedium | RiskHigh | RiskBlocked

record route_check =
  rk_level :: risk_level
  rk_score :: int
  rk_blocked :: bool
  rk_warnings :: "string list"
  rk_checks :: "string list"

record route_checker =
  rk_max :: decimal
  rk_text :: "decimal \<Rightarrow> string"

definition default_checker :: "(decimal \<Rightarrow> string) \<Rightarrow> route_checker" where
  "default_checker txt = \<lparr>rk_max = 10000000, rk_text = txt\<rparr>"

definition risk_class :: "int \<Rightarrow> risk_level" where
  "risk_class s = (if s \<ge> 70 then RiskBlocked else if s \<ge> 40 then RiskHigh else if s \<ge> 20 then RiskMedium else RiskLow)"

text \<open>The dash in two of the warnings, in UTF-8.\<close>

definition em_dash :: string where
  "em_dash = [CHR 0xE2, CHR 0x80, CHR 0x94]"

definition check_route :: "route_checker \<Rightarrow> payment_request \<Rightarrow> string \<Rightarrow> route_check" where
  "check_route C r route =
     (let over = pq_amount r > rk_max C;
          w1 = (if over then [''amount '' @ rk_text C (pq_amount r) @ '' exceeds limit '' @ rk_text C (rk_max C)] else []);
          s1 = (if over then 40 else 10 :: int) in
      if over \<and> pq_amount r > rk_max C * 5 then
        \<lparr>rk_level = RiskBlocked, rk_score = s1, rk_blocked = True,
         rk_warnings = w1 @ [''amount exceeds 5x limit '' @ em_dash @ '' blocked''], rk_checks = [''amount_limit'']\<rparr>
      else
       (let s2 = (if pq_risk r = ''high'' then s1 + 25 else if pq_risk r = ''medium'' then s1 + 10 else s1);
            w2 = (if pq_risk r = ''high'' then w1 @ [''high risk profile flagged''] else w1);
            fiat = (route = fiat_ngn \<or> route = fiat_kes);
            s3 = (if fiat then s2 + 10 else s2) in
        \<lparr>rk_level = risk_class s3, rk_score = s3, rk_blocked = (s3 \<ge> 70),
         rk_warnings = (if fiat then w2 @ [''fiat route '' @ em_dash @ '' additional KYC may apply''] else w2),
         rk_checks = [''amount_limit'', ''risk_profile'', ''route_type'']\<rparr>))"

section \<open>The scorer\<close>

record weights =
  wg_cost :: rat
  wg_speed :: rat
  wg_reliability :: rat
  wg_compliance :: rat
  wg_liquidity :: rat

text \<open>\<open>fl\<close> rounds to the nearest float64; constants of the source are rounded too.\<close>

definition default_weights :: "(rat \<Rightarrow> rat) \<Rightarrow> weights" where
  "default_weights fl = \<lparr>wg_cost = fl (35/100), wg_speed = fl (1/4), wg_reliability = fl (1/5), wg_compliance = fl (1/10),
     wg_liquidity = fl (1/10)\<rparr>"

record scorer =
  so_weights :: weights
  so_mode :: string
  so_history :: "string \<rightharpoonup> rat"

definition new_scorer :: "(rat \<Rightarrow> rat) \<Rightarrow> weights \<Rightarrow> string \<Rightarrow> scorer" where
  "new_scorer fl w mode = \<lparr>so_weights = (if wg_cost w = 0 \<and> wg_speed w = 0 then default_weights fl else w), so_mode = mode,
     so_history = Map.empty\<rparr>"

definition update_success_rate :: "(rat \<Rightarrow> rat) \<Rightarrow> string \<Rightarrow> bool \<Rightarrow> scorer \<Rightarrow> scorer" where
  "update_success_rate fl route ok s =
     (let current = (case so_history s route of None \<Rightarrow> 0 | Some x \<Rightarrow> x);
          decayed = fl (current * fl (9/10)) in
      s\<lparr>so_history := (so_history s)(route \<mapsto> if ok then fl (decayed + fl (1/10)) else decayed)\<rparr>)"

record route_score =
  rs_quote :: route_quote
  rs_score :: rat
  rs_cost :: rat
  rs_speed :: rat
  rs_reliability :: rat
  rs_compliance :: rat
  rs_liquidity :: rat
  rs_recommended :: bool

definition clamp :: "rat \<Rightarrow> rat" where
  "clamp v = (if v < 0 then 0 else if v > 100 then 100 else v)"

definition speed_score :: "int \<Rightarrow> rat" where
  "speed_score d = (if d \<le> 30 * second then 100 else if d \<le> 5 * minute then 80 else if d \<le> 30 * minute then 50 else 20)"

fun best_ratio :: "decimal_pkg \<Rightarrow> route_quote list \<Rightarrow> decimal \<Rightarrow> decimal" where
  "best_ratio D [] b = b"
| "best_ratio D (q # qs) b =
     best_ratio D qs (if rq_amount q > 0 \<and> d_div D (rq_dest_amount q) (rq_amount q) > b
       then d_div D (rq_dest_amount q) (rq_amount q) else b)"

definition liquidity_score :: "decimal_pkg \<Rightarrow> (rat \<Rightarrow> rat) \<Rightarrow> decimal \<Rightarrow> route_quote \<Rightarrow> rat" where
  "liquidity_score D fl best q =
     (if rq_amount q > 0 \<and> best > 0 then clamp (fl (d_div D (d_div D (rq_dest_amount q) (rq_amount q)) best * 100)) else 85)"

text \<open>\<open>None\<close>: the division by a zero source amount panics.\<close>

definition score_quote :: "decimal_pkg \<Rightarrow> (rat \<Rightarrow> rat) \<Rightarrow> scorer \<Rightarrow> decimal \<Rightarrow> route_quote \<Rightarrow> route_score option" where
  "score_quote D fl s best q =
     (if rq_amount q = 0 then None else Some
     (let cost_pct = fl (d_div D (rq_fee q) (rq_amount q) * 100);
          combined = fl (cost_pct + fl (fl (of_int (rq_spread q)) / 100));
          cost = clamp (fl (100 - fl (combined * 10)));
          speed = speed_score (rq_settlement q);
          rel = (case so_history s (rq_route q) of None \<Rightarrow> 85 | Some x \<Rightarrow> fl (x * 100));
          liq = liquidity_score D fl best q;
          w = so_weights s;
          sum1 = fl (fl (cost * wg_cost w) + fl (speed * wg_speed w));
          sum2 = fl (sum1 + fl (rel * wg_reliability w));
          sum3 = fl (sum2 + fl (85 * wg_compliance w));
          base = fl (sum3 + fl (liq * wg_liquidity w));
          bias = (\<lambda>x. fl (fl (base * fl (6/10)) + fl (x * fl (4/10))));
          score = (if so_mode s = ''cheapest'' then bias cost else if so_mode s = ''fastest'' then bias speed
            else if so_mode s = ''most_reliable'' then bias rel else base)
      in \<lparr>rs_quote = q, rs_score = score, rs_cost = cost, rs_speed = speed, rs_reliability = rel, rs_compliance = 85,
          rs_liquidity = liq, rs_recommended = False\<rparr>))"

text \<open>The order that is given to \<^verbatim>\<open>sort.Slice\<close>, which is the parameter \<open>srt\<close>.\<close>

definition higher_score :: "route_score \<Rightarrow> route_score \<Rightarrow> bool" where
  "higher_score a b \<longleftrightarrow> rs_score a > rs_score b"

type_synonym slice_sort = "(route_score \<Rightarrow> route_score \<Rightarrow> bool) \<Rightarrow> route_score list \<Rightarrow> route_score list"

definition score_and_rank ::
  "decimal_pkg \<Rightarrow> (rat \<Rightarrow> rat) \<Rightarrow> slice_sort \<Rightarrow> scorer \<Rightarrow> route_quote list \<Rightarrow> route_score list option" where
  "score_and_rank D fl srt s qs =
     (if qs = [] then Some []
      else case those (map (score_quote D fl s (best_ratio D qs 0)) qs) of None \<Rightarrow> None
      | Some ys \<Rightarrow> (case srt higher_score ys of [] \<Rightarrow> Some [] | x # xs \<Rightarrow> Some (x\<lparr>rs_recommended := True\<rparr> # xs)))"

section \<open>The routes\<close>

text \<open>
  The mid-market rate of the rate service, where there is one and it is positive; the static rate of the
  corridor otherwise.
\<close>

type_synonym rate_source = "(string \<Rightarrow> string \<Rightarrow> err + decimal) option"

definition live_rate :: "rate_source \<Rightarrow> string \<Rightarrow> string \<Rightarrow> decimal \<Rightarrow> decimal" where
  "live_rate fx from to fallback =
     (case fx of None \<Rightarrow> fallback
      | Some f \<Rightarrow> (case f from to of Inl e \<Rightarrow> fallback | Inr m \<Rightarrow> if m > 0 then m else fallback))"

text \<open>A corridor of the bridge: static rate, spread, fee in percent, asset of the fee.\<close>

definition bridge_corridors :: "(string \<times> decimal \<times> int \<times> decimal \<times> string) list" where
  "bridge_corridors =
     [(''INR-EUR'', 1105/100000, 10, 1/2, ''INR''), (''EUR-INR'', 898/10, 10, 1/2, ''EUR''),
      (''NGN-USDC'', 665/1000000, 15, 8/10, ''NGN''), (''INR-TXDC'', 12/1000, 10, 1/2, ''INR''),
      (''TXDC-INR'', 83, 10, 1/2, ''TXDC''), (''NGN-TXDC'', 23/1000000, 15, 8/10, ''NGN''),
      (''INR-USDC'', 0, 5, 4/10, ''INR''), (''USDC-INR'', 0, 5, 4/10, ''USDC''),
      (''USDC-TXDC'', 0, 5, 1/10, ''USDC''), (''TXDC-USDC'', 0, 5, 1/10, ''TXDC'')]"

record bridge =
  br_client :: bool
  br_key :: string
  br_recipient :: string
  br_fx :: rate_source
  br_now :: go_time
  br_answer :: "err + string"
  br_taken :: bool

definition bridge_fee :: "decimal_pkg \<Rightarrow> decimal \<Rightarrow> decimal \<Rightarrow> decimal" where
  "bridge_fee D amount pct = d_round D (amount * d_div D pct 100) 2"

definition bridge_quote :: "decimal_pkg \<Rightarrow> bridge \<Rightarrow> string \<Rightarrow> string \<Rightarrow> decimal \<Rightarrow> err + route_quote" where
  "bridge_quote D B from to amount =
     (case map_of bridge_corridors (pair from to) of
        None \<Rightarrow> Inl (Opaque (''xdc bridge: unsupported pair '' @ pair from to))
      | Some (static, spread, pct, asset) \<Rightarrow>
        (let fee = bridge_fee D amount pct; rate = live_rate (br_fx B) from to static in
         if rate = 0 then Inl (Opaque (''xdc bridge: no rate available for '' @ pair from to))
         else (let dest = d_round D ((amount - fee) * rate) 2 in
           Inr \<lparr>rq_route = ''xdc_bridge'', rq_name = ''Blockchain (XDC Stablecoin)'', rq_source = from, rq_dest = to,
             rq_amount = amount, rq_dest_amount = dest, rq_rate = d_round D (d_div D dest amount) 6, rq_spread = spread,
             rq_fee = fee, rq_fee_asset = asset, rq_settlement = 12 * second, rq_expires = br_now B + 30 * second,
             rq_provider = ''xdc_stablecoin''\<rparr>)))"

text \<open>A failed transfer is logged, and a made-up reference is returned instead of its hash.\<close>

definition bridge_reference :: "bridge \<Rightarrow> string" where
  "bridge_reference B = ''XDC-TX-'' @ format_int (br_now B mod 1000000)"

definition bridge_wei :: "route_quote \<Rightarrow> int" where
  "bridge_wei q = (if rq_dest q = ''TXDC'' \<and> rq_dest_amount q > 0 then big_int (rq_dest_amount q * 10 ^ 18) else 10 ^ 16)"

definition bridge_execute :: "bridge \<Rightarrow> payment_request \<Rightarrow> route_quote \<Rightarrow> world \<Rightarrow> (err + string) \<times> world" where
  "bridge_execute B r q w =
     (if map_of bridge_corridors (pair (pq_source r) (pq_dest r)) = None
      then (Inl (Opaque (''xdc bridge: unsupported corridor '' @ pair (pq_source r) (pq_dest r))), w)
      else if \<not> br_client B \<or> br_key B = '''' then (Inr (bridge_reference B), w)
      else (let dest = (if pq_address r = '''' then br_recipient B else pq_address r) in
        if \<not> is_valid_destination_address dest then (Inl (Opaque (''xdc bridge: invalid destination address '' @ dest)), w)
        else (case chain_transfer (br_answer B) (br_taken B) (br_key B) dest (bridge_wei q) w of
            (Inl e, w1) \<Rightarrow> (Inr (bridge_reference B), w1) | (Inr h, w1) \<Rightarrow> (Inr h, w1))))"

definition bridge_route :: "decimal_pkg \<Rightarrow> bridge \<Rightarrow> payment_route" where
  "bridge_route D B = \<lparr>rt_id = ''xdc_bridge'', rt_name = ''Blockchain (XDC Stablecoin)'',
     rt_supports = (\<lambda>from to a b. map_of bridge_corridors (pair from to) \<noteq> None), rt_quote = bridge_quote D B,
     rt_execute = bridge_execute B\<rparr>"

text \<open>A corridor of the bank route over Stripe: fee in percent, fixed fee, days, asset of the fee, static rate.\<close>

definition stripe_corridors :: "(string \<times> decimal \<times> int \<times> int \<times> string \<times> decimal) list" where
  "stripe_corridors =
     [(''INR-EUR'', 2, 300, 3, ''INR'', 109/10000), (''EUR-INR'', 15/10, 20, 2, ''EUR'', 915/10),
      (''NGN-USDC'', 14/10, 100, 2, ''NGN'', 1500), (''USDC-NGN'', 1, 50, 1, ''USDC'', 0), (''INR-USDC'', 2, 300, 1, ''INR'', 0),
      (''USDC-INR'', 12/10, 20, 1, ''USDC'', 0), (''INR-TXDC'', 18/10, 250, 2, ''INR'', 0), (''TXDC-INR'', 1, 15, 1, ''TXDC'', 0)]"

record stripe_bank =
  tb_key :: string
  tb_fx :: rate_source
  tb_now :: go_time
  tb_int :: "decimal \<Rightarrow> int"
  tb_session :: "payment_request \<Rightarrow> int \<Rightarrow> string \<Rightarrow> err + string"

definition stripe_bank_quote ::
  "decimal_pkg \<Rightarrow> (rat \<Rightarrow> rat) \<Rightarrow> stripe_bank \<Rightarrow> string \<Rightarrow> string \<Rightarrow> decimal \<Rightarrow> err + route_quote" where
  "stripe_bank_quote D fl B from to amount =
     (case map_of stripe_corridors (pair from to) of
        None \<Rightarrow> Inl (Opaque (''stripe bank: unsupported pair '' @ pair from to))
      | Some (pct, fixed, days, asset, static) \<Rightarrow>
        (let fee = d_round D (amount * d_div D pct 100 + d_div D (of_int fixed) 100) 2;
             dest = d_round D ((amount - fee) * live_rate (tb_fx B) from to static) 2 in
         Inr \<lparr>rq_route = ''stripe_bank'', rq_name = ''Bank (Stripe)'', rq_source = from, rq_dest = to, rq_amount = amount,
           rq_dest_amount = dest, rq_rate = d_round D (d_div D dest amount) 6, rq_spread = big_int (fl (fl pct * 100)),
           rq_fee = fee, rq_fee_asset = asset, rq_settlement = days * 24 * hour, rq_expires = tb_now B + 60 * second,
           rq_provider = ''stripe''\<rparr>))"

definition stripe_bank_execute :: "stripe_bank \<Rightarrow> payment_request \<Rightarrow> route_quote \<Rightarrow> world \<Rightarrow> (err + string) \<times> world" where
  "stripe_bank_execute B r q w =
     (if map_of stripe_corridors (pair (pq_source r) (pq_dest r)) = None
      then (Inl (Opaque (''stripe bank: unsupported corridor '' @ pair (pq_source r) (pq_dest r))), w)
      else (let ref = ''STRIPE-'' @ format_int (tb_now B mod 1000000) in
        if tb_key B = '''' then (Inr ref, w)
        else (case tb_session B r (tb_int B (pq_amount r * 100)) (lower_ascii (pq_source r)) of
            Inl e \<Rightarrow> (Inr ref, w) | Inr url \<Rightarrow> (Inr url, w))))"

definition stripe_bank_route :: "decimal_pkg \<Rightarrow> (rat \<Rightarrow> rat) \<Rightarrow> stripe_bank \<Rightarrow> payment_route" where
  "stripe_bank_route D fl B = \<lparr>rt_id = ''stripe_bank'', rt_name = ''Bank (Stripe)'',
     rt_supports = (\<lambda>from to a b. map_of stripe_corridors (pair from to) \<noteq> None), rt_quote = stripe_bank_quote D fl B,
     rt_execute = stripe_bank_execute B\<rparr>"

definition chain_pairs :: "string list" where
  "chain_pairs = [''TXDC-TXDC'', ''XDC-TXDC'', ''TXDC-XDC'', ''XLM-TXDC'', ''USDC-TXDC'']"

definition on_chain_quote :: "go_time \<Rightarrow> string \<Rightarrow> string \<Rightarrow> decimal \<Rightarrow> err + route_quote" where
  "on_chain_quote now from to amount =
     (if pair from to \<notin> set chain_pairs then Inl (Opaque (''on-chain XDC: unsupported pair '' @ pair from to))
      else Inr \<lparr>rq_route = on_chain_xdc, rq_name = ''On-Chain XDC'', rq_source = from, rq_dest = to, rq_amount = amount,
        rq_dest_amount = amount, rq_rate = 1, rq_spread = 0, rq_fee = 1/1000, rq_fee_asset = ''TXDC'',
        rq_settlement = 12 * second, rq_expires = now + 30 * second, rq_provider = ''xdc_rpc''\<rparr>)"

definition on_chain_route :: "go_time \<Rightarrow> payment_route" where
  "on_chain_route now = \<lparr>rt_id = on_chain_xdc, rt_name = ''On-Chain XDC'',
     rt_supports = (\<lambda>from to a b. pair from to \<in> set chain_pairs), rt_quote = on_chain_quote now,
     rt_execute = (\<lambda>r q w. (Inl (Opaque ''on-chain execute: use POST /v1/transfers/ directly''), w))\<rparr>"

definition ngn_pairs :: "string list" where
  "ngn_pairs = [''NGN-TXDC'', ''TXDC-NGN'', ''NGN-USDC'', ''USDC-NGN'']"

text \<open>The spread is added to the rate in both directions.\<close>

definition ngn_quote :: "decimal_pkg \<Rightarrow> go_time \<Rightarrow> string \<Rightarrow> string \<Rightarrow> decimal \<Rightarrow> err + route_quote" where
  "ngn_quote D now from to amount =
     (if pair from to \<notin> set ngn_pairs then Inl (Opaque (''fiat route: unsupported pair '' @ pair from to))
      else (let rate = 1500 * (1 + d_div D 100 10000) in
        Inr \<lparr>rq_route = fiat_ngn, rq_name = ''NGN (Flutterwave)'', rq_source = from, rq_dest = to, rq_amount = amount,
          rq_dest_amount = (if from = ''NGN'' \<or> from = ''KES'' then d_div D amount rate else amount * rate), rq_rate = rate,
          rq_spread = 100, rq_fee = amount * (15/1000), rq_fee_asset = from, rq_settlement = 5 * minute,
          rq_expires = now + 30 * second, rq_provider = ''flutterwave''\<rparr>))"

definition ngn_route :: "decimal_pkg \<Rightarrow> go_time \<Rightarrow> payment_route" where
  "ngn_route D now = \<lparr>rt_id = fiat_ngn, rt_name = ''NGN (Flutterwave)'',
     rt_supports = (\<lambda>from to a b. pair from to \<in> set ngn_pairs), rt_quote = ngn_quote D now,
     rt_execute = (\<lambda>r q w. (Inl (Opaque ''fiat execute: use POST /v1/fiat/deposit or /withdraw directly''), w))\<rparr>"

definition network_fee :: "string \<Rightarrow> decimal" where
  "network_fee c = (case map_of [(''INR-EUR'', 1200), (''EUR-INR'', 8), (''INR-USDC'', 65/10), (''USDC-INR'', 5/100),
     (''INR-TXDC'', 5), (''TXDC-INR'', 3/100)] c of None \<Rightarrow> 1200 | Some f \<Rightarrow> f)"

text \<open>Here a service that has no rate refuses the quote; without a service the rate is zero.\<close>

definition network_quote ::
  "decimal_pkg \<Rightarrow> string \<Rightarrow> rate_source \<Rightarrow> go_time \<Rightarrow> string \<Rightarrow> string \<Rightarrow> decimal \<Rightarrow> err + route_quote" where
  "network_quote D corridor fx now from to amount =
     (if pair from to \<noteq> corridor then Inl (Opaque (''payment network: unsupported pair '' @ pair from to))
      else case live_rate fx from to 0 of rate \<Rightarrow>
        if rate = 0 then Inl (Opaque ((if fx = None then ''payment network: no rate for '' else ''payment network: FX rate unavailable for '') @ corridor))
        else (let eff = rate * (1 - 15/10000) in
          Inr \<lparr>rq_route = ''payment_network'', rq_name = ''Payment Network (Ripple ODL)'', rq_source = from, rq_dest = to,
            rq_amount = amount, rq_dest_amount = d_round D (amount * eff) 2, rq_rate = d_round D eff 6, rq_spread = 15,
            rq_fee = network_fee corridor, rq_fee_asset = ''INR'', rq_settlement = 5 * hour, rq_expires = now + 30 * second,
            rq_provider = ''ripple_odl''\<rparr>))"

definition network_route :: "decimal_pkg \<Rightarrow> string \<Rightarrow> rate_source \<Rightarrow> go_time \<Rightarrow> payment_route" where
  "network_route D corridor fx now = \<lparr>rt_id = ''payment_network'', rt_name = ''Payment Network (Ripple ODL)'',
     rt_supports = (\<lambda>from to a b. pair from to = corridor), rt_quote = network_quote D corridor fx now,
     rt_execute = (\<lambda>r q w. (Inr (''RIPPLE-ODL-'' @ format_int (now mod 1000000)), w))\<rparr>"

definition bank_rate :: "string \<Rightarrow> decimal" where
  "bank_rate c = (if c = ''INR-EUR'' then 905/10 else if c = ''EUR-INR'' then 1105/100000 else 90)"

definition bank_fee :: "string \<Rightarrow> decimal" where
  "bank_fee c = (if c = ''EUR-INR'' then 25 else 4500)"

definition bank_quote :: "decimal_pkg \<Rightarrow> string \<Rightarrow> go_time \<Rightarrow> string \<Rightarrow> string \<Rightarrow> decimal \<Rightarrow> err + route_quote" where
  "bank_quote D corridor now from to amount =
     (if pair from to \<noteq> corridor then Inl (Opaque (''bank SWIFT: unsupported pair '' @ pair from to))
      else (let rate = (if from = ''INR'' then d_div D 1 (bank_rate corridor) else bank_rate corridor);
                eff = rate * (1 - 3/1000) in
        Inr \<lparr>rq_route = ''bank_swift'', rq_name = ''Bank (SWIFT/SEPA)'', rq_source = from, rq_dest = to, rq_amount = amount,
          rq_dest_amount = d_round D (amount * eff) 2, rq_rate = d_round D eff 4, rq_spread = 30, rq_fee = bank_fee corridor,
          rq_fee_asset = ''INR'', rq_settlement = 48 * hour, rq_expires = now + 60 * second, rq_provider = ''swift_gpi''\<rparr>))"

definition bank_route :: "decimal_pkg \<Rightarrow> string \<Rightarrow> go_time \<Rightarrow> payment_route" where
  "bank_route D corridor now = \<lparr>rt_id = ''bank_swift'', rt_name = ''Bank (SWIFT/SEPA)'',
     rt_supports = (\<lambda>from to a b. pair from to = corridor), rt_quote = bank_quote D corridor now,
     rt_execute = (\<lambda>r q w. (Inr (''SWIFT-GPI-'' @ format_int (now mod 1000000)), w))\<rparr>"

section \<open>The handlers\<close>

text \<open>
  What the handler keeps between requests is its scorer, which every quote request replaces. \<open>srt\<close> and \<open>arrive\<close>
  are the orders that sorting and the arrival of the quotes leave open. An answer has the scores before they
  are rounded for the response, and the warnings of the compliance check.
\<close>

record routing_env =
  ro_pkg :: decimal_pkg
  ro_fl :: "rat \<Rightarrow> rat"
  ro_sort :: slice_sort
  ro_arrive :: "route_quote list \<Rightarrow> route_quote list"
  ro_tables :: unicode_tables

record quote_request =
  qr_source :: string
  qr_dest :: string
  qr_amount :: string
  qr_source_region :: string
  qr_dest_region :: string
  qr_risk :: string
  qr_mode :: string

definition new_handler :: "(rat \<Rightarrow> rat) \<Rightarrow> scorer" where
  "new_handler fl = new_scorer fl (default_weights fl) ''balanced''"

definition round2 :: "(rat \<Rightarrow> rat) \<Rightarrow> rat \<Rightarrow> rat" where
  "round2 fl v = fl (of_int (big_int (fl (v * 100))) / 100)"

definition route_options :: "route_checker \<Rightarrow> payment_request \<Rightarrow> route_score list \<Rightarrow> (route_score \<times> string list) list" where
  "route_options C r xs = map (\<lambda>s. (s, rk_warnings (check_route C r (rq_route (rs_quote s)))))
     (filter (\<lambda>s. \<not> rk_blocked (check_route C r (rq_route (rs_quote s)))) xs)"

definition payment_of_quote :: "quote_request \<Rightarrow> decimal \<Rightarrow> payment_request" where
  "payment_of_quote q a = \<lparr>pq_source = qr_source q, pq_dest = qr_dest q, pq_amount = a, pq_source_region = qr_source_region q,
     pq_dest_region = qr_dest_region q, pq_risk = qr_risk q, pq_address = ''''\<rparr>"

text \<open>\<open>None\<close> in place of an answer: the handler panics, which the recoverer of the server answers with status 500.\<close>

definition quote_handler ::
  "routing_env \<Rightarrow> route_checker \<Rightarrow> payment_route list \<Rightarrow> string option \<Rightarrow> quote_request \<Rightarrow> scorer
    \<Rightarrow> (route_score \<times> string list) list response option \<times> scorer" where
  "quote_handler E C rs invalid q s =
     (case invalid of Some m \<Rightarrow> (Some (BadRequest m), s)
      | None \<Rightarrow> (case fiat_amount (ro_pkg E) (qr_amount q) of None \<Rightarrow> (Some (BadRequest ''amount must be a positive number''), s)
      | Some a \<Rightarrow> (let r = payment_of_quote q a in
        case evaluate rs (ro_arrive E) r of
          No_Routes p \<Rightarrow> (Some (BadRequest (''no routes available for '' @ p)), s)
        | No_Registered_Routes \<Rightarrow> (Some (DomainError (Opaque ''no payment routes registered'')), s)
        | Quotes qs \<Rightarrow>
          (let s1 = new_scorer (ro_fl E) (default_weights (ro_fl E)) (if qr_mode q = '''' then ''balanced'' else qr_mode q) in
           (map_option (\<lambda>xs. Accepted (route_options C r xs)) (score_and_rank (ro_pkg E) (ro_fl E) (ro_sort E) s1 qs), s1)))))"

record send_request =
  sn_source :: string
  sn_dest :: string
  sn_amount :: string
  sn_route :: string
  sn_auto :: bool
  sn_source_region :: string
  sn_dest_region :: string
  sn_address :: string

text \<open>The address is trimmed, checked, and brought to \<^verbatim>\<open>0x\<close> and lower case.\<close>

definition beneficiary :: "unicode_tables \<Rightarrow> string \<Rightarrow> string option" where
  "beneficiary U a =
     (let t = trim_space U a in
      if t = '''' then Some ''''
      else if \<not> is_valid_destination_address t then None
      else Some (to_lower U (if has_prefix t ''xdc'' then ''0x'' @ drop 3 t else t)))"

definition select_route :: "string \<Rightarrow> route_score list \<Rightarrow> route_quote option" where
  "select_route route xs =
     (if route \<noteq> '''' then map_option rs_quote (find (\<lambda>s. rq_route (rs_quote s) = route) xs)
      else case xs of [] \<Rightarrow> None | x # _ \<Rightarrow> Some (rs_quote x))"

definition send_handler ::
  "routing_env \<Rightarrow> payment_route list \<Rightarrow> string option \<Rightarrow> send_request \<Rightarrow> scorer \<Rightarrow> world
    \<Rightarrow> (route_quote \<times> string) response option \<times> world" where
  "send_handler E rs invalid q s w =
     (case invalid of Some m \<Rightarrow> (Some (BadRequest m), w)
      | None \<Rightarrow> (case fiat_amount (ro_pkg E) (sn_amount q) of None \<Rightarrow> (Some (BadRequest ''amount must be a positive number''), w)
      | Some a \<Rightarrow> (case beneficiary (ro_tables E) (sn_address q) of
          None \<Rightarrow> (Some (BadRequest ''destination_address must be 0x/xdc followed by 40 hex characters''), w)
      | Some addr \<Rightarrow>
        (let r = \<lparr>pq_source = sn_source q, pq_dest = sn_dest q, pq_amount = a, pq_source_region = sn_source_region q,
               pq_dest_region = sn_dest_region q, pq_risk = '''', pq_address = addr\<rparr> in
         case evaluate rs (ro_arrive E) r of
           No_Routes p \<Rightarrow> (Some (BadRequest (''no routes available for '' @ p)), w)
         | No_Registered_Routes \<Rightarrow> (Some (DomainError (Opaque ''no payment routes registered'')), w)
         | Quotes qs \<Rightarrow>
           (case score_and_rank (ro_pkg E) (ro_fl E) (ro_sort E) s qs of None \<Rightarrow> (None, w)
            | Some xs \<Rightarrow>
           (case select_route (sn_route q) xs of
              None \<Rightarrow> (Some (BadRequest (if sn_route q \<noteq> '''' then ''route not available for this corridor'' else ''no routes available'')), w)
            | Some x \<Rightarrow> (case find (\<lambda>y. rt_id y = rq_route x) rs of
                None \<Rightarrow> (Some (BadRequest ''route execution not available''), w)
              | Some y \<Rightarrow> (case rt_execute y r x w of
                  (Inl e, w1) \<Rightarrow> (Some (DomainError e), w1) | (Inr ref, w1) \<Rightarrow> (Some (Accepted (x, ref)), w1)))))))))"

section \<open>The registered routes\<close>

text \<open>The routes of \<^verbatim>\<open>cmd/api/main.go\<close>, in the order of their registration.\<close>

definition api_routes ::
  "decimal_pkg \<Rightarrow> (rat \<Rightarrow> rat) \<Rightarrow> bridge \<Rightarrow> rate_source \<Rightarrow> go_time \<Rightarrow> stripe_bank \<Rightarrow> payment_route list" where
  "api_routes D fl B fx now S = bridge_route D B #
     map (\<lambda>c. network_route D c fx now) [''INR-EUR'', ''EUR-INR'', ''INR-USDC'', ''USDC-INR'', ''INR-TXDC'', ''TXDC-INR''] @
     [stripe_bank_route D fl S, on_chain_route now]"

section \<open>Ranking\<close>

text \<open>
  The documented behaviour of \<^verbatim>\<open>sort.Slice\<close>: for a strict weak order \<open>lt\<close> it permutes the elements and puts none
  before a lesser one; it promises nothing about the order of equal elements, nor for another \<open>lt\<close>.
\<close>

definition strict_weak :: "('a \<Rightarrow> 'a \<Rightarrow> bool) \<Rightarrow> bool" where
  "strict_weak lt \<longleftrightarrow> (\<forall>a b. lt a b \<longrightarrow> \<not> lt b a) \<and> (\<forall>a b c. lt a c \<longrightarrow> lt a b \<or> lt b c)"

definition slice_doc :: "slice_sort \<Rightarrow> bool" where
  "slice_doc srt \<longleftrightarrow>
     (\<forall>lt xs. strict_weak lt \<longrightarrow> mset (srt lt xs) = mset xs \<and> sorted_wrt (\<lambda>a b. \<not> lt b a) (srt lt xs))"

text \<open>An insertion sort has this behaviour.\<close>

fun insert_by :: "('a \<Rightarrow> 'a \<Rightarrow> bool) \<Rightarrow> 'a \<Rightarrow> 'a list \<Rightarrow> 'a list" where
  "insert_by lt x [] = [x]"
| "insert_by lt x (y # ys) = (if lt y x then y # insert_by lt x ys else x # y # ys)"

definition reference_sort :: "('a \<Rightarrow> 'a \<Rightarrow> bool) \<Rightarrow> 'a list \<Rightarrow> 'a list" where
  "reference_sort lt xs = foldr (insert_by lt) xs []"

lemma mset_insert_by [simp]: "mset (insert_by lt x xs) = add_mset x (mset xs)"
  by (induction xs) auto

lemma set_insert_by [simp]: "set (insert_by lt x xs) = insert x (set xs)"
  by (induction xs) auto

lemma sorted_insert_by:
  assumes "strict_weak lt" and "sorted_wrt (\<lambda>a b. \<not> lt b a) xs"
  shows "sorted_wrt (\<lambda>a b. \<not> lt b a) (insert_by lt x xs)"
  using assms(2)
proof (induction xs)
  case (Cons y ys)
  from assms(1) have asym: "lt a b \<Longrightarrow> \<not> lt b a" and mid: "lt a c \<Longrightarrow> lt a b \<or> lt b c" for a b c
    by (auto simp: strict_weak_def)
  show ?case
  proof (cases "lt y x")
    case True
    with Cons asym show ?thesis by simp
  next
    case False
    with Cons.prems mid have "\<forall>z \<in> set ys. \<not> lt z x" by auto
    with False Cons.prems show ?thesis by simp
  qed
qed simp

lemma reference_sort_doc: "slice_doc reference_sort"
proof -
  have "mset (reference_sort lt xs) = mset xs" for lt and xs :: "'b list"
    by (induction xs) (simp_all add: reference_sort_def)
  moreover have "strict_weak lt \<Longrightarrow> sorted_wrt (\<lambda>a b. \<not> lt b a) (reference_sort lt xs)" for lt and xs :: "'b list"
    by (induction xs) (simp_all add: reference_sort_def sorted_insert_by)
  ultimately show ?thesis unfolding slice_doc_def by blast
qed

lemma higher_score_weak: "strict_weak higher_score"
  by (auto simp: strict_weak_def higher_score_def)

lemma score_quote_keeps:
  assumes "score_quote D fl s b q = Some y"
  shows "rs_quote y = q" and "\<not> rs_recommended y"
  using assms by (auto simp: score_quote_def Let_def split: if_splits)

lemma those_Some: "those (map f xs) = Some ys \<longleftrightarrow> list_all2 (\<lambda>x y. f x = Some y) xs ys"
  by (induction xs arbitrary: ys) (auto simp: list_all2_Cons1 split: option.splits)

lemma those_all: "\<forall>x \<in> set xs. f x \<noteq> None \<Longrightarrow> \<exists>ys. those (map f xs) = Some ys"
  by (induction xs) (auto split: option.splits)

lemma ranked:
  assumes "slice_doc srt" and "qs \<noteq> []" and "\<forall>q \<in> set qs. rq_amount q \<noteq> 0"
  obtains x xs ys where "score_and_rank D fl srt s qs = Some (x\<lparr>rs_recommended := True\<rparr> # xs)"
    "mset (x # xs) = mset ys" "list_all2 (\<lambda>q y. score_quote D fl s (best_ratio D qs 0) q = Some y) qs ys"
    "\<forall>y \<in> set xs. rs_score y \<le> rs_score x" "sorted_wrt (\<lambda>a b. rs_score b \<le> rs_score a) (x # xs)"
proof -
  have "\<forall>q \<in> set qs. score_quote D fl s (best_ratio D qs 0) q \<noteq> None" using assms(3) by (simp add: score_quote_def)
  then obtain ys where ys: "those (map (score_quote D fl s (best_ratio D qs 0)) qs) = Some ys" using those_all by blast
  then have l: "list_all2 (\<lambda>q y. score_quote D fl s (best_ratio D qs 0) q = Some y) qs ys" by (simp add: those_Some)
  have m: "mset (srt higher_score ys) = mset ys" and d: "sorted_wrt (\<lambda>a b. \<not> higher_score b a) (srt higher_score ys)"
    using assms(1) higher_score_weak by (auto simp: slice_doc_def)
  have "srt higher_score ys \<noteq> []"
    using assms(2) arg_cong [OF m, of size] list_all2_lengthD [OF l] by auto
  then obtain x xs where x: "srt higher_score ys = x # xs" by (cases "srt higher_score ys") auto
  with d have "sorted_wrt (\<lambda>a b. rs_score b \<le> rs_score a) (x # xs)" by (simp add: higher_score_def not_less)
  with that [of x xs ys] x m l ys assms(2) show ?thesis by (simp add: score_and_rank_def)
qed

lemma ranked_quotes:
  assumes "slice_doc srt" and "\<forall>q \<in> set qs. rq_amount q \<noteq> 0"
  obtains xs where "score_and_rank D fl srt s qs = Some xs" and "mset (map rs_quote xs) = mset qs"
proof (cases "qs = []")
  case True
  with that [of "[]"] show ?thesis by (simp add: score_and_rank_def)
next
  case False
  obtain x xs ys where r: "score_and_rank D fl srt s qs = Some (x\<lparr>rs_recommended := True\<rparr> # xs)"
    and m: "mset (x # xs) = mset ys" and l: "list_all2 (\<lambda>q y. score_quote D fl s (best_ratio D qs 0) q = Some y) qs ys"
    by (rule ranked [OF assms(1) False assms(2)])
  have "map rs_quote ys = qs" using l by (induction rule: list_all2_induct) (auto dest: score_quote_keeps)
  then have "image_mset rs_quote (mset (x # xs)) = mset qs" unfolding m by (simp only: mset_map [symmetric])
  with that [OF r] show ?thesis by simp
qed

section \<open>What the scores mean\<close>

text \<open>
  The documented behaviour of rounding to a float64 that the properties need: it keeps the order, and halves of
  small integers are exact. And of the division of decimals: it keeps the order of the numerators.
\<close>

definition float_doc :: "(rat \<Rightarrow> rat) \<Rightarrow> bool" where
  "float_doc fl \<longleftrightarrow> mono fl \<and> (\<forall>n :: int. \<bar>n\<bar> \<le> 2 ^ 53 \<longrightarrow> fl (of_int n / 2) = of_int n / 2)"

definition div_mono :: "decimal_pkg \<Rightarrow> bool" where
  "div_mono D \<longleftrightarrow> (\<forall>a b c. 0 < c \<longrightarrow> a \<le> b \<longrightarrow> d_div D a c \<le> d_div D b c)"

lemma float_docD:
  assumes "float_doc fl"
  shows "x \<le> y \<Longrightarrow> fl x \<le> fl y" and "fl 0 = 0" and "fl 85 = 85" and "0 \<le> x \<Longrightarrow> 0 \<le> fl x"
proof -
  have half: "\<And>n :: int. \<bar>n\<bar> \<le> 2 ^ 53 \<Longrightarrow> fl (of_int n / 2) = of_int n / 2" and m: "mono fl"
    using assms by (auto simp: float_doc_def)
  show "x \<le> y \<Longrightarrow> fl x \<le> fl y" using m by (rule monoD)
  show z: "fl 0 = 0" and "fl 85 = 85" using half [of 0] half [of 170] by simp_all
  show "0 \<le> x \<Longrightarrow> 0 \<le> fl x" using monoD [OF m, of 0 x] z by simp
qed

text \<open>The weighted sum of the components of a score, mixed six to four with the component of the ranking mode.\<close>

definition weighted_score :: "scorer \<Rightarrow> route_score \<Rightarrow> rat" where
  "weighted_score s y =
     (let w = so_weights s;
          base = rs_cost y * wg_cost w + rs_speed y * wg_speed w + rs_reliability y * wg_reliability w
            + rs_compliance y * wg_compliance w + rs_liquidity y * wg_liquidity w;
          mixed = (\<lambda>x. base * 6 / 10 + x * 4 / 10)
      in if so_mode s = ''cheapest'' then mixed (rs_cost y) else if so_mode s = ''fastest'' then mixed (rs_speed y)
         else if so_mode s = ''most_reliable'' then mixed (rs_reliability y) else base)"

text \<open>A tenth of the payment in fees and spread costs all hundred points.\<close>

definition cost_points :: "decimal_pkg \<Rightarrow> route_quote \<Rightarrow> rat" where
  "cost_points D q = max 0 (min 100 (100 - 1000 * d_div D (rq_fee q) (rq_amount q) - of_int (rq_spread q) / 10))"

lemma score_quote_exact:
  assumes "score_quote D id s b q = Some y"
  shows "rs_score y = weighted_score s y" and "rs_cost y = cost_points D q"
  using assms
  by (auto simp: score_quote_def weighted_score_def cost_points_def clamp_def Let_def algebra_simps split: if_splits)

text \<open>The quote \<open>p\<close> is as good as \<open>q\<close> in everything that is scored.\<close>

definition as_good :: "scorer \<Rightarrow> route_quote \<Rightarrow> route_quote \<Rightarrow> bool" where
  "as_good s p q \<longleftrightarrow> rq_amount p = rq_amount q \<and> rq_fee p \<le> rq_fee q \<and> rq_spread p \<le> rq_spread q
     \<and> rq_settlement p \<le> rq_settlement q \<and> rq_dest_amount q \<le> rq_dest_amount p
     \<and> the_default (85/100) (so_history s (rq_route q)) \<le> the_default (85/100) (so_history s (rq_route p))"

definition weights_ok :: "weights \<Rightarrow> bool" where
  "weights_ok w \<longleftrightarrow> 0 \<le> wg_cost w \<and> 0 \<le> wg_speed w \<and> 0 \<le> wg_reliability w \<and> 0 \<le> wg_compliance w \<and> 0 \<le> wg_liquidity w"

lemma clamp_mono: "x \<le> y \<Longrightarrow> clamp x \<le> clamp y"
  by (simp add: clamp_def)

lemma speed_score_mono: "d \<le> e \<Longrightarrow> speed_score e \<le> speed_score d"
  by (simp add: speed_score_def duration_defs)

lemma as_good_components:
  assumes "float_doc fl" and "div_mono D" and "as_good s p q" and "0 < rq_amount q"
    and "score_quote D fl s b p = Some y" and "score_quote D fl s b q = Some z"
  shows "rs_cost z \<le> rs_cost y" and "rs_speed z \<le> rs_speed y" and "rs_reliability z \<le> rs_reliability y"
    and "rs_liquidity z \<le> rs_liquidity y"
proof -
  note fl = float_docD(1) [OF assms(1)]
  have amt: "rq_amount p = rq_amount q" using assms(3) by (simp add: as_good_def)
  have div: "a \<le> b' \<Longrightarrow> d_div D a (rq_amount q) \<le> d_div D b' (rq_amount q)" for a b'
    using assms(2,4) by (simp add: div_mono_def)
  let ?cost = "\<lambda>q. fl (fl (d_div D (rq_fee q) (rq_amount q) * 100) + fl (fl (of_int (rq_spread q)) / 100))"
  have "?cost p \<le> ?cost q"
    using assms(3) div [of "rq_fee p" "rq_fee q"] by (intro fl add_mono) (auto simp: as_good_def intro!: fl divide_right_mono)
  then have "clamp (fl (100 - fl (?cost q * 10))) \<le> clamp (fl (100 - fl (?cost p * 10)))"
    by (intro clamp_mono fl diff_left_mono) simp
  then show "rs_cost z \<le> rs_cost y"
    using assms(5,6) by (auto simp: score_quote_def Let_def split: if_splits)
  show "rs_speed z \<le> rs_speed y"
    using assms(3,5,6) speed_score_mono by (auto simp: as_good_def score_quote_def Let_def split: if_splits)
  have rel: "(case so_history s r of None \<Rightarrow> 85 | Some x \<Rightarrow> fl (x * 100)) = fl (the_default (85/100) (so_history s r) * 100)" for r
    using float_docD(3) [OF assms(1)] by (cases "so_history s r") simp_all
  have "fl (the_default (85/100) (so_history s (rq_route q)) * 100) \<le> fl (the_default (85/100) (so_history s (rq_route p)) * 100)"
    using assms(3) by (intro fl mult_right_mono) (simp_all add: as_good_def)
  then show "rs_reliability z \<le> rs_reliability y"
    using assms(5,6) by (auto simp: score_quote_def Let_def rel split: if_splits)
  have "b > 0 \<Longrightarrow> d_div D (d_div D (rq_dest_amount q) (rq_amount q)) b \<le> d_div D (d_div D (rq_dest_amount p) (rq_amount q)) b"
    using assms(2,3) div [of "rq_dest_amount q" "rq_dest_amount p"] by (simp add: div_mono_def as_good_def)
  then have "liquidity_score D fl b q \<le> liquidity_score D fl b p"
    using assms(4) by (auto simp: liquidity_score_def amt intro!: clamp_mono fl)
  then show "rs_liquidity z \<le> rs_liquidity y"
    using assms(5,6) by (auto simp: score_quote_def Let_def split: if_splits)
qed

text \<open>The score as a function of its components.\<close>

definition combine :: "(rat \<Rightarrow> rat) \<Rightarrow> scorer \<Rightarrow> rat \<Rightarrow> rat \<Rightarrow> rat \<Rightarrow> rat \<Rightarrow> rat" where
  "combine fl s cost speed rel liq =
     (let w = so_weights s;
          base = fl (fl (fl (fl (fl (cost * wg_cost w) + fl (speed * wg_speed w)) + fl (rel * wg_reliability w))
            + fl (85 * wg_compliance w)) + fl (liq * wg_liquidity w));
          bias = (\<lambda>x. fl (fl (base * fl (6/10)) + fl (x * fl (4/10))))
      in if so_mode s = ''cheapest'' then bias cost else if so_mode s = ''fastest'' then bias speed
         else if so_mode s = ''most_reliable'' then bias rel else base)"

lemma score_quote_combine:
  "score_quote D fl s b q = Some y \<Longrightarrow> rs_score y = combine fl s (rs_cost y) (rs_speed y) (rs_reliability y) (rs_liquidity y)"
  by (auto simp: score_quote_def combine_def Let_def split: if_splits)

lemma combine_mono:
  assumes "float_doc fl" and "weights_ok (so_weights s)" and "c \<le> c'" and "v \<le> v'" and "r \<le> r'" and "l \<le> l'"
  shows "combine fl s c v r l \<le> combine fl s c' v' r' l'"
proof -
  note fl = float_docD(1) [OF assms(1)]
  note pos = float_docD(4) [OF assms(1)]
  let ?w = "so_weights s"
  let ?base = "\<lambda>c v r l. fl (fl (fl (fl (fl (c * wg_cost ?w) + fl (v * wg_speed ?w)) + fl (r * wg_reliability ?w))
            + fl (85 * wg_compliance ?w)) + fl (l * wg_liquidity ?w))"
  have w: "x \<le> y \<Longrightarrow> 0 \<le> k \<Longrightarrow> fl (x * k) \<le> fl (y * k)" for x y k by (intro fl mult_right_mono)
  have base: "?base c v r l \<le> ?base c' v' r' l'"
    using assms(2-6) by (intro fl add_mono w order_refl) (auto simp: weights_ok_def)
  have bias: "fl (fl (?base c v r l * fl (6/10)) + fl (x * fl (4/10))) \<le> fl (fl (?base c' v' r' l' * fl (6/10)) + fl (y * fl (4/10)))"
    if "x \<le> y" for x y
  proof -
    have "0 \<le> fl (6/10)" and "0 \<le> fl (4/10)" by (intro pos; simp)+
    from w [OF base this(1)] w [OF that this(2)] show ?thesis by (rule fl [OF add_mono])
  qed
  show ?thesis using base bias assms(3-5) by (simp add: combine_def Let_def)
qed

lemma as_good_scores:
  assumes "float_doc fl" and "div_mono D" and "weights_ok (so_weights s)" and "as_good s p q" and "0 < rq_amount q"
    and "score_quote D fl s b p = Some y" and "score_quote D fl s b q = Some z"
  shows "rs_score z \<le> rs_score y"
  unfolding score_quote_combine [OF assms(6)] score_quote_combine [OF assms(7)]
  by (intro combine_mono assms(1,3) as_good_components [OF assms(1,2,4-7)])

text \<open>
  C39: ranking quotes for a positive amount does not panic, keeps every quote, puts them in the order of falling
  scores, and recommends the first one and no other. The score is, up to the rounding of floats, the weighted sum of
  the reported components, with the weight of the ranking mode, and loses the points of fee and spread; and however
  floats are rounded, a quote that is at least as good as another in fee, spread, settlement time, amount received and
  history of its route never scores less.
\<close>

theorem recommended_is_best:
  assumes "slice_doc srt" and "float_doc fl" and "div_mono D" and "weights_ok (so_weights s)"
    and "qs \<noteq> []" and "\<forall>q \<in> set qs. 0 < rq_amount q"
  shows "\<exists>x xs. score_and_rank D fl srt s qs = Some (x # xs) \<and> mset (map rs_quote (x # xs)) = mset qs \<and> rs_recommended x \<and>
    (\<forall>y \<in> set xs. \<not> rs_recommended y) \<and> sorted_wrt (\<lambda>a b. rs_score b \<le> rs_score a) (x # xs) \<and>
    (\<forall>y \<in> set (x # xs). \<forall>z \<in> set (x # xs). as_good s (rs_quote y) (rs_quote z) \<longrightarrow> rs_score z \<le> rs_score y) \<and>
    (fl = id \<longrightarrow> (\<forall>y \<in> set (x # xs). rs_score y = weighted_score s y \<and> rs_cost y = cost_points D (rs_quote y)))"
proof -
  let ?b = "best_ratio D qs 0"
  have nz: "\<forall>q \<in> set qs. rq_amount q \<noteq> 0" using assms(6) by auto
  obtain x xs ys where r: "score_and_rank D fl srt s qs = Some (x\<lparr>rs_recommended := True\<rparr> # xs)"
    and m: "mset (x # xs) = mset ys" and l: "list_all2 (\<lambda>q y. score_quote D fl s ?b q = Some y) qs ys"
    and le: "\<forall>y \<in> set xs. rs_score y \<le> rs_score x" and d: "sorted_wrt (\<lambda>a b. rs_score b \<le> rs_score a) (x # xs)"
    by (rule ranked [OF assms(1,5) nz])
  let ?x = "x\<lparr>rs_recommended := True\<rparr>"
  have "map rs_quote ys = qs" using l by (induction rule: list_all2_induct) (auto dest: score_quote_keeps)
  then have "image_mset rs_quote (mset (x # xs)) = mset qs" unfolding m by (simp only: mset_map [symmetric])
  then have q: "mset (map rs_quote (?x # xs)) = mset qs" by simp
  have scored: "\<exists>q \<in> set qs. score_quote D fl s ?b q = Some y \<and> rs_quote y = q" if "y \<in> set (x # xs)" for y
  proof -
    from that have "y \<in> set ys" unfolding mset_eq_setD [OF m] .
    with l obtain q where "q \<in> set qs" "score_quote D fl s ?b q = Some y"
      by (auto simp: list_all2_conv_all_nth in_set_conv_nth) metis
    with score_quote_keeps(1) show ?thesis by blast
  qed
  have best: "rs_score z \<le> rs_score y"
    if "y \<in> set (x # xs)" "z \<in> set (x # xs)" "as_good s (rs_quote y) (rs_quote z)" for y z
    using scored [OF that(1)] scored [OF that(2)] that(3) assms(6) as_good_scores [OF assms(2-4)] by blast
  have exact: "rs_score y = weighted_score s y \<and> rs_cost y = cost_points D (rs_quote y)"
    if "fl = id" "y \<in> set (x # xs)" for y
    using scored [OF that(2)] score_quote_exact unfolding that(1) by metis
  have unmarked: "\<not> rs_recommended y" if "y \<in> set xs" for y
    using scored [of y] that score_quote_keeps(2) by auto
  have top: "rs_quote ?x = rs_quote x" "rs_score ?x = rs_score x" "rs_cost ?x = rs_cost x" "weighted_score s ?x = weighted_score s x"
    by (simp_all add: weighted_score_def Let_def)
  have all: "(\<forall>y \<in> set (?x # xs). Q y) \<longleftrightarrow> Q ?x \<and> (\<forall>y \<in> set xs. Q y)" for Q by simp
  have "sorted_wrt (\<lambda>a b. rs_score b \<le> rs_score a) (?x # xs)" using d by simp
  moreover have "\<forall>y \<in> set (?x # xs). \<forall>z \<in> set (?x # xs). as_good s (rs_quote y) (rs_quote z) \<longrightarrow> rs_score z \<le> rs_score y"
    unfolding all top using best by (metis list.set_intros)
  moreover have "fl = id \<longrightarrow> (\<forall>y \<in> set (?x # xs). rs_score y = weighted_score s y \<and> rs_cost y = cost_points D (rs_quote y))"
    unfolding all top using exact by (metis list.set_intros)
  moreover have "\<forall>y \<in> set xs. \<not> rs_recommended y" using unmarked by blast
  moreover have "rs_recommended ?x" by simp
  ultimately show ?thesis using r q by blast
qed

definition sample_quote_of :: "string \<Rightarrow> route_quote" where
  "sample_quote_of i = \<lparr>rq_route = i, rq_name = '''', rq_source = ''INR'', rq_dest = ''TXDC'', rq_amount = 1, rq_dest_amount = 1,
     rq_rate = 1, rq_spread = 0, rq_fee = 0, rq_fee_asset = '''', rq_settlement = 0, rq_expires = 0, rq_provider = ''''\<rparr>"

lemma id_float_doc: "float_doc id"
  by (simp add: float_doc_def mono_def)

lemma reference_div_mono: "div_mono reference_pkg"
  by (simp add: div_mono_def reference_pkg_simps round_half_away_mono divide_right_mono)

text \<open>Of two quotes that differ in the fee alone the cheaper one is recommended, also if it comes second.\<close>

lemma recommended_is_best_witness:
  "\<exists>x y. score_and_rank reference_pkg id reference_sort (new_handler id)
       [sample_quote_of ''a''\<lparr>rq_fee := 1/100\<rparr>, sample_quote_of ''b''] = Some [x, y] \<and>
     rs_recommended x \<and> \<not> rs_recommended y \<and> rs_score y \<le> rs_score x \<and> rq_route (rs_quote x) = ''b''"
proof -
  let ?qs = "[sample_quote_of ''a''\<lparr>rq_fee := 1/100\<rparr>, sample_quote_of ''b'']"
  have "weights_ok (so_weights (new_handler id))" by (simp add: weights_ok_def new_handler_def new_scorer_def default_weights_def)
  moreover have "\<forall>q \<in> set ?qs. 0 < rq_amount q" "?qs \<noteq> []" by (simp_all add: sample_quote_of_def)
  ultimately obtain x xs where x: "score_and_rank reference_pkg id reference_sort (new_handler id) ?qs = Some (x # xs)"
    "mset (map rs_quote (x # xs)) = mset ?qs" "rs_recommended x" "\<forall>y \<in> set xs. \<not> rs_recommended y"
    "sorted_wrt (\<lambda>a b. rs_score b \<le> rs_score a) (x # xs)"
    using recommended_is_best [OF reference_sort_doc id_float_doc reference_div_mono, of "new_handler id" ?qs] by blast
  from arg_cong [OF x(2), of size] have "length xs = 1" by simp
  then obtain y where "xs = [y]" by (cases xs) auto
  moreover have "map_option (map (\<lambda>y. rq_route (rs_quote y))) (score_and_rank reference_pkg id reference_sort (new_handler id) ?qs)
      = Some [''b'', ''a'']" by code_simp
  ultimately show ?thesis using x by simp
qed

text \<open>
  A payment is blocked exactly if its amount exceeds five times the limit, or exceeds the limit on a fiat
  route with a high risk profile.
\<close>

theorem blocked_iff:
  assumes "0 < rk_max C"
  shows "rk_blocked (check_route C r route) \<longleftrightarrow> pq_amount r > rk_max C * 5 \<or>
    pq_amount r > rk_max C \<and> pq_risk r = ''high'' \<and> (route = fiat_ngn \<or> route = fiat_kes)"
  using assms by (auto simp: check_route_def Let_def)

lemma blocked_iff_witness:
  "rk_blocked (check_route (default_checker (\<lambda>a. '''')) \<lparr>pq_source = ''NGN'', pq_dest = ''TXDC'', pq_amount = 20000000, pq_source_region = '''',
     pq_dest_region = '''', pq_risk = ''high'', pq_address = ''''\<rparr> fiat_ngn)"
  by (subst blocked_iff) (simp_all add: default_checker_def)

text \<open>
  The first success of a route lowers its reliability score, from 85 for a route without a history to at
  most 50.
\<close>

theorem first_success_lowers_score:
  assumes "float_doc fl" and "so_history s (rq_route q) = None" and "rq_amount q \<noteq> 0"
  shows "map_option rs_reliability (score_quote D fl s b q) = Some 85 \<and>
    (\<exists>y. score_quote D fl (update_success_rate fl (rq_route q) True s) b q = Some y \<and> rs_reliability y \<le> 50)"
proof -
  have mono: "mono fl" and half: "\<And>n :: int. \<bar>n\<bar> \<le> 2 ^ 53 \<Longrightarrow> fl (of_int n / 2) = of_int n / 2"
    using assms(1) by (auto simp: float_doc_def)
  have zero: "fl 0 = 0" using half [of 0] by simp
  have "fl (1/10) \<le> fl (1/2)" using mono by (rule monoD) simp
  then have t: "fl (1/10) \<le> 1/2" using half [of 1] by simp
  have "fl (fl (1/10)) \<le> fl (1/2)" using mono t by (rule monoD)
  then have "fl (fl (1/10)) * 100 \<le> 50" using half [of 1] by simp
  then have "fl (fl (fl (1/10)) * 100) \<le> fl 50" using mono by (intro monoD [of fl])
  then have "fl (fl (fl (1/10)) * 100) \<le> 50" using half [of 100] by simp
  then show ?thesis using assms(2,3) zero by (simp add: score_quote_def update_success_rate_def Let_def)
qed

lemma first_success_lowers_score_witness:
  "map_option rs_reliability (score_quote reference_pkg id (new_handler id) 1 (sample_quote_of ''a'')) = Some 85 \<and>
   (\<exists>y. score_quote reference_pkg id (update_success_rate id ''a'' True (new_handler id)) 1 (sample_quote_of ''a'') = Some y \<and>
      rs_reliability y \<le> 50)"
  using first_success_lowers_score [of id "new_handler id" "sample_quote_of ''a''" reference_pkg 1]
  by (simp add: float_doc_def new_handler_def new_scorer_def sample_quote_of_def mono_def)

section \<open>Sending\<close>

lemma runes_ascii:
  assumes "\<forall>c \<in> set s. of_char c < (128 :: nat)"
  shows "runes s = map of_char s"
proof -
  have "valid_rune (of_char c)" if "c \<in> set s" for c using assms that by (auto simp: valid_rune_def)
  then have v: "\<forall>r \<in> set (map of_char s). valid_rune r" by auto
  have "string_of_runes (map of_char s) = s" using assms by (induction s) (auto simp: string_of_runes_def encode_rune_def)
  with runes_string_of_runes [OF v] show ?thesis by simp
qed

lemma to_lower_ascii:
  assumes "\<forall>c \<in> set s. of_char c < (128 :: nat)"
  shows "to_lower U s = map ascii_lower s"
  unfolding to_lower_def runes_ascii [OF assms] using assms
  by (induction s) (auto simp: string_of_runes_def encode_rune_def lower_rune_def ascii_lower_def Let_def)

lemma hex_digit_lower:
  assumes "hex_digit c"
  shows "hex_digit (ascii_lower c)" "of_char c < (128 :: nat)"
  using assms by (auto simp: hex_digit_def ascii_lower_def Let_def)

lemma hex40_lower: "hex40 s \<Longrightarrow> hex40 (map ascii_lower s) \<and> (\<forall>c \<in> set s. of_char c < (128 :: nat))"
  by (auto simp: hex40_def list_all_iff hex_digit_lower)

text \<open>What the handler makes of an address.\<close>

definition canonical_address :: "string \<Rightarrow> string" where
  "canonical_address t = ''0x'' @ map ascii_lower (drop (if take 2 t = ''0x'' then 2 else 3) t)"

lemma beneficiary_valid:
  assumes "is_valid_destination_address (trim_space U a)"
  shows "beneficiary U a = Some (canonical_address (trim_space U a))"
    and "is_valid_destination_address (canonical_address (trim_space U a))"
    and "xdc_normalize (canonical_address (trim_space U a)) = canonical_address (trim_space U a)"
proof -
  let ?t = "trim_space U a"
  define h where "h = drop (if take 2 ?t = ''0x'' then 2 else 3) ?t"
  have "take 2 ?t \<noteq> ''0x''" if "take 3 ?t = ''xdc''" using arg_cong [OF that, of "take 2"] by simp
  then consider "take 2 ?t = ''0x''" "hex40 (drop 2 ?t)" | "take 2 ?t \<noteq> ''0x''" "take 3 ?t = ''xdc''" "hex40 (drop 3 ?t)"
    using assms by (auto simp: is_valid_destination_address_def)
  then have both: "hex40 h \<and> (?t = ''0x'' @ h \<or> ?t = ''xdc'' @ h)"
  proof cases
    case 1
    with append_take_drop_id [of 2 ?t] show ?thesis by (simp add: h_def)
  next
    case 2
    with append_take_drop_id [of 3 ?t] show ?thesis by (simp add: h_def)
  qed
  then have h: "hex40 h" and t: "?t = ''0x'' @ h \<or> ?t = ''xdc'' @ h" by simp_all
  have low: "to_lower U (''0x'' @ h) = ''0x'' @ map ascii_lower h"
    using hex40_lower [OF h] by (subst to_lower_ascii) (auto simp: ascii_lower_def)
  have "?t \<noteq> ''''" using t by auto
  then show "beneficiary U a = Some (canonical_address ?t)"
    using t low assms by (auto simp: beneficiary_def Let_def has_prefix_def canonical_address_def)
  show "is_valid_destination_address (canonical_address ?t)"
    using hex40_lower [OF h] unfolding canonical_address_def h_def [symmetric] by (simp add: is_valid_destination_address_def)
  have "ascii_lower (CHR ''0'') \<noteq> CHR ''x''" by code_simp
  then show "xdc_normalize (canonical_address ?t) = canonical_address ?t" by (simp add: xdc_normalize_def canonical_address_def)
qed

lemma live_rate_pos: "0 < d \<Longrightarrow> 0 < live_rate fx from to d"
  by (auto simp: live_rate_def split: option.splits sum.splits)

lemma bridge_quoted:
  obtains x where "bridge_quote D B ''INR'' ''TXDC'' a = Inr x" and "rq_route x = ''xdc_bridge''" and "rq_dest x = ''TXDC''"
    and "rq_dest_amount x = d_round D ((a - bridge_fee D a (1/2)) * live_rate (br_fx B) ''INR'' ''TXDC'' (12/1000)) 2"
proof -
  have "0 < live_rate (br_fx B) ''INR'' ''TXDC'' (12/1000)" by (rule live_rate_pos) simp
  then have "live_rate (br_fx B) ''INR'' ''TXDC'' (12/1000) \<noteq> 0" by (metis less_irrefl)
  then show thesis using that by (simp add: bridge_quote_def bridge_corridors_def pair_def Let_def)
qed

text \<open>A quote carries the id of its route, and only the bridge has its id.\<close>

lemma quoted_by_route:
  assumes "x \<in> set (api_routes D fl B fx now S)" and "rt_quote x from to a = Inr q"
  shows "rq_route q = rt_id x"
  using assms by (auto simp: api_routes_def bridge_route_def network_route_def stripe_bank_route_def on_chain_route_def bridge_quote_def
      network_quote_def stripe_bank_quote_def on_chain_quote_def Let_def split: option.splits if_splits)

lemma bridge_is_first:
  assumes "x \<in> set (api_routes D fl B fx now S)" and "rt_id x = ''xdc_bridge''"
  shows "x = bridge_route D B"
  using assms by (auto simp: api_routes_def network_route_def stripe_bank_route_def on_chain_route_def on_chain_xdc_def)

lemma bridge_quote_unique:
  assumes "q \<in> set (route_quotes (api_routes D fl B fx now S) r)" and "rq_route q = ''xdc_bridge''"
  shows "bridge_quote D B (pq_source r) (pq_dest r) (pq_amount r) = Inr q"
proof -
  from assms(1) obtain x where x: "x \<in> set (api_routes D fl B fx now S)" "rt_quote x (pq_source r) (pq_dest r) (pq_amount r) = Inr q"
    by (auto simp: route_quotes_def split: if_splits sum.splits)
  then have "x = bridge_route D B" using quoted_by_route assms(2) bridge_is_first by metis
  with x(2) show ?thesis by (simp add: bridge_route_def)
qed

lemma bridge_quote_listed:
  assumes "bridge_quote D B (pq_source r) (pq_dest r) (pq_amount r) = Inr q"
  shows "q \<in> set (route_quotes (api_routes D fl B fx now S) r)"
proof -
  have "map_of bridge_corridors (pair (pq_source r) (pq_dest r)) \<noteq> None"
    using assms unfolding bridge_quote_def by (cases "map_of bridge_corridors (pair (pq_source r) (pq_dest r))") simp_all
  then have supports: "rt_supports (bridge_route D B) (pq_source r) (pq_dest r) (pq_source_region r) (pq_dest_region r)"
    unfolding bridge_route_def payment_route.select_convs .
  have quote: "rt_quote (bridge_route D B) = bridge_quote D B" by (simp add: bridge_route_def)
  have "route_quotes (api_routes D fl B fx now S) r = q # route_quotes (tl (api_routes D fl B fx now S)) r"
    using supports assms by (simp add: route_quotes_def api_routes_def quote)
  then show ?thesis by simp
qed

text \<open>What evaluation and the choice of the bridge come to for a corridor that it serves.\<close>

lemma quote_of_amount:
  assumes "x \<in> set (api_routes D fl B fx now S)" and "rt_quote x from to a = Inr q"
  shows "rq_amount q = a"
  using assms by (auto simp: api_routes_def bridge_route_def network_route_def stripe_bank_route_def on_chain_route_def bridge_quote_def
      network_quote_def stripe_bank_quote_def on_chain_quote_def Let_def split: option.splits if_splits)

lemma quoted_amount: "q \<in> set (route_quotes (api_routes D fl B fx now S) r) \<Longrightarrow> rq_amount q = pq_amount r"
  using quote_of_amount by (auto simp: route_quotes_def split: if_splits sum.splits)

lemma bridge_selected:
  assumes "slice_doc (ro_sort E)" and "\<forall>xs. mset (ro_arrive E xs) = mset xs" and "pq_amount r \<noteq> 0"
    and "bridge_quote D B (pq_source r) (pq_dest r) (pq_amount r) = Inr x" and "rq_route x = ''xdc_bridge''"
  obtains qs xs where "evaluate (api_routes D fl B fx now S) (ro_arrive E) r = Quotes qs"
    and "score_and_rank D' fl' (ro_sort E) s qs = Some xs" and "select_route ''xdc_bridge'' xs = Some x"
proof -
  let ?rs = "api_routes D fl B fx now S"
  define qs where "qs = ro_arrive E (route_quotes ?rs r)"
  have set: "set qs = set (route_quotes ?rs r)" unfolding qs_def using assms(2) mset_eq_setD by blast
  then have x: "x \<in> set qs" using bridge_quote_listed assms(4) by blast
  then have ev: "evaluate ?rs (ro_arrive E) r = Quotes qs"
    unfolding evaluate_def qs_def [symmetric] by (cases qs) (auto simp: api_routes_def)
  have nz: "\<forall>q \<in> set qs. rq_amount q \<noteq> 0" using quoted_amount assms(3) unfolding set by metis
  obtain xs where sc: "score_and_rank D' fl' (ro_sort E) s qs = Some xs" and m: "mset (map rs_quote xs) = mset qs"
    using ranked_quotes [OF assms(1) nz] by blast
  have q: "set (map rs_quote xs) = set qs" using mset_eq_setD [OF m] .
  from x have "x \<in> rs_quote ` set xs" using q by simp
  then obtain z where "z \<in> set xs" "rs_quote z = x" by blast
  with assms(5) have "find (\<lambda>s. rq_route (rs_quote s) = ''xdc_bridge'') xs \<noteq> None" unfolding find_None_iff by blast
  then obtain y where y: "find (\<lambda>s. rq_route (rs_quote s) = ''xdc_bridge'') xs = Some y" by blast
  then have "y \<in> set xs" "rq_route (rs_quote y) = ''xdc_bridge''" by (auto simp: find_Some_iff)
  then have "bridge_quote D B (pq_source r) (pq_dest r) (pq_amount r) = Inr (rs_quote y)"
    using bridge_quote_unique q set by (metis image_eqI list.set_map)
  then have "select_route ''xdc_bridge'' xs = Some x" using assms(4) y by (simp add: select_route_def)
  with ev sc show thesis by (rule that)
qed

lemma bridge_found: "find (\<lambda>y. rt_id y = ''xdc_bridge'') (api_routes D fl B fx now S) = Some (bridge_route D B)"
  by (simp add: api_routes_def bridge_route_def)

lemma bridge_sends:
  assumes "br_client B" and "br_key B \<noteq> ''''" and "pq_source r = ''INR''" and "pq_dest r = ''TXDC''"
    and "pq_address r = canonical_address (trim_space U a)" and "is_valid_destination_address (trim_space U a)"
  shows "bridge_execute B r x w =
     (Inr (case br_answer B of Inl e \<Rightarrow> bridge_reference B | Inr h \<Rightarrow> h),
      if br_taken B then w\<lparr>w_net := w_net w @ [EvmTransfer (br_key B) (canonical_address (trim_space U a)) (bridge_wei x)]\<rparr> else w)"
  using assms beneficiary_valid [OF assms(6)]
  by (auto simp: bridge_execute_def bridge_corridors_def pair_def chain_transfer_def canonical_address_def split: sum.splits)

lemma send_over_bridge:
  assumes "slice_doc (ro_sort E)" and "\<forall>xs. mset (ro_arrive E xs) = mset xs" and "br_client B" and "br_key B \<noteq> ''''"
    and "sn_source q = ''INR''" and "sn_dest q = ''TXDC''" and "sn_route q = ''xdc_bridge''"
    and "fiat_amount (ro_pkg E) (sn_amount q) = Some a" and "trim_space (ro_tables E) (sn_address q) = t"
    and "is_valid_destination_address t" and "bridge_quote D B ''INR'' ''TXDC'' a = Inr x" and "rq_route x = ''xdc_bridge''"
  shows "send_handler E (api_routes D fl B fx now S) None q s w =
     (Some (Accepted (x, case br_answer B of Inl e \<Rightarrow> bridge_reference B | Inr h \<Rightarrow> h)),
      if br_taken B then w\<lparr>w_net := w_net w @ [EvmTransfer (br_key B) (canonical_address t) (bridge_wei x)]\<rparr> else w)"
proof -
  let ?r = "\<lparr>pq_source = ''INR'', pq_dest = ''TXDC'', pq_amount = a, pq_source_region = sn_source_region q,
    pq_dest_region = sn_dest_region q, pq_risk = '''', pq_address = canonical_address t\<rparr>"
  have quote: "bridge_quote D B (pq_source ?r) (pq_dest ?r) (pq_amount ?r) = Inr x" using assms(11) by simp
  have "pq_amount ?r \<noteq> 0" using assms(8) by (auto simp: fiat_amount_def split: option.splits if_splits)
  from bridge_selected [OF assms(1,2) this quote assms(12)] obtain qs xs where
    "evaluate (api_routes D fl B fx now S) (ro_arrive E) ?r = Quotes qs"
    "score_and_rank (ro_pkg E) (ro_fl E) (ro_sort E) s qs = Some xs" "select_route ''xdc_bridge'' xs = Some x" by blast
  moreover have "beneficiary (ro_tables E) (sn_address q) = Some (canonical_address t)"
    using beneficiary_valid(1) assms(9,10) by blast
  moreover have "bridge_execute B ?r x w = (Inr (case br_answer B of Inl e \<Rightarrow> bridge_reference B | Inr h \<Rightarrow> h),
      if br_taken B then w\<lparr>w_net := w_net w @ [EvmTransfer (br_key B) (canonical_address t) (bridge_wei x)]\<rparr> else w)"
    using bridge_sends [OF assms(3,4), of ?r] assms(9,10) by auto
  moreover have "rt_execute (bridge_route D B) = bridge_execute B" by (simp add: bridge_route_def)
  ultimately show ?thesis
    unfolding send_handler_def using assms(5-8,12) by (simp add: bridge_found Let_def)
qed

lemma big_int_grid:
  assumes "on_grid 2 x"
  shows "of_int (big_int (x * 10 ^ 18)) = x * 10 ^ 18"
proof -
  from assms(1) obtain k where k: "x * 10 ^ 2 = of_int k" by (auto simp: on_grid_def elim: Ints_cases)
  have "x * 10 ^ 18 = (x * 10 ^ 2) * 10 ^ 16" by simp
  also have "\<dots> = of_int (k * 10 ^ 16)" unfolding k by simp
  finally have e: "x * 10 ^ 18 = of_int (k * 10 ^ 16)" .
  have "big_int (of_int n) = n" for n :: int by (simp add: big_int_def)
  then show ?thesis unfolding e by (simp only:)
qed

text \<open>The rate of the corridor from INR to TXDC: the positive mid-market rate if the service has one.\<close>

definition inr_txdc :: "rate_source \<Rightarrow> decimal" where
  "inr_txdc fx = (case fx of Some f \<Rightarrow> (case f ''INR'' ''TXDC'' of Inr m \<Rightarrow> if m > 0 then m else 12/1000 | Inl e \<Rightarrow> 12/1000)
     | None \<Rightarrow> 12/1000)"

lemma bridge_fee_half:
  assumes "decimal_doc D"
  shows "bridge_fee D a (1/2) = d_round D (a / 200) 2"
proof -
  have "on_grid 16 ((1/2) / 100)" by (simp add: on_grid_def)
  with decimal_docD(2) [OF assms, of 100 "1/2"] have e: "d_div D (1/2) 100 = (1/2) / 100" by linarith
  have "a * d_div D (1/2) 100 = a / 200" unfolding e by simp
  then show ?thesis by (simp only: bridge_fee_def)
qed

text \<open>
  C40: a send of INR to TXDC over the bridge transfers TXDC from the treasury's key to the address the caller gave:
  the amount less half a percent, which is rounded to two places, at the rate of the service or 0.012, rounded to
  two places and paid in wei; where that is zero, 0.01 TXDC. It is answered as initiated whether or not the chain
  took it, and nothing of the world but the chain changes, so no balance is debited for it.
\<close>

theorem send_pays_from_treasury:
  assumes "slice_doc (ro_sort E)" and "\<forall>xs. mset (ro_arrive E xs) = mset xs" and "br_client B" and "br_key B \<noteq> ''''"
    and "sn_source q = ''INR''" and "sn_dest q = ''TXDC''" and "sn_route q = ''xdc_bridge''"
    and "fiat_amount (ro_pkg E) (sn_amount q) = Some a" and "trim_space (ro_tables E) (sn_address q) = t"
    and "is_valid_destination_address t" and "decimal_doc D"
    and "txdc = d_round D ((a - d_round D (a / 200) 2) * inr_txdc (br_fx B)) 2"
  shows "\<exists>x wei. send_handler E (api_routes D fl B fx now S) None q s w =
     (Some (Accepted (x, case br_answer B of Inl e \<Rightarrow> bridge_reference B | Inr h \<Rightarrow> h)),
      if br_taken B then w\<lparr>w_net := w_net w @ [EvmTransfer (br_key B) (canonical_address t) wei]\<rparr> else w) \<and>
     rq_dest_amount x = txdc \<and> (of_int wei :: decimal) = (if 0 < txdc then txdc * 10 ^ 18 else 10 ^ 16)"
proof -
  have rate: "live_rate (br_fx B) ''INR'' ''TXDC'' (12/1000) = inr_txdc (br_fx B)"
    by (simp add: live_rate_def inr_txdc_def split: option.splits sum.splits)
  obtain x where x: "bridge_quote D B ''INR'' ''TXDC'' a = Inr x" "rq_route x = ''xdc_bridge''" "rq_dest x = ''TXDC''"
    and "rq_dest_amount x = d_round D ((a - bridge_fee D a (1/2)) * live_rate (br_fx B) ''INR'' ''TXDC'' (12/1000)) 2"
    by (rule bridge_quoted [of D B a])
  then have paid: "rq_dest_amount x = txdc" unfolding assms(12) rate bridge_fee_half [OF assms(11)] by simp
  have "on_grid 2 txdc" unfolding assms(12) using decimal_docD(4) [OF assms(11)] .
  then have "(of_int (bridge_wei x) :: decimal) = (if 0 < txdc then txdc * 10 ^ 18 else 10 ^ 16)"
    using x(3) paid big_int_grid [of txdc] by (simp add: bridge_wei_def)
  with send_over_bridge [OF assms(1-10) x(1,2)] paid show ?thesis by blast
qed

text \<open>A decimal package on which every amount is sixty million, a request and the bridge of an API with a treasury key.\<close>

definition million_pkg :: decimal_pkg where
  "million_pkg = reference_pkg\<lparr>d_parse := (\<lambda>s. Some 60000000)\<rparr>"

definition sample_routing :: routing_env where
  "sample_routing = \<lparr>ro_pkg = million_pkg, ro_fl = id, ro_sort = reference_sort, ro_arrive = id, ro_tables = ascii_tables\<rparr>"

definition sample_beneficiary :: string where
  "sample_beneficiary = ''xdc'' @ replicate 40 (CHR ''A'')"

definition sample_send :: send_request where
  "sample_send = \<lparr>sn_source = ''INR'', sn_dest = ''TXDC'', sn_amount = ''60000000'', sn_route = ''xdc_bridge'', sn_auto = False,
     sn_source_region = '''', sn_dest_region = '''', sn_address = sample_beneficiary\<rparr>"

definition sample_bridge :: bridge where
  "sample_bridge = \<lparr>br_client = True, br_key = ''K'', br_recipient = '''', br_fx = None, br_now = 7, br_answer = Inl (Opaque ''refused''), br_taken = True\<rparr>"

definition sample_stripe_bank :: stripe_bank where
  "sample_stripe_bank = \<lparr>tb_key = '''', tb_fx = None, tb_now = 7, tb_int = big_int, tb_session = (\<lambda>r n c. Inl (Opaque ''refused''))\<rparr>"

lemmas sample_send_defs = sample_routing_def sample_send_def sample_bridge_def million_pkg_def

lemma sample_address:
  "trim_space ascii_tables sample_beneficiary = sample_beneficiary" "is_valid_destination_address sample_beneficiary"
  by code_simp+

lemma sample_sort: "slice_doc (ro_sort sample_routing)" "\<forall>xs. mset (ro_arrive sample_routing xs) = mset xs"
  by (simp_all add: sample_routing_def reference_sort_doc)

lemma sample_sent:
  "br_client sample_bridge" "br_key sample_bridge \<noteq> ''''" "sn_source sample_send = ''INR''" "sn_dest sample_send = ''TXDC''"
  "sn_route sample_send = ''xdc_bridge''"
  by (simp_all add: sample_send_defs)

lemma sample_send_accepted:
  "fiat_amount (ro_pkg sample_routing) (sn_amount sample_send) = Some 60000000"
  "trim_space (ro_tables sample_routing) (sn_address sample_send) = sample_beneficiary" "is_valid_destination_address sample_beneficiary"
  using sample_address by (simp_all add: sample_send_defs fiat_amount_def)

lemma sample_bridge_taken:
  "br_taken sample_bridge" "br_key sample_bridge = ''K''" "br_answer sample_bridge = Inl (Opaque ''refused'')" "w_net empty_world = []"
  by (simp_all add: sample_bridge_def empty_world_def)

lemma send_pays_from_treasury_witness:
  "\<exists>x. send_handler sample_routing (api_routes million_pkg id sample_bridge None 7 sample_stripe_bank) None sample_send
     (new_handler id) empty_world = (Some (Accepted (x, ''XDC-TX-7'')),
       empty_world\<lparr>w_net := [EvmTransfer ''K'' (canonical_address sample_beneficiary) (716400 * 10 ^ 18)]\<rparr>)"
proof -
  have ref: "bridge_reference sample_bridge = ''XDC-TX-7''" unfolding bridge_reference_def sample_bridge_def by code_simp
  have doc: "decimal_doc million_pkg" using decimal_doc_reference by (simp add: decimal_doc_def million_pkg_def)
  have "d_round million_pkg ((60000000 - d_round million_pkg (60000000 / 200) 2) * inr_txdc (br_fx sample_bridge)) 2 = 716400"
    by code_simp
  from send_pays_from_treasury [OF sample_sort sample_sent sample_send_accepted doc this [symmetric], where fl = id and fx = None
      and now = 7 and S = sample_stripe_bank and s = "new_handler id" and w = empty_world] sample_bridge_taken ref
  obtain x wei where run: "send_handler sample_routing (api_routes million_pkg id sample_bridge None 7 sample_stripe_bank) None sample_send
      (new_handler id) empty_world = (Some (Accepted (x, ''XDC-TX-7'')),
        empty_world\<lparr>w_net := [EvmTransfer ''K'' (canonical_address sample_beneficiary) wei]\<rparr>)"
    and wei: "(of_int wei :: decimal) = 716400 * 10 ^ 18" by auto
  from wei have "(of_int wei :: decimal) = of_int (716400 * 10 ^ 18)" by simp
  then have "wei = 716400 * 10 ^ 18" unfolding of_int_eq_iff .
  with run show ?thesis by blast
qed

text \<open>A tenth of a rupee is worth no hundredth of a TXDC and is paid out as one.\<close>

lemma dust_is_paid_up:
  "case bridge_quote reference_pkg sample_bridge ''INR'' ''TXDC'' (1/10) of Inl e \<Rightarrow> False
   | Inr x \<Rightarrow> rq_dest_amount x = 0 \<and> bridge_wei x = 10 ^ 16"
  by code_simp

text \<open>
  Above five times the limit of the default checker a quote offers no route, since the payment is blocked on
  each, and the same payment is still sent.
\<close>

theorem blocked_payment_still_sent:
  assumes "slice_doc (ro_sort E)" and "\<forall>xs. mset (ro_arrive E xs) = mset xs" and "br_client B" and "br_key B \<noteq> ''''"
    and "sn_source q = ''INR''" and "sn_dest q = ''TXDC''" and "sn_route q = ''xdc_bridge''"
    and "fiat_amount (ro_pkg E) (sn_amount q) = Some a" and "trim_space (ro_tables E) (sn_address q) = t"
    and "is_valid_destination_address t" and "50000000 < a"
    and "qr_source p = sn_source q" and "qr_dest p = sn_dest q" and "qr_amount p = sn_amount q"
  shows "fst (quote_handler E (default_checker cents) (api_routes D fl B fx now S) None p s) = Some (Accepted []) \<and>
    (\<exists>x. send_handler E (api_routes D fl B fx now S) None q s' w =
       (Some (Accepted (x, case br_answer B of Inl e \<Rightarrow> bridge_reference B | Inr h \<Rightarrow> h)),
        if br_taken B then w\<lparr>w_net := w_net w @ [EvmTransfer (br_key B) (canonical_address t) (bridge_wei x)]\<rparr> else w))"
proof -
  obtain x where x: "bridge_quote D B ''INR'' ''TXDC'' a = Inr x" "rq_route x = ''xdc_bridge''" by (rule bridge_quoted)
  let ?r = "payment_of_quote p a"
  have "bridge_quote D B (pq_source ?r) (pq_dest ?r) (pq_amount ?r) = Inr x"
    using x(1) assms(5,6,12,13) by (simp add: payment_of_quote_def)
  moreover have "pq_amount ?r \<noteq> 0" using assms(11) by (simp add: payment_of_quote_def)
  ultimately obtain qs xs where
    e: "evaluate (api_routes D fl B fx now S) (ro_arrive E) ?r = Quotes qs"
    and sc: "score_and_rank (ro_pkg E) (ro_fl E) (ro_sort E)
      (new_scorer (ro_fl E) (default_weights (ro_fl E)) (if qr_mode p = [] then ''balanced'' else qr_mode p)) qs = Some xs"
    using bridge_selected [OF assms(1,2) _ _ x(2)] by blast
  have "rk_blocked (check_route (default_checker cents) ?r route)" for route
    using assms(11) by (simp add: check_route_def default_checker_def payment_of_quote_def Let_def)
  then have "route_options (default_checker cents) ?r ss = []" for ss by (simp add: route_options_def)
  then have "fst (quote_handler E (default_checker cents) (api_routes D fl B fx now S) None p s) = Some (Accepted [])"
    using e sc assms(8,14) by (simp add: quote_handler_def Let_def)
  with send_over_bridge [OF assms(1-10) x] show ?thesis by blast
qed

definition sample_quote_request :: quote_request where
  "sample_quote_request = \<lparr>qr_source = ''INR'', qr_dest = ''TXDC'', qr_amount = ''60000000'', qr_source_region = '''', qr_dest_region = '''',
     qr_risk = '''', qr_mode = ''''\<rparr>"

lemma blocked_payment_still_sent_witness:
  "fst (quote_handler sample_routing (default_checker (\<lambda>a. '''')) (api_routes million_pkg id sample_bridge None 7 sample_stripe_bank) None
     sample_quote_request (new_handler id)) = Some (Accepted []) \<and>
   (\<exists>x n. snd (send_handler sample_routing (api_routes million_pkg id sample_bridge None 7 sample_stripe_bank) None sample_send
     (new_handler id) empty_world) = empty_world\<lparr>w_net := [EvmTransfer ''K'' (canonical_address sample_beneficiary) n]\<rparr>)"
proof -
  have "qr_source sample_quote_request = sn_source sample_send" "qr_dest sample_quote_request = sn_dest sample_send"
    "qr_amount sample_quote_request = sn_amount sample_send" "50000000 < (60000000 :: decimal)"
    by (simp_all add: sample_quote_request_def sample_send_def)
  with blocked_payment_still_sent [OF sample_sort sample_sent sample_send_accepted, where p = sample_quote_request and cents = "\<lambda>a. ''''" and
      D = million_pkg and fl = id and fx = None and now = 7 and S = sample_stripe_bank and s = "new_handler id" and s' = "new_handler id"
      and w = empty_world] sample_bridge_taken
  show ?thesis by fastforce
qed

end
