(* ===== verification/Indexer.thy ===== *)
theory Indexer
  imports Reconcile Wallets
begin

text \<open>
  \<^verbatim>\<open>internal/indexer\<close>: inbound payments found on the Stellar ledger become transactions of the wallets they pay. A
  wallet is synced page by page from its stored cursor, or fed by a stream that reconnects. The pages, the
  streams and the account of Horizon are parameters; what they hold is the type \<open>ledger_op\<close>.
\<close>

definition payments_page_limit :: nat where "payments_page_limit = 50"
definition stream_min_backoff :: int where "stream_min_backoff = 1 * second"
definition stream_max_backoff :: int where "stream_max_backoff = 30 * second"

text \<open>
  \<^verbatim>\<open>errors.As\<close> looks through the wrappers, unlike the type assertions of the reconciler. The status line of a
  response starts with its code; a missing response has no line.
\<close>

fun find_horizon :: "err \<Rightarrow> (int \<times> string) option" where
  "find_horizon (Wrap s e) = find_horizon e"
| "find_horizon e = as_horizon e"

definition is_not_found :: "err \<Rightarrow> bool" where
  "is_not_found e = (case find_horizon e of None \<Rightarrow> False | Some (st, line) \<Rightarrow> take 3 line = ''404'')"

section \<open>One payment\<close>

text \<open>
  An operation of the ledger; it has payment fields if its Go type is \<^verbatim>\<open>PathPayment\<close> or \<^verbatim>\<open>Payment\<close>. The type of
  strict-send path payments is neither of them.
\<close>

record ledger_op =
  lo_token :: string
  lo_hash :: string
  lo_successful :: bool
  lo_fields :: "pay_fields option"

definition ledger_asset_code :: "string \<Rightarrow> string \<Rightarrow> string" where
  "ledger_asset_code kind code = (if kind = ''native'' then ''XLM'' else code)"

definition payment_details :: "ledger_op \<Rightarrow> (string \<times> string \<times> string) option" where
  "payment_details x =
     (case lo_fields x of None \<Rightarrow> None
      | Some p \<Rightarrow> Some (ledger_asset_code (pf_type p) (pf_code p), pf_amount p, pf_to p))"

text \<open>\<^verbatim>\<open>ExistsByTxHash\<close>; a missing hash is NULL and equals nothing.\<close>

definition exists_by_hash :: "err option \<Rightarrow> string \<Rightarrow> world \<Rightarrow> err + bool" where
  "exists_by_hash q h w =
     (case q of Some e \<Rightarrow> Inl (Wrap ''check transaction exists by hash'' e)
      | None \<Rightarrow> Inr (h \<noteq> '''' \<and> (\<exists>r \<in> set (w_txs w). tx_hash r = h)))"

text \<open>The answers to a sync: the account, the pages, and per operation the statements, the id and the clock.\<close>

record index_env =
  ix_account :: "string \<Rightarrow> err + (string \<times> string \<times> string) list"
  ix_page :: "string \<Rightarrow> string \<Rightarrow> err + ledger_op list"
  ix_upsert :: "err option"
  ix_exists :: "ledger_op \<Rightarrow> err option"
  ix_create :: "ledger_op \<Rightarrow> err option"
  ix_cursor :: "string \<Rightarrow> err option"
  ix_uuid :: "ledger_op \<Rightarrow> string"
  ix_now :: "ledger_op \<Rightarrow> go_time"

definition inbound_transaction :: "string \<Rightarrow> go_time \<Rightarrow> wallet \<Rightarrow> string \<Rightarrow> string \<Rightarrow> decimal \<Rightarrow> transaction" where
  "inbound_transaction i now x h asset amount =
     \<lparr>tx_id = i, tx_hash = h, tx_kind = TypeTransfer, tx_status = StatusConfirmed, tx_from = '''', tx_to = wa_id x,
      tx_to_address = '''', tx_asset = asset, tx_amount = amount, tx_fee = 0, tx_fee_bps = 0, tx_tenant = wa_tenant x,
      tx_batch = None, tx_reference = '''', tx_created = now, tx_reconciled = None, tx_requeues = 0, tx_idem_key = '''',
      tx_fiat_rail = None, tx_fiat_ref = None, tx_fiat_status = None, tx_local_currency = None, tx_local_amount = None\<rparr>"

definition process_payment ::
  "decimal_pkg \<Rightarrow> numeric_col \<Rightarrow> index_env \<Rightarrow> ctx \<Rightarrow> wallet \<Rightarrow> ledger_op \<Rightarrow> world \<Rightarrow> err option \<times> world" where
  "process_payment D N E c x p w =
     (if \<not> lo_successful p then (None, w)
      else case payment_details p of None \<Rightarrow> (None, w)
      | Some (asset, text, dest) \<Rightarrow>
        if dest \<noteq> wa_public_key x then (None, w)
        else (case exists_by_hash (ix_exists E p) (lo_hash p) w of
            Inl e \<Rightarrow> (Some (Wrap (''check existing transaction '' @ lo_hash p) e), w)
          | Inr known \<Rightarrow>
            if known then (None, w)
            else (case d_parse D text of None \<Rightarrow> (Some (Wrap (''build inbound transaction '' @ lo_hash p) (Opaque text)), w)
              | Some a \<Rightarrow> (case create_tx N c (ix_create E p)
                    (inbound_transaction (ix_uuid E p) (ix_now E p) x (lo_hash p) asset a) w of
                  (Inl e, w1) \<Rightarrow> (Some (Wrap (''create transaction '' @ lo_hash p) e), w1)
                | (Inr t, w1) \<Rightarrow> (None, w1)))))"

text \<open>The errors of the operations of a page are only logged.\<close>

definition process_page ::
  "decimal_pkg \<Rightarrow> numeric_col \<Rightarrow> index_env \<Rightarrow> ctx \<Rightarrow> wallet \<Rightarrow> ledger_op list \<Rightarrow> world \<Rightarrow> world" where
  "process_page D N E c x ps w = fold (\<lambda>p w. snd (process_payment D N E c x p w)) ps w"

section \<open>A sync\<close>

fun persist_balances ::
  "decimal_pkg \<Rightarrow> numeric_col \<Rightarrow> err option \<Rightarrow> string \<Rightarrow> (string \<times> string \<times> string) list \<Rightarrow> world \<Rightarrow> err option \<times> world" where
  "persist_balances D N q wid [] w = (None, w)"
| "persist_balances D N q wid ((code0, issuer, text) # bs) w =
     (let code = (if code0 = '''' then ''XLM'' else code0) in
      case d_parse D text of None \<Rightarrow> (Some (Wrap (''parse balance for asset '' @ code) (Opaque text)), w)
      | Some a \<Rightarrow> (case upsert_balance N q wid code issuer a w of
          (Some e, w1) \<Rightarrow> (Some (Wrap (''upsert balance for asset '' @ code) e), w1)
        | (None, w1) \<Rightarrow> persist_balances D N q wid bs w1))"

definition payments :: "string \<Rightarrow> err + 'a \<Rightarrow> err + 'a" where
  "payments account inner = map_sum (Wrap (''payments for account '' @ account)) id inner"

definition finish_page ::
  "decimal_pkg \<Rightarrow> numeric_col \<Rightarrow> index_env \<Rightarrow> ctx \<Rightarrow> wallet \<Rightarrow> ledger_op list \<Rightarrow> world \<Rightarrow> err option \<times> world" where
  "finish_page D N E c x ps w =
     (let t = lo_token (last ps) in update_sync_cursor (ix_cursor E t) (wa_id x) t (process_page D N E c x ps w))"

text \<open>The loop over the pages; nothing in it bounds their number.\<close>

partial_function (option) sync_pages ::
  "decimal_pkg \<Rightarrow> numeric_col \<Rightarrow> index_env \<Rightarrow> ctx \<Rightarrow> wallet \<Rightarrow> string \<Rightarrow> world \<Rightarrow> (err option \<times> world) option" where
  "sync_pages D N E c x cursor w =
     (case payments (wa_public_key x) (ix_page E (wa_public_key x) cursor) of
        Inl e \<Rightarrow> Some (Some (Wrap (''fetch payments since cursor '' @ cursor) e), w)
      | Inr ps \<Rightarrow>
        if ps = [] then Some (None, w)
        else (case finish_page D N E c x ps w of
            (Some e, w1) \<Rightarrow> Some (Some (Wrap ''update sync cursor'' e), w1)
          | (None, w1) \<Rightarrow>
            if length ps < payments_page_limit then Some (None, w1)
            else sync_pages D N E c x (lo_token (last ps)) w1))"

definition sync_wallet ::
  "decimal_pkg \<Rightarrow> numeric_col \<Rightarrow> index_env \<Rightarrow> ctx \<Rightarrow> wallet \<Rightarrow> world \<Rightarrow> (err option \<times> world) option" where
  "sync_wallet D N E c x w =
     (case load_account (wa_public_key x) (ix_account E (wa_public_key x)) of
        Inl e \<Rightarrow> Some (if is_not_found e then None else Some (Wrap (''load account '' @ wa_public_key x) e), w)
      | Inr bs \<Rightarrow> (case persist_balances D N (ix_upsert E) (wa_id x) bs w of
          (Some e, w1) \<Rightarrow> Some (Some (Wrap ''persist balances'' e), w1)
        | (None, w1) \<Rightarrow> sync_pages D N E c x (wa_cursor x) w1))"

text \<open>A wallet that fails is logged; one whose sync does not end keeps the others waiting.\<close>

fun sync_wallets ::
  "decimal_pkg \<Rightarrow> numeric_col \<Rightarrow> index_env \<Rightarrow> ctx \<Rightarrow> wallet list \<Rightarrow> world \<Rightarrow> world option" where
  "sync_wallets D N E c [] w = Some w"
| "sync_wallets D N E c (x # xs) w =
     (case sync_wallet D N E c x w of None \<Rightarrow> None | Some (e, w1) \<Rightarrow> sync_wallets D N E c xs w1)"

definition sync_all ::
  "decimal_pkg \<Rightarrow> numeric_col \<Rightarrow> index_env \<Rightarrow> ctx \<Rightarrow> err option \<Rightarrow> nat \<Rightarrow> nat \<Rightarrow> world \<Rightarrow> (err option \<times> world) option" where
  "sync_all D N E c q limit offset w =
     (case list_wallets c q limit offset w of
        Inl e \<Rightarrow> Some (Some (Wrap ''list wallets'' e), w)
      | Inr xs \<Rightarrow> map_option (Pair None) (sync_wallets D N E c xs w))"

definition handle_sync_ledger ::
  "decimal_pkg \<Rightarrow> numeric_col \<Rightarrow> index_env \<Rightarrow> ctx \<Rightarrow> err option \<Rightarrow> world \<Rightarrow> (err option \<times> world) option" where
  "handle_sync_ledger D N E c q w = sync_all D N E c q 100 0 w"

section \<open>A stream\<close>

text \<open>
  A session is what the stream delivers until it ends, given the cursor it was opened with. The waits between the
  sessions are returned; the process stops when the list of sessions does, which is the end of the context.
\<close>

definition stream_event ::
  "decimal_pkg \<Rightarrow> numeric_col \<Rightarrow> index_env \<Rightarrow> ctx \<Rightarrow> wallet \<Rightarrow> ledger_op \<Rightarrow> string \<times> world \<Rightarrow> string \<times> world" where
  "stream_event D N E c x p s =
     (lo_token p, snd (update_sync_cursor (ix_cursor E (lo_token p)) (wa_id x) (lo_token p)
        (snd (process_payment D N E c x p (snd s)))))"

definition next_backoff :: "int \<Rightarrow> int" where
  "next_backoff b = (if b * 2 > stream_max_backoff then stream_max_backoff else b * 2)"

fun stream_sessions ::
  "decimal_pkg \<Rightarrow> numeric_col \<Rightarrow> index_env \<Rightarrow> ctx \<Rightarrow> wallet \<Rightarrow> (string \<Rightarrow> ledger_op list) list \<Rightarrow> string \<Rightarrow> int \<Rightarrow> world
    \<Rightarrow> int list \<times> string \<times> world" where
  "stream_sessions D N E c x [] cursor b w = ([], cursor, w)"
| "stream_sessions D N E c x (f # fs) cursor b w =
     (let ps = f cursor;
          (cursor1, w1) = fold (stream_event D N E c x) ps (cursor, w);
          b1 = (if ps = [] then b else stream_min_backoff);
          (waits, cursor2, w2) = stream_sessions D N E c x fs cursor1 (next_backoff b1) w1
      in (b1 # waits, cursor2, w2))"

definition stream_wallet ::
  "decimal_pkg \<Rightarrow> numeric_col \<Rightarrow> index_env \<Rightarrow> ctx \<Rightarrow> wallet \<Rightarrow> (string \<Rightarrow> ledger_op list) list \<Rightarrow> world \<Rightarrow> int list \<times> string \<times> world" where
  "stream_wallet D N E c x fs w = stream_sessions D N E c x fs (wa_cursor x) stream_min_backoff w"

text \<open>
  \<^verbatim>\<open>StreamAll\<close> runs the streams of all wallets at once: their events reach the store in the order of
  the schedule, which names a wallet by its place in the list. One event is one step.
\<close>

definition stream_all ::
  "decimal_pkg \<Rightarrow> numeric_col \<Rightarrow> index_env \<Rightarrow> ctx \<Rightarrow> err option \<Rightarrow> nat \<Rightarrow> nat \<Rightarrow> (nat \<times> ledger_op) list \<Rightarrow> world \<Rightarrow> err option \<times> world" where
  "stream_all D N E c q limit offset sched w =
     (case list_wallets c q limit offset w of
        Inl e \<Rightarrow> (Some (Wrap ''list wallets'' e), w)
      | Inr xs \<Rightarrow> (None, fold (\<lambda>(k, p) w. if k < length xs then snd (stream_event D N E c (xs ! k) p ('''', w)) else w) sched w))"

section \<open>Every outcome of one payment\<close>

text \<open>Before: no row has the hash. After: one confirmed row for the wallet, with the amount of the operation.\<close>

definition records :: "decimal_pkg \<Rightarrow> numeric_col \<Rightarrow> ctx \<Rightarrow> wallet \<Rightarrow> ledger_op \<Rightarrow> transaction \<Rightarrow> bool" where
  "records D N c x p r \<longleftrightarrow>
     lo_successful p \<and> tx_hash r = lo_hash p \<and> tx_status r = StatusConfirmed \<and> tx_kind r = TypeTransfer \<and>
     tx_from r = '''' \<and> tx_to r = wa_id x \<and>
     (case payment_details p of None \<Rightarrow> False
      | Some (asset, text, dest) \<Rightarrow> tx_asset r = asset \<and> dest = wa_public_key x \<and>
          (case d_parse D text of None \<Rightarrow> False | Some a \<Rightarrow> N 20 7 a = Some (tx_amount r)))"

lemma tx_row_amount: "tx_row N t = Some r \<Longrightarrow> N 20 7 (tx_amount t) = Some (tx_amount r)"
  by (auto simp: tx_row_def split: option.splits)

lemma process_payment_cases:
  assumes "process_payment D N E c x p w = (res, w1)"
  obtains (same) "w1 = w"
  | (added) r where "res = None" "w1 = w\<lparr>w_txs := w_txs w @ [r]\<rparr>" "records D N c x p r"
      "tx_id r \<notin> tx_id ` set (w_txs w)" "lo_hash p = '''' \<or> lo_hash p \<notin> tx_hash ` set (w_txs w)"
proof (cases "w1 = w")
  case False
  with assms obtain asset am dest a t where p: "lo_successful p" "payment_details p = Some (asset, am, dest)"
      "dest = wa_public_key x" "d_parse D am = Some a"
    and made: "create_tx N c (ix_create E p) (inbound_transaction (ix_uuid E p) (ix_now E p) x (lo_hash p) asset a) w = (Inr t, w1)"
    and res: "res = None"
    by (auto simp: process_payment_def create_tx_def Let_def split: if_splits option.splits prod.splits sum.splits)
  let ?t = "with_ctx_tenant c (inbound_transaction (ix_uuid E p) (ix_now E p) x (lo_hash p) asset a)"
  from made have "insert_tx N ?t w = Inr w1" by (auto simp: create_tx_def Let_def split: option.splits sum.splits)
  then obtain r where r: "tx_row N ?t = Some r" "w1 = w\<lparr>w_txs := w_txs w @ [r]\<rparr>" "\<not> tx_conflict ?t w"
    by (rule insert_tx_Inr)
  have f: "tx_hash ?t = lo_hash p" "tx_status ?t = StatusConfirmed" "tx_kind ?t = TypeTransfer" "tx_from ?t = ''''"
    "tx_to ?t = wa_id x" "tx_asset ?t = asset" "tx_amount ?t = a" "tx_id ?t = ix_uuid E p"
    by (simp_all add: with_ctx_tenant_def inbound_transaction_def)
  have "records D N c x p r"
    using p f tx_row_fields [OF r(1)] tx_row_amount [OF r(1)] by (simp add: records_def)
  moreover have "tx_id r \<notin> tx_id ` set (w_txs w)" "lo_hash p = '''' \<or> lo_hash p \<notin> tx_hash ` set (w_txs w)"
    using r(3) f tx_row_fields [OF r(1)] by (auto simp: tx_conflict_def)
  ultimately show ?thesis using added res r(2) by blast
qed (use that in blast)

text \<open>Writing a cursor and recording a payment do not see each other.\<close>

definition set_cursor :: "string \<Rightarrow> string \<Rightarrow> world \<Rightarrow> world" where
  "set_cursor i t w = w\<lparr>w_wallets := update_where (\<lambda>r. wa_id r = i) (\<lambda>r. r\<lparr>wa_cursor := t\<rparr>) (w_wallets w)\<rparr>"

lemma update_sync_cursor_ok: "update_sync_cursor None i t w = (None, set_cursor i t w)"
  by (simp add: update_sync_cursor_def set_cursor_def)

lemma set_cursor_txs [simp]: "w_txs (set_cursor i t w) = w_txs w"
  by (simp add: set_cursor_def)

lemma set_cursor_twice [simp]: "set_cursor i t (set_cursor i s w) = set_cursor i t w"
  by (simp add: set_cursor_def update_where_def comp_def)

lemma create_tx_set_cursor:
  "create_tx N c q t (set_cursor i s w) = (case create_tx N c q t w of (r, w1) \<Rightarrow> (r, set_cursor i s w1))"
proof -
  have ids: "map wa_id (update_where (\<lambda>r. wa_id r = i) (\<lambda>r. r\<lparr>wa_cursor := s\<rparr>) xs) = map wa_id xs" for xs
    by (rule map_key_update_where) simp
  have "tx_conflict t' (set_cursor i s w) = tx_conflict t' w" "tx_refs_ok t' (set_cursor i s w) = tx_refs_ok t' w" for t'
    by (auto simp: tx_conflict_def tx_refs_ok_def set_cursor_def ids simp del: set_map split: option.splits)
  then show ?thesis
    by (auto simp: create_tx_def insert_tx_def Let_def set_cursor_def split: option.splits)
qed

lemma process_payment_set_cursor:
  "process_payment D N E c x p (set_cursor i s w) = (case process_payment D N E c x p w of (r, w1) \<Rightarrow> (r, set_cursor i s w1))"
proof -
  have "exists_by_hash q h (set_cursor i s w) = exists_by_hash q h w" for q h
    by (simp add: exists_by_hash_def split: option.splits)
  then show ?thesis
    by (auto simp: process_payment_def create_tx_set_cursor split: option.splits prod.splits sum.splits)
qed

lemma process_page_set_cursor:
  "process_page D N E c x ps (set_cursor i s w) = set_cursor i s (process_page D N E c x ps w)"
  by (induction ps arbitrary: w) (simp_all add: process_page_def process_payment_set_cursor split: prod.splits)

lemma process_page_append:
  "process_page D N E c x (ps @ qs) w = process_page D N E c x qs (process_page D N E c x ps w)"
  by (simp add: process_page_def)

section \<open>Paging\<close>

text \<open>
  The documented behaviour of Horizon: the payments of an account are a sequence \<open>L\<close> with distinct tokens, and a page
  holds the first of those behind the cursor, up to the limit. The sequence may have grown between two syncs, but
  not during one.
\<close>

definition after :: "ledger_op list \<Rightarrow> string \<Rightarrow> ledger_op list" where
  "after L cursor = (if cursor = '''' then L else tl (dropWhile (\<lambda>p. lo_token p \<noteq> cursor) L))"

definition ledger_doc :: "index_env \<Rightarrow> string \<Rightarrow> ledger_op list \<Rightarrow> bool" where
  "ledger_doc E account L \<longleftrightarrow> distinct (map lo_token L) \<and> '''' \<notin> lo_token ` set L \<and>
     (\<forall>cursor. ix_page E account cursor = Inr (take payments_page_limit (after L cursor)))"

lemma after_split:
  assumes "distinct (map lo_token L)" and "L = ys @ z # zs" and "lo_token z \<noteq> ''''"
  shows "after L (lo_token z) = zs"
proof -
  have "lo_token z \<notin> lo_token ` set ys" using assms(1,2) by auto
  then have "lo_token p \<noteq> lo_token z" if "p \<in> set ys" for p using that by (metis image_eqI)
  then have "dropWhile (\<lambda>p. lo_token p \<noteq> lo_token z) (ys @ z # zs) = z # zs"
    by (subst dropWhile_append2) auto
  then show ?thesis using assms(2,3) by (simp add: after_def)
qed

lemma after_suffix: "\<exists>us. L = us @ after L cursor"
proof (cases "cursor = ''''")
  case False
  let ?P = "\<lambda>p. lo_token p \<noteq> cursor"
  have L: "L = takeWhile ?P L @ dropWhile ?P L" by simp
  show ?thesis
  proof (cases "dropWhile ?P L")
    case Nil
    have "after L cursor = tl (dropWhile ?P L)" using False by (simp add: after_def)
    also have "\<dots> = []" unfolding Nil by simp
    finally show ?thesis by simp
  next
    case (Cons z zs)
    with L have "L = (takeWhile ?P L @ [z]) @ zs" by simp
    moreover have "after L cursor = zs" using Cons False by (simp add: after_def)
    ultimately show ?thesis by metis
  qed
qed (simp add: after_def)

text \<open>The page that the loop asks for next is the one behind the last operation it has seen.\<close>

lemma after_page:
  assumes "ledger_doc E k L" and "take n (after L cursor) \<noteq> []"
  shows "after L (lo_token (last (take n (after L cursor)))) = drop n (after L cursor)"
proof -
  obtain us where L: "L = us @ after L cursor" using after_suffix by blast
  let ?ps = "take n (after L cursor)"
  have "?ps = butlast ?ps @ [last ?ps]" using assms(2) by simp
  then have "L = (us @ butlast ?ps) @ last ?ps # drop n (after L cursor)"
    using L append_take_drop_id [of n "after L cursor"] by (metis append.assoc append_Cons append_Nil)
  moreover from this have "lo_token (last ?ps) \<in> lo_token ` set L" by (metis image_eqI in_set_conv_decomp)
  then have "lo_token (last ?ps) \<noteq> ''''" using assms(1) unfolding ledger_doc_def by metis
  ultimately show ?thesis using assms(1) after_split unfolding ledger_doc_def by metis
qed

definition read_rest :: "decimal_pkg \<Rightarrow> numeric_col \<Rightarrow> index_env \<Rightarrow> ctx \<Rightarrow> wallet \<Rightarrow> ledger_op list \<Rightarrow> world \<Rightarrow> world" where
  "read_rest D N E c x ps w =
     (if ps = [] then w else set_cursor (wa_id x) (lo_token (last ps)) (process_page D N E c x ps w))"

lemma sync_pages_reads:
  assumes "ledger_doc E (wa_public_key x) L" and "\<forall>t. ix_cursor E t = None"
  shows "sync_pages D N E c x cursor w = Some (None, read_rest D N E c x (after L cursor) w)"
proof (induction "length (after L cursor)" arbitrary: cursor w rule: less_induct)
  case less
  let ?n = payments_page_limit
  let ?ps = "take ?n (after L cursor)"
  have n: "?n = 50" by (simp add: payments_page_limit_def)
  have page: "payments (wa_public_key x) (ix_page E (wa_public_key x) cursor) = Inr ?ps"
    using assms(1) by (simp add: ledger_doc_def payments_def)
  show ?case
  proof (cases "after L cursor = []")
    case True
    with page show ?thesis by (simp add: sync_pages.simps read_rest_def)
  next
    case False
    then have ps: "?ps \<noteq> []" using n by simp
    let ?t = "lo_token (last ?ps)"
    let ?w = "set_cursor (wa_id x) ?t (process_page D N E c x ?ps w)"
    have fin: "finish_page D N E c x ?ps w = (None, ?w)"
      using assms(2) by (simp add: finish_page_def update_sync_cursor_ok Let_def)
    show ?thesis
    proof (cases "length (after L cursor) < ?n")
      case True
      then have "?ps = after L cursor" by simp
      with page fin ps True show ?thesis by (simp add: sync_pages.simps [of D N E c x cursor] read_rest_def)
    next
      case full: False
      have rest: "after L ?t = drop ?n (after L cursor)" by (rule after_page [OF assms(1) ps])
      have "length (after L ?t) < length (after L cursor)" using False n unfolding rest by simp
      from less [OF this] have ih: "sync_pages D N E c x ?t ?w = Some (None, read_rest D N E c x (after L ?t) ?w)" .
      have "sync_pages D N E c x cursor w = sync_pages D N E c x ?t ?w"
        using page fin ps full by (simp add: sync_pages.simps [of D N E c x cursor])
      moreover have "read_rest D N E c x (after L ?t) ?w = read_rest D N E c x (after L cursor) w"
      proof (cases "drop ?n (after L cursor) = []")
        case True
        then have "?ps = after L cursor" by simp
        with True rest False show ?thesis by (simp add: read_rest_def)
      next
        case more: False
        have "process_page D N E c x (after L cursor) w
            = process_page D N E c x (drop ?n (after L cursor)) (process_page D N E c x ?ps w)"
          by (metis append_take_drop_id process_page_append)
        moreover have "last (after L cursor) = last (drop ?n (after L cursor))" using more by (metis append_take_drop_id last_appendR)
        ultimately show ?thesis using more rest False by (simp add: read_rest_def process_page_set_cursor)
      qed
      ultimately show ?thesis using ih by simp
    qed
  qed
qed

section \<open>Properties\<close>

text \<open>A ledger with one payment of five to \<^verbatim>\<open>GA\<close>, and a database that takes everything, or refuses the row.\<close>

definition sample_ledger :: "ledger_op list" where
  "sample_ledger = [\<lparr>lo_token = ''1'', lo_hash = ''h'', lo_successful = True,
     lo_fields = Some \<lparr>pf_from = ''GX'', pf_to = ''GA'', pf_amount = ''5'', pf_type = ''native'', pf_code = '''', pf_issuer = ''''\<rparr>\<rparr>]"

definition index_pkg :: decimal_pkg where
  "index_pkg = reference_pkg\<lparr>d_parse := (\<lambda>s. Some 5)\<rparr>"

definition sample_index :: "err option \<Rightarrow> index_env" where
  "sample_index q = \<lparr>ix_account = (\<lambda>k. Inr []), ix_page = (\<lambda>k cursor. Inr (take payments_page_limit (after sample_ledger cursor))),
     ix_upsert = None, ix_exists = (\<lambda>p. None), ix_create = (\<lambda>p. q), ix_cursor = (\<lambda>t. None), ix_uuid = (\<lambda>p. ''u''), ix_now = (\<lambda>p. 3)\<rparr>"

definition index_world :: world where
  "index_world = empty_world\<lparr>w_wallets := [sample_wallet ''a'' ''GA'']\<rparr>"

lemma sample_ledger_doc: "ledger_doc (sample_index q) k sample_ledger" "\<forall>t. ix_cursor (sample_index q) t = None"
  by (simp_all add: ledger_doc_def sample_index_def sample_ledger_def)

lemmas index_samples = sample_ledger_def index_pkg_def sample_index_def index_world_def sample_wallet_def empty_world_def

text \<open>
  C33: paging ends, and amounts to reading in one go, in the order of the ledger, all that is behind the cursor; the
  stored cursor is then the last token, from which the next sync reads nothing.
\<close>

theorem sync_reads_ledger:
  assumes "ledger_doc E (wa_public_key x) L" and "\<forall>t. ix_cursor E t = None"
    and "persist_balances D N (ix_upsert E) (wa_id x) bs w = (None, w0)" and "ix_account E (wa_public_key x) = Inr bs"
    and "after L (wa_cursor x) = ps @ [p]"
  shows "sync_wallet D N E c x w =
      Some (None, set_cursor (wa_id x) (lo_token p) (process_page D N E c x (ps @ [p]) w0)) \<and>
    sync_pages D N E c x (lo_token p) w1 = Some (None, w1)"
proof -
  obtain us where "L = us @ ps @ [p]" using after_suffix [of L "wa_cursor x"] assms(5) by metis
  then have L: "L = (us @ ps) @ p # []" by simp
  then have "p \<in> set L" by simp
  then have "lo_token p \<noteq> ''''" using assms(1) unfolding ledger_doc_def by (metis image_eqI)
  then have fin: "after L (lo_token p) = []" using after_split L assms(1) unfolding ledger_doc_def by metis
  show ?thesis
    using sync_pages_reads [OF assms(1,2)] assms(3-5) fin by (simp add: sync_wallet_def read_rest_def)
qed

lemma sync_reads_ledger_witness:
  "\<exists>w. sync_wallet index_pkg exact_numeric (sample_index None) no_tenant (sample_wallet ''a'' ''GA'') index_world = Some (None, w) \<and>
     sync_pages index_pkg exact_numeric (sample_index None) no_tenant (sample_wallet ''a'' ''GA'') ''1'' w = Some (None, w)"
proof -
  let ?x = "sample_wallet ''a'' ''GA''"
  have "persist_balances index_pkg exact_numeric (ix_upsert (sample_index None)) (wa_id ?x) [] index_world = (None, index_world)"
    "ix_account (sample_index None) (wa_public_key ?x) = Inr []"
    "after sample_ledger (wa_cursor ?x) = [] @ [hd sample_ledger]" "lo_token (hd sample_ledger) = ''1''"
    by (simp_all add: index_samples after_def)
  with sync_reads_ledger [OF sample_ledger_doc(1) sample_ledger_doc(2) this(1-3), of no_tenant] show ?thesis by auto
qed

text \<open>
  A run: payments of any wallets, from pages and streams in any order, each with its own answers.
\<close>

fun process_run ::
  "decimal_pkg \<Rightarrow> numeric_col \<Rightarrow> ctx \<Rightarrow> (index_env \<times> wallet \<times> ledger_op) list \<Rightarrow> world \<Rightarrow> world" where
  "process_run D N c [] w = w"
| "process_run D N c ((E, x, p) # ys) w = process_run D N c ys (snd (process_payment D N E c x p w))"

text \<open>
  C34: whatever wallets are synced and streamed in whatever order, the indexer only adds rows; every row it adds is
  confirmed and stands for a successful payment of the ledger to the key of its wallet, in the amount of the operation,
  and no two rows have one hash.
\<close>

theorem indexed_rows_are_payments:
  assumes "wf_txs w"
  shows "\<exists>new. w_txs (process_run D N c ys w) = w_txs w @ new \<and> wf_txs (process_run D N c ys w) \<and>
    (\<forall>r \<in> set new. \<exists>E x p. (E, x, p) \<in> set ys \<and> records D N c x p r)"
  using assms
proof (induction ys arbitrary: w)
  case (Cons y ys)
  obtain E x p where y: "y = (E, x, p)" by (cases y)
  obtain res w1 where step: "process_payment D N E c x p w = (res, w1)" by fastforce
  then show ?case
  proof (cases rule: process_payment_cases)
    case same
    with Cons.IH [OF Cons.prems] step y show ?thesis by fastforce
  next
    case (added r)
    have "tx_hash r = lo_hash p" using added(3) by (simp add: records_def)
    then have "wf_txs w1" using Cons.prems added(2,4,5) by (auto simp: wf_txs_def)
    from Cons.IH [OF this] obtain new where "w_txs (process_run D N c ys w1) = w_txs w1 @ new"
      "wf_txs (process_run D N c ys w1)" "\<forall>r \<in> set new. \<exists>E x p. (E, x, p) \<in> set ys \<and> records D N c x p r" by blast
    moreover from this(3) have "\<forall>r' \<in> set (r # new). \<exists>E' x' p'. (E', x', p') \<in> set (y # ys) \<and> records D N c x' p' r'"
      using added(3) y by (metis insert_iff list.simps(15) set_ConsD)
    ultimately show ?thesis using added(2) step y by (intro exI [of _ "r # new"]) simp
  qed
qed simp

lemma indexed_rows_are_payments_witness:
  "\<exists>r. w_txs (process_run index_pkg exact_numeric no_tenant [(sample_index None, sample_wallet ''a'' ''GA'', hd sample_ledger)] index_world) = [r] \<and>
     records index_pkg exact_numeric no_tenant (sample_wallet ''a'' ''GA'') (hd sample_ledger) r \<and> tx_amount r = 5"
proof -
  let ?ys = "[(sample_index None, sample_wallet ''a'' ''GA'', hd sample_ledger)]"
  have "wf_txs index_world" by (simp add: wf_txs_def index_world_def empty_world_def)
  from indexed_rows_are_payments [OF this, of index_pkg exact_numeric no_tenant ?ys] obtain new where
    new: "w_txs (process_run index_pkg exact_numeric no_tenant ?ys index_world) = w_txs index_world @ new"
      "\<forall>r \<in> set new. \<exists>E x p. (E, x, p) \<in> set ?ys \<and> records index_pkg exact_numeric no_tenant x p r" by blast
  have "\<exists>r. w_txs (process_run index_pkg exact_numeric no_tenant ?ys index_world) = [r] \<and> tx_amount r = 5"
    by (simp add: index_samples process_payment_def payment_details_def ledger_asset_code_def exists_by_hash_def create_tx_def insert_tx_def
        tx_row_def inbound_transaction_def with_ctx_tenant_def no_tenant_def exact_numeric_def tx_conflict_def tx_refs_ok_def ref_ok_def Let_def)
  with new show ?thesis by (auto simp: index_world_def empty_world_def)
qed

text \<open>
  A payment whose row could not be written, for whatever reason, is never recorded by a later sync: the cursor has
  passed it, and even with a database that takes everything the next sync changes no transaction.
\<close>

theorem failed_payment_never_retried:
  assumes "ledger_doc E (wa_public_key x) L" and "\<forall>t. ix_cursor E t = None"
    and "sync_pages D N E c x (wa_cursor x) w = Some (res, w1)" and "after L (wa_cursor x) \<noteq> []"
    and "y \<in> set (w_wallets w1)" and "wa_id y = wa_id x" and "wa_public_key y = wa_public_key x"
    and "ledger_doc E' (wa_public_key x) L" and "\<forall>t. ix_cursor E' t = None"
  shows "sync_pages D N E' c y (wa_cursor y) w1 = Some (None, w1)"
proof -
  let ?ps = "after L (wa_cursor x)"
  let ?w = "process_page D N E c x ?ps w"
  from sync_pages_reads [OF assms(1,2)] assms(3,4)
  have w1: "w1 = set_cursor (wa_id x) (lo_token (last ?ps)) ?w" by (simp add: read_rest_def)
  then have cur: "wa_cursor y = lo_token (last ?ps)" using assms(5,6) by (auto simp: set_cursor_def set_update_where split: if_splits)
  obtain us where "L = us @ ?ps" using after_suffix by blast
  then have L: "L = (us @ butlast ?ps) @ last ?ps # []" using assms(4) by simp
  then have "last ?ps \<in> set L" by (metis in_set_conv_decomp)
  then have "lo_token (last ?ps) \<noteq> ''''" using assms(1) unfolding ledger_doc_def by (metis image_eqI)
  then have "after L (lo_token (last ?ps)) = []" using after_split L assms(1) unfolding ledger_doc_def by metis
  with sync_pages_reads [of E' y L D N c "wa_cursor y" w1] assms(7-9) cur show ?thesis by (simp add: read_rest_def)
qed

lemma failed_payment_never_retried_witness:
  "\<exists>w1. sync_pages index_pkg exact_numeric (sample_index (Some (Opaque ''down''))) no_tenant (sample_wallet ''a'' ''GA'') '''' index_world
       = Some (None, w1) \<and> w_txs w1 = [] \<and>
     sync_pages index_pkg exact_numeric (sample_index None) no_tenant (hd (w_wallets w1)) (wa_cursor (hd (w_wallets w1))) w1 = Some (None, w1)"
proof -
  let ?E = "sample_index (Some (Opaque ''down''))"
  let ?x = "sample_wallet ''a'' ''GA''"
  let ?w = "set_cursor ''a'' ''1'' index_world"
  have a: "after sample_ledger (wa_cursor ?x) = sample_ledger" by (simp add: after_def sample_wallet_def)
  have "process_payment index_pkg exact_numeric ?E no_tenant ?x (hd sample_ledger) index_world
      = (Some (Wrap ''create transaction h'' (Wrap ''insert transaction'' (Opaque ''down''))), index_world)"
    by (simp add: index_samples process_payment_def payment_details_def ledger_asset_code_def exists_by_hash_def create_tx_def)
  then have run: "sync_pages index_pkg exact_numeric ?E no_tenant ?x (wa_cursor ?x) index_world = Some (None, ?w)"
    using sync_pages_reads [OF sample_ledger_doc(1) sample_ledger_doc(2), where x = ?x and D = index_pkg and N = exact_numeric and
      c = no_tenant and cursor = "wa_cursor ?x" and w = index_world]
    by (simp add: a read_rest_def process_page_def) (simp add: sample_ledger_def sample_wallet_def)
  have y: "hd (w_wallets ?w) \<in> set (w_wallets ?w)" "wa_id (hd (w_wallets ?w)) = wa_id ?x" "wa_public_key (hd (w_wallets ?w)) = wa_public_key ?x"
    by (simp_all add: set_cursor_def index_world_def empty_world_def sample_wallet_def)
  have "after sample_ledger (wa_cursor ?x) \<noteq> []" unfolding a by (simp add: sample_ledger_def)
  from failed_payment_never_retried [OF sample_ledger_doc run this y sample_ledger_doc, of None]
  show ?thesis using run by (auto simp: sample_wallet_def index_world_def empty_world_def)
qed

text \<open>Once a hash is known, no operation with it adds a row: of two payments in one transaction the second is lost.\<close>

lemma known_hash_ignored:
  assumes "lo_hash p \<noteq> ''''" and "lo_hash p \<in> tx_hash ` set (w_txs w)"
  shows "snd (process_payment D N E c x p w) = w"
proof -
  obtain res w1 where run: "process_payment D N E c x p w = (res, w1)" by fastforce
  then have "w1 = w" by (cases rule: process_payment_cases) (use assms in auto)
  with run show ?thesis by simp
qed

lemma next_backoff_bounds:
  "stream_min_backoff \<le> b \<Longrightarrow> stream_min_backoff \<le> next_backoff b \<and> next_backoff b \<le> stream_max_backoff"
  by (simp add: next_backoff_def stream_min_backoff_def stream_max_backoff_def second_def)

lemma waits_bounded:
  assumes "stream_sessions D N E c x fs cursor b w = (waits, cursor', w')" and "stream_min_backoff \<le> b" and "b \<le> stream_max_backoff"
  shows "length waits = length fs \<and> (\<forall>d \<in> set waits. stream_min_backoff \<le> d \<and> d \<le> stream_max_backoff)"
  using assms
proof (induction fs arbitrary: cursor b w waits cursor' w')
  case (Cons f fs)
  let ?b = "if f cursor = [] then b else stream_min_backoff"
  obtain cursor1 w1 where e: "fold (stream_event D N E c x) (f cursor) (cursor, w) = (cursor1, w1)" by fastforce
  obtain ds cursor2 w2 where r: "stream_sessions D N E c x fs cursor1 (next_backoff ?b) w1 = (ds, cursor2, w2)" by (metis prod_cases3)
  have "stream_min_backoff \<le> stream_max_backoff" by (simp add: stream_min_backoff_def stream_max_backoff_def second_def)
  with Cons.prems have b: "stream_min_backoff \<le> ?b" "?b \<le> stream_max_backoff" by auto
  from Cons.IH [OF r] next_backoff_bounds [OF b(1)] have "length ds = length fs" "\<forall>d \<in> set ds. stream_min_backoff \<le> d \<and> d \<le> stream_max_backoff"
    by auto
  moreover have "waits = ?b # ds" using Cons.prems(1) e r by (simp add: Let_def)
  ultimately show ?case using b by simp
qed simp

lemma silent_waits:
  assumes "\<forall>f \<in> set fs. \<forall>s. f s = []" and "b = min (2 ^ k * second) stream_max_backoff"
  shows "fst (stream_sessions D N E c x fs cursor b w) = map (\<lambda>j. min (2 ^ (k + j) * second) stream_max_backoff) [0..<length fs]"
  using assms
proof (induction fs arbitrary: b k)
  case (Cons f fs)
  have "next_backoff b = min (2 ^ Suc k * second) stream_max_backoff"
    using Cons.prems(2) by (auto simp: next_backoff_def stream_max_backoff_def second_def min_def)
  from Cons.IH [OF _ this] Cons.prems(1)
  have "fst (stream_sessions D N E c x fs cursor (next_backoff b) w) = map (\<lambda>j. min (2 ^ (Suc k + j) * second) stream_max_backoff) [0..<length fs]"
    by simp
  then have "fst (stream_sessions D N E c x (f # fs) cursor b w)
      = b # map (\<lambda>j. min (2 ^ (Suc k + j) * second) stream_max_backoff) [0..<length fs]"
    using Cons.prems(1) by (cases "stream_sessions D N E c x fs cursor (next_backoff b) w") simp
  also have "\<dots> = map (\<lambda>j. min (2 ^ (k + j) * second) stream_max_backoff) [0..<length (f # fs)]"
    using Cons.prems(2) by (simp add: upt_conv_Cons map_Suc_upt [symmetric] del: upt_Suc)
  finally show ?case .
qed simp

text \<open>
  The waits of a stream that keeps failing without an event are one second, two, four and so on up to thirty, and
  every wait of every stream is between one second and thirty.
\<close>

theorem stream_waits_bounded:
  assumes "stream_wallet D N E c x fs w = (waits, cursor, w')"
  shows "length waits = length fs \<and> (\<forall>d \<in> set waits. second \<le> d \<and> d \<le> 30 * second) \<and>
    ((\<forall>f \<in> set fs. \<forall>s. f s = []) \<longrightarrow> (\<forall>k < length fs. waits ! k = min (2 ^ k * second) (30 * second)))"
proof -
  from assms have run: "stream_sessions D N E c x fs (wa_cursor x) stream_min_backoff w = (waits, cursor, w')"
    by (simp add: stream_wallet_def)
  have b: "stream_min_backoff = min (2 ^ 0 * second) stream_max_backoff" "stream_min_backoff = second" "stream_max_backoff = 30 * second"
    by (simp_all add: stream_min_backoff_def stream_max_backoff_def second_def)
  have "stream_min_backoff \<le> stream_max_backoff" by (simp add: b(2,3) second_def)
  with waits_bounded [OF run] have "length waits = length fs" "\<forall>d \<in> set waits. second \<le> d \<and> d \<le> 30 * second"
    by (simp_all add: b(2,3))
  moreover have "waits ! k = min (2 ^ k * second) (30 * second)" if "\<forall>f \<in> set fs. \<forall>s. f s = []" "k < length fs" for k
  proof -
    from silent_waits [OF that(1) b(1), of D N E c x "wa_cursor x" w]
    have "waits = map (\<lambda>j. min (2 ^ (0 + j) * second) stream_max_backoff) [0..<length fs]" unfolding run by simp
    with that(2) show ?thesis by (simp add: b(3))
  qed
  ultimately show ?thesis by blast
qed

lemma stream_waits_bounded_witness:
  "fst (stream_wallet index_pkg exact_numeric (sample_index None) no_tenant (sample_wallet ''a'' ''GA'') (replicate 7 (\<lambda>s. [])) index_world) ! 5
     = 30 * second"
proof -
  let ?fs = "replicate 7 (\<lambda>s :: string. [] :: ledger_op list)"
  obtain ds cursor w where run: "stream_wallet index_pkg exact_numeric (sample_index None) no_tenant (sample_wallet ''a'' ''GA'') ?fs index_world
      = (ds, cursor, w)" by (metis prod_cases3)
  have "\<forall>f \<in> set ?fs. \<forall>s. f s = []" "5 < length ?fs" by simp_all
  with stream_waits_bounded [OF run] have "ds ! 5 = min (2 ^ 5 * second) (30 * second)" by blast
  then show ?thesis unfolding run by (simp add: second_def)
qed

end
