(* ===== verification/Rate_Limits.thy ===== *)
theory Rate_Limits
  imports Go_Time
begin

text \<open>
  The two rate limiters, \<^verbatim>\<open>internal/server/ratelimit.go\<close> for the authenticated routes and
  \<^verbatim>\<open>internal/webhook/verify_ratelimit.go\<close> for the public ones, over the token buckets of \<^verbatim>\<open>golang.org/x/time/rate\<close>,
  which are a parameter. Tokens are rationals; the library keeps them as floats.
\<close>

section \<open>Token buckets\<close>

text \<open>
  The methods of a \<^verbatim>\<open>rate.Limiter\<close> that are used: \<^verbatim>\<open>NewLimiter\<close>, \<^verbatim>\<open>Allow\<close> at a time, \<^verbatim>\<open>TokensAt\<close>, and the
  rate and burst it was made with.
\<close>

record 'b bucket_pkg =
  bk_new :: "rat \<Rightarrow> int \<Rightarrow> 'b"
  bk_allow :: "go_time \<Rightarrow> 'b \<Rightarrow> bool \<times> 'b"
  bk_tokens :: "go_time \<Rightarrow> 'b \<Rightarrow> rat"
  bk_limit :: "'b \<Rightarrow> rat"
  bk_burst :: "'b \<Rightarrow> int"

definition seconds :: "int \<Rightarrow> rat" where
  "seconds d = of_int d / of_int second"

text \<open>
  The documented behaviour: a bucket is full at first, an event takes one token if there is one and otherwise changes
  nothing, and tokens come back at the rate of the bucket up to its burst. \<open>refills b r x s c\<close> says that the bucket
  \<open>x\<close> had \<open>c\<close> tokens at \<open>s\<close> and was not asked since.
\<close>

definition refills :: "'b bucket_pkg \<Rightarrow> 'b \<Rightarrow> go_time \<Rightarrow> rat \<Rightarrow> bool" where
  "refills P x s c \<longleftrightarrow> (\<forall>t \<ge> s. bk_tokens P t x = min (of_int (bk_burst P x)) (c + bk_limit P x * seconds (t - s)))"

definition bucket_doc :: "'b bucket_pkg \<Rightarrow> bool" where
  "bucket_doc P \<longleftrightarrow>
     (\<forall>r b. 0 \<le> r \<longrightarrow> bk_limit P (bk_new P r b) = r \<and> bk_burst P (bk_new P r b) = b \<and>
        (\<forall>t. bk_tokens P t (bk_new P r b) = of_int b)) \<and>
     (\<forall>t x. fst (bk_allow P t x) \<longleftrightarrow> 1 \<le> bk_tokens P t x) \<and>
     (\<forall>t x. bk_tokens P t x < 1 \<longrightarrow> snd (bk_allow P t x) = x) \<and>
     (\<forall>t x. bk_limit P (snd (bk_allow P t x)) = bk_limit P x \<and> bk_burst P (snd (bk_allow P t x)) = bk_burst P x) \<and>
     (\<forall>t x. 1 \<le> bk_tokens P t x \<longrightarrow> refills P (snd (bk_allow P t x)) t (bk_tokens P t x - 1))"

section \<open>The limiter of the public routes\<close>

record 'b verify_limiter =
  vl_visitors :: "string \<rightharpoonup> 'b"
  vl_rps :: rat
  vl_burst :: int

definition new_verify_limiter :: "rat \<Rightarrow> int \<Rightarrow> 'b verify_limiter" where
  "new_verify_limiter r b = \<lparr>vl_visitors = Map.empty, vl_rps = r, vl_burst = b\<rparr>"

definition verify_allow :: "'b bucket_pkg \<Rightarrow> go_time \<Rightarrow> string \<Rightarrow> 'b verify_limiter \<Rightarrow> bool \<times> 'b verify_limiter" where
  "verify_allow P t key L =
     (let x = (case vl_visitors L key of None \<Rightarrow> bk_new P (vl_rps L) (vl_burst L) | Some x \<Rightarrow> x) in
      case bk_allow P t x of (ok, x1) \<Rightarrow> (ok, L\<lparr>vl_visitors := (vl_visitors L)(key \<mapsto> x1)\<rparr>))"

text \<open>One tick of the cleanup: full buckets are dropped.\<close>

definition verify_cleanup :: "'b bucket_pkg \<Rightarrow> go_time \<Rightarrow> 'b verify_limiter \<Rightarrow> 'b verify_limiter" where
  "verify_cleanup P t L = L\<lparr>vl_visitors := (\<lambda>k. case vl_visitors L k of None \<Rightarrow> None
     | Some x \<Rightarrow> if bk_tokens P t x \<ge> of_int (vl_burst L) then None else Some x)\<rparr>"

text \<open>The middleware, which knows a client by \<^verbatim>\<open>RemoteAddr\<close>, and what happens to it over time.\<close>

datatype verify_event = VerifyRequest string | VerifyTick

fun verify_run ::
  "'b bucket_pkg \<Rightarrow> (go_time \<times> verify_event) list \<Rightarrow> 'b verify_limiter \<Rightarrow> (go_time \<times> string \<times> bool) list" where
  "verify_run P [] L = []"
| "verify_run P ((t, VerifyTick) # es) L = verify_run P es (verify_cleanup P t L)"
| "verify_run P ((t, VerifyRequest key) # es) L =
     (case verify_allow P t key L of (ok, L1) \<Rightarrow> (t, key, ok) # verify_run P es L1)"

definition verify_rate_limit :: "'b bucket_pkg \<Rightarrow> (go_time \<times> verify_event) list \<Rightarrow> (go_time \<times> string \<times> bool) list" where
  "verify_rate_limit P es = verify_run P es (new_verify_limiter 1 60)"

section \<open>The limiter of the authenticated routes\<close>

definition max_idle_time :: int where "max_idle_time = 5 * minute"

record 'b rate_limiter =
  rl_visitors :: "string \<rightharpoonup> 'b \<times> go_time"
  rl_rate :: rat
  rl_burst :: int

definition new_rate_limiter :: "rat \<Rightarrow> int \<Rightarrow> 'b rate_limiter" where
  "new_rate_limiter r b = \<lparr>rl_visitors = Map.empty, rl_rate = r, rl_burst = b\<rparr>"

text \<open>\<^verbatim>\<open>getLimiter\<close> and the \<^verbatim>\<open>Allow\<close> that always follows it.\<close>

definition limiter_allow :: "'b bucket_pkg \<Rightarrow> go_time \<Rightarrow> string \<Rightarrow> 'b rate_limiter \<Rightarrow> bool \<times> 'b rate_limiter" where
  "limiter_allow P t key L =
     (let x = (case rl_visitors L key of None \<Rightarrow> bk_new P (rl_rate L) (rl_burst L) | Some (x, seen) \<Rightarrow> x) in
      case bk_allow P t x of (ok, x1) \<Rightarrow> (ok, L\<lparr>rl_visitors := (rl_visitors L)(key \<mapsto> (x1, t))\<rparr>))"

definition limiter_cleanup :: "go_time \<Rightarrow> 'b rate_limiter \<Rightarrow> 'b rate_limiter" where
  "limiter_cleanup t L = L\<lparr>rl_visitors := (\<lambda>k. case rl_visitors L k of None \<Rightarrow> None
     | Some (x, seen) \<Rightarrow> if t - seen > max_idle_time then None else Some (x, seen))\<rparr>"

text \<open>The global limiter is asked first; a refusal of the second one has used a global token too.\<close>

datatype limit_answer = Passed | Global_Limited | Key_Limited

definition rate_limit ::
  "'b bucket_pkg \<Rightarrow> go_time \<Rightarrow> string \<Rightarrow> string \<Rightarrow> 'b rate_limiter \<times> 'b rate_limiter
    \<Rightarrow> limit_answer \<times> 'b rate_limiter \<times> 'b rate_limiter" where
  "rate_limit P t tenant remote s =
     (case limiter_allow P t ''global'' (fst s) of
        (False, G) \<Rightarrow> (Global_Limited, G, snd s)
      | (True, G) \<Rightarrow> (case limiter_allow P t (if tenant = '''' then remote else tenant) (snd s) of
          (ok, T) \<Rightarrow> (if ok then Passed else Key_Limited, G, T)))"

datatype limit_event = LimitRequest string string | GlobalTick | KeyTick

fun limit_run ::
  "'b bucket_pkg \<Rightarrow> (go_time \<times> limit_event) list \<Rightarrow> 'b rate_limiter \<times> 'b rate_limiter \<Rightarrow> (go_time \<times> limit_answer) list" where
  "limit_run P [] s = []"
| "limit_run P ((t, GlobalTick) # es) s = limit_run P es (limiter_cleanup t (fst s), snd s)"
| "limit_run P ((t, KeyTick) # es) s = limit_run P es (fst s, limiter_cleanup t (snd s))"
| "limit_run P ((t, LimitRequest tenant remote) # es) s =
     (case rate_limit P t tenant remote s of (a, s1) \<Rightarrow> (t, a) # limit_run P es s1)"

definition server_rate_limit :: "'b bucket_pkg \<Rightarrow> rat \<Rightarrow> int \<Rightarrow> (go_time \<times> limit_event) list \<Rightarrow> (go_time \<times> limit_answer) list" where
  "server_rate_limit P rps burst es = limit_run P es (new_rate_limiter rps burst, new_rate_limiter (rps * 10) (burst * 10))"

section \<open>The specification\<close>

text \<open>One bucket, as the time it was last asked and the tokens it had then, and its decisions.\<close>

definition level :: "rat \<Rightarrow> int \<Rightarrow> go_time \<times> rat \<Rightarrow> go_time \<Rightarrow> rat" where
  "level r b y t = min (of_int b) (snd y + r * seconds (t - fst y))"

definition take_token :: "rat \<Rightarrow> int \<Rightarrow> go_time \<times> rat \<Rightarrow> go_time \<Rightarrow> go_time \<times> rat" where
  "take_token r b y t = (if 1 \<le> level r b y t then (t, level r b y t - 1) else y)"

fun decisions :: "rat \<Rightarrow> int \<Rightarrow> go_time list \<Rightarrow> go_time \<times> rat \<Rightarrow> (go_time \<times> bool) list" where
  "decisions r b [] y = []"
| "decisions r b (t # ts) y = (t, 1 \<le> level r b y t) # decisions r b ts (take_token r b y t)"

lemma seconds_simps [simp]: "seconds 0 = 0" "0 \<le> seconds a \<longleftrightarrow> 0 \<le> a" "seconds a \<le> seconds b \<longleftrightarrow> a \<le> b"
  by (simp_all add: seconds_def second_def divide_le_cancel)

lemma seconds_arith: "seconds (a + b) = seconds a + seconds b" "seconds (a - b) = seconds a - seconds b"
  by (simp_all add: seconds_def add_divide_distrib diff_divide_distrib)

lemma level_le: "level r b y t \<le> of_int b"
  by (simp add: level_def)

lemma level_mono: "0 \<le> r \<Longrightarrow> t \<le> u \<Longrightarrow> level r b y t \<le> level r b y u"
  unfolding level_def by (intro min.mono add_mono mult_left_mono) auto

text \<open>What a level is later, from what it is now.\<close>

lemma level_later:
  assumes "0 \<le> r" and "t \<le> u" and "fst y \<le> t"
  shows "level r b y u = min (of_int b) (level r b y t + r * seconds (u - t))"
proof -
  have "r * seconds (u - t) \<ge> 0" using assms by simp
  moreover have "r * seconds (u - fst y) = r * seconds (t - fst y) + r * seconds (u - t)" by (simp add: seconds_arith algebra_simps)
  ultimately show ?thesis by (auto simp: level_def min_def)
qed

lemma take_token_level:
  assumes "0 \<le> r" and "t \<le> u" and "fst y \<le> t" and "level r b y t \<ge> 1"
  shows "level r b (take_token r b y t) u = min (of_int b) (level r b y t - 1 + r * seconds (u - t))"
  using assms by (simp add: take_token_def level_def)

lemma take_token_fst: "fst y \<le> t \<Longrightarrow> fst (take_token r b y t) \<le> t"
  by (simp add: take_token_def)

lemma take_token_nonneg: "0 \<le> snd y \<Longrightarrow> 0 \<le> snd (take_token r b y t)"
  by (simp add: take_token_def)

lemma level_nonneg: "0 \<le> r \<Longrightarrow> 0 \<le> b \<Longrightarrow> 0 \<le> snd y \<Longrightarrow> fst y \<le> t \<Longrightarrow> 0 \<le> level r b y t"
  by (simp add: level_def)

lemma decisions_times: "map fst (decisions r b ts y) = ts"
  by (induction ts arbitrary: y) simp_all

text \<open>A bucket passes, in any window, no more than its burst and what comes back in the window.\<close>

lemma decisions_bound:
  assumes "0 \<le> r" and "0 \<le> b" and "0 \<le> snd y" and "sorted ts" and "\<forall>t \<in> set ts. fst y \<le> t" and "0 \<le> d"
    and "max (fst y) u \<le> u + d"
  shows "of_nat (length (filter (\<lambda>(t, ok). ok \<and> u \<le> t \<and> t \<le> u + d) (decisions r b ts y)))
    \<le> level r b y (max (fst y) u) + r * seconds (u + d - max (fst y) u)"
  using assms(3-5,7)
proof (induction ts arbitrary: y)
  case Nil
  have "0 \<le> level r b y (max (fst y) u)" using level_nonneg assms(1,2) Nil.prems(1) by simp
  moreover have "0 \<le> r * seconds (u + d - max (fst y) u)" using assms(1) Nil.prems(4) by (intro mult_nonneg_nonneg) auto
  ultimately show ?case by simp
next
  case (Cons t ts)
  let ?y = "take_token r b y t" and ?e = "max (fst y) u"
  let ?count = "\<lambda>ts y. (of_nat (length (filter (\<lambda>(t, ok). ok \<and> u \<le> t \<and> t \<le> u + d) (decisions r b ts y))) :: rat)"
  have t: "fst y \<le> t" and later: "\<forall>s \<in> set ts. t \<le> s" using Cons.prems by auto
  have y: "0 \<le> snd ?y" "fst ?y \<le> t" using take_token_nonneg take_token_fst Cons.prems(1) t by auto
  have rest: "\<forall>s \<in> set ts. fst ?y \<le> s" using later y(2) by auto
  have nonneg: "0 \<le> level r b y ?e" using level_nonneg assms(1,2) Cons.prems(1) by simp
  show ?case
  proof (cases "t \<le> u + d")
    case False
    have "?count ts ?y = 0"
    proof -
      have "fst p > u + d" if "p \<in> set (decisions r b ts z)" for p z
      proof -
        have "fst p \<in> set (map fst (decisions r b ts z))" using that by simp
        then have "fst p \<in> set ts" by (simp only: decisions_times)
        with later False show ?thesis by auto
      qed
      then have "filter (\<lambda>(t, ok). ok \<and> u \<le> t \<and> t \<le> u + d) (decisions r b ts ?y) = []"
        unfolding filter_empty_conv by (metis (mono_tags, lifting) case_prod_beta not_le)
      then show ?thesis by simp
    qed
    moreover have "0 \<le> r * seconds (u + d - ?e)" using assms(1) Cons.prems(4) by (intro mult_nonneg_nonneg) auto
    ultimately show ?thesis using False nonneg by simp
  next
    case True
    then have m: "max (fst ?y) u \<le> u + d" using y(2) assms(6) by auto
    from Cons.IH [OF y(1) _ rest m] Cons.prems(2)
    have ih: "?count ts ?y \<le> level r b ?y (max (fst ?y) u) + r * seconds (u + d - max (fst ?y) u)" by simp
    show ?thesis
    proof (cases "1 \<le> level r b y t")
      case no: False
      then have "?y = y" by (simp add: take_token_def)
      with ih no show ?thesis by simp
    next
      case ok: True
      then have ty: "?y = (t, level r b y t - 1)" by (simp add: take_token_def)
      have lt: "level r b ?y s = min (of_int b) (level r b y t - 1 + r * seconds (s - t))" for s
        by (simp add: ty level_def)
      show ?thesis
      proof (cases "u \<le> t")
        case True
        have e: "?e \<le> t" "fst y \<le> ?e" using t True by auto
        have "level r b y t \<le> level r b y ?e + r * seconds (t - ?e)" using level_later [OF assms(1) e] by simp
        moreover have "level r b ?y t = level r b y t - 1" using lt [of t] level_le [of r b y t] by simp
        moreover have "max (fst ?y) u = t" using ty True by simp
        moreover have "r * seconds (u + d - ?e) = r * seconds (t - ?e) + r * seconds (u + d - t)"
          by (simp add: seconds_arith algebra_simps)
        moreover have "?count (t # ts) y = 1 + ?count ts ?y" using ok True \<open>t \<le> u + d\<close> by simp
        ultimately show ?thesis using ih by simp
      next
        case False
        then have e: "?e = u" "max (fst ?y) u = u" using t ty by auto
        have "level r b ?y u \<le> level r b y u"
          using lt [of u] level_later [OF assms(1) _ t, of u] False by (simp add: min_le_iff_disj)
        moreover have "?count (t # ts) y = ?count ts ?y" using False by simp
        ultimately show ?thesis using ih e by simp
      qed
    qed
  qed
qed

section \<open>The laws of a bucket\<close>

lemma bucket_docD:
  assumes "bucket_doc P"
  shows "0 \<le> r \<Longrightarrow> bk_limit P (bk_new P r b) = r" "0 \<le> r \<Longrightarrow> bk_burst P (bk_new P r b) = b"
    "0 \<le> r \<Longrightarrow> bk_tokens P t (bk_new P r b) = of_int b"
    "fst (bk_allow P t x) \<longleftrightarrow> 1 \<le> bk_tokens P t x" "\<not> 1 \<le> bk_tokens P t x \<Longrightarrow> snd (bk_allow P t x) = x"
    "bk_limit P (snd (bk_allow P t x)) = bk_limit P x" "bk_burst P (snd (bk_allow P t x)) = bk_burst P x"
    "1 \<le> bk_tokens P t x \<Longrightarrow> t \<le> u \<Longrightarrow> bk_tokens P u (snd (bk_allow P t x)) =
       min (of_int (bk_burst P x)) (bk_tokens P t x - 1 + bk_limit P x * seconds (u - t))"
  using assms by (auto simp: bucket_doc_def refills_def not_le)

text \<open>The bucket \<open>x\<close> has from now on the level of \<open>y\<close>.\<close>

definition follows :: "'b bucket_pkg \<Rightarrow> rat \<Rightarrow> int \<Rightarrow> go_time \<Rightarrow> 'b \<Rightarrow> go_time \<times> rat \<Rightarrow> bool" where
  "follows P r b now x y \<longleftrightarrow> bk_limit P x = r \<and> bk_burst P x = b \<and> (\<forall>t \<ge> now. bk_tokens P t x = level r b y t)"

definition full_from :: "rat \<Rightarrow> int \<Rightarrow> go_time \<Rightarrow> go_time \<times> rat \<Rightarrow> bool" where
  "full_from r b now y \<longleftrightarrow> (\<forall>t \<ge> now. level r b y t = of_int b)"

lemma follows_new: "bucket_doc P \<Longrightarrow> 0 \<le> r \<Longrightarrow> full_from r b now y \<Longrightarrow> follows P r b now (bk_new P r b) y"
  by (simp add: follows_def full_from_def bucket_docD)

lemma follows_later: "follows P r b now x y \<Longrightarrow> now \<le> t \<Longrightarrow> follows P r b t x y"
  by (simp add: follows_def)

lemma full_later: "full_from r b now y \<Longrightarrow> now \<le> t \<Longrightarrow> full_from r b t y"
  by (simp add: full_from_def)

lemma full_if_level: "0 \<le> r \<Longrightarrow> of_int b \<le> level r b y now \<Longrightarrow> full_from r b now y"
  unfolding full_from_def using level_mono level_le by (metis antisym order_trans)

lemma follows_allow:
  assumes "bucket_doc P" and "0 \<le> r" and "follows P r b now x y" and "now \<le> t" and "fst y \<le> t"
  shows "fst (bk_allow P t x) \<longleftrightarrow> 1 \<le> level r b y t"
    and "follows P r b t (snd (bk_allow P t x)) (take_token r b y t)"
proof -
  have x: "bk_limit P x = r" "bk_burst P x = b" "bk_tokens P t x = level r b y t"
    using assms(3,4) by (simp_all add: follows_def)
  then show "fst (bk_allow P t x) \<longleftrightarrow> 1 \<le> level r b y t" using bucket_docD(4) [OF assms(1)] by simp
  show "follows P r b t (snd (bk_allow P t x)) (take_token r b y t)"
  proof (cases "1 \<le> level r b y t")
    case True
    then show ?thesis
      using x assms bucket_docD(6-8) [OF assms(1)] take_token_level [OF assms(2) _ assms(5) True] by (simp add: follows_def)
  next
    case False
    then have "snd (bk_allow P t x) = x" using bucket_docD(5) [OF assms(1)] x(3) by simp
    with False assms(3,4) show ?thesis by (simp add: take_token_def follows_later)
  qed
qed

section \<open>The public limiter is one bucket per address\<close>

definition verify_follows :: "'b bucket_pkg \<Rightarrow> string \<Rightarrow> go_time \<Rightarrow> 'b verify_limiter \<Rightarrow> go_time \<times> rat \<Rightarrow> bool" where
  "verify_follows P key now L y \<longleftrightarrow> (case vl_visitors L key of
     None \<Rightarrow> full_from (vl_rps L) (vl_burst L) now y | Some x \<Rightarrow> follows P (vl_rps L) (vl_burst L) now x y)"

fun requests_of :: "string \<Rightarrow> (go_time \<times> verify_event) list \<Rightarrow> go_time list" where
  "requests_of key [] = []"
| "requests_of key ((t, VerifyRequest k) # es) = (if k = key then t # requests_of key es else requests_of key es)"
| "requests_of key ((t, VerifyTick) # es) = requests_of key es"

fun answers_to :: "string \<Rightarrow> (go_time \<times> string \<times> bool) list \<Rightarrow> (go_time \<times> bool) list" where
  "answers_to key [] = []"
| "answers_to key ((t, k, ok) # xs) = (if k = key then (t, ok) # answers_to key xs else answers_to key xs)"

lemma verify_allow_follows:
  assumes "bucket_doc P" and "0 \<le> vl_rps L" and "verify_follows P key now L y" and "now \<le> t" and "fst y \<le> t"
    and "verify_allow P t key L = (ok, L1)"
  shows "ok \<longleftrightarrow> 1 \<le> level (vl_rps L) (vl_burst L) y t"
    and "verify_follows P key t L1 (take_token (vl_rps L) (vl_burst L) y t)"
proof -
  define x where "x = (case vl_visitors L key of None \<Rightarrow> bk_new P (vl_rps L) (vl_burst L) | Some x \<Rightarrow> x)"
  have f: "follows P (vl_rps L) (vl_burst L) now x y"
    using assms(3) follows_new [OF assms(1,2)] by (auto simp: verify_follows_def x_def split: option.splits)
  have run: "ok = fst (bk_allow P t x)" "L1 = L\<lparr>vl_visitors := (vl_visitors L)(key \<mapsto> snd (bk_allow P t x))\<rparr>"
    using assms(6) by (auto simp: verify_allow_def x_def Let_def split: prod.splits)
  from follows_allow [OF assms(1,2) f assms(4,5)] run
  show "ok \<longleftrightarrow> 1 \<le> level (vl_rps L) (vl_burst L) y t"
    "verify_follows P key t L1 (take_token (vl_rps L) (vl_burst L) y t)" by (simp_all add: verify_follows_def)
qed

lemma verify_run_decides:
  assumes "bucket_doc P" and "0 \<le> vl_rps L" and "verify_follows P key now L y" and "sorted (now # map fst es)" and "fst y \<le> now"
  shows "answers_to key (verify_run P es L) = decisions (vl_rps L) (vl_burst L) (requests_of key es) y"
  using assms
proof (induction P es L arbitrary: now y rule: verify_run.induct)
  case (1 P L)
  then show ?case by simp
next
  case (2 P t es L)
  let ?L = "verify_cleanup P t L"
  have same: "vl_rps ?L = vl_rps L" "vl_burst ?L = vl_burst L" by (simp_all add: verify_cleanup_def)
  have le: "now \<le> t" using "2.prems" by simp
  have "verify_follows P key t ?L y"
  proof (cases "vl_visitors L key")
    case None
    with "2.prems"(3) le show ?thesis by (simp add: verify_follows_def verify_cleanup_def full_later)
  next
    case (Some x)
    with "2.prems"(3) le have f: "follows P (vl_rps L) (vl_burst L) t x y" by (simp add: verify_follows_def follows_later)
    show ?thesis
    proof (cases "bk_tokens P t x \<ge> of_int (vl_burst L)")
      case True
      with f have "of_int (vl_burst L) \<le> level (vl_rps L) (vl_burst L) y t" by (simp add: follows_def)
      with Some True show ?thesis using full_if_level "2.prems"(2) by (simp add: verify_follows_def verify_cleanup_def)
    next
      case False
      with Some f show ?thesis by (simp add: verify_follows_def verify_cleanup_def)
    qed
  qed
  from "2.IH" [OF "2.prems"(1) _ this] "2.prems" le same show ?case by simp
next
  case (3 P t k es L)
  obtain ok L1 where a: "verify_allow P t k L = (ok, L1)" by fastforce
  then have same: "vl_rps L1 = vl_rps L" "vl_burst L1 = vl_burst L" by (auto simp: verify_allow_def Let_def split: prod.splits)
  have le: "now \<le> t" "fst y \<le> t" "sorted (t # map fst es)" using "3.prems" by auto
  show ?case
  proof (cases "k = key")
    case True
    with a have "verify_allow P t key L = (ok, L1)" by simp
    note f = verify_allow_follows [OF "3.prems"(1-3) le(1,2) this]
    have "answers_to key (verify_run P es L1)
        = decisions (vl_rps L1) (vl_burst L1) (requests_of key es) (take_token (vl_rps L) (vl_burst L) y t)"
      using "3.IH" [OF a [symmetric], of t] f(2) same "3.prems"(1,2) le take_token_fst by simp
    with True a f(1) same show ?thesis by simp
  next
    case False
    with a have "vl_visitors L1 key = vl_visitors L key" by (auto simp: verify_allow_def Let_def split: prod.splits)
    with "3.prems"(3) le(1) same have "verify_follows P key t L1 y"
      by (auto simp: verify_follows_def follows_later full_later split: option.splits)
    with "3.IH" [OF a [symmetric], of t] False a same "3.prems"(1,2) le show ?thesis by simp
  qed
qed

text \<open>The first request of an address finds no bucket, or a full one.\<close>

lemma verify_rate_limit_decides:
  assumes "bucket_doc P" and "sorted (s # map fst es)"
  shows "answers_to key (verify_rate_limit P es) = decisions 1 60 (requests_of key es) (s, 60)"
proof -
  let ?L = "new_verify_limiter 1 60 :: 'a verify_limiter"
  have y: "verify_follows P key s ?L (s, 60)"
    by (simp add: verify_follows_def new_verify_limiter_def full_from_def level_def)
  have r: "0 \<le> vl_rps ?L" "fst (s, 60 :: rat) \<le> s" by (simp_all add: new_verify_limiter_def)
  from verify_run_decides [OF assms(1) r(1) y assms(2) r(2)] show ?thesis
    by (simp add: verify_rate_limit_def new_verify_limiter_def)
qed

lemma requests_sorted: "sorted (map fst es) \<Longrightarrow> sorted (requests_of key es) \<and> set (requests_of key es) \<subseteq> fst ` set es"
  by (induction key es rule: requests_of.induct) auto

lemma answers_count:
  "length (filter (\<lambda>(t, k, ok). k = key \<and> ok \<and> u \<le> t \<and> t \<le> v) xs) = length (filter (\<lambda>(t, ok). ok \<and> u \<le> t \<and> t \<le> v) (answers_to key xs))"
  by (induction key xs rule: answers_to.induct) auto

text \<open>
  C35: the limiter of the public routes decides for each address as one bucket of 60 tokens with one a second does,
  which sees the requests of this address only, whatever buckets the cleanup drops and whoever else asks; in any
  period it passes no more than 60 requests of an address and one more per second.
\<close>

theorem verify_limit_per_address:
  assumes "bucket_doc P" and "sorted (s # map fst es)" and "0 \<le> d"
  shows "answers_to key (verify_rate_limit P es) = decisions 1 60 (requests_of key es) (s, 60) \<and>
    of_nat (length (filter (\<lambda>(t, k, ok). k = key \<and> ok \<and> u \<le> t \<and> t \<le> u + d) (verify_rate_limit P es))) \<le> 60 + seconds d"
proof -
  let ?ts = "requests_of key es"
  have eq: "answers_to key (verify_rate_limit P es) = decisions 1 60 ?ts (s, 60)" by (rule verify_rate_limit_decides [OF assms(1,2)])
  have ts: "sorted ?ts" "\<forall>t \<in> set ?ts. s \<le> t" using requests_sorted [of es key] assms(2) by auto
  let ?count = "of_nat (length (filter (\<lambda>(t, ok). ok \<and> u \<le> t \<and> t \<le> u + d) (decisions 1 60 ?ts (s, 60)))) :: rat"
  have "?count \<le> 60 + seconds d"
  proof (cases "s \<le> u + d")
    case True
    then have "?count \<le> level 1 60 (s, 60) (max s u) + 1 * seconds (u + d - max s u)"
      using decisions_bound [of 1 60 "(s, 60)" ?ts d u] ts assms(3) by simp
    moreover have "level 1 60 (s, 60) (max s u) \<le> 60" using level_le [of 1 60 "(s, 60)" "max s u"] by simp
    moreover have "seconds (u + d - max s u) \<le> seconds d" by simp
    ultimately show ?thesis by linarith
  next
    case False
    have "fst p > u + d" if "p \<in> set (decisions 1 60 ?ts (s, 60))" for p
    proof -
      have "fst p \<in> set ?ts" using that by (metis decisions_times image_eqI list.set_map)
      with ts(2) False show ?thesis by auto
    qed
    then have "filter (\<lambda>(t, ok). ok \<and> u \<le> t \<and> t \<le> u + d) (decisions 1 60 ?ts (s, 60)) = []"
      unfolding filter_empty_conv by (metis (mono_tags, lifting) case_prod_beta not_le)
    moreover have "0 \<le> seconds d" using assms(3) by simp
    ultimately show ?thesis by simp
  qed
  with eq answers_count [of key u "u + d"] show ?thesis by simp
qed

text \<open>A bucket with the documented behaviour: its rate, its burst, its level and the time it was last asked.\<close>

definition reference_bucket :: "(rat \<times> int \<times> go_time \<times> rat) bucket_pkg" where
  "reference_bucket = \<lparr>bk_new = (\<lambda>r b. (r, b, 0, of_int b)),
     bk_allow = (\<lambda>t (r, b, s, c). let n = min (of_int b) (c + r * seconds (max 0 (t - s))) in
       if 1 \<le> n then (True, (r, b, t, n - 1)) else (False, (r, b, s, c))),
     bk_tokens = (\<lambda>t (r, b, s, c). min (of_int b) (c + r * seconds (max 0 (t - s)))),
     bk_limit = (\<lambda>(r, b, s, c). r), bk_burst = (\<lambda>(r, b, s, c). b)\<rparr>"

lemma reference_bucket_doc: "bucket_doc reference_bucket"
proof -
  have "0 \<le> r * seconds (max 0 (t - s))" if "0 \<le> r" for r t s using that by simp
  then show ?thesis by (auto simp: bucket_doc_def reference_bucket_def refills_def Let_def max_def split: if_splits)
qed

text \<open>Two requests from one address, and a hundred from another in between.\<close>

definition sample_verifications :: "(go_time \<times> verify_event) list" where
  "sample_verifications = (0, VerifyRequest ''a'') # replicate 100 (1, VerifyRequest ''b'') @ [(1, VerifyTick), (2, VerifyRequest ''a'')]"

lemma verify_limit_per_address_witness:
  "answers_to ''a'' (verify_rate_limit reference_bucket sample_verifications) = [(0, True), (2, True)] \<and>
   length (filter (\<lambda>(t, k, ok). k = ''b'' \<and> ok \<and> 1 \<le> t \<and> t \<le> 1) (verify_rate_limit reference_bucket sample_verifications)) \<le> 60"
proof -
  have s: "sorted (0 # map fst sample_verifications)" by (simp add: sample_verifications_def sorted_append)
  have r: "requests_of ''a'' sample_verifications = [0, 2]"
  proof -
    have "requests_of ''a'' (replicate n (1, VerifyRequest ''b'') @ es) = requests_of ''a'' es" for n es by (induction n) simp_all
    then show ?thesis by (simp add: sample_verifications_def)
  qed
  have z: "seconds 0 = 0" by simp
  have "0 \<le> (0 :: int)" by simp
  from verify_limit_per_address [OF reference_bucket_doc s this, of "''a''" 0]
    verify_limit_per_address [OF reference_bucket_doc s this, of "''b''" 1] r z
  show ?thesis by (simp add: level_def take_token_def seconds_def second_def)
qed

section \<open>The authenticated limiter is one bucket for everybody\<close>

definition same_bucket :: "'b bucket_pkg \<Rightarrow> go_time \<Rightarrow> 'b rate_limiter \<Rightarrow> go_time \<times> rat \<Rightarrow> bool" where
  "same_bucket P now G y \<longleftrightarrow> (case rl_visitors G ''global'' of
     None \<Rightarrow> full_from (rl_rate G) (rl_burst G) now y
   | Some (x, seen) \<Rightarrow> fst y \<le> seen \<and> seen \<le> now \<and> 0 \<le> level (rl_rate G) (rl_burst G) y seen \<and> follows P (rl_rate G) (rl_burst G) now x y)"

text \<open>Every bucket of the second limiter has at least the level of the first one.\<close>

definition roomier :: "'b bucket_pkg \<Rightarrow> rat \<Rightarrow> int \<Rightarrow> go_time \<Rightarrow> 'b rate_limiter \<Rightarrow> go_time \<times> rat \<Rightarrow> bool" where
  "roomier P r b now T y \<longleftrightarrow> rl_rate T = r * 10 \<and> rl_burst T = b * 10 \<and>
     (\<forall>k x seen. rl_visitors T k = Some (x, seen) \<longrightarrow> bk_limit P x = r * 10 \<and> bk_burst P x = b * 10 \<and>
        (\<forall>t \<ge> now. level r b y t \<le> bk_tokens P t x))"

lemma same_bucket_allow:
  assumes "bucket_doc P" and "0 \<le> rl_rate G" and "0 \<le> rl_burst G" and "same_bucket P now G y" and "now \<le> t" and "fst y \<le> now" and "0 \<le> snd y"
    and "limiter_allow P t ''global'' G = (ok, G1)"
  shows "ok \<longleftrightarrow> 1 \<le> level (rl_rate G) (rl_burst G) y t"
    and "same_bucket P t G1 (take_token (rl_rate G) (rl_burst G) y t)" and "rl_rate G1 = rl_rate G" and "rl_burst G1 = rl_burst G"
proof -
  define x where "x = (case rl_visitors G ''global'' of None \<Rightarrow> bk_new P (rl_rate G) (rl_burst G) | Some (x, seen) \<Rightarrow> x)"
  have f: "follows P (rl_rate G) (rl_burst G) now x y"
    using assms(4) follows_new [OF assms(1,2)] by (auto simp: same_bucket_def x_def split: option.splits)
  have run: "ok = fst (bk_allow P t x)" "G1 = G\<lparr>rl_visitors := (rl_visitors G)(''global'' \<mapsto> (snd (bk_allow P t x), t))\<rparr>"
    using assms(8) by (auto simp: limiter_allow_def x_def Let_def split: prod.splits option.splits)
  have y: "fst y \<le> t" using assms(5,6) by simp
  note a = follows_allow [OF assms(1,2) f assms(5) y]
  show "ok \<longleftrightarrow> 1 \<le> level (rl_rate G) (rl_burst G) y t" using a(1) run by simp
  let ?y = "take_token (rl_rate G) (rl_burst G) y t"
  have "0 \<le> level (rl_rate G) (rl_burst G) ?y t"
    using level_nonneg [OF assms(2,3) take_token_nonneg [OF assms(7)] take_token_fst [OF y]] .
  with a(2) run take_token_fst [OF y] show "same_bucket P t G1 ?y" by (simp add: same_bucket_def)
  show "rl_rate G1 = rl_rate G" "rl_burst G1 = rl_burst G" using run by simp_all
qed

lemma same_bucket_tick:
  assumes "0 \<le> rl_rate G" and "same_bucket P now G y" and "now \<le> t" and "of_int (rl_burst G) \<le> rl_rate G * 300"
  shows "same_bucket P t (limiter_cleanup t G) y"
proof (cases "rl_visitors G ''global''")
  case None
  with assms(2,3) show ?thesis by (simp add: same_bucket_def limiter_cleanup_def full_later)
next
  case (Some v)
  obtain x seen where v: "v = (x, seen)" by fastforce
  with Some assms(2) have s: "fst y \<le> seen" "seen \<le> now" "0 \<le> level (rl_rate G) (rl_burst G) y seen"
    and f: "follows P (rl_rate G) (rl_burst G) now x y" by (simp_all add: same_bucket_def)
  show ?thesis
  proof (cases "t - seen > max_idle_time")
    case True
    then have "300 * second \<le> t - seen" by (simp add: max_idle_time_def minute_def second_def)
    then have "seconds (300 * second) \<le> seconds (t - seen)" by simp
    then have "300 \<le> seconds (t - seen)" by (simp add: seconds_def second_def)
    then have "rl_rate G * 300 \<le> rl_rate G * seconds (t - seen)" using assms(1) by (rule mult_left_mono)
    then have "of_int (rl_burst G) \<le> level (rl_rate G) (rl_burst G) y t"
      using level_later [OF assms(1) _ s(1), of t] s assms(3,4) by simp
    with True Some v show ?thesis using full_if_level [OF assms(1)] by (simp add: same_bucket_def limiter_cleanup_def)
  next
    case False
    with Some v s f assms(3) show ?thesis by (simp add: same_bucket_def limiter_cleanup_def follows_later)
  qed
qed

lemma roomier_allow:
  assumes "bucket_doc P" and "0 \<le> r" and "0 \<le> b" and "roomier P r b now T y" and "now \<le> t" and "fst y \<le> now" and "1 \<le> level r b y t"
    and "limiter_allow P t k T = (ok, T1)"
  shows "ok" and "roomier P r b t T1 (take_token r b y t)"
proof -
  define x where "x = (case rl_visitors T k of None \<Rightarrow> bk_new P (rl_rate T) (rl_burst T) | Some (x, seen) \<Rightarrow> x)"
  have T: "rl_rate T = r * 10" "rl_burst T = b * 10" using assms(4) by (simp_all add: roomier_def)
  have x: "bk_limit P x = r * 10 \<and> bk_burst P x = b * 10 \<and> level r b y t \<le> bk_tokens P t x"
  proof (cases "rl_visitors T k")
    case None
    have "level r b y t \<le> of_int (b * 10)" using level_le [of r b y t] assms(3) by simp
    with None T show ?thesis using assms(2) by (simp add: x_def bucket_docD [OF assms(1)])
  next
    case (Some v)
    with assms(4,5) show ?thesis by (cases v) (auto simp: x_def roomier_def)
  qed
  have run: "ok = fst (bk_allow P t x)" "T1 = T\<lparr>rl_visitors := (rl_visitors T)(k \<mapsto> (snd (bk_allow P t x), t))\<rparr>"
    using assms(8) by (auto simp: limiter_allow_def x_def Let_def split: prod.splits option.splits)
  have one: "1 \<le> bk_tokens P t x" using x assms(7) by simp
  then show ok using run bucket_docD(4) [OF assms(1)] by simp
  have y: "fst y \<le> t" using assms(5,6) by simp
  let ?y = "take_token r b y t"
  have down: "level r b ?y u \<le> level r b y u" if "t \<le> u" for u
    using take_token_level [OF assms(2) that y assms(7)] level_later [OF assms(2) that y] by (simp add: min_le_iff_disj)
  have "level r b ?y u \<le> bk_tokens P u (snd (bk_allow P t x))" if u: "t \<le> u" for u
  proof -
    have "r * seconds (u - t) \<le> r * 10 * seconds (u - t)" using assms(2) u by (intro mult_right_mono) auto
    moreover have "of_int b \<le> (of_int (b * 10) :: rat)" using assms(3) by simp
    ultimately show ?thesis
      using take_token_level [OF assms(2) u y assms(7)] bucket_docD(8) [OF assms(1) one u] x by (simp add: min_le_iff_disj)
  qed
  moreover have "level r b ?y u \<le> bk_tokens P u x'" if "rl_visitors T k' = Some (x', seen)" "t \<le> u" for k' x' seen u
  proof -
    have "level r b y u \<le> bk_tokens P u x'" using assms(4,5) that unfolding roomier_def by (meson order_trans)
    with down [OF that(2)] show ?thesis by simp
  qed
  ultimately show "roomier P r b t T1 ?y"
    using assms(4) run x T bucket_docD(6,7) [OF assms(1)] unfolding roomier_def by auto
qed

lemma roomier_later: "roomier P r b now T y \<Longrightarrow> now \<le> t \<Longrightarrow> roomier P r b t T y"
  unfolding roomier_def by (meson order_trans)

lemma roomier_tick: "roomier P r b now T y \<Longrightarrow> now \<le> t \<Longrightarrow> roomier P r b t (limiter_cleanup t T) y"
proof -
  assume "roomier P r b now T y" "now \<le> t"
  then have "roomier P r b t T y" by (rule roomier_later)
  moreover have "rl_visitors T k = Some v" if "rl_visitors (limiter_cleanup t T) k = Some v" for k v
    using that by (auto simp: limiter_cleanup_def split: option.splits if_splits)
  moreover have "rl_rate (limiter_cleanup t T) = rl_rate T" "rl_burst (limiter_cleanup t T) = rl_burst T"
    by (simp_all add: limiter_cleanup_def)
  ultimately show ?thesis unfolding roomier_def by metis
qed

lemma same_bucket_later: "same_bucket P now G y \<Longrightarrow> now \<le> t \<Longrightarrow> same_bucket P t G y"
  by (auto simp: same_bucket_def follows_later full_later split: option.splits)

fun request_times :: "(go_time \<times> limit_event) list \<Rightarrow> go_time list" where
  "request_times [] = []"
| "request_times ((t, LimitRequest tenant remote) # es) = t # request_times es"
| "request_times ((t, GlobalTick) # es) = request_times es"
| "request_times ((t, KeyTick) # es) = request_times es"

lemma limit_run_decides:
  assumes "bucket_doc P" and "0 \<le> r" and "0 \<le> b" and "of_int b \<le> r * 300"
    and "rl_rate (fst s) = r" and "rl_burst (fst s) = b" and "same_bucket P now (fst s) y" and "roomier P r b now (snd s) y"
    and "sorted (now # map fst es)" and "fst y \<le> now" and "0 \<le> snd y"
  shows "limit_run P es s = map (\<lambda>(t, ok). (t, if ok then Passed else Global_Limited)) (decisions r b (request_times es) y)"
  using assms
proof (induction P es s arbitrary: now y rule: limit_run.induct)
  case (1 P s)
  then show ?case by simp
next
  case (2 P t es s)
  then have "now \<le> t" by simp
  with 2 show ?case
    using same_bucket_tick [of "fst s" P now y t] roomier_later [of P r b now "snd s" y t]
    by (auto simp: limiter_cleanup_def)
next
  case (3 P t es s)
  then have "now \<le> t" by simp
  with 3 show ?case
    using roomier_tick [of P r b now "snd s" y t] same_bucket_later [of P now "fst s" y t] by auto
next
  case (4 P t tenant remote es s)
  have le: "now \<le> t" "sorted (t # map fst es)" using "4.prems" by auto
  obtain ok G1 where g: "limiter_allow P t ''global'' (fst s) = (ok, G1)" by fastforce
  note G = same_bucket_allow [OF "4.prems"(1) _ _ "4.prems"(7) le(1) "4.prems"(10,11) g, unfolded "4.prems"(5,6), OF "4.prems"(2,3)]
  let ?y = "take_token r b y t"
  have y: "fst ?y \<le> t" "0 \<le> snd ?y" using take_token_fst take_token_nonneg "4.prems"(10,11) le(1) by auto
  show ?case
  proof (cases ok)
    case False
    then have "?y = y" using G(1) by (simp add: take_token_def)
    moreover have "rate_limit P t tenant remote s = (Global_Limited, G1, snd s)" using g False by (simp add: rate_limit_def)
    ultimately show ?thesis
      using "4.IH" [of Global_Limited "(G1, snd s)" t ?y] "4.prems"(1-4,8) G False le y roomier_later [OF "4.prems"(8) le(1)] by simp
  next
    case True
    obtain ok2 T1 where t: "limiter_allow P t (if tenant = '''' then remote else tenant) (snd s) = (ok2, T1)" by fastforce
    have one: "1 \<le> level r b y t" using G(1) True by simp
    from roomier_allow [OF "4.prems"(1-3,8) le(1) "4.prems"(10) one t] have T: "ok2" "roomier P r b t T1 ?y" by auto
    then have "rate_limit P t tenant remote s = (Passed, G1, T1)" using g True t by (simp add: rate_limit_def)
    with "4.IH" [of Passed "(G1, T1)" t ?y] "4.prems"(1-4) G T le y one show ?thesis by simp
  qed
qed

text \<open>
  Where the burst refills within the five minutes after which a bucket is dropped, as with the 100 a second and 200 of
  the server, the limiter of the authenticated routes passes exactly what one bucket for all tenants passes: the limit of
  a tenant, ten times higher, never refuses anything, and one tenant can use up the requests of all.
\<close>

theorem tenant_limit_never_binds:
  assumes "bucket_doc P" and "0 \<le> rps" and "0 \<le> burst" and "of_int burst \<le> rps * 300" and "sorted (s # map fst es)"
  shows "server_rate_limit P rps burst es =
    map (\<lambda>(t, ok). (t, if ok then Passed else Global_Limited)) (decisions rps burst (request_times es) (s, of_int burst))"
proof -
  let ?G = "new_rate_limiter rps burst :: 'a rate_limiter" and ?T = "new_rate_limiter (rps * 10) (burst * 10) :: 'a rate_limiter"
  have "same_bucket P s ?G (s, of_int burst)"
    using assms(2) by (simp add: same_bucket_def new_rate_limiter_def full_from_def level_def)
  moreover have "roomier P rps burst s ?T (s, of_int burst)" by (simp add: roomier_def new_rate_limiter_def)
  ultimately show ?thesis
    using limit_run_decides [OF assms(1-4), of "(?G, ?T)" s "(s, of_int burst)" es] assms(3,5)
    by (simp add: server_rate_limit_def new_rate_limiter_def)
qed

text \<open>Three requests in an instant, where the burst is two: the third is refused, though another tenant sends it.\<close>

lemma tenant_limit_never_binds_witness:
  "server_rate_limit reference_bucket 1 2
     [(0, LimitRequest ''one'' ''''), (0, KeyTick), (0, LimitRequest ''one'' ''''), (0, LimitRequest ''two'' '''')]
   = [(0, Passed), (0, Passed), (0, Global_Limited)]"
  using tenant_limit_never_binds [OF reference_bucket_doc, of 1 2 0
      "[(0, LimitRequest ''one'' ''''), (0, KeyTick), (0, LimitRequest ''one'' ''''), (0, LimitRequest ''two'' '''')]"]
  by (simp add: level_def take_token_def)

end
