(* ===== verification/Timed_Cache.thy ===== *)
theory Timed_Cache
  imports Go_Time
begin

text \<open>
  The interface of the caches that keep one value for a time: the spot prices of \<^theory_text>\<open>Spot_Rates\<close> and the
  health reports of \<^theory_text>\<open>Status\<close>. A request is answered with a refusal that leaves the cache alone, from
  the value it fetches, or from the value that is held and younger than the lifetime.
\<close>

locale timed_cache =
  fixes ask :: "'e \<Rightarrow> 'c \<Rightarrow> 'a \<times> 'c"
    and source :: "'e \<Rightarrow> 's option"
    and view :: "'e \<Rightarrow> 's \<Rightarrow> 'a"
    and held :: "'c \<Rightarrow> ('s \<times> go_time) option"
    and asked :: "'e \<Rightarrow> go_time"
    and stored :: "'e \<Rightarrow> go_time"
    and ttl :: int
    and refused :: "'a \<Rightarrow> bool"
  assumes ask_cases:
    "ask e c = (a, c1) \<Longrightarrow>
       c1 = c \<and> refused a
       \<or> (\<exists>s. source e = Some s \<and> a = view e s \<and> held c1 \<in> {None, Some (s, stored e)})
       \<or> (\<exists>s t. held c = Some (s, t) \<and> asked e - t < ttl \<and> a = view e s \<and> c1 = c)"
begin

text \<open>The answers of a run, and the values behind them.\<close>

fun answers :: "'e list \<Rightarrow> 'c \<Rightarrow> 'a list" where
  "answers [] c = []"
| "answers (e # es) c = (case ask e c of (a, c1) \<Rightarrow> a # answers es c1)"

definition sourced :: "'e list \<Rightarrow> 'c \<Rightarrow> bool" where
  "sourced es c \<longleftrightarrow> (\<forall>s t. held c = Some (s, t) \<longrightarrow> (\<exists>f \<in> set es. source f = Some s \<and> stored f = t))"

definition fresh :: "'e list \<Rightarrow> 'e \<Rightarrow> 'a \<Rightarrow> bool" where
  "fresh es e a \<longleftrightarrow> (\<exists>s. a = view e s \<and> (source e = Some s \<or> (\<exists>f \<in> set es. source f = Some s \<and> asked e - stored f < ttl)))"

lemma sourced_mono: "sourced es c \<Longrightarrow> set es \<subseteq> set fs \<Longrightarrow> sourced fs c"
  unfolding sourced_def by blast

lemma fresh_mono: "fresh es e a \<Longrightarrow> set es \<subseteq> set fs \<Longrightarrow> fresh fs e a"
  unfolding fresh_def by blast

lemma ask_sourced:
  assumes "ask e c = (a, c1)" and "sourced es c"
  shows "sourced (es @ [e]) c1"
  using ask_cases [OF assms(1)] assms(2) unfolding sourced_def by auto

lemma ask_fresh:
  assumes "ask e c = (a, c1)" and "sourced es c" and "\<not> refused a"
  shows "fresh es e a"
  using ask_cases [OF assms(1)] assms(2,3) unfolding sourced_def fresh_def by blast

lemma length_answers [simp]: "length (answers es c) = length es"
  by (induction es arbitrary: c) (auto split: prod.splits)

lemma answers_fresh:
  assumes "sourced fs c" and "i < length es" and "\<not> refused (answers es c ! i)"
  shows "fresh (fs @ take i es) (es ! i) (answers es c ! i)"
  using assms
proof (induction es arbitrary: fs c i)
  case (Cons e es)
  obtain a c1 where step: "ask e c = (a, c1)" by (meson surj_pair)
  show ?case
  proof (cases i)
    case 0
    with ask_fresh [OF step Cons.prems(1)] Cons.prems(3) show ?thesis by (simp add: step)
  next
    case (Suc k)
    with Cons.IH [OF ask_sourced [OF step Cons.prems(1)], of k] Cons.prems show ?thesis by (simp add: step)
  qed
qed simp

text \<open>From a cache that holds nothing, every answer rests on a value of the run.\<close>

theorem run_fresh:
  assumes "held c = None" and "i < length es" and "\<not> refused (answers es c ! i)"
  shows "fresh (take i es) (es ! i) (answers es c ! i)"
  using answers_fresh [of "[]", OF _ assms(2,3)] assms(1) by (simp add: sourced_def)

end

end
