(* ===== verification/Spot_Rates.thy ===== *)
theory Spot_Rates
  imports Fx Assets Signature Codecs Timed_Cache
begin

text \<open>
  The providers of rates behind \<^theory_text>\<open>Fx\<close>: the order book of Horizon (\<^verbatim>\<open>fx/provider.go\<close>), the table of the operator
  (\<^verbatim>\<open>fx/static_provider.go\<close>), and the spot prices of CoinGecko with their cache (\<^verbatim>\<open>fx/coingecko_provider.go\<close>). The
  HTTP answers are parameters.
\<close>

section \<open>The order book\<close>

datatype asset_type = AssetNative | AssetType4 | AssetType12

definition horizon_asset_type :: "string \<Rightarrow> asset_type" where
  "horizon_asset_type code = (if code = ''XLM'' then AssetNative else if length code \<le> 4 then AssetType4 else AssetType12)"

record order_book_request =
  ob_selling :: "asset_type \<times> string \<times> string"
  ob_buying :: "asset_type \<times> string \<times> string"

definition order_book_side :: "(string \<Rightarrow> string) \<Rightarrow> string \<Rightarrow> asset_type \<times> string \<times> string" where
  "order_book_side issuers code =
     (horizon_asset_type code, if code \<noteq> ''XLM'' then code else '''', if code \<noteq> ''XLM'' then issuers code else '''')"

text \<open>The answer is the prices of the asks, as texts.\<close>

definition horizon_rate ::
  "decimal_pkg \<Rightarrow> (string \<Rightarrow> string) \<Rightarrow> (order_book_request \<Rightarrow> err + string list) \<Rightarrow> string \<Rightarrow> string \<Rightarrow> err + decimal" where
  "horizon_rate D issuers book from to =
     (case book \<lparr>ob_selling = order_book_side issuers from, ob_buying = order_book_side issuers to\<rparr> of
        Inl e \<Rightarrow> Inl (Wrap (''order book '' @ rate_key from to) e)
      | Inr [] \<Rightarrow> Inl (Wrap (''no liquidity for '' @ rate_key from to) (Dom ErrNoLiquidity))
      | Inr (ask # asks) \<Rightarrow> (case d_parse D ask of None \<Rightarrow> Inl (Wrap ''parse ask price'' (Opaque ask)) | Some r \<Rightarrow> Inr r))"

definition horizon_provider ::
  "decimal_pkg \<Rightarrow> string list \<Rightarrow> (string \<Rightarrow> string) \<Rightarrow> (order_book_request \<Rightarrow> err + string list) \<Rightarrow> provider" where
  "horizon_provider D pairs issuers book =
     \<lparr>pv_name = ''*fx.HorizonProvider'', pv_pairs = pairs, pv_rate = horizon_rate D issuers book\<rparr>"

section \<open>The table of the operator\<close>

text \<open>\<^verbatim>\<open>strings.Cut\<close> at one character.\<close>

definition cut_at_char :: "char \<Rightarrow> string \<Rightarrow> (string \<times> string) option" where
  "cut_at_char c s = (case dropWhile (\<lambda>x. x \<noteq> c) s of [] \<Rightarrow> None | _ # raw \<Rightarrow> Some (takeWhile (\<lambda>x. x \<noteq> c) s, raw))"

definition static_entry :: "unicode_tables \<Rightarrow> decimal_pkg \<Rightarrow> string \<Rightarrow> (string \<times> decimal) option" where
  "static_entry U D entry =
     (case cut_at_char (CHR ''='') (trim_space U entry) of None \<Rightarrow> None
      | Some (p, raw) \<Rightarrow> (case d_parse D (trim_space U raw) of None \<Rightarrow> None
        | Some r \<Rightarrow> if r > 0 then Some (to_upper U (trim_space U p), r) else None))"

definition parse_static_rates :: "unicode_tables \<Rightarrow> decimal_pkg \<Rightarrow> string \<Rightarrow> string \<rightharpoonup> decimal" where
  "parse_static_rates U D spec = fold (\<lambda>entry m. case static_entry U D entry of None \<Rightarrow> m | Some (p, r) \<Rightarrow> m(p \<mapsto> r))
     (split_at (CHR '','') spec) Map.empty"

definition static_rate :: "(string \<rightharpoonup> decimal) \<Rightarrow> string \<Rightarrow> string \<Rightarrow> err + decimal" where
  "static_rate m from to = (case m (rate_key from to) of
     None \<Rightarrow> Inl (Opaque (''static fx: no rate for pair '' @ rate_key from to)) | Some r \<Rightarrow> Inr r)"

text \<open>The pairs are the keys of the table in the order of a map, which is open: \<open>ks\<close>.\<close>

definition static_provider :: "(string \<rightharpoonup> decimal) \<Rightarrow> string list \<Rightarrow> provider" where
  "static_provider m ks = \<lparr>pv_name = ''*fx.StaticProvider'', pv_pairs = ks, pv_rate = static_rate m\<rparr>"

section \<open>Spot prices\<close>

definition coin_ids :: "(string \<times> string) list" where
  "coin_ids = [(''XDC'', ''xdce-crowd-sale''), (''TXDC'', ''xdce-crowd-sale''), (''USDC'', ''usd-coin''), (''XLM'', ''stellar'')]"

definition coin_fiat :: "string list" where
  "coin_fiat = [''USD'', ''NGN'', ''INR'', ''EUR'', ''GBP'', ''KES'', ''GHS'', ''ZAR'']"

definition coin_assets :: "string list" where
  "coin_assets = [''USDC'', ''XDC'', ''TXDC'', ''XLM'', ''USD'', ''NGN'', ''INR'', ''EUR'', ''GBP'', ''KES'', ''GHS'', ''ZAR'']"

definition coin_price_ttl :: int where "coin_price_ttl = 30 * second"

definition coin_pairs :: "string list" where
  "coin_pairs = concat (map (\<lambda>from. map (rate_key from) (filter (\<lambda>to. from \<noteq> to) coin_assets)) coin_assets)"

text \<open>Prices by coin id and currency; a coin that is missing has none.\<close>

type_synonym price_matrix = "(string \<times> (string \<rightharpoonup> decimal)) list"

definition price_of :: "price_matrix \<Rightarrow> string \<Rightarrow> string \<Rightarrow> decimal option" where
  "price_of m i cur = (case map_of m i of None \<Rightarrow> None | Some f \<Rightarrow> f cur)"

text \<open>A price that is there and not zero.\<close>

definition usable :: "decimal option \<Rightarrow> decimal option" where
  "usable p = (case p of None \<Rightarrow> None | Some x \<Rightarrow> if x = 0 then None else Some x)"

definition currency_key :: "string \<Rightarrow> string" where
  "currency_key code = map ascii_lower code"

fun first_price :: "price_matrix \<Rightarrow> string list \<Rightarrow> string \<Rightarrow> decimal option" where
  "first_price m [] cur = None"
| "first_price m (i # is) cur = (case usable (price_of m i cur) of Some p \<Rightarrow> Some p | None \<Rightarrow> first_price m is cur)"

fun fiat_cross :: "decimal_pkg \<Rightarrow> price_matrix \<Rightarrow> string list \<Rightarrow> string \<Rightarrow> string \<Rightarrow> decimal option" where
  "fiat_cross D m [] from to = None"
| "fiat_cross D m (i # is) from to =
     (case (usable (price_of m i from), price_of m i to) of
        (Some a, Some b) \<Rightarrow> Some (d_div D b a) | _ \<Rightarrow> fiat_cross D m is from to)"

definition anchor_coins :: "string list" where
  "anchor_coins = [''usd-coin'', ''xdce-crowd-sale'', ''stellar'']"

text \<open>The four cases: between coins, from a coin, to a coin, between currencies.\<close>

definition coin_to_coin :: "decimal_pkg \<Rightarrow> price_matrix \<Rightarrow> string \<Rightarrow> string \<Rightarrow> err + decimal" where
  "coin_to_coin D m i j =
     (case (price_of m i ''usd'', usable (price_of m j ''usd'')) of
        (Some a, Some b) \<Rightarrow> Inr (d_div D a b) | _ \<Rightarrow> Inl (Opaque ''coingecko: missing usd price''))"

definition coin_to_fiat :: "price_matrix \<Rightarrow> string \<Rightarrow> string \<Rightarrow> err + decimal" where
  "coin_to_fiat m i cur =
     (case usable (price_of m i cur) of Some p \<Rightarrow> Inr p
      | None \<Rightarrow> (case usable (price_of m i ''usd'') of None \<Rightarrow> Inl (Opaque ''coingecko: missing usd price'')
        | Some usd \<Rightarrow> (case usable (price_of m ''usd-coin'' cur) of Some f \<Rightarrow> Inr (usd * f)
          | None \<Rightarrow> (case first_price m anchor_coins cur of Some p \<Rightarrow> Inr (usd * p)
            | None \<Rightarrow> Inl (Opaque ''coingecko: missing price'')))))"

definition fiat_to_coin :: "decimal_pkg \<Rightarrow> price_matrix \<Rightarrow> string \<Rightarrow> string \<Rightarrow> err + decimal" where
  "fiat_to_coin D m cur j =
     (case usable (price_of m j cur) of None \<Rightarrow> Inl (Opaque ''coingecko: missing price'') | Some p \<Rightarrow> Inr (d_div D 1 p))"

definition spot_rate :: "decimal_pkg \<Rightarrow> price_matrix \<Rightarrow> string \<Rightarrow> string \<Rightarrow> err + decimal" where
  "spot_rate D m from to =
     (case (map_of coin_ids from, map_of coin_ids to) of
        (Some i, Some j) \<Rightarrow> coin_to_coin D m i j
      | (Some i, None) \<Rightarrow> coin_to_fiat m i (currency_key to)
      | (None, Some j) \<Rightarrow> fiat_to_coin D m (currency_key from) j
      | (None, None) \<Rightarrow> (case fiat_cross D m anchor_coins (currency_key from) (currency_key to) of
          None \<Rightarrow> Inl (Opaque (''coingecko: cannot price '' @ rate_key from to)) | Some r \<Rightarrow> Inr r))"

text \<open>
  The cache, and one fetch: the status code and the decoded prices as texts. The clock is read when the
  cache is looked at (\<open>pe_now\<close>) and when it is filled (\<open>pe_stored\<close>).
\<close>

record coin_cache =
  cc_prices :: price_matrix
  cc_fetched :: go_time

type_synonym coin_answer = "err + int \<times> (err + (string \<times> (string \<rightharpoonup> string)) list)"

definition matrix_of :: "decimal_pkg \<Rightarrow> (string \<times> (string \<rightharpoonup> string)) list \<Rightarrow> price_matrix" where
  "matrix_of D raw = map (\<lambda>(i, fiats). (i, \<lambda>cur. case fiats cur of None \<Rightarrow> None | Some t \<Rightarrow> d_parse D t)) raw"

definition fetch_prices :: "decimal_pkg \<Rightarrow> coin_answer \<Rightarrow> err + price_matrix" where
  "fetch_prices D a =
     (case a of Inl e \<Rightarrow> Inl (Wrap ''coingecko price fetch'' e)
      | Inr (code, body) \<Rightarrow>
        if code \<noteq> 200 then Inl (Opaque (''coingecko price fetch: status '' @ format_int code))
        else (case body of Inl e \<Rightarrow> Inl (Wrap ''decode coingecko response'' e) | Inr raw \<Rightarrow> Inr (matrix_of D raw)))"

record price_env =
  pe_now :: go_time
  pe_answer :: coin_answer
  pe_stored :: go_time

definition price_matrix :: "decimal_pkg \<Rightarrow> price_env \<Rightarrow> coin_cache \<Rightarrow> (err + price_matrix) \<times> coin_cache" where
  "price_matrix D E C =
     (if cc_prices C \<noteq> [] \<and> pe_now E - cc_fetched C < coin_price_ttl then (Inr (cc_prices C), C)
      else (case fetch_prices D (pe_answer E) of
          Inl e \<Rightarrow> (Inl e, C)
        | Inr m \<Rightarrow> (Inr m, \<lparr>cc_prices = m, cc_fetched = pe_stored E\<rparr>)))"

definition known_asset :: "string \<Rightarrow> bool" where
  "known_asset c \<longleftrightarrow> map_of coin_ids c \<noteq> None \<or> c \<in> set coin_fiat"

definition coin_rate ::
  "decimal_pkg \<Rightarrow> price_env \<Rightarrow> string \<Rightarrow> string \<Rightarrow> coin_cache \<Rightarrow> (err + decimal) \<times> coin_cache" where
  "coin_rate D E from to C =
     (if \<not> (known_asset from \<and> known_asset to) then (Inl (Opaque (''coingecko: unsupported pair '' @ rate_key from to)), C)
      else case price_matrix D E C of (Inl e, C1) \<Rightarrow> (Inl e, C1) | (Inr m, C1) \<Rightarrow> (spot_rate D m from to, C1))"

definition coin_provider :: "decimal_pkg \<Rightarrow> price_env \<Rightarrow> coin_cache \<Rightarrow> provider" where
  "coin_provider D E C = \<lparr>pv_name = ''*fx.CoinGeckoProvider'', pv_pairs = coin_pairs,
     pv_rate = (\<lambda>from to. fst (coin_rate D E from to C))\<rparr>"
section \<open>Prices are fresh\<close>

text \<open>A run of requests, each with its pair, over one cache: the answers in order.\<close>

fun coin_run :: "decimal_pkg \<Rightarrow> (price_env \<times> string \<times> string) list \<Rightarrow> coin_cache \<Rightarrow> (err + decimal) list" where
  "coin_run D [] C = []"
| "coin_run D ((E, from, to) # es) C =
     (case coin_rate D E from to C of (r, C1) \<Rightarrow> r # coin_run D es C1)"

definition no_prices :: coin_cache where
  "no_prices = \<lparr>cc_prices = [], cc_fetched = 0\<rparr>"

interpretation prices: timed_cache
  "\<lambda>(E, a, b). coin_rate D E a b"
  "\<lambda>(E, a, b). case fetch_prices D (pe_answer E) of Inl e \<Rightarrow> None | Inr m \<Rightarrow> Some m"
  "\<lambda>(E, a, b) m. spot_rate D m a b"
  "\<lambda>C. if cc_prices C = [] then None else Some (cc_prices C, cc_fetched C)"
  "\<lambda>(E, a, b). pe_now E" "\<lambda>(E, a, b). pe_stored E" coin_price_ttl isl
  by unfold_locales (auto simp: coin_rate_def price_matrix_def split: if_splits sum.splits prod.splits)

lemma coin_run_answers: "coin_run D es C = prices.answers D es C"
  by (induction es arbitrary: C) (auto split: prod.splits)

section \<open>Samples\<close>

definition sample_prices :: "string \<Rightarrow> string \<rightharpoonup> string" where
  "sample_prices u = [''usd'' \<mapsto> u]"

definition sample_answer :: coin_answer where
  "sample_answer = Inr (200, Inr [(''usd-coin'', sample_prices ''1''), (''xdce-crowd-sale'', sample_prices ''2'')])"

definition price_pkg :: decimal_pkg where
  "price_pkg = reference_pkg\<lparr>d_parse := (\<lambda>s. Some (if s = ''1'' then 1 else 2))\<rparr>"

definition sample_requests :: "(price_env \<times> string \<times> string) list" where
  "sample_requests = map (\<lambda>t. (\<lparr>pe_now = t, pe_answer = if t = 0 then sample_answer else Inl (Opaque ''down''), pe_stored = t\<rparr>,
     ''XDC'', ''USDC'')) [0, 29 * second]"

lemma sample_requests_answered: "coin_run price_pkg sample_requests no_prices = [Inr (2 :: rat), Inr 2]"
  by (simp add: sample_requests_def no_prices_def coin_rate_def known_asset_def coin_ids_def price_matrix_def
      fetch_prices_def matrix_of_def sample_answer_def sample_prices_def price_pkg_def spot_rate_def coin_to_coin_def
      price_of_def usable_def coin_price_ttl_def reference_pkg_def second_def round_half_away_def floor_eq_iff)

text \<open>
  C38: Rates are fresh: in any run of requests over the cache, starting without prices, a request that is
  answered with a rate is answered from prices that this request fetched, or that an earlier request of
  the run fetched less than thirty seconds before; an outage is never bridged with older prices.
\<close>

theorem rate_rests_on_fresh_prices:
  assumes "i < length es" and "es ! i = (E, a, b)" and "coin_run D es no_prices ! i = Inr r"
  shows "\<exists>F \<in> set (map fst (take (Suc i) es)). \<exists>m. fetch_prices D (pe_answer F) = Inr m \<and> spot_rate D m a b = Inr r
           \<and> (F = E \<or> pe_now E - pe_stored F < 30 * second)"
proof -
  have "prices.fresh D (take i es) (es ! i) (Inr r)"
    using prices.run_fresh [of no_prices i es D] assms by (simp add: no_prices_def coin_run_answers)
  then obtain m where m: "spot_rate D m a b = Inr r" and origin: "fetch_prices D (pe_answer E) = Inr m
      \<or> (\<exists>(F, c, d) \<in> set (take i es). fetch_prices D (pe_answer F) = Inr m \<and> pe_now E - pe_stored F < coin_price_ttl)"
    using assms(2) by (fastforce simp: prices.fresh_def split: sum.splits)
  have members: "fst ` set (take (Suc i) es) = insert E (fst ` set (take i es))"
    using assms(1,2) by (simp add: take_Suc_conv_app_nth)
  from origin m show ?thesis
    unfolding set_map members by (fastforce simp: coin_price_ttl_def)
qed

theorem rate_rests_on_fresh_prices_witness:
  "\<exists>F \<in> set (map fst (take 2 sample_requests)). \<exists>m. fetch_prices price_pkg (pe_answer F) = Inr m
     \<and> spot_rate price_pkg m ''XDC'' ''USDC'' = Inr 2
     \<and> (F = fst (sample_requests ! 1) \<or> pe_now (fst (sample_requests ! 1)) - pe_stored F < 30 * second)"
  using rate_rests_on_fresh_prices [where es = sample_requests and D = price_pkg and i = 1 and r = 2
      and E = "fst (sample_requests ! 1)" and a = "''XDC''" and b = "''USDC''"]
  by (simp add: sample_requests_answered) (simp add: sample_requests_def numeral_2_eq_2)

section \<open>Every pair that is offered can be priced\<close>

text \<open>A matrix with a price in every currency for every coin.\<close>

definition full_matrix :: "price_matrix \<Rightarrow> bool" where
  "full_matrix m \<longleftrightarrow> (\<forall>i \<in> snd ` set coin_ids. \<forall>c \<in> set coin_fiat. usable (price_of m i (currency_key c)) \<noteq> None)"

lemma usableD: "usable p \<noteq> None \<Longrightarrow> \<exists>x. p = Some x \<and> x \<noteq> 0"
  by (auto simp: usable_def split: option.splits if_splits)

lemma full_matrix_price:
  assumes "full_matrix m" and "map_of coin_ids from = Some i" and "c \<in> set coin_fiat"
  shows "\<exists>x. price_of m i (currency_key c) = Some x \<and> x \<noteq> 0"
proof -
  have "i \<in> snd ` set coin_ids" using map_of_SomeD [OF assms(2)] by force
  then show ?thesis using assms(1,3) usableD unfolding full_matrix_def by blast
qed

lemma usd_key: "currency_key ''USD'' = ''usd''"
  by code_simp

lemma known_assetE:
  assumes "known_asset c"
  obtains (coin) i where "map_of coin_ids c = Some i" | (fiat) "map_of coin_ids c = None" "c \<in> set coin_fiat"
  using assms unfolding known_asset_def by blast

lemma spot_rate_full:
  assumes full: "full_matrix m" and known: "known_asset from" "known_asset to"
  shows "\<exists>r. spot_rate D m from to = Inr r"
proof -
  have usd: "''USD'' \<in> set coin_fiat" by (simp add: coin_fiat_def)
  have usdc: "map_of coin_ids ''USDC'' = Some ''usd-coin''" by (simp add: coin_ids_def)
  note price = full_matrix_price [OF full]
  show ?thesis
  proof (cases rule: known_assetE [OF known(1)])
    case (1 i)
    show ?thesis
    proof (cases rule: known_assetE [OF known(2)])
      case (1 j)
      with price [OF \<open>map_of coin_ids from = Some i\<close> usd] price [OF 1 usd] \<open>map_of coin_ids from = Some i\<close> show ?thesis
        by (auto simp: spot_rate_def coin_to_coin_def usable_def usd_key)
    next
      case 2
      with price [OF \<open>map_of coin_ids from = Some i\<close> 2(2)] \<open>map_of coin_ids from = Some i\<close> show ?thesis
        by (auto simp: spot_rate_def coin_to_fiat_def usable_def)
    qed
  next
    case 2
    note fiat = 2
    show ?thesis
    proof (cases rule: known_assetE [OF known(2)])
      case (1 j)
      with price [OF 1 fiat(2)] fiat show ?thesis
        by (auto simp: spot_rate_def fiat_to_coin_def usable_def)
    next
      case 2
      with price [OF usdc 2(2)] price [OF usdc fiat(2)] fiat show ?thesis
        by (auto simp: spot_rate_def anchor_coins_def usable_def)
    qed
  qed
qed

lemma coin_pairs_known: "p \<in> set coin_pairs \<Longrightarrow> \<exists>from to. p = rate_key from to \<and> known_asset from \<and> known_asset to \<and> from \<noteq> to"
proof -
  have "\<forall>c \<in> set coin_assets. known_asset c" by (simp add: coin_assets_def known_asset_def coin_ids_def coin_fiat_def)
  then show "p \<in> set coin_pairs \<Longrightarrow> ?thesis" unfolding coin_pairs_def by auto
qed
text \<open>
  Every pair that the provider offers is a pair of assets that it knows, and with prices at hand for
  every coin in every currency it answers that pair with a rate: no pair is offered and then refused.
\<close>

theorem offered_pair_is_priced:
  assumes "p \<in> set coin_pairs" and "price_matrix D E C = (Inr m, C1)" and "full_matrix m"
  shows "\<exists>a b r. p = rate_key a b \<and> a \<noteq> b \<and> coin_rate D E a b C = (Inr r, C1)"
proof -
  from coin_pairs_known [OF assms(1)] obtain a b where p: "p = rate_key a b" "a \<noteq> b"
    and known: "known_asset a" "known_asset b" by blast
  from spot_rate_full [OF assms(3) known] obtain r where "spot_rate D m a b = Inr r" by blast
  with known assms(2) have "coin_rate D E a b C = (Inr r, C1)" by (simp add: coin_rate_def)
  with p show ?thesis by blast
qed

definition even_prices :: price_matrix where
  "even_prices = map (\<lambda>i. (i, \<lambda>cur. Some 1)) [''xdce-crowd-sale'', ''usd-coin'', ''stellar'']"

theorem offered_pair_is_priced_witness:
  "\<exists>a b r. ''XDC-NGN'' = rate_key a b \<and> a \<noteq> b
     \<and> coin_rate reference_pkg \<lparr>pe_now = 5, pe_answer = Inl (Opaque ''down''), pe_stored = 5\<rparr> a b
         \<lparr>cc_prices = even_prices, cc_fetched = 0\<rparr> = (Inr r, \<lparr>cc_prices = even_prices, cc_fetched = 0\<rparr>)"
proof -
  have "''XDC-NGN'' \<in> set coin_pairs" by (simp add: coin_pairs_def coin_assets_def rate_key_def)
  moreover have "price_matrix reference_pkg \<lparr>pe_now = 5, pe_answer = Inl (Opaque ''down''), pe_stored = 5\<rparr>
      \<lparr>cc_prices = even_prices, cc_fetched = 0\<rparr> = (Inr even_prices, \<lparr>cc_prices = even_prices, cc_fetched = 0\<rparr>)"
    by (simp add: price_matrix_def even_prices_def coin_price_ttl_def second_def)
  moreover have "full_matrix even_prices"
    by (simp add: full_matrix_def coin_ids_def even_prices_def price_of_def usable_def)
  ultimately show ?thesis by (rule offered_pair_is_priced)
qed

section \<open>The fallback price\<close>

text \<open>
  When a coin has no price in a currency, and USDC has none either, the code multiplies the dollar
  price of the coin by the price of XDC in that currency. With \<open>x\<close> dollars for one XDC and \<open>f\<close> units
  of the currency for one dollar, so that XDC costs \<open>x * f\<close>, a coin worth \<open>u\<close> dollars is quoted at
  \<open>u * f * x\<close> instead of \<open>u * f\<close>: the quote is off by the price of XDC.
\<close>

theorem fallback_rate_off_by_anchor:
  assumes "map_of coin_ids a = Some i" and "map_of coin_ids b = None"
    and "usable (price_of m i (currency_key b)) = None" and "usable (price_of m i ''usd'') = Some u"
    and "usable (price_of m ''usd-coin'' (currency_key b)) = None"
    and "price_of m ''xdce-crowd-sale'' (currency_key b) = Some (x * f)" and "x * f \<noteq> 0"
  shows "spot_rate D m a b = Inr (u * f * x)"
  using assms by (simp add: spot_rate_def coin_to_fiat_def anchor_coins_def usable_def)

definition gap_prices :: price_matrix where
  "gap_prices = [(''xdce-crowd-sale'', [''usd'' \<mapsto> 1 / 20, ''ngn'' \<mapsto> 80]), (''usd-coin'', [''usd'' \<mapsto> 1])]"

theorem fallback_rate_off_by_anchor_witness:
  "spot_rate reference_pkg gap_prices ''USDC'' ''NGN'' = Inr (1 * 1600 * (1 / 20))"
proof (rule fallback_rate_off_by_anchor [where i = "''usd-coin''"])
  have ngn: "currency_key ''NGN'' = ''ngn''" by code_simp
  show "map_of coin_ids ''USDC'' = Some ''usd-coin''" and "map_of coin_ids ''NGN'' = None" by (simp_all add: coin_ids_def)
  show "usable (price_of gap_prices ''usd-coin'' (currency_key ''NGN'')) = None"
    and "usable (price_of gap_prices ''usd-coin'' (currency_key ''NGN'')) = None"
    and "usable (price_of gap_prices ''usd-coin'' ''usd'') = Some 1"
    and "price_of gap_prices ''xdce-crowd-sale'' (currency_key ''NGN'') = Some ((1 / 20) * 1600)"
    by (simp_all add: ngn gap_prices_def price_of_def usable_def)
qed simp

section \<open>The table of the operator holds positive rates\<close>

lemma static_entry_positive: "static_entry U D e = Some (p, r) \<Longrightarrow> r > 0"
  by (auto simp: static_entry_def split: option.splits if_splits)

definition positive_rates :: "(string \<rightharpoonup> decimal) \<Rightarrow> bool" where
  "positive_rates m \<longleftrightarrow> (\<forall>r \<in> ran m. 0 < r)"

lemma positive_rates_fold:
  "positive_rates m \<Longrightarrow> positive_rates (fold (\<lambda>entry m. case static_entry U D entry of None \<Rightarrow> m | Some (p, r) \<Rightarrow> m(p \<mapsto> r)) es m)"
proof (induction es arbitrary: m)
  case Nil
  then show ?case by simp
next
  case (Cons e es)
  have "positive_rates (case static_entry U D e of None \<Rightarrow> m | Some (p, r) \<Rightarrow> m(p \<mapsto> r))"
  proof (cases "static_entry U D e")
    case None
    with Cons.prems show ?thesis by simp
  next
    case (Some x)
    then obtain p r where x: "static_entry U D e = Some (p, r)" by (cases x) simp
    with static_entry_positive [OF x] Cons.prems show ?thesis
      by (auto simp: positive_rates_def ran_def split: if_splits)
  qed
  from Cons.IH [OF this] show ?case by simp
qed

lemma static_rates_positive:
  assumes "static_rate (parse_static_rates U D table) a b = Inr r"
  shows "r > 0"
proof -
  have "positive_rates (parse_static_rates U D table)"
    unfolding parse_static_rates_def by (rule positive_rates_fold) (simp add: positive_rates_def)
  moreover have "r \<in> ran (parse_static_rates U D table)"
    using assms by (auto simp: static_rate_def intro: ranI split: option.splits)
  ultimately show ?thesis by (simp add: positive_rates_def)
qed

end
