(* ===== verification/Status.thy ===== *)
theory Status
  imports Timed_Cache Stellar
begin

text \<open>
  What the service tells about itself: the health reports of \<^verbatim>\<open>internal/health\<close> and
  \<^verbatim>\<open>internal/server/health.go\<close>, and the counters of \<^verbatim>\<open>internal/server/metrics.go\<close>. The probes are
  parameters; the order in which a map is walked does not show in a report, and the components are
  kept in the order of \<open>names\<close>.
\<close>

section \<open>Probes over HTTP\<close>

text \<open>An answer is its status code and what decoding its body gives.\<close>

definition status_is_2xx :: "int \<Rightarrow> bool" where
  "status_is_2xx code \<longleftrightarrow> \<not> (code < 200 \<or> code \<ge> 300)"

definition http_probe :: "err option \<Rightarrow> err + int \<times> err option \<Rightarrow> err option" where
  "http_probe built a =
     (case built of Some e \<Rightarrow> Some (Wrap ''create request'' e)
      | None \<Rightarrow> (case a of Inl e \<Rightarrow> Some e
        | Inr (code, read) \<Rightarrow> (case read of Some e \<Rightarrow> Some e
          | None \<Rightarrow> if status_is_2xx code then None else Some (Opaque ''unexpected status''))))"

definition http_dependency :: "err option \<Rightarrow> err + int \<Rightarrow> err option" where
  "http_dependency built a =
     (case built of Some e \<Rightarrow> Some (Wrap ''create request'' e)
      | None \<Rightarrow> (case a of Inl e \<Rightarrow> Some e
        | Inr code \<Rightarrow> if status_is_2xx code then None else Some (Opaque ''unexpected status'')))"

text \<open>The fee statistics of Horizon, \<^verbatim>\<open>HorizonProbe\<close> and \<^verbatim>\<open>HorizonDependencyCheck\<close>.\<close>

definition horizon_probe :: "err option \<Rightarrow> err + int \<times> (err + int) \<Rightarrow> err + int" where
  "horizon_probe built a =
     (case built of Some e \<Rightarrow> Inl e
      | None \<Rightarrow> (case a of Inl e \<Rightarrow> Inl e
        | Inr (code, body) \<Rightarrow>
          if \<not> status_is_2xx code then Inl (Opaque ''unexpected status'')
          else (case body of Inl e \<Rightarrow> Inl e
            | Inr fee \<Rightarrow> if fee \<le> 0 then Inl (Opaque ''last_ledger_base_fee is not positive'') else Inr fee)))"

definition horizon_dependency :: "err option \<Rightarrow> err + int \<times> (err + int) \<Rightarrow> err option" where
  "horizon_dependency built a = (case horizon_probe built a of Inl e \<Rightarrow> Some e | Inr fee \<Rightarrow> None)"

section \<open>The health report\<close>

definition health_cache_ttl :: int where "health_cache_ttl = 5 * second"

definition component_timeout :: "string \<Rightarrow> int" where
  "component_timeout name =
     (let millisecond = second div 1000 in
      if name = ''postgres'' then 500 * millisecond else if name = ''redis'' then 200 * millisecond
      else if name = ''horizon'' then second else 200 * millisecond)"

datatype health_status = Healthy | Degraded | Unhealthy

record 'd component_health =
  ch_status :: health_status
  ch_latency :: int
  ch_checked :: go_time
  ch_details :: "err + 'd"

text \<open>One request: the clock at its start and its end, and per component what the probe says within its timeout.\<close>

record 'd health_env =
  he_asked :: go_time
  he_done :: go_time
  he_probe :: "string \<Rightarrow> int \<Rightarrow> err + 'd"
  he_latency :: "string \<Rightarrow> int"
  he_checked :: "string \<Rightarrow> go_time"

type_synonym 'd health_report = "int \<times> health_status \<times> (string \<times> 'd component_health) list"

definition check_component :: "'d health_env \<Rightarrow> string \<Rightarrow> 'd component_health" where
  "check_component E name =
     (let r = he_probe E name (component_timeout name) in
      \<lparr>ch_status = (if isl r then Unhealthy else Healthy), ch_latency = he_latency E name,
       ch_checked = he_checked E name, ch_details = r\<rparr>)"

definition overall_status :: "health_status list \<Rightarrow> health_status" where
  "overall_status ss =
     (let failed = length (filter (\<lambda>s. s = Unhealthy) ss) in
      if failed = length ss \<and> failed > 1 then Unhealthy else if failed > 0 then Degraded else Healthy)"

definition health_code :: "health_status \<Rightarrow> int" where
  "health_code s = (if s = Unhealthy then 503 else 200)"

definition health_report :: "string list \<Rightarrow> 'd health_env \<Rightarrow> 'd health_report" where
  "health_report names E =
     (let cs = map (\<lambda>n. (n, check_component E n)) names; s = overall_status (map (ch_status \<circ> snd) cs)
      in (health_code s, s, cs))"

text \<open>The report that is cached, with its expiry; the zero value of the start has expired.\<close>

type_synonym 'r timed_report = "('r \<times> go_time) option"

definition health_handler :: "string list \<Rightarrow> 'd health_env \<Rightarrow> 'd health_report timed_report \<Rightarrow> 'd health_report \<times> 'd health_report timed_report" where
  "health_handler names E c =
     (let rebuilt = (health_report names E, Some (health_report names E, he_done E + health_cache_ttl)) in
      case c of Some (r, expires) \<Rightarrow> if he_asked E < expires then (r, c) else rebuilt | None \<Rightarrow> rebuilt)"

text \<open>Readiness asks the two stores one after the other; liveness asks nobody.\<close>

fun ready_checks :: "string list \<Rightarrow> string list \<Rightarrow> (string \<Rightarrow> int \<Rightarrow> err + 'd) \<Rightarrow> int" where
  "ready_checks [] names probe = 200"
| "ready_checks (n # ns) names probe =
     (if n \<notin> set names then 503
      else if isl (probe n (component_timeout n)) then 503 else ready_checks ns names probe)"

definition ready_handler :: "string list \<Rightarrow> (string \<Rightarrow> int \<Rightarrow> err + 'd) \<Rightarrow> int" where
  "ready_handler names probe = ready_checks [''postgres'', ''redis''] names probe"

definition live_handler :: int where "live_handler = 200"

section \<open>The report of the server package\<close>

definition health_check_timeout :: int where "health_check_timeout = 2 * second"
definition health_status_cache_ttl :: int where "health_status_cache_ttl = 5 * second"

record dependency_health =
  dh_connected :: bool
  dh_latency :: int
  dh_error :: "err option"

record dependency_env =
  de_now :: go_time
  de_check :: "string \<Rightarrow> int \<Rightarrow> err option"
  de_latency :: "string \<Rightarrow> int"

type_synonym dependency_report = "int \<times> string \<times> (string \<times> dependency_health) list"

definition check_dependency :: "dependency_env \<Rightarrow> string \<Rightarrow> dependency_health" where
  "check_dependency E name =
     (let e = de_check E name health_check_timeout
      in \<lparr>dh_connected = (e = None), dh_latency = de_latency E name, dh_error = e\<rparr>)"

definition dependency_report :: "string list \<Rightarrow> dependency_env \<Rightarrow> dependency_report" where
  "dependency_report names E =
     (let cs = map (\<lambda>n. (n, check_dependency E n)) names in
      if list_all (dh_connected \<circ> snd) cs then (200, ''ok'', cs) else (503, ''degraded'', cs))"

definition dependency_handler :: "string list \<Rightarrow> dependency_env \<Rightarrow> dependency_report timed_report \<Rightarrow> dependency_report \<times> dependency_report timed_report" where
  "dependency_handler names E c =
     (let rebuilt = (dependency_report names E, Some (dependency_report names E, de_now E + health_status_cache_ttl)) in
      case c of Some (r, expires) \<Rightarrow> if de_now E < expires then (r, c) else rebuilt | None \<Rightarrow> rebuilt)"

section \<open>Counters\<close>

definition metric_codes :: "int list" where
  "metric_codes = [200, 201, 202, 400, 401, 403, 404, 429, 500]"

record metrics =
  me_total :: int
  me_active :: int
  me_errors :: int
  me_by_code :: "int \<rightharpoonup> int"

definition global_metrics :: metrics where
  "global_metrics = \<lparr>me_total = 0, me_active = 0, me_errors = 0, me_by_code = map_of (map (\<lambda>c. (c, 0)) metric_codes)\<rparr>"

definition record_request :: "int \<Rightarrow> metrics \<Rightarrow> metrics" where
  "record_request code m =
     (let m1 = m\<lparr>me_total := me_total m + 1\<rparr>;
          m2 = (if code \<ge> 400 then m1\<lparr>me_errors := me_errors m1 + 1\<rparr> else m1)
      in case me_by_code m2 code of None \<Rightarrow> m2 | Some k \<Rightarrow> m2\<lparr>me_by_code := (me_by_code m2)(code \<mapsto> k + 1)\<rparr>)"

definition increment_active :: "metrics \<Rightarrow> metrics" where
  "increment_active m = m\<lparr>me_active := me_active m + 1\<rparr>"

definition decrement_active :: "metrics \<Rightarrow> metrics" where
  "decrement_active m = m\<lparr>me_active := me_active m - 1\<rparr>"

text \<open>
  The middleware, in the steps that interleave: a request arrives, ends with the last status that was
  written, or panics, when only the deferred step runs.
\<close>

datatype request_event = Arrives | Answers int | Panics

fun metrics_middleware :: "request_event \<Rightarrow> metrics \<Rightarrow> metrics" where
  "metrics_middleware Arrives m = increment_active m"
| "metrics_middleware (Answers code) m = decrement_active (record_request code m)"
| "metrics_middleware Panics m = decrement_active m"

definition metrics_run :: "request_event list \<Rightarrow> metrics" where
  "metrics_run es = fold metrics_middleware es global_metrics"
section \<open>What a report says\<close>

lemma overall_status_mixed: "Unhealthy \<in> set ss \<Longrightarrow> Healthy \<in> set ss \<Longrightarrow> overall_status ss = Degraded"
proof -
  assume "Unhealthy \<in> set ss" "Healthy \<in> set ss"
  then have "filter (\<lambda>s. s = Unhealthy) ss \<noteq> []" by (auto simp: filter_empty_conv)
  moreover have "length (filter (\<lambda>s. s = Unhealthy) ss) < length ss"
    using \<open>Healthy \<in> set ss\<close> by (rule length_filter_less) simp
  ultimately show ?thesis by (simp add: overall_status_def Let_def)
qed

lemma component_status: "ch_status (check_component E n) = (if isl (he_probe E n (component_timeout n)) then Unhealthy else Healthy)"
  by (simp add: check_component_def Let_def)

text \<open>
  A part of the service that is down does not change the status code of \<^verbatim>\<open>/health\<close>: as long as
  one component answers its probe the report is 200 and degraded, whatever else has failed, the
  database included; the handler of the server package answers 503 for the same outage.
\<close>

theorem partial_outage_reported_as_200:
  assumes "down \<in> set names" and "he_probe E down (component_timeout down) = Inl e"
    and "up \<in> set names" and "he_probe E up (component_timeout up) = Inr d"
    and "de_check F down health_check_timeout = Some e"
  shows "fst (health_report names E) = 200 \<and> fst (snd (health_report names E)) = Degraded
    \<and> fst (dependency_report names F) = 503"
proof -
  let ?ss = "map (ch_status \<circ> snd) (map (\<lambda>n. (n, check_component E n)) names)"
  have "Unhealthy \<in> set ?ss" using assms(1,2) by (force simp: component_status)
  moreover have "Healthy \<in> set ?ss" using assms(3,4) by (force simp: component_status)
  ultimately have s: "overall_status ?ss = Degraded" by (rule overall_status_mixed)
  have "\<not> list_all (dh_connected \<circ> snd) (map (\<lambda>n. (n, check_dependency F n)) names)"
    using assms(1,5) by (auto simp: list_all_iff check_dependency_def Let_def)
  with s show ?thesis by (simp add: health_report_def health_code_def dependency_report_def Let_def)
qed

definition sample_health :: "go_time \<Rightarrow> unit health_env" where
  "sample_health t = \<lparr>he_asked = t, he_done = t + 1, he_probe = (\<lambda>n lim. if n = ''postgres'' then Inl (Opaque ''refused'') else Inr ()),
     he_latency = (\<lambda>n. 1), he_checked = (\<lambda>n. t)\<rparr>"

definition sample_dependency :: dependency_env where
  "sample_dependency = \<lparr>de_now = 0, de_check = (\<lambda>n lim. if n = ''postgres'' then Some (Opaque ''refused'') else None), de_latency = (\<lambda>n. 1)\<rparr>"

theorem partial_outage_reported_as_200_witness:
  "fst (health_report [''postgres'', ''redis''] (sample_health 0)) = 200
    \<and> fst (snd (health_report [''postgres'', ''redis''] (sample_health 0))) = Degraded
    \<and> fst (dependency_report [''postgres'', ''redis''] sample_dependency) = 503"
  by (rule partial_outage_reported_as_200 [where down = "''postgres''" and up = "''redis''" and e = "Opaque ''refused''"])
     (simp_all add: sample_health_def sample_dependency_def)

section \<open>A report is fresh\<close>

definition held_report :: "int \<Rightarrow> 'r timed_report \<Rightarrow> ('r \<times> go_time) option" where
  "held_report ttl c = map_option (\<lambda>(r, expires). (r, expires - ttl)) c"

interpretation health: timed_cache
  "health_handler names" "\<lambda>E. Some (health_report names E)" "\<lambda>E r. r" "held_report health_cache_ttl"
  he_asked he_done health_cache_ttl "\<lambda>r. False"
  by unfold_locales (auto simp: health_handler_def held_report_def Let_def split: option.splits if_splits)

interpretation dependencies: timed_cache
  "dependency_handler names" "\<lambda>E. Some (dependency_report names E)" "\<lambda>E r. r" "held_report health_status_cache_ttl"
  de_now de_now health_status_cache_ttl "\<lambda>r. False"
  by unfold_locales (auto simp: dependency_handler_def held_report_def Let_def split: option.splits if_splits)

text \<open>A run of requests on one handler.\<close>

fun health_run :: "string list \<Rightarrow> 'd health_env list \<Rightarrow> 'd health_report timed_report \<Rightarrow> 'd health_report list" where
  "health_run names [] c = []"
| "health_run names (E # Es) c = (case health_handler names E c of (r, c1) \<Rightarrow> r # health_run names Es c1)"

fun dependency_run :: "string list \<Rightarrow> dependency_env list \<Rightarrow> dependency_report timed_report \<Rightarrow> dependency_report list" where
  "dependency_run names [] c = []"
| "dependency_run names (E # Es) c = (case dependency_handler names E c of (r, c1) \<Rightarrow> r # dependency_run names Es c1)"

lemma health_run_answers: "health_run names Es c = health.answers names Es c"
  by (induction Es arbitrary: c) (auto split: prod.splits)

lemma dependency_run_answers: "dependency_run names Es c = dependencies.answers names Es c"
  by (induction Es arbitrary: c) (auto split: prod.splits)

text \<open>
  A health report is fresh: in any run of requests from the start of the process, each request is
  answered with what its own probes say, or with what the probes of an earlier request said that
  ended less than five seconds before this one.
\<close>

theorem health_report_is_fresh:
  assumes "i < length Es"
  shows "\<exists>F \<in> set (take (Suc i) Es). health_run names Es None ! i = health_report names F
           \<and> (F = Es ! i \<or> he_asked (Es ! i) - he_done F < 5 * second)"
proof -
  have "health.fresh names (take i Es) (Es ! i) (health_run names Es None ! i)"
    using health.run_fresh [of None i Es names] assms by (simp add: held_report_def health_run_answers)
  then show ?thesis
    unfolding health.fresh_def unfolding health_cache_ttl_def using assms by (auto simp: take_Suc_conv_app_nth)
qed

theorem health_report_is_fresh_witness:
  "\<exists>F \<in> set (take 2 [sample_health 0, sample_health second]).
     health_run [''postgres''] [sample_health 0, sample_health second] None ! 1 = health_report [''postgres''] F
     \<and> (F = sample_health second \<or> he_asked (sample_health second) - he_done F < 5 * second)"
  using health_report_is_fresh [where i = 1 and Es = "[sample_health 0, sample_health second]" and names = "[''postgres'']"]
  by (simp add: numeral_2_eq_2)

lemma dependency_report_is_fresh:
  assumes "i < length Es"
  shows "\<exists>F \<in> set (take (Suc i) Es). dependency_run names Es None ! i = dependency_report names F
           \<and> (F = Es ! i \<or> de_now (Es ! i) - de_now F < 5 * second)"
proof -
  have "dependencies.fresh names (take i Es) (Es ! i) (dependency_run names Es None ! i)"
    using dependencies.run_fresh [of None i Es names] assms by (simp add: held_report_def dependency_run_answers)
  then show ?thesis
    unfolding dependencies.fresh_def unfolding health_status_cache_ttl_def using assms by (auto simp: take_Suc_conv_app_nth)
qed

section \<open>What the counters count\<close>

definition answered :: "request_event list \<Rightarrow> int list" where
  "answered es = concat (map (\<lambda>e. case e of Answers c \<Rightarrow> [c] | _ \<Rightarrow> []) es)"

definition open_requests :: "request_event list \<Rightarrow> int" where
  "open_requests es = sum_list (map (\<lambda>e. if e = Arrives then 1 else - 1) es)"

definition counts :: "int list \<Rightarrow> int \<Rightarrow> metrics \<Rightarrow> bool" where
  "counts cs active m \<longleftrightarrow> me_total m = int (length cs) \<and> me_active m = active
     \<and> me_errors m = int (length (filter (\<lambda>c. 400 \<le> c) cs))
     \<and> (\<forall>c. me_by_code m c = (if c \<in> set metric_codes then Some (int (count_list cs c)) else None))"

lemma counts_start: "counts [] 0 global_metrics"
  by (auto simp: counts_def global_metrics_def metric_codes_def)

lemma counts_step:
  assumes "counts cs a m"
  shows "counts (cs @ answered [e]) (a + open_requests [e]) (metrics_middleware e m)"
  using assms
  by (cases e) (auto simp: counts_def answered_def open_requests_def increment_active_def decrement_active_def record_request_def
      Let_def split: option.splits)

lemma counts_run: "counts cs a m \<Longrightarrow> counts (cs @ answered es) (a + open_requests es) (fold metrics_middleware es m)"
proof (induction es arbitrary: cs a m)
  case (Cons e es)
  from Cons.IH [OF counts_step [OF Cons.prems, of e]] show ?case by (simp add: answered_def open_requests_def add.assoc)
qed (simp add: answered_def open_requests_def)

text \<open>
  The counters say what happened, however the requests interleave: the active ones are those that
  arrived and have not ended, the total and the errors count the answers, and each code that is listed
  counts its answers. A request that panics leaves the active ones and is counted nowhere else, although
  it is answered with 500.
\<close>

theorem metrics_count_answers:
  "me_active (metrics_run es) = open_requests es
   \<and> me_total (metrics_run es) = int (length (answered es))
   \<and> me_errors (metrics_run es) = int (length (filter (\<lambda>c. 400 \<le> c) (answered es)))
   \<and> (\<forall>c. me_by_code (metrics_run es) c =
        (if c \<in> set metric_codes then Some (int (count_list (answered es) c)) else None))"
  using counts_run [OF counts_start, of es] by (simp add: counts_def metrics_run_def)

end
