(* ===== verification/Config.thy ===== *)
theory Config
  imports Assets Settlement Codecs
begin

text \<open>
  \<^verbatim>\<open>internal/config\<close> and the CORS middleware that it feeds (\<^verbatim>\<open>internal/server/middleware.go\<close>). The lookup of
  viper is a parameter: \<open>V\<close> is what the environment or the file \<^verbatim>\<open>.env\<close> say of a key, \<open>cast\<close> its conversion
  to an integer. The defaults are the code's.
\<close>

section \<open>The settings\<close>

record config =
  cf_port :: string
  cf_env :: string
  cf_database_url :: string
  cf_replica_database_url :: string
  cf_redis_url :: string
  cf_redis_sentinel_master_name :: string
  cf_redis_sentinel_addrs :: "string list"
  cf_redis_sentinel_password :: string
  cf_stellar_network :: string
  cf_stellar_horizon_url :: string
  cf_stellar_usdc_issuer :: string
  cf_stellar_eurc_issuer :: string
  cf_chain_backend :: string
  cf_xdcrpcurl :: string
  cf_xdc_chain_id :: int
  cf_xdc_treasury_secret_key :: string
  cf_master_encryption_key :: string
  cf_treasury_secret_key :: string
  cf_platform_fee_wallet_public_key :: string
  cf_cold_storage_address :: string
  cf_migrations_path :: string
  cf_alert_webhook_url :: string
  cf_platform_wallet_id :: string
  cf_flutterwave_secret_key :: string
  cf_flutterwave_webhook_hash :: string
  cf_fiat_rail :: string
  cf_stripe_secret_key :: string
  cf_stripe_webhook_secret :: string
  cf_stripe_success_url :: string
  cf_fiat_static_rates :: string
  cf_app_base_url :: string
  cf_balance_discrepancy_threshold :: string
  cf_jwt_secret :: string
  cf_cors_origins :: "string list"
  cf_fx_spread_bps :: int
  cf_soroban_rpcurl :: string
  cf_contract_wallet_wasm_hash :: string
  cf_contract_wallet_spending_limit :: string
  cf_contract_wallet_window_seconds :: int
  cf_contract_wallet_recovery_quota :: int
  cf_yellow_card_api_key :: string
  cf_yellow_card_webhook_key :: string
  cf_yellow_card_sandbox :: bool
  cf_compliance_enabled :: bool
  cf_ofacsdnurl :: string
  cf_compliance_structuring_unit :: string
  cf_compliance_velocity_max :: int
  cf_compliance_velocity_window_min :: int
  cf_compliance_round_trip_min :: int
  cf_compliance_fuzzy_threshold :: int
  cf_compliance_reload_minutes :: int
  cf_worker_enabled :: bool

definition published_secret :: string where
  "published_secret = ''fluxa-default-jwt-secret-key-change-in-production''"

definition config_defaults :: "(string \<times> string) list" where
  "config_defaults =
     [(''PORT'', ''3000''),
      (''ENV'', ''development''),
      (''STELLAR_NETWORK'', ''testnet''),
      (''STELLAR_HORIZON_URL'', ''https://horizon-testnet.stellar.org''),
      (''CHAIN_BACKEND'', ''stellar''),
      (''XDC_RPC_URL'', ''https://rpc.apothem.network''),
      (''XDC_CHAIN_ID'', ''51''),
      (''MIGRATIONS_PATH'', ''db/migrations''),
      (''FX_SPREAD_BPS'', ''50''),
      (''JWT_SECRET'', ''fluxa-default-jwt-secret-key-change-in-production''),
      (''SOROBAN_RPC_URL'', ''https://soroban-testnet.stellar.org''),
      (''CONTRACT_WALLET_SPENDING_LIMIT'', ''1000''),
      (''CONTRACT_WALLET_WINDOW_SECONDS'', ''86400''),
      (''CONTRACT_WALLET_RECOVERY_THRESHOLD'', ''2''),
      (''YELLOW_CARD_SANDBOX'', ''true''),
      (''COMPLIANCE_ENABLED'', ''true''),
      (''OFAC_SDN_URL'', ''https://sanctionslistservice.ofac.treas.gov/api/download/sdn.xml''),
      (''COMPLIANCE_STRUCTURING_UNIT'', ''1000''),
      (''COMPLIANCE_VELOCITY_MAX_TRANSFERS'', ''10''),
      (''COMPLIANCE_VELOCITY_WINDOW_MINUTES'', ''10''),
      (''COMPLIANCE_ROUND_TRIP_WINDOW_MINUTES'', ''60''),
      (''COMPLIANCE_FUZZY_THRESHOLD'', ''2''),
      (''COMPLIANCE_RELOAD_MINUTES'', ''15''),
      (''WORKER_ENABLED'', ''true'')]"

definition get_string :: "(string \<Rightarrow> string option) \<Rightarrow> string \<Rightarrow> string" where
  "get_string V k = (case V k of Some v \<Rightarrow> v | None \<Rightarrow> (case map_of config_defaults k of Some v \<Rightarrow> v | None \<Rightarrow> ''''))"

text \<open>\<^verbatim>\<open>strconv.ParseBool\<close> with its error ignored.\<close>

definition parse_flag :: "string \<Rightarrow> bool" where
  "parse_flag s \<longleftrightarrow> s \<in> {''1'', ''t'', ''T'', ''true'', ''TRUE'', ''True''}"

definition split_csv :: "unicode_tables \<Rightarrow> string \<Rightarrow> string list" where
  "split_csv U raw = filter (\<lambda>p. p \<noteq> '''') (map (trim_space U) (split_at (CHR '','') raw))"

definition parse_origins :: "unicode_tables \<Rightarrow> string \<Rightarrow> string list" where
  "parse_origins U raw =
     (if trim_space U raw = '''' then [''*'']
      else (let ps = filter (\<lambda>p. p \<noteq> '''') (map (trim_space U) (split_at (CHR '','') raw))
            in if ps = [] then [''*''] else ps))"

definition build_config ::
  "unicode_tables \<Rightarrow> (string \<Rightarrow> int) \<Rightarrow> (string \<Rightarrow> string option) \<Rightarrow> string \<Rightarrow> string list \<Rightarrow> config" where
  "build_config U cast V key origins =
     \<lparr>cf_port = get_string V ''PORT'',
      cf_env = get_string V ''ENV'',
      cf_database_url = get_string V ''DATABASE_URL'',
      cf_replica_database_url = get_string V ''REPLICA_DATABASE_URL'',
      cf_redis_url = get_string V ''REDIS_URL'',
      cf_redis_sentinel_master_name = get_string V ''REDIS_SENTINEL_MASTER_NAME'',
      cf_redis_sentinel_addrs = split_csv U (get_string V ''REDIS_SENTINEL_ADDRS''),
      cf_redis_sentinel_password = get_string V ''REDIS_SENTINEL_PASSWORD'',
      cf_stellar_network = get_string V ''STELLAR_NETWORK'',
      cf_stellar_horizon_url = get_string V ''STELLAR_HORIZON_URL'',
      cf_stellar_usdc_issuer = get_string V ''STELLAR_USDC_ISSUER'',
      cf_stellar_eurc_issuer = get_string V ''STELLAR_EURC_ISSUER'',
      cf_chain_backend = get_string V ''CHAIN_BACKEND'',
      cf_xdcrpcurl = get_string V ''XDC_RPC_URL'',
      cf_xdc_chain_id = cast (get_string V ''XDC_CHAIN_ID''),
      cf_xdc_treasury_secret_key = get_string V ''XDC_TREASURY_SECRET_KEY'',
      cf_master_encryption_key = key,
      cf_treasury_secret_key = get_string V ''TREASURY_SECRET_KEY'',
      cf_platform_fee_wallet_public_key = get_string V ''PLATFORM_FEE_WALLET_PUBLIC_KEY'',
      cf_cold_storage_address = get_string V ''COLD_STORAGE_ADDRESS'',
      cf_migrations_path = get_string V ''MIGRATIONS_PATH'',
      cf_alert_webhook_url = get_string V ''ALERT_WEBHOOK_URL'',
      cf_platform_wallet_id = get_string V ''PLATFORM_WALLET_ID'',
      cf_flutterwave_secret_key = get_string V ''FLUTTERWAVE_SECRET_KEY'',
      cf_flutterwave_webhook_hash = get_string V ''FLUTTERWAVE_WEBHOOK_HASH'',
      cf_fiat_rail = get_string V ''FIAT_RAIL'',
      cf_stripe_secret_key = get_string V ''STRIPE_SECRET_KEY'',
      cf_stripe_webhook_secret = get_string V ''STRIPE_WEBHOOK_SECRET'',
      cf_stripe_success_url = get_string V ''STRIPE_SUCCESS_URL'',
      cf_fiat_static_rates = get_string V ''FIAT_STATIC_RATES'',
      cf_app_base_url = get_string V ''APP_BASE_URL'',
      cf_balance_discrepancy_threshold = get_string V ''BALANCE_DISCREPANCY_THRESHOLD'',
      cf_jwt_secret = get_string V ''JWT_SECRET'',
      cf_cors_origins = origins,
      cf_fx_spread_bps = cast (get_string V ''FX_SPREAD_BPS''),
      cf_soroban_rpcurl = get_string V ''SOROBAN_RPC_URL'',
      cf_contract_wallet_wasm_hash = get_string V ''CONTRACT_WALLET_WASM_HASH'',
      cf_contract_wallet_spending_limit = get_string V ''CONTRACT_WALLET_SPENDING_LIMIT'',
      cf_contract_wallet_window_seconds = cast (get_string V ''CONTRACT_WALLET_WINDOW_SECONDS''),
      cf_contract_wallet_recovery_quota = cast (get_string V ''CONTRACT_WALLET_RECOVERY_THRESHOLD''),
      cf_yellow_card_api_key = get_string V ''YELLOW_CARD_API_KEY'',
      cf_yellow_card_webhook_key = get_string V ''YELLOW_CARD_WEBHOOK_KEY'',
      cf_yellow_card_sandbox = parse_flag (get_string V ''YELLOW_CARD_SANDBOX''),
      cf_compliance_enabled = parse_flag (get_string V ''COMPLIANCE_ENABLED''),
      cf_ofacsdnurl = get_string V ''OFAC_SDN_URL'',
      cf_compliance_structuring_unit = get_string V ''COMPLIANCE_STRUCTURING_UNIT'',
      cf_compliance_velocity_max = cast (get_string V ''COMPLIANCE_VELOCITY_MAX_TRANSFERS''),
      cf_compliance_velocity_window_min = cast (get_string V ''COMPLIANCE_VELOCITY_WINDOW_MINUTES''),
      cf_compliance_round_trip_min = cast (get_string V ''COMPLIANCE_ROUND_TRIP_WINDOW_MINUTES''),
      cf_compliance_fuzzy_threshold = cast (get_string V ''COMPLIANCE_FUZZY_THRESHOLD''),
      cf_compliance_reload_minutes = cast (get_string V ''COMPLIANCE_RELOAD_MINUTES''),
      cf_worker_enabled = parse_flag (get_string V ''WORKER_ENABLED'')\<rparr>"

definition required_settings :: "string list" where
  "required_settings = [''DATABASE_URL'', ''REDIS_URL'', ''MASTER_ENCRYPTION_KEY'']"

definition load_config ::
  "unicode_tables \<Rightarrow> (string \<Rightarrow> int) \<Rightarrow> (string \<Rightarrow> string option) \<Rightarrow> err + config" where
  "load_config U cast V =
     (case find (\<lambda>k. get_string V k = '''') required_settings of
        Some k \<Rightarrow> Inl (Opaque (''required env var '' @ k @ '' is not set''))
      | None \<Rightarrow> (case hex_decode (get_string V ''MASTER_ENCRYPTION_KEY'') of
          None \<Rightarrow> Inl (Wrap ''MASTER_ENCRYPTION_KEY must be a valid hex string'' (Opaque ''encoding/hex''))
        | Some key \<Rightarrow>
          if length key \<noteq> 32 then Inl (Opaque ''MASTER_ENCRYPTION_KEY must be 32 bytes'')
          else (let env = get_string V ''ENV''; secret = get_string V ''JWT_SECRET'';
                    origins = parse_origins U (get_string V ''CORS_ORIGINS'') in
            if env = ''production'' \<and> (secret = published_secret \<or> length secret < 32)
            then Inl (Opaque ''a secure, high-entropy JWT_SECRET must be explicitly configured in production'')
            else if env = ''production'' \<and> ''*'' \<in> set origins
            then Inl (Opaque ''CORS_ORIGINS must not contain a wildcard in production'')
            else Inr (build_config U cast V key origins))))"

section \<open>CORS\<close>

text \<open>What the middleware adds to an answer; a preflight request is answered by it.\<close>

record cors_answer =
  co_allow_origin :: "string option"
  co_vary_origin :: bool
  co_preflight :: bool

definition cors :: "string list \<Rightarrow> string \<Rightarrow> string \<Rightarrow> cors_answer" where
  "cors origins verb origin =
     (let hit = find (\<lambda>x. origin = x) origins in
      if origins = [] \<or> ''*'' \<in> set origins
      then \<lparr>co_allow_origin = Some ''*'', co_vary_origin = False, co_preflight = (verb = ''OPTIONS'')\<rparr>
      else \<lparr>co_allow_origin = hit, co_vary_origin = (hit \<noteq> None), co_preflight = (verb = ''OPTIONS'')\<rparr>)"

section \<open>What a loaded configuration is\<close>

lemma load_configD:
  assumes "load_config U cast V = Inr cfg"
  obtains key where "hex_decode (get_string V ''MASTER_ENCRYPTION_KEY'') = Some key" "length key = 32"
    "cfg = build_config U cast V key (parse_origins U (get_string V ''CORS_ORIGINS''))"
    "\<forall>k \<in> set required_settings. get_string V k \<noteq> ''''"
    "get_string V ''ENV'' = ''production'' \<Longrightarrow> get_string V ''JWT_SECRET'' \<noteq> published_secret
       \<and> 32 \<le> length (get_string V ''JWT_SECRET'') \<and> ''*'' \<notin> set (parse_origins U (get_string V ''CORS_ORIGINS''))"
  using assms
  by (auto simp: load_config_def Let_def find_None_iff split: option.splits if_splits)

lemma parse_origins_nonempty: "parse_origins U raw \<noteq> []" "x \<in> set (parse_origins U raw) \<Longrightarrow> x \<noteq> ''''"
  by (auto simp: parse_origins_def Let_def split: if_splits)

lemma cors_allow_listed:
  assumes "co_allow_origin (cors origins verb origin) = Some x" and "origins \<noteq> []" and "''*'' \<notin> set origins"
  shows "x = origin \<and> x \<in> set origins"
proof -
  have "find (\<lambda>x. origin = x) origins = Some x" using assms by (simp add: cors_def Let_def)
  then show ?thesis by (auto simp: find_Some_iff)
qed

text \<open>
  C37: The safeguards of production hold whenever the configuration loads with the environment
  \<^verbatim>\<open>production\<close>: the master key has 32 bytes, the secret of the tokens has at least 32 bytes and is not the
  published one, and the CORS middleware that runs on it names no origin but the one that asked, and
  that one only if it is on the allow list, which has no wildcard.
\<close>

theorem production_safeguards:
  assumes "load_config U cast V = Inr cfg" and "cf_env cfg = ''production''"
    and "co_allow_origin (cors (cf_cors_origins cfg) verb origin) = Some x"
  shows "length (cf_master_encryption_key cfg) = 32
    \<and> cf_jwt_secret cfg \<noteq> published_secret \<and> 32 \<le> length (cf_jwt_secret cfg)
    \<and> x = origin \<and> x \<in> set (cf_cors_origins cfg) \<and> x \<noteq> ''*''"
proof -
  obtain key where key: "length key = 32" and cfg: "cfg = build_config U cast V key (parse_origins U (get_string V ''CORS_ORIGINS''))"
    and prod: "get_string V ''ENV'' = ''production'' \<Longrightarrow> get_string V ''JWT_SECRET'' \<noteq> published_secret
       \<and> 32 \<le> length (get_string V ''JWT_SECRET'') \<and> ''*'' \<notin> set (parse_origins U (get_string V ''CORS_ORIGINS''))"
    by (rule load_configD [OF assms(1)]) blast
  have fields: "cf_env cfg = get_string V ''ENV''" "cf_jwt_secret cfg = get_string V ''JWT_SECRET''"
      "cf_master_encryption_key cfg = key" "cf_cors_origins cfg = parse_origins U (get_string V ''CORS_ORIGINS'')"
    by (simp_all add: cfg build_config_def)
  have safe: "''*'' \<notin> set (cf_cors_origins cfg)" "cf_cors_origins cfg \<noteq> []"
    using prod assms(2) fields parse_origins_nonempty(1) by simp_all
  from cors_allow_listed [OF assms(3) safe(2,1)] safe(1) prod assms(2) fields key show ?thesis by auto
qed
section \<open>Samples\<close>

definition base_settings :: "string \<rightharpoonup> string" where
  "base_settings = [''DATABASE_URL'' \<mapsto> ''db'', ''REDIS_URL'' \<mapsto> ''redis'', ''MASTER_ENCRYPTION_KEY'' \<mapsto> replicate 64 (CHR ''a'')]"

definition sample_settings :: "string \<rightharpoonup> string" where
  "sample_settings = base_settings(''ENV'' \<mapsto> ''production'', ''JWT_SECRET'' \<mapsto> replicate 40 (CHR ''s''), ''CORS_ORIGINS'' \<mapsto> ''a, b'')"

lemma sample_key: "hex_decode (replicate 64 (CHR ''a'')) = Some (replicate 32 (char_of (170 :: nat)))"
  by code_simp

lemma sample_origins: "parse_origins ascii_tables ''a, b'' = [''a'', ''b'']"
  by code_simp

definition sample_loaded_config :: config where
  "sample_loaded_config = build_config ascii_tables (\<lambda>s. 0) sample_settings (replicate 32 (char_of (170 :: nat))) [''a'', ''b'']"

lemma sample_settings_load: "load_config ascii_tables (\<lambda>s. 0) sample_settings = Inr sample_loaded_config"
proof -
  have get: "get_string sample_settings ''ENV'' = ''production''" "get_string sample_settings ''JWT_SECRET'' = replicate 40 (CHR ''s'')"
    "get_string sample_settings ''CORS_ORIGINS'' = ''a, b''" "get_string sample_settings ''DATABASE_URL'' = ''db''"
    "get_string sample_settings ''REDIS_URL'' = ''redis''" "get_string sample_settings ''MASTER_ENCRYPTION_KEY'' = replicate 64 (CHR ''a'')"
    by (simp_all add: get_string_def sample_settings_def base_settings_def)
  have long: "replicate 40 (CHR ''s'') \<noteq> published_secret" "replicate 64 (CHR ''a'') \<noteq> ''''"
    by (simp_all add: published_secret_def numeral_eq_Suc)
  show ?thesis
    unfolding load_config_def required_settings_def find.simps get sample_key sample_origins
    using long by (simp add: Let_def sample_loaded_config_def)
qed

theorem production_safeguards_witness:
  "length (cf_master_encryption_key sample_loaded_config) = 32
    \<and> cf_jwt_secret sample_loaded_config \<noteq> published_secret \<and> 32 \<le> length (cf_jwt_secret sample_loaded_config)
    \<and> ''b'' = ''b'' \<and> ''b'' \<in> set (cf_cors_origins sample_loaded_config) \<and> ''b'' \<noteq> ''*''"
proof (rule production_safeguards [OF sample_settings_load])
  show "cf_env sample_loaded_config = ''production''"
    by (simp add: sample_loaded_config_def build_config_def get_string_def sample_settings_def)
  show "co_allow_origin (cors (cf_cors_origins sample_loaded_config) ''GET'' ''b'') = Some ''b''"
    by (simp add: sample_loaded_config_def build_config_def cors_def)
qed

text \<open>
  Outside the environment that is named exactly \<^verbatim>\<open>production\<close>, which is what an unset one is, a
  deployment that sets neither the secret of the tokens nor the origins starts: it signs its tokens
  with the secret that is published in the sources, and every origin is allowed.
\<close>

theorem unset_environment_is_open:
  assumes "V ''ENV'' = None" and "V ''JWT_SECRET'' = None" and "V ''CORS_ORIGINS'' = None"
    and "\<forall>k \<in> set required_settings. get_string V k \<noteq> ''''"
    and "hex_decode (get_string V ''MASTER_ENCRYPTION_KEY'') = Some key" and "length key = 32"
  shows "\<exists>cfg. load_config U cast V = Inr cfg \<and> cf_jwt_secret cfg = published_secret
    \<and> (\<forall>verb origin. co_allow_origin (cors (cf_cors_origins cfg) verb origin) = Some ''*'')"
proof -
  have get: "get_string V ''ENV'' = ''development''" "get_string V ''JWT_SECRET'' = published_secret" "get_string V ''CORS_ORIGINS'' = ''''"
    using assms(1-3) by (simp_all add: get_string_def config_defaults_def published_secret_def)
  have trim: "trim_space U '''' = ''''" by (simp add: trim_space_def trim_runes_def string_of_runes_def runes_def)
  have "find (\<lambda>k. get_string V k = '''') required_settings = None" using assms(4) by (simp add: find_None_iff)
  then show ?thesis
    using assms(5,6) by (simp add: load_config_def get build_config_def parse_origins_def trim cors_def Let_def)
qed

theorem unset_environment_is_open_witness:
  "\<exists>cfg. load_config ascii_tables (\<lambda>s. 0) base_settings = Inr cfg \<and> cf_jwt_secret cfg = published_secret
    \<and> (\<forall>verb origin. co_allow_origin (cors (cf_cors_origins cfg) verb origin) = Some ''*'')"
proof (rule unset_environment_is_open)
  have key: "get_string base_settings ''MASTER_ENCRYPTION_KEY'' = replicate 64 (CHR ''a'')"
    by (simp add: get_string_def base_settings_def)
  show "hex_decode (get_string base_settings ''MASTER_ENCRYPTION_KEY'') = Some (replicate 32 (char_of (170 :: nat)))"
    unfolding key by (rule sample_key)
  show "\<forall>k \<in> set required_settings. get_string base_settings k \<noteq> ''''"
    by (simp add: required_settings_def get_string_def base_settings_def numeral_eq_Suc)
qed (simp_all add: base_settings_def)

end
