(* ===== verification/Replica.thy ===== *)
theory Replica
  imports Assets Domain "HOL-Library.Word" "HOL-Library.Sublist"
begin

text \<open>
  \<^verbatim>\<open>internal/postgres/replica.go\<close>: the handle that sends reads to a replica and everything else to the primary.
  The two pools are parameters: \<open>X\<close> is what a call does to the data of the primary, and the replica answers
  a read from what it has, which is not assumed to be current. What the pools are sent is kept, to count it.
\<close>

section \<open>The handle\<close>

datatype pool_call = CallExec string | CallQuery string | CallQueryRow string | CallBegin

text \<open>
  How a call goes: it returns what was asked for, it returns an error, or it returns rows without an error and the
  error comes when they are read to the end (\<^verbatim>\<open>rows.Err()\<close>). The row of \<^verbatim>\<open>QueryRow\<close> reports every error at its scan.
\<close>

datatype 'r answer = Returned 'r | Failed err | FailsLater err

type_synonym ('d, 'r) pool = "pool_call \<Rightarrow> 'd \<Rightarrow> 'r answer \<times> 'd"
type_synonym ('d, 'r) reader = "pool_call \<Rightarrow> 'd \<Rightarrow> 'r answer"

record 'd routed_db =
  rd_data :: 'd
  rd_primary :: "pool_call list"
  rd_replica :: "pool_call list"
  rd_fallbacks :: "64 word"

definition new_routed_db :: "'d \<Rightarrow> 'd routed_db" where
  "new_routed_db d = \<lparr>rd_data = d, rd_primary = [], rd_replica = [], rd_fallbacks = 0\<rparr>"

definition is_read :: "unicode_tables \<Rightarrow> string \<Rightarrow> bool" where
  "is_read U sql =
     (let s = trim_space U (to_upper U sql)
      in prefix ''SELECT'' s \<or> prefix ''WITH'' s \<or> prefix ''SHOW'' s \<or> prefix ''EXPLAIN'' s)"

definition primary_call :: "('d, 'r) pool \<Rightarrow> pool_call \<Rightarrow> 'd routed_db \<Rightarrow> 'r answer \<times> 'd routed_db" where
  "primary_call X c s = (case X c (rd_data s) of (r, d) \<Rightarrow> (r, s\<lparr>rd_data := d, rd_primary := rd_primary s @ [c]\<rparr>))"

definition replica_call :: "('d, 'r) reader \<Rightarrow> pool_call \<Rightarrow> 'd routed_db \<Rightarrow> 'r answer \<times> 'd routed_db" where
  "replica_call R c s = (R c (rd_data s), s\<lparr>rd_replica := rd_replica s @ [c]\<rparr>)"

definition record_fallback :: "'d routed_db \<Rightarrow> 'd routed_db" where
  "record_fallback s = s\<lparr>rd_fallbacks := rd_fallbacks s + 1\<rparr>"

definition db_exec :: "('d, 'r) pool \<Rightarrow> string \<Rightarrow> 'd routed_db \<Rightarrow> 'r answer \<times> 'd routed_db" where
  "db_exec X sql s = primary_call X (CallExec sql) s"

definition db_begin :: "('d, 'r) pool \<Rightarrow> 'd routed_db \<Rightarrow> 'r answer \<times> 'd routed_db" where
  "db_begin X s = primary_call X CallBegin s"

definition db_query ::
  "unicode_tables \<Rightarrow> ('d, 'r) pool \<Rightarrow> ('d, 'r) reader option \<Rightarrow> string \<Rightarrow> 'd routed_db \<Rightarrow> 'r answer \<times> 'd routed_db" where
  "db_query U X rep sql s =
     (case rep of None \<Rightarrow> primary_call X (CallQuery sql) s
      | Some R \<Rightarrow>
        if is_read U sql
        then (case replica_call R (CallQuery sql) s of
            (Failed e, s1) \<Rightarrow> primary_call X (CallQuery sql) (record_fallback s1)
          | (rows, s1) \<Rightarrow> (rows, s1))
        else primary_call X (CallQuery sql) s)"

text \<open>A row: of the primary, or of the replica with the primary behind it, which is asked when the row is scanned.\<close>

datatype 'r pg_row = PrimaryRow "'r answer" | FallbackRow string "'r answer"

definition db_query_row ::
  "unicode_tables \<Rightarrow> ('d, 'r) pool \<Rightarrow> ('d, 'r) reader option \<Rightarrow> string \<Rightarrow> 'd routed_db \<Rightarrow> 'r pg_row \<times> 'd routed_db" where
  "db_query_row U X rep sql s =
     (let direct = (case primary_call X (CallQueryRow sql) s of (r, s1) \<Rightarrow> (PrimaryRow r, s1)) in
      case rep of None \<Rightarrow> direct
      | Some R \<Rightarrow> if \<not> is_read U sql then direct
          else (case replica_call R (CallQueryRow sql) s of (r, s1) \<Rightarrow> (FallbackRow sql r, s1)))"

definition scan_row :: "('d, 'r) pool \<Rightarrow> 'r pg_row \<Rightarrow> 'd routed_db \<Rightarrow> 'r answer \<times> 'd routed_db" where
  "scan_row X row s =
     (case row of PrimaryRow r \<Rightarrow> (r, s)
      | FallbackRow sql (Returned r) \<Rightarrow> (Returned r, s)
      | FallbackRow sql _ \<Rightarrow> primary_call X (CallQueryRow sql) (record_fallback s))"

definition replica_available :: "(unit \<Rightarrow> err option) option \<Rightarrow> err option" where
  "replica_available ping = (case ping of None \<Rightarrow> None | Some p \<Rightarrow> p ())"

section \<open>Runs\<close>

text \<open>A repository calls one of the methods, and scans each row it asks for.\<close>

definition db_call ::
  "unicode_tables \<Rightarrow> ('d, 'r) pool \<Rightarrow> ('d, 'r) reader option \<Rightarrow> pool_call \<Rightarrow> 'd routed_db \<Rightarrow> 'r answer \<times> 'd routed_db" where
  "db_call U X rep c s =
     (case c of CallExec sql \<Rightarrow> db_exec X sql s
      | CallQuery sql \<Rightarrow> db_query U X rep sql s
      | CallQueryRow sql \<Rightarrow> (case db_query_row U X rep sql s of (row, s1) \<Rightarrow> scan_row X row s1)
      | CallBegin \<Rightarrow> db_begin X s)"

text \<open>Each call comes with what the replica knows at that time.\<close>

fun db_run ::
  "unicode_tables \<Rightarrow> ('d, 'r) pool \<Rightarrow> (pool_call \<times> ('d, 'r) reader option) list \<Rightarrow> 'd routed_db \<Rightarrow> 'r answer list \<times> 'd routed_db" where
  "db_run U X [] s = ([], s)"
| "db_run U X ((c, rep) # cs) s =
     (case db_call U X rep c s of (r, s1) \<Rightarrow> (case db_run U X cs s1 of (rs, s2) \<Rightarrow> (r # rs, s2)))"

text \<open>The reference: a deployment with the primary alone.\<close>

fun primary_run :: "('d, 'r) pool \<Rightarrow> pool_call list \<Rightarrow> 'd \<Rightarrow> 'r answer list \<times> 'd" where
  "primary_run X [] d = ([], d)"
| "primary_run X (c # cs) d = (case X c d of (r, d1) \<Rightarrow> (case primary_run X cs d1 of (rs, d2) \<Rightarrow> (r # rs, d2)))"

text \<open>A call that may be answered by the replica.\<close>

definition routed :: "unicode_tables \<Rightarrow> pool_call \<Rightarrow> bool" where
  "routed U c \<longleftrightarrow> (case c of CallQuery sql \<Rightarrow> is_read U sql | CallQueryRow sql \<Rightarrow> is_read U sql | _ \<Rightarrow> False)"

text \<open>A query whose rows fail on the replica once they are read: the handle has given them out by then.\<close>

definition late :: "('d, 'r) reader \<Rightarrow> pool_call \<Rightarrow> 'd \<Rightarrow> bool" where
  "late R c d \<longleftrightarrow> (\<exists>sql e. c = CallQuery sql \<and> R c d = FailsLater e)"

text \<open>One call in two cases.\<close>

lemma db_call_primary: "rep = None \<or> \<not> routed U c \<Longrightarrow> db_call U X rep c s = primary_call X c s"
  by (auto simp: db_call_def routed_def db_exec_def db_begin_def db_query_def db_query_row_def scan_row_def Let_def
      split: pool_call.splits option.splits prod.splits)

lemma db_call_routed:
  assumes "routed U c"
  shows "db_call U X (Some R) c s =
     (if late R c (rd_data s) \<or> (\<exists>r. R c (rd_data s) = Returned r)
      then (R c (rd_data s), s\<lparr>rd_replica := rd_replica s @ [c]\<rparr>)
      else primary_call X c (record_fallback (s\<lparr>rd_replica := rd_replica s @ [c]\<rparr>)))"
  using assms
  by (auto simp: db_call_def routed_def db_query_def db_query_row_def scan_row_def replica_call_def Let_def
      late_def split: pool_call.splits answer.splits prod.splits)

lemma primary_call_simps:
  "fst (primary_call X c s) = fst (X c (rd_data s))"
  "rd_data (snd (primary_call X c s)) = snd (X c (rd_data s))"
  "rd_primary (snd (primary_call X c s)) = rd_primary s @ [c]"
  "rd_replica (snd (primary_call X c s)) = rd_replica s"
  "rd_fallbacks (snd (primary_call X c s)) = rd_fallbacks s"
  by (simp_all add: primary_call_def split: prod.splits)

lemma db_run_Cons:
  "fst (db_run U X ((c, rep) # cs) s) = fst (db_call U X rep c s) # fst (db_run U X cs (snd (db_call U X rep c s)))"
  "snd (db_run U X ((c, rep) # cs) s) = snd (db_run U X cs (snd (db_call U X rep c s)))"
  by (simp_all split: prod.splits)

lemma primary_run_Cons:
  "fst (primary_run X (c # cs) d) = fst (X c d) # fst (primary_run X cs (snd (X c d)))"
  "snd (primary_run X (c # cs) d) = snd (primary_run X cs (snd (X c d)))"
  by (simp_all split: prod.splits)

section \<open>The replica does not show\<close>

text \<open>
  The replica is current: what it returns, the primary would return without a change to its data; and a query whose
  rows fail late on the replica would not have changed the data of the primary either.
\<close>

definition replica_current :: "unicode_tables \<Rightarrow> ('d, 'r) pool \<Rightarrow> pool_call \<times> ('d, 'r) reader option \<Rightarrow> bool" where
  "replica_current U X p \<longleftrightarrow>
     (\<forall>R d. snd p = Some R \<and> routed U (fst p) \<longrightarrow>
        (\<forall>r. R (fst p) d = Returned r \<longrightarrow> X (fst p) d = (Returned r, d)) \<and> (late R (fst p) d \<longrightarrow> snd (X (fst p) d) = d))"

text \<open>The answer \<open>a\<close> to a call, where the primary would have given \<open>b\<close>: the same, or the late error of a query's rows.\<close>

definition answered_as :: "unicode_tables \<Rightarrow> pool_call \<times> ('d, 'r) reader option \<Rightarrow> 'r answer \<Rightarrow> 'r answer \<Rightarrow> bool" where
  "answered_as U p a b \<longleftrightarrow> a = b \<or>
     (\<exists>sql R d e. p = (CallQuery sql, Some R) \<and> is_read U sql \<and> R (CallQuery sql) d = FailsLater e \<and> a = FailsLater e)"

lemma db_call_current:
  assumes "replica_current U X (c, rep)"
  shows "answered_as U (c, rep) (fst (db_call U X rep c s)) (fst (X c (rd_data s)))
    \<and> rd_data (snd (db_call U X rep c s)) = snd (X c (rd_data s))"
proof (cases "rep = None \<or> \<not> routed U c")
  case True
  then show ?thesis by (simp add: db_call_primary primary_call_simps answered_as_def)
next
  case False
  then obtain R where R: "rep = Some R" "routed U c" by auto
  show ?thesis
  proof (cases "late R c (rd_data s)")
    case True
    then obtain sql e where c: "c = CallQuery sql" "R c (rd_data s) = FailsLater e" by (auto simp: late_def)
    with R True assms show ?thesis by (auto simp: db_call_routed replica_current_def answered_as_def routed_def)
  next
    case False
    with R assms show ?thesis
      by (cases "R c (rd_data s)")
         (auto simp: db_call_routed replica_current_def primary_call_simps record_fallback_def answered_as_def)
  qed
qed

text \<open>
  C36: while the replica is current, a run of calls over the handle leaves the data that the primary alone would have
  left, and answers every call as the primary would, however often the replica fails, with one exception: a query
  whose rows the replica gave out without an error and then could not read to the end keeps the error of the replica.
\<close>

theorem replica_is_transparent:
  assumes "\<forall>p \<in> set cs. replica_current U X p"
  shows "rd_data (snd (db_run U X cs s)) = snd (primary_run X (map fst cs) (rd_data s))
    \<and> length (fst (db_run U X cs s)) = length cs
    \<and> (\<forall>i < length cs. answered_as U (cs ! i) (fst (db_run U X cs s) ! i) (fst (primary_run X (map fst cs) (rd_data s)) ! i))"
  using assms
proof (induction cs arbitrary: s)
  case (Cons p cs)
  obtain c rep where p: "p = (c, rep)" by (cases p)
  from db_call_current [of U X c rep s] Cons.prems have one:
    "answered_as U p (fst (db_call U X rep c s)) (fst (X c (rd_data s)))"
    "rd_data (snd (db_call U X rep c s)) = snd (X c (rd_data s))" by (auto simp: p)
  have more: "\<forall>q \<in> set cs. replica_current U X q" using Cons.prems by simp
  show ?case
    using Cons.IH [OF more, of "snd (db_call U X rep c s)"] one
    by (auto simp: p db_run_Cons primary_run_Cons nth_Cons' less_Suc_eq_0_disj simp del: db_run.simps primary_run.simps)
qed simp

text \<open>A database with one number: an update writes it, a read returns it. The last read fails while its rows are read.\<close>

definition sample_pool :: "(int, int) pool" where
  "sample_pool c d = (case c of CallExec sql \<Rightarrow> (Returned 0, d + 1) | _ \<Rightarrow> (Returned d, d))"

definition sample_calls :: "(pool_call \<times> (int, int) reader option) list" where
  "sample_calls = [(CallExec ''UPDATE t'', Some (\<lambda>c d. Returned d)), (CallQueryRow ''SELECT 1'', Some (\<lambda>c d. Failed (Opaque ''down''))),
     (CallQuery ''SELECT 1'', Some (\<lambda>c d. Returned d)), (CallQuery ''SELECT 1'', Some (\<lambda>c d. FailsLater (Opaque ''reset'')))]"

theorem replica_is_transparent_witness:
  "fst (db_run ascii_tables sample_pool sample_calls (new_routed_db 4)) = [Returned 0, Returned 5, Returned 5, FailsLater (Opaque ''reset'')]
    \<and> rd_data (snd (db_run ascii_tables sample_pool sample_calls (new_routed_db 4)))
        = snd (primary_run sample_pool (map fst sample_calls) (rd_data (new_routed_db 4)))"
proof
  show "fst (db_run ascii_tables sample_pool sample_calls (new_routed_db 4))
      = [Returned 0, Returned 5, Returned 5, FailsLater (Opaque ''reset'')]" by code_simp
  have "\<forall>p \<in> set sample_calls. replica_current ascii_tables sample_pool p"
    by (auto simp: sample_calls_def replica_current_def sample_pool_def routed_def late_def)
  from replica_is_transparent [OF this, of "new_routed_db 4"]
  show "rd_data (snd (db_run ascii_tables sample_pool sample_calls (new_routed_db 4)))
        = snd (primary_run sample_pool (map fst sample_calls) (rd_data (new_routed_db 4)))" by blast
qed

text \<open>The exception is real: a read that fails late is not repeated on the primary, and no fallback is counted.\<close>

lemma late_failure_stays:
  assumes "is_read U sql" and "R (CallQuery sql) (rd_data s) = FailsLater e"
  shows "fst (db_call U X (Some R) (CallQuery sql) s) = FailsLater e
    \<and> rd_primary (snd (db_call U X (Some R) (CallQuery sql) s)) = rd_primary s
    \<and> rd_fallbacks (snd (db_call U X (Some R) (CallQuery sql) s)) = rd_fallbacks s"
  using assms by (simp add: db_call_routed routed_def late_def)

section \<open>What the pools are sent\<close>

definition sent_ok :: "unicode_tables \<Rightarrow> nat \<Rightarrow> nat \<Rightarrow> 'd routed_db \<Rightarrow> bool" where
  "sent_ok U n k s \<longleftrightarrow> length (rd_replica s) = n \<and> (\<forall>c \<in> set (rd_replica s). routed U c)
     \<and> word_of_nat (length (rd_primary s)) = word_of_nat k + rd_fallbacks s"

lemma db_call_sent:
  assumes "sent_ok U n k s"
  shows "if rep \<noteq> None \<and> routed U c then sent_ok U (Suc n) k (snd (db_call U X rep c s))
         else sent_ok U n (Suc k) (snd (db_call U X rep c s))"
proof (cases "rep = None \<or> \<not> routed U c")
  case True
  then have "sent_ok U n (Suc k) (snd (db_call U X rep c s))"
    using assms by (simp add: db_call_primary sent_ok_def primary_call_simps)
  with True show ?thesis by auto
next
  case False
  then obtain R where R: "rep = Some R" "routed U c" by auto
  then have "sent_ok U (Suc n) k (snd (db_call U X rep c s))"
    using assms by (simp add: db_call_routed sent_ok_def primary_call_simps record_fallback_def)
  with False show ?thesis by simp
qed

lemma db_run_sent:
  "sent_ok U n k s \<Longrightarrow> sent_ok U (n + length (filter (\<lambda>(c, rep). rep \<noteq> None \<and> routed U c) cs))
     (k + length (filter (\<lambda>(c, rep). \<not> (rep \<noteq> None \<and> routed U c)) cs)) (snd (db_run U X cs s))"
proof (induction cs arbitrary: s n k)
  case (Cons p cs)
  obtain c rep where p: "p = (c, rep)" by (cases p)
  have step: "snd (db_run U X (p # cs) s) = snd (db_run U X cs (snd (db_call U X rep c s)))"
    by (simp add: p db_run_Cons del: db_run.simps)
  show ?case
  proof (cases "rep \<noteq> None \<and> routed U c")
    case True
    with db_call_sent [OF Cons.prems, of rep c X] have "sent_ok U (Suc n) k (snd (db_call U X rep c s))" by simp
    from Cons.IH [OF this] True show ?thesis unfolding step by (auto simp: p)
  next
    case False
    with db_call_sent [OF Cons.prems, of rep c X] have "sent_ok U n (Suc k) (snd (db_call U X rep c s))" by presburger
    from Cons.IH [OF this] False show ?thesis unfolding step by (auto simp: p)
  qed
qed simp

text \<open>
  Over a run of calls, the replica is sent exactly the reads that had one, and nothing but statements
  that begin like a read; the primary is sent every other call and one call for each fallback that was
  counted, so a read that the replica answers costs the primary nothing. The counter wraps at 64 bits.
\<close>

theorem pools_share_the_calls:
  "let s = snd (db_run U X cs (new_routed_db d)) in
     length (rd_replica s) = length (filter (\<lambda>(c, rep). rep \<noteq> None \<and> routed U c) cs)
     \<and> list_all (routed U) (rd_replica s)
     \<and> word_of_nat (length (rd_primary s))
         = word_of_nat (length (filter (\<lambda>(c, rep). \<not> (rep \<noteq> None \<and> routed U c)) cs)) + rd_fallbacks s"
  using db_run_sent [of U 0 0 "new_routed_db d" cs X]
  by (simp add: sent_ok_def new_routed_db_def list_all_iff)

text \<open>
  A read of one row that finds none is an error of the scan: the handle takes it for a failure of the
  replica, counts a fallback and asks the primary again, whatever the error is.
\<close>

theorem miss_counts_as_fallback:
  assumes "is_read U sql" and "R (CallQueryRow sql) (rd_data s) = Failed e"
  shows "rd_fallbacks (snd (db_call U X (Some R) (CallQueryRow sql) s)) = rd_fallbacks s + 1
    \<and> rd_primary (snd (db_call U X (Some R) (CallQueryRow sql) s)) = rd_primary s @ [CallQueryRow sql]"
  using assms by (simp add: db_call_routed routed_def late_def primary_call_simps record_fallback_def)

theorem miss_counts_as_fallback_witness:
  "rd_fallbacks (snd (db_call ascii_tables sample_pool (Some (\<lambda>c d. Failed (Opaque ''no rows''))) (CallQueryRow ''SELECT 1'') (new_routed_db 4)))
      = rd_fallbacks (new_routed_db (4 :: int)) + 1
    \<and> rd_primary (snd (db_call ascii_tables sample_pool (Some (\<lambda>c d. Failed (Opaque ''no rows''))) (CallQueryRow ''SELECT 1'') (new_routed_db 4)))
      = rd_primary (new_routed_db (4 :: int)) @ [CallQueryRow ''SELECT 1'']"
proof (rule miss_counts_as_fallback)
  show "is_read ascii_tables ''SELECT 1''" by code_simp
qed simp

end
