(* ===== verification/Spec2Isabelle.thy ===== *)
theory Spec2Isabelle
  imports Xdc_Settlement Refresh Batches Lifecycle Schedules Webhooks Fx Idempotency Treasury Gateway Contracts Rails
    Anchors Routing Indexer Rate_Limits Spot_Rates Status Config Replica
begin

text \<open>
  A model of FlowX, the payment backend in \<^verbatim>\<open>src/internal\<close> and \<^verbatim>\<open>src/cmd\<close>, and of the wallet contract in
  \<^verbatim>\<open>src/contracts/soroban\<close>. Tenants own wallets on Stellar and on the XDC network; transfers between wallets, or to
  an address, are screened, priced, enqueued, settled on a network by workers, and reconciled with it afterwards.
  Around that there are batches, schedules, webhooks, currency exchange, fiat ramps, anchors, routing over several
  payment routes, the treasury that collects fees, and the accounts of the users.

  \<^bold>\<open>How the parts interact.\<close> A request passes the gate (authentication, role) and reaches a handler. Transfers enter
  by \<^verbatim>\<open>transfer.Service\<close>, also from batches, schedules and fiat ramps; it asks the composite screener and the fee
  service, inserts the row, and enqueues it or puts it on hold for a review. Workers take ids from the queue, claim
  the row, send to the network and write the outcome; the reconciler settles what workers left unfinished. The
  database and the networks are the shared state: all of it that several components use is the record \<open>world\<close> of
  \<^theory_text>\<open>Store\<close>, and what only one component uses is a record of its own (\<open>fx_state\<close>, \<open>treasury_state\<close>,
  \<open>accounts\<close>, \<open>fiat_state\<close>, \<open>anchor_db\<close>), passed along with it.

  \<^bold>\<open>Theories and code.\<close> The order is the one of the imports.
  \<^item> \<^theory_text>\<open>Prelude\<close>: errors as values (\<^verbatim>\<open>errors.Is\<close>, \<^verbatim>\<open>fmt.Errorf\<close>), updates of rows by a condition.
    \<^theory_text>\<open>Go_Time\<close>: the calendar of Go's \<^verbatim>\<open>time\<close>. \<^theory_text>\<open>Domain\<close>: \<^verbatim>\<open>internal/domain\<close>. \<^theory_text>\<open>Utf8\<close>: runes and trimming.
  \<^item> \<^theory_text>\<open>Store\<close>, \<^theory_text>\<open>Store_Laws\<close>: the repositories of transactions, wallets, balances and tenants in
    \<^verbatim>\<open>internal/postgres\<close>, a statement or a database transaction at a time. \<^theory_text>\<open>One_Shot\<close>: the locales \<open>one_shot\<close> and
    \<open>contested\<close>, the contract of a conditional update that one of many callers wins.
  \<^item> \<^theory_text>\<open>Fees\<close>: \<^verbatim>\<open>internal/fees\<close>. \<^theory_text>\<open>Levenshtein\<close>, \<^theory_text>\<open>Sanctions\<close>, \<^theory_text>\<open>Screening\<close>, \<^theory_text>\<open>Refresh\<close>, \<^theory_text>\<open>Compliance\<close>:
    \<^verbatim>\<open>internal/compliance\<close>; the locale \<open>screener\<close> is its interface.
  \<^item> \<^theory_text>\<open>Transfers\<close>: \<^verbatim>\<open>internal/transfer\<close>. \<^theory_text>\<open>Stellar\<close>, \<^theory_text>\<open>Settlement\<close>, \<^theory_text>\<open>Xdc\<close>, \<^theory_text>\<open>Xdc_Settlement\<close>: the two
    settlement engines in \<^verbatim>\<open>internal/settlement\<close> and the chain clients; \<^theory_text>\<open>Submitter\<close> is their common contract.
    \<^theory_text>\<open>Reconcile\<close>: \<^verbatim>\<open>internal/reconcile\<close>.
  \<^item> \<^theory_text>\<open>Moves\<close>, \<^theory_text>\<open>Lifecycle\<close>: no code of their own; how every operation may move the status of a transfer, and all
    of them interleaved as the step relation \<open>life_step\<close>.
  \<^item> \<^theory_text>\<open>Batches\<close>, \<^theory_text>\<open>Schedules\<close>, \<^theory_text>\<open>Assets\<close>: \<^verbatim>\<open>internal/batch\<close>, \<^verbatim>\<open>schedule\<close>, \<^verbatim>\<open>assets\<close>. \<^theory_text>\<open>Net_Addr\<close>,
    \<^theory_text>\<open>Signature\<close>, \<^theory_text>\<open>Webhooks\<close>: \<^verbatim>\<open>internal/webhook\<close>. \<^theory_text>\<open>Idempotency\<close>: \<^verbatim>\<open>internal/server/idempotency\<close>.
    \<^theory_text>\<open>Fx\<close>, \<^theory_text>\<open>Spot_Rates\<close>: \<^verbatim>\<open>internal/fx\<close> and its providers. \<^theory_text>\<open>Treasury\<close>: \<^verbatim>\<open>internal/treasury\<close>.
  \<^item> \<^theory_text>\<open>Codecs\<close>, \<^theory_text>\<open>Accounts\<close>: \<^verbatim>\<open>internal/auth\<close>, \<^verbatim>\<open>org\<close>, \<^verbatim>\<open>apikey\<close>. \<^theory_text>\<open>Gateway\<close>, \<^theory_text>\<open>Rate_Limits\<close>: the
    middleware of \<^verbatim>\<open>internal/server\<close>, the rate limiters, the mapping of errors to status codes.
  \<^item> \<^theory_text>\<open>Vault\<close>, \<^theory_text>\<open>Wallets\<close>: \<^verbatim>\<open>internal/crypto\<close>, \<^verbatim>\<open>wallet/service.go\<close>, \<^verbatim>\<open>wallet/xdc_service.go\<close>. \<^theory_text>\<open>Scval\<close>,
    \<^theory_text>\<open>Smart_Wallet\<close>, \<^theory_text>\<open>Contracts\<close>: the wallet contract and the services that deploy and call it. \<^theory_text>\<open>Indexer\<close>:
    \<^verbatim>\<open>internal/indexer\<close>.
  \<^item> \<^theory_text>\<open>Fiat\<close>, \<^theory_text>\<open>Rails\<close>: \<^verbatim>\<open>internal/fiat\<close> and its providers. \<^theory_text>\<open>Anchors\<close>: \<^verbatim>\<open>internal/anchor\<close>,
    \<^verbatim>\<open>fiat/anchor_service.go\<close>. \<^theory_text>\<open>Routing\<close>: \<^verbatim>\<open>internal/routing\<close> and two routes of \<^verbatim>\<open>internal/fiat\<close>.
  \<^item> \<^theory_text>\<open>Timed_Cache\<close>: the locale of a value that is kept for a time, interpreted by the prices of \<^theory_text>\<open>Spot_Rates\<close> and the
    health reports. \<^theory_text>\<open>Status\<close>: \<^verbatim>\<open>internal/health\<close>, \<^verbatim>\<open>server/health.go\<close>, \<^verbatim>\<open>server/metrics.go\<close>. \<^theory_text>\<open>Config\<close>: \<^verbatim>\<open>internal/config\<close>
    and the CORS middleware. \<^theory_text>\<open>Replica\<close>: \<^verbatim>\<open>postgres/replica.go\<close>.
  \<^item> This theory: a request that crosses the gate, the accounts and the treasury.

  \<^bold>\<open>What the lemmas show.\<close> For each component the lemmas first describe each operation by cases (an \<open>obtains\<close> rule
  with a case for each outcome, errors included), then what it leaves unchanged, then an invariant of its state
  and that every operation keeps it. On these rest the properties: a payment is settled, converted, credited,
  delivered or ordered at most once, whatever runs at once; fees, limits and reserves are kept; what is blocked or
  on hold is not paid; an optimised or stored form equals its specification; and what the code does where it
  deviates from its own documentation. The wallet contract refines an abstract budget, the handle with a read
  replica refines the primary alone but for errors that come late, and the loop of the indexer amounts to reading the ledger in one go.

  \<^bold>\<open>Conventions.\<close>
  \<^item> A Go error is a value of \<open>err\<close>; a function that returns a value or an error has the type \<open>err + 'a\<close>, an update
    \<open>err option \<times> state\<close>. What a library, the database driver, the network or the clock answers is an argument:
    a record of answers, or \<open>q :: err option\<close> for the report of a statement.
  \<^item> A decimal is the rational it stands for. Division and rounding are a parameter \<open>decimal_pkg\<close> with the documented
    behaviour \<open>decimal_doc\<close>; writing to a \<^verbatim>\<open>NUMERIC\<close> column is a parameter \<open>numeric_col\<close>. A float64 in \<^theory_text>\<open>Routing\<close>
    is a rational and every operation rounds with a parameter; the sort of the standard library takes the order that
    the code gives it and is a parameter with its documented behaviour. Time is an integer of nanoseconds, and each
    reading of a clock that matters is an argument of its own; a timestamp is not rounded to the microseconds of the
    database, apart from the registration times of \<^theory_text>\<open>Anchors\<close>, whose order a property is about.
  \<^item> A Go \<^verbatim>\<open>int\<close> is an \<open>int\<close>, and a word where it can wrap (\<^theory_text>\<open>Signature\<close>, \<^theory_text>\<open>Xdc\<close>, \<^theory_text>\<open>Scval\<close>, \<^theory_text>\<open>Smart_Wallet\<close>). A string is its
    bytes. A column that is NULL is \<open>None\<close> or the empty text, as the code reads it. Where \<^verbatim>\<open>ORDER BY\<close> leaves ties
    open, rows keep the order of their insertion, apart from \<^theory_text>\<open>Anchors\<close>, where the database chooses.
  \<^item> JSON, HMAC, SHA-256, bcrypt, AES-GCM, XDR and strkey are parameters; a property that needs a round trip or an ideal
    cipher names it as a hypothesis, and its witness has a package with that behaviour.

  \<^bold>\<open>Loops.\<close> Every loop is structural over the list that the code walks or that the environment answers, or counts
  down from the constant of the code: three submissions, three requeues, five attempts at a webhook with
  fifteen seconds of waiting between them, the polls that a context allows. Rolling a schedule forward and the paging of the indexer are
  a \<^theory_text>\<open>partial_function\<close> each, shown to return. No fuel is used beyond these bounds.

  \<^bold>\<open>Not modelled.\<close> The wiring in \<^verbatim>\<open>cmd\<close> apart from the registered routes, alerts and logging: they only call
  libraries and keep no state the properties speak of. The formatting of JSON answers, the handlers that only decode
  and encode, and the OpenAPI description. The daily summary of the reconciliation and
  other reports that only read. Statements are atomic, as the database runs them; weaker isolation inside one is
  not modelled, apart from the locked rows of \<^theory_text>\<open>Idempotency\<close>, where other sessions may also run
  between the statements of one call.
\<close>

section \<open>A sweep, from the request to the network\<close>

text \<open>
  The route of the manual sweep: the guards of \<^verbatim>\<open>server.New\<close>, then the handler of the treasury, which
  does not see who asks.
\<close>

definition sweep_request ::
  "jwt_pkg \<Rightarrow> string \<Rightarrow> (string \<Rightarrow> string) \<Rightarrow> gate_env \<Rightarrow> decimal_pkg \<Rightarrow> numeric_col \<Rightarrow> treasury_service \<Rightarrow> sweep_env \<Rightarrow> string
    \<Rightarrow> string \<Rightarrow> string \<Rightarrow> string \<Rightarrow> world \<Rightarrow> accounts \<Rightarrow> treasury_state \<Rightarrow> (int + sweep_answer) \<times> accounts \<times> treasury_state" where
  "sweep_request J secret SHA G D N S X header asset amount dest w A st =
     (case admit J secret SHA (Some (\<lambda>t u. get_member None t u A)) G TreasuryChange header A of
        (Turned_Away c s, A1) \<Rightarrow> (Inl c, A1, st)
      | (Admitted i, A1) \<Rightarrow> (case manual_sweep D N S X asset amount dest w st of (r, st1) \<Rightarrow> (Inr r, A1, st1)))"

text \<open>A treasury without a buffer.\<close>

definition open_treasury :: treasury_state where
  "open_treasury = sample_treasury_state\<lparr>ts_configs := [sample_config\<lparr>tc_buffer := 0\<rparr>]\<rparr>"

text \<open>
  C23: whoever registers can have the platform's fee wallet pay to any address, with the token of the answer
  and nothing else: the route asks for an owner, and everybody owns the tenant of the registration.
\<close>

theorem registrant_sweeps_fee_wallet:
  assumes "register E r A = (Inr p, A1)"
    and "jw_unjson (av_jwt E) (jw_json (av_jwt E) c) = Some c"
    and "c = new_claims (av_clock E 1) (us_id (ap_user p)) (te_id (ap_tenant p)) ''owner'' (us_email (ap_user p)) ''access'' access_ttl"
    and "unix (gt_now G) \<le> unix (av_clock E 1 + access_ttl)"
    and "manual_sweep_amount D asset amount dest = Inr a" and "execute_sweep D N S X asset a dest ''manual'' w st = (Inr h, st')"
  shows "sweep_request (av_jwt E) (av_secret E) SHA G D N S X (''Bearer '' @ ap_access p) asset amount dest w A1 st
      = (Inr (Swept a h), A1, st')
    \<and> ts_sent st' = ts_sent st @ [(sweep_asset S asset, dest, d_round D a 7)]"
proof -
  have a: "a > 0" using assms(5) by (auto simp: manual_sweep_amount_def split: if_splits option.splits)
  have "ts_sent st' = ts_sent st @ [(sweep_asset S asset, dest, d_round D a 7)]"
    using execute_sweep_sent [OF assms(6)] a by fastforce
  then show ?thesis
    using registrant_admitted [OF assms(1-4), of SHA TreasuryChange] assms(5,6)
    by (simp add: sweep_request_def manual_sweep_def)
qed

lemma registrant_sweeps_fee_wallet_witness:
  "\<exists>p A1 st'. register (sample_auth\<lparr>av_uuid := (\<lambda>n. if n = 1 then ''t'' else ''u'')\<rparr>) sample_registration no_accounts = (Inr p, A1) \<and>
     sweep_request sample_jwt ''k'' (\<lambda>s. s) quiet_gate hundred_pkg exact_numeric sample_treasury sample_sweep
       (''Bearer '' @ ap_access p) ''XLM'' ''100.0000000'' ''GATTACKER'' empty_world A1 open_treasury = (Inr (Swept 100 ''h''), A1, st') \<and>
     ts_sent st' = [((''XLM'', ''''), ''GATTACKER'', d_round hundred_pkg 100 7)]"
proof -
  let ?E = "sample_auth\<lparr>av_uuid := (\<lambda>n. if n = 1 then ''t'' else ''u'')\<rparr>"
  obtain p A1 where run: "register ?E sample_registration no_accounts = (Inr p, A1)"
    and p: "us_id (ap_user p) = ''u''" "te_id (ap_tenant p) = ''t''" "us_email (ap_user p) = ''e''"
    by (simp add: register_def sample_auth_def sample_registration_def no_accounts_def account_of_text_def get_by_email_def
        create_user_def create_tenant_def add_member_def respond_def Let_def)
  have E: "av_jwt ?E = sample_jwt" "av_secret ?E = ''k''" "av_clock ?E 1 = 0" by (simp_all add: sample_auth_def)
  have j: "jw_unjson (av_jwt ?E) (jw_json (av_jwt ?E) (new_claims (av_clock ?E 1) (us_id (ap_user p)) (te_id (ap_tenant p)) ''owner''
      (us_email (ap_user p)) ''access'' access_ttl))
    = Some (new_claims (av_clock ?E 1) (us_id (ap_user p)) (te_id (ap_tenant p)) ''owner'' (us_email (ap_user p)) ''access'' access_ttl)"
    unfolding E p by (simp add: sample_jwt_def new_claims_def unix_def access_ttl_def duration_defs)
  have t: "unix (gt_now quiet_gate) \<le> unix (av_clock ?E 1 + access_ttl)"
    unfolding E by (simp add: quiet_gate_def unix_def access_ttl_def duration_defs)
  have m: "manual_sweep_amount hundred_pkg ''XLM'' ''100.0000000'' ''GATTACKER'' = Inr 100"
    by (simp add: manual_sweep_amount_def hundred_pkg_def)
  obtain st' where x: "execute_sweep hundred_pkg exact_numeric sample_treasury sample_sweep ''XLM'' 100 ''GATTACKER'' ''manual''
      empty_world open_treasury = (Inr ''h'', st')"
    by (simp add: execute_sweep_def get_sweepable_amount_def sample_treasury_defs open_treasury_def get_config_def fee_balances_def
        asset_code_def get_reserve_requirement_def get_reserve_breakdown_def list_wallet_public_keys_def empty_world_def Let_def)
  from registrant_sweeps_fee_wallet [OF run j refl t m x, of "\<lambda>s. s"] run show ?thesis
    unfolding E by (auto simp: sweep_asset_def open_treasury_def sample_treasury_state_def)
qed

end
